(* ===== verification/Prelude.thy ===== *)
theory Prelude
  imports Complex_Main "HOL-Library.AList" "HOL-Library.List_Lexorder" "HOL-Library.Char_ord" "HOL-Library.Multiset"
begin

text \<open>
  Shared vocabulary of the development: the pieces of Python's run-time library the backend
  uses (strings, slices, insertion-ordered dictionaries, stable sorting, decimal rounding),
  generic facts about them, and the interfaces (locales) several components share.

  Conventions. A Python \<open>str\<close> is a \<open>string\<close> whose characters stand for the code points
  0 to 255. A \<open>dict\<close> that is iterated is an association list in insertion order, updated
  with \<open>AList.update\<close> (which replaces in place and appends new keys, as Python does).
  A time stamp is an \<open>int\<close> number of microseconds since the Unix epoch in naive UTC, a
  \<open>timedelta\<close> an \<open>int\<close> number of microseconds. A \<open>float\<close> is an exact rational.
\<close>

named_theorems defs \<open>definitions a component unfolds to compute on concrete values\<close>
named_theorems lens \<open>lengths and bounds of the buffers and slices\<close>

type_synonym time = int

definition seconds :: "int \<Rightarrow> time" where
  "seconds n = n * 1000000"

definition minutes :: "int \<Rightarrow> time" where
  "minutes n = seconds (60 * n)"

definition hours :: "int \<Rightarrow> time" where
  "hours n = minutes (60 * n)"

definition days :: "int \<Rightarrow> time" where
  "days n = hours (24 * n)"

lemmas time_defs = seconds_def minutes_def hours_def days_def

section \<open>Strings\<close>

definition starts_with :: "string \<Rightarrow> string \<Rightarrow> bool" where
  "starts_with p s \<longleftrightarrow> take (length p) s = p"

definition ends_with :: "string \<Rightarrow> string \<Rightarrow> bool" where
  "ends_with p s \<longleftrightarrow> starts_with (rev p) (rev s)"

fun contains_str :: "string \<Rightarrow> string \<Rightarrow> bool" where
  "contains_str w [] = (w = [])"
| "contains_str w (c # cs) = (starts_with w (c # cs) \<or> contains_str w cs)"

definition lower_char :: "char \<Rightarrow> char" where
  "lower_char c = (let n = of_char c :: nat in
     if (65 \<le> n \<and> n \<le> 90) \<or> (192 \<le> n \<and> n \<le> 222 \<and> n \<noteq> 215) then char_of (n + 32) else c)"

definition upper_char :: "char \<Rightarrow> char" where
  "upper_char c = (let n = of_char c :: nat in
     if (97 \<le> n \<and> n \<le> 122) \<or> (224 \<le> n \<and> n \<le> 254 \<and> n \<noteq> 247) then char_of (n - 32) else c)"

definition lower :: "string \<Rightarrow> string" where
  "lower s = map lower_char s"

definition upper :: "string \<Rightarrow> string" where
  "upper s = map upper_char s"

definition is_space :: "char \<Rightarrow> bool" where
  "is_space c = (let n = of_char c :: nat in
     n = 32 \<or> (9 \<le> n \<and> n \<le> 13) \<or> (28 \<le> n \<and> n \<le> 31) \<or> n = 133 \<or> n = 160)"

definition strip :: "string \<Rightarrow> string" where
  "strip s = rev (dropWhile is_space (rev (dropWhile is_space s)))"

text \<open>\<open>str.isalnum\<close> of one character, and the class \<open>w\<close> of a regular expression.\<close>

definition is_alnum :: "char \<Rightarrow> bool" where
  "is_alnum c = (let n = of_char c :: nat in
     (48 \<le> n \<and> n \<le> 57) \<or> (65 \<le> n \<and> n \<le> 90) \<or> (97 \<le> n \<and> n \<le> 122)
     \<or> n = 170 \<or> n = 178 \<or> n = 179 \<or> n = 181 \<or> n = 185 \<or> n = 186
     \<or> (188 \<le> n \<and> n \<le> 190) \<or> (192 \<le> n \<and> n \<noteq> 215 \<and> n \<noteq> 247))"

definition is_word :: "char \<Rightarrow> bool" where
  "is_word c \<longleftrightarrow> is_alnum c \<or> c = CHR ''_''"

text \<open>\<open>str.encode()\<close>: UTF-8 of the code points below 256, bytes as characters.\<close>

definition utf8 :: "string \<Rightarrow> string" where
  "utf8 s = concat (map (\<lambda>c. let n = of_char c :: nat in
     if n < 128 then [c] else [char_of (192 + n div 64), char_of (128 + n mod 64)]) s)"

definition is_digit :: "char \<Rightarrow> bool" where
  "is_digit c = (let n = of_char c :: nat in 48 \<le> n \<and> n \<le> 57)"

definition digit_val :: "char \<Rightarrow> nat" where
  "digit_val c = of_char c - 48"

fun nat_of_digits :: "nat \<Rightarrow> string \<Rightarrow> nat" where
  "nat_of_digits acc [] = acc"
| "nat_of_digits acc (c # cs) = nat_of_digits (10 * acc + digit_val c) cs"

fun str_of_nat :: "nat \<Rightarrow> string" where
  "str_of_nat n =
     (if n < 10 then [char_of (48 + n)] else str_of_nat (n div 10) @ [char_of (48 + n mod 10)])"

declare str_of_nat.simps [simp del]

definition str_of_int :: "int \<Rightarrow> string" where
  "str_of_int i = (if i < 0 then ''-'' @ str_of_nat (nat (- i)) else str_of_nat (nat i))"

fun join_str :: "string \<Rightarrow> string list \<Rightarrow> string" where
  "join_str sep [] = []"
| "join_str sep [s] = s"
| "join_str sep (s # ss) = s @ sep @ join_str sep ss"

text \<open>\<open>str.split(sep)\<close> on a one-character separator.\<close>

fun split_on :: "char \<Rightarrow> string \<Rightarrow> string list" where
  "split_on d [] = [[]]"
| "split_on d (c # cs) =
     (if c = d then [] # split_on d cs
      else (case split_on d cs of [] \<Rightarrow> [[c]] | w # ws \<Rightarrow> (c # w) # ws))"

text \<open>\<open>str.partition(sep)\<close> on a one-character separator: the part before, and what follows
  the separator when it occurs.\<close>

fun partition_on :: "char \<Rightarrow> string \<Rightarrow> string \<times> string option" where
  "partition_on d [] = ([], None)"
| "partition_on d (c # cs) =
     (if c = d then ([], Some cs) else (case partition_on d cs of (a, b) \<Rightarrow> (c # a, b)))"

text \<open>Left-padding with zeros, the \<open>:06d\<close> of the incident keys.\<close>

definition zero_pad :: "nat \<Rightarrow> string \<Rightarrow> string" where
  "zero_pad n s = replicate (n - length s) (CHR ''0'') @ s"

lemma starts_with_Nil [simp]: "starts_with [] s"
  by (simp add: starts_with_def)

lemma starts_with_append [simp]: "starts_with p (p @ s)"
  by (simp add: starts_with_def)

lemma starts_with_iff: "starts_with p s \<longleftrightarrow> (\<exists>t. s = p @ t)"
  by (auto simp: starts_with_def) (metis append_take_drop_id)

lemma contains_str_iff: "contains_str w s \<longleftrightarrow> (\<exists>a b. s = a @ w @ b)"
proof (induction s)
  case Nil
  then show ?case by simp
next
  case (Cons c cs)
  show ?case
  proof
    assume "contains_str w (c # cs)"
    then consider "starts_with w (c # cs)" | "contains_str w cs" by auto
    then show "\<exists>a b. c # cs = a @ w @ b"
    proof cases
      case 1
      then show ?thesis by (metis append_Nil starts_with_iff)
    next
      case 2
      then show ?thesis using Cons.IH by (metis append_Cons)
    qed
  next
    assume "\<exists>a b. c # cs = a @ w @ b"
    then obtain a b where ab: "c # cs = a @ w @ b" by blast
    show "contains_str w (c # cs)"
    proof (cases a)
      case Nil
      with ab have "starts_with w (c # cs)" by (metis append_Nil starts_with_append)
      then show ?thesis by simp
    next
      case (Cons x xs)
      with ab have "cs = xs @ w @ b" by simp
      then show ?thesis using Cons.IH by auto
    qed
  qed
qed

lemma length_lower [simp]: "length (lower s) = length s"
  by (simp add: lower_def)

lemma lower_append [simp]: "lower (s @ t) = lower s @ lower t"
  by (simp add: lower_def)

lemma length_strip_le: "length (strip s) \<le> length s"
proof -
  have "length (strip s) \<le> length (dropWhile is_space s)"
    unfolding strip_def by (metis length_dropWhile_le length_rev)
  also have "\<dots> \<le> length s" by (rule length_dropWhile_le)
  finally show ?thesis .
qed

lemma str_of_nat_nonempty [simp]: "str_of_nat n \<noteq> []"
  by (subst str_of_nat.simps) simp

lemma nat_of_digits_append:
  "nat_of_digits a (s @ [c]) = 10 * nat_of_digits a s + digit_val c"
  by (induction s arbitrary: a) auto

lemma digit_val_char_of: "d < 10 \<Longrightarrow> digit_val (char_of (48 + d)) = d"
  by (simp add: digit_val_def)

lemma nat_of_digits_str_of_nat [simp]: "nat_of_digits 0 (str_of_nat n) = n"
proof (induction n rule: str_of_nat.induct)
  case (1 n)
  show ?case
  proof (cases "n < 10")
    case True
    then show ?thesis by (subst str_of_nat.simps) (simp add: digit_val_char_of)
  next
    case False
    with 1 have IH: "nat_of_digits 0 (str_of_nat (n div 10)) = n div 10" by simp
    have "n mod 10 < 10" by simp
    then have "digit_val (char_of (48 + n mod 10)) = n mod 10" by (rule digit_val_char_of)
    with False IH show ?thesis
      by (subst str_of_nat.simps) (simp add: nat_of_digits_append)
  qed
qed

lemma str_of_nat_inj [simp]: "str_of_nat m = str_of_nat n \<longleftrightarrow> m = n"
  by (metis nat_of_digits_str_of_nat)

lemma str_of_nat_digits: "c \<in> set (str_of_nat n) \<Longrightarrow> is_digit c"
proof (induction n rule: str_of_nat.induct)
  case (1 n)
  have d: "is_digit (char_of (48 + k))" if "k < 10" for k :: nat
    using that by (simp add: is_digit_def Let_def)
  show ?case
  proof (cases "n < 10")
    case True
    with 1 d show ?thesis by (subst (asm) str_of_nat.simps) simp
  next
    case False
    then have "c \<in> set (str_of_nat (n div 10)) \<or> c = char_of (48 + n mod 10)"
      using "1.prems" by (subst (asm) str_of_nat.simps) auto
    with False "1.IH" d show ?thesis by auto
  qed
qed

lemma zero_pad_value:
  "nat_of_digits 0 (zero_pad k (str_of_nat n)) = n"
proof -
  have "nat_of_digits 0 (replicate j (CHR ''0'') @ s) = nat_of_digits 0 s" for j s
    by (induction j) (simp_all add: digit_val_def)
  then show ?thesis by (simp add: zero_pad_def)
qed

lemma zero_pad_inj: "zero_pad k (str_of_nat m) = zero_pad k (str_of_nat n) \<longleftrightarrow> m = n"
  by (metis zero_pad_value)

section \<open>Slices and rounding\<close>

definition take_last :: "nat \<Rightarrow> 'a list \<Rightarrow> 'a list" where
  "take_last n xs = drop (length xs - n) xs"

lemma length_take_last [simp, lens]: "length (take_last n xs) = min n (length xs)"
  by (simp add: take_last_def)

lemma take_last_all [simp]: "length xs \<le> n \<Longrightarrow> take_last n xs = xs"
  by (simp add: take_last_def)

lemma take_last_append_take_last:
  "take_last n (take_last n xs @ ys) = take_last n (xs @ ys)"
proof (cases "length xs \<le> n")
  case False
  then show ?thesis by (simp add: take_last_def drop_append) (metis add.commute diff_diff_left diff_le_self drop_drop le_add_diff_inverse nat_le_linear)
qed simp

lemma set_take_last_subset: "set (take_last n xs) \<subseteq> set xs"
  by (simp add: take_last_def set_drop_subset)

lemma take_last_snoc: "0 < n \<Longrightarrow> take_last n (xs @ [x]) = take_last (n - 1) xs @ [x]"
  by (cases n) (simp_all add: take_last_def)

text \<open>Round half to even, and Python's \<open>round(x, n)\<close>.\<close>

definition round_half_even :: "rat \<Rightarrow> int" where
  "round_half_even x = (let f = \<lfloor>x\<rfloor>; d = x - of_int f in
     if d < 1 / 2 then f else if d > 1 / 2 then f + 1 else if even f then f else f + 1)"

definition py_round :: "nat \<Rightarrow> rat \<Rightarrow> rat" where
  "py_round n x = of_int (round_half_even (x * 10 ^ n)) / 10 ^ n"

lemma round_half_even_mono: "x \<le> y \<Longrightarrow> round_half_even x \<le> round_half_even y"
proof -
  assume xy: "x \<le> y"
  then have fl: "\<lfloor>x\<rfloor> \<le> \<lfloor>y\<rfloor>" by (rule floor_mono)
  show ?thesis
  proof (cases "\<lfloor>x\<rfloor> = \<lfloor>y\<rfloor>")
    case True
    with xy show ?thesis by (auto simp: round_half_even_def Let_def)
  next
    case False
    with fl have "\<lfloor>x\<rfloor> + 1 \<le> \<lfloor>y\<rfloor>" by simp
    then show ?thesis by (auto simp: round_half_even_def Let_def)
  qed
qed

lemma round_half_even_of_int [simp]: "round_half_even (of_int i) = i"
  by (simp add: round_half_even_def)

lemma py_round_mono: "x \<le> y \<Longrightarrow> py_round n x \<le> py_round n y"
  unfolding py_round_def
  by (intro divide_right_mono) (simp_all add: round_half_even_mono mult_right_mono)

lemma py_round_of_int [simp]: "py_round n (of_int i) = of_int i"
proof -
  have "(of_int i * 10 ^ n :: rat) = of_int (i * 10 ^ n)" by simp
  then have "round_half_even (of_int i * 10 ^ n) = i * 10 ^ n"
    by (simp only: round_half_even_of_int)
  then show ?thesis by (simp add: py_round_def)
qed

lemma py_round_0 [simp]: "py_round n 0 = 0"
  using py_round_of_int[of n 0] by simp

lemma py_round_numeral [simp]: "py_round n (numeral k) = numeral k"
  using py_round_of_int[of n "numeral k"] by simp

lemma py_round_1 [simp]: "py_round n 1 = 1"
  using py_round_of_int[of n 1] by simp

section \<open>Lists of rows\<close>

text \<open>The \<open>seen = set()\<close> loop: keep the first element of each key, in order.\<close>

fun dedup_seen :: "('a \<Rightarrow> 'k) \<Rightarrow> 'k list \<Rightarrow> 'a list \<Rightarrow> 'a list" where
  "dedup_seen f seen [] = []"
| "dedup_seen f seen (x # xs) =
     (if f x \<in> set seen then dedup_seen f seen xs
      else x # dedup_seen f (f x # seen) xs)"

definition dedup_on :: "('a \<Rightarrow> 'k) \<Rightarrow> 'a list \<Rightarrow> 'a list" where
  "dedup_on f xs = dedup_seen f [] xs"

lemma set_dedup_seen: "f ` set (dedup_seen f seen xs) = f ` set xs - set seen"
  by (induction xs arbitrary: seen) auto

lemma dedup_seen_subset: "set (dedup_seen f seen xs) \<subseteq> set xs"
proof (induction xs arbitrary: seen)
  case (Cons x xs)
  then show ?case by (auto dest: subsetD)
qed simp

lemma distinct_dedup_seen: "distinct (map f (dedup_seen f seen xs))"
proof (induction xs arbitrary: seen)
  case (Cons x xs)
  have "f x \<notin> f ` set (dedup_seen f (f x # seen) xs)"
    by (simp add: set_dedup_seen)
  with Cons show ?case by simp
qed simp

lemma dedup_seen_id:
  "distinct (map f xs) \<Longrightarrow> f ` set xs \<inter> set seen = {} \<Longrightarrow> dedup_seen f seen xs = xs"
  by (induction xs arbitrary: seen) auto

lemma distinct_dedup_on [simp]: "distinct (map f (dedup_on f xs))"
  by (simp add: dedup_on_def distinct_dedup_seen)

lemma keys_dedup_on [simp]: "f ` set (dedup_on f xs) = f ` set xs"
  by (simp add: dedup_on_def set_dedup_seen)

lemma dedup_on_subset: "x \<in> set (dedup_on f xs) \<Longrightarrow> x \<in> set xs"
  using dedup_seen_subset by (fastforce simp: dedup_on_def)

lemma dedup_on_idem [simp]: "distinct (map f xs) \<Longrightarrow> dedup_on f xs = xs"
  by (simp add: dedup_on_def dedup_seen_id)

lemma set_dedup_on_id [simp]: "set (dedup_on (\<lambda>x. x) xs) = set xs"
  using keys_dedup_on[of "\<lambda>x. x" xs] by simp

lemma distinct_dedup_on_id [simp]: "distinct (dedup_on (\<lambda>x. x) xs)"
  using distinct_dedup_on[of "\<lambda>x. x" xs] by simp

lemma length_dedup_on_le: "length (dedup_on f xs) \<le> length xs"
proof -
  have "length (dedup_seen f seen xs) \<le> length xs" for seen
    by (induction xs arbitrary: seen) (auto simp: le_SucI)
  then show ?thesis by (simp add: dedup_on_def)
qed

lemma dedup_seen_snoc:
  "dedup_seen f seen (xs @ [x]) = dedup_seen f seen xs @ (if f x \<in> set seen \<union> f ` set xs then [] else [x])"
  by (induction xs arbitrary: seen) auto

lemma dedup_on_snoc: "dedup_on f (xs @ [x]) = (if f x \<in> f ` set xs then dedup_on f xs else dedup_on f xs @ [x])"
  by (simp add: dedup_on_def dedup_seen_snoc)

text \<open>A new key is appended to an association list.\<close>

lemma update_new: "k \<notin> fst ` set al \<Longrightarrow> AList.update k x al = al @ [(k, x)]"
  by (induction al) auto

lemma update_keys_in: "k \<in> fst ` set al \<Longrightarrow> map fst (AList.update k x al) = map fst al"
  by (induction al) auto

text \<open>\<open>groups.setdefault(key(x), []).append(x)\<close> over a list: groups in order of first
  appearance, members in list order. Elements whose key is \<open>None\<close> are skipped.\<close>

fun add_to_group :: "'k \<Rightarrow> 'a \<Rightarrow> ('k \<times> 'a list) list \<Rightarrow> ('k \<times> 'a list) list" where
  "add_to_group k x [] = [(k, [x])]"
| "add_to_group k x ((k', xs) # gs) =
     (if k = k' then (k', xs @ [x]) # gs else (k', xs) # add_to_group k x gs)"

fun group_step :: "('a \<Rightarrow> 'k option) \<Rightarrow> ('k \<times> 'a list) list \<Rightarrow> 'a \<Rightarrow> ('k \<times> 'a list) list" where
  "group_step f gs x = (case f x of None \<Rightarrow> gs | Some k \<Rightarrow> add_to_group k x gs)"

definition group_on :: "('a \<Rightarrow> 'k option) \<Rightarrow> 'a list \<Rightarrow> ('k \<times> 'a list) list" where
  "group_on f xs = foldl (group_step f) [] xs"

lemma fst_add_to_group:
  "fst ` set (add_to_group k x gs) = insert k (fst ` set gs)"
  by (induction k x gs rule: add_to_group.induct) auto

lemma distinct_add_to_group:
  "distinct (map fst gs) \<Longrightarrow> distinct (map fst (add_to_group k x gs))"
proof (induction k x gs rule: add_to_group.induct)
  case (2 k x k' xs gs)
  then show ?case
    using fst_add_to_group[of k x gs] by (auto simp: image_iff)
qed simp

lemma map_of_add_to_group:
  "map_of (add_to_group k x gs) =
     (map_of gs)(k \<mapsto> (case map_of gs k of None \<Rightarrow> [x] | Some xs \<Rightarrow> xs @ [x]))"
  by (induction k x gs rule: add_to_group.induct) (auto simp: fun_eq_iff)

lemma group_on_snoc: "group_on f (xs @ [x]) = group_step f (group_on f xs) x"
  by (simp add: group_on_def)

lemma distinct_group_on: "distinct (map fst (group_on f xs))"
proof (induction xs rule: rev_induct)
  case (snoc x xs)
  then show ?case
    by (auto simp: group_on_snoc distinct_add_to_group split: option.splits)
qed (simp add: group_on_def)

lemma map_of_group_on:
  "map_of (group_on f xs) k =
     (if \<exists>x \<in> set xs. f x = Some k then Some (filter (\<lambda>x. f x = Some k) xs) else None)"
proof (induction xs rule: rev_induct)
  case (snoc x xs)
  show ?case
  proof (cases "f x")
    case None
    with snoc show ?thesis by (auto simp: group_on_snoc)
  next
    case (Some k')
    with snoc show ?thesis
      by (auto simp: group_on_snoc map_of_add_to_group filter_empty_conv)
  qed
qed (simp add: group_on_def)

lemma in_group_on:
  "(k, ys) \<in> set (group_on f xs) \<longleftrightarrow>
     (\<exists>x \<in> set xs. f x = Some k) \<and> ys = filter (\<lambda>x. f x = Some k) xs"
proof -
  have "(k, ys) \<in> set (group_on f xs) \<longleftrightarrow> map_of (group_on f xs) k = Some ys"
    by (simp add: distinct_group_on)
  then show ?thesis by (auto simp: map_of_group_on)
qed

text \<open>Stable ascending and descending sorts, as \<open>list.sort\<close> does them.\<close>

definition sort_desc :: "('a \<Rightarrow> 'k::linorder) \<Rightarrow> 'a list \<Rightarrow> 'a list" where
  "sort_desc f xs = rev (sort_key f (rev xs))"

lemma set_sort_desc [simp]: "set (sort_desc f xs) = set xs"
  by (simp add: sort_desc_def)

lemma length_sort_desc [simp]: "length (sort_desc f xs) = length xs"
  by (simp add: sort_desc_def)

lemma sorted_sort_desc: "sorted_wrt (\<lambda>x y. f y \<le> f x) (sort_desc f xs)"
proof -
  have "sorted (map f (sort_key f (rev xs)))" by simp
  then show ?thesis
    by (simp add: sort_desc_def sorted_wrt_rev sorted_map)
qed

text \<open>\<open>sorted(set(xs))\<close>.\<close>

definition sorted_set :: "'a::linorder list \<Rightarrow> 'a list" where
  "sorted_set xs = sort (remdups xs)"

lemma set_sorted_set [simp]: "set (sorted_set xs) = set xs"
  by (simp add: sorted_set_def)

lemma distinct_sorted_set [simp]: "distinct (sorted_set xs)"
  by (simp add: sorted_set_def)

lemma sorted_sorted_set [simp]: "sorted (sorted_set xs)"
  by (simp add: sorted_set_def)

text \<open>\<open>max(xs or [d])\<close>.\<close>

definition max_or :: "'a::linorder \<Rightarrow> 'a list \<Rightarrow> 'a" where
  "max_or d xs = (case xs of [] \<Rightarrow> d | y # ys \<Rightarrow> foldl max y ys)"

lemma foldl_max_ge_acc: "(a::'a::linorder) \<le> foldl max a xs"
proof (induction xs arbitrary: a)
  case (Cons x xs)
  have "a \<le> max a x" by simp
  also have "\<dots> \<le> foldl max (max a x) xs" by (rule Cons)
  finally show ?case by simp
qed simp

lemma foldl_max_ge: "x \<in> set xs \<Longrightarrow> (x::'a::linorder) \<le> foldl max a xs"
proof (induction xs arbitrary: a)
  case (Cons y ys)
  have "y \<le> foldl max (max a y) ys"
    using foldl_max_ge_acc[of "max a y" ys] by simp
  with Cons show ?case by auto
qed simp

lemma foldl_max_in: "foldl max (a::'a::linorder) xs \<in> insert a (set xs)"
proof (induction xs arbitrary: a)
  case (Cons x xs)
  from Cons[of "max a x"] show ?case by (auto simp: max_def)
qed simp

lemma max_or_in: "max_or d xs \<in> insert d (set xs)"
  using foldl_max_in by (fastforce simp: max_or_def split: list.splits)

lemma max_or_ge: "x \<in> set xs \<Longrightarrow> x \<le> max_or d xs"
  by (auto simp: max_or_def foldl_max_ge foldl_max_ge_acc split: list.splits)

lemma max_or_in_list: "xs \<noteq> [] \<Longrightarrow> max_or d xs \<in> set xs"
  using foldl_max_in by (fastforce simp: max_or_def split: list.splits)

lemma max_or_Nil [simp]: "max_or d [] = d"
  by (simp add: max_or_def)

section \<open>Interfaces\<close>

text \<open>
  A bounded buffer that drops its oldest element: the per-subscriber queues of the event bus,
  the \<open>deque(maxlen=N)\<close> of latency samples and the capped id list of an indicator all
  promise that what they hold is the last \<open>cap\<close> elements put into them.
\<close>

locale ring_buffer =
  fixes cap :: nat
    and contents :: "'q \<Rightarrow> 'm list"
    and put :: "'m \<Rightarrow> 'q \<Rightarrow> 'q"
  assumes contents_put:
    "length (contents q) \<le> cap \<Longrightarrow> contents (put m q) = take_last cap (contents q @ [m])"
begin

lemma put_bounded: "length (contents q) \<le> cap \<Longrightarrow> length (contents (put m q)) \<le> cap"
  by (simp add: contents_put)

lemma contents_fold_put:
  "length (contents q) \<le> cap \<Longrightarrow> contents (fold put ms q) = take_last cap (contents q @ ms)"
proof (induction ms arbitrary: q)
  case (Cons m ms)
  from Cons.prems have "contents (fold put ms (put m q)) = take_last cap (contents (put m q) @ ms)"
    by (intro Cons.IH put_bounded)
  also have "\<dots> = take_last cap (contents q @ m # ms)"
    using Cons.prems by (simp add: contents_put take_last_append_take_last)
  finally show ?case by simp
qed simp

lemma fold_put_bounded:
  "length (contents q) \<le> cap \<Longrightarrow> length (contents (fold put ms q)) \<le> cap"
  by (simp add: contents_fold_put)

end

text \<open>
  A table with a unique key whose insertion ignores a row that is already there
  (\<open>INSERT IGNORE\<close>, or a look-up before the insert).
\<close>

locale keyed_store =
  fixes rows :: "'s \<Rightarrow> 'r list"
    and key :: "'r \<Rightarrow> 'k"
    and ins :: "'r \<Rightarrow> 's \<Rightarrow> 's"
  assumes rows_ins:
    "rows (ins r s) = (if key r \<in> key ` set (rows s) then rows s else rows s @ [r])"
begin

lemma keys_fold_ins: "key ` set (rows (fold ins rs s)) = key ` set (rows s) \<union> key ` set rs"
proof (induction rs arbitrary: s)
  case (Cons r rs)
  then show ?case by (auto simp: rows_ins)
qed simp

lemma distinct_ins: "distinct (map key (rows s)) \<Longrightarrow> distinct (map key (rows (ins r s)))"
  by (simp add: rows_ins)

lemma distinct_fold_ins:
  "distinct (map key (rows s)) \<Longrightarrow> distinct (map key (rows (fold ins rs s)))"
  by (induction rs arbitrary: s) (simp_all add: distinct_ins)

lemma fold_ins_known:
  "key ` set rs \<subseteq> key ` set (rows s) \<Longrightarrow> rows (fold ins rs s) = rows s"
proof (induction rs arbitrary: s)
  case (Cons r rs)
  then have "rows (ins r s) = rows s" by (simp add: rows_ins)
  with Cons show ?case by simp
qed simp

lemma fold_ins_again: "rows (fold ins rs (fold ins rs s)) = rows (fold ins rs s)"
  by (rule fold_ins_known) (simp add: keys_fold_ins)

lemma fold_ins_fresh:
  "distinct (map key rs) \<Longrightarrow> key ` set rs \<inter> key ` set (rows s) = {} \<Longrightarrow>
   rows (fold ins rs s) = rows s @ rs"
proof (induction rs arbitrary: s)
  case (Cons r rs)
  then have "rows (ins r s) = rows s @ [r]" by (simp add: rows_ins)
  with Cons show ?case by auto
qed simp

lemma fold_ins_keeps: "\<exists>ts. rows (fold ins rs s) = rows s @ ts"
proof (induction rs arbitrary: s)
  case (Cons r rs)
  from Cons[of "ins r s"] obtain ts where "rows (fold ins rs (ins r s)) = rows (ins r s) @ ts" ..
  then show ?case by (auto simp: rows_ins split: if_splits)
qed simp

end

text \<open>A component that reacts to events and keeps an invariant in every run.\<close>

locale event_machine =
  fixes step :: "'s \<Rightarrow> 'e \<Rightarrow> 's"
    and inv :: "'s \<Rightarrow> bool"
  assumes step_inv: "inv s \<Longrightarrow> inv (step s e)"
begin

lemma run_inv: "inv s \<Longrightarrow> inv (foldl step s es)"
  by (induction es arbitrary: s) (simp_all add: step_inv)

end

end
