(* ===== verification/Event_Bus.thy ===== *)
theory Event_Bus
  imports Prelude
begin

text \<open>
  The in-process publish/subscribe bus (\<open>backend/app/services/event_bus.py\<close>).

  A subscriber is an \<open>asyncio.Queue(maxsize=256)\<close>, identified here by the number under which
  \<open>open\<close> registered it, with the channels it asked for (\<open>None\<close> for all of them) and the
  messages it holds, oldest first. A message is a pair of a channel and a payload. The calls
  of a queue's consumer (\<open>queue.get\<close>) are the step \<open>Get\<close>.
\<close>

definition SUBSCRIBER_QUEUE_SIZE :: nat where
  "SUBSCRIBER_QUEUE_SIZE = 256"

type_synonym 'p message = "string \<times> 'p"
type_synonym 'p subscriber = "nat \<times> string list option \<times> 'p message list"

record 'p event_bus =
  subscribers :: "'p subscriber list"
  dropped :: nat
  published :: "(string \<times> nat) list"
  next_queue :: nat

definition new_bus :: "'p event_bus" where
  "new_bus = \<lparr>subscribers = [], dropped = 0, published = [], next_queue = 0\<rparr>"

definition subscriber_count :: "'p event_bus \<Rightarrow> nat" where
  "subscriber_count b = length (subscribers b)"

text \<open>\<open>put_nowait\<close>: \<open>None\<close> is the \<open>QueueFull\<close> exception.\<close>

definition put_nowait :: "'p message \<Rightarrow> 'p message list \<Rightarrow> 'p message list option" where
  "put_nowait m q = (if SUBSCRIBER_QUEUE_SIZE \<le> length q then None else Some (q @ [m]))"

text \<open>One delivery: put the message; when the queue is full count a drop, discard the oldest
  message and put again. The exceptions of the second attempt are swallowed.\<close>

definition deliver :: "'p message \<Rightarrow> 'p message list \<times> nat \<Rightarrow> 'p message list \<times> nat" where
  "deliver m = (\<lambda>(q, d).
     case put_nowait m q of
       Some q' \<Rightarrow> (q', d)
     | None \<Rightarrow>
         (case q of
            [] \<Rightarrow> (q, d + 1)
          | _ # rest \<Rightarrow>
              (case put_nowait m rest of Some q' \<Rightarrow> (q', d + 1) | None \<Rightarrow> (rest, d + 1))))"

definition wants :: "string list option \<Rightarrow> string \<Rightarrow> bool" where
  "wants channels ch = (case channels of None \<Rightarrow> True | Some cs \<Rightarrow> ch \<in> set cs)"

fun fan_out :: "'p message \<Rightarrow> 'p subscriber list \<Rightarrow> nat \<Rightarrow> 'p subscriber list \<times> nat" where
  "fan_out m [] d = ([], d)"
| "fan_out m ((i, channels, q) # subs) d =
     (if wants channels (fst m)
      then (let (q', d') = deliver m (q, d); (subs', d'') = fan_out m subs d'
            in ((i, channels, q') # subs', d''))
      else (let (subs', d'') = fan_out m subs d in ((i, channels, q) # subs', d'')))"

definition publish :: "string \<Rightarrow> 'p \<Rightarrow> 'p event_bus \<Rightarrow> 'p event_bus" where
  "publish ch payload b =
     (let n = (case map_of (published b) ch of None \<Rightarrow> 0 | Some n \<Rightarrow> n);
          (subs, d) = fan_out (ch, payload) (subscribers b) (dropped b)
      in b\<lparr>published := AList.update ch (n + 1) (published b),
           subscribers := subs, dropped := d\<rparr>)"

definition publish_many :: "string \<Rightarrow> 'p list \<Rightarrow> 'p event_bus \<Rightarrow> 'p event_bus" where
  "publish_many ch payloads b = fold (publish ch) payloads b"

definition open_queue :: "string list option \<Rightarrow> 'p event_bus \<Rightarrow> nat \<times> 'p event_bus" where
  "open_queue channels b =
     (next_queue b,
      b\<lparr>subscribers := subscribers b @ [(next_queue b, channels, [])],
        next_queue := next_queue b + 1\<rparr>)"

definition close_queue :: "nat \<Rightarrow> 'p event_bus \<Rightarrow> 'p event_bus" where
  "close_queue i b = b\<lparr>subscribers := filter (\<lambda>s. fst s \<noteq> i) (subscribers b)\<rparr>"

text \<open>The consumer takes the oldest message of its queue (it waits, i.e. nothing happens, while
  the queue is empty).\<close>

definition take_message :: "nat \<Rightarrow> 'p event_bus \<Rightarrow> 'p event_bus" where
  "take_message i b = b\<lparr>subscribers :=
     map (\<lambda>(j, channels, q). if j = i then (j, channels, tl q) else (j, channels, q)) (subscribers b)\<rparr>"

definition queue_of :: "nat \<Rightarrow> 'p event_bus \<Rightarrow> (string list option \<times> 'p message list) option" where
  "queue_of i b = map_of (subscribers b) i"

datatype 'p bus_op =
    Publish string 'p
  | Publish_Many string "'p list"
  | Open "string list option"
  | Close nat
  | Get nat

fun bus_step :: "'p event_bus \<Rightarrow> 'p bus_op \<Rightarrow> 'p event_bus" where
  "bus_step b (Publish ch p) = publish ch p b"
| "bus_step b (Publish_Many ch ps) = publish_many ch ps b"
| "bus_step b (Open channels) = snd (open_queue channels b)"
| "bus_step b (Close i) = close_queue i b"
| "bus_step b (Get i) = take_message i b"

section \<open>A queue is a ring buffer\<close>

lemma queue_size_pos [simp]: "0 < SUBSCRIBER_QUEUE_SIZE"
  by (simp add: SUBSCRIBER_QUEUE_SIZE_def)

lemma deliver_below:
  "length q < SUBSCRIBER_QUEUE_SIZE \<Longrightarrow> deliver m (q, d) = (q @ [m], d)"
  by (simp add: deliver_def put_nowait_def)

lemma deliver_full:
  assumes "length q = SUBSCRIBER_QUEUE_SIZE"
  shows "deliver m (q, d) = (tl q @ [m], d + 1)"
proof (cases q)
  case Nil
  with assms queue_size_pos show ?thesis by simp
next
  case (Cons x rest)
  with assms have "length rest < SUBSCRIBER_QUEUE_SIZE" by simp
  with Cons assms show ?thesis by (simp add: deliver_def put_nowait_def)
qed

lemma deliver_take_last:
  assumes "length q \<le> SUBSCRIBER_QUEUE_SIZE"
  shows "fst (deliver m (q, d)) = take_last SUBSCRIBER_QUEUE_SIZE (q @ [m])"
proof (cases "length q = SUBSCRIBER_QUEUE_SIZE")
  case True
  then show ?thesis
    using queue_size_pos by (cases q) (auto simp: deliver_full take_last_def)
next
  case False
  with assms show ?thesis by (simp add: deliver_below)
qed

interpretation bus_queue: ring_buffer SUBSCRIBER_QUEUE_SIZE fst deliver
proof unfold_locales
  fix q :: "'p message list \<times> nat" and m
  assume "length (fst q) \<le> SUBSCRIBER_QUEUE_SIZE"
  then show "fst (deliver m q) = take_last SUBSCRIBER_QUEUE_SIZE (fst q @ [m])"
    by (cases q) (simp add: deliver_take_last)
qed

text \<open>Every message ever put into a queue is either still in it or counted as dropped.\<close>

lemma deliver_conserves:
  "length q \<le> SUBSCRIBER_QUEUE_SIZE \<Longrightarrow>
   length (fst (deliver m (q, d))) + snd (deliver m (q, d)) = length q + d + 1"
proof (cases "length q = SUBSCRIBER_QUEUE_SIZE")
  case True
  with queue_size_pos have "0 < length q" by simp
  with True show ?thesis by (simp add: deliver_full)
next
  case False
  assume "length q \<le> SUBSCRIBER_QUEUE_SIZE"
  with False show ?thesis by (simp add: deliver_below)
qed

section \<open>Fan-out\<close>

definition bus_wf :: "'p event_bus \<Rightarrow> bool" where
  "bus_wf b \<longleftrightarrow> distinct (map fst (subscribers b))
     \<and> (\<forall>(i, channels, q) \<in> set (subscribers b). i < next_queue b \<and> length q \<le> SUBSCRIBER_QUEUE_SIZE)"

definition held :: "'p subscriber list \<Rightarrow> nat" where
  "held subs = sum_list (map (\<lambda>(i, channels, q). length q) subs)"

lemma fan_out_map:
  "\<forall>(i, channels, q) \<in> set subs. length q \<le> SUBSCRIBER_QUEUE_SIZE \<Longrightarrow>
   fst (fan_out m subs d) =
     map (\<lambda>(i, channels, q).
       (i, channels, if wants channels (fst m) then take_last SUBSCRIBER_QUEUE_SIZE (q @ [m]) else q)) subs"
proof (induction subs arbitrary: d)
  case (Cons s subs)
  obtain i channels q where "s = (i, channels, q)" by (cases s)
  with Cons show ?case by (simp add: Let_def split_beta deliver_take_last)
qed simp

lemma fan_out_conserves:
  "\<forall>(i, channels, q) \<in> set subs. length q \<le> SUBSCRIBER_QUEUE_SIZE \<Longrightarrow>
   held (fst (fan_out m subs d)) + snd (fan_out m subs d)
     = held subs + d + length (filter (\<lambda>(i, channels, q). wants channels (fst m)) subs)"
proof (induction subs arbitrary: d)
  case (Cons s subs)
  obtain i channels q where s: "s = (i, channels, q)" by (cases s)
  with Cons.prems have q: "length q \<le> SUBSCRIBER_QUEUE_SIZE"
    and rest: "\<forall>(i, channels, q) \<in> set subs. length q \<le> SUBSCRIBER_QUEUE_SIZE" by simp_all
  show ?case
    using Cons.IH[OF rest, of d] Cons.IH[OF rest, of "snd (deliver m (q, d))"]
      deliver_conserves[OF q, of m d]
    by (simp add: s Let_def split_beta held_def)
qed (simp add: held_def)

lemma subscribers_publish:
  "bus_wf b \<Longrightarrow> subscribers (publish ch p b) =
     map (\<lambda>(i, channels, q).
       (i, channels, if wants channels ch then take_last SUBSCRIBER_QUEUE_SIZE (q @ [(ch, p)]) else q))
     (subscribers b)"
  unfolding publish_def bus_wf_def
  by (subst fan_out_map[of "subscribers b" "(ch, p)" "dropped b", simplified, symmetric])
     (auto simp: Let_def split_beta)

lemma next_queue_publish [simp]: "next_queue (publish ch p b) = next_queue b"
  by (simp add: publish_def Let_def split_beta)

lemma publish_wf: "bus_wf b \<Longrightarrow> bus_wf (publish ch p b)"
proof -
  assume wf: "bus_wf b"
  have ids: "map fst (subscribers (publish ch p b)) = map fst (subscribers b)"
    using subscribers_publish[OF wf] by (simp add: comp_def split_beta)
  show ?thesis
    unfolding bus_wf_def ids
    using wf subscribers_publish[OF wf] by (auto simp: bus_wf_def)
qed

lemma publish_many_wf: "bus_wf b \<Longrightarrow> bus_wf (publish_many ch ps b)"
  unfolding publish_many_def by (induction ps arbitrary: b) (simp_all add: publish_wf)

lemma open_queue_wf: "bus_wf b \<Longrightarrow> bus_wf (snd (open_queue channels b))"
  by (fastforce simp: bus_wf_def open_queue_def)

lemma close_queue_wf: "bus_wf b \<Longrightarrow> bus_wf (close_queue i b)"
  by (auto simp: bus_wf_def close_queue_def distinct_map_filter)

lemma take_message_wf: "bus_wf b \<Longrightarrow> bus_wf (take_message i b)"
proof -
  assume wf: "bus_wf b"
  have ids: "map fst (subscribers (take_message i b)) = map fst (subscribers b)"
    by (auto simp: take_message_def)
  show ?thesis
    unfolding bus_wf_def ids
    using wf by (fastforce simp: bus_wf_def take_message_def split: if_splits)
qed

lemma new_bus_wf [simp]: "bus_wf new_bus"
  by (simp add: bus_wf_def new_bus_def)

interpretation bus: event_machine bus_step bus_wf
proof unfold_locales
  fix b :: "'p event_bus" and e
  assume "bus_wf b"
  then show "bus_wf (bus_step b e)"
    by (cases e) (simp_all add: publish_wf publish_many_wf open_queue_wf close_queue_wf take_message_wf)
qed

section \<open>Properties\<close>

lemma queue_of_publish:
  assumes "bus_wf b" and "queue_of i b = Some (channels, q)"
  shows "queue_of i (publish ch p b) =
    Some (channels, if wants channels ch then take_last SUBSCRIBER_QUEUE_SIZE (q @ [(ch, p)]) else q)"
proof -
  have "map_of (map (\<lambda>(i, channels, q). (i, channels, f channels q)) subs) i
      = map_option (\<lambda>(channels, q). (channels, f channels q)) (map_of subs i)"
    for f :: "string list option \<Rightarrow> 'a message list \<Rightarrow> 'a message list" and subs
    by (induction subs) auto
  then show ?thesis
    using assms by (simp add: queue_of_def subscribers_publish)
qed

text \<open>Over any sequence of publications, subscriptions, cancellations and reads from the
  freshly started bus, no subscriber's queue ever holds more than 256 messages.\<close>

theorem bus_queues_bounded:
  "list_all (\<lambda>(i, channels, q). length q \<le> SUBSCRIBER_QUEUE_SIZE)
     (subscribers (foldl bus_step new_bus ops))"
proof -
  have "bus_wf (foldl bus_step new_bus ops)" by (rule bus.run_inv) simp
  then show ?thesis by (auto simp: bus_wf_def list_all_iff)
qed

text \<open>C23. Publishing a batch shows each interested subscriber the newest 256 of its backlog
  followed by the batch, in order, and leaves every other subscriber's queue as it was.\<close>

theorem publish_many_queue:
  assumes "bus_wf b" and "queue_of i b = Some (channels, q)"
  shows "queue_of i (publish_many ch ps b) =
    Some (channels, if wants channels ch
      then take_last SUBSCRIBER_QUEUE_SIZE (q @ map (Pair ch) ps) else q)"
  using assms
proof (induction ps arbitrary: b q)
  case Nil
  then show ?case by (force simp: publish_many_def bus_wf_def queue_of_def dest: map_of_SomeD)
next
  case (Cons p ps)
  from Cons.IH[OF publish_wf[OF Cons.prems(1)] queue_of_publish[OF Cons.prems]]
  show ?case by (simp add: publish_many_def take_last_append_take_last split: if_splits)
qed

theorem publish_many_queue_witness:
  "queue_of 1 (publish_many ''event'' [10, 20 :: nat]
     (snd (open_queue (Some [''event'']) (snd (open_queue None new_bus)))))
   = Some (Some [''event''], [(''event'', 10), (''event'', 20)])"
proof -
  let ?b = "snd (open_queue (Some [''event'']) (snd (open_queue None new_bus))) :: nat event_bus"
  have "bus_wf ?b" by (intro open_queue_wf new_bus_wf)
  moreover have "queue_of 1 ?b = Some (Some [''event''], [])"
    by (simp add: open_queue_def queue_of_def new_bus_def)
  ultimately show ?thesis
    using publish_many_queue[of ?b 1 "Some [''event'']" "[]" "''event''" "[10, 20]"]
    by (simp add: wants_def SUBSCRIBER_QUEUE_SIZE_def)
qed

text \<open>The drop counter is exact: a publication delivers one message to each interested
  subscriber, and what the queues hold plus what was dropped grows by exactly that many.\<close>

theorem publish_conserves_messages:
  assumes "bus_wf b"
  shows "held (subscribers (publish ch p b)) + dropped (publish ch p b)
    = held (subscribers b) + dropped b
      + length (filter (\<lambda>(i, channels, q). wants channels ch) (subscribers b))"
  using assms fan_out_conserves[of "subscribers b" "(ch, p)" "dropped b"]
  by (auto simp: publish_def bus_wf_def Let_def split_beta)

theorem publish_conserves_messages_witness:
  "let b = snd (open_queue None new_bus) :: nat event_bus in
   bus_wf b \<and> held (subscribers (publish ''event'' 7 b)) + dropped (publish ''event'' 7 b) = 1"
proof -
  let ?b = "snd (open_queue None new_bus) :: nat event_bus"
  have wf: "bus_wf ?b" by (intro open_queue_wf new_bus_wf)
  show ?thesis
    using wf publish_conserves_messages[OF wf, of "''event''" 7]
    by (simp add: open_queue_def new_bus_def held_def wants_def)
qed

end
