(* ===== verification/Json.thy ===== *)
theory Json
  imports Prelude
begin

text \<open>
  JSON values as \<open>json.loads\<close> gives them to the backend, and what Python does with them:
  truth value, \<open>str\<close>, \<open>int\<close>, \<open>dict.get\<close> and \<open>json.dumps\<close>. A float carries its value and
  its shortest decimal text (its \<open>repr\<close>); infinities and NaN are left out. The pairs of an
  object are in insertion order with distinct keys.
\<close>

datatype json =
    JNull
  | JBool bool
  | JInt int
  | JFloat rat string
  | JStr string
  | JList "json list"
  | JObj "(string \<times> json) list"

type_synonym jdict = "(string \<times> json) list"

fun truthy :: "json \<Rightarrow> bool" where
  "truthy JNull = False"
| "truthy (JBool b) = b"
| "truthy (JInt i) = (i \<noteq> 0)"
| "truthy (JFloat r _) = (r \<noteq> 0)"
| "truthy (JStr s) = (s \<noteq> [])"
| "truthy (JList xs) = (xs \<noteq> [])"
| "truthy (JObj kvs) = (kvs \<noteq> [])"

text \<open>\<open>a or b\<close>\<close>

definition py_or :: "json \<Rightarrow> json \<Rightarrow> json" where
  "py_or a b = (if truthy a then a else b)"

text \<open>\<open>d.get(key)\<close>\<close>

definition dict_get :: "string \<Rightarrow> jdict \<Rightarrow> json" where
  "dict_get k d = (case map_of d k of None \<Rightarrow> JNull | Some v \<Rightarrow> v)"

definition has_key :: "string \<Rightarrow> jdict \<Rightarrow> bool" where
  "has_key k d \<longleftrightarrow> k \<in> fst ` set d"

definition hex_digit :: "nat \<Rightarrow> char" where
  "hex_digit n = (if n < 10 then char_of (48 + n) else char_of (87 + n))"

definition hex2 :: "nat \<Rightarrow> string" where
  "hex2 n = [hex_digit (n div 16), hex_digit (n mod 16)]"

text \<open>\<open>repr\<close> of a string.\<close>

definition repr_char :: "char \<Rightarrow> char \<Rightarrow> string" where
  "repr_char q c = (let n = of_char c :: nat in
     if c = q \<or> n = 92 then [CHR 0x5C, c]
     else if n = 10 then [CHR 0x5C, CHR ''n'']
     else if n = 13 then [CHR 0x5C, CHR ''r'']
     else if n = 9 then [CHR 0x5C, CHR ''t'']
     else if n < 32 \<or> (127 \<le> n \<and> n \<le> 160) \<or> n = 173 then [CHR 0x5C, CHR ''x''] @ hex2 n
     else [c])"

definition repr_str :: "string \<Rightarrow> string" where
  "repr_str s = (let q = (if CHR 0x27 \<in> set s \<and> CHR 0x22 \<notin> set s then CHR 0x22 else CHR 0x27)
     in [q] @ concat (map (repr_char q) s) @ [q])"

fun py_repr :: "json \<Rightarrow> string" where
  "py_repr JNull = ''None''"
| "py_repr (JBool b) = (if b then ''True'' else ''False'')"
| "py_repr (JInt i) = str_of_int i"
| "py_repr (JFloat _ t) = t"
| "py_repr (JStr s) = repr_str s"
| "py_repr (JList xs) = ''['' @ join_str '', '' (map py_repr xs) @ '']''"
| "py_repr (JObj kvs) =
     ''{'' @ join_str '', '' (map (\<lambda>(k, v). repr_str k @ '': '' @ py_repr v) kvs) @ ''}''"

definition py_str :: "json \<Rightarrow> string" where
  "py_str v = (case v of JStr s \<Rightarrow> s | _ \<Rightarrow> py_repr v)"

text \<open>\<open>int(value)\<close>: \<open>None\<close> is the \<open>TypeError\<close> or \<open>ValueError\<close>. A decimal literal may be
  surrounded by white space, signed, and have single underscores between its digits.\<close>

fun int_digits :: "string \<Rightarrow> string option" where
  "int_digits [] = None"
| "int_digits [c] = (if is_digit c then Some [c] else None)"
| "int_digits (c # d # cs) =
     (if \<not> is_digit c then None
      else if d = CHR ''_'' then map_option (Cons c) (int_digits cs)
      else map_option (Cons c) (int_digits (d # cs)))"

definition int_of_str :: "string \<Rightarrow> int option" where
  "int_of_str s = (case strip s of
       [] \<Rightarrow> None
     | c # cs \<Rightarrow>
         if c = CHR ''-'' then map_option (\<lambda>ds. - int (nat_of_digits 0 ds)) (int_digits cs)
         else if c = CHR ''+'' then map_option (\<lambda>ds. int (nat_of_digits 0 ds)) (int_digits cs)
         else map_option (\<lambda>ds. int (nat_of_digits 0 ds)) (int_digits (c # cs)))"

definition truncate_rat :: "rat \<Rightarrow> int" where
  "truncate_rat r = (if 0 \<le> r then \<lfloor>r\<rfloor> else - \<lfloor>- r\<rfloor>)"

fun py_int :: "json \<Rightarrow> int option" where
  "py_int (JBool b) = Some (if b then 1 else 0)"
| "py_int (JInt i) = Some i"
| "py_int (JFloat r _) = Some (truncate_rat r)"
| "py_int (JStr s) = int_of_str s"
| "py_int _ = None"

text \<open>\<open>json.dumps(value)\<close> and \<open>json.dumps(value, sort_keys=True)\<close> with the default
  separators and ASCII escapes.\<close>

definition dump_char :: "char \<Rightarrow> string" where
  "dump_char c = (let n = of_char c :: nat in
     if n = 34 \<or> n = 92 then [CHR 0x5C, c]
     else if n = 10 then [CHR 0x5C, CHR ''n'']
     else if n = 13 then [CHR 0x5C, CHR ''r'']
     else if n = 9 then [CHR 0x5C, CHR ''t'']
     else if n = 12 then [CHR 0x5C, CHR ''f'']
     else if n = 8 then [CHR 0x5C, CHR ''b'']
     else if n < 32 \<or> 127 \<le> n then [CHR 0x5C, CHR ''u'', CHR ''0'', CHR ''0''] @ hex2 n
     else [c])"

definition dump_str :: "string \<Rightarrow> string" where
  "dump_str s = [CHR 0x22] @ concat (map dump_char s) @ [CHR 0x22]"

definition dump_pairs :: "(string \<times> string) list \<Rightarrow> string" where
  "dump_pairs kvs = ''{'' @ join_str '', '' (map (\<lambda>(k, t). dump_str k @ '': '' @ t) kvs) @ ''}''"

fun dumps :: "bool \<Rightarrow> json \<Rightarrow> string" where
  "dumps sk JNull = ''null''"
| "dumps sk (JBool b) = (if b then ''true'' else ''false'')"
| "dumps sk (JInt i) = str_of_int i"
| "dumps sk (JFloat _ t) = t"
| "dumps sk (JStr s) = dump_str s"
| "dumps sk (JList xs) = ''['' @ join_str '', '' (map (dumps sk) xs) @ '']''"
| "dumps sk (JObj kvs) =
     (let texts = map (\<lambda>(k, v). (k, dumps sk v)) kvs
      in dump_pairs (if sk then sort_key fst texts else texts))"

section \<open>Facts\<close>

lemma py_str_JStr [simp]: "py_str (JStr s) = s"
  by (simp add: py_str_def)

lemma py_or_simps [simp]:
  "py_or JNull b = b" "truthy a \<Longrightarrow> py_or a b = a" "\<not> truthy a \<Longrightarrow> py_or a b = b"
  by (simp_all add: py_or_def)

lemma dict_get_Nil [simp]: "dict_get k [] = JNull"
  by (simp add: dict_get_def)

lemma dict_get_Cons [simp]:
  "dict_get k ((k', v) # d) = (if k = k' then v else dict_get k d)"
  by (simp add: dict_get_def)

lemma has_key_simps [simp]:
  "\<not> has_key k []" "has_key k ((k', v) # d) \<longleftrightarrow> k = k' \<or> has_key k d"
  by (auto simp: has_key_def)

lemma sort_key_fst_mset_eq:
  assumes "mset kvs = mset kvs'" and "distinct (map fst kvs)"
  shows "sort_key fst kvs = sort_key fst kvs'"
proof -
  have inj: "inj_on fst (set kvs)" using assms(2) by (simp add: distinct_map)
  have set_eq: "set kvs' = set kvs" using assms(1) by (metis mset_eq_setD)
  show ?thesis
  proof (rule properties_for_sort_key)
    show "mset (sort_key fst kvs') = mset kvs" using assms(1) by simp
    show "sorted (map fst (sort_key fst kvs'))" by simp
    fix k assume "k \<in> set (sort_key fst kvs')"
    then have k: "k \<in> set kvs" using set_eq by simp
    have "filter (\<lambda>x. fst k = fst x) xs = filter (\<lambda>x. x = k) xs" if "set xs \<subseteq> set kvs" for xs
      using that k inj by (auto intro!: filter_cong simp: inj_on_def)
    moreover have "filter (\<lambda>x. x = k) xs = replicate (count (mset xs) k) k" for xs
      by (induction xs) auto
    ultimately show "filter (\<lambda>x. fst k = fst x) (sort_key fst kvs')
        = filter (\<lambda>x. fst k = fst x) kvs"
      using assms(1) set_eq by simp
  qed
qed

lemma dumps_sorted_perm:
  assumes "mset kvs = mset kvs'" and "distinct (map fst kvs)"
  shows "dumps True (JObj kvs) = dumps True (JObj kvs')"
proof -
  let ?f = "\<lambda>(k, v). (k, dumps True v)"
  have m: "mset (map ?f kvs) = mset (map ?f kvs')"
    using assms(1) unfolding mset_map by simp
  have d: "distinct (map fst (map ?f kvs))"
    using assms(2) by (simp add: comp_def split_beta)
  have "sort_key fst (map ?f kvs) = sort_key fst (map ?f kvs')"
    by (rule sort_key_fst_mset_eq[OF m d])
  then show ?thesis by (simp add: Let_def)
qed

end
