(* ===== verification/Local_Source.thy ===== *)
theory Local_Source
  imports Json
begin

text \<open>
  The local telemetry source (\<open>backend/app/services/telemetry/local_source.py\<close>): append-only
  sensor logs are tailed from a stored byte offset.

  A directory listing is the list of files in the order \<open>os.walk\<close> gives them, each with the
  result of \<open>os.stat\<close> and of opening it (\<open>None\<close> when the call raises); the bytes read may be
  more than the size \<open>stat\<close> reported, since the sensor keeps writing. Bytes are characters
  0 to 255. The UTF-8 decoder (\<open>errors="ignore"\<close>) and the JSON parser are the arguments
  \<open>decode\<close> and \<open>loads\<close> of a \<open>reader\<close>; what the tailing relies on is that decoding does not
  look across a line feed.
\<close>

definition MAX_FILES_PER_CYCLE :: nat where
  "MAX_FILES_PER_CYCLE = 250"

definition MAX_BYTES_PER_FILE :: nat where
  "MAX_BYTES_PER_FILE = 8 * 1024 * 1024"

definition VALID_SUFFIXES :: "string list" where
  "VALID_SUFFIXES = [''.json'', ''.log'', ''.jsonl'']"

record reader =
  decode :: "string \<Rightarrow> string"
  loads :: "string \<Rightarrow> json option" \<comment> \<open>\<open>None\<close> is the exception\<close>

record file_cursor =
  source_key :: string
  inode :: string
  size_bytes :: nat
  byte_offset :: nat
  mtime :: time

definition fresh_cursor :: "string \<Rightarrow> file_cursor" where
  "fresh_cursor key = \<lparr>source_key = key, inode = [], size_bytes = 0, byte_offset = 0, mtime = 0\<rparr>"

record file_stat =
  st_ino :: nat
  st_size :: nat
  st_mtime :: time

record dir_file =
  df_key :: string \<comment> \<open>path relative to the directory\<close>
  df_name :: string
  df_stat :: "file_stat option"
  df_bytes :: "string option"

section \<open>Lines\<close>

definition nl :: char where
  "nl = CHR 0x0A"

text \<open>\<open>str.splitlines\<close>: the boundaries below code point 256, with CR LF as one.\<close>

definition is_line_end :: "char \<Rightarrow> bool" where
  "is_line_end c = (let n = of_char c :: nat in (10 \<le> n \<and> n \<le> 13) \<or> (28 \<le> n \<and> n \<le> 30) \<or> n = 133)"

fun cons_head :: "char \<Rightarrow> string list \<Rightarrow> string list" where
  "cons_head c [] = [[c]]"
| "cons_head c (l # ls) = (c # l) # ls"

fun splitlines :: "string \<Rightarrow> string list" where
  "splitlines [] = []"
| "splitlines [c] = (if is_line_end c then [[]] else [[c]])"
| "splitlines (c # d # cs) =
     (if c = CHR 0x0D \<and> d = nl then [] # splitlines cs
      else if is_line_end c then [] # splitlines (d # cs)
      else cons_head c (splitlines (d # cs)))"

fun event_of_line :: "(string \<Rightarrow> json option) \<Rightarrow> string \<Rightarrow> json list" where
  "event_of_line ld line =
     (let line = strip line in
      if line = [] then []
      else (case ld line of Some (JObj d) \<Rightarrow> [JObj d] | _ \<Rightarrow> []))"

definition events_of_text :: "reader \<Rightarrow> string \<Rightarrow> json list" where
  "events_of_text rd text = concat (map (event_of_line (loads rd)) (splitlines text))"

definition events_of_bytes :: "reader \<Rightarrow> string \<Rightarrow> json list" where
  "events_of_bytes rd bytes = events_of_text rd (decode rd bytes)"

text \<open>\<open>bytes.rfind\<close>: the position of the last line feed.\<close>

definition rfind_nl :: "string \<Rightarrow> nat option" where
  "rfind_nl s = (if nl \<in> set s then Some (length s - 1 - length (takeWhile (\<lambda>c. c \<noteq> nl) (rev s))) else None)"

section \<open>Tailing\<close>

definition iter_files :: "dir_file list \<Rightarrow> (string \<times> file_stat \<times> string option) list" where
  "iter_files fs =
     concat (map (\<lambda>f. if \<exists>s \<in> set VALID_SUFFIXES. ends_with s (df_name f)
                       then (case df_stat f of None \<Rightarrow> [] | Some st \<Rightarrow> [(df_key f, st, df_bytes f)])
                       else []) fs)"

definition resolve_offset :: "file_cursor \<Rightarrow> file_stat \<Rightarrow> nat" where
  "resolve_offset cursor st =
     (if inode cursor \<noteq> [] \<and> inode cursor \<noteq> str_of_nat (st_ino st) then 0
      else if st_size st < byte_offset cursor then 0
      else byte_offset cursor)"

definition advanced :: "string \<Rightarrow> file_stat \<Rightarrow> nat \<Rightarrow> file_cursor" where
  "advanced key st offset =
     \<lparr>source_key = key, inode = str_of_nat (st_ino st), size_bytes = st_size st,
      byte_offset = offset, mtime = st_mtime st\<rparr>"

text \<open>One file of a cycle: the events read and the new cursor, when it moves.\<close>

definition read_file ::
  "reader \<Rightarrow> (string \<times> file_cursor) list \<Rightarrow> string \<times> file_stat \<times> string option
   \<Rightarrow> json list \<times> file_cursor option" where
  "read_file rd cursors = (\<lambda>(key, st, content).
     let cursor = (case map_of cursors key of Some c \<Rightarrow> c | None \<Rightarrow> fresh_cursor key);
         start = resolve_offset cursor st
     in if st_size st \<le> start then ([], None)
        else (case content of
                None \<Rightarrow> ([], None)
              | Some bytes \<Rightarrow>
                  (let chunk = take MAX_BYTES_PER_FILE (drop start bytes) in
                   if chunk = [] then ([], None)
                   else (case rfind_nl chunk of
                           None \<Rightarrow>
                             if length chunk < MAX_BYTES_PER_FILE then ([], None)
                             else ([], Some (advanced key st (start + length chunk)))
                         | Some last_newline \<Rightarrow>
                             (let usable = take (last_newline + 1) chunk in
                              (events_of_bytes rd usable,
                               Some (advanced key st (start + length usable))))))))"

fun read_files ::
  "reader \<Rightarrow> (string \<times> file_cursor) list \<Rightarrow> (string \<times> file_stat \<times> string option) list
   \<Rightarrow> json list \<times> (string \<times> file_cursor) list" where
  "read_files rd cursors [] = ([], [])"
| "read_files rd cursors (f # fs) =
     (let (events, cur) = read_file rd cursors f;
          (events', updated) = read_files rd cursors fs
      in (events @ events', (case cur of None \<Rightarrow> updated | Some c \<Rightarrow> (fst f, c) # updated)))"

text \<open>The directory is \<open>None\<close> when it cannot be created.\<close>

definition fetch_with_cursors ::
  "reader \<Rightarrow> dir_file list option \<Rightarrow> (string \<times> file_cursor) list
   \<Rightarrow> json list \<times> (string \<times> file_cursor) list" where
  "fetch_with_cursors rd dir cursors =
     (case dir of None \<Rightarrow> ([], [])
      | Some fs \<Rightarrow> read_files rd cursors
          (take MAX_FILES_PER_CYCLE (sort_key (\<lambda>(_, st, _). st_mtime st) (iter_files fs))))"

text \<open>The older interface, by modification time; a file's keys are the ones it touched.\<close>

definition fetch_legacy ::
  "reader \<Rightarrow> dir_file list option \<Rightarrow> (string \<times> time) list \<Rightarrow> json list \<times> string list" where
  "fetch_legacy rd dir processed =
     (case dir of None \<Rightarrow> ([], [])
      | Some fs \<Rightarrow>
         (let files = sort_desc (\<lambda>(_, st, _). st_mtime st) (iter_files fs);
              candidates = filter (\<lambda>(key, st, _). case map_of processed key of
                   None \<Rightarrow> True | Some t \<Rightarrow> t < st_mtime st) files;
              readable = concat (map (\<lambda>(key, _, content). case content of
                   None \<Rightarrow> [] | Some bytes \<Rightarrow> [(key, bytes)]) (take MAX_FILES_PER_CYCLE candidates))
          in (concat (map (\<lambda>(_, bytes). events_of_bytes rd bytes) readable),
              dedup_on (\<lambda>k. k) (map fst readable))))"

section \<open>Facts about lines\<close>

lemma is_line_end_nl [simp]: "is_line_end nl"
  by (simp add: is_line_end_def nl_def Let_def)

lemma splitlines_nl: "splitlines (a @ nl # b) = splitlines (a @ [nl]) @ splitlines b"
proof (induction a rule: splitlines.induct)
  case 1
  then show ?case by (cases b) (auto simp: nl_def is_line_end_def Let_def)
next
  case (2 c)
  then show ?case by (cases b) (auto simp: nl_def is_line_end_def Let_def)
next
  case (3 c d cs)
  have "splitlines ((d # cs) @ [nl]) \<noteq> []"
    by (cases "(d # cs) @ [nl]" rule: splitlines.cases) (auto elim: cons_head.elims)
  then have h: "cons_head c (splitlines ((d # cs) @ [nl]) @ splitlines b)
      = cons_head c (splitlines ((d # cs) @ [nl])) @ splitlines b"
    by (cases "splitlines ((d # cs) @ [nl])") auto
  show ?case using 3 h by (auto simp del: cons_head.simps)
qed

lemma rfind_nl_Some:
  "rfind_nl s = Some i \<Longrightarrow> \<exists>a b. s = a @ nl # b \<and> nl \<notin> set b \<and> i = length a"
proof -
  assume r: "rfind_nl s = Some i"
  then have "nl \<in> set s" by (simp add: rfind_nl_def split: if_splits)
  then obtain a b where "s = a @ nl # b" "nl \<notin> set b" by (metis split_list_last)
  moreover from this have "takeWhile (\<lambda>c. c \<noteq> nl) (rev s) = rev b"
    by (simp add: takeWhile_append)
  ultimately show ?thesis using r by (auto simp: rfind_nl_def)
qed

lemma rfind_nl_None: "rfind_nl s = None \<longleftrightarrow> nl \<notin> set s"
  by (simp add: rfind_nl_def)

section \<open>Following one growing file\<close>

text \<open>The decoder works line by line: a line feed is never part of a multi-byte sequence.\<close>

definition line_decoder :: "(string \<Rightarrow> string) \<Rightarrow> bool" where
  "line_decoder dec \<longleftrightarrow> dec [] = [] \<and> (\<forall>a b. dec (a @ nl # b) = dec a @ nl # dec b)"

definition offset_of :: "file_cursor option \<Rightarrow> nat" where
  "offset_of cur = (case cur of None \<Rightarrow> 0 | Some c \<Rightarrow> byte_offset c)"

text \<open>One cycle as seen by a single file: its stored cursor and all events read from it so far.\<close>

definition poll :: "reader \<Rightarrow> string \<Rightarrow> file_cursor option \<times> json list \<Rightarrow> file_stat \<times> string
    \<Rightarrow> file_cursor option \<times> json list" where
  "poll rd key = (\<lambda>(cur, seen) (st, bytes).
     let (events, cur') = read_file rd (case cur of None \<Rightarrow> [] | Some c \<Rightarrow> [(key, c)]) (key, st, Some bytes)
     in (case cur' of None \<Rightarrow> cur | Some c \<Rightarrow> Some c, seen @ events))"

text \<open>Successive snapshots of a log that is only appended to; the file may grow between \<open>stat\<close>
  and \<open>read\<close>.\<close>

fun append_only :: "nat \<Rightarrow> string \<Rightarrow> (file_stat \<times> string) list \<Rightarrow> bool" where
  "append_only ino prev [] = True"
| "append_only ino prev ((st, b) # snaps) =
     (st_ino st = ino \<and> length prev \<le> st_size st \<and> st_size st \<le> length b
      \<and> take (length prev) b = prev \<and> append_only ino b snaps)"

definition no_oversized_line :: "string \<Rightarrow> bool" where
  "no_oversized_line b \<longleftrightarrow>
     (\<forall>i. i + MAX_BYTES_PER_FILE \<le> length b \<longrightarrow> nl \<in> set (take MAX_BYTES_PER_FILE (drop i b)))"

definition at_line_start :: "string \<Rightarrow> bool" where
  "at_line_start consumed \<longleftrightarrow> consumed = [] \<or> last consumed = nl"

definition tail_inv :: "reader \<Rightarrow> nat \<Rightarrow> string \<Rightarrow> file_cursor option \<times> json list \<Rightarrow> bool" where
  "tail_inv rd ino b = (\<lambda>(cur, seen).
     offset_of cur \<le> length b \<and> at_line_start (take (offset_of cur) b)
     \<and> seen = events_of_bytes rd (take (offset_of cur) b)
     \<and> (case cur of None \<Rightarrow> True | Some c \<Rightarrow> inode c = str_of_nat ino))"

lemma events_of_bytes_Nil: "line_decoder (decode rd) \<Longrightarrow> events_of_bytes rd [] = []"
  by (simp add: events_of_bytes_def events_of_text_def line_decoder_def)

lemma events_of_bytes_append:
  assumes "line_decoder (decode rd)" and "at_line_start x"
  shows "events_of_bytes rd (x @ y) = events_of_bytes rd x @ events_of_bytes rd y"
proof (cases "x = []")
  case True
  with assms show ?thesis by (simp add: events_of_bytes_Nil)
next
  case False
  with assms(2) obtain a where x: "x = a @ [nl]"
    by (metis append_butlast_last_id at_line_start_def)
  have "decode rd (a @ nl # y) = decode rd a @ nl # decode rd y"
    and "decode rd (a @ [nl]) = decode rd a @ [nl]"
    using assms(1) by (auto simp: line_decoder_def)
  then show ?thesis
    by (simp add: x events_of_bytes_def events_of_text_def splitlines_nl[of _ "decode rd y"])
qed

lemma max_bytes_pos [simp]: "0 < MAX_BYTES_PER_FILE"
  by (simp add: MAX_BYTES_PER_FILE_def)

text \<open>What a poll of an intact file does: either the unread part holds no complete line within
  the read limit and nothing changes, or whole lines are consumed.\<close>

lemma poll_cases:
  assumes inv: "tail_inv rd (st_ino st) b (cur, seen)" and size: "offset_of cur \<le> st_size st"
    and short: "no_oversized_line b"
  shows "(poll rd key (cur, seen) (st, b) = (cur, seen)
            \<and> (st_size st = length b \<longrightarrow> nl \<notin> set (drop (offset_of cur) b)))
       \<or> (\<exists>u v. drop (offset_of cur) b = u @ nl # v
            \<and> poll rd key (cur, seen) (st, b)
              = (Some (advanced key st (offset_of cur + length u + 1)),
                 seen @ events_of_bytes rd (u @ [nl])))"
proof -
  let ?o = "offset_of cur" and ?cs = "case cur of None \<Rightarrow> [] | Some c \<Rightarrow> [(key, c)]"
  let ?chunk = "take MAX_BYTES_PER_FILE (drop ?o b)"
  have start: "resolve_offset (case map_of ?cs key of Some c \<Rightarrow> c | None \<Rightarrow> fresh_cursor key) st = ?o"
    using inv size by (auto simp: resolve_offset_def offset_of_def tail_inv_def fresh_cursor_def
        split: option.splits)
  show ?thesis
  proof (cases "st_size st \<le> ?o")
    case True
    then show ?thesis by (simp add: poll_def read_file_def start)
  next
    case False
    show ?thesis
    proof (cases "rfind_nl ?chunk")
      case None
      then have no_nl: "nl \<notin> set ?chunk" by (simp add: rfind_nl_None)
      have "length ?chunk < MAX_BYTES_PER_FILE"
      proof (rule ccontr)
        assume "\<not> ?thesis"
        then have "MAX_BYTES_PER_FILE \<le> length b - ?o" by simp
        then have "?o + MAX_BYTES_PER_FILE \<le> length b"
          using max_bytes_pos by linarith
        with short no_nl show False by (simp add: no_oversized_line_def)
      qed
      then have "?chunk = drop ?o b" by simp
      with None no_nl \<open>length ?chunk < MAX_BYTES_PER_FILE\<close> show ?thesis
        by (simp add: poll_def read_file_def start Let_def)
    next
      case (Some i)
      then obtain u w where uw: "?chunk = u @ nl # w" "i = length u"
        using rfind_nl_Some by blast
      then have "drop ?o b = u @ nl # (w @ drop MAX_BYTES_PER_FILE (drop ?o b))"
        by (metis append.assoc append_Cons append_take_drop_id)
      moreover have "poll rd key (cur, seen) (st, b)
          = (Some (advanced key st (?o + length u + 1)), seen @ events_of_bytes rd (u @ [nl]))"
        using Some uw False
        by (simp add: poll_def read_file_def start Let_def del: take_eq_Nil take_eq_Nil2)
      ultimately show ?thesis by blast
    qed
  qed
qed

lemma poll_inv:
  assumes dec: "line_decoder (decode rd)" and inv: "tail_inv rd (st_ino st) b (cur, seen)"
    and size: "offset_of cur \<le> st_size st" and short: "no_oversized_line b"
  shows "tail_inv rd (st_ino st) b (poll rd key (cur, seen) (st, b))"
proof -
  let ?o = "offset_of cur"
  consider "poll rd key (cur, seen) (st, b) = (cur, seen)"
    | u v where "drop ?o b = u @ nl # v"
        "poll rd key (cur, seen) (st, b) = (Some (advanced key st (?o + length u + 1)),
           seen @ events_of_bytes rd (u @ [nl]))"
    using poll_cases[OF inv size short] by blast
  then show ?thesis
  proof cases
    case 1
    with inv show ?thesis by simp
  next
    case 2
    have b: "b = take ?o b @ u @ nl # v" using 2(1) by (metis append_take_drop_id)
    have o: "length (take ?o b) = ?o" using inv by (simp add: tail_inv_def)
    have tk: "take (Suc (?o + length u)) b = take ?o b @ u @ [nl]"
    proof -
      have "take (Suc (?o + length u)) (take ?o b @ u @ nl # v) = take ?o b @ u @ [nl]"
        using o by (simp only: take_append) simp
      with b show ?thesis by metis
    qed
    have "?o + length u + 1 \<le> length b"
      using arg_cong[OF b, of length] o by simp
    then show ?thesis
      using inv dec unfolding 2(2) by (simp add: tail_inv_def advanced_def offset_of_def[of "Some _"] tk
          events_of_bytes_append at_line_start_def[of "_ @ _"])
  qed
qed

lemma tail_inv_grow:
  "tail_inv rd ino p s \<Longrightarrow> take (length p) b = p \<Longrightarrow> length p \<le> length b \<Longrightarrow> tail_inv rd ino b s"
  by (auto simp: tail_inv_def split: prod.splits)
     (metis min.absorb1 take_take)+

lemma poll_run_inv:
  assumes "line_decoder (decode rd)" and "append_only ino p snaps" and "tail_inv rd ino p s"
    and "\<forall>(st, b) \<in> set snaps. no_oversized_line b"
  shows "tail_inv rd ino (if snaps = [] then p else snd (last snaps)) (foldl (poll rd key) s snaps)"
  using assms(2-)
proof (induction snaps arbitrary: p s)
  case (Cons snap snaps)
  obtain st b where snap: "snap = (st, b)" by (cases snap)
  obtain cur seen where s: "s = (cur, seen)" by (cases s)
  have ao: "st_ino st = ino" "length p \<le> st_size st" "st_size st \<le> length b"
    "take (length p) b = p" "append_only ino b snaps" using Cons.prems(1) snap by simp_all
  have inv: "tail_inv rd ino b s"
    using tail_inv_grow[OF Cons.prems(2) ao(4)] ao by simp
  have "offset_of cur \<le> st_size st" using Cons.prems(2) s ao by (simp add: tail_inv_def)
  then have "tail_inv rd ino b (poll rd key s snap)"
    using poll_inv[OF assms(1), of st b cur seen key] inv Cons.prems(3) ao snap s by simp
  from Cons.IH[OF ao(5) this] Cons.prems(3) show ?case by (auto simp: snap)
qed simp

lemma tail_inv_start: "line_decoder (decode rd) \<Longrightarrow> tail_inv rd ino [] (None, [])"
  by (simp add: tail_inv_def offset_of_def at_line_start_def events_of_bytes_Nil)

text \<open>C5. Each line is read exactly once. Over any number of cycles in which a log is only
  appended to (however the reads and the sensor's writes interleave, partial last lines
  included), the events read so far are those of the bytes before the stored offset, each line
  once and in order, and that offset lies at the start of a line.\<close>

theorem tail_exactly_once:
  assumes "line_decoder (decode rd)" and "append_only ino [] snaps" and "snaps \<noteq> []"
    and "\<forall>(st, b) \<in> set snaps. no_oversized_line b"
    and "foldl (poll rd key) (None, []) snaps = (cur, seen)"
  shows "seen = events_of_bytes rd (take (offset_of cur) (snd (last snaps)))
    \<and> at_line_start (take (offset_of cur) (snd (last snaps)))"
  using poll_run_inv[OF assms(1,2) tail_inv_start[OF assms(1)] assms(4), of key] assms(3,5)
  by (simp add: tail_inv_def)

definition demo_reader :: reader where
  "demo_reader = \<lparr>decode = (\<lambda>s. s), loads = (\<lambda>s. Some (JObj [(''line'', JStr s)]))\<rparr>"

definition demo_stat :: "nat \<Rightarrow> file_stat" where
  "demo_stat n = \<lparr>st_ino = 7, st_size = n, st_mtime = 0\<rparr>"

lemma short_text: "length b < 8388608 \<Longrightarrow> no_oversized_line b"
  by (auto simp: no_oversized_line_def MAX_BYTES_PER_FILE_def)

lemmas tail_eval =
  poll_def read_file_def resolve_offset_def fresh_cursor_def demo_stat_def demo_reader_def
  MAX_BYTES_PER_FILE_def rfind_nl_def nl_def advanced_def events_of_bytes_def events_of_text_def
  is_line_end_def strip_def is_space_def offset_of_def str_of_nat.simps

theorem tail_exactly_once_witness:
  "let snaps = [(demo_stat 3, ''a'' @ [nl] @ ''b''), (demo_stat 6, ''a'' @ [nl] @ ''bc'' @ [nl] @ ''d'')];
       (cur, seen) = foldl (poll demo_reader ''k'') (None, []) snaps
   in seen = [JObj [(''line'', JStr ''a'')], JObj [(''line'', JStr ''bc'')]]
      \<and> seen = events_of_bytes demo_reader (take (offset_of cur) (snd (last snaps)))"
proof -
  let ?snaps = "[(demo_stat 3, ''a'' @ [nl] @ ''b''), (demo_stat 6, ''a'' @ [nl] @ ''bc'' @ [nl] @ ''d'')]"
  obtain cur seen where run: "foldl (poll demo_reader ''k'') (None, []) ?snaps = (cur, seen)"
    by (metis surj_pair)
  then have "seen = [JObj [(''line'', JStr ''a'')], JObj [(''line'', JStr ''bc'')]]"
    by (simp add: tail_eval Let_def split: if_splits)
  moreover have "seen = events_of_bytes demo_reader (take (offset_of cur) (snd (last ?snaps)))"
    using tail_exactly_once[OF _ _ _ _ run, of 7]
    by (simp add: line_decoder_def demo_reader_def demo_stat_def short_text)
  ultimately show ?thesis using run by (simp del: foldl.simps)
qed

lemma poll_drains:
  assumes dec: "line_decoder (decode rd)" and short: "no_oversized_line b"
    and size: "st_size st = length b"
  shows "tail_inv rd (st_ino st) b s \<Longrightarrow>
    \<exists>n. nl \<notin> set (drop (offset_of (fst (((\<lambda>s. poll rd key s (st, b)) ^^ n) s))) b)"
proof (induction "length b - offset_of (fst s)" arbitrary: s rule: less_induct)
  case less
  obtain cur seen where s: "s = (cur, seen)" by (cases s)
  have o: "offset_of cur \<le> st_size st" using less.prems size by (simp add: s tail_inv_def)
  have inv': "tail_inv rd (st_ino st) b (poll rd key s (st, b))"
    using poll_inv[OF dec _ o short] less.prems s by simp
  consider "nl \<notin> set (drop (offset_of cur) b)"
    | u v where "drop (offset_of cur) b = u @ nl # v"
        "fst (poll rd key s (st, b)) = Some (advanced key st (offset_of cur + length u + 1))"
    using poll_cases[OF _ o short, of rd seen key] less.prems size by (auto simp: s)
  then show ?case
  proof cases
    case 1
    then show ?thesis by (intro exI[of _ 0]) (simp add: s)
  next
    case 2
    have "offset_of (fst (poll rd key s (st, b))) = offset_of cur + length u + 1"
      by (simp add: 2(2) offset_of_def[of "Some _"] advanced_def)
    moreover have "offset_of cur < length b"
      using 2(1) by (cases "offset_of cur < length b") auto
    ultimately have "length b - offset_of (fst (poll rd key s (st, b))) < length b - offset_of (fst s)"
      by (simp add: s)
    from less.hyps[OF this inv'] obtain n
      where "nl \<notin> set (drop (offset_of (fst (((\<lambda>s. poll rd key s (st, b)) ^^ n) (poll rd key s (st, b))))) b)"
      by blast
    then have "nl \<notin> set (drop (offset_of (fst (((\<lambda>s. poll rd key s (st, b)) ^^ Suc n) s))) b)"
      by (simp add: funpow_Suc_right del: funpow.simps)
    then show ?thesis ..
  qed
qed

text \<open>Nothing complete stays unread: once the log stops growing, finitely many further cycles
  consume every complete line, whatever was read before.\<close>

theorem tail_catches_up:
  assumes "line_decoder (decode rd)" and "append_only (st_ino st) [] (snaps @ [(st, b)])"
    and "\<forall>(st, b) \<in> set (snaps @ [(st, b)]). no_oversized_line b" and "st_size st = length b"
  shows "\<exists>n. nl \<notin> set (drop (offset_of (fst (((\<lambda>s. poll rd key s (st, b)) ^^ n)
    (foldl (poll rd key) (None, []) (snaps @ [(st, b)]))))) b)"
proof -
  have "tail_inv rd (st_ino st) b (foldl (poll rd key) (None, []) (snaps @ [(st, b)]))"
    using poll_run_inv[OF assms(1,2) tail_inv_start[OF assms(1)] assms(3)] by simp
  then show ?thesis using poll_drains[OF assms(1) _ assms(4)] assms(3) by simp
qed

theorem tail_catches_up_witness:
  "\<exists>n. nl \<notin> set (drop (offset_of (fst (((\<lambda>s. poll demo_reader ''k'' s (demo_stat 3, ''ab'' @ [nl])) ^^ n)
    (foldl (poll demo_reader ''k'') (None, []) ([(demo_stat 0, ''a'')] @ [(demo_stat 3, ''ab'' @ [nl])])))))
    (''ab'' @ [nl]))"
  by (rule tail_catches_up)
     (simp_all add: line_decoder_def demo_reader_def demo_stat_def short_text)

text \<open>Rotation and truncation: reading restarts at the beginning.\<close>

lemma rotated_restarts:
  "inode c \<noteq> [] \<Longrightarrow> inode c \<noteq> str_of_nat (st_ino st) \<Longrightarrow> resolve_offset c st = 0"
  by (simp add: resolve_offset_def)

lemma truncated_restarts: "st_size st < byte_offset c \<Longrightarrow> resolve_offset c st = 0"
  by (simp add: resolve_offset_def)

text \<open>A cycle reports a cursor only for listed files, at most once per file and at most
  \<open>MAX_FILES_PER_CYCLE\<close> of them.\<close>

lemma read_files_keys: "fst ` set (snd (read_files rd cs fs)) \<subseteq> fst ` set fs"
  by (induction fs) (auto simp: Let_def split_beta split: option.splits)

lemma read_files_distinct:
  "distinct (map fst fs) \<Longrightarrow> distinct (map fst (snd (read_files rd cs fs)))"
proof (induction fs)
  case (Cons f fs)
  have "fst f \<notin> fst ` set (snd (read_files rd cs fs))"
    using read_files_keys[of rd cs fs] Cons.prems by auto
  with Cons show ?case by (simp add: Let_def split_beta split: option.split)
qed simp

lemma read_files_length: "length (snd (read_files rd cs fs)) \<le> length fs"
  by (induction fs) (auto simp: Let_def split_beta split: option.splits)

lemma fetch_cap: "length (snd (fetch_with_cursors rd dir cs)) \<le> MAX_FILES_PER_CYCLE"
proof (cases dir)
  case (Some fs)
  have "length (snd (fetch_with_cursors rd dir cs))
      \<le> length (take MAX_FILES_PER_CYCLE (sort_key (\<lambda>(_, st, _). st_mtime st) (iter_files fs)))"
    unfolding Some fetch_with_cursors_def option.case by (rule read_files_length)
  then show ?thesis by simp
qed (simp add: fetch_with_cursors_def)

end
