(* ===== verification/Severity.thy ===== *)
theory Severity
  imports Prelude
begin

text \<open>
  The severity scale every component shares. \<open>telemetry/normalize.py\<close> orders five levels,
  \<open>telemetry/collector.py\<close> maps them to risk scores, \<open>detection_rules.py\<close> ranks the four
  levels a rule may carry and \<open>log_categorizer.py\<close> ranks all five. Rows carry the level as
  text, so the ranking functions take strings and give unknown text the default the code
  gives it; the datatype is the scale itself.
\<close>

datatype severity = INFO | LOW | MEDIUM | HIGH | CRITICAL

fun sev_index :: "severity \<Rightarrow> nat" where
  "sev_index INFO = 0"
| "sev_index LOW = 1"
| "sev_index MEDIUM = 2"
| "sev_index HIGH = 3"
| "sev_index CRITICAL = 4"

fun sev_name :: "severity \<Rightarrow> string" where
  "sev_name INFO = ''INFO''"
| "sev_name LOW = ''LOW''"
| "sev_name MEDIUM = ''MEDIUM''"
| "sev_name HIGH = ''HIGH''"
| "sev_name CRITICAL = ''CRITICAL''"

lemma sev_index_inject: "sev_index a = sev_index b \<Longrightarrow> a = b"
  by (cases a; cases b) simp_all

instantiation severity :: linorder
begin

definition less_eq_severity :: "severity \<Rightarrow> severity \<Rightarrow> bool" where
  "less_eq_severity a b \<longleftrightarrow> sev_index a \<le> sev_index b"

definition less_severity :: "severity \<Rightarrow> severity \<Rightarrow> bool" where
  "less_severity a b \<longleftrightarrow> sev_index a < sev_index b"

instance
  by standard (auto simp: less_eq_severity_def less_severity_def intro: sev_index_inject)

end

lemmas severity_order = less_eq_severity_def less_severity_def

text \<open>\<open>SEVERITY_ORDER\<close> of the normalizer, least severe first.\<close>

definition SEVERITY_ORDER :: "severity list" where
  "SEVERITY_ORDER = [INFO, LOW, MEDIUM, HIGH, CRITICAL]"

text \<open>\<open>SEVERITY_RISK_SCORE\<close> of the collector, and its look-up with default 10.0.\<close>

definition SEVERITY_RISK_SCORE :: "(string \<times> rat) list" where
  "SEVERITY_RISK_SCORE =
     [(''CRITICAL'', 95), (''HIGH'', 80), (''MEDIUM'', 50), (''LOW'', 25), (''INFO'', 10)]"

definition risk_score_of :: "string option \<Rightarrow> rat" where
  "risk_score_of s = (case Option.bind s (map_of SEVERITY_RISK_SCORE) of None \<Rightarrow> 10 | Some r \<Rightarrow> r)"

text \<open>\<open>_SEV_ORDER\<close>, \<open>_SEV_CONFIDENCE\<close> and \<open>severity_rank\<close> of the rule loader.\<close>

definition SEV_ORDER :: "(string \<times> nat) list" where
  "SEV_ORDER = [(''LOW'', 1), (''MEDIUM'', 2), (''HIGH'', 3), (''CRITICAL'', 4)]"

definition SEV_CONFIDENCE :: "(string \<times> rat) list" where
  "SEV_CONFIDENCE = [(''LOW'', 4 / 10), (''MEDIUM'', 6 / 10), (''HIGH'', 8 / 10), (''CRITICAL'', 9 / 10)]"

definition severity_rank :: "string \<Rightarrow> nat" where
  "severity_rank sev = (case map_of SEV_ORDER (upper sev) of None \<Rightarrow> 0 | Some r \<Rightarrow> r)"

text \<open>\<open>severity_rank\<close> of the log categoriser: five levels, unknown text ranks as INFO.\<close>

definition log_severity_rank :: "string \<Rightarrow> nat" where
  "log_severity_rank sev =
     (case map_of [(''INFO'', 0), (''LOW'', 1), (''MEDIUM'', 2), (''HIGH'', 3), (''CRITICAL'', 4)]
        (upper (if sev = [] then ''INFO'' else sev)) of None \<Rightarrow> 0 | Some r \<Rightarrow> r)"

section \<open>The rankings agree\<close>

lemma severity_rank_sev_name: "severity_rank (sev_name s) = sev_index s"
  by (cases s) (simp_all add: severity_rank_def SEV_ORDER_def upper_def upper_char_def)

lemma log_severity_rank_sev_name: "log_severity_rank (sev_name s) = sev_index s"
  by (cases s) (simp_all add: log_severity_rank_def upper_def upper_char_def)

lemma severity_rank_le: "severity_rank s \<le> 4"
  by (auto simp: severity_rank_def SEV_ORDER_def split: option.splits if_splits)

lemma risk_score_bounds: "10 \<le> risk_score_of s \<and> risk_score_of s \<le> 95"
  by (cases s) (auto simp: risk_score_of_def SEVERITY_RISK_SCORE_def split: option.splits if_splits)

lemma risk_score_mono:
  "s \<le> t \<Longrightarrow> risk_score_of (Some (sev_name s)) \<le> risk_score_of (Some (sev_name t))"
  by (cases s; cases t) (simp_all add: risk_score_of_def SEVERITY_RISK_SCORE_def severity_order)

lemma risk_score_ge_80_iff:
  "80 \<le> risk_score_of (Some (sev_name s)) \<longleftrightarrow> HIGH \<le> s"
  by (cases s) (simp_all add: risk_score_of_def SEVERITY_RISK_SCORE_def severity_order)

text \<open>One scale: the normalizer's order, the rule loader's rank, the log categoriser's rank
  and the collector's risk score order the five level names in the same way, strictly for the
  risk score.\<close>

theorem severity_scales_agree:
  "(s < t \<longleftrightarrow> severity_rank (sev_name s) < severity_rank (sev_name t))
   \<and> (s < t \<longleftrightarrow> log_severity_rank (sev_name s) < log_severity_rank (sev_name t))
   \<and> (s < t \<longleftrightarrow> risk_score_of (Some (sev_name s)) < risk_score_of (Some (sev_name t)))"
  unfolding severity_rank_sev_name log_severity_rank_sev_name
  by (cases s; cases t) (simp_all add: severity_order risk_score_of_def SEVERITY_RISK_SCORE_def)

end
