(* ===== verification/Normalize.thy ===== *)
theory Normalize
  imports Json Severity
begin

text \<open>
  Sensor telemetry normalization (\<open>backend/app/services/telemetry/normalize.py\<close>): one raw
  sensor event, a JSON object, becomes a sensor-agnostic event or is dropped.

  The definitions follow the module: field look-up helpers, the timestamp fall-backs, sensor
  detection, protocol and severity derivation, the four parsers and \<open>normalize\<close>. The
  parsers return a record of the keys of the dict they return. Values taken verbatim from the
  event stay JSON values, as in the code. Nothing in the parsers raises on JSON input without
  infinities, so the \<open>except Exception\<close> fall-backs are not reachable and not modelled.

  SHA-256 and the two \<open>datetime\<close> parsers are arguments, held in the record \<open>runtime\<close> with
  the clock and the environment variable the module reads.
\<close>

type_synonym datetime = "time \<times> time option" \<comment> \<open>local time, UTC offset when aware\<close>

record runtime =
  sha256_hex :: "string \<Rightarrow> string"
  fromisoformat :: "string \<Rightarrow> datetime option"
  strptime :: "string \<Rightarrow> string \<Rightarrow> datetime option" \<comment> \<open>text, format\<close>
  utcnow :: time
  drop_loopback :: string \<comment> \<open>\<open>TELEMETRY_DROP_LOOPBACK\<close>, empty when unset\<close>

section \<open>Tables\<close>

definition LOOPBACK_IPS :: "string list" where
  "LOOPBACK_IPS = [''127.0.0.1'', ''::1'', ''0.0.0.0'', ''::'', ''localhost'']"

definition EMPTY_IPS :: "string list" where
  "EMPTY_IPS = ['''', ''0.0.0.0'', ''::'', ''None'', ''null'']"

definition KNOWN_SENSORS :: "string list" where
  "KNOWN_SENSORS = [''cowrie'', ''dionaea'', ''honeytrap'']"

definition DEFAULT_SENSOR_PORTS :: "(string \<times> int) list" where
  "DEFAULT_SENSOR_PORTS = [(''cowrie'', 2222), (''dionaea'', 445), (''honeytrap'', 8022)]"

definition PORT_PROTOCOL :: "(int \<times> string) list" where
  "PORT_PROTOCOL =
    [(21, ''ftp''), (22, ''ssh''), (23, ''telnet''), (25, ''smtp''), (80, ''http''),
     (135, ''msrpc''), (139, ''netbios''), (443, ''https''), (445, ''smb''), (1433, ''mssql''),
     (3306, ''mysql''), (3389, ''rdp''), (5060, ''sip''), (5432, ''postgres''), (8022, ''ssh''),
     (8023, ''telnet''), (8080, ''http''), (2222, ''ssh''), (2223, ''ssh'')]"

section \<open>Helpers\<close>

definition clean_ip :: "json \<Rightarrow> string option" where
  "clean_ip value =
     (if value = JNull then None
      else (let text = strip (py_str value) in if text \<in> set EMPTY_IPS then None else Some text))"

definition clean_port :: "json \<Rightarrow> int option" where
  "clean_port value =
     (if value = JNull \<or> value = JStr '''' then None
      else (case py_int value of
              None \<Rightarrow> None
            | Some port \<Rightarrow> if 0 < port \<and> port \<le> 65535 then Some port else None))"

definition blank :: "json \<Rightarrow> bool" where
  "blank v \<longleftrightarrow> v = JNull \<or> v = JStr '''' \<or> v = JList []"

fun first_of :: "jdict \<Rightarrow> string list \<Rightarrow> json" where
  "first_of event [] = JNull"
| "first_of event (k # ks) =
     (if has_key k event \<and> \<not> blank (dict_get k event) then dict_get k event
      else first_of event ks)"

fun nested :: "jdict \<Rightarrow> string list \<Rightarrow> string list \<Rightarrow> json" where
  "nested event [] child_keys = JNull"
| "nested event (p # ps) child_keys =
     (case dict_get p event of
        JObj d \<Rightarrow> (let v = first_of d child_keys in
                    if v \<noteq> JNull then v else nested event ps child_keys)
      | _ \<Rightarrow> nested event ps child_keys)"

text \<open>\<open>parse_timestamp\<close>: ISO text first, then four formats, then the clock; an aware time
  is converted to UTC.\<close>

definition replace_Z :: "string \<Rightarrow> string" where
  "replace_Z text = concat (map (\<lambda>c. if c = CHR ''Z'' then ''+00:00'' else [c]) text)"

definition STAMP_FORMATS :: "string list" where
  "STAMP_FORMATS = [''%Y-%m-%dT%H:%M:%S.%fZ'', ''%Y-%m-%dT%H:%M:%SZ'',
                    ''%Y-%m-%d %H:%M:%S'', ''%d/%b/%Y:%H:%M:%S'']"

fun try_formats :: "(string \<Rightarrow> datetime option) \<Rightarrow> string list \<Rightarrow> datetime option" where
  "try_formats p [] = None"
| "try_formats p (f # fs) = (case p f of Some dt \<Rightarrow> Some dt | None \<Rightarrow> try_formats p fs)"

definition to_naive_utc :: "datetime \<Rightarrow> time" where
  "to_naive_utc dt = (case dt of (t, None) \<Rightarrow> t | (t, Some off) \<Rightarrow> t - off)"

definition parse_timestamp :: "runtime \<Rightarrow> json \<Rightarrow> time" where
  "parse_timestamp rt value =
     (let text = strip (py_str (py_or value (JStr ''''))) in
      if text = '''' then utcnow rt
      else (case fromisoformat rt (replace_Z text) of
              Some dt \<Rightarrow> to_naive_utc dt
            | None \<Rightarrow> (case try_formats (strptime rt text) STAMP_FORMATS of
                         Some dt \<Rightarrow> to_naive_utc dt
                       | None \<Rightarrow> utcnow rt)))"

definition compute_event_id :: "runtime \<Rightarrow> jdict \<Rightarrow> string" where
  "compute_event_id rt raw = take 32 (sha256_hex rt (dumps True (JObj raw)))"

fun first_name_in :: "string list \<Rightarrow> string \<Rightarrow> string option" where
  "first_name_in [] text = None"
| "first_name_in (n # ns) text = (if contains_str n text then Some n else first_name_in ns text)"

definition detect_sensor :: "jdict \<Rightarrow> string" where
  "detect_sensor event =
     (let declared = lower (py_str (py_or
            (first_of event [''sensor'', ''system'', ''sensor_name'', ''honeypot'']) (JStr '''')))
      in case first_name_in KNOWN_SENSORS declared of
           Some n \<Rightarrow> n
         | None \<Rightarrow>
             (let event_id = lower (py_str (py_or
                    (first_of event [''eventid'', ''event'', ''type'']) (JStr '''')))
              in case first_name_in KNOWN_SENSORS event_id of
                   Some n \<Rightarrow> n
                 | None \<Rightarrow>
                     if starts_with ''cowrie.'' event_id then ''cowrie''
                     else if has_key ''source-ip'' event \<or> has_key ''destination-ip'' event
                     then ''honeytrap''
                     else (case dict_get ''connection'' event of
                             JObj _ \<Rightarrow> ''dionaea''
                           | _ \<Rightarrow> ''unknown'')))"

definition port_protocol :: "int option \<Rightarrow> string option" where
  "port_protocol port = (case port of None \<Rightarrow> None
     | Some p \<Rightarrow> if p = 0 then None else map_of PORT_PROTOCOL p)"

definition derive_protocol :: "int option \<Rightarrow> json \<Rightarrow> string" where
  "derive_protocol port declared =
     (if truthy declared then
        (let text = lower (strip (py_str declared)) in
         if text \<notin> {''tcp'', ''udp'', '''', ''unknown''} then text
         else (case port_protocol port of
                 Some p \<Rightarrow> p
               | None \<Rightarrow> if text = '''' then ''tcp'' else text))
      else (case port_protocol port of Some p \<Rightarrow> p | None \<Rightarrow> ''tcp''))"

definition any_in :: "string list \<Rightarrow> string \<Rightarrow> bool" where
  "any_in ks text \<longleftrightarrow> (\<exists>k \<in> set ks. contains_str k text)"

definition derive_severity :: "string \<Rightarrow> string option \<Rightarrow> json \<Rightarrow> severity" where
  "derive_severity sensor_event_type auth_result command =
     (let event_type = lower sensor_event_type in
      if any_in [''file_download'', ''file_upload'', ''download''] event_type then CRITICAL
      else if truthy command then HIGH
      else if auth_result = Some ''SUCCESS'' then HIGH
      else if auth_result = Some ''FAILURE'' then MEDIUM
      else if any_in [''login'', ''auth'', ''credential''] event_type then MEDIUM
      else if any_in [''connect'', ''session'', ''connection''] event_type then LOW
      else INFO)"

section \<open>Per-sensor parsers\<close>

record parsed =
  p_event_type :: string
  p_source_ip :: "string option"
  p_source_port :: "int option"
  p_destination_ip :: "string option"
  p_destination_port :: "int option"
  p_username :: json
  p_password :: json
  p_auth_result :: "string option"
  p_command :: json
  p_session_id :: json
  p_protocol_hint :: json
  p_metadata :: jdict

definition pick_metadata :: "string list \<Rightarrow> jdict \<Rightarrow> jdict" where
  "pick_metadata keys event =
     map (\<lambda>k. (k, dict_get k event))
       (filter (\<lambda>k. has_key k event \<and> dict_get k event \<notin> {JNull, JStr ''''}) keys)"

definition parse_cowrie :: "jdict \<Rightarrow> parsed" where
  "parse_cowrie event =
     (let event_type = py_str (py_or (first_of event [''eventid'', ''event''])
            (JStr ''cowrie.session.connect''));
          auth_result = (if contains_str ''login.success'' event_type then Some ''SUCCESS''
                         else if contains_str ''login.failed'' event_type then Some ''FAILURE''
                         else None);
          command = first_of event [''input'', ''command'']
      in \<lparr>p_event_type = event_type,
          p_source_ip = clean_ip (first_of event [''src_ip'', ''peerIP'', ''srcIP'']),
          p_source_port = clean_port (first_of event [''src_port'', ''peerPort'']),
          p_destination_ip = clean_ip (first_of event [''dst_ip'', ''hostIP'']),
          p_destination_port = clean_port (first_of event [''dst_port'', ''hostPort'']),
          p_username = first_of event [''username'', ''user''],
          p_password = first_of event [''password''],
          p_auth_result = auth_result,
          p_command = (if truthy command then JStr (py_str command) else JNull),
          p_session_id = first_of event [''session'', ''session_id''],
          p_protocol_hint = first_of event [''protocol''],
          p_metadata = pick_metadata
            [''message'', ''duration'', ''version'', ''shasum'', ''url'', ''outfile'', ''ttylog''] event\<rparr>)"

text \<open>\<open>_DIONAEA_CONN_RE.search\<close>: the first \<open>[ip:port->ip:port]\<close> in a text. Each repeated
  class of the pattern is followed by a character outside the class, so the match at a
  position is determined.\<close>

definition span_of :: "(char \<Rightarrow> bool) \<Rightarrow> string \<Rightarrow> string \<times> string" where
  "span_of p s = (takeWhile p s, dropWhile p s)"

definition eat :: "string \<Rightarrow> string \<Rightarrow> string option" where
  "eat p s = (if starts_with p s then Some (drop (length p) s) else None)"

definition is_ip_char :: "char \<Rightarrow> bool" where
  "is_ip_char c \<longleftrightarrow> is_digit c \<or> c = CHR ''.''"

definition conn_at :: "string \<Rightarrow> (string \<times> string \<times> string \<times> string) option" where
  "conn_at s =
     Option.bind (eat ''['' s) (\<lambda>s1.
     let (ip1, s2) = span_of is_ip_char s1 in
     if ip1 = [] then None else Option.bind (eat '':'' s2) (\<lambda>s3.
     let (port1, s4) = span_of is_digit s3 in
     if port1 = [] then None else Option.bind (eat ''->'' s4) (\<lambda>s5.
     let (ip2, s6) = span_of is_ip_char s5 in
     if ip2 = [] then None else Option.bind (eat '':'' s6) (\<lambda>s7.
     let (port2, s8) = span_of is_digit s7 in
     if port2 = [] then None else
     (case eat '']'' s8 of None \<Rightarrow> None | Some _ \<Rightarrow> Some (ip1, port1, ip2, port2))))))"

fun conn_search :: "string \<Rightarrow> (string \<times> string \<times> string \<times> string) option" where
  "conn_search [] = None"
| "conn_search (c # cs) = (case conn_at (c # cs) of Some m \<Rightarrow> Some m | None \<Rightarrow> conn_search cs)"

definition or_else :: "'a option \<Rightarrow> 'a option \<Rightarrow> 'a option" where
  "or_else a b = (case a of None \<Rightarrow> b | Some x \<Rightarrow> Some x)"

text \<open>Last resort: the endpoints bracketed in the event text fill the missing ones.\<close>

type_synonym endpoints = "string option \<times> int option \<times> string option \<times> int option"

definition bracketed :: "string \<Rightarrow> endpoints \<Rightarrow> endpoints" where
  "bracketed event_type = (\<lambda>(source_ip, source_port, destination_ip, destination_port).
     if source_ip = None \<or> destination_port = None then
       (case conn_search event_type of
          Some (g1, g2, g3, g4) \<Rightarrow>
            (or_else source_ip (clean_ip (JStr g3)), or_else source_port (clean_port (JStr g4)),
             or_else destination_ip (clean_ip (JStr g1)),
             or_else destination_port (clean_port (JStr g2)))
        | None \<Rightarrow> (source_ip, source_port, destination_ip, destination_port))
     else (source_ip, source_port, destination_ip, destination_port))"

definition dionaea_endpoints :: "jdict \<Rightarrow> jdict \<Rightarrow> string \<Rightarrow> endpoints" where
  "dionaea_endpoints event connection event_type =
     (let hosts = [''host'', ''ip'', ''address'']
      in bracketed event_type
          (clean_ip (py_or (py_or
              (first_of event [''src_ip'', ''peerIP'', ''remote_host'', ''remote_ip''])
              (nested connection [''remote''] hosts))
              (nested event [''remote'', ''source'', ''src''] hosts)),
           clean_port (py_or (py_or
              (first_of event [''src_port'', ''peerPort'', ''remote_port''])
              (nested connection [''remote''] [''port'']))
              (nested event [''remote'', ''source'', ''src''] [''port''])),
           clean_ip (py_or (py_or
              (first_of event [''dst_ip'', ''hostIP'', ''local_host''])
              (nested connection [''local''] hosts))
              (nested event [''local'', ''destination'', ''dst''] hosts)),
           clean_port (py_or (py_or
              (first_of event [''dst_port'', ''hostPort'', ''local_port''])
              (nested connection [''local''] [''port'']))
              (nested event [''local'', ''destination'', ''dst''] [''port'']))))"

definition dionaea_event_type :: "jdict \<Rightarrow> jdict \<Rightarrow> string" where
  "dionaea_event_type event connection =
     (let named = first_of event [''eventid'', ''event'', ''connection_type''];
          event_type = (if \<not> truthy named \<and> truthy (dict_get ''type'' connection)
                        then JStr (''dionaea.connection.'' @ py_str (dict_get ''type'' connection))
                        else named)
      in py_str (py_or event_type (JStr ''dionaea.connection'')))"

definition dionaea_metadata :: "jdict \<Rightarrow> jdict" where
  "dionaea_metadata event =
     (let metadata = pick_metadata
            [''md5_hash'', ''sha512_hash'', ''url'', ''daddr'', ''saddr'', ''filename''] event
      in case dict_get ''credentials'' event of
           JList xs \<Rightarrow> if 1 < length xs then AList.update ''credentials'' (JList xs) metadata
                       else metadata
         | _ \<Rightarrow> metadata)"

definition parse_dionaea :: "jdict \<Rightarrow> parsed" where
  "parse_dionaea event =
     (let connection = (case dict_get ''connection'' event of JObj d \<Rightarrow> d | _ \<Rightarrow> []);
          first_credential =
            (case dict_get ''credentials'' event of JList (JObj d # _) \<Rightarrow> d | _ \<Rightarrow> [])
      in case dionaea_endpoints event connection (dionaea_event_type event connection) of
           (source_ip, source_port, destination_ip, destination_port) \<Rightarrow>
         \<lparr>p_event_type = dionaea_event_type event connection,
          p_source_ip = source_ip,
          p_source_port = source_port,
          p_destination_ip = destination_ip,
          p_destination_port = destination_port,
          p_username = py_or (first_of event [''username'', ''user'', ''login''])
             (dict_get ''username'' first_credential),
          p_password = py_or (first_of event [''password'', ''pass''])
             (dict_get ''password'' first_credential),
          p_auth_result = None,
          p_command = JNull,
          p_session_id = first_of event [''connection_id'', ''id'', ''session''],
          p_protocol_hint = py_or (py_or (first_of event [''connection_protocol'', ''protocol''])
              (dict_get ''protocol'' connection)) (dict_get ''transport'' connection),
          p_metadata = dionaea_metadata event\<rparr>)"

definition parse_honeytrap :: "jdict \<Rightarrow> parsed" where
  "parse_honeytrap event =
     (let category = dict_get ''category'' event;
          kind = dict_get ''type'' event;
          event_type = (if truthy category \<and> truthy kind
             then ''honeytrap.'' @ py_str category @ ''.'' @ py_str kind
             else py_str (py_or (first_of event [''type'', ''eventid'', ''category'', ''event''])
                    (JStr ''honeytrap.connection'')));
          peers = [''source'', ''src'', ''origin'', ''peer''];
          locals = [''destination'', ''dst'', ''local''];
          hosts = [''host'', ''ip'', ''address'']
      in \<lparr>p_event_type = event_type,
          p_source_ip = clean_ip (py_or (first_of event [''source-ip'', ''source_ip'', ''src_ip''])
             (nested event peers hosts)),
          p_source_port = clean_port (py_or
             (first_of event [''source-port'', ''source_port'', ''src_port''])
             (nested event peers [''port''])),
          p_destination_ip = clean_ip (py_or
             (first_of event [''destination-ip'', ''destination_ip'', ''dst_ip''])
             (nested event locals hosts)),
          p_destination_port = clean_port (py_or
             (first_of event [''destination-port'', ''destination_port'', ''dst_port''])
             (nested event locals [''port''])),
          p_username = first_of event [''username'', ''user''],
          p_password = first_of event [''password''],
          p_auth_result = None,
          p_command = first_of event [''command'', ''payload-command''],
          p_session_id = first_of event [''session'', ''token'', ''id''],
          p_protocol_hint = first_of event [''protocol'', ''transport'', ''category''],
          p_metadata = pick_metadata
            [''agent'', ''token'', ''payload-hex'', ''content-type'',
             ''http.method'', ''http.url'', ''http.host''] event\<rparr>)"

definition parse_generic :: "jdict \<Rightarrow> parsed" where
  "parse_generic event =
     (let dests = [''destination'', ''dst'', ''local'']
      in \<lparr>p_event_type = py_str (py_or (first_of event [''eventid'', ''event'', ''type''])
             (JStr ''event'')),
          p_source_ip = clean_ip (py_or
             (first_of event [''src_ip'', ''source_ip'', ''source-ip'', ''peerIP'',
                ''remote_host'', ''remote_ip'', ''attacker'', ''client_ip'', ''ip''])
             (nested event [''source'', ''src'', ''origin'', ''peer'', ''remote'']
                [''host'', ''ip'', ''addr'', ''address''])),
          p_source_port = clean_port (py_or
             (first_of event [''src_port'', ''source_port'', ''source-port'', ''peerPort''])
             (nested event [''source'', ''src'', ''remote''] [''port''])),
          p_destination_ip = clean_ip (py_or
             (first_of event [''dst_ip'', ''destination_ip'', ''destination-ip'', ''hostIP''])
             (nested event dests [''host'', ''ip'', ''address''])),
          p_destination_port = clean_port (py_or
             (first_of event [''dst_port'', ''destination_port'', ''destination-port'',
                ''hostPort'', ''port''])
             (nested event dests [''port''])),
          p_username = first_of event [''username'', ''user''],
          p_password = first_of event [''password''],
          p_auth_result = None,
          p_command = first_of event [''command'', ''input''],
          p_session_id = first_of event [''session'', ''session_id'', ''id''],
          p_protocol_hint = first_of event [''protocol'', ''transport''],
          p_metadata = []\<rparr>)"

definition run_parser :: "string \<Rightarrow> jdict \<Rightarrow> parsed" where
  "run_parser sensor =
     (if sensor = ''cowrie'' then parse_cowrie
      else if sensor = ''dionaea'' then parse_dionaea
      else if sensor = ''honeytrap'' then parse_honeytrap
      else parse_generic)"

section \<open>The normalized event\<close>

record normalized =
  ev_id :: string
  ev_timestamp :: time
  ev_sensor :: string
  ev_type :: string
  ev_source_ip :: string
  ev_source_port :: "int option"
  ev_destination_ip :: "string option"
  ev_destination_port :: "int option"
  ev_protocol :: string
  ev_username :: json
  ev_password :: json
  ev_auth_result :: "string option"
  ev_command :: json
  ev_payload :: json
  ev_session_id :: json
  ev_severity :: severity
  ev_raw :: string
  ev_metadata :: jdict

definition set_default :: "string \<Rightarrow> json \<Rightarrow> jdict \<Rightarrow> jdict" where
  "set_default k v d = (if has_key k d then d else d @ [(k, v)])"

definition build_event :: "runtime \<Rightarrow> jdict \<Rightarrow> string \<Rightarrow> parsed \<Rightarrow> string \<Rightarrow> string \<Rightarrow> normalized" where
  "build_event rt raw sensor p event_type source_ip =
     (let destination_port = (case p_destination_port p of
              None \<Rightarrow> map_of DEFAULT_SENSOR_PORTS sensor | Some n \<Rightarrow> Some n)
      in \<lparr>ev_id = compute_event_id rt raw,
          ev_timestamp = parse_timestamp rt
             (first_of raw [''timestamp'', ''time'', ''date'', ''@timestamp'']),
          ev_sensor = sensor,
          ev_type = event_type,
          ev_source_ip = source_ip,
          ev_source_port = p_source_port p,
          ev_destination_ip = p_destination_ip p,
          ev_destination_port = destination_port,
          ev_protocol = derive_protocol destination_port (p_protocol_hint p),
          ev_username = p_username p,
          ev_password = p_password p,
          ev_auth_result = p_auth_result p,
          ev_command = p_command p,
          ev_payload = JNull,
          ev_session_id = p_session_id p,
          ev_severity = derive_severity event_type (p_auth_result p) (p_command p),
          ev_raw = dumps False (JObj raw),
          ev_metadata = set_default ''detected_sensor'' (JStr sensor) (p_metadata p)\<rparr>)"

definition normalize_dict :: "runtime \<Rightarrow> jdict \<Rightarrow> normalized option" where
  "normalize_dict rt raw =
     (let sensor = detect_sensor raw;
          p = run_parser sensor raw;
          event_type = (if p_event_type p = '''' then ''event'' else p_event_type p)
      in if contains_str ''heartbeat'' (lower event_type) then None
         else (case p_source_ip p of
                 None \<Rightarrow> None
               | Some source_ip \<Rightarrow>
                   if source_ip = '''' then None
                   else if source_ip \<in> set LOOPBACK_IPS
                           \<and> drop_loopback rt \<in> {''1'', ''true'', ''yes''} then None
                   else Some (build_event rt raw sensor p event_type source_ip)))"

fun normalize :: "runtime \<Rightarrow> json \<Rightarrow> normalized option" where
  "normalize rt (JObj raw) = normalize_dict rt raw"
| "normalize rt _ = None"

section \<open>Well-formed events\<close>

declare first_of.simps [simp del] nested.simps [simp del]

definition port_ok :: "int option \<Rightarrow> bool" where
  "port_ok p = (case p of None \<Rightarrow> True | Some n \<Rightarrow> 0 < n \<and> n \<le> 65535)"

definition ip_ok :: "string option \<Rightarrow> bool" where
  "ip_ok v = (case v of None \<Rightarrow> True | Some t \<Rightarrow> t \<notin> set EMPTY_IPS)"

definition parsed_ok :: "parsed \<Rightarrow> bool" where
  "parsed_ok p \<longleftrightarrow> ip_ok (p_source_ip p) \<and> port_ok (p_source_port p)
     \<and> ip_ok (p_destination_ip p) \<and> port_ok (p_destination_port p)"

definition event_ok :: "normalized \<Rightarrow> bool" where
  "event_ok e \<longleftrightarrow> ev_source_ip e \<notin> set EMPTY_IPS
     \<and> port_ok (ev_source_port e) \<and> port_ok (ev_destination_port e) \<and> ip_ok (ev_destination_ip e)
     \<and> ev_sensor e \<in> set (''unknown'' # KNOWN_SENSORS) \<and> ev_type e \<noteq> [] \<and> ev_protocol e \<noteq> []
     \<and> has_key ''detected_sensor'' (ev_metadata e)"

lemma clean_ip_ok [simp]: "ip_ok (clean_ip v)"
  by (simp add: clean_ip_def ip_ok_def Let_def)

lemma clean_port_ok [simp]: "port_ok (clean_port v)"
  by (simp add: clean_port_def port_ok_def split: option.splits)

lemma or_else_ok [simp]:
  "ip_ok a \<Longrightarrow> ip_ok b \<Longrightarrow> ip_ok (or_else a b)"
  "port_ok c \<Longrightarrow> port_ok d \<Longrightarrow> port_ok (or_else c d)"
  by (cases a; simp add: or_else_def; fail | cases c; simp add: or_else_def)+

lemma parse_cowrie_ok: "parsed_ok (parse_cowrie e)"
  by (simp add: parse_cowrie_def parsed_ok_def Let_def)

lemma parse_honeytrap_ok: "parsed_ok (parse_honeytrap e)"
  by (simp add: parse_honeytrap_def parsed_ok_def Let_def)

lemma parse_generic_ok: "parsed_ok (parse_generic e)"
  by (simp add: parse_generic_def parsed_ok_def Let_def)

definition endpoints_ok :: "endpoints \<Rightarrow> bool" where
  "endpoints_ok = (\<lambda>(a, b, c, d). ip_ok a \<and> port_ok b \<and> ip_ok c \<and> port_ok d)"

lemma bracketed_ok: "endpoints_ok ep \<Longrightarrow> endpoints_ok (bracketed t ep)"
  by (cases ep; cases "conn_search t") (auto simp: bracketed_def endpoints_ok_def)

lemma dionaea_endpoints_ok: "endpoints_ok (dionaea_endpoints e c t)"
  unfolding dionaea_endpoints_def Let_def by (rule bracketed_ok) (simp add: endpoints_ok_def)

lemma parse_dionaea_ok: "parsed_ok (parse_dionaea e)"
proof -
  obtain c where c: "c = (case dict_get ''connection'' e of JObj d \<Rightarrow> d | _ \<Rightarrow> [])" by simp
  obtain a b a' b' where ep: "dionaea_endpoints e c (dionaea_event_type e c) = (a, b, a', b')"
    by (metis prod_cases4)
  with dionaea_endpoints_ok[of e c "dionaea_event_type e c"] show ?thesis
    by (simp add: parse_dionaea_def c[symmetric] parsed_ok_def endpoints_ok_def Let_def)
qed

lemma run_parser_ok: "parsed_ok (run_parser s e)"
  by (simp add: run_parser_def parse_cowrie_ok parse_dionaea_ok parse_honeytrap_ok parse_generic_ok)

lemma first_name_in_mem: "first_name_in ns t = Some n \<Longrightarrow> n \<in> set ns"
  by (induction ns) (auto split: if_splits)

lemma detect_sensor_known: "detect_sensor e \<in> set (''unknown'' # KNOWN_SENSORS)"
proof (cases "first_name_in KNOWN_SENSORS
    (lower (py_str (py_or (first_of e [''sensor'', ''system'', ''sensor_name'', ''honeypot'']) (JStr []))))")
  case None
  then show ?thesis
    using first_name_in_mem[of KNOWN_SENSORS]
    by (cases "first_name_in KNOWN_SENSORS
        (lower (py_str (py_or (first_of e [''eventid'', ''event'', ''type'']) (JStr []))))")
       (auto simp: detect_sensor_def Let_def KNOWN_SENSORS_def split: json.split)
qed (auto simp: detect_sensor_def dest: first_name_in_mem)

lemma default_port_ok [simp]: "port_ok (map_of DEFAULT_SENSOR_PORTS s)"
  by (simp add: DEFAULT_SENSOR_PORTS_def port_ok_def)

lemma port_protocol_nonempty: "port_protocol p = Some t \<Longrightarrow> t \<noteq> []"
proof -
  have "\<forall>(n, t) \<in> set PORT_PROTOCOL. t \<noteq> []" by (simp add: PORT_PROTOCOL_def)
  then show "port_protocol p = Some t \<Longrightarrow> t \<noteq> []"
    by (fastforce simp: port_protocol_def split: option.splits if_splits dest: map_of_SomeD)
qed

lemma derive_protocol_nonempty [simp]: "derive_protocol p d \<noteq> []"
  by (auto simp: derive_protocol_def Let_def port_protocol_nonempty split: option.splits)

lemma has_key_set_default [simp]: "has_key k (set_default k v d)"
  by (auto simp: set_default_def has_key_def)

lemma build_event_ok:
  "parsed_ok p \<Longrightarrow> p_source_ip p = Some ip \<Longrightarrow> t \<noteq> [] \<Longrightarrow>
   event_ok (build_event rt raw (detect_sensor raw) p t ip)"
  using detect_sensor_known[of raw]
  by (cases "p_destination_port p")
     (simp_all add: build_event_def event_ok_def parsed_ok_def Let_def, simp_all add: ip_ok_def)

text \<open>C16. Whatever JSON value a sensor line holds, the normalizer either drops it or returns a
  well-formed event: an attributable source address, ports in range, a sensor from the closed
  list, a non-empty event type and protocol, and the sensor recorded in its metadata.\<close>

theorem normalize_well_formed:
  assumes "normalize rt j = Some e"
  shows "event_ok e"
proof (cases j)
  case (JObj raw)
  with assms show ?thesis
    by (auto simp: normalize_dict_def Let_def run_parser_ok intro!: build_event_ok
        split: if_splits option.splits)
qed (use assms in simp_all)

definition example_runtime :: runtime where
  "example_runtime = \<lparr>sha256_hex = (\<lambda>s. s), fromisoformat = (\<lambda>s. None),
     strptime = (\<lambda>s f. None), utcnow = 0, drop_loopback = []\<rparr>"

definition example_login :: jdict where
  "example_login =
     [(''eventid'', JStr ''cowrie.login.failed''), (''src_ip'', JStr ''203.0.113.9''),
      (''src_port'', JStr ''70000''), (''username'', JStr ''root'')]"

lemmas normalize_eval =
  normalize_dict_def detect_sensor_def run_parser_def parse_cowrie_def clean_ip_def clean_port_def
  first_of.simps nested.simps blank_def build_event_def Let_def KNOWN_SENSORS_def EMPTY_IPS_def LOOPBACK_IPS_def lower_def
  lower_char_def strip_def is_space_def starts_with_def py_or_def py_str_def

theorem normalize_well_formed_witness:
  "\<exists>e. normalize example_runtime (JObj example_login) = Some e \<and> event_ok e
     \<and> ev_source_ip e = ''203.0.113.9'' \<and> ev_source_port e = None"
proof -
  have "\<exists>e. normalize example_runtime (JObj example_login) = Some e
     \<and> ev_source_ip e = ''203.0.113.9'' \<and> ev_source_port e = None"
    by (simp add: example_login_def example_runtime_def normalize_eval int_of_str_def is_digit_def
        digit_val_def)
  then show ?thesis using normalize_well_formed by blast
qed

section \<open>Severity\<close>

text \<open>The bands an event qualifies for, independently of the order of the tests.\<close>

definition severity_bands :: "string \<Rightarrow> string option \<Rightarrow> json \<Rightarrow> severity set" where
  "severity_bands t auth command =
     {INFO}
     \<union> (if any_in [''connect'', ''session'', ''connection''] (lower t) then {LOW} else {})
     \<union> (if auth = Some ''FAILURE'' \<or> any_in [''login'', ''auth'', ''credential''] (lower t)
        then {MEDIUM} else {})
     \<union> (if truthy command \<or> auth = Some ''SUCCESS'' then {HIGH} else {})
     \<union> (if any_in [''file_download'', ''file_upload'', ''download''] (lower t)
        then {CRITICAL} else {})"

text \<open>First match wins, and the first match is the worst: the severity given to an event is
  the maximum of all the bands it qualifies for, so no later rule could have raised it.\<close>

theorem derive_severity_is_max:
  "derive_severity t auth command = Max (severity_bands t auth command)"
proof (rule Max_eqI[symmetric])
  show "finite (severity_bands t auth command)" by (simp add: severity_bands_def)
  show "derive_severity t auth command \<in> severity_bands t auth command"
    by (simp add: severity_bands_def derive_severity_def Let_def)
  fix s assume "s \<in> severity_bands t auth command"
  then show "s \<le> derive_severity t auth command"
    by (cases s) (auto simp: severity_bands_def derive_severity_def Let_def severity_order
        split: if_splits)
qed

section \<open>The order of keys does not matter\<close>

lemma map_of_perm: "mset kvs = mset kvs' \<Longrightarrow> distinct (map fst kvs) \<Longrightarrow> map_of kvs = map_of kvs'"
proof -
  assume m: "mset kvs = mset kvs'" and d: "distinct (map fst kvs)"
  have "distinct (map fst kvs')" using m d by (metis mset_map mset_eq_imp_distinct_iff)
  moreover have "set kvs = set kvs'" using m by (rule mset_eq_setD)
  ultimately show ?thesis using d by (metis map_of_inject_set)
qed

definition same_dict :: "jdict \<Rightarrow> jdict \<Rightarrow> bool" where
  "same_dict a b \<longleftrightarrow> (\<forall>k. dict_get k a = dict_get k b) \<and> (\<forall>k. has_key k a = has_key k b)"

lemma same_dictI: "mset kvs = mset kvs' \<Longrightarrow> distinct (map fst kvs) \<Longrightarrow> same_dict kvs kvs'"
  using map_of_perm[of kvs kvs'] mset_eq_setD[of kvs kvs']
  by (simp add: same_dict_def dict_get_def has_key_def)

lemma first_of_same: "same_dict a b \<Longrightarrow> first_of a ks = first_of b ks"
  by (induction ks) (simp_all add: same_dict_def first_of.simps)

lemma nested_same: "same_dict a b \<Longrightarrow> nested a ps ks = nested b ps ks"
  by (induction ps) (simp_all add: same_dict_def nested.simps Let_def split: json.split)

lemma pick_metadata_same: "same_dict a b \<Longrightarrow> pick_metadata ks a = pick_metadata ks b"
  by (simp add: same_dict_def pick_metadata_def)

lemma dict_get_same: "same_dict a b \<Longrightarrow> dict_get k a = dict_get k b"
  by (simp add: same_dict_def)

lemma has_key_same: "same_dict a b \<Longrightarrow> has_key k a = has_key k b"
  by (simp add: same_dict_def)

lemma parse_cowrie_same: "same_dict a b \<Longrightarrow> parse_cowrie a = parse_cowrie b"
  unfolding parse_cowrie_def by (simp only: first_of_same[of a b] pick_metadata_same[of a b])

lemma parse_honeytrap_same: "same_dict a b \<Longrightarrow> parse_honeytrap a = parse_honeytrap b"
  unfolding parse_honeytrap_def
  by (simp only: first_of_same[of a b] nested_same[of a b] pick_metadata_same[of a b]
      dict_get_same[of a b])

lemma parse_generic_same: "same_dict a b \<Longrightarrow> parse_generic a = parse_generic b"
  unfolding parse_generic_def by (simp only: first_of_same[of a b] nested_same[of a b])

lemma parse_dionaea_same: "same_dict a b \<Longrightarrow> parse_dionaea a = parse_dionaea b"
  unfolding parse_dionaea_def dionaea_endpoints_def dionaea_event_type_def dionaea_metadata_def
  by (simp only: first_of_same[of a b] nested_same[of a b] pick_metadata_same[of a b]
      dict_get_same[of a b])

lemma run_parser_same: "same_dict a b \<Longrightarrow> run_parser s a = run_parser s b"
  by (simp add: run_parser_def parse_cowrie_same[of a b] parse_dionaea_same[of a b]
      parse_honeytrap_same[of a b] parse_generic_same[of a b])

lemma detect_sensor_same: "same_dict a b \<Longrightarrow> detect_sensor a = detect_sensor b"
  unfolding detect_sensor_def
  by (simp only: first_of_same[of a b] dict_get_same[of a b] has_key_same[of a b])

text \<open>Ingestion is idempotent per event, not per line: two lines whose objects have the
  same members in a different order normalize to the same event, identifier included; only
  the copy of the raw text differs.\<close>

theorem normalize_key_order:
  assumes "mset raw = mset raw'" and "distinct (map fst raw)"
  shows "map_option (\<lambda>e. e\<lparr>ev_raw := []\<rparr>) (normalize rt (JObj raw))
       = map_option (\<lambda>e. e\<lparr>ev_raw := []\<rparr>) (normalize rt (JObj raw'))"
proof -
  have same: "same_dict raw raw'" by (rule same_dictI[OF assms])
  have id: "compute_event_id rt raw = compute_event_id rt raw'"
    unfolding compute_event_id_def by (simp only: dumps_sorted_perm[OF assms])
  let ?clear = "\<lambda>e. e\<lparr>ev_raw := []\<rparr>"
  have "?clear (build_event rt raw s p t ip) = ?clear (build_event rt raw' s p t ip)" for s p t ip
    unfolding build_event_def id first_of_same[OF same] by (simp add: Let_def)
  then show ?thesis
    unfolding normalize.simps normalize_dict_def detect_sensor_same[OF same] run_parser_same[OF same]
      Let_def if_distrib[of "map_option ?clear"] option.case_distrib[of "map_option ?clear"]
    by (simp only: option.map)
qed

theorem normalize_key_order_witness:
  "map_option (\<lambda>e. e\<lparr>ev_raw := []\<rparr>) (normalize example_runtime (JObj example_login))
   = map_option (\<lambda>e. e\<lparr>ev_raw := []\<rparr>) (normalize example_runtime (JObj (rev example_login)))"
  by (rule normalize_key_order) (simp_all add: example_login_def)

section \<open>Bracketed connection strings\<close>

definition ip_text :: "string \<Rightarrow> bool" where
  "ip_text s \<longleftrightarrow> s \<noteq> [] \<and> (\<forall>c \<in> set s. is_ip_char c)"

definition port_text :: "string \<Rightarrow> bool" where
  "port_text s \<longleftrightarrow> s \<noteq> [] \<and> (\<forall>c \<in> set s. is_digit c)"

lemma span_of_all:
  "\<forall>c \<in> set s. p c \<Longrightarrow> \<not> p d \<Longrightarrow> span_of p (s @ d # rest) = (s, d # rest)"
  by (simp add: span_of_def takeWhile_append dropWhile_append)

lemma eat_append [simp]: "eat p (p @ s) = Some s"
  by (simp add: eat_def)

lemma conn_at_text:
  assumes "ip_text a" "port_text p" "ip_text b" "port_text q"
  shows "conn_at (''['' @ a @ '':'' @ p @ ''->'' @ b @ '':'' @ q @ '']'' @ rest) = Some (a, p, b, q)"
proof -
  have n: "\<not> is_ip_char (CHR '':'')" "\<not> is_digit (CHR ''-'')" "\<not> is_digit (CHR '']'')"
    by (simp_all add: is_ip_char_def is_digit_def Let_def)
  have e: "eat [c] (c # s) = Some s" "eat [c, d] (c # d # s) = Some s" for c d s
    by (simp_all add: eat_def starts_with_def)
  show ?thesis
    using assms by (simp add: conn_at_def e n span_of_all ip_text_def port_text_def)
qed

lemma conn_at_needs_bracket: "CHR ''['' \<noteq> c \<Longrightarrow> conn_at (c # s) = None"
  by (simp add: conn_at_def eat_def starts_with_def)

text \<open>The fall-back for Dionaea's older text form reads back what such a line says: from any
  text with the endpoints in brackets after a prefix without a bracket, it recovers the two
  addresses and the two ports exactly.\<close>

theorem conn_search_roundtrip:
  assumes "CHR ''['' \<notin> set pre" "ip_text a" "port_text p" "ip_text b" "port_text q"
  shows "conn_search (pre @ ''['' @ a @ '':'' @ p @ ''->'' @ b @ '':'' @ q @ '']'' @ rest)
       = Some (a, p, b, q)"
  using assms(1)
proof (induction pre)
  case Nil
  show ?case using conn_at_text[OF assms(2-), of rest] by simp
next
  case (Cons c pre)
  then show ?case by (simp add: conn_at_needs_bracket)
qed

theorem conn_search_roundtrip_witness:
  "conn_search (''connection '' @ ''['' @ ''127.0.0.1'' @ '':'' @ ''445'' @ ''->'' @ ''10.0.0.5'' @ '':''
      @ ''51823'' @ '']'' @ ''!'') = Some (''127.0.0.1'', ''445'', ''10.0.0.5'', ''51823'')"
  by (rule conn_search_roundtrip)
     (simp_all add: ip_text_def port_text_def is_ip_char_def is_digit_def Let_def)

section \<open>Attributable events are kept\<close>

text \<open>Nothing attributable is lost: an event whose parser finds a source address is kept
  whenever it is not a heartbeat and loopback filtering is off, and it is dropped otherwise
  when no source address is found.\<close>

theorem normalize_drops_exactly:
  "normalize rt (JObj raw) = None \<longleftrightarrow>
     (let p = run_parser (detect_sensor raw) raw in
      contains_str ''heartbeat'' (lower (p_event_type p))
      \<or> p_source_ip p = None
      \<or> (the (p_source_ip p) \<in> set LOOPBACK_IPS \<and> drop_loopback rt \<in> {''1'', ''true'', ''yes''}))"
proof -
  let ?p = "run_parser (detect_sensor raw) raw"
  have hb: "contains_str ''heartbeat'' (lower (if t = [] then ''event'' else t))
      = contains_str ''heartbeat'' (lower t)" for t
    by (simp add: lower_def lower_char_def starts_with_def)
  have "p_source_ip ?p \<noteq> Some []"
    using run_parser_ok[of "detect_sensor raw" raw]
    by (auto simp: parsed_ok_def ip_ok_def EMPTY_IPS_def)
  then show ?thesis
    by (auto simp: normalize_dict_def Let_def hb split: option.split)
qed

end
