(* ===== verification/Collector.thy ===== *)
theory Collector
  imports Event_Bus Local_Source Normalize
begin

text \<open>
  The ingestion cycle of the local collector
  (\<open>backend/app/services/telemetry/collector.py\<close>): read the new lines, normalize, store, save
  the cursors, commit, and only then publish to the event bus.

  The database is the three tables the cycle writes, as lists of rows in insertion order. A
  cycle works on a copy; a failed commit, or a statement that raises, leaves the database as
  it was. What the database server answers is the argument \<open>outcome\<close>; the clock is read once
  per cycle (\<open>now\<close>). Listeners are numbered in the order of \<open>add_listener\<close> and their calls
  recorded. The column widths of the tables and the binding of JSON values to text columns are
  the driver's and are not modelled.
\<close>

definition LATENCY_WINDOW :: nat where
  "LATENCY_WINDOW = 500"

definition PERSIST_CHUNK_ROWS :: nat where
  "PERSIST_CHUNK_ROWS = 500"

definition LIVE_WINDOW_SECONDS :: nat where
  "LIVE_WINDOW_SECONDS = 60"

definition DEFAULT_INTERVAL_SECONDS :: rat where
  "DEFAULT_INTERVAL_SECONDS = 2"

definition DEFAULT_SAFETY_SWEEP_SECONDS :: rat where
  "DEFAULT_SAFETY_SWEEP_SECONDS = 30"

definition DEBOUNCE_SECONDS :: rat where
  "DEBOUNCE_SECONDS = 2 / 100"

definition ERROR_BACKOFF_SECONDS :: rat where
  "ERROR_BACKOFF_SECONDS = 15"

text \<open>\<open>_env_seconds\<close>: the argument is the environment variable, and \<open>float\<close> with \<open>None\<close> for
  its exceptions.\<close>

definition env_seconds :: "(string \<Rightarrow> rat option) \<Rightarrow> string option \<Rightarrow> rat \<Rightarrow> rat \<Rightarrow> rat" where
  "env_seconds float env dflt minimum =
     (case env of
        None \<Rightarrow> max minimum dflt
      | Some text \<Rightarrow> (case float text of None \<Rightarrow> dflt | Some x \<Rightarrow> max minimum x))"

definition percentile :: "rat list \<Rightarrow> rat \<Rightarrow> rat option" where
  "percentile sorted_values q =
     (if sorted_values = [] then None
      else Some (sorted_values ! min (length sorted_values - 1)
             (nat (round_half_even (q * of_nat (length sorted_values - 1))))))"

section \<open>Rows\<close>

record normalized_row =
  nr_event :: normalized
  nr_ingested_at :: time

definition to_normalized_row :: "time \<Rightarrow> normalized \<Rightarrow> normalized_row" where
  "to_normalized_row now e = \<lparr>nr_event = e, nr_ingested_at = now\<rparr>"

definition nr_id :: "normalized_row \<Rightarrow> string" where
  "nr_id r = ev_id (nr_event r)"

record raw_row =
  rr_id :: string
  rr_timestamp :: time
  rr_attacker_ip :: string
  rr_target_port :: int
  rr_protocol :: string
  rr_honeypot_type :: string
  rr_session_id :: json
  rr_event_type :: string
  rr_commands :: json
  rr_risk_score :: rat
  rr_raw_payload :: string
  rr_sync_status :: string
  rr_signature :: "string option"

definition capitalize :: "string \<Rightarrow> string" where
  "capitalize s = (case s of [] \<Rightarrow> [] | c # cs \<Rightarrow> upper_char c # lower cs)"

definition to_raw_event_row :: "normalized \<Rightarrow> raw_row" where
  "to_raw_event_row e =
     \<lparr>rr_id = ev_id e,
      rr_timestamp = ev_timestamp e,
      rr_attacker_ip = ev_source_ip e,
      rr_target_port = (case ev_destination_port e of None \<Rightarrow> 0 | Some p \<Rightarrow> p),
      rr_protocol = ev_protocol e,
      rr_honeypot_type = capitalize (ev_sensor e),
      rr_session_id = py_or (ev_session_id e) (JStr (ev_id e)),
      rr_event_type = ev_type e,
      rr_commands = ev_command e,
      rr_risk_score = risk_score_of (Some (sev_name (ev_severity e))),
      rr_raw_payload = ev_raw e,
      rr_sync_status = ''LOCAL'',
      rr_signature = Some (ev_id e)\<rparr>"

record cursor_row =
  cr_key :: string
  cr_inode :: "string option"
  cr_size :: "nat option"
  cr_offset :: "nat option"
  cr_events :: nat
  cr_processed_at :: time

record telemetry_db =
  normalized_events :: "normalized_row list"
  raw_events :: "raw_row list"
  ingest_cursors :: "cursor_row list"

text \<open>\<open>INSERT IGNORE\<close>: a row whose primary key, or unique signature, is taken is skipped.\<close>

definition insert_normalized :: "normalized_row \<Rightarrow> telemetry_db \<Rightarrow> telemetry_db" where
  "insert_normalized r db =
     (if nr_id r \<in> nr_id ` set (normalized_events db) then db
      else db\<lparr>normalized_events := normalized_events db @ [r]\<rparr>)"

definition insert_raw :: "raw_row \<Rightarrow> telemetry_db \<Rightarrow> telemetry_db" where
  "insert_raw r db =
     (if rr_id r \<in> rr_id ` set (raw_events db)
         \<or> (rr_signature r \<noteq> None \<and> rr_signature r \<in> rr_signature ` set (raw_events db)) then db
      else db\<lparr>raw_events := raw_events db @ [r]\<rparr>)"

section \<open>Persisting a batch\<close>

text \<open>\<open>rows[start:start + n]\<close> for \<open>start\<close> in \<open>range(0, len(rows), n)\<close>.\<close>

function chunks :: "nat \<Rightarrow> 'a list \<Rightarrow> 'a list list" where
  "chunks n xs = (if n = 0 \<or> xs = [] then [] else take n xs # chunks n (drop n xs))"
  by auto
termination
  by (relation "measure (\<lambda>(n, xs). length xs)") auto

declare chunks.simps [simp del]

definition persist :: "time \<Rightarrow> normalized list \<Rightarrow> telemetry_db \<Rightarrow> nat \<times> telemetry_db" where
  "persist now events db =
     (if events = [] then (0, db)
      else (let rows = map (to_normalized_row now) events;
                raw_rows = map to_raw_event_row events;
                db = fold (fold insert_normalized) (chunks PERSIST_CHUNK_ROWS rows) db;
                db = fold (fold insert_raw) (chunks PERSIST_CHUNK_ROWS raw_rows) db
            in (length rows, db)))"

definition load_cursors :: "telemetry_db \<Rightarrow> (string \<times> file_cursor) list" where
  "load_cursors db =
     map (\<lambda>r. (cr_key r, \<lparr>source_key = cr_key r,
             inode = (case cr_inode r of None \<Rightarrow> [] | Some i \<Rightarrow> i),
             size_bytes = (case cr_size r of None \<Rightarrow> 0 | Some n \<Rightarrow> n),
             byte_offset = (case cr_offset r of None \<Rightarrow> 0 | Some n \<Rightarrow> n), mtime = 0\<rparr>))
       (ingest_cursors db)"

text \<open>\<open>INSERT ... ON DUPLICATE KEY UPDATE\<close>\<close>

definition upsert_cursor :: "time \<Rightarrow> (string \<times> nat) list \<Rightarrow> string \<times> file_cursor
    \<Rightarrow> telemetry_db \<Rightarrow> telemetry_db" where
  "upsert_cursor now counts = (\<lambda>(key, c) db.
     let n = (case map_of counts key of None \<Rightarrow> 0 | Some n \<Rightarrow> n) in
     if key \<in> cr_key ` set (ingest_cursors db) then
       db\<lparr>ingest_cursors := map (\<lambda>r. if cr_key r = key
             then r\<lparr>cr_inode := Some (inode c), cr_size := Some (size_bytes c),
                    cr_offset := Some (byte_offset c), cr_events := cr_events r + n,
                    cr_processed_at := now\<rparr>
             else r) (ingest_cursors db)\<rparr>
     else
       db\<lparr>ingest_cursors := ingest_cursors db @
             [\<lparr>cr_key = key, cr_inode = Some (inode c), cr_size = Some (size_bytes c),
               cr_offset = Some (byte_offset c), cr_events = n, cr_processed_at = now\<rparr>]\<rparr>)"

definition save_cursors :: "time \<Rightarrow> (string \<times> file_cursor) list \<Rightarrow> (string \<times> nat) list
    \<Rightarrow> telemetry_db \<Rightarrow> telemetry_db" where
  "save_cursors now cursors counts db = fold (upsert_cursor now counts) cursors db"

section \<open>The collector\<close>

record published_event =
  pub_event :: normalized
  pub_at :: time
  pub_latency_ms :: "rat option"

datatype collector_mode = Stopped | Inotify | Polling

record local_collector =
  publish_enabled :: bool
  is_running :: bool
  mode :: collector_mode
  watch_error :: "string option"
  listeners :: nat
  listener_calls :: "(nat \<times> nat) list"
  latency_ms :: "rat list"
  cycles :: nat
  events_ingested :: nat
  events_skipped :: nat
  last_cycle_at :: "time option"
  last_run_at :: "time option"
  last_publish_at :: "time option"
  last_error :: "string option"

definition new_collector :: "bool \<Rightarrow> local_collector" where
  "new_collector publish_flag =
     \<lparr>publish_enabled = publish_flag, is_running = False, mode = Stopped, watch_error = None,
      listeners = 0, listener_calls = [], latency_ms = [], cycles = 0, events_ingested = 0,
      events_skipped = 0, last_cycle_at = None, last_run_at = None, last_publish_at = None,
      last_error = None\<rparr>"

definition add_listener :: "local_collector \<Rightarrow> local_collector" where
  "add_listener c = c\<lparr>listeners := listeners c + 1\<rparr>"

definition append_latency :: "rat \<Rightarrow> local_collector \<Rightarrow> local_collector" where
  "append_latency x c = c\<lparr>latency_ms := take_last LATENCY_WINDOW (latency_ms c @ [x])\<rparr>"

text \<open>What the database answers: commit, fail at the commit, or raise in a statement.\<close>

datatype outcome = Commits | Commit_Fails string | Raises string

record world =
  w_collector :: local_collector
  w_db :: telemetry_db
  w_bus :: "published_event event_bus"

definition batch_latency :: "time \<Rightarrow> (string \<times> file_cursor) list \<Rightarrow> rat option" where
  "batch_latency now updated =
     (let newest = max_or 0 (filter (\<lambda>t. t \<noteq> 0) (map (\<lambda>(_, c). mtime c) updated))
      in if newest = 0 then None else Some (py_round 1 (of_int (max 0 (now - newest)) / 1000)))"

definition after_commit :: "time \<Rightarrow> normalized list \<Rightarrow> (string \<times> file_cursor) list \<Rightarrow> world \<Rightarrow> world" where
  "after_commit now unique updated w =
     (let latency = batch_latency now updated;
          w = (if publish_enabled (w_collector w)
               then w\<lparr>w_bus := publish_many ''event''
                        (map (\<lambda>e. \<lparr>pub_event = e, pub_at = now, pub_latency_ms = latency\<rparr>) unique) (w_bus w),
                      w_collector := (w_collector w)\<lparr>last_publish_at := Some now\<rparr>\<rparr>
               else w);
          c = w_collector w;
          c = (case latency of
                 None \<Rightarrow> c
               | Some ms \<Rightarrow> if ms \<le> of_nat (LIVE_WINDOW_SECONDS * 1000) then append_latency ms c else c);
          c = c\<lparr>listener_calls := listener_calls c @ map (\<lambda>i. (i, length unique)) [0..<listeners c]\<rparr>
      in w\<lparr>w_collector := c\<rparr>)"

definition normalize_batch :: "runtime \<Rightarrow> json list \<Rightarrow> normalized list" where
  "normalize_batch rt raws = concat (map (\<lambda>j. case normalize rt j of None \<Rightarrow> [] | Some e \<Rightarrow> [e]) raws)"

text \<open>One cycle. The result is the number of events stored, or the exception.\<close>

definition run_once ::
  "reader \<Rightarrow> runtime \<Rightarrow> time \<Rightarrow> outcome \<Rightarrow> dir_file list option \<Rightarrow> world \<Rightarrow> (string + nat) \<times> world" where
  "run_once rd rt now answer dir w =
     (let w = w\<lparr>w_collector := (w_collector w)\<lparr>last_run_at := Some now\<rparr>\<rparr>;
          (raws, updated) = fetch_with_cursors rd dir (load_cursors (w_db w))
      in if raws = [] \<and> updated = [] then (Inr 0, w)
         else
           (let batch = normalize_batch rt raws;
                c = w_collector w;
                w = w\<lparr>w_collector := c\<lparr>events_skipped := events_skipped c + (length raws - length batch)\<rparr>\<rparr>;
                c = w_collector w;
                unique = dedup_on ev_id batch;
                per_file_counts = map (\<lambda>(key, _). (key, 0)) updated;
                (stored, db) = persist now unique (w_db w);
                db = save_cursors now updated per_file_counts db
            in case answer of
                 Raises msg \<Rightarrow> (Inl msg, w)
               | Commit_Fails msg \<Rightarrow> (Inr 0, w\<lparr>w_collector := c\<lparr>last_error := Some msg\<rparr>\<rparr>)
               | Commits \<Rightarrow>
                   (let w = w\<lparr>w_db := db,
                              w_collector := c\<lparr>events_ingested := events_ingested c + stored,
                                              last_cycle_at := Some now\<rparr>\<rparr>
                    in (Inr stored, if unique = [] then w else after_commit now unique updated w))))"

text \<open>One turn of \<open>run_forever\<close>, with what it then waits for.\<close>

datatype pause = Watch rat | Sleep rat

definition run_turn ::
  "reader \<Rightarrow> runtime \<Rightarrow> rat \<Rightarrow> rat \<Rightarrow> time \<Rightarrow> outcome \<Rightarrow> dir_file list option \<Rightarrow> world \<Rightarrow> pause \<times> world" where
  "run_turn rd rt interval sweep now answer dir w =
     (case run_once rd rt now answer dir w of
        (Inr _, w) \<Rightarrow>
          (let c = w_collector w in
           (if mode c = Inotify then Watch sweep else Sleep interval,
            w\<lparr>w_collector := c\<lparr>cycles := cycles c + 1\<rparr>\<rparr>))
      | (Inl msg, w) \<Rightarrow>
          (Sleep ERROR_BACKOFF_SECONDS, w\<lparr>w_collector := (w_collector w)\<lparr>last_error := Some msg\<rparr>\<rparr>))"

text \<open>The start of \<open>run_forever\<close>: the watcher starts, or reports why it did not.\<close>

definition start_collector :: "bool \<Rightarrow> (string option) option \<Rightarrow> local_collector \<Rightarrow> local_collector" where
  "start_collector configured watch c =
     (let c = c\<lparr>is_running := True\<rparr> in
      if configured then
        (case watch of
           None \<Rightarrow> c\<lparr>mode := Inotify\<rparr>
         | Some err \<Rightarrow> c\<lparr>watch_error := err, mode := Polling\<rparr>)
      else c\<lparr>mode := Polling\<rparr>)"

record latency_status =
  ls_samples :: nat
  ls_p50 :: "rat option"
  ls_p95 :: "rat option"
  ls_max :: "rat option"
  ls_last :: "rat option"

definition latency_status :: "local_collector \<Rightarrow> latency_status" where
  "latency_status c =
     (let samples = sort (latency_ms c) in
      \<lparr>ls_samples = length samples,
       ls_p50 = percentile samples (1 / 2),
       ls_p95 = percentile samples (95 / 100),
       ls_max = (if samples = [] then None else Some (last samples)),
       ls_last = (if latency_ms c = [] then None else Some (last (latency_ms c)))\<rparr>)"

section \<open>The tables\<close>

lemma fold_concat_fold: "fold (fold f) xss = fold f (concat xss)"
  by (induction xss) auto

lemma concat_chunks [simp]: "0 < n \<Longrightarrow> concat (chunks n xs) = xs"
  by (induction n xs rule: chunks.induct) (subst chunks.simps, auto)

lemma length_chunks_le: "ys \<in> set (chunks n xs) \<Longrightarrow> ys \<noteq> [] \<and> length ys \<le> n"
proof (induction n xs rule: chunks.induct)
  case (1 n xs)
  then show ?case by (subst (asm) (2) chunks.simps) (auto split: if_splits)
qed

lemma chunk_rows_pos [simp]: "0 < PERSIST_CHUNK_ROWS"
  by (simp add: PERSIST_CHUNK_ROWS_def)

text \<open>Writing in statements of at most 500 rows is the same as writing all rows.\<close>

lemma persist_eq:
  "persist now events db =
     (length events,
      fold insert_raw (map to_raw_event_row events)
        (fold insert_normalized (map (to_normalized_row now) events) db))"
  by (simp add: persist_def Let_def fold_concat_fold)

interpretation normalized_table: keyed_store normalized_events nr_id insert_normalized
  by unfold_locales (simp add: insert_normalized_def)

lemma insert_frame [simp]:
  "normalized_events (insert_raw r db) = normalized_events db"
  "ingest_cursors (insert_raw r db) = ingest_cursors db"
  "raw_events (insert_normalized s db) = raw_events db"
  "ingest_cursors (insert_normalized s db) = ingest_cursors db"
  by (simp_all add: insert_raw_def insert_normalized_def)

lemma fold_insert_frame [simp]:
  "normalized_events (fold insert_raw rs db) = normalized_events db"
  "ingest_cursors (fold insert_raw rs db) = ingest_cursors db"
  "raw_events (fold insert_normalized ss db) = raw_events db"
  "ingest_cursors (fold insert_normalized ss db) = ingest_cursors db"
  by (induction rs arbitrary: db; simp; fail | induction ss arbitrary: db; simp)+

lemma upsert_frame [simp]:
  "normalized_events (upsert_cursor now counts kc db) = normalized_events db"
  "raw_events (upsert_cursor now counts kc db) = raw_events db"
  by (cases kc; simp add: upsert_cursor_def Let_def)+

lemma save_frame [simp]:
  "normalized_events (save_cursors now cs counts db) = normalized_events db"
  "raw_events (save_cursors now cs counts db) = raw_events db"
  unfolding save_cursors_def by (induction cs arbitrary: db) simp_all

text \<open>The legacy table: a row is skipped when its id or its signature is taken.\<close>

definition raw_wf :: "raw_row list \<Rightarrow> bool" where
  "raw_wf rows \<longleftrightarrow> distinct (map rr_id rows)
     \<and> distinct (filter (\<lambda>s. s \<noteq> None) (map rr_signature rows))"

lemma insert_raw_wf: "raw_wf (raw_events db) \<Longrightarrow> raw_wf (raw_events (insert_raw r db))"
  by (auto simp: raw_wf_def insert_raw_def)

lemma fold_insert_raw_wf:
  "raw_wf (raw_events db) \<Longrightarrow> raw_wf (raw_events (fold insert_raw rs db))"
  by (induction rs arbitrary: db) (simp_all add: insert_raw_wf)

section \<open>Well-formed worlds\<close>

definition db_wf :: "telemetry_db \<Rightarrow> bool" where
  "db_wf db \<longleftrightarrow> distinct (map nr_id (normalized_events db)) \<and> raw_wf (raw_events db)
     \<and> distinct (map cr_key (ingest_cursors db))"

definition world_wf :: "world \<Rightarrow> bool" where
  "world_wf w \<longleftrightarrow> db_wf (w_db w) \<and> bus_wf (w_bus w)
     \<and> length (latency_ms (w_collector w)) \<le> LATENCY_WINDOW"

lemma upsert_cursor_keys:
  "map cr_key (ingest_cursors (upsert_cursor now counts (key, c) db)) =
     (if key \<in> set (map cr_key (ingest_cursors db)) then map cr_key (ingest_cursors db)
      else map cr_key (ingest_cursors db) @ [key])"
  by (simp add: upsert_cursor_def Let_def comp_def if_distrib cong: if_cong)

lemma upsert_cursor_wf: "db_wf db \<Longrightarrow> db_wf (upsert_cursor now counts kc db)"
  by (cases kc) (simp add: db_wf_def upsert_cursor_keys del: set_map)

lemma save_cursors_wf: "db_wf db \<Longrightarrow> db_wf (save_cursors now cs counts db)"
  unfolding save_cursors_def by (induction cs arbitrary: db) (simp_all add: upsert_cursor_wf)

lemma persist_wf: "db_wf db \<Longrightarrow> db_wf (snd (persist now events db))"
  by (simp add: db_wf_def persist_eq fold_insert_raw_wf normalized_table.distinct_fold_ins)

interpretation latency_window: ring_buffer LATENCY_WINDOW latency_ms append_latency
  by unfold_locales (simp add: append_latency_def)

lemma after_commit_db [simp]: "w_db (after_commit now unique updated w) = w_db w"
  by (simp add: after_commit_def Let_def)

lemma after_commit_wf: "world_wf w \<Longrightarrow> world_wf (after_commit now unique updated w)"
  using latency_window.put_bounded
  by (simp add: world_wf_def after_commit_def Let_def publish_many_wf append_latency_def
      split: option.split)

text \<open>The effect of a cycle on the database and the bus.\<close>

definition committed_db ::
  "reader \<Rightarrow> runtime \<Rightarrow> time \<Rightarrow> dir_file list option \<Rightarrow> telemetry_db \<Rightarrow> telemetry_db" where
  "committed_db rd rt now dir db =
     (let (raws, updated) = fetch_with_cursors rd dir (load_cursors db) in
      if raws = [] \<and> updated = [] then db
      else save_cursors now updated (map (\<lambda>(key, _). (key, 0)) updated)
             (snd (persist now (dedup_on ev_id (normalize_batch rt raws)) db)))"

lemma run_once_db:
  "w_db (snd (run_once rd rt now answer dir w)) =
     (if answer = Commits then committed_db rd rt now dir (w_db w) else w_db w)"
  by (auto simp: run_once_def committed_db_def Let_def split_beta split: outcome.split)

lemma committed_db_wf: "db_wf db \<Longrightarrow> db_wf (committed_db rd rt now dir db)"
  by (simp add: committed_db_def split_beta Let_def save_cursors_wf persist_wf)

lemma run_once_wf: "world_wf w \<Longrightarrow> world_wf (snd (run_once rd rt now answer dir w))"
proof -
  assume wf: "world_wf w"
  have db: "db_wf (w_db (snd (run_once rd rt now answer dir w)))"
    using wf by (simp add: run_once_db committed_db_wf world_wf_def)
  have upd: "bus_wf (w_bus (after_commit now u us v))"
    "length (latency_ms (w_collector (after_commit now u us v))) \<le> LATENCY_WINDOW"
    if "bus_wf (w_bus v)" "db_wf (w_db v)" "length (latency_ms (w_collector v)) \<le> LATENCY_WINDOW"
    for u us v
    using after_commit_wf[of v now u us] that by (simp_all add: world_wf_def)
  show ?thesis
    using wf db upd by (auto simp: run_once_def world_wf_def Let_def split_beta split: outcome.split)
qed

lemma run_turn_wf: "world_wf w \<Longrightarrow> world_wf (snd (run_turn rd rt i s now answer dir w))"
  using run_once_wf[of w rd rt now answer dir]
  by (auto simp: run_turn_def world_wf_def Let_def split_beta split: sum.split)

interpretation collector: event_machine
  "\<lambda>w (now, answer, dir). snd (run_turn rd rt i s now answer dir w)" world_wf for rd rt i s
  by unfold_locales (simp add: run_turn_wf split_beta)

section \<open>Properties\<close>

definition start_world :: "bool \<Rightarrow> world" where
  "start_world publish_flag =
     \<lparr>w_collector = new_collector publish_flag,
      w_db = \<lparr>normalized_events = [], raw_events = [], ingest_cursors = []\<rparr>, w_bus = new_bus\<rparr>"

lemma start_world_wf [simp]: "world_wf (start_world p)"
  by (simp add: start_world_def world_wf_def db_wf_def raw_wf_def new_collector_def)


lemma run_once_bus:
  "answer \<noteq> Commits \<Longrightarrow> w_bus (snd (run_once rd rt now answer dir w)) = w_bus w"
  by (cases answer) (simp_all add: run_once_def Let_def split_beta)



lemma nr_id_to_row [simp]: "nr_id (to_normalized_row now e) = ev_id e"
  by (simp add: nr_id_def to_normalized_row_def)

lemma ids_after_persist:
  "nr_id ` set (normalized_events (snd (persist now events db)))
     = nr_id ` set (normalized_events db) \<union> ev_id ` set events"
  by (simp add: persist_eq normalized_table.keys_fold_ins image_image)

lemma normalized_ids_committed:
  "nr_id ` set (normalized_events (committed_db rd rt now dir db)) =
     nr_id ` set (normalized_events db)
     \<union> ev_id ` set (normalize_batch rt (fst (fetch_with_cursors rd dir (load_cursors db))))"
  by (auto simp: committed_db_def split_beta Let_def ids_after_persist normalize_batch_def)

lemma raw_row_id [simp]:
  "rr_id (to_raw_event_row e) = ev_id e" "rr_signature (to_raw_event_row e) = Some (ev_id e)"
  by (simp_all add: to_raw_event_row_def)

lemma raw_after_fold:
  "e \<in> set events \<Longrightarrow> \<exists>r \<in> set (raw_events (fold insert_raw (map to_raw_event_row events) db)).
     rr_id r = ev_id e \<or> rr_signature r = Some (ev_id e)"
proof (induction events arbitrary: db)
  case (Cons x xs)
  have keep: "set (raw_events d) \<subseteq> set (raw_events (fold insert_raw rs d))" for rs d
  proof (induction rs arbitrary: d)
    case (Cons r rs)
    have "set (raw_events d) \<subseteq> set (raw_events (insert_raw r d))" by (auto simp: insert_raw_def)
    with Cons show ?case by (metis fold_simps(2) subset_trans)
  qed simp
  have "\<exists>r \<in> set (raw_events (insert_raw (to_raw_event_row x) db)).
      rr_id r = ev_id x \<or> rr_signature r = Some (ev_id x)"
    by (auto simp: insert_raw_def image_iff)
  with keep[of "insert_raw (to_raw_event_row x) db"] Cons show ?case by (fastforce dest: subsetD)
qed simp

text \<open>What a committed cycle stores: exactly the events of the new lines join the normalized
  table, and each of them is present in the legacy table too.\<close>

theorem committed_cycle_stores_all:
  "let raws = fst (fetch_with_cursors rd dir (load_cursors db));
       db' = committed_db rd rt now dir db
   in nr_id ` set (normalized_events db')
        = nr_id ` set (normalized_events db) \<union> ev_id ` set (normalize_batch rt raws)
      \<and> ev_id ` set (normalize_batch rt raws)
        \<subseteq> rr_id ` set (raw_events db') \<union> {s. Some s \<in> rr_signature ` set (raw_events db')}"
proof -
  let ?raws = "fst (fetch_with_cursors rd dir (load_cursors db))"
  have "\<exists>r \<in> set (raw_events (committed_db rd rt now dir db)).
      rr_id r = ev_id e \<or> rr_signature r = Some (ev_id e)" if "e \<in> set (normalize_batch rt ?raws)" for e
  proof -
    have "ev_id e \<in> ev_id ` set (dedup_on ev_id (normalize_batch rt ?raws))"
      using that by simp
    then obtain e' where "e' \<in> set (dedup_on ev_id (normalize_batch rt ?raws))" "ev_id e' = ev_id e"
      by (metis imageE)
    moreover have "?raws \<noteq> []" using that by (auto simp: normalize_batch_def)
    ultimately show ?thesis
      using raw_after_fold[of e' "dedup_on ev_id (normalize_batch rt ?raws)"]
      by (auto simp: committed_db_def split_beta Let_def persist_eq)
  qed
  then have "ev_id ` set (normalize_batch rt ?raws) \<subseteq> rr_id ` set (raw_events (committed_db rd rt now dir db))
      \<union> {s. Some s \<in> rr_signature ` set (raw_events (committed_db rd rt now dir db))}"
    by (auto simp: image_iff) metis
  then show ?thesis by (simp add: Let_def normalized_ids_committed)
qed

text \<open>Every cycle that stores nothing new changes neither table.\<close>

lemma fold_insert_raw_known:
  "ev_id ` set events \<subseteq> rr_id ` set (raw_events db) \<Longrightarrow>
   raw_events (fold insert_raw (map to_raw_event_row events) db) = raw_events db"
proof (induction events arbitrary: db)
  case (Cons e events)
  then have "insert_raw (to_raw_event_row e) db = db" by (auto simp: insert_raw_def)
  with Cons show ?case by simp
qed simp

text \<open>Re-ingestion is a no-op for the tables and counted all the same: when every event of a
  batch is stored already, no row changes, yet \<open>_persist\<close> reports the whole batch as stored, and
  so do \<open>run_once\<close> and the counter \<open>events_ingested\<close>.\<close>

theorem reingestion_is_a_counted_noop:
  assumes "ev_id ` set events \<subseteq> nr_id ` set (normalized_events db)"
    and "ev_id ` set events \<subseteq> rr_id ` set (raw_events db)"
  shows "fst (persist now events db) = length events
    \<and> normalized_events (snd (persist now events db)) = normalized_events db
    \<and> raw_events (snd (persist now events db)) = raw_events db"
proof -
  let ?db = "fold insert_normalized (map (to_normalized_row now) events) db"
  have "normalized_events ?db = normalized_events db"
    using assms(1) by (intro normalized_table.fold_ins_known) (simp add: image_image)
  moreover have "raw_events (fold insert_raw (map to_raw_event_row events) ?db) = raw_events ?db"
    using assms(2) by (intro fold_insert_raw_known) simp
  ultimately show ?thesis by (simp add: persist_eq)
qed

definition example_event :: normalized where
  "example_event = the (normalize example_runtime (JObj example_login))"

theorem reingestion_is_a_counted_noop_witness:
  "let db = snd (persist 0 [example_event] (w_db (start_world True)))
   in fst (persist 1 [example_event] db) = 1 \<and> raw_events (snd (persist 1 [example_event] db)) = raw_events db"
proof -
  let ?db = "snd (persist 0 [example_event] (w_db (start_world True)))"
  have "ev_id ` set [example_event] \<subseteq> nr_id ` set (normalized_events ?db)"
    by (simp only: ids_after_persist) simp
  moreover have "ev_id ` set [example_event] \<subseteq> rr_id ` set (raw_events ?db)"
    by (simp add: persist_eq start_world_def insert_raw_def)
  ultimately show ?thesis
    using reingestion_is_a_counted_noop[of "[example_event]" ?db 1] by simp
qed

section \<open>The per-file counter\<close>

lemma upsert_zero_counts:
  "list_all (\<lambda>r. cr_events r = 0) (ingest_cursors db) \<Longrightarrow> \<forall>(k, n) \<in> set counts. n = 0 \<Longrightarrow>
   list_all (\<lambda>r. cr_events r = 0) (ingest_cursors (upsert_cursor now counts kc db))"
  by (cases kc) (auto simp: upsert_cursor_def Let_def list_all_iff split: option.split dest!: map_of_SomeD)

lemma save_zero_counts:
  "list_all (\<lambda>r. cr_events r = 0) (ingest_cursors db) \<Longrightarrow> \<forall>(k, n) \<in> set counts. n = 0 \<Longrightarrow>
   list_all (\<lambda>r. cr_events r = 0) (ingest_cursors (save_cursors now cs counts db))"
  unfolding save_cursors_def by (induction cs arbitrary: db) (simp_all add: upsert_zero_counts)

text \<open>The column \<open>events_ingested\<close> of the cursor table never moves: the collector only ever
  passes zero counts for the files it read, so in every reachable database it is zero.\<close>

theorem cursor_event_counter_stays_zero:
  "list_all (\<lambda>r. cr_events r = 0) (ingest_cursors (w_db
     (foldl (\<lambda>w (now, answer, dir). snd (run_turn rd rt i s now answer dir w)) (start_world p) turns)))"
proof -
  have once: "list_all (\<lambda>r. cr_events r = 0) (ingest_cursors (w_db (snd (run_once rd rt now answer dir w))))"
    if "list_all (\<lambda>r. cr_events r = 0) (ingest_cursors (w_db w))" for now answer dir w
    using that by (auto simp: run_once_db committed_db_def split_beta Let_def persist_eq
        intro!: save_zero_counts)
  have turn: "w_db (snd (run_turn rd rt i s now answer dir w)) = w_db (snd (run_once rd rt now answer dir w))"
    for now answer dir w
    by (simp add: run_turn_def Let_def split_beta split: sum.split)
  show ?thesis
    by (induction turns rule: rev_induct)
       (auto simp: start_world_def turn once)
qed

end
