(* ===== verification/Soc_Db.thy ===== *)
theory Soc_Db
  imports Json Severity
begin

text \<open>
  The tables of the SOC layer (\<open>backend/app/models/all_models.py\<close>), as records and lists of rows
  in insertion order: normalized events as the detection engine reads them, indicators,
  detections, incidents with their event, indicator, activity and evidence rows, attacker
  sessions and the detection cursor of \<open>system_config\<close>.

  A nullable column is an option, a JSON list column that may be null is a list (the code
  reads it with \<open>or []\<close>). Detections are numbered by the order of insertion; an incident's id
  is the UUID text the database layer draws, an argument of the operation that creates it.
\<close>

record event =
  e_id :: string
  e_timestamp :: time
  e_ingested_at :: "time option"
  e_sensor :: string
  e_type :: "string option"
  e_source_ip :: string
  e_source_port :: "int option"
  e_destination_ip :: "string option"
  e_destination_port :: "int option"
  e_protocol :: "string option"
  e_username :: "string option"
  e_password :: "string option"
  e_auth_result :: "string option"
  e_command :: "string option"
  e_payload :: "string option"
  e_session_id :: "string option"
  e_severity :: "string option"
  e_raw :: "string option"
  e_metadata :: json

record ioc_observation =
  io_type :: string
  io_value :: string
  io_first_seen :: time
  io_last_seen :: time
  io_hit_count :: nat
  io_source :: string
  io_event_ids :: "string list"
  io_sensors :: "string list"

record detection =
  d_id :: nat
  d_key :: string
  d_rule_id :: string
  d_rule_name :: string
  d_severity :: string
  d_confidence :: rat
  d_technique :: "string option"
  d_tactic :: "string option"
  d_event_ids :: "string list"
  d_conditions :: json
  d_reason :: string
  d_source_ip :: "string option"
  d_username :: "string option"
  d_first_event :: time
  d_last_event :: time
  d_incident :: "string option"

record technique =
  t_id :: string
  t_tactic :: "string option"
  t_name :: string

record risk_breakdown =
  rb_severity_component :: rat
  rb_detection_count :: nat
  rb_detection_component :: rat
  rb_unique_techniques :: nat
  rb_technique_component :: rat
  rb_max_event_risk_score :: rat
  rb_event_component :: rat
  rb_session_event_count :: nat
  rb_session_component :: rat
  rb_malware_linked :: bool
  rb_malware_component :: rat
  rb_total :: rat

record incident =
  i_id :: string
  i_key :: string
  i_correlation_key :: string
  i_title :: string
  i_severity :: string
  i_status :: string
  i_confidence :: rat
  i_risk_score :: rat
  i_breakdown :: "risk_breakdown option"
  i_first_seen :: "time option"
  i_last_seen :: "time option"
  i_source_ips :: "string list"
  i_users :: "string list"
  i_sensors :: "string list"
  i_techniques :: "technique list"
  i_reasons :: "string list"
  i_assigned :: "string option"
  i_notes :: "string option"
  i_auto_created :: bool
  i_updated_at :: time

record incident_event =
  ie_incident :: string
  ie_event :: string
  ie_source :: string
  ie_reason :: string

record incident_ioc =
  ii_incident :: string
  ii_type :: string
  ii_value :: string

record activity =
  ac_incident :: string
  ac_actor :: string
  ac_action :: string
  ac_detail :: string
  ac_at :: time

record admin_activity =
  aa_admin :: string
  aa_action :: string
  aa_affected :: string
  aa_ip :: "string option"
  aa_details :: string

record evidence =
  evd_incident :: string
  evd_type :: string
  evd_sha256 :: "string option"
  evd_md5 :: json
  evd_source :: string
  evd_ref :: "string option"
  evd_acquired_at :: time
  evd_metadata :: jdict
  evd_content_hash :: "string option"
  evd_immutable :: bool
  evd_added_by :: "string option"

record attacker_session =
  as_session_id :: string
  as_ip :: string
  as_first_seen :: time
  as_last_seen :: time
  as_risk_level :: "string option"
  as_total_events :: nat

record soc_db =
  events :: "event list"
  iocs :: "ioc_observation list"
  detections :: "detection list"
  incidents :: "incident list"
  incident_events :: "incident_event list"
  incident_iocs :: "incident_ioc list"
  activities :: "activity list"
  admin_log :: "admin_activity list"
  evidence_rows :: "evidence list"
  sessions :: "attacker_session list"
  detection_cursor :: "time option"

definition empty_db :: soc_db where
  "empty_db = \<lparr>events = [], iocs = [], detections = [], incidents = [], incident_events = [],
     incident_iocs = [], activities = [], admin_log = [], evidence_rows = [], sessions = [],
     detection_cursor = None\<rparr>"

definition OPEN_STATUSES :: "string list" where
  "OPEN_STATUSES = [''NEW'', ''TRIAGING'', ''INVESTIGATING'', ''CONTAINED'']"

text \<open>\<open>INC-000042\<close>\<close>

definition next_incident_key :: "soc_db \<Rightarrow> string" where
  "next_incident_key db = ''INC-'' @ zero_pad 6 (str_of_nat (length (incidents db) + 1))"

definition event_risk :: "event \<Rightarrow> rat" where
  "event_risk e = risk_score_of (e_severity e)"

definition set_incident :: "incident \<Rightarrow> soc_db \<Rightarrow> soc_db" where
  "set_incident inc db =
     db\<lparr>incidents := map (\<lambda>i. if i_id i = i_id inc then inc else i) (incidents db)\<rparr>"

definition log_activity :: "string \<Rightarrow> string \<Rightarrow> string \<Rightarrow> string \<Rightarrow> time \<Rightarrow> soc_db \<Rightarrow> soc_db" where
  "log_activity inc actor action detail stamp db =
     db\<lparr>activities := activities db @ [\<lparr>ac_incident = inc, ac_actor = actor, ac_action = action,
        ac_detail = detail, ac_at = stamp\<rparr>]\<rparr>"

definition linked_events :: "string \<Rightarrow> soc_db \<Rightarrow> string list" where
  "linked_events inc db = map ie_event (filter (\<lambda>l. ie_incident l = inc) (incident_events db))"

definition linked_iocs :: "string \<Rightarrow> soc_db \<Rightarrow> string list" where
  "linked_iocs inc db = map ii_value (filter (\<lambda>l. ii_incident l = inc) (incident_iocs db))"

lemma next_incident_key_inj:
  "next_incident_key db = next_incident_key db' \<longleftrightarrow> length (incidents db) = length (incidents db')"
  by (simp add: next_incident_key_def zero_pad_inj)

lemma set_incident_keys [simp]:
  "map i_id (incidents (set_incident inc db)) = map i_id (incidents db)"
  by (auto simp: set_incident_def)

lemma event_risk_bounds: "10 \<le> event_risk e \<and> event_risk e \<le> 95"
  by (simp add: event_risk_def risk_score_bounds)

end
