(* ===== verification/Detection_Rules.thy ===== *)
theory Detection_Rules
  imports Soc_Db
begin

text \<open>
  Detection rules (\<open>backend/app/services/detection_rules.py\<close>): parsing a YAML document into a
  rule, matching an event against a condition, and the rule cache.

  A YAML document is a JSON value (its mapping keys are text). The arguments in \<open>rule_env\<close>
  stand for the regular-expression engine on patterns that come from rule files (\<open>None\<close> is
  \<open>re.error\<close>), \<open>float\<close> (\<open>None\<close> is its exceptions), \<open>json.loads\<close>, and \<open>str\<close> and
  \<open>timestamp\<close> of a date. A test
  is \<open>bool option\<close>: \<open>None\<close> is an exception that escapes.
\<close>

record rule_env =
  re_search :: "string \<Rightarrow> string \<Rightarrow> bool option" \<comment> \<open>pattern, text; case-insensitive\<close>
  to_float :: "json \<Rightarrow> rat option"
  json_loads :: "string \<Rightarrow> json option"
  show_time :: "time \<Rightarrow> string"
  epoch :: "time \<Rightarrow> int" \<comment> \<open>\<open>int(dt.timestamp())\<close> of a naive date, which depends on the zone\<close>

section \<open>Tests that may raise\<close>

text \<open>\<open>any(...)\<close> and \<open>all(...)\<close> stop at the first decisive element.\<close>

fun any_opt :: "('a \<Rightarrow> bool option) \<Rightarrow> 'a list \<Rightarrow> bool option" where
  "any_opt p [] = Some False"
| "any_opt p (x # xs) =
     (case p x of None \<Rightarrow> None | Some True \<Rightarrow> Some True | Some False \<Rightarrow> any_opt p xs)"

fun all_opt :: "('a \<Rightarrow> bool option) \<Rightarrow> 'a list \<Rightarrow> bool option" where
  "all_opt p [] = Some True"
| "all_opt p (x # xs) =
     (case p x of None \<Rightarrow> None | Some False \<Rightarrow> Some False | Some True \<Rightarrow> all_opt p xs)"

fun filter_opt :: "('a \<Rightarrow> bool option) \<Rightarrow> 'a list \<Rightarrow> 'a list option" where
  "filter_opt p [] = Some []"
| "filter_opt p (x # xs) =
     (case p x of None \<Rightarrow> None
      | Some b \<Rightarrow> map_option (\<lambda>ys. if b then x # ys else ys) (filter_opt p xs))"

fun traverse :: "('a \<Rightarrow> 'b option) \<Rightarrow> 'a list \<Rightarrow> 'b list option" where
  "traverse f [] = Some []"
| "traverse f (x # xs) =
     (case f x of None \<Rightarrow> None | Some y \<Rightarrow> map_option (Cons y) (traverse f xs))"

lemma filter_opt_Some: "filter_opt p xs = Some ys \<Longrightarrow> ys = filter (\<lambda>x. p x = Some True) xs"
  by (induction xs arbitrary: ys) (auto split: option.splits)

lemma filter_opt_total:
  "\<forall>x \<in> set xs. p x \<noteq> None \<Longrightarrow> filter_opt p xs = Some (filter (\<lambda>x. p x = Some True) xs)"
  by (induction xs) auto

lemma traverse_Some: "traverse f xs = Some ys \<longleftrightarrow> map f xs = map Some ys"
  by (induction xs arbitrary: ys) (auto split: option.splits simp: Cons_eq_map_conv)

lemma traverse_length: "traverse f xs = Some ys \<Longrightarrow> length ys = length xs"
  unfolding traverse_Some by (metis length_map)

lemma any_opt_Some: "any_opt p xs = Some b \<Longrightarrow> b \<longleftrightarrow> (\<exists>x \<in> set xs. p x = Some True)"
  by (induction xs) (auto split: option.splits bool.splits)

lemma all_opt_Some: "all_opt p xs = Some b \<Longrightarrow> b \<longleftrightarrow> (\<forall>x \<in> set xs. p x = Some True)"
  by (induction xs) (auto split: option.splits bool.splits)

section \<open>Conditions\<close>

record condition =
  c_field :: string
  c_op :: string
  c_value :: json

definition as_list :: "json \<Rightarrow> json list" where
  "as_list v = (case v of JList xs \<Rightarrow> xs | _ \<Rightarrow> [v])"

text \<open>\<open>for w in v\<close>: \<open>None\<close> is the \<open>TypeError\<close>.\<close>

definition iterate :: "json \<Rightarrow> json list option" where
  "iterate v = (case v of JList xs \<Rightarrow> Some xs | JStr s \<Rightarrow> Some (map (\<lambda>c. JStr [c]) s)
     | JObj d \<Rightarrow> Some (map (\<lambda>(k, _). JStr k) d) | _ \<Rightarrow> None)"

definition low :: "json \<Rightarrow> string" where
  "low v = lower (py_str v)"

definition compare :: "string \<Rightarrow> rat \<Rightarrow> rat \<Rightarrow> bool" where
  "compare op a b = (if op = ''gt'' then a > b else if op = ''lt'' then a < b
     else if op = ''gte'' then a \<ge> b else a \<le> b)"

definition matches :: "rule_env \<Rightarrow> condition \<Rightarrow> json \<Rightarrow> bool option" where
  "matches env c ev =
     (let op = c_op c; want = c_value c in
      if op = ''exists'' then Some ((ev \<noteq> JNull) = truthy want)
      else if ev = JNull then Some False
      else if op = ''eq'' then
        (case want of JList ws \<Rightarrow> Some (\<exists>w \<in> set ws. low w = low ev) | _ \<Rightarrow> Some (low ev = low want))
      else if op = ''in'' then
        (case (if truthy want then iterate want else Some []) of
           None \<Rightarrow> None | Some ws \<Rightarrow> Some (low ev \<in> low ` set ws))
      else if op = ''contains'' then Some (\<exists>w \<in> set (as_list want). contains_str (low w) (low ev))
      else if op = ''startswith'' then Some (\<exists>w \<in> set (as_list want). starts_with (low w) (low ev))
      else if op = ''regex'' then any_opt (\<lambda>w. re_search env (py_str w) (py_str ev)) (as_list want)
      else if op \<in> {''gt'', ''lt'', ''gte'', ''lte''} then
        (case (to_float env ev, to_float env want) of
           (Some a, Some b) \<Rightarrow> Some (compare op a b) | _ \<Rightarrow> Some False)
      else Some False)"

section \<open>Rules\<close>

record step =
  st_conditions :: "condition list"
  st_min_count :: int

record rule =
  r_id :: string
  r_name :: string
  r_severity :: string
  r_confidence :: rat
  r_technique :: "string option"
  r_tactic :: "string option"
  r_sequence :: bool \<comment> \<open>\<open>rule_type\<close> is sequence, otherwise threshold\<close>
  r_group_by :: string
  r_timeframe :: time
  r_threshold :: int
  r_conditions :: "condition list"
  r_steps :: "step list"
  r_description :: string
  r_source :: string
  r_selection :: json

definition opt_str :: "string option \<Rightarrow> json" where
  "opt_str v = (case v of None \<Rightarrow> JNull | Some s \<Rightarrow> JStr s)"

definition opt_int :: "int option \<Rightarrow> json" where
  "opt_int v = (case v of None \<Rightarrow> JNull | Some n \<Rightarrow> JInt n)"

text \<open>\<open>getattr\<close> on the columns of \<open>_EVENT_COLUMNS\<close>.\<close>

definition event_columns :: "rule_env \<Rightarrow> event \<Rightarrow> (string \<times> json) list" where
  "event_columns env e =
     [(''event_id'', JStr (e_id e)), (''timestamp'', JStr (show_time env (e_timestamp e))),
      (''sensor'', JStr (e_sensor e)), (''sensor_event_type'', opt_str (e_type e)),
      (''source_ip'', JStr (e_source_ip e)), (''source_port'', opt_int (e_source_port e)),
      (''destination_ip'', opt_str (e_destination_ip e)),
      (''destination_port'', opt_int (e_destination_port e)), (''protocol'', opt_str (e_protocol e)),
      (''severity'', opt_str (e_severity e)), (''username'', opt_str (e_username e)),
      (''password'', opt_str (e_password e)), (''authentication_result'', opt_str (e_auth_result e)),
      (''command'', opt_str (e_command e)), (''payload'', opt_str (e_payload e)),
      (''session_id'', opt_str (e_session_id e)), (''raw_event'', opt_str (e_raw e))]"

definition event_field :: "rule_env \<Rightarrow> event \<Rightarrow> string \<Rightarrow> json" where
  "event_field env e name =
     (case map_of (event_columns env e) name of
        Some v \<Rightarrow> v
      | None \<Rightarrow>
          (case (case e_metadata e of
                   JStr s \<Rightarrow> (case json_loads env s of None \<Rightarrow> JObj [] | Some v \<Rightarrow> v)
                 | v \<Rightarrow> v) of
             JObj d \<Rightarrow> dict_get name d | _ \<Rightarrow> JNull))"

definition event_matches :: "rule_env \<Rightarrow> event \<Rightarrow> condition list \<Rightarrow> bool option" where
  "event_matches env e cs = all_opt (\<lambda>c. matches env c (event_field env e (c_field c))) cs"

definition group_key :: "rule_env \<Rightarrow> rule \<Rightarrow> event \<Rightarrow> string option" where
  "group_key env r e =
     (case event_field env e (r_group_by r) of JNull \<Rightarrow> None | v \<Rightarrow> Some (py_str v))"

section \<open>Time frames\<close>

definition unit_seconds :: "string \<Rightarrow> int option" where
  "unit_seconds u = map_of [(''s'', 1), (''m'', 60), (''h'', 3600), (''d'', 86400)] u"

text \<open>All four \<open>timedelta\<close>s are built before one is picked, so a number above 999,999,999 raises
  (\<open>None\<close>) whatever its unit.\<close>

definition parse_timeframe :: "json \<Rightarrow> time option" where
  "parse_timeframe v =
     (let text = lower (strip (py_str (py_or v (JStr ''10m''))));
          digits = takeWhile is_digit text;
          unit = dropWhile is_space (dropWhile is_digit text)
      in if digits = [] then Some (minutes 10)
         else (case unit_seconds unit of
                 None \<Rightarrow> Some (minutes 10)
               | Some k \<Rightarrow>
                   (let n = int (nat_of_digits 0 digits) in
                    if 999999999 < n then None else Some (seconds (n * k)))))"

definition human_timedelta :: "time \<Rightarrow> string" where
  "human_timedelta td =
     (let secs = td div 1000000 in
      if secs mod 86400 = 0 \<and> 86400 \<le> secs then str_of_int (secs div 86400) @ ''d''
      else if secs mod 3600 = 0 \<and> 3600 \<le> secs then str_of_int (secs div 3600) @ ''h''
      else if secs mod 60 = 0 \<and> 60 \<le> secs then str_of_int (secs div 60) @ ''m''
      else str_of_int secs @ ''s'')"

definition reason_for :: "rule \<Rightarrow> string \<Rightarrow> nat \<Rightarrow> string" where
  "reason_for r grp n =
     (let window = human_timedelta (r_timeframe r) in
      if r_sequence r then
        ''rule '' @ r_id r @ '' ('' @ r_name r @ ''): matched the ordered step sequence for ''
        @ r_group_by r @ ''='' @ grp @ '' within '' @ window
      else
        ''rule '' @ r_id r @ '' ('' @ r_name r @ ''): '' @ str_of_nat n @ '' events matched ''
        @ py_repr (r_selection r) @ '' for '' @ r_group_by r @ ''='' @ grp @ '' within '' @ window
        @ '' (threshold '' @ str_of_int (r_threshold r) @ '')'')"

section \<open>Parsing a rule\<close>

definition get_default :: "string \<Rightarrow> json \<Rightarrow> jdict \<Rightarrow> json" where
  "get_default k v d = (case map_of d k of None \<Rightarrow> v | Some x \<Rightarrow> x)"

text \<open>\<open>None\<close> is an exception.\<close>

definition parse_selection :: "json \<Rightarrow> condition list option" where
  "parse_selection selection =
     (if \<not> truthy selection then Some []
      else (case selection of
              JObj items \<Rightarrow> Some (map (\<lambda>(key, value).
                 case partition_on (CHR ''|'') key of
                   (fld, Some op) \<Rightarrow> \<lparr>c_field = strip fld, c_op = strip op, c_value = value\<rparr>
                 | (fld, None) \<Rightarrow> \<lparr>c_field = strip fld, c_op = ''eq'', c_value = value\<rparr>) items)
            | _ \<Rightarrow> None))"

definition parse_step :: "json \<Rightarrow> step option" where
  "parse_step s =
     (case s of
        JObj d \<Rightarrow>
          (case (parse_selection (get_default ''selection'' (JObj []) d),
                 py_int (get_default ''min_count'' (JInt 1) d)) of
             (Some cs, Some n) \<Rightarrow> Some \<lparr>st_conditions = cs, st_min_count = n\<rparr> | _ \<Rightarrow> None)
      | _ \<Rightarrow> None)"

definition opt_text :: "json \<Rightarrow> string option" where
  "opt_text v = (if truthy v then Some (py_str v) else None)"

definition rule_severity :: "jdict \<Rightarrow> string" where
  "rule_severity doc =
     (let sev = upper (py_str (get_default ''severity'' (JStr ''MEDIUM'') doc))
      in if sev \<in> fst ` set SEV_ORDER then sev else ''MEDIUM'')"

definition rule_confidence :: "rule_env \<Rightarrow> string \<Rightarrow> jdict \<Rightarrow> rat option" where
  "rule_confidence env sev doc =
     (case map_of doc ''confidence'' of
        None \<Rightarrow> map_of SEV_CONFIDENCE sev | Some v \<Rightarrow> to_float env v)"

definition is_sequence :: "jdict \<Rightarrow> bool" where
  "is_sequence doc \<longleftrightarrow> low (get_default ''type'' (JStr ''threshold'') doc) = ''sequence''"

definition as_dict :: "json \<Rightarrow> jdict option" where
  "as_dict v = (case v of JObj d \<Rightarrow> Some d | _ \<Rightarrow> None)"

definition parse_rule :: "rule_env \<Rightarrow> jdict \<Rightarrow> rule option" where
  "parse_rule env doc =
     (let sev = rule_severity doc;
          sequence = is_sequence doc;
          selection = get_default ''selection'' (JObj []) doc;
          steps_doc = get_default ''steps'' (JList []) doc
      in Option.bind (as_dict (py_or (dict_get ''attack'' doc) (JObj []))) (\<lambda>attack.
         Option.bind (if sequence then Option.bind (iterate steps_doc) (traverse parse_step) else Some [])
           (\<lambda>stps.
         Option.bind (if sequence then Some [] else parse_selection selection) (\<lambda>conditions.
         Option.bind (map_of doc ''id'') (\<lambda>i.
         Option.bind (rule_confidence env sev doc) (\<lambda>confidence.
         Option.bind (parse_timeframe (get_default ''timeframe'' (JStr ''10m'') doc)) (\<lambda>timeframe.
         Option.bind (py_int (get_default ''threshold'' (JInt 1) doc)) (\<lambda>threshold.
             Some \<lparr>r_id = py_str i,
                   r_name = py_str (get_default ''name'' i doc),
                   r_severity = sev,
                   r_confidence = confidence,
                   r_technique = opt_text (dict_get ''technique'' attack),
                   r_tactic = opt_text (dict_get ''tactic'' attack),
                   r_sequence = sequence,
                   r_group_by = py_str (get_default ''group_by'' (JStr ''source_ip'') doc),
                   r_timeframe = timeframe,
                   r_threshold = threshold,
                   r_conditions = conditions,
                   r_steps = stps,
                   r_description = py_str (get_default ''description'' (JStr []) doc),
                   r_source = py_str (get_default ''source'' (JStr []) doc),
                   r_selection = (if sequence then JObj [(''steps'', steps_doc)] else selection)\<rparr>))))))))"

section \<open>The rule cache\<close>

record rule_file =
  rf_name :: string
  rf_mtime :: time
  rf_doc :: "json option" \<comment> \<open>\<open>None\<close> when reading or YAML parsing raises\<close>

record rule_cache =
  cache_mtime :: "time option"
  cache_rules :: "rule list"

definition empty_cache :: rule_cache where
  "empty_cache = \<lparr>cache_mtime = None, cache_rules = []\<rparr>"

definition is_rule_file :: "rule_file \<Rightarrow> bool" where
  "is_rule_file f \<longleftrightarrow> ends_with ''.yml'' (rf_name f) \<or> ends_with ''.yaml'' (rf_name f)"

definition compile_file :: "rule_env \<Rightarrow> rule_file \<Rightarrow> rule list" where
  "compile_file env f =
     (case rf_doc f of
        Some (JObj doc) \<Rightarrow>
          if truthy (dict_get ''id'' doc)
          then (case parse_rule env doc of None \<Rightarrow> [] | Some r \<Rightarrow> [r]) else []
      | _ \<Rightarrow> [])"

definition compile_rules :: "rule_env \<Rightarrow> rule_file list \<Rightarrow> rule list" where
  "compile_rules env fs =
     concat (map (compile_file env) (sort_key rf_name (filter is_rule_file fs)))"

text \<open>The directory is \<open>None\<close> when it does not exist.\<close>

definition load_rules ::
  "rule_env \<Rightarrow> rule_file list option \<Rightarrow> bool \<Rightarrow> rule_cache \<Rightarrow> rule list \<times> rule_cache" where
  "load_rules env dir force cache =
     (case dir of
        None \<Rightarrow> ([], cache)
      | Some fs \<Rightarrow>
         (let stamp = max_or 0 (map rf_mtime (filter is_rule_file fs)) in
          if \<not> force \<and> cache_mtime cache = Some stamp \<and> cache_rules cache \<noteq> []
          then (cache_rules cache, cache)
          else (let rs = compile_rules env fs in (rs, \<lparr>cache_mtime = Some stamp, cache_rules = rs\<rparr>))))"

section \<open>Facts\<close>

lemma rule_severity_valid: "rule_severity doc \<in> {''LOW'', ''MEDIUM'', ''HIGH'', ''CRITICAL''}"
  by (auto simp: rule_severity_def Let_def SEV_ORDER_def)

definition rule_ok :: "rule \<Rightarrow> bool" where
  "rule_ok r \<longleftrightarrow> r_severity r \<in> {''LOW'', ''MEDIUM'', ''HIGH'', ''CRITICAL''}
     \<and> 0 \<le> r_timeframe r \<and> (if r_sequence r then r_conditions r = [] else r_steps r = [])"

lemma parse_timeframe_nonneg: "parse_timeframe v = Some t \<Longrightarrow> 0 \<le> t"
  by (auto simp: parse_timeframe_def unit_seconds_def time_defs Let_def split: if_splits option.splits)

lemma parse_rule_fields:
  assumes "parse_rule env doc = Some r"
  shows "r_severity r = rule_severity doc \<and> r_sequence r = is_sequence doc
    \<and> parse_timeframe (get_default ''timeframe'' (JStr ''10m'') doc) = Some (r_timeframe r)
    \<and> (is_sequence doc \<longrightarrow> r_conditions r = []) \<and> (\<not> is_sequence doc \<longrightarrow> r_steps r = [])"
  using assms unfolding parse_rule_def Let_def Option.bind_eq_Some_conv
  by (elim exE conjE) (drule option.inject[THEN iffD1], erule subst, simp split: if_split_asm)

lemma parse_rule_ok: "parse_rule env doc = Some r \<Longrightarrow> rule_ok r"
  using parse_rule_fields[of env doc r] rule_severity_valid[of doc] parse_timeframe_nonneg
  unfolding rule_ok_def by metis

lemma compile_file_ok: "r \<in> set (compile_file env f) \<Longrightarrow> rule_ok r"
proof (cases "rf_doc f")
  case (Some v)
  assume r: "r \<in> set (compile_file env f)"
  show ?thesis
  proof (cases v)
    case (JObj doc)
    with Some r have "parse_rule env doc = Some r"
      unfolding compile_file_def
      by (cases "truthy (dict_get ''id'' doc)"; cases "parse_rule env doc";
          simp only: option.case json.case if_True if_False list.set; simp)
    then show ?thesis by (rule parse_rule_ok)
  qed (use Some r in \<open>simp_all add: compile_file_def\<close>)
qed (simp add: compile_file_def)

lemma compile_rules_ok: "r \<in> set (compile_rules env fs) \<Longrightarrow> rule_ok r"
  unfolding compile_rules_def using compile_file_ok by fastforce

definition cache_ok :: "rule_cache \<Rightarrow> bool" where
  "cache_ok c \<longleftrightarrow> list_all rule_ok (cache_rules c)"

lemma load_rules_ok:
  "cache_ok c \<Longrightarrow> cache_ok (snd (load_rules env dir force c)) \<and> list_all rule_ok (fst (load_rules env dir force c))"
  using compile_rules_ok by (auto simp: load_rules_def cache_ok_def Let_def list_all_iff split: option.splits)

interpretation rule_loader: event_machine "\<lambda>c (env, dir, force). snd (load_rules env dir force c)" cache_ok
  by unfold_locales (auto simp: load_rules_ok)

text \<open>However the rule directory changes over time, and whatever it holds (missing directory,
  unreadable, malformed or half-valid files), every rule the loader ever hands to the engine has
  one of the four severities, a non-negative time frame and the fields of its type only.\<close>

theorem loaded_rules_are_valid:
  "list_all rule_ok (fst (load_rules env dir force
     (foldl (\<lambda>c (env, dir, force). snd (load_rules env dir force c)) empty_cache loads)))"
proof -
  have "cache_ok (foldl (\<lambda>c (env, dir, force). snd (load_rules env dir force c)) empty_cache loads)"
    by (rule rule_loader.run_inv) (simp add: cache_ok_def empty_cache_def)
  then show ?thesis using load_rules_ok by blast
qed

text \<open>The cache is keyed by the newest modification time only: a directory whose newest stamp did
  not move is not read again, whatever else changed in it.\<close>

lemma stale_cache:
  assumes "cache_rules c \<noteq> []" and "cache_mtime c = Some (max_or 0 (map rf_mtime (filter is_rule_file fs)))"
  shows "load_rules env (Some fs) False c = (cache_rules c, c)"
  using assms by (simp add: load_rules_def Let_def)

section \<open>Reading back a time frame\<close>

lemma str_of_int_nonneg: "0 \<le> i \<Longrightarrow> str_of_int i = str_of_nat (nat i)"
  by (simp add: str_of_int_def)

lemma digit_not_space: "is_digit c \<Longrightarrow> \<not> is_space c"
  by (auto simp: is_digit_def is_space_def Let_def)

lemma digit_lower: "is_digit c \<Longrightarrow> lower_char c = c"
  by (auto simp: is_digit_def lower_char_def Let_def)

lemma parse_number_unit:
  assumes "unit_seconds [u] = Some k" and "n \<le> 999999999"
  shows "parse_timeframe (JStr (str_of_nat n @ [u])) = Some (seconds (int n * k))"
proof -
  let ?t = "str_of_nat n @ [u]"
  have u: "\<not> is_digit u" "\<not> is_space u" "lower_char u = u"
    using assms(1) by (auto simp: unit_seconds_def is_digit_def is_space_def lower_char_def Let_def
        split: if_splits)
  have d: "\<forall>c \<in> set (str_of_nat n). is_digit c" using str_of_nat_digits by blast
  have "strip ?t = ?t"
    using d u(2) digit_not_space
    by (cases "str_of_nat n") (auto simp: strip_def)
  moreover have "map lower_char (str_of_nat n) = str_of_nat n"
    using d digit_lower by (intro map_idI) blast
  ultimately have t: "lower (strip ?t) = ?t" by (simp add: lower_def u(3))
  have tk: "takeWhile is_digit ?t = str_of_nat n" "dropWhile is_digit ?t = [u]"
    using d u(1) by (simp_all add: takeWhile_append dropWhile_append)
  have "parse_timeframe (JStr ?t) = (let n' = int (nat_of_digits 0 (str_of_nat n)) in
      if 999999999 < n' then None else Some (seconds (n' * k)))"
    unfolding parse_timeframe_def Let_def using t tk u(2) assms(1) by simp
  then show ?thesis using assms(2) by simp
qed

text \<open>The window an analyst reads in a detection's reason is the window of the rule: for any
  whole number of seconds a rule can carry, parsing the printed window gives it back.\<close>

theorem timeframe_roundtrip:
  assumes "0 \<le> n" and "n \<le> 999999999"
  shows "parse_timeframe (JStr (human_timedelta (seconds n))) = Some (seconds n)"
proof -
  have parts: "parse_timeframe (JStr (str_of_int (n div k) @ [u])) = Some (seconds n)"
    if "unit_seconds [u] = Some k" and "n mod k = 0" and "0 < k" for u k
  proof -
    have "n div k \<le> n div 1" using assms(1) that(3) by (intro zdiv_mono2) simp_all
    then have "n div k \<le> n" by simp
    then have "nat (n div k) \<le> 999999999" using assms(2) by simp
    moreover have "0 \<le> n div k" using assms(1) that(3) by (simp add: pos_imp_zdiv_nonneg_iff)
    moreover have "n div k * k = n" using that(2) by (metis add.right_neutral div_mult_mod_eq)
    ultimately show ?thesis
      using parse_number_unit[OF that(1), of "nat (n div k)"] by (simp add: str_of_int_nonneg)
  qed
  have "seconds n div 1000000 = n" by (simp add: seconds_def)
  then show ?thesis
    using parts[of "CHR ''d''" 86400] parts[of "CHR ''h''" 3600] parts[of "CHR ''m''" 60]
      parts[of "CHR ''s''" 1]
    by (simp add: human_timedelta_def Let_def unit_seconds_def)
qed

theorem timeframe_roundtrip_witness:
  "parse_timeframe (JStr (human_timedelta (seconds 600))) = Some (seconds 600)"
  by (rule timeframe_roundtrip) simp_all

end
