(* ===== verification/Detection_Engine.thy ===== *)
theory Detection_Engine
  imports Detection_Rules "HOL-Library.Sublist"
begin

text \<open>
  The pure part of the detection engine (\<open>backend/app/services/detection_engine.py\<close>):
  indicator extraction and its table, the evaluation of threshold and sequence rules over a
  window of events, and the severity and risk of an incident. The regular expressions for
  URLs, domains and hashes are fixed, so they are written out as scanners; rule evaluation is
  an option whose \<open>None\<close> is an exception of a rule's own pattern.
\<close>

section \<open>Indicators\<close>

type_synonym ioc = "string \<times> string" \<comment> \<open>type, value\<close>

text \<open>\<open>_URL_RE\<close>\<close>

definition url_char :: "char \<Rightarrow> bool" where
  "url_char c \<longleftrightarrow> \<not> is_space c \<and> c \<notin> {CHR 0x27, CHR 0x22, CHR ''<'', CHR ''>'', CHR ''|'', CHR '')''}"

definition scheme_length :: "string \<Rightarrow> nat option" where
  "scheme_length s =
     (if starts_with ''https://'' (lower s) then Some 8
      else if starts_with ''http://'' (lower s) then Some 7 else None)"

definition url_at :: "string \<Rightarrow> string option" where
  "url_at s =
     (case scheme_length s of
        None \<Rightarrow> None
      | Some n \<Rightarrow> (let body = takeWhile url_char (drop n s)
                   in if body = [] then None else Some (take n s @ body)))"

fun url_scan :: "string \<Rightarrow> string list" where
  "url_scan [] = []"
| "url_scan (c # cs) =
     (case url_at (c # cs) of
        Some m \<Rightarrow> m # url_scan (drop (length m - 1) cs)
      | None \<Rightarrow> url_scan cs)"

definition rstrip_of :: "char list \<Rightarrow> string \<Rightarrow> string" where
  "rstrip_of cs s = rev (dropWhile (\<lambda>c. c \<in> set cs) (rev s))"

definition url_trailers :: "char list" where
  "url_trailers = ''.,;:)]}'' @ [CHR 0x27, CHR 0x22]"

definition url_host :: "string \<Rightarrow> string" where
  "url_host m =
     takeWhile (\<lambda>c. c \<noteq> CHR '':'') (takeWhile (\<lambda>c. c \<noteq> CHR ''/'')
       (case scheme_length m of None \<Rightarrow> m | Some n \<Rightarrow> drop n m))"

text \<open>\<open>_DOMAIN_RE.fullmatch\<close>: labels separated by dots, the last one of letters only.\<close>

definition is_ascii_letter :: "char \<Rightarrow> bool" where
  "is_ascii_letter c = (let n = of_char c :: nat in (65 \<le> n \<and> n \<le> 90) \<or> (97 \<le> n \<and> n \<le> 122))"

definition label_char :: "char \<Rightarrow> bool" where
  "label_char c \<longleftrightarrow> is_ascii_letter c \<or> is_digit c"

definition domain_label :: "string \<Rightarrow> bool" where
  "domain_label l \<longleftrightarrow> l \<noteq> [] \<and> length l \<le> 63 \<and> label_char (hd l) \<and> label_char (last l)
     \<and> (\<forall>c \<in> set l. label_char c \<or> c = CHR ''-'')"

definition is_domain :: "string \<Rightarrow> bool" where
  "is_domain s = (let ls = split_on (CHR ''.'') s in
     2 \<le> length ls \<and> (\<forall>l \<in> set (butlast ls). domain_label l)
     \<and> 2 \<le> length (last ls) \<and> (\<forall>c \<in> set (last ls). is_ascii_letter c))"

text \<open>\<open>_SHA256_RE\<close>, \<open>_SHA1_RE\<close>, \<open>_MD5_RE\<close>: whole words of \<open>n\<close> hexadecimal digits.\<close>

definition is_hex :: "char \<Rightarrow> bool" where
  "is_hex c = (let n = of_char c :: nat in
     (48 \<le> n \<and> n \<le> 57) \<or> (65 \<le> n \<and> n \<le> 70) \<or> (97 \<le> n \<and> n \<le> 102))"

function word_runs :: "string \<Rightarrow> string list" where
  "word_runs [] = []"
| "word_runs (c # cs) =
     (if is_word c then (c # takeWhile is_word cs) # word_runs (dropWhile is_word cs)
      else word_runs cs)"
  by pat_completeness auto
termination
  by (relation "measure length") (auto simp: le_imp_less_Suc length_dropWhile_le)

definition hex_words :: "nat \<Rightarrow> string \<Rightarrow> string list" where
  "hex_words n s = filter (\<lambda>w. length w = n \<and> (\<forall>c \<in> set w. is_hex c)) (word_runs s)"

definition join_present :: "string option list \<Rightarrow> string" where
  "join_present parts = join_str '' '' (concat (map (\<lambda>p. case p of None \<Rightarrow> [] | Some s \<Rightarrow> if s = [] then [] else [s]) parts))"

definition url_iocs :: "string \<Rightarrow> ioc list" where
  "url_iocs blob =
     concat (map (\<lambda>m0. let m = rstrip_of url_trailers m0; host = url_host m in
        if m = [] then []
        else (''url'', take 480 m) # (if is_domain host then [(''domain'', lower host)] else []))
       (url_scan blob))"

definition extract_iocs :: "event \<Rightarrow> ioc list" where
  "extract_iocs e =
     (let src = (if e_source_ip e \<noteq> [] \<and> e_source_ip e \<notin> {''0.0.0.0'', ''127.0.0.1'', ''::1''}
                 then [(''ip'', e_source_ip e)] else []);
          dst = (case e_destination_ip e of None \<Rightarrow> []
                 | Some d \<Rightarrow> if d \<noteq> [] \<and> d \<notin> {''0.0.0.0'', ''127.0.0.1''} then [(''ip'', d)] else []);
          user = (case e_username e of None \<Rightarrow> []
                  | Some u \<Rightarrow> if u \<noteq> [] then [(''username'', take 120 u)] else []);
          url_blob = take 8000 (join_present [e_command e, e_payload e, e_raw e]);
          hash_blob = take 8000 (join_present [e_command e, e_payload e]);
          hashes = concat (map (\<lambda>(n, kind). map (\<lambda>h. (kind, lower h)) (hex_words n hash_blob))
                     [(64, ''sha256''), (40, ''sha1''), (32, ''md5'')])
      in dedup_on (\<lambda>p. p) (src @ dst @ user @ url_iocs url_blob @ hashes))"

section \<open>The indicator table\<close>

record ioc_slot =
  sl_event_ids :: "string list"
  sl_sensors :: "string list"
  sl_ts :: time

type_synonym ioc_batch = "(string \<times> ioc list) list \<times> (ioc \<times> ioc_slot) list"

definition note_pair :: "event \<Rightarrow> ioc \<Rightarrow> ioc_batch \<Rightarrow> ioc_batch" where
  "note_pair e pair = (\<lambda>(by_ip, pending).
     let ps = (case map_of by_ip (e_source_ip e) of None \<Rightarrow> [] | Some ps \<Rightarrow> ps);
         slot = (case map_of pending pair of
                   None \<Rightarrow> \<lparr>sl_event_ids = [], sl_sensors = [], sl_ts = e_timestamp e\<rparr> | Some s \<Rightarrow> s)
     in (if pair \<in> set ps then by_ip else AList.update (e_source_ip e) (ps @ [pair]) by_ip,
         AList.update pair
           \<lparr>sl_event_ids = sl_event_ids slot @ [e_id e],
            sl_sensors = (if e_sensor e = [] then sl_sensors slot else sl_sensors slot @ [e_sensor e]),
            sl_ts = max (sl_ts slot) (e_timestamp e)\<rparr> pending))"

definition note_event :: "event \<Rightarrow> ioc_batch \<Rightarrow> ioc_batch" where
  "note_event e = (\<lambda>(by_ip, pending).
     fold (note_pair e) (extract_iocs e)
       (case map_of by_ip (e_source_ip e) of None \<Rightarrow> by_ip @ [(e_source_ip e, [])] | Some _ \<Rightarrow> by_ip,
        pending))"

fun update_first :: "('a \<Rightarrow> bool) \<Rightarrow> ('a \<Rightarrow> 'a) \<Rightarrow> 'a list \<Rightarrow> 'a list" where
  "update_first p f [] = []"
| "update_first p f (x # xs) = (if p x then f x # xs else x # update_first p f xs)"

definition append_ids :: "string list \<Rightarrow> string list \<Rightarrow> string list" where
  "append_ids old new = take_last 200 (dedup_on (\<lambda>i. i) (old @ new))"

definition store_slot :: "ioc \<times> ioc_slot \<Rightarrow> ioc_observation list \<Rightarrow> ioc_observation list" where
  "store_slot = (\<lambda>((kind, value), slot) rows.
     let mine = (\<lambda>r. io_type r = kind \<and> io_value r = value); n = length (sl_event_ids slot) in
     if \<exists>r \<in> set rows. mine r then
       update_first mine (\<lambda>r. r\<lparr>io_last_seen := max (io_last_seen r) (sl_ts slot),
          io_hit_count := io_hit_count r + n,
          io_event_ids := append_ids (io_event_ids r) (sl_event_ids slot)\<rparr>) rows
     else rows @ [\<lparr>io_type = kind, io_value = value, io_first_seen = sl_ts slot,
          io_last_seen = sl_ts slot, io_hit_count = n, io_source = ''honeypot'',
          io_event_ids = take 200 (sl_event_ids slot), io_sensors = sorted_set (sl_sensors slot)\<rparr>])"

definition upsert_iocs :: "event list \<Rightarrow> soc_db \<Rightarrow> (string \<times> ioc list) list \<times> soc_db" where
  "upsert_iocs es db =
     (let (by_ip, pending) = fold note_event es ([], [])
      in (by_ip, db\<lparr>iocs := fold store_slot pending (iocs db)\<rparr>))"

section \<open>Rule evaluation\<close>

record candidate =
  cd_rule :: rule
  cd_group :: string
  cd_matched :: "event list"
  cd_key :: string
  cd_first :: time
  cd_last :: time
  cd_username :: "string option"
  cd_reason :: string

definition bucket :: "rule_env \<Rightarrow> time \<Rightarrow> time \<Rightarrow> int" where
  "bucket env ts timeframe = epoch env ts div max (timeframe div 1000000) 60"

text \<open>The greedy scan of one step: take events until \<open>n\<close> of them match.\<close>

fun collect :: "('a \<Rightarrow> bool option) \<Rightarrow> nat \<Rightarrow> 'a list \<Rightarrow> ('a list \<times> 'a list) option" where
  "collect p 0 es = Some ([], es)"
| "collect p (Suc n) [] = Some ([], [])"
| "collect p (Suc n) (e # es) =
     (case p e of
        None \<Rightarrow> None
      | Some True \<Rightarrow> map_option (\<lambda>(hits, rest). (e # hits, rest)) (collect p n es)
      | Some False \<Rightarrow> collect p (Suc n) es)"

fun match_steps :: "('s \<Rightarrow> 'a \<Rightarrow> bool option) \<Rightarrow> ('s \<Rightarrow> nat) \<Rightarrow> 's list \<Rightarrow> 'a list \<Rightarrow> 'a list option option" where
  "match_steps p n [] es = Some (Some [])"
| "match_steps p n (s # ss) es =
     (case collect (p s) (n s) es of
        None \<Rightarrow> None
      | Some (hits, rest) \<Rightarrow>
          if length hits < n s then Some None
          else map_option (map_option (\<lambda>used. hits @ used)) (match_steps p n ss rest))"

definition match_sequence :: "rule_env \<Rightarrow> rule \<Rightarrow> event list \<Rightarrow> event list option" where
  "match_sequence env r es =
     map_option (\<lambda>used. case used of None \<Rightarrow> [] | Some us \<Rightarrow> us)
       (match_steps (\<lambda>s e. event_matches env e (st_conditions s)) (\<lambda>s. nat (st_min_count s))
          (r_steps r) (sort_key e_timestamp es))"

definition first_username :: "event list \<Rightarrow> string option" where
  "first_username es =
     (case filter (\<lambda>e. case e_username e of None \<Rightarrow> False | Some u \<Rightarrow> u \<noteq> []) es of
        [] \<Rightarrow> None | e # _ \<Rightarrow> e_username e)"

definition dedupe_key :: "rule_env \<Rightarrow> rule \<Rightarrow> string \<Rightarrow> time \<Rightarrow> string" where
  "dedupe_key env r g ts = r_id r @ '':'' @ g @ '':'' @ str_of_int (bucket env ts (r_timeframe r))"

definition make_candidate :: "rule_env \<Rightarrow> rule \<Rightarrow> string \<Rightarrow> event list \<Rightarrow> candidate" where
  "make_candidate env r g matched =
     (let ms = sort_key e_timestamp matched in
      \<lparr>cd_rule = r, cd_group = g, cd_matched = ms,
       cd_key = dedupe_key env r g (e_timestamp (last ms)),
       cd_first = e_timestamp (hd ms), cd_last = e_timestamp (last ms),
       cd_username = first_username ms, cd_reason = reason_for r g (length ms)\<rparr>)"

definition ingested :: "time \<Rightarrow> event \<Rightarrow> time" where
  "ingested now e = (case e_ingested_at e of None \<Rightarrow> now | Some t \<Rightarrow> t)"

definition evaluate_group ::
  "rule_env \<Rightarrow> time \<Rightarrow> rule \<Rightarrow> time \<Rightarrow> string \<times> event list \<Rightarrow> candidate list option" where
  "evaluate_group env now r since = (\<lambda>(g, evs).
     let recent = filter (\<lambda>e. now - r_timeframe r \<le> e_timestamp e) (sort_key e_timestamp evs) in
     if recent = [] \<or> \<not> (\<exists>e \<in> set recent. since < ingested now e) then Some []
     else map_option (\<lambda>matched. if matched = [] then [] else [make_candidate env r g matched])
       (if r_sequence r then match_sequence env r recent
        else map_option (\<lambda>hits. if r_threshold r \<le> int (length hits) then hits else [])
               (filter_opt (\<lambda>e. event_matches env e (r_conditions r)) recent)))"

definition evaluate_rule ::
  "rule_env \<Rightarrow> time \<Rightarrow> rule \<Rightarrow> event list \<Rightarrow> time \<Rightarrow> candidate list option" where
  "evaluate_rule env now r window since =
     map_option concat (traverse (evaluate_group env now r since) (group_on (group_key env r) window))"

section \<open>Severity and risk of an incident\<close>

text \<open>\<open>None\<close> is the \<open>KeyError\<close> when no detection has a known severity.\<close>

definition incident_severity :: "string list \<Rightarrow> rat \<Rightarrow> string option" where
  "incident_severity sevs max_event_risk =
     (let ranks = map severity_rank sevs
            @ (if 80 \<le> max_event_risk then [4] else if 55 \<le> max_event_risk then [3] else [])
      in map_of [(1, ''LOW''), (2, ''MEDIUM''), (3, ''HIGH''), (4, ''CRITICAL'')] (max_or 1 ranks))"

definition risk_components ::
  "string list \<Rightarrow> string list \<Rightarrow> rat \<Rightarrow> nat \<Rightarrow> bool \<Rightarrow> rat \<times> rat \<times> rat \<times> rat \<times> rat \<times> rat" where
  "risk_components sevs techniques max_event_risk session_events malware_linked =
     (of_nat (max_or 1 (map severity_rank sevs)) * 18,
      of_nat (min (length sevs * 6) 24),
      of_nat (min (card (set techniques) * 5) 20),
      min (max_event_risk * (15 / 100)) 15,
      min (of_nat session_events * (2 / 10)) 10,
      if malware_linked then 20 else 0)"

definition risk_score ::
  "string list \<Rightarrow> string list \<Rightarrow> rat \<Rightarrow> nat \<Rightarrow> bool \<Rightarrow> rat" where
  "risk_score sevs techniques max_event_risk session_events malware_linked =
     (case risk_components sevs techniques max_event_risk session_events malware_linked of
        (s, d, t, e, n, m) \<Rightarrow> min 100 (s + d + t + e + n + m))"

definition incident_risk ::
  "string list \<Rightarrow> string list \<Rightarrow> rat \<Rightarrow> nat \<Rightarrow> bool \<Rightarrow> rat \<times> risk_breakdown" where
  "incident_risk sevs techniques max_event_risk session_events malware_linked =
     (case risk_components sevs techniques max_event_risk session_events malware_linked of
        (s, d, t, e, n, m) \<Rightarrow>
          (let score = risk_score sevs techniques max_event_risk session_events malware_linked in
           (py_round 1 score,
            \<lparr>rb_severity_component = py_round 1 s,
             rb_detection_count = length sevs,
             rb_detection_component = d,
             rb_unique_techniques = card (set techniques),
             rb_technique_component = t,
             rb_max_event_risk_score = py_round 1 max_event_risk,
             rb_event_component = py_round 1 e,
             rb_session_event_count = session_events,
             rb_session_component = py_round 1 n,
             rb_malware_linked = malware_linked,
             rb_malware_component = m,
             rb_total = py_round 1 score\<rparr>)))"

section \<open>Indicators are well formed\<close>

definition ioc_ok :: "ioc \<Rightarrow> bool" where
  "ioc_ok = (\<lambda>(kind, v).
     (kind = ''ip'' \<and> v \<noteq> [] \<and> v \<notin> {''0.0.0.0'', ''127.0.0.1''})
     \<or> (kind = ''username'' \<and> v \<noteq> [] \<and> length v \<le> 120)
     \<or> (kind = ''url'' \<and> length v \<le> 480 \<and> starts_with ''http'' (lower v))
     \<or> (kind = ''domain'' \<and> lower v = v \<and> is_domain v)
     \<or> ((kind, length v) \<in> {(''sha256'', 64), (''sha1'', 40), (''md5'', 32)}
         \<and> lower v = v \<and> (\<forall>c \<in> set v. is_hex c)))"

lemma lower_char_idem [simp]: "lower_char (lower_char c) = lower_char c"
proof -
  have "(of_char c :: nat) < 256" by simp
  then show ?thesis by (auto simp: lower_char_def Let_def)
qed

lemma lower_idem [simp]: "lower (lower s) = lower s"
  by (simp add: lower_def)

lemma lower_char_classes [simp]:
  "is_ascii_letter (lower_char c) = is_ascii_letter c" "is_digit (lower_char c) = is_digit c"
  "is_hex (lower_char c) = is_hex c" "lower_char c = CHR ''-'' \<longleftrightarrow> c = CHR ''-''"
  "lower_char c = CHR ''.'' \<longleftrightarrow> c = CHR ''.''" "lower_char c = CHR ''/'' \<longleftrightarrow> c = CHR ''/''"
proof -
  have b: "(of_char c :: nat) < 256" by simp
  have low: "(of_char (lower_char c) :: nat) = (let n = of_char c in
      if (65 \<le> n \<and> n \<le> 90) \<or> (192 \<le> n \<and> n \<le> 222 \<and> n \<noteq> 215) then n + 32 else n)"
    using b by (auto simp: lower_char_def Let_def)
  show "is_ascii_letter (lower_char c) = is_ascii_letter c" "is_digit (lower_char c) = is_digit c"
    "is_hex (lower_char c) = is_hex c"
    unfolding is_ascii_letter_def is_digit_def is_hex_def low by (auto simp: Let_def)
  have "lower_char c = d \<longleftrightarrow> c = d" if "(of_char d :: nat) < 65" for d
  proof
    assume "lower_char c = d"
    then have "(of_char (lower_char c) :: nat) < 65" using that by simp
    then have "lower_char c = c" unfolding low by (auto simp: lower_char_def Let_def split: if_splits)
    then show "c = d" using \<open>lower_char c = d\<close> by simp
  next
    assume "c = d"
    then show "lower_char c = d" using that by (simp add: lower_char_def Let_def)
  qed
  then show "lower_char c = CHR ''-'' \<longleftrightarrow> c = CHR ''-''" "lower_char c = CHR ''.'' \<longleftrightarrow> c = CHR ''.''"
    "lower_char c = CHR ''/'' \<longleftrightarrow> c = CHR ''/''"
    by simp_all
qed

lemma lower_take: "lower (take n s) = take n (lower s)"
  by (simp add: lower_def take_map)

lemma split_on_lower: "split_on (CHR ''.'') (lower s) = map lower (split_on (CHR ''.'') s)"
  by (induction s) (auto simp: lower_def split: list.splits)

lemma split_on_nonempty [simp]: "split_on d s \<noteq> []"
  by (induction s) (auto split: list.splits)

lemma domain_label_lower [simp]: "domain_label (lower l) = domain_label l"
  by (cases "l = []") (auto simp: domain_label_def label_char_def lower_def hd_map last_map)

lemma is_domain_lower [simp]: "is_domain (lower s) = is_domain s"
  by (simp add: is_domain_def Let_def split_on_lower map_butlast[symmetric] last_map lower_def[of "last _"])

lemma starts_with_take: "starts_with p s \<Longrightarrow> length p \<le> n \<Longrightarrow> starts_with p (take n s)"
  by (simp add: starts_with_def min_def)

lemma starts_with_appendI: "starts_with p a \<Longrightarrow> starts_with p (a @ b)"
  by (auto simp: starts_with_iff)

lemma http_prefix:
  assumes "lower x = ''http'' @ q @ ''/''"
  shows "x \<noteq> [] \<and> last x = CHR ''/'' \<and> starts_with ''http'' (lower x)"
proof -
  have ne: "x \<noteq> []" using assms by (auto simp: lower_def)
  have "last (lower x) = CHR ''/''" by (simp add: assms)
  then have "lower_char (last x) = CHR ''/''" using ne by (simp add: lower_def last_map)
  moreover have "starts_with ''http'' (lower x)" unfolding assms by (rule starts_with_append)
  ultimately show ?thesis using ne by simp
qed

lemma url_at_shape:
  assumes "url_at s = Some m"
  shows "\<exists>pre body. m = pre @ body \<and> pre \<noteq> [] \<and> last pre = CHR ''/'' \<and> starts_with ''http'' (lower pre)"
proof -
  obtain n where n: "scheme_length s = Some n" and m: "m = take n s @ takeWhile url_char (drop n s)"
    using assms by (auto simp: url_at_def Let_def split: option.splits if_splits)
  have "starts_with ''https://'' t \<longleftrightarrow> take 8 t = ''https://''" "starts_with ''http://'' t \<longleftrightarrow> take 7 t = ''http://''"
    for t by (simp_all add: starts_with_def eval_nat_numeral)
  with n consider "n = 8" "lower (take n s) = ''https://''" | "n = 7" "lower (take n s) = ''http://''"
    by (auto simp: scheme_length_def lower_take split: if_splits)
  then have "take n s \<noteq> [] \<and> last (take n s) = CHR ''/'' \<and> starts_with ''http'' (lower (take n s))"
    using http_prefix[of "take n s" "''s:/''"] http_prefix[of "take n s" "'':/''"] by cases simp_all
  with m show ?thesis by auto
qed

lemma url_scan_at: "m \<in> set (url_scan s) \<Longrightarrow> \<exists>t. url_at t = Some m"
  by (induction s rule: url_scan.induct) (auto split: option.splits)

lemma rstrip_of_append:
  "a \<noteq> [] \<Longrightarrow> last a \<notin> set cs \<Longrightarrow> rstrip_of cs (a @ b) = a @ rstrip_of cs b"
  by (cases a rule: rev_cases) (auto simp: rstrip_of_def dropWhile_append)

lemma url_iocs_ok: "p \<in> set (url_iocs blob) \<Longrightarrow> ioc_ok p"
proof -
  assume "p \<in> set (url_iocs blob)"
  then obtain m0 where m0: "m0 \<in> set (url_scan blob)" and
    p: "p = (''url'', take 480 (rstrip_of url_trailers m0))
      \<or> (\<exists>h. is_domain h \<and> p = (''domain'', lower h))"
    by (auto simp: url_iocs_def Let_def split: if_splits)
  obtain pre body where m: "m0 = pre @ body" "pre \<noteq> []" "last pre = CHR ''/''" "starts_with ''http'' (lower pre)"
    using url_scan_at[OF m0] url_at_shape by blast
  have "rstrip_of url_trailers m0 = pre @ rstrip_of url_trailers body"
    unfolding m(1) using m(2,3) by (intro rstrip_of_append) (simp_all add: url_trailers_def)
  moreover have "starts_with ''http'' (lower (take 480 (pre @ x)))" for x
    unfolding lower_take lower_append
    by (intro starts_with_take starts_with_appendI m(4)) simp
  ultimately have url: "ioc_ok (''url'', take 480 (rstrip_of url_trailers m0))"
    by (simp add: ioc_ok_def del: take_append)
  have dom: "ioc_ok (''domain'', lower h)" if "is_domain h" for h
    using that by (simp add: ioc_ok_def)
  show ?thesis using p url dom by blast
qed

lemma hex_words_ok:
  "w \<in> set (hex_words n s) \<Longrightarrow> length (lower w) = n \<and> (\<forall>c \<in> set (lower w). is_hex c)"
  by (auto simp: hex_words_def lower_def)

text \<open>Every indicator extracted from an event is well formed for its kind (addresses that
  identify somebody, bounded user names, URLs with their scheme, lower-case domain names,
  lower-case hexadecimal digests of the right length), and none is reported twice.\<close>

theorem extract_iocs_well_formed:
  "distinct (extract_iocs e) \<and> list_all ioc_ok (extract_iocs e)"
proof -
  have kinds: "ioc_ok (''ip'', v)" if "v \<noteq> [] \<and> v \<notin> {''0.0.0.0'', ''127.0.0.1''}" for v
    using that by (simp add: ioc_ok_def)
  have user: "ioc_ok (''username'', take 120 u)" if "u \<noteq> []" for u
    using that by (simp add: ioc_ok_def)
  have hash: "ioc_ok (k, lower h)" if "h \<in> set (hex_words n b)" "(n, k) \<in> {(64, ''sha256''), (40, ''sha1''), (32, ''md5'')}"
    for k h n b
    using that hex_words_ok[OF that(1)] by (auto simp: ioc_ok_def)
  have src: "ioc_ok p" if "p \<in> set (if P then [(''ip'', v)] else [])"
    and "P \<longrightarrow> v \<noteq> [] \<and> v \<notin> {''0.0.0.0'', ''127.0.0.1''}" for p P v
    using that kinds by (simp split: if_splits)
  have "ioc_ok p" if "p \<in> set (extract_iocs e)" for p
    using dedup_on_subset[OF that[unfolded extract_iocs_def Let_def]]
    unfolding set_append Un_iff
  proof (elim disjE)
    assume "p \<in> set (if e_source_ip e \<noteq> [] \<and> e_source_ip e \<notin> {''0.0.0.0'', ''127.0.0.1'', ''::1''}
      then [(''ip'', e_source_ip e)] else [])"
    then show ?thesis by (rule src) simp
  next
    assume "p \<in> set (case e_destination_ip e of None \<Rightarrow> []
        | Some d \<Rightarrow> if d \<noteq> [] \<and> d \<notin> {''0.0.0.0'', ''127.0.0.1''} then [(''ip'', d)] else [])"
    then show ?thesis by (cases "e_destination_ip e") (auto intro: kinds split: if_splits)
  next
    assume "p \<in> set (case e_username e of None \<Rightarrow> []
        | Some u \<Rightarrow> if u \<noteq> [] then [(''username'', take 120 u)] else [])"
    then show ?thesis by (cases "e_username e") (auto intro: user split: if_splits)
  next
    assume "p \<in> set (url_iocs (take 8000 (join_present [e_command e, e_payload e, e_raw e])))"
    then show ?thesis by (rule url_iocs_ok)
  next
    let ?blob = "take 8000 (join_present [e_command e, e_payload e])"
    assume "p \<in> set (concat (map (\<lambda>(n, kind). map (\<lambda>h. (kind, lower h)) (hex_words n ?blob))
        [(64, ''sha256''), (40, ''sha1''), (32, ''md5'')]))"
    then obtain n kind h where "(n, kind) \<in> {(64, ''sha256''), (40, ''sha1''), (32, ''md5'')}"
      "h \<in> set (hex_words n ?blob)" "p = (kind, lower h)"
      by auto
    then show ?thesis using hash by blast
  qed
  moreover have "distinct (extract_iocs e)"
    unfolding extract_iocs_def Let_def by (rule distinct_dedup_on_id)
  ultimately show ?thesis by (auto simp: list_all_iff)
qed

section \<open>Sequences\<close>

text \<open>What a sequence rule asks for: consecutive blocks, one per step, of as many events as the
  step wants, each matching the step.\<close>

fun steps_fit :: "('s \<Rightarrow> 'a \<Rightarrow> bool) \<Rightarrow> ('s \<Rightarrow> nat) \<Rightarrow> 's list \<Rightarrow> 'a list \<Rightarrow> bool" where
  "steps_fit q n [] us \<longleftrightarrow> us = []"
| "steps_fit q n (s # ss) us \<longleftrightarrow>
     n s \<le> length us \<and> list_all (q s) (take (n s) us) \<and> steps_fit q n ss (drop (n s) us)"

lemma collect_spec:
  assumes "\<forall>e \<in> set es. p e \<noteq> None"
  shows "\<exists>hits rest pre. collect p n es = Some (hits, rest) \<and> es = pre @ rest
    \<and> hits = filter (\<lambda>e. p e = Some True) pre \<and> length hits \<le> n
    \<and> (length hits < n \<longrightarrow> rest = [])
    \<and> (pre \<noteq> [] \<and> length hits = n \<longrightarrow> p (last pre) = Some True)"
  using assms
proof (induction p n es rule: collect.induct)
  case (3 p n e es)
  show ?case
  proof (cases "p e")
    case None
    with 3 show ?thesis by simp
  next
    case (Some b)
    show ?thesis
    proof (cases b)
      case True
      then obtain hits rest pre where c: "collect p n es = Some (hits, rest)" "es = pre @ rest"
        "hits = filter (\<lambda>e. p e = Some True) pre" "length hits \<le> n" "length hits < n \<longrightarrow> rest = []"
        "pre \<noteq> [] \<and> length hits = n \<longrightarrow> p (last pre) = Some True"
        using "3.IH"(1)[OF Some] "3.prems" by auto
      show ?thesis
      proof (intro exI conjI)
        show "collect p (Suc n) (e # es) = Some (e # hits, rest)" using Some True c(1) by simp
        show "e # hits = filter (\<lambda>e. p e = Some True) (e # pre)" using Some True c(3) by simp
        show "e # pre \<noteq> [] \<and> length (e # hits) = Suc n \<longrightarrow> p (last (e # pre)) = Some True"
          using Some True c(6) by auto
      qed (use c(2,4,5) in simp_all)
    next
      case False
      then obtain hits rest pre where c: "collect p (Suc n) es = Some (hits, rest)" "es = pre @ rest"
        "hits = filter (\<lambda>e. p e = Some True) pre" "length hits \<le> Suc n" "length hits < Suc n \<longrightarrow> rest = []"
        "pre \<noteq> [] \<and> length hits = Suc n \<longrightarrow> p (last pre) = Some True"
        using "3.IH"(2)[OF Some] "3.prems" by auto
      show ?thesis
      proof (intro exI conjI)
        show "collect p (Suc n) (e # es) = Some (hits, rest)" using Some False c(1) by simp
        show "hits = filter (\<lambda>e. p e = Some True) (e # pre)" using Some False c(3) by simp
        show "e # pre \<noteq> [] \<and> length hits = Suc n \<longrightarrow> p (last (e # pre)) = Some True"
          using c(3,6) by auto
      qed (use c(2,4,5) in simp_all)
    qed
  qed
qed simp_all

text \<open>Taking the earliest matches never spoils a later step.\<close>

lemma earliest_leaves_most:
  assumes es: "es = pre @ rest" and hits: "length (filter q pre) = n"
    and tight: "pre \<noteq> [] \<longrightarrow> q (last pre)"
    and us: "subseq (a @ b) es" and a: "length a = n" "list_all q a"
  shows "subseq b rest"
proof -
  obtain x y where xy: "es = x @ y" "subseq a x" "subseq b y"
    using us by (meson list_emb_appendD)
  have "subseq (filter q a) (filter q x)" using xy(2) by (rule subseq_filter)
  then have nx: "n \<le> length (filter q x)"
    using a by (metis filter_True list_all_iff list_emb_length)
  show ?thesis
  proof (cases "length pre \<le> length x")
    case True
    then obtain z where "x = pre @ z" using es xy(1) by (metis append_eq_append_conv_if append_take_drop_id)
    then have "rest = z @ y" using es xy(1) by simp
    then show ?thesis using xy(3) by (metis list_emb_append2)
  next
    case False
    have "take (length x) (pre @ rest) = x" using es xy(1) by (metis append_eq_conv_conj)
    then have "pre = x @ drop (length x) pre" using False by (metis append_take_drop_id diff_is_0_eq
          nat_le_linear take_0 take_append append_Nil2)
    then obtain z where z: "pre = x @ z" "z \<noteq> []" using False by (metis append_Nil2 nle_le)
    have "length (filter q x) + length (filter q z) = n" using hits z(1) by simp
    with nx have "length (filter q z) = 0" by linarith
    then have "filter q z = []" by simp
    moreover have "last z \<in> set z" "q (last z)" using z tight by simp_all
    ultimately show ?thesis by (metis filter_empty_conv)
  qed
qed

lemma match_steps_spec:
  assumes "\<forall>s \<in> set ss. \<forall>e \<in> set es. p s e \<noteq> None"
  shows "\<exists>res. match_steps p n ss es = Some res
    \<and> (\<forall>us. res = Some us \<longrightarrow> subseq us es \<and> steps_fit (\<lambda>s e. p s e = Some True) n ss us)
    \<and> (res = None \<longrightarrow> (\<nexists>us. subseq us es \<and> steps_fit (\<lambda>s e. p s e = Some True) n ss us))"
  using assms
proof (induction ss arbitrary: es)
  case (Cons s ss)
  let ?q = "\<lambda>s e. p s e = Some True"
  obtain hits rest pre where c: "collect (p s) (n s) es = Some (hits, rest)" "es = pre @ rest"
    "hits = filter (?q s) pre" "length hits \<le> n s" "length hits < n s \<longrightarrow> rest = []"
    "pre \<noteq> [] \<and> length hits = n s \<longrightarrow> ?q s (last pre)"
    using collect_spec[of es "p s" "n s"] Cons.prems by auto
  show ?case
  proof (cases "length hits < n s")
    case True
    have "\<not> (subseq us es \<and> steps_fit ?q n (s # ss) us)" for us
    proof
      assume us: "subseq us es \<and> steps_fit ?q n (s # ss) us"
      then have "subseq (take (n s) us) es"
        by (meson prefix_imp_subseq subseq_order.trans take_is_prefix)
      then have "subseq (filter (?q s) (take (n s) us)) (filter (?q s) es)" by (rule subseq_filter)
      moreover have "filter (?q s) (take (n s) us) = take (n s) us"
        using us by (simp add: list_all_iff)
      moreover have "filter (?q s) es = hits" using c True by simp
      ultimately have "n s \<le> length hits" using us by (auto dest: list_emb_length)
      with True show False by simp
    qed
    with c True show ?thesis by auto
  next
    case False
    with c(4) have n: "length hits = n s" by simp
    obtain res where r: "match_steps p n ss rest = Some res"
      "\<And>us. res = Some us \<Longrightarrow> subseq us rest \<and> steps_fit ?q n ss us"
      "res = None \<Longrightarrow> \<nexists>us. subseq us rest \<and> steps_fit ?q n ss us"
      using Cons.IH[of rest] Cons.prems c(2) by auto
    have sound: "subseq (hits @ us) es \<and> steps_fit ?q n (s # ss) (hits @ us)" if "res = Some us" for us
    proof -
      have "subseq hits pre" unfolding c(3) by (rule subseq_filter_left)
      then have "subseq (hits @ us) es" using r(2)[OF that] c(2) by (simp add: list_emb_append_mono)
      moreover have "list_all (?q s) hits" by (simp add: c(3) list_all_iff)
      ultimately show ?thesis using r(2)[OF that] n by simp
    qed
    have complete: False if "res = None" "subseq us es" "steps_fit ?q n (s # ss) us" for us
    proof -
      have "subseq (drop (n s) us) rest"
        using earliest_leaves_most[of es pre rest "?q s" "n s" "take (n s) us" "drop (n s) us"]
          c n that by auto
      with that r(3) show False by auto
    qed
    show ?thesis
      using c(1) n r(1) sound complete by (cases res) auto
  qed
qed auto

text \<open>C15. The one-pass scan of a sequence rule is exact: it reports events exactly when the window,
  in time order, contains the rule's steps one after the other, and what it reports is such an
  occurrence. (No event raises in a pattern; the rule asks for at least one event.)\<close>

theorem match_sequence_exact:
  assumes "\<forall>s \<in> set (r_steps r). \<forall>e \<in> set es. event_matches env e (st_conditions s) \<noteq> None"
    and "\<exists>s \<in> set (r_steps r). 0 < st_min_count s"
  defines "fits \<equiv> \<lambda>us. subseq us (sort_key e_timestamp es)
    \<and> steps_fit (\<lambda>s e. event_matches env e (st_conditions s) = Some True) (\<lambda>s. nat (st_min_count s)) (r_steps r) us"
  shows "\<exists>used. match_sequence env r es = Some used
    \<and> (used \<noteq> [] \<longleftrightarrow> (\<exists>us. fits us)) \<and> (used \<noteq> [] \<longrightarrow> fits used)"
proof -
  let ?q = "\<lambda>s e. event_matches env e (st_conditions s) = Some True"
  have "steps_fit q n ss [] \<Longrightarrow> \<forall>s \<in> set ss. n s = 0" for q :: "step \<Rightarrow> event \<Rightarrow> bool" and n ss
    by (induction ss) auto
  then have ne: "us \<noteq> []" if "steps_fit q n ss us" "\<exists>s \<in> set ss. 0 < n s"
    for q :: "step \<Rightarrow> event \<Rightarrow> bool" and n ss us
    using that by fastforce
  have pos: "\<exists>s \<in> set (r_steps r). 0 < nat (st_min_count s)" using assms(2) by auto
  have nonempty: "us \<noteq> []" if "fits us" for us
    using that ne[OF _ pos, of ?q us] by (auto simp: fits_def)
  obtain res where "match_steps (\<lambda>s e. event_matches env e (st_conditions s)) (\<lambda>s. nat (st_min_count s))
      (r_steps r) (sort_key e_timestamp es) = Some res"
    "\<forall>us. res = Some us \<longrightarrow> fits us" "res = None \<longrightarrow> (\<nexists>us. fits us)"
    using match_steps_spec[of "r_steps r" "sort_key e_timestamp es"
        "\<lambda>s e. event_matches env e (st_conditions s)" "\<lambda>s. nat (st_min_count s)"] assms(1)
    unfolding fits_def by auto
  then show ?thesis
    using nonempty by (cases res) (auto simp: match_sequence_def)
qed

definition sample_event :: "string \<Rightarrow> time \<Rightarrow> string \<Rightarrow> event" where
  "sample_event i ts auth =
     \<lparr>e_id = i, e_timestamp = ts, e_ingested_at = None, e_sensor = ''cowrie'', e_type = None,
      e_source_ip = ''203.0.113.9'', e_source_port = None, e_destination_ip = None,
      e_destination_port = None, e_protocol = None, e_username = Some ''root'', e_password = None,
      e_auth_result = Some auth, e_command = None, e_payload = None, e_session_id = None,
      e_severity = Some ''MEDIUM'', e_raw = None, e_metadata = JNull\<rparr>"

definition demo_env :: rule_env where
  "demo_env = \<lparr>re_search = (\<lambda>p t. Some (contains_str p t)), to_float = (\<lambda>_. None),
     json_loads = (\<lambda>_. None), show_time = (\<lambda>_. []), epoch = (\<lambda>t. t div 1000000)\<rparr>"

definition auth_is :: "string \<Rightarrow> condition list" where
  "auth_is v = [\<lparr>c_field = ''authentication_result'', c_op = ''eq'', c_value = JStr v\<rparr>]"

definition demo_rule :: rule where
  "demo_rule = \<lparr>r_id = ''st-1'', r_name = ''guess then in'', r_severity = ''HIGH'', r_confidence = 8 / 10,
     r_technique = Some ''T1110'', r_tactic = None, r_sequence = True, r_group_by = ''source_ip'',
     r_timeframe = minutes 10, r_threshold = 1, r_conditions = auth_is ''FAILURE'',
     r_steps = [\<lparr>st_conditions = auth_is ''FAILURE'', st_min_count = 2\<rparr>,
                \<lparr>st_conditions = auth_is ''SUCCESS'', st_min_count = 1\<rparr>],
     r_description = [], r_source = [], r_selection = JObj []\<rparr>"

lemma auth_matches:
  "event_matches env (sample_event i ts a) (auth_is v) = Some (lower a = lower v)"
proof -
  have "event_field env (sample_event i ts a) ''authentication_result'' = JStr a"
    by (simp add: event_field_def event_columns_def sample_event_def opt_str_def)
  then show ?thesis
    by (simp add: event_matches_def auth_is_def matches_def low_def Let_def split: bool.split)
qed

lemma lower_results [simp]:
  "lower ''SUCCESS'' = ''success''" "lower ''FAILURE'' = ''failure''"
  by code_simp+

theorem match_sequence_exact_witness:
  "\<exists>used. match_sequence demo_env demo_rule
     [sample_event ''c'' 3 ''SUCCESS'', sample_event ''a'' 1 ''FAILURE'', sample_event ''b'' 2 ''FAILURE''] = Some used
   \<and> used \<noteq> []"
proof -
  let ?es = "[sample_event ''c'' 3 ''SUCCESS'', sample_event ''a'' 1 ''FAILURE'', sample_event ''b'' 2 ''FAILURE'']"
  let ?us = "[sample_event ''a'' 1 ''FAILURE'', sample_event ''b'' 2 ''FAILURE'', sample_event ''c'' 3 ''SUCCESS'']"
  have sorted: "sort_key e_timestamp ?es = ?us"
    by (simp add: sample_event_def)
  have fit: "steps_fit (\<lambda>s e. event_matches demo_env e (st_conditions s) = Some True)
      (\<lambda>s. nat (st_min_count s)) (r_steps demo_rule) ?us"
    by (simp add: demo_rule_def auth_matches)
  have total: "\<forall>s \<in> set (r_steps demo_rule). \<forall>e \<in> set ?es. event_matches demo_env e (st_conditions s) \<noteq> None"
    and pos: "\<exists>s \<in> set (r_steps demo_rule). 0 < st_min_count s"
    by (auto simp: demo_rule_def auth_matches)
  have "subseq ?us (sort_key e_timestamp ?es)" unfolding sorted by (rule subseq_order.order_refl)
  with fit match_sequence_exact[OF total pos] show ?thesis by blast
qed

section \<open>Threshold rules\<close>

definition rule_recent :: "rule_env \<Rightarrow> time \<Rightarrow> rule \<Rightarrow> event list \<Rightarrow> string \<Rightarrow> event list" where
  "rule_recent env now r window g =
     filter (\<lambda>e. group_key env r e = Some g \<and> now - r_timeframe r \<le> e_timestamp e) window"

definition rule_hits :: "rule_env \<Rightarrow> time \<Rightarrow> rule \<Rightarrow> event list \<Rightarrow> string \<Rightarrow> event list" where
  "rule_hits env now r window g =
     filter (\<lambda>e. event_matches env e (r_conditions r) = Some True) (rule_recent env now r window g)"

text \<open>The condition under which a threshold rule fires for a group.\<close>

definition fires :: "rule_env \<Rightarrow> time \<Rightarrow> rule \<Rightarrow> event list \<Rightarrow> time \<Rightarrow> string \<Rightarrow> bool" where
  "fires env now r window since g \<longleftrightarrow>
     rule_hits env now r window g \<noteq> [] \<and> r_threshold r \<le> int (length (rule_hits env now r window g))
     \<and> (\<exists>e \<in> set (rule_recent env now r window g). since < ingested now e)"

lemma evaluate_group_threshold:
  assumes "\<not> r_sequence r" and "evaluate_group env now r since (g, evs) = Some cs"
  defines "recent \<equiv> filter (\<lambda>e. now - r_timeframe r \<le> e_timestamp e) evs"
  defines "hits \<equiv> filter (\<lambda>e. event_matches env e (r_conditions r) = Some True) recent"
  shows "cs = (if hits \<noteq> [] \<and> r_threshold r \<le> int (length hits) \<and> (\<exists>e \<in> set recent. since < ingested now e)
     then [make_candidate env r g hits] else [])"
proof -
  let ?recent = "sort_key e_timestamp recent"
  have r: "filter (\<lambda>e. now - r_timeframe r \<le> e_timestamp e) (sort_key e_timestamp evs) = ?recent"
    by (simp add: recent_def filter_sort)
  have h: "filter (\<lambda>e. event_matches env e (r_conditions r) = Some True) ?recent = sort_key e_timestamp hits"
    by (simp add: hits_def filter_sort)
  have mc: "make_candidate env r g (sort_key e_timestamp hits) = make_candidate env r g hits"
    by (simp add: make_candidate_def sort_key_id_if_sorted)
  have e: "sort_key e_timestamp xs = [] \<longleftrightarrow> xs = []" for xs :: "event list"
    by (metis length_0_conv length_sort)
  have eg: "evaluate_group env now r since (g, evs) =
      (if recent = [] \<or> \<not> (\<exists>e \<in> set recent. since < ingested now e) then Some []
       else map_option (\<lambda>matched. if matched = [] then [] else [make_candidate env r g matched])
         (map_option (\<lambda>hits. if r_threshold r \<le> int (length hits) then hits else [])
           (filter_opt (\<lambda>e. event_matches env e (r_conditions r)) ?recent)))"
    using assms(1) unfolding evaluate_group_def prod.case r Let_def by (simp add: e)
  have rh: "recent = [] \<Longrightarrow> hits = []" by (simp add: hits_def)
  show ?thesis
  proof (cases "recent = [] \<or> \<not> (\<exists>e \<in> set recent. since < ingested now e)")
    case True
    with assms(2) eg rh show ?thesis by auto
  next
    case False
    note result = assms(2)[unfolded eg if_not_P[OF False]]
    then obtain ys where ys: "filter_opt (\<lambda>e. event_matches env e (r_conditions r)) ?recent = Some ys"
      by (cases "filter_opt (\<lambda>e. event_matches env e (r_conditions r)) ?recent") simp_all
    with h have "ys = sort_key e_timestamp hits" by (metis filter_opt_Some)
    then show ?thesis using False result[unfolded ys] by (auto simp: mc e)
  qed
qed

lemma traverse_defined: "traverse f xs = Some ys \<Longrightarrow> x \<in> set xs \<Longrightarrow> \<exists>y. f x = Some y"
  by (induction xs arbitrary: ys) (auto split: option.splits)

lemma set_concat_traverse:
  "traverse f xs = Some yss \<Longrightarrow> c \<in> set (concat yss) \<longleftrightarrow> (\<exists>x \<in> set xs. \<exists>ys. f x = Some ys \<and> c \<in> set ys)"
  by (induction xs arbitrary: yss) (auto split: option.splits)

lemma evaluate_threshold_set:
  assumes thr: "\<not> r_sequence r" and run: "evaluate_rule env now r window since = Some cs"
  shows "set cs = {make_candidate env r g (rule_hits env now r window g) | g. fires env now r window since g}"
proof -
  obtain css where css: "traverse (evaluate_group env now r since) (group_on (group_key env r) window) = Some css"
    and cs: "cs = concat css"
    using run by (auto simp: evaluate_rule_def)
  have filt: "filter (\<lambda>e. now - r_timeframe r \<le> e_timestamp e) (filter (\<lambda>e. group_key env r e = Some g) window)
      = rule_recent env now r window g" for g
    by (simp add: rule_recent_def conj_commute)
  have grp: "ys = (if fires env now r window since g then [make_candidate env r g (rule_hits env now r window g)] else [])"
    if "(g, evs) \<in> set (group_on (group_key env r) window)"
      "evaluate_group env now r since (g, evs) = Some ys" for g evs ys
  proof -
    have evs: "evs = filter (\<lambda>e. group_key env r e = Some g) window"
      using that(1) by (simp add: in_group_on)
    show ?thesis
      using evaluate_group_threshold[OF thr that(2)]
      unfolding evs filt fires_def rule_hits_def .
  qed
  have defined: "x \<in> set (group_on (group_key env r) window) \<Longrightarrow> \<exists>ys. evaluate_group env now r since x = Some ys" for x
    using traverse_defined[OF css] .
  have listed: "\<exists>evs. (g, evs) \<in> set (group_on (group_key env r) window)" if "fires env now r window since g" for g
    using that by (auto simp: fires_def rule_recent_def in_group_on)
  show ?thesis
  proof (intro set_eqI iffI)
    fix c assume "c \<in> set cs"
    then obtain g evs ys where "(g, evs) \<in> set (group_on (group_key env r) window)"
      "evaluate_group env now r since (g, evs) = Some ys" and c: "c \<in> set ys"
      unfolding cs set_concat_traverse[OF css] by auto
    from grp[OF this(1,2)] c
    show "c \<in> {make_candidate env r g (rule_hits env now r window g) | g. fires env now r window since g}"
      by (simp split: if_splits) blast
  next
    fix c assume "c \<in> {make_candidate env r g (rule_hits env now r window g) | g. fires env now r window since g}"
    then obtain g where g: "fires env now r window since g"
      "c = make_candidate env r g (rule_hits env now r window g)" by blast
    obtain evs ys where e: "(g, evs) \<in> set (group_on (group_key env r) window)"
      "evaluate_group env now r since (g, evs) = Some ys"
      using listed[OF g(1)] defined by blast
    from grp[OF e] g have "c \<in> set ys" by simp
    with e show "c \<in> set cs" unfolding cs set_concat_traverse[OF css] by blast
  qed
qed

text \<open>C14. A threshold rule fires for a group exactly when it should: enough events of the group,
  recent enough, satisfy every condition, and something recent is new since the cursor; the
  reported events are all of them, in time order, and a group is reported at most once.\<close>

theorem threshold_rule_exact:
  assumes "\<not> r_sequence r" and "evaluate_rule env now r window since = Some cs"
  shows "(c \<in> set cs \<longleftrightarrow> fires env now r window since (cd_group c)
             \<and> c = make_candidate env r (cd_group c) (rule_hits env now r window (cd_group c)))
    \<and> mset (cd_matched (make_candidate env r g (rule_hits env now r window g))) = mset (rule_hits env now r window g)
    \<and> distinct (map cd_group cs)"
proof -
  have grp: "cd_group (make_candidate env r g ms) = g" for g ms
    by (simp add: make_candidate_def Let_def)
  have "c \<in> set cs \<longleftrightarrow> fires env now r window since (cd_group c)
      \<and> c = make_candidate env r (cd_group c) (rule_hits env now r window (cd_group c))"
    unfolding evaluate_threshold_set[OF assms] using grp by auto
  moreover have "mset (cd_matched (make_candidate env r g ms)) = mset ms" for ms
    by (simp add: make_candidate_def Let_def)
  moreover have "distinct (map cd_group cs)"
  proof -
    have "distinct (map fst gs) \<Longrightarrow> traverse (evaluate_group env now r since) gs = Some css \<Longrightarrow>
        distinct (map cd_group (concat css)) \<and> cd_group ` set (concat css) \<subseteq> fst ` set gs" for gs css
    proof (induction gs arbitrary: css)
      case (Cons x gs)
      obtain g evs where x: "x = (g, evs)" by (cases x)
      from Cons.prems(2) obtain ys css' where r: "evaluate_group env now r since x = Some ys"
        "traverse (evaluate_group env now r since) gs = Some css'" "css = ys # css'"
        by (auto split: option.splits)
      have "ys = [] \<or> (\<exists>ms. ys = [make_candidate env r g ms])"
        using evaluate_group_threshold[OF assms(1), of env now since g evs ys] r(1) x by (auto split: if_splits)
      moreover have "g \<notin> cd_group ` set (concat css')" "distinct (map cd_group (concat css'))"
        "cd_group ` set (concat css') \<subseteq> fst ` set gs"
        using Cons.IH[OF _ r(2)] Cons.prems(1) x by auto
      ultimately show ?case by (auto simp: r(3) x grp simp del: set_concat)
    qed simp
    then show ?thesis
      using assms(2) distinct_group_on by (fastforce simp: evaluate_rule_def)
  qed
  ultimately show ?thesis by blast
qed

lemma traverse_total: "\<forall>x \<in> set xs. f x \<noteq> None \<Longrightarrow> \<exists>ys. traverse f xs = Some ys"
  by (induction xs) auto

lemma evaluate_rule_total:
  assumes "\<not> r_sequence r" and "\<forall>e \<in> set window. event_matches env e (r_conditions r) \<noteq> None"
  shows "\<exists>cs. evaluate_rule env now r window since = Some cs"
proof -
  have "evaluate_group env now r since (g, evs) \<noteq> None"
    if "(g, evs) \<in> set (group_on (group_key env r) window)" for g evs
  proof -
    let ?recent = "filter (\<lambda>e. now - r_timeframe r \<le> e_timestamp e) (sort_key e_timestamp evs)"
    have "\<forall>e \<in> set ?recent. event_matches env e (r_conditions r) \<noteq> None"
      using that assms(2) by (auto simp: in_group_on)
    from filter_opt_total[OF this] show ?thesis
      using assms(1) by (simp add: evaluate_group_def Let_def)
  qed
  then have "\<forall>x \<in> set (group_on (group_key env r) window). evaluate_group env now r since x \<noteq> None"
    by auto
  from traverse_total[OF this] show ?thesis by (auto simp: evaluate_rule_def)
qed

definition demo_threshold :: rule where
  "demo_threshold = demo_rule\<lparr>r_sequence := False, r_threshold := 2, r_steps := []\<rparr>"

theorem threshold_rule_exact_witness:
  "\<exists>cs. evaluate_rule demo_env 10 demo_threshold [sample_event ''a'' 1 ''FAILURE'', sample_event ''b'' 2 ''FAILURE''] 0
     = Some cs \<and> (\<exists>c \<in> set cs. cd_group c = ''203.0.113.9'')"
proof -
  let ?w = "[sample_event ''a'' 1 ''FAILURE'', sample_event ''b'' 2 ''FAILURE'']"
  have key: "group_key demo_env demo_threshold (sample_event i t a) = Some ''203.0.113.9''" for i t a
    by (simp add: group_key_def event_field_def event_columns_def demo_threshold_def demo_rule_def sample_event_def)
  have conds: "r_conditions demo_threshold = auth_is ''FAILURE''" "r_threshold demo_threshold = 2"
    "\<not> r_sequence demo_threshold" "r_timeframe demo_threshold = minutes 10"
    by (simp_all add: demo_threshold_def demo_rule_def)
  have sel: "e_timestamp (sample_event i t a) = t" "ingested 10 (sample_event i t a) = 10" for i t a
    by (simp_all add: sample_event_def ingested_def)
  obtain cs where run: "evaluate_rule demo_env 10 demo_threshold ?w 0 = Some cs"
    using evaluate_rule_total[OF conds(3), of ?w demo_env 10 0] by (auto simp: conds auth_matches)
  have "rule_hits demo_env 10 demo_threshold ?w ''203.0.113.9'' = ?w"
    "rule_recent demo_env 10 demo_threshold ?w ''203.0.113.9'' = ?w"
    by (simp_all add: rule_hits_def rule_recent_def key conds auth_matches time_defs sel)
  then have "fires demo_env 10 demo_threshold ?w 0 ''203.0.113.9''"
    by (simp add: fires_def conds sel)
  moreover have "cd_group (make_candidate demo_env demo_threshold g ms) = g" for g ms
    by (simp add: make_candidate_def Let_def)
  ultimately show ?thesis
    using threshold_rule_exact[OF conds(3) run] run by metis
qed

section \<open>Severity and risk\<close>

text \<open>The severity an incident should have: the worst of its detections and of the event risk.\<close>

definition worst :: "severity list \<Rightarrow> rat \<Rightarrow> severity" where
  "worst ss risk = max_or LOW (ss @ (if 80 \<le> risk then [CRITICAL] else if 55 \<le> risk then [HIGH] else []))"

lemma foldl_max_index: "sev_index (foldl max a ss) = foldl max (sev_index a) (map sev_index ss)"
proof (induction ss arbitrary: a)
  case (Cons s ss)
  have "sev_index (max a s) = max (sev_index a) (sev_index s)" by (simp add: max_def severity_order)
  with Cons show ?case by simp
qed simp

lemma max_or_rank:
  "severity_rank (sev_name (max_or LOW ss)) = max_or 1 (map (\<lambda>s. severity_rank (sev_name s)) ss)"
  by (cases ss) (simp_all add: max_or_def foldl_max_index severity_rank_sev_name del: sev_name.simps)

text \<open>An incident is exactly as severe as the worst thing it contains: the severity the engine
  computes is the maximum of the severities of its detections and of the band of the highest
  event risk, and LOW when there is nothing.\<close>

theorem incident_severity_is_worst:
  assumes "INFO \<notin> set ss"
  shows "incident_severity (map sev_name ss) risk = Some (sev_name (worst ss risk))"
proof -
  let ?ts = "ss @ (if 80 \<le> risk then [CRITICAL] else if 55 \<le> risk then [HIGH] else [])"
  have ranks: "map severity_rank (map sev_name ss) @ (if 80 \<le> risk then [4] else if 55 \<le> risk then [3] else [])
      = map (\<lambda>s. severity_rank (sev_name s)) ?ts"
    by (simp add: severity_rank_sev_name del: sev_name.simps)
  have "worst ss risk \<noteq> INFO"
    using max_or_in[of LOW ?ts] assms by (auto simp: worst_def)
  moreover have "map_of [(1, ''LOW''), (2, ''MEDIUM''), (3, ''HIGH''), (4, ''CRITICAL'')] (severity_rank (sev_name s))
      = Some (sev_name s)" if "s \<noteq> INFO" for s
    using that by (cases s) (simp_all add: severity_rank_sev_name del: sev_name.simps, simp_all)
  ultimately show ?thesis
    unfolding incident_severity_def Let_def ranks max_or_rank[symmetric] worst_def by blast
qed

theorem incident_severity_is_worst_witness:
  "incident_severity (map sev_name [LOW, HIGH, MEDIUM]) 25 = Some ''HIGH''"
  using incident_severity_is_worst[of "[LOW, HIGH, MEDIUM]" 25]
  by (simp add: worst_def max_or_def max_def severity_order)

lemma rank_component_le: "max_or 1 (map severity_rank sevs) \<le> 4"
  using max_or_in[of 1 "map severity_rank sevs"] severity_rank_le by force

lemma risk_score_le: "risk_score sevs techs r n m \<le> 100"
  by (simp add: risk_score_def risk_components_def)

lemma risk_score_nonneg: "0 \<le> r \<Longrightarrow> 0 \<le> risk_score sevs techs r n m"
  by (simp add: risk_score_def risk_components_def)

lemma max_or_1_mono:
  "set xs \<subseteq> set ys \<Longrightarrow> \<forall>y \<in> set ys. 1 \<le> y \<Longrightarrow> max_or (1::nat) xs \<le> max_or 1 ys"
proof -
  assume sub: "set xs \<subseteq> set ys" and pos: "\<forall>y \<in> set ys. 1 \<le> y"
  have "1 \<le> max_or 1 ys" using max_or_in[of 1 ys] pos by auto
  moreover have "max_or 1 xs \<in> insert 1 (set xs)" by (rule max_or_in)
  ultimately show ?thesis using sub max_or_ge[of "max_or 1 xs" ys] by auto
qed

text \<open>The risk score is a percentage the breakdown accounts for, and it only ever grows with
  the evidence: adding detections (of a known severity), techniques, a riskier event, more
  session events or a linked sample never lowers it.\<close>

theorem incident_risk_bounded_monotone:
  assumes "0 \<le> r" and "r \<le> r'" and "n \<le> n'" and "m \<longrightarrow> m'" and "set techs \<subseteq> set techs'"
    and "mset sevs \<subseteq># mset sevs'" and "\<forall>s \<in> set sevs'. 1 \<le> severity_rank s"
  shows "0 \<le> fst (incident_risk sevs techs r n m)
    \<and> fst (incident_risk sevs techs r n m) \<le> fst (incident_risk sevs' techs' r' n' m')
    \<and> fst (incident_risk sevs' techs' r' n' m') \<le> 100
    \<and> rb_total (snd (incident_risk sevs techs r n m)) = fst (incident_risk sevs techs r n m)"
proof -
  have len: "length sevs \<le> length sevs'" using assms(6) by (metis size_mset size_mset_mono)
  have sub: "set sevs \<subseteq> set sevs'" using assms(6) by (metis set_mset_mono set_mset_mset)
  have rank: "max_or 1 (map severity_rank sevs) \<le> max_or 1 (map severity_rank sevs')"
    using sub assms(7) by (intro max_or_1_mono) auto
  have card: "card (set techs) \<le> card (set techs')" using assms(5) by (simp add: card_mono)
  let ?a = "\<lambda>sevs. of_nat (max_or 1 (map severity_rank sevs)) * 18 :: rat"
  have "?a sevs \<le> ?a sevs'" using rank by simp
  moreover have "(of_nat (min (length sevs * 6) 24) :: rat) \<le> of_nat (min (length sevs' * 6) 24)"
    using len unfolding of_nat_le_iff by simp
  moreover have "(of_nat (min (card (set techs) * 5) 20) :: rat) \<le> of_nat (min (card (set techs') * 5) 20)"
    using card unfolding of_nat_le_iff by simp
  moreover have "min (r * (15 / 100)) 15 \<le> min (r' * (15 / 100)) (15::rat)" using assms(2) by auto
  moreover have "min (of_nat n * (2 / 10)) 10 \<le> min (of_nat n' * (2 / 10)) (10::rat)"
    using assms(3) by auto
  moreover have "(if m then 20 else 0 :: rat) \<le> (if m' then 20 else 0)" using assms(4) by simp
  ultimately have "risk_score sevs techs r n m \<le> risk_score sevs' techs' r' n' m'"
    unfolding risk_score_def risk_components_def prod.case
    by (intro min.mono[OF order_refl] add_mono)
  moreover have "py_round 1 (risk_score sevs' techs' r' n' m') \<le> py_round 1 100"
    by (intro py_round_mono risk_score_le)
  moreover have "py_round 1 0 \<le> py_round 1 (risk_score sevs techs r n m)"
    using assms(1) by (intro py_round_mono risk_score_nonneg)
  ultimately show ?thesis
    by (simp add: incident_risk_def split_beta Let_def py_round_mono)
qed

theorem incident_risk_bounded_monotone_witness:
  "fst (incident_risk [''HIGH''] [''T1110''] 50 3 False) \<le> fst (incident_risk [''HIGH'', ''LOW''] [''T1110''] 80 9 True)"
  using incident_risk_bounded_monotone[of 50 80 3 9 False True "[''T1110'']" "[''T1110'']" "[''HIGH'']" "[''HIGH'', ''LOW'']"]
  by (simp add: severity_rank_def SEV_ORDER_def upper_def upper_char_def)

end
