(* ===== verification/Evidence.thy ===== *)
theory Evidence
  imports Soc_Db
begin

text \<open>
  Chain of custody (\<open>backend/app/services/evidence_service.py\<close>): evidence rows with a content
  hash, attached by the detection engine or by an analyst, and their verification.

  The arguments in the record \<open>custody\<close> stand for SHA-256 over bytes, the analysis reports on
  disk (\<open>_load_full_reports\<close>, another module), the quarantined samples (size, when present),
  the stored attachment files, \<open>os.path.realpath\<close>, the absolute \<open>EVIDENCE_DIR\<close> and the
  path-relative-to-the-working-directory function. Files written by an operation are returned
  as pairs of path and bytes.
\<close>

record custody =
  sha256 :: "string \<Rightarrow> string"
  reports :: "(string \<times> jdict) list"
  quarantined :: "string \<Rightarrow> nat option"
  stored_files :: "string \<Rightarrow> string option"
  realpath :: "string \<Rightarrow> string"
  evidence_dir :: string
  relpath :: "string \<Rightarrow> string"

definition hash_bytes :: "custody \<Rightarrow> string \<Rightarrow> string" where
  "hash_bytes cu b = sha256 cu b"

definition hash_json :: "custody \<Rightarrow> json \<Rightarrow> string" where
  "hash_json cu obj = hash_bytes cu (utf8 (dumps True obj))"

definition has_evidence :: "soc_db \<Rightarrow> string \<Rightarrow> string \<Rightarrow> string \<Rightarrow> bool" where
  "has_evidence db inc etype ref \<longleftrightarrow>
     (\<exists>r \<in> set (evidence_rows db). evd_incident r = inc \<and> evd_type r = etype \<and> evd_ref r = Some ref)"

text \<open>\<open>d.get(key, {})\<close>\<close>

definition get_or_empty :: "string \<Rightarrow> jdict \<Rightarrow> json" where
  "get_or_empty k d = (case map_of d k of None \<Rightarrow> JObj [] | Some v \<Rightarrow> v)"

section \<open>Malware evidence\<close>

text \<open>\<open>report.get("av", {}).get(k, {})\<close>: \<open>None\<close> when \<open>av\<close> is not an object, where \<open>.get\<close> raises.\<close>

definition av_section :: "jdict \<Rightarrow> string \<Rightarrow> json option" where
  "av_section report k =
     (case get_or_empty ''av'' report of JObj av \<Rightarrow> Some (get_or_empty k av) | _ \<Rightarrow> None)"

type_synonym evidence_item = "string \<times> string \<times> json \<times> string" \<comment> \<open>type, ref, metadata, hash\<close>

definition sample_item :: "custody \<Rightarrow> string \<Rightarrow> jdict \<Rightarrow> evidence_item" where
  "sample_item cu sha report =
     (''malware_sample'', ''quarantine/'' @ sha,
      JObj [(''present'', JBool (quarantined cu sha \<noteq> None)),
            (''size_bytes'', case quarantined cu sha of None \<Rightarrow> JNull | Some n \<Rightarrow> JInt (int n)),
            (''file_type'', dict_get ''file_type'' report)],
      hash_bytes cu (utf8 (sha @ py_str (dict_get ''file_type'' report))))"

definition section_item :: "custody \<Rightarrow> string \<Rightarrow> string \<Rightarrow> string \<Rightarrow> json \<Rightarrow> evidence_item" where
  "section_item cu sha etype section obj =
     (etype, ''scans/'' @ sha @ ''.json#'' @ section, obj, hash_json cu obj)"

definition evidence_items :: "custody \<Rightarrow> string \<Rightarrow> jdict \<Rightarrow> evidence_item list option" where
  "evidence_items cu sha report =
     (case (av_section report ''clamav'', av_section report ''virustotal'') of
        (Some clamav, Some vt) \<Rightarrow> Some
          [sample_item cu sha report,
           section_item cu sha ''static_report'' ''static'' (get_or_empty ''static'' report),
           section_item cu sha ''sandbox_report'' ''sandbox'' (get_or_empty ''sandbox'' report),
           section_item cu sha ''yara_result'' ''yara'' (get_or_empty ''yara'' report),
           section_item cu sha ''clamav_result'' ''av.clamav'' clamav,
           section_item cu sha ''virustotal_result'' ''av.virustotal'' vt]
      | _ \<Rightarrow> None)"

definition report_md5 :: "jdict \<Rightarrow> json" where
  "report_md5 report = (case get_or_empty ''hashes'' report of JObj h \<Rightarrow> dict_get ''md5'' h | _ \<Rightarrow> JNull)"

definition item_row :: "time \<Rightarrow> string \<Rightarrow> string \<Rightarrow> jdict \<Rightarrow> evidence_item \<Rightarrow> evidence" where
  "item_row now inc sha report = (\<lambda>(etype, ref, meta, h).
     \<lparr>evd_incident = inc, evd_type = etype, evd_sha256 = Some sha, evd_md5 = report_md5 report,
      evd_source = ''malware-pipeline'', evd_ref = Some ref, evd_acquired_at = now,
      evd_metadata = (case meta of JObj d \<Rightarrow> d | v \<Rightarrow> [(''value'', v)]),
      evd_content_hash = Some h, evd_immutable = True, evd_added_by = None\<rparr>)"

fun add_items ::
  "time \<Rightarrow> string \<Rightarrow> string \<Rightarrow> jdict \<Rightarrow> evidence_item list \<Rightarrow> soc_db \<Rightarrow> evidence list \<times> soc_db" where
  "add_items now inc sha report [] db = ([], db)"
| "add_items now inc sha report (it # its) db =
     (if has_evidence db inc (fst it) (fst (snd it)) then add_items now inc sha report its db
      else (let ev = item_row now inc sha report it;
                (created, db') = add_items now inc sha report its
                   (db\<lparr>evidence_rows := evidence_rows db @ [ev]\<rparr>)
            in (ev # created, db')))"

text \<open>\<open>None\<close> is the exception of a malformed report.\<close>

definition attach_malware_evidence ::
  "custody \<Rightarrow> time \<Rightarrow> string \<Rightarrow> string \<Rightarrow> soc_db \<Rightarrow> (evidence list \<times> soc_db) option" where
  "attach_malware_evidence cu now inc sha db =
     (case map_of (reports cu) sha of
        None \<Rightarrow> Some ([], db)
      | Some report \<Rightarrow>
         if report = [] then Some ([], db)
         else (case evidence_items cu sha report of
                 None \<Rightarrow> None
               | Some its \<Rightarrow>
                  (let (created, db) = add_items now inc sha report its db in
                   Some (created,
                     if created = [] then db
                     else log_activity inc ''detection-engine'' ''EVIDENCE_ADD''
                       (''auto-attached '' @ str_of_nat (length created)
                        @ '' evidence item(s) for sample '' @ take 12 sha @ ''...'') now db))))"

section \<open>Event and analyst evidence\<close>

definition attach_event_evidence ::
  "custody \<Rightarrow> time \<Rightarrow> string \<Rightarrow> string \<Rightarrow> string option \<Rightarrow> soc_db \<Rightarrow> evidence option \<times> soc_db" where
  "attach_event_evidence cu now inc event_id added_by db =
     (let ref = ''event:'' @ event_id in
      if has_evidence db inc ''honeypot_event'' ref then (None, db)
      else (let ev = \<lparr>evd_incident = inc, evd_type = ''honeypot_event'', evd_sha256 = None,
                      evd_md5 = JNull, evd_source = ''honeypot'', evd_ref = Some ref,
                      evd_acquired_at = now, evd_metadata = [],
                      evd_content_hash = Some (hash_bytes cu (utf8 event_id)),
                      evd_immutable = True, evd_added_by = added_by\<rparr>
            in (Some ev, db\<lparr>evidence_rows := evidence_rows db @ [ev]\<rparr>)))"

definition safe_char :: "char \<Rightarrow> bool" where
  "safe_char c \<longleftrightarrow> is_alnum c \<or> c \<in> set ''._- ''"

definition safe_filename :: "string option \<Rightarrow> string" where
  "safe_filename filename =
     (let name = (case filename of None \<Rightarrow> ''attachment''
                  | Some f \<Rightarrow> if f = [] then ''attachment'' else f);
          safe = take 120 (filter safe_char name)
      in if safe = [] then ''attachment'' else safe)"

text \<open>\<open>os.path.commonpath([p, dir]) == dir\<close> for normalized absolute paths.\<close>

definition path_inside :: "string \<Rightarrow> string \<Rightarrow> bool" where
  "path_inside p dir \<longleftrightarrow> p = dir \<or> starts_with (dir @ ''/'') p"

definition attachment_path :: "custody \<Rightarrow> string \<Rightarrow> string \<Rightarrow> string option \<Rightarrow> string" where
  "attachment_path cu inc uuid filename =
     evidence_dir cu @ ''/'' @ inc @ ''/'' @ uuid @ ''_'' @ safe_filename filename"

text \<open>The row, the file written (path and bytes), and the database; \<open>None\<close> is the
  \<open>ValueError\<close> of an escaping path.\<close>

definition add_analyst_evidence ::
  "custody \<Rightarrow> time \<Rightarrow> string \<Rightarrow> string \<Rightarrow> string \<Rightarrow> string \<Rightarrow> string option \<Rightarrow> string option
   \<Rightarrow> string option \<Rightarrow> string option \<Rightarrow> string option \<Rightarrow> soc_db
   \<Rightarrow> (evidence \<times> (string \<times> string) option \<times> soc_db) option" where
  "add_analyst_evidence cu now uuid inc etype source text ref file_bytes filename added_by db =
     (let subdir = evidence_dir cu @ ''/'' @ inc;
          disk = attachment_path cu inc uuid filename;
          row = (\<lambda>ref meta h. \<lparr>evd_incident = inc, evd_type = etype, evd_sha256 = None, evd_md5 = JNull,
                   evd_source = source, evd_ref = ref, evd_acquired_at = now, evd_metadata = meta,
                   evd_content_hash = h, evd_immutable = True, evd_added_by = added_by\<rparr>);
          done = (\<lambda>ev file shown. Some (ev, file,
                   log_activity inc (case added_by of None \<Rightarrow> ''analyst''
                       | Some a \<Rightarrow> if a = [] then ''analyst'' else a) ''EVIDENCE_ADD''
                     (etype @ '' added ('' @ shown @ '')'') now
                     (db\<lparr>evidence_rows := evidence_rows db @ [ev]\<rparr>)));
          shown_ref = (\<lambda>r. case r of None \<Rightarrow> ''None'' | Some s \<Rightarrow> s)
      in case file_bytes of
           Some b \<Rightarrow>
             if \<not> path_inside (realpath cu disk) subdir then None
             else done (row (Some (relpath cu disk))
                      [(''filename'', JStr (safe_filename filename)), (''size_bytes'', JInt (int (length b)))]
                      (Some (hash_bytes cu b)))
                    (Some (disk, b)) (safe_filename filename)
         | None \<Rightarrow>
             (case text of
                Some t \<Rightarrow> done (row ref [(''text'', JStr (take 8000 t))] (Some (hash_bytes cu (utf8 t)))) None
                            (if t = [] then shown_ref ref else take 80 t)
              | None \<Rightarrow> done (row ref [] None) None (shown_ref ref)))"

section \<open>Verification\<close>

text \<open>\<open>partition(sep)\<close> on a longer separator: the text before and after its first occurrence.\<close>

fun partition_str :: "string \<Rightarrow> string \<Rightarrow> string \<times> string" where
  "partition_str sep [] = ([], [])"
| "partition_str sep (c # cs) =
     (if starts_with sep (c # cs) then ([], drop (length sep) (c # cs))
      else (let (a, b) = partition_str sep cs in (c # a, b)))"

fun follow :: "json \<Rightarrow> string list \<Rightarrow> json" where
  "follow obj [] = obj"
| "follow obj (k # ks) = follow (case obj of JObj d \<Rightarrow> get_or_empty k d | _ \<Rightarrow> JObj []) ks"

definition recompute :: "custody \<Rightarrow> evidence \<Rightarrow> string option" where
  "recompute cu ev =
     (case (evd_type ev = ''attachment'', Option.bind (evd_ref ev) (stored_files cu)) of
        (True, Some bytes) \<Rightarrow> Some (hash_bytes cu bytes)
      | _ \<Rightarrow>
         if has_key ''text'' (evd_metadata ev) then
           (case dict_get ''text'' (evd_metadata ev) of JStr t \<Rightarrow> Some (hash_bytes cu (utf8 t)) | _ \<Rightarrow> None)
         else (case evd_ref ev of
                 None \<Rightarrow> None
               | Some ref \<Rightarrow>
                  if starts_with ''scans/'' ref then
                    (let (sha, sect) = partition_str ''.json#'' (drop (length ''scans/'') ref);
                         report = (case map_of (reports cu) sha of None \<Rightarrow> [] | Some r \<Rightarrow> r)
                     in Some (hash_json cu (follow (JObj report) (split_on (CHR ''.'') sect))))
                  else None))"

definition verified :: "custody \<Rightarrow> evidence \<Rightarrow> bool" where
  "verified cu ev \<longleftrightarrow> recompute cu ev \<noteq> None \<and> recompute cu ev = evd_content_hash ev"

section \<open>The evidence table has a key\<close>

definition evd_key :: "evidence \<Rightarrow> string \<times> string \<times> string option" where
  "evd_key r = (evd_incident r, evd_type r, evd_ref r)"

definition insert_evidence :: "evidence \<Rightarrow> soc_db \<Rightarrow> soc_db" where
  "insert_evidence r db =
     (if evd_key r \<in> evd_key ` set (evidence_rows db) then db
      else db\<lparr>evidence_rows := evidence_rows db @ [r]\<rparr>)"

interpretation evidence_table: keyed_store evidence_rows evd_key insert_evidence
  by unfold_locales (simp add: insert_evidence_def)

lemma has_evidence_key:
  "has_evidence db inc etype ref \<longleftrightarrow> (inc, etype, Some ref) \<in> evd_key ` set (evidence_rows db)"
  by (auto simp: has_evidence_def evd_key_def image_iff)

lemma evd_key_item [simp]: "evd_key (item_row now inc sha report it) = (inc, fst it, Some (fst (snd it)))"
  by (cases it) (simp add: item_row_def evd_key_def)

lemma add_items_fold:
  "snd (add_items now inc sha report its db) = fold insert_evidence (map (item_row now inc sha report) its) db"
  by (induction its arbitrary: db)
     (simp_all add: has_evidence_key insert_evidence_def Let_def split_beta)

lemma add_items_created: "set (fst (add_items now inc sha report its db)) \<subseteq> item_row now inc sha report ` set its"
proof (induction its arbitrary: db)
  case (Cons it its)
  show ?case
    using Cons[of db] Cons[of "db\<lparr>evidence_rows := evidence_rows db @ [item_row now inc sha report it]\<rparr>"]
    by (auto simp: Let_def split_beta dest: subsetD)
qed simp

lemma add_items_none:
  "(\<forall>it \<in> set its. has_evidence db inc (fst it) (fst (snd it))) \<Longrightarrow> add_items now inc sha report its db = ([], db)"
  by (induction its) auto

lemma add_items_all_there:
  "it \<in> set its \<Longrightarrow> has_evidence (snd (add_items now inc sha report its db)) inc (fst it) (fst (snd it))"
  unfolding add_items_fold has_evidence_key evidence_table.keys_fold_ins
  by (auto simp: image_image image_iff)

lemma has_evidence_log [simp]:
  "has_evidence (log_activity i a b c d db) inc etype ref = has_evidence db inc etype ref"
  by (simp add: has_evidence_def log_activity_def)

text \<open>Attaching the evidence of a sample twice adds nothing the second time: no row and no
  activity entry.\<close>

theorem attach_malware_idempotent:
  assumes "attach_malware_evidence cu now inc sha db = Some (created, db')"
  shows "attach_malware_evidence cu later inc sha db' = Some ([], db')"
proof (cases "map_of (reports cu) sha")
  case None
  with assms show ?thesis by (simp add: attach_malware_evidence_def)
next
  case (Some report)
  show ?thesis
  proof (cases "report = []")
    case True
    with assms Some show ?thesis by (simp add: attach_malware_evidence_def)
  next
    case False
    with assms Some obtain its where its: "evidence_items cu sha report = Some its"
      by (auto simp: attach_malware_evidence_def split: option.splits)
    have "has_evidence db' inc (fst it) (fst (snd it))" if "it \<in> set its" for it
      using add_items_all_there[OF that, of now inc sha report db] assms Some False its
      by (auto simp: attach_malware_evidence_def Let_def split_beta split: if_splits)
    then have "add_items later inc sha report its db' = ([], db')"
      by (intro add_items_none) blast
    with Some False its show ?thesis by (simp add: attach_malware_evidence_def)
  qed
qed

section \<open>Verification\<close>

lemma partition_str_first:
  "CHR ''.'' \<notin> set a \<Longrightarrow> partition_str ''.json#'' (a @ ''.json#'' @ b) = (a, b)"
proof (induction a)
  case (Cons c a)
  then have "\<not> starts_with ''.json#'' (c # a @ ''.json#'' @ b)" by (auto simp: starts_with_iff)
  with Cons show ?case by simp
qed (simp add: starts_with_def)

definition has_text :: "json \<Rightarrow> bool" where
  "has_text obj = (case obj of JObj d \<Rightarrow> has_key ''text'' d | _ \<Rightarrow> False)"

lemma section_item_sel [simp]:
  "fst (section_item cu sha etype sect obj) = etype"
  "fst (snd (snd (section_item cu sha etype sect obj))) = obj"
  by (simp_all add: section_item_def)

lemma section_recompute:
  assumes "map_of (reports cu) sha = Some report" and "CHR ''.'' \<notin> set sha"
    and "\<not> has_text obj" and "etype \<noteq> ''attachment''"
    and "follow (JObj report) (split_on (CHR ''.'') sect) = obj"
  shows "verified cu (item_row now inc sha r (section_item cu sha etype sect obj))"
proof -
  let ?ev = "item_row now inc sha r (section_item cu sha etype sect obj)"
  have fields: "evd_type ?ev = etype" "evd_ref ?ev = Some (''scans/'' @ sha @ ''.json#'' @ sect)"
    "evd_content_hash ?ev = Some (hash_json cu obj)" "\<not> has_key ''text'' (evd_metadata ?ev)"
    using assms(3) by (auto simp: item_row_def section_item_def has_text_def split: json.splits)
  have "starts_with ''scans/'' (''scans/'' @ sha @ ''.json#'' @ sect)" by (rule starts_with_append)
  moreover have "partition_str ''.json#'' (drop (length ''scans/'') (''scans/'' @ sha @ ''.json#'' @ sect)) = (sha, sect)"
    using partition_str_first[OF assms(2), of sect] by simp
  ultimately have "recompute cu ?ev = Some (hash_json cu obj)"
    unfolding recompute_def fields using assms(1,4,5) fields(4)
    by (simp add: Let_def split: option.split)
  then show ?thesis by (simp add: verified_def fields)
qed

text \<open>C24. Evidence of an analysed sample verifies: as long as the report on disk is the one it was
  taken from, every section row attached by the engine recomputes to its stored hash; only the
  row for the sample itself has nothing to recompute. (A report section with a member named
  \<open>text\<close> is excluded: it would be taken for an analyst's note.)\<close>

theorem attached_evidence_verifies:
  assumes "attach_malware_evidence cu now inc sha db = Some (created, db')"
    and "map_of (reports cu) sha = Some report" and "CHR ''.'' \<notin> set sha"
    and "\<forall>(etype, ref, obj, h) \<in> set (the (evidence_items cu sha report)). \<not> has_text obj"
    and "r \<in> set created" and "evd_type r \<noteq> ''malware_sample''"
  shows "verified cu r"
proof -
  obtain its where its: "evidence_items cu sha report = Some its" and r: "r \<in> item_row now inc sha report ` set its"
    using assms(1,2,5) add_items_created[of now inc sha report _ db]
    by (fastforce simp: attach_malware_evidence_def Let_def split_beta split: option.splits if_splits)
  obtain clamav vt where av: "av_section report ''clamav'' = Some clamav" "av_section report ''virustotal'' = Some vt"
    using its by (auto simp: evidence_items_def split: option.splits)
  have follow1: "follow (JObj report) (split_on (CHR ''.'') k) = get_or_empty k report"
    if "CHR ''.'' \<notin> set k" for k
  proof -
    have "split_on (CHR ''.'') k = [k]" using that by (induction k) auto
    then show ?thesis by simp
  qed
  have follow2: "(case get_or_empty ''av'' report of JObj d \<Rightarrow> get_or_empty ''clamav'' d | _ \<Rightarrow> JObj []) = clamav"
    "(case get_or_empty ''av'' report of JObj d \<Rightarrow> get_or_empty ''virustotal'' d | _ \<Rightarrow> JObj []) = vt"
    using av by (auto simp: av_section_def split: json.splits)
  have its_eq: "its = [sample_item cu sha report,
      section_item cu sha ''static_report'' ''static'' (get_or_empty ''static'' report),
      section_item cu sha ''sandbox_report'' ''sandbox'' (get_or_empty ''sandbox'' report),
      section_item cu sha ''yara_result'' ''yara'' (get_or_empty ''yara'' report),
      section_item cu sha ''clamav_result'' ''av.clamav'' clamav,
      section_item cu sha ''virustotal_result'' ''av.virustotal'' vt]"
    using its av by (simp add: evidence_items_def)
  have "evd_type (item_row now inc sha report (sample_item cu sha report)) = ''malware_sample''"
    by (simp add: item_row_def sample_item_def)
  moreover obtain it where "r = item_row now inc sha report it" "it \<in> set its" using r by blast
  ultimately have it: "r = item_row now inc sha report it" "it \<in> set (tl its)"
    using assms(6) unfolding its_eq by auto
  have no_text: "\<not> has_text (fst (snd (snd it)))"
    using it(2) assms(4) its by (cases it) (auto simp: its_eq)
  have "verified cu (item_row now inc sha report it)"
    using it(2) no_text unfolding its_eq
    by (auto simp: follow1 follow2 intro!: section_recompute[OF assms(2,3)])
  then show ?thesis by (simp add: it)
qed

definition demo_custody :: custody where
  "demo_custody = \<lparr>sha256 = (\<lambda>b. b), reports = [(''ab'', [(''static'', JObj [(''entropy'', JInt 7)])])],
     quarantined = (\<lambda>_. None), stored_files = (\<lambda>_. None), realpath = (\<lambda>p. p),
     evidence_dir = ''/evidence'', relpath = (\<lambda>p. p)\<rparr>"

lemma attach_runs:
  assumes "map_of (reports cu) sha = Some report" and "report \<noteq> []" and "evidence_items cu sha report = Some its"
  shows "\<exists>db'. attach_malware_evidence cu now inc sha db = Some (fst (add_items now inc sha report its db), db')"
  using assms by (simp add: attach_malware_evidence_def split_beta)

definition demo_report :: jdict where
  "demo_report = [(''static'', JObj [(''entropy'', JInt 7)])]"

lemma demo_items:
  "map_of (reports demo_custody) ''ab'' = Some demo_report" "demo_report \<noteq> []"
  "evidence_items demo_custody ''ab'' demo_report = Some
     [sample_item demo_custody ''ab'' demo_report,
      section_item demo_custody ''ab'' ''static_report'' ''static'' (JObj [(''entropy'', JInt 7)]),
      section_item demo_custody ''ab'' ''sandbox_report'' ''sandbox'' (JObj []),
      section_item demo_custody ''ab'' ''yara_result'' ''yara'' (JObj []),
      section_item demo_custody ''ab'' ''clamav_result'' ''av.clamav'' (JObj []),
      section_item demo_custody ''ab'' ''virustotal_result'' ''av.virustotal'' (JObj [])]"
  by (simp_all add: demo_custody_def demo_report_def evidence_items_def av_section_def get_or_empty_def)

theorem attach_malware_idempotent_witness:
  "\<exists>created db'. attach_malware_evidence demo_custody 1 ''i1'' ''ab'' empty_db = Some (created, db')
     \<and> attach_malware_evidence demo_custody 2 ''i1'' ''ab'' db' = Some ([], db')"
proof -
  obtain created db' where "attach_malware_evidence demo_custody 1 ''i1'' ''ab'' empty_db = Some (created, db')"
    using attach_runs[OF demo_items] by blast
  then show ?thesis using attach_malware_idempotent by blast
qed

theorem attached_evidence_verifies_witness:
  "\<exists>created db'. attach_malware_evidence demo_custody 1 ''i1'' ''ab'' empty_db = Some (created, db')
     \<and> (\<exists>r \<in> set created. evd_type r = ''static_report'' \<and> verified demo_custody r)"
proof -
  let ?its = "the (evidence_items demo_custody ''ab'' demo_report)"
  let ?created = "fst (add_items 1 ''i1'' ''ab'' demo_report ?its empty_db)"
  obtain db' where run: "attach_malware_evidence demo_custody 1 ''i1'' ''ab'' empty_db = Some (?created, db')"
    using attach_runs[OF demo_items, of 1 "''i1''" empty_db] by (auto simp: demo_items(3))
  let ?r = "item_row 1 ''i1'' ''ab'' demo_report (?its ! 1)"
  have r: "?r \<in> set ?created" "evd_type ?r = ''static_report''"
    by (simp_all add: demo_items(3) sample_item_def section_item_def has_evidence_def empty_db_def
        item_row_def Let_def)
  have "verified demo_custody ?r"
  proof (rule attached_evidence_verifies[OF run demo_items(1)])
    show "\<forall>(etype, ref, obj, h) \<in> set ?its. \<not> has_text obj"
      by (simp add: demo_items(3) sample_item_def section_item_def has_text_def)
  qed (use r in simp_all)
  with run r show ?thesis by blast
qed

text \<open>A note verifies exactly when it fits the 8,000 characters that are stored: the hash is
  taken of the whole text but only its beginning is kept, so a longer note fails its own
  integrity check unless the two hashes collide.\<close>

theorem note_verifies_iff:
  assumes "add_analyst_evidence cu now uuid inc etype source (Some t) None None filename added_by db
    = Some (ev, f, db')"
  shows "verified cu ev \<longleftrightarrow> sha256 cu (utf8 (take 8000 t)) = sha256 cu (utf8 t)"
proof -
  have "evd_ref ev = None" "evd_metadata ev = [(''text'', JStr (take 8000 t))]"
    "evd_content_hash ev = Some (sha256 cu (utf8 t))"
    using assms by (auto simp: add_analyst_evidence_def Let_def hash_bytes_def)
  then show ?thesis
    by (cases "evd_type ev = ''attachment''") (simp_all add: verified_def recompute_def hash_bytes_def)
qed

lemma note_added:
  "\<exists>ev f db'. add_analyst_evidence cu now uuid inc etype source (Some t) None None filename added_by db
     = Some (ev, f, db')"
  by (simp add: add_analyst_evidence_def Let_def)

lemma utf8_xs: "utf8 (replicate n (CHR ''x'')) = replicate n (CHR ''x'')"
  by (induction n) (simp_all add: utf8_def)

theorem note_verifies_iff_witness:
  "\<exists>n ev f db'. add_analyst_evidence demo_custody 1 ''u'' ''i1'' ''analyst_note'' ''analyst''
       (Some (replicate n (CHR ''x''))) None None None None empty_db = Some (ev, f, db')
     \<and> \<not> verified demo_custody ev"
proof -
  define n :: nat where "n = 8001"
  obtain ev f db' where run: "add_analyst_evidence demo_custody 1 ''u'' ''i1'' ''analyst_note'' ''analyst''
       (Some (replicate n (CHR ''x''))) None None None None empty_db = Some (ev, f, db')"
    using note_added by blast
  have "length (take 8000 (replicate n (CHR ''x''))) \<noteq> n" by (simp add: n_def)
  then have "utf8 (take 8000 (replicate n (CHR ''x''))) \<noteq> utf8 (replicate n (CHR ''x''))"
    by (metis length_replicate take_replicate utf8_xs)
  then show ?thesis
    using note_verifies_iff[OF run] run by (auto simp: demo_custody_def)
qed

section \<open>Attachments\<close>

lemma safe_char_not_slash: "\<not> safe_char (CHR ''/'')"
  by (simp add: safe_char_def is_alnum_def Let_def)

lemma safe_filename_chars: "\<forall>c \<in> set (safe_filename f). safe_char c"
proof -
  have "\<forall>c \<in> set ''attachment''. safe_char c" by (simp add: safe_char_def is_alnum_def Let_def)
  then show ?thesis
    unfolding safe_filename_def Let_def by (auto simp del: list.set dest!: in_set_takeD)
qed

text \<open>Attachments stay where they belong: whatever file name an analyst uploads, the file is
  written directly in the incident's own directory, under a name without a path separator that
  starts with the random prefix, inside the evidence directory after resolving links.\<close>

theorem attachment_contained:
  assumes "add_analyst_evidence cu now uuid inc etype source txt ref (Some b) filename added_by db
      = Some (ev, Some (path, bytes), db')"
    and "CHR ''/'' \<notin> set uuid"
  shows "bytes = b \<and> path_inside (realpath cu path) (evidence_dir cu @ ''/'' @ inc)
    \<and> (\<exists>name. path = evidence_dir cu @ ''/'' @ inc @ ''/'' @ name \<and> CHR ''/'' \<notin> set name
         \<and> starts_with (uuid @ ''_'') name \<and> length name \<le> length uuid + 121)"
proof -
  have len: "length (safe_filename filename) \<le> 120"
    by (auto simp: safe_filename_def Let_def)
  have "CHR ''/'' \<notin> set (safe_filename filename)"
    using safe_filename_chars safe_char_not_slash by blast
  moreover have "starts_with (uuid @ ''_'') (uuid @ ''_'' @ safe_filename filename)"
    using starts_with_append[of "uuid @ ''_''"] by simp
  ultimately show ?thesis
    using assms len
    by (auto simp: add_analyst_evidence_def Let_def attachment_path_def split: if_splits
        intro!: exI[of _ "uuid @ ''_'' @ safe_filename filename"])
qed

theorem attachment_contained_witness:
  "\<exists>ev path db'. add_analyst_evidence demo_custody 1 ''u7'' ''i1'' ''attachment'' ''analyst'' None None
       (Some ''data'') (Some ''../../etc/passwd'') None empty_db = Some (ev, Some (path, ''data''), db')
     \<and> path = ''/evidence/i1/u7_....etcpasswd''
     \<and> path_inside (realpath demo_custody path) ''/evidence/i1''"
proof -
  have run: "\<exists>ev db'. add_analyst_evidence demo_custody 1 ''u7'' ''i1'' ''attachment'' ''analyst'' None None
       (Some ''data'') (Some ''../../etc/passwd'') None empty_db
       = Some (ev, Some (''/evidence/i1/u7_....etcpasswd'', ''data''), db')"
    by (simp add: add_analyst_evidence_def attachment_path_def safe_filename_def safe_char_def
        is_alnum_def demo_custody_def path_inside_def starts_with_def Let_def)
  then show ?thesis
    using attachment_contained[where uuid = "''u7''" and cu = demo_custody and inc = "''i1''"]
    by (fastforce simp: demo_custody_def)
qed

end
