(* ===== verification/Correlation.thy ===== *)
theory Correlation
  imports Detection_Engine Evidence
begin

text \<open>
  The stateful part of the detection engine (\<open>backend/app/services/detection_engine.py\<close>):
  attacker sessions, the correlation of detections into incidents, and \<open>run_cycle\<close>, which reads
  the events after the cursor, stores indicators, evaluates the rules, raises or refreshes
  detections, updates the incidents and moves the cursor, in one transaction: \<open>None\<close> is an
  exception, after which the database is what it was.

  Arguments: the rule environment and the rules, the evidence environment, the UUIDs of new
  incidents by their number, and the order in which the set of touched addresses is iterated.
\<close>

definition INCIDENT_WINDOW :: time where
  "INCIDENT_WINDOW = hours 6"

definition MAX_LOOKBACK :: time where
  "MAX_LOOKBACK = hours 2"

section \<open>Correlating into an incident\<close>

type_synonym matched_events = "(string \<times> (event \<times> string)) list" \<comment> \<open>event id, event, reason\<close>

definition hash_values :: "ioc list \<Rightarrow> string list" where
  "hash_values is = concat (map (\<lambda>(k, v). if k \<in> {''sha256'', ''md5'', ''sha1''} then [v] else []) is)"

definition malware_hash_linked :: "custody \<Rightarrow> ioc list \<Rightarrow> bool" where
  "malware_hash_linked cu is \<longleftrightarrow> (\<exists>h \<in> set (hash_values is). h \<in> fst ` set (reports cu))"

definition title_for :: "string \<Rightarrow> detection list \<Rightarrow> string" where
  "title_for ip dets =
     (case sorted_set (map d_rule_name dets) of
        [] \<Rightarrow> ''High-risk activity '' @ [CHR 0xB7] @ '' '' @ ip
      | n # ns \<Rightarrow> (if ns = [] then n else n @ '' (+'' @ str_of_nat (length ns) @ '' more)'')
          @ '' '' @ [CHR 0xB7] @ '' '' @ ip)"

definition technique_objs :: "detection list \<Rightarrow> technique list" where
  "technique_objs dets =
     concat (map (\<lambda>d. case d_technique d of None \<Rightarrow> []
        | Some t \<Rightarrow> if t = [] then [] else [\<lparr>t_id = t, t_tactic = d_tactic d, t_name = d_rule_name d\<rparr>]) dets)"

fun merge_techniques :: "technique list \<Rightarrow> technique list \<Rightarrow> technique list" where
  "merge_techniques have [] = have"
| "merge_techniques have (t # ts) =
     (if t_id t \<in> t_id ` set have then merge_techniques have ts else merge_techniques (have @ [t]) ts)"

definition find_incident :: "time \<Rightarrow> string \<Rightarrow> soc_db \<Rightarrow> incident option" where
  "find_incident now ip db =
     (case sort_desc (\<lambda>i. case i_last_seen i of None \<Rightarrow> 0 | Some t \<Rightarrow> t)
        (filter (\<lambda>i. i_correlation_key i = ip \<and> i_status i \<in> set OPEN_STATUSES
           \<and> (case i_last_seen i of None \<Rightarrow> False | Some t \<Rightarrow> now - INCIDENT_WINDOW \<le> t)) (incidents db)) of
        [] \<Rightarrow> None | i # _ \<Rightarrow> Some i)"

definition new_incident ::
  "time \<Rightarrow> string \<Rightarrow> string \<Rightarrow> detection list \<Rightarrow> string list \<Rightarrow> string list \<Rightarrow> string list \<Rightarrow> soc_db \<Rightarrow> incident" where
  "new_incident now uuid ip dets users sensors reasons db =
     \<lparr>i_id = uuid, i_key = next_incident_key db, i_correlation_key = ip, i_title = title_for ip dets,
      i_severity = ''LOW'', i_status = ''NEW'', i_confidence = 1 / 2, i_risk_score = 0,
      i_breakdown = None, i_first_seen = Some now, i_last_seen = Some now, i_source_ips = [ip],
      i_users = users, i_sensors = sensors, i_techniques = technique_objs dets, i_reasons = reasons,
      i_assigned = None, i_notes = None, i_auto_created = True, i_updated_at = now\<rparr>"

definition refreshed_incident ::
  "time \<Rightarrow> string \<Rightarrow> detection list \<Rightarrow> string list \<Rightarrow> string list \<Rightarrow> string list \<Rightarrow> incident \<Rightarrow> incident" where
  "refreshed_incident now ip dets users sensors reasons i =
     i\<lparr>i_last_seen := Some now, i_source_ips := sorted_set (i_source_ips i @ [ip]),
       i_users := sorted_set (i_users i @ users), i_sensors := sorted_set (i_sensors i @ sensors),
       i_techniques := merge_techniques (i_techniques i) (technique_objs dets),
       i_reasons := sorted_set (i_reasons i @ reasons), i_updated_at := now\<rparr>"

definition claim_detections :: "string \<Rightarrow> detection list \<Rightarrow> soc_db \<Rightarrow> soc_db" where
  "claim_detections inc dets db =
     db\<lparr>detections := map (\<lambda>d. if d_id d \<in> d_id ` set dets then d\<lparr>d_incident := Some inc\<rparr> else d)
          (detections db)\<rparr>"

definition incident_detections :: "string \<Rightarrow> soc_db \<Rightarrow> detection list" where
  "incident_detections inc db = filter (\<lambda>d. d_incident d = Some inc) (detections db)"

definition link_matched :: "string \<Rightarrow> matched_events \<Rightarrow> soc_db \<Rightarrow> soc_db" where
  "link_matched inc matched db =
     db\<lparr>incident_events := incident_events db @
          concat (map (\<lambda>(eid, ev, reason). if eid \<in> set (linked_events inc db) then []
             else [\<lparr>ie_incident = inc, ie_event = eid, ie_source = ''honeypot'', ie_reason = reason\<rparr>]) matched)\<rparr>"

definition link_iocs :: "string \<Rightarrow> ioc list \<Rightarrow> soc_db \<Rightarrow> soc_db" where
  "link_iocs inc is db =
     db\<lparr>incident_iocs := incident_iocs db @
          concat (map (\<lambda>(k, v). if v \<in> set (linked_iocs inc db) then []
             else [\<lparr>ii_incident = inc, ii_type = k, ii_value = v\<rparr>]) is)\<rparr>"

fun attach_all :: "custody \<Rightarrow> time \<Rightarrow> string \<Rightarrow> string list \<Rightarrow> soc_db \<Rightarrow> soc_db" where
  "attach_all cu now inc [] db = db"
| "attach_all cu now inc (h # hs) db =
     (case attach_malware_evidence cu now inc h db of
        None \<Rightarrow> db | Some (_, db') \<Rightarrow> attach_all cu now inc hs db')"

definition incident_confidence :: "detection list \<Rightarrow> rat" where
  "incident_confidence dets =
     py_round 2 (min (99 / 100) (max_or (4 / 10) (map d_confidence dets)
       + 5 / 100 * (of_nat (length dets) - 1)))"

definition score_incident :: "detection list \<Rightarrow> rat \<Rightarrow> nat \<Rightarrow> bool \<Rightarrow> incident \<Rightarrow> incident option" where
  "score_incident dets max_event_risk session_events malware_linked i =
     (case incident_severity (map d_severity dets) max_event_risk of
        None \<Rightarrow> None
      | Some sev \<Rightarrow>
          (case incident_risk (map d_severity dets) (map t_id (i_techniques i)) max_event_risk
                  session_events malware_linked of
             (score, breakdown) \<Rightarrow>
               Some (i\<lparr>i_severity := sev, i_confidence := incident_confidence dets,
                       i_risk_score := score, i_breakdown := Some breakdown\<rparr>)))"

definition correlate ::
  "custody \<Rightarrow> time \<Rightarrow> (nat \<Rightarrow> string) \<Rightarrow> string \<Rightarrow> detection list \<Rightarrow> matched_events \<Rightarrow> ioc list
   \<Rightarrow> rat \<Rightarrow> nat \<Rightarrow> soc_db \<Rightarrow> (bool \<times> soc_db) option" where
  "correlate cu now new_id ip dets matched is max_event_risk session_events db =
     (if dets = [] \<and> max_event_risk < 80 then Some (False, db)
      else
        (let reasons = sorted_set (filter (\<lambda>r. r \<noteq> []) (map d_reason dets));
             sensors = sorted_set (filter (\<lambda>s. s \<noteq> []) (map (\<lambda>(_, e, _). e_sensor e) matched));
             users = sorted_set (concat (map (\<lambda>(_, e, _). case e_username e of None \<Rightarrow> []
                       | Some u \<Rightarrow> if u = [] then [] else [u]) matched));
             malware_linked = malware_hash_linked cu is;
             found = find_incident now ip db;
             inc = (case found of
                      None \<Rightarrow> new_incident now (new_id (length (incidents db))) ip dets users sensors reasons db
                    | Some i \<Rightarrow> refreshed_incident now ip dets users sensors reasons i);
             db = (if found = None then db\<lparr>incidents := incidents db @ [inc]\<rparr> else set_incident inc db);
             db = claim_detections (i_id inc) dets db;
             all_dets = incident_detections (i_id inc) db;
             db = link_matched (i_id inc) matched db;
             db = link_iocs (i_id inc) is db;
             db = (if malware_linked then attach_all cu now (i_id inc) (hash_values is) db else db)
         in case score_incident all_dets max_event_risk session_events malware_linked inc of
              None \<Rightarrow> None
            | Some inc \<Rightarrow>
                (let db = set_incident inc db in
                 Some (True, if found = None
                   then log_activity (i_id inc) ''detection-engine'' ''CREATE''
                     (''auto-created from '' @ str_of_nat (length dets) @ '' detection(s) on '' @ ip) now db
                   else db))))"

section \<open>Attacker sessions\<close>

definition session_risk_level :: "event list \<Rightarrow> string" where
  "session_risk_level es = (let r = max_or 0 (map event_risk es) in
     if 80 \<le> r then ''HIGH'' else if 40 \<le> r then ''MEDIUM'' else ''LOW'')"

definition update_session :: "time \<Rightarrow> string \<times> event list \<Rightarrow> soc_db \<Rightarrow> soc_db" where
  "update_session now = (\<lambda>(ip, es) db.
     if ip = [] then db else
     let mine = filter (\<lambda>e. e_source_ip e = ip) (events db);
         stamps = map e_timestamp mine; total = length mine;
         level = session_risk_level es;
         rows = sort_desc as_last_seen (filter (\<lambda>s. as_ip s = ip) (sessions db))
     in case rows of
          row # _ \<Rightarrow> db\<lparr>sessions := map (\<lambda>s. if as_session_id s = as_session_id row
             then s\<lparr>as_last_seen := (if stamps = [] then as_last_seen s else max_or 0 stamps),
                    as_total_events := total,
                    as_risk_level := (if severity_rank (case as_risk_level s of None \<Rightarrow> ''LOW''
                          | Some l \<Rightarrow> if l = [] then ''LOW'' else l) < severity_rank level
                       then Some level else as_risk_level s)\<rparr>
             else s) (sessions db)\<rparr>
        | [] \<Rightarrow> db\<lparr>sessions := sessions db @
             [\<lparr>as_session_id = ''sess-'' @ ip, as_ip = ip,
               as_first_seen = (if stamps = [] then now else Min (set stamps)),
               as_last_seen = (if stamps = [] then now else max_or 0 stamps),
               as_risk_level = Some level, as_total_events = total\<rparr>]\<rparr>)"

definition session_count :: "soc_db \<Rightarrow> string \<Rightarrow> nat" where
  "session_count db ip = length (filter (\<lambda>e. e_source_ip e = ip) (events db))"

section \<open>The cycle\<close>

definition cursor_of :: "time \<Rightarrow> soc_db \<Rightarrow> time" where
  "cursor_of now db = (case detection_cursor db of None \<Rightarrow> now - hours 1 | Some t \<Rightarrow> t)"

definition after_cursor :: "time \<Rightarrow> soc_db \<Rightarrow> event list" where
  "after_cursor now db =
     filter (\<lambda>e. case e_ingested_at e of None \<Rightarrow> False | Some t \<Rightarrow> cursor_of now db < t) (events db)"

definition new_events :: "time \<Rightarrow> soc_db \<Rightarrow> event list" where
  "new_events now db = take 3000 (sort_key (ingested now) (after_cursor now db))"

definition window_events :: "time \<Rightarrow> event list \<Rightarrow> soc_db \<Rightarrow> event list" where
  "window_events now new db =
     take 8000 (sort_key e_timestamp (filter (\<lambda>e. e_source_ip e \<in> e_source_ip ` set new \<and> e_source_ip e \<noteq> []
        \<and> now - MAX_LOOKBACK \<le> e_timestamp e) (events db)))"

definition candidates :: "rule_env \<Rightarrow> time \<Rightarrow> rule list \<Rightarrow> event list \<Rightarrow> time \<Rightarrow> candidate list option" where
  "candidates env now rules window since =
     map_option concat (traverse (\<lambda>r. evaluate_rule env now r window since) rules)"

definition candidate_ip :: "candidate \<Rightarrow> string" where
  "candidate_ip c = (if r_group_by (cd_rule c) = ''source_ip'' then cd_group c
     else (case cd_matched c of [] \<Rightarrow> [] | e # _ \<Rightarrow> e_source_ip e))"

definition make_detection :: "nat \<Rightarrow> candidate \<Rightarrow> detection" where
  "make_detection n c =
     (let r = cd_rule c in
      \<lparr>d_id = n, d_key = cd_key c, d_rule_id = r_id r, d_rule_name = r_name r,
       d_severity = r_severity r, d_confidence = r_confidence r, d_technique = r_technique r,
       d_tactic = r_tactic r, d_event_ids = take 200 (map e_id (cd_matched c)),
       d_conditions = r_selection r, d_reason = cd_reason c,
       d_source_ip = Some (candidate_ip c), d_username = cd_username c,
       d_first_event = cd_first c, d_last_event = cd_last c, d_incident = None\<rparr>)"

text \<open>A candidate whose key existed before the loop refreshes the detection; a new key is
  inserted, and a repeated new key violates the unique index (\<open>None\<close>).\<close>

definition refresh_detection :: "string \<Rightarrow> time \<Rightarrow> soc_db \<Rightarrow> soc_db" where
  "refresh_detection key stamp db =
     db\<lparr>detections := map (\<lambda>d. if d_key d = key \<and> d_last_event d < stamp
          then d\<lparr>d_last_event := stamp\<rparr> else d) (detections db)\<rparr>"

fun raise_detections ::
  "string list \<Rightarrow> candidate list \<Rightarrow> soc_db \<Rightarrow> (candidate \<times> nat) list \<Rightarrow> (soc_db \<times> (candidate \<times> nat) list) option" where
  "raise_detections existing [] db raised = Some (db, raised)"
| "raise_detections existing (c # cs) db raised =
     (if cd_key c \<in> set existing
      then raise_detections existing cs (refresh_detection (cd_key c) (cd_last c) db) raised
      else if cd_key c \<in> d_key ` set (detections db) then None
      else raise_detections existing cs
             (db\<lparr>detections := detections db @ [make_detection (length (detections db)) c]\<rparr>)
             (raised @ [(c, length (detections db))]))"

definition detection_ip :: "candidate \<Rightarrow> string" where
  "detection_ip c = (if candidate_ip c = [] then cd_group c else candidate_ip c)"

definition matched_for :: "string \<Rightarrow> (candidate \<times> nat) list \<Rightarrow> event list \<Rightarrow> matched_events" where
  "matched_for ip raised new =
     (let slot = fold (\<lambda>(c, _). fold (\<lambda>e. AList.update (e_id e) (e, cd_reason c)) (cd_matched c))
                   (filter (\<lambda>(c, _). detection_ip c = ip) raised) [];
          risky = filter (\<lambda>e. e_source_ip e = ip \<and> 80 \<le> event_risk e) new
      in fold (\<lambda>e m. if e_id e \<in> fst ` set m then m
           else m @ [(e_id e, (e, ''event risk_score '' @ str_of_int (round_half_even (event_risk e))
                  @ '' (>=80) on sensor '' @ e_sensor e))]) risky slot)"

definition correlate_ip ::
  "custody \<Rightarrow> time \<Rightarrow> (nat \<Rightarrow> string) \<Rightarrow> (candidate \<times> nat) list \<Rightarrow> event list
   \<Rightarrow> (string \<times> ioc list) list \<Rightarrow> string \<Rightarrow> soc_db \<Rightarrow> (bool \<times> soc_db) option" where
  "correlate_ip cu now new_id raised new ioc_by_ip ip db =
     (if ip = [] then Some (False, db)
      else (let ids = concat (map (\<lambda>(c, n). if detection_ip c = ip then [n] else []) raised);
                dets = filter (\<lambda>d. d_id d \<in> set ids) (detections db);
                mine = filter (\<lambda>e. e_source_ip e = ip) new
            in correlate cu now new_id ip dets (matched_for ip raised new)
                 (case map_of ioc_by_ip ip of None \<Rightarrow> [] | Some is \<Rightarrow> is)
                 (max_or 0 (map event_risk mine))
                 (if mine = [] then 0 else session_count db ip) db))"

fun correlate_ips ::
  "custody \<Rightarrow> time \<Rightarrow> (nat \<Rightarrow> string) \<Rightarrow> (candidate \<times> nat) list \<Rightarrow> event list
   \<Rightarrow> (string \<times> ioc list) list \<Rightarrow> string list \<Rightarrow> soc_db \<Rightarrow> (nat \<times> soc_db) option" where
  "correlate_ips cu now new_id raised new ioc_by_ip [] db = Some (0, db)"
| "correlate_ips cu now new_id raised new ioc_by_ip (ip # ips) db =
     Option.bind (correlate_ip cu now new_id raised new ioc_by_ip ip db) (\<lambda>(touched, db').
     map_option (\<lambda>(n, db''). (n + (if touched then 1 else 0), db''))
       (correlate_ips cu now new_id raised new ioc_by_ip ips db'))"

definition touched_ips :: "(candidate \<times> nat) list \<Rightarrow> event list \<Rightarrow> string set" where
  "touched_ips raised new =
     (\<lambda>(c, _). detection_ip c) ` set raised
     \<union> e_source_ip ` set (filter (\<lambda>e. 80 \<le> event_risk e) new)"

record cycle_env =
  ce_rules :: rule_env
  ce_custody :: custody
  ce_new_id :: "nat \<Rightarrow> string"
  ce_order :: "string set \<Rightarrow> string list"

record cycle_summary =
  cs_new_events :: nat
  cs_detections :: nat
  cs_incidents :: nat

definition run_cycle ::
  "cycle_env \<Rightarrow> time \<Rightarrow> rule list \<Rightarrow> soc_db \<Rightarrow> (cycle_summary \<times> soc_db) option" where
  "run_cycle env now rules db =
     (let cursor = cursor_of now db; new = new_events now db in
      if new = [] then Some (\<lparr>cs_new_events = 0, cs_detections = 0, cs_incidents = 0\<rparr>, db)
      else
        (let window = window_events now new db;
             (ioc_by_ip, db) = upsert_iocs new db;
             by_ip = group_on (\<lambda>e. Some (e_source_ip e)) new;
             db = fold (update_session now) by_ip db
         in Option.bind (candidates (ce_rules env) now rules window cursor) (\<lambda>cands.
            let existing = filter (\<lambda>k. k \<in> d_key ` set (detections db)) (map cd_key cands) in
            Option.bind (raise_detections existing cands db []) (\<lambda>(db, raised).
            Option.bind (correlate_ips (ce_custody env) now (ce_new_id env) raised new ioc_by_ip
               (ce_order env (touched_ips raised new)) db) (\<lambda>(n, db).
            Some (\<lparr>cs_new_events = length new, cs_detections = length raised, cs_incidents = n\<rparr>,
                  db\<lparr>detection_cursor := Some (max_or now (map (ingested now) new))\<rparr>))))))"

section \<open>Well-formed tables\<close>

definition det_wf :: "detection list \<Rightarrow> bool" where
  "det_wf ds \<longleftrightarrow> map d_id ds = [0..<length ds] \<and> distinct (map d_key ds)"

definition key_of_number :: "nat \<Rightarrow> string" where
  "key_of_number n = ''INC-'' @ zero_pad 6 (str_of_nat (n + 1))"

definition inc_wf :: "(nat \<Rightarrow> string) \<Rightarrow> incident list \<Rightarrow> bool" where
  "inc_wf new_id is \<longleftrightarrow> map i_id is = map new_id [0..<length is]
     \<and> map i_key is = map key_of_number [0..<length is]"

definition link_wf :: "incident_event list \<Rightarrow> bool" where
  "link_wf ls \<longleftrightarrow> distinct (map (\<lambda>l. (ie_incident l, ie_event l)) ls)"

definition ioc_wf :: "ioc_observation list \<Rightarrow> bool" where
  "ioc_wf os \<longleftrightarrow> distinct (map (\<lambda>r. (io_type r, io_value r)) os)
     \<and> list_all (\<lambda>r. length (io_event_ids r) \<le> 200) os"

definition evd_wf :: "evidence list \<Rightarrow> bool" where
  "evd_wf es \<longleftrightarrow> distinct (map evd_key es)"

definition soc_wf :: "(nat \<Rightarrow> string) \<Rightarrow> soc_db \<Rightarrow> bool" where
  "soc_wf new_id db \<longleftrightarrow> det_wf (detections db) \<and> inc_wf new_id (incidents db)
     \<and> link_wf (incident_events db) \<and> ioc_wf (iocs db) \<and> evd_wf (evidence_rows db)"

lemma soc_wf_empty [simp]: "soc_wf new_id empty_db"
  by (simp add: soc_wf_def empty_db_def det_wf_def inc_wf_def link_wf_def ioc_wf_def evd_wf_def)

subsection \<open>Indicators\<close>

lemma update_first_keys:
  "(\<And>r. key (f r) = key r) \<Longrightarrow> map key (update_first p f xs) = map key xs"
  by (induction xs) auto

lemma update_first_all:
  "list_all q xs \<Longrightarrow> (\<And>r. q (f r)) \<Longrightarrow> list_all q (update_first p f xs)"
  by (induction xs) auto

lemma append_ids_length: "length (append_ids old new) \<le> 200"
  by (simp add: append_ids_def)

lemma store_slot_wf: "ioc_wf os \<Longrightarrow> ioc_wf (store_slot ks os)"
proof -
  assume wf: "ioc_wf os"
  obtain kind v slot where ks: "ks = ((kind, v), slot)" by (metis surj_pair)
  show ?thesis
  proof (cases "\<exists>r \<in> set os. io_type r = kind \<and> io_value r = v")
    case True
    let ?f = "\<lambda>r. r\<lparr>io_last_seen := max (io_last_seen r) (sl_ts slot),
          io_hit_count := io_hit_count r + length (sl_event_ids slot),
          io_event_ids := append_ids (io_event_ids r) (sl_event_ids slot)\<rparr>"
    have "store_slot ks os = update_first (\<lambda>r. io_type r = kind \<and> io_value r = v) ?f os"
      using True by (simp add: store_slot_def ks Let_def)
    moreover have "map (\<lambda>r. (io_type r, io_value r)) (update_first p ?f os) = map (\<lambda>r. (io_type r, io_value r)) os"
      for p by (rule update_first_keys) simp
    moreover have "list_all (\<lambda>r. length (io_event_ids r) \<le> 200) (update_first p ?f os)" for p
      using wf by (intro update_first_all) (simp_all add: ioc_wf_def append_ids_length)
    ultimately show ?thesis using wf by (simp only: ioc_wf_def)
  next
    case False
    then show ?thesis using wf by (auto simp: store_slot_def ks Let_def ioc_wf_def)
  qed
qed

lemma fold_store_slot_wf: "ioc_wf os \<Longrightarrow> ioc_wf (fold store_slot ks os)"
  by (induction ks arbitrary: os) (simp_all add: store_slot_wf)

lemma upsert_iocs_db:
  "\<exists>by_ip ks. upsert_iocs es db = (by_ip, db\<lparr>iocs := fold store_slot ks (iocs db)\<rparr>)"
  by (cases "fold note_event es ([], [])") (auto simp: upsert_iocs_def)

subsection \<open>Incidents\<close>

lemma key_of_number_inj: "key_of_number m = key_of_number n \<longleftrightarrow> m = n"
  by (simp add: key_of_number_def zero_pad_inj)

lemma inc_wf_replace:
  assumes wf: "inc_wf new_id is" and inj: "inj new_id"
    and i0: "i0 \<in> set is" "i_id inc = i_id i0" "i_key inc = i_key i0"
  shows "inc_wf new_id (map (\<lambda>i. if i_id i = i_id inc then inc else i) is)"
proof -
  have d: "distinct (map i_id is)" using wf inj by (simp add: inc_wf_def distinct_map inj_on_def inj_def)
  have "(if i_id i = i_id inc then i_key inc else i_key i) = i_key i" if "i \<in> set is" for i
    using d that i0 by (auto simp: distinct_map inj_on_def)
  then have keys: "map i_key (map (\<lambda>i. if i_id i = i_id inc then inc else i) is) = map i_key is"
    by (auto simp: comp_def if_distrib[of i_key])
  have ids: "map i_id (map (\<lambda>i. if i_id i = i_id inc then inc else i) is) = map i_id is"
    by (auto simp: comp_def)
  show ?thesis using wf unfolding inc_wf_def keys ids length_map .
qed

lemma inc_wf_snoc:
  "inc_wf new_id is \<Longrightarrow> i_id inc = new_id (length is) \<Longrightarrow> i_key inc = key_of_number (length is) \<Longrightarrow>
   inc_wf new_id (is @ [inc])"
  by (simp add: inc_wf_def)

lemma find_incident_in:
  "find_incident now ip db = Some i \<Longrightarrow> i \<in> set (incidents db) \<and> i_correlation_key i = ip"
proof -
  let ?xs = "sort_desc (\<lambda>i. case i_last_seen i of None \<Rightarrow> 0 | Some t \<Rightarrow> t)
        (filter (\<lambda>i. i_correlation_key i = ip \<and> i_status i \<in> set OPEN_STATUSES
           \<and> (case i_last_seen i of None \<Rightarrow> False | Some t \<Rightarrow> now - INCIDENT_WINDOW \<le> t)) (incidents db))"
  assume i: "find_incident now ip db = Some i"
  have "\<exists>rest. ?xs = i # rest"
    using i unfolding find_incident_def by (cases ?xs) simp_all
  then have "i \<in> set ?xs" by (metis list.set_intros(1))
  then show ?thesis by simp
qed

lemma score_incident_keeps:
  "score_incident ds r n m i = Some j \<Longrightarrow>
   i_id j = i_id i \<and> i_key j = i_key i \<and> i_correlation_key j = i_correlation_key i"
  by (auto simp: score_incident_def split: option.splits prod.splits)

subsection \<open>Detections and links\<close>

lemma update_when_keys:
  "(\<And>d. P d \<Longrightarrow> key (f d) = key d) \<Longrightarrow> map key (map (\<lambda>d. if P d then f d else d) xs) = map key xs"
  by (induction xs) auto

lemma claim_detections_keys:
  "map d_id (detections (claim_detections inc ds db)) = map d_id (detections db)"
  "map d_key (detections (claim_detections inc ds db)) = map d_key (detections db)"
  "length (detections (claim_detections inc ds db)) = length (detections db)"
proof -
  have ds: "detections (claim_detections inc ds db)
      = map (\<lambda>d. if d_id d \<in> d_id ` set ds then d\<lparr>d_incident := Some inc\<rparr> else d) (detections db)"
    by (simp add: claim_detections_def)
  show "map d_id (detections (claim_detections inc ds db)) = map d_id (detections db)"
    unfolding ds by (rule update_when_keys) simp
  show "map d_key (detections (claim_detections inc ds db)) = map d_key (detections db)"
    unfolding ds by (rule update_when_keys) simp
  show "length (detections (claim_detections inc ds db)) = length (detections db)"
    unfolding ds by simp
qed

lemma claim_detections_wf: "det_wf (detections db) \<Longrightarrow> det_wf (detections (claim_detections inc ds db))"
  by (simp only: det_wf_def claim_detections_keys)

lemma refresh_detection_keys [simp]:
  "map d_id (detections (refresh_detection k t db)) = map d_id (detections db)"
  "map d_key (detections (refresh_detection k t db)) = map d_key (detections db)"
  by (auto simp: refresh_detection_def)

lemma refresh_detection_length [simp]:
  "length (detections (refresh_detection k t db)) = length (detections db)"
  by (simp add: refresh_detection_def)

lemma link_matched_wf:
  assumes "link_wf (incident_events db)" and "distinct (map fst matched)"
  shows "link_wf (incident_events (link_matched inc matched db))"
proof -
  let ?new = "\<lambda>ms. concat (map (\<lambda>(eid, ev, reason). if eid \<in> set (linked_events inc db) then []
             else [\<lparr>ie_incident = inc, ie_event = eid, ie_source = ''honeypot'', ie_reason = reason\<rparr>]) ms)"
  let ?key = "\<lambda>l. (ie_incident l, ie_event l)"
  have keys: "?key ` set (?new ms) \<subseteq> Pair inc ` (fst ` set ms - set (linked_events inc db))"
    for ms :: matched_events
    by (force split: if_splits)
  have fresh: "?key ` set (?new matched) \<inter> ?key ` set (incident_events db) = {}"
  proof -
    have "(inc, eid) \<notin> ?key ` set (incident_events db)" if "eid \<notin> set (linked_events inc db)" for eid
      using that by (auto simp: linked_events_def)
    then show ?thesis using keys[of matched] by blast
  qed
  have "distinct (map ?key (?new ms))" if "distinct (map fst ms)" for ms :: matched_events
    using that
  proof (induction ms)
    case (Cons m ms)
    obtain eid ev reason where m: "m = (eid, ev, reason)" by (cases m)
    have "eid \<notin> fst ` set ms" using Cons.prems m by simp
    then have "(inc, eid) \<notin> ?key ` set (?new ms)" using keys[of ms] by blast
    then show ?case using Cons by (simp add: m del: set_concat map_concat)
  qed simp
  then show ?thesis
    using assms fresh by (simp add: link_wf_def link_matched_def Int_commute del: set_concat map_concat)
qed

subsection \<open>Evidence\<close>

lemma attach_malware_frame:
  assumes "attach_malware_evidence cu now inc sha db = Some (created, db')"
  shows "detections db' = detections db \<and> incidents db' = incidents db
    \<and> incident_events db' = incident_events db \<and> iocs db' = iocs db \<and> events db' = events db
    \<and> sessions db' = sessions db \<and> detection_cursor db' = detection_cursor db
    \<and> incident_iocs db' = incident_iocs db
    \<and> (evd_wf (evidence_rows db) \<longrightarrow> evd_wf (evidence_rows db'))"
proof -
  have fr: "detections (fold insert_evidence rs d) = detections d" "incidents (fold insert_evidence rs d) = incidents d"
    "incident_events (fold insert_evidence rs d) = incident_events d" "iocs (fold insert_evidence rs d) = iocs d"
    "events (fold insert_evidence rs d) = events d" "sessions (fold insert_evidence rs d) = sessions d"
    "detection_cursor (fold insert_evidence rs d) = detection_cursor d"
    "incident_iocs (fold insert_evidence rs d) = incident_iocs d" for rs d
    by (induction rs arbitrary: d; simp add: insert_evidence_def)+
  show ?thesis
    using assms
    by (auto simp: attach_malware_evidence_def Let_def split_beta add_items_fold fr log_activity_def evd_wf_def
        evidence_table.distinct_fold_ins split: option.splits if_splits)
qed

lemma attach_all_frame:
  "detections (attach_all cu now inc hs db) = detections db \<and> incidents (attach_all cu now inc hs db) = incidents db
    \<and> incident_events (attach_all cu now inc hs db) = incident_events db \<and> iocs (attach_all cu now inc hs db) = iocs db
    \<and> events (attach_all cu now inc hs db) = events db \<and> sessions (attach_all cu now inc hs db) = sessions db
    \<and> detection_cursor (attach_all cu now inc hs db) = detection_cursor db
    \<and> incident_iocs (attach_all cu now inc hs db) = incident_iocs db
    \<and> (evd_wf (evidence_rows db) \<longrightarrow> evd_wf (evidence_rows (attach_all cu now inc hs db)))"
proof (induction hs arbitrary: db)
  case (Cons h hs)
  show ?case
  proof (cases "attach_malware_evidence cu now inc h db")
    case (Some r)
    obtain created db' where r: "r = (created, db')" by (cases r)
    from attach_malware_frame[OF Some[unfolded r]] Cons[of db'] Some r show ?thesis by auto
  qed simp
qed simp

subsection \<open>Raising\<close>

lemma refresh_detection_overwrite:
  "(refresh_detection k t db)\<lparr>detections := ds\<rparr> = db\<lparr>detections := ds\<rparr>"
  by (simp add: refresh_detection_def)

lemma detections_overwrite:
  "(db\<lparr>detections := ds\<rparr>)\<lparr>detections := ds'\<rparr> = db\<lparr>detections := ds'\<rparr>"
  by simp

lemma raise_detections_wf:
  "raise_detections ex cs db raised = Some (db', raised') \<Longrightarrow> det_wf (detections db) \<Longrightarrow>
   det_wf (detections db') \<and> db' = db\<lparr>detections := detections db'\<rparr>"
proof (induction ex cs db raised rule: raise_detections.induct)
  case (2 ex c cs db raised)
  show ?case
  proof (cases "cd_key c \<in> set ex")
    case True
    have wf: "det_wf (detections (refresh_detection (cd_key c) (cd_last c) db))"
      using "2.prems"(2) by (simp add: det_wf_def)
    have "det_wf (detections db') \<and> db' = (refresh_detection (cd_key c) (cd_last c) db)\<lparr>detections := detections db'\<rparr>"
      using "2.IH"(1)[OF True _ wf] "2.prems"(1) True by simp
    then show ?thesis unfolding refresh_detection_overwrite .
  next
    case False
    then have new: "cd_key c \<notin> d_key ` set (detections db)"
      using "2.prems"(1) by (auto split: if_splits)
    let ?db = "db\<lparr>detections := detections db @ [make_detection (length (detections db)) c]\<rparr>"
    have wf: "det_wf (detections ?db)"
      using "2.prems"(2) new by (simp add: det_wf_def make_detection_def Let_def)
    have "det_wf (detections db') \<and> db' = ?db\<lparr>detections := detections db'\<rparr>"
      using "2.IH"(2)[OF False new _ wf] "2.prems"(1) False new by simp
    then show ?thesis unfolding detections_overwrite .
  qed
qed auto

lemma distinct_update_fold:
  "distinct (map fst al) \<Longrightarrow> distinct (map fst (fold (\<lambda>e. AList.update (k e) (v e)) xs al))"
  by (induction xs arbitrary: al) (simp_all add: distinct_update)

lemma matched_for_distinct: "distinct (map fst (matched_for ip raised new))"
proof -
  have slot: "distinct (map fst (fold (\<lambda>(c, _). fold (\<lambda>e. AList.update (e_id e) (e, cd_reason c)) (cd_matched c)) rs al))"
    if "distinct (map fst al)" for rs :: "(candidate \<times> nat) list" and al
    using that by (induction rs arbitrary: al) (auto simp: distinct_update_fold)
  have "distinct (map fst (fold (\<lambda>e m. if k e \<in> fst ` set m then m else m @ [(k e, v e)]) es al))"
    if "distinct (map fst al)" for k :: "event \<Rightarrow> string" and v :: "event \<Rightarrow> event \<times> string" and es al
    using that by (induction es arbitrary: al) auto
  then show ?thesis using slot[of "[]"] by (simp add: matched_for_def Let_def)
qed

subsection \<open>Correlation\<close>

lemma claim_frame:
  "incidents (claim_detections inc ds db) = incidents db"
  "incident_events (claim_detections inc ds db) = incident_events db"
  "iocs (claim_detections inc ds db) = iocs db"
  "evidence_rows (claim_detections inc ds db) = evidence_rows db"
  by (simp_all add: claim_detections_def)

lemma link_frame [simp]:
  "incidents (link_matched inc m db) = incidents db" "detections (link_matched inc m db) = detections db"
  "iocs (link_matched inc m db) = iocs db" "evidence_rows (link_matched inc m db) = evidence_rows db"
  "incidents (link_iocs inc is db) = incidents db" "detections (link_iocs inc is db) = detections db"
  "iocs (link_iocs inc is db) = iocs db" "evidence_rows (link_iocs inc is db) = evidence_rows db"
  "incident_events (link_iocs inc is db) = incident_events db"
  by (simp_all add: link_matched_def link_iocs_def)

lemma set_incident_frame [simp]:
  "detections (set_incident inc db) = detections db" "incident_events (set_incident inc db) = incident_events db"
  "iocs (set_incident inc db) = iocs db" "evidence_rows (set_incident inc db) = evidence_rows db"
  by (simp_all add: set_incident_def)

lemma incidents_set_incident:
  "incidents (set_incident inc db) = map (\<lambda>i. if i_id i = i_id inc then inc else i) (incidents db)"
  by (simp add: set_incident_def)

lemma set_incident_wf:
  "inc_wf new_id (incidents db) \<Longrightarrow> inj new_id \<Longrightarrow> i0 \<in> set (incidents db) \<Longrightarrow> i_id inc = i_id i0 \<Longrightarrow>
   i_key inc = i_key i0 \<Longrightarrow> inc_wf new_id (incidents (set_incident inc db))"
  unfolding incidents_set_incident by (rule inc_wf_replace)

lemma log_frame [simp]:
  "detections (log_activity i a b c t db) = detections db" "incidents (log_activity i a b c t db) = incidents db"
  "incident_events (log_activity i a b c t db) = incident_events db" "iocs (log_activity i a b c t db) = iocs db"
  "evidence_rows (log_activity i a b c t db) = evidence_rows db"
  by (simp_all add: log_activity_def)

text \<open>A correlation that returns either leaves the address alone, or goes through its stages with
  a new or a refreshed incident of that address.\<close>

lemma correlate_stages:
  assumes c: "correlate cu now new_id ip dets matched is r n db = Some (touched, db')"
  obtains (skip) "dets = []" "r < 80" "db' = db"
  | (incident) inc d1 d2 d3 d4 inc' where
      "(i_id inc = new_id (length (incidents db)) \<and> i_key inc = next_incident_key db
          \<and> d1 = db\<lparr>incidents := incidents db @ [inc]\<rparr>)
        \<or> (\<exists>i \<in> set (incidents db). i_correlation_key i = ip \<and> i_id inc = i_id i \<and> i_key inc = i_key i
          \<and> d1 = set_incident inc db)"
      "i_correlation_key inc = ip"
      "d2 = claim_detections (i_id inc) dets d1"
      "d3 = link_iocs (i_id inc) is (link_matched (i_id inc) matched d2)"
      "d4 = d3 \<or> d4 = attach_all cu now (i_id inc) (hash_values is) d3"
      "i_id inc' = i_id inc" "i_key inc' = i_key inc" "i_correlation_key inc' = ip"
      "db' = set_incident inc' d4 \<or> (\<exists>a b e t. db' = log_activity (i_id inc') a b e t (set_incident inc' d4))"
proof (cases "dets = [] \<and> r < 80")
  case True
  then show thesis using c skip by (simp add: correlate_def)
next
  case False
  define reasons where "reasons = sorted_set (filter (\<lambda>r. r \<noteq> []) (map d_reason dets))"
  define sensors where "sensors = sorted_set (filter (\<lambda>s. s \<noteq> []) (map (\<lambda>(_, e, _). e_sensor e) matched))"
  define users where "users = sorted_set (concat (map (\<lambda>(_, e, _). case e_username e of None \<Rightarrow> []
                       | Some u \<Rightarrow> if u = [] then [] else [u]) matched))"
  define found where "found = find_incident now ip db"
  define inc where "inc = (case found of
      None \<Rightarrow> new_incident now (new_id (length (incidents db))) ip dets users sensors reasons db
    | Some i \<Rightarrow> refreshed_incident now ip dets users sensors reasons i)"
  define d1 where "d1 = (if found = None then db\<lparr>incidents := incidents db @ [inc]\<rparr> else set_incident inc db)"
  define d2 where "d2 = claim_detections (i_id inc) dets d1"
  define d3 where "d3 = link_iocs (i_id inc) is (link_matched (i_id inc) matched d2)"
  define d4 where "d4 = (if malware_hash_linked cu is then attach_all cu now (i_id inc) (hash_values is) d3 else d3)"
  let ?log = "\<lambda>i. log_activity (i_id i) ''detection-engine'' ''CREATE''
      (''auto-created from '' @ str_of_nat (length dets) @ '' detection(s) on '' @ ip) now"
  have "correlate cu now new_id ip dets matched is r n db =
    (case score_incident (incident_detections (i_id inc) d2) r n (malware_hash_linked cu is) inc of
       None \<Rightarrow> None
     | Some i \<Rightarrow> Some (True, if found = None then ?log i (set_incident i d4) else set_incident i d4))"
    using False
    by (simp only: correlate_def Let_def if_False
        d4_def d3_def d2_def d1_def inc_def found_def users_def sensors_def reasons_def)
  then obtain inc' where sc: "score_incident (incident_detections (i_id inc) d2) r n (malware_hash_linked cu is) inc = Some inc'"
    and db': "db' = (if found = None then ?log inc' (set_incident inc' d4) else set_incident inc' d4)"
    using c by (cases "score_incident (incident_detections (i_id inc) d2) r n (malware_hash_linked cu is) inc") simp_all
  have new: "(i_id inc = new_id (length (incidents db)) \<and> i_key inc = next_incident_key db
          \<and> d1 = db\<lparr>incidents := incidents db @ [inc]\<rparr>)
        \<or> (\<exists>i \<in> set (incidents db). i_correlation_key i = ip \<and> i_id inc = i_id i \<and> i_key inc = i_key i
          \<and> d1 = set_incident inc db)"
  proof (cases found)
    case None
    then show ?thesis by (simp add: inc_def new_incident_def d1_def)
  next
    case (Some i)
    then have "i \<in> set (incidents db) \<and> i_correlation_key i = ip"
      using find_incident_in by (simp add: found_def)
    then show ?thesis using Some by (auto simp: inc_def refreshed_incident_def d1_def)
  qed
  have ip: "i_correlation_key inc = ip"
    using find_incident_in[of now ip db]
    by (cases found) (simp_all add: inc_def new_incident_def refreshed_incident_def found_def)
  show thesis
    using incident[OF new ip d2_def d3_def, of d4 inc'] score_incident_keeps[OF sc] db' ip
    by (auto simp: d4_def split: if_splits)
qed

lemma correlate_wf:
  assumes wf: "soc_wf new_id db" and inj: "inj new_id" and m: "distinct (map fst matched)"
    and c: "correlate cu now new_id ip dets matched is r n db = Some (touched, db')"
  shows "soc_wf new_id db'"
  using c
proof (cases rule: correlate_stages)
  case (incident inc d1 d2 d3 d4 inc')
  have inc1: "inc_wf new_id (incidents d1) \<and> inc \<in> set (incidents d1)"
    using incident(1)
  proof
    assume "i_id inc = new_id (length (incidents db)) \<and> i_key inc = next_incident_key db
          \<and> d1 = db\<lparr>incidents := incidents db @ [inc]\<rparr>"
    then show ?thesis using wf by (simp add: soc_wf_def inc_wf_snoc next_incident_key_def key_of_number_def)
  next
    assume "\<exists>i \<in> set (incidents db). i_correlation_key i = ip \<and> i_id inc = i_id i \<and> i_key inc = i_key i
          \<and> d1 = set_incident inc db"
    then obtain i where i: "i \<in> set (incidents db)" "i_id inc = i_id i" "i_key inc = i_key i"
      and d1: "d1 = set_incident inc db" by blast
    have "inc \<in> set (incidents d1)"
      using i by (simp add: d1 incidents_set_incident image_iff) metis
    then show ?thesis using set_incident_wf[OF _ inj i] wf by (simp add: d1 soc_wf_def)
  qed
  have d1: "det_wf (detections d1)" "link_wf (incident_events d1)" "ioc_wf (iocs d1)" "evd_wf (evidence_rows d1)"
    using wf incident(1) by (auto simp: soc_wf_def)
  have d3: "det_wf (detections d3)" "link_wf (incident_events d3)" "ioc_wf (iocs d3)" "evd_wf (evidence_rows d3)"
      "incidents d3 = incidents d1"
    using d1 m by (simp_all add: incident(3,4) claim_detections_wf claim_frame link_matched_wf)
  have d4: "det_wf (detections d4)" "link_wf (incident_events d4)" "ioc_wf (iocs d4)" "evd_wf (evidence_rows d4)"
      "incidents d4 = incidents d1"
    using d3 incident(5) attach_all_frame[of cu now "i_id inc" "hash_values is" d3] by auto
  have "inc_wf new_id (incidents (set_incident inc' d4))"
    using set_incident_wf[OF _ inj, of d4 inc inc'] inc1 d4(5) incident(6,7) by simp
  then show ?thesis using d4 incident(9) by (auto simp: soc_wf_def)
qed (simp add: wf)

lemma correlate_ips_wf:
  assumes "inj new_id"
  shows "correlate_ips cu now new_id raised new by_ip ips db = Some (k, db') \<Longrightarrow> soc_wf new_id db \<Longrightarrow>
    soc_wf new_id db'"
proof (induction ips arbitrary: db k)
  case (Cons ip ips)
  then obtain t d n where c: "correlate_ip cu now new_id raised new by_ip ip db = Some (t, d)"
    and rest: "correlate_ips cu now new_id raised new by_ip ips d = Some (n, db')"
    by (auto simp: bind_eq_Some_conv)
  have "soc_wf new_id d"
  proof (cases "ip = []")
    case True
    then show ?thesis using c Cons.prems(2) by (simp add: correlate_ip_def)
  next
    case False
    then show ?thesis
      using c correlate_wf[OF Cons.prems(2) assms matched_for_distinct] by (simp add: correlate_ip_def Let_def)
  qed
  then show ?case using Cons.IH rest by blast
qed simp

subsection \<open>The cycle\<close>

definition same_soc :: "soc_db \<Rightarrow> soc_db \<Rightarrow> bool" where
  "same_soc db db' \<longleftrightarrow> detections db' = detections db \<and> incidents db' = incidents db
     \<and> incident_events db' = incident_events db \<and> incident_iocs db' = incident_iocs db
     \<and> evidence_rows db' = evidence_rows db \<and> events db' = events db
     \<and> detection_cursor db' = detection_cursor db"

lemma update_session_frame: "same_soc db (update_session now g db) \<and> iocs (update_session now g db) = iocs db"
proof -
  obtain ip es where g: "g = (ip, es)" by (cases g)
  show ?thesis
    by (cases "sort_desc as_last_seen (filter (\<lambda>s. as_ip s = ip) (sessions db))")
      (simp_all add: g update_session_def same_soc_def Let_def)
qed

lemma update_sessions_frame:
  "same_soc db (fold (update_session now) gs db) \<and> iocs (fold (update_session now) gs db) = iocs db"
proof (induction gs arbitrary: db)
  case (Cons g gs)
  then show ?case
    using update_session_frame[of db now g] by (simp add: same_soc_def)
qed (simp add: same_soc_def)

text \<open>A cycle that returns either found nothing, or went through all its stages.\<close>

lemma run_cycle_stages:
  assumes "run_cycle env now rules db = Some (s, db')"
  obtains (idle) "new_events now db = []" "s = \<lparr>cs_new_events = 0, cs_detections = 0, cs_incidents = 0\<rparr>" "db' = db"
  | (busy) ks by_ip d1 cands d2 raised n d3 where
      "new_events now db \<noteq> []"
      "d1 = fold (update_session now) (group_on (\<lambda>e. Some (e_source_ip e)) (new_events now db))
              (db\<lparr>iocs := fold store_slot ks (iocs db)\<rparr>)"
      "candidates (ce_rules env) now rules (window_events now (new_events now db) db) (cursor_of now db) = Some cands"
      "raise_detections (filter (\<lambda>k. k \<in> d_key ` set (detections d1)) (map cd_key cands)) cands d1 [] = Some (d2, raised)"
      "correlate_ips (ce_custody env) now (ce_new_id env) raised (new_events now db) by_ip
         (ce_order env (touched_ips raised (new_events now db))) d2 = Some (n, d3)"
      "s = \<lparr>cs_new_events = length (new_events now db), cs_detections = length raised, cs_incidents = n\<rparr>"
      "db' = d3\<lparr>detection_cursor := Some (max_or now (map (ingested now) (new_events now db)))\<rparr>"
proof (cases "new_events now db = []")
  case True
  then have "run_cycle env now rules db = Some (\<lparr>cs_new_events = 0, cs_detections = 0, cs_incidents = 0\<rparr>, db)"
    unfolding run_cycle_def Let_def by (simp only: simp_thms if_True)
  then have "s = \<lparr>cs_new_events = 0, cs_detections = 0, cs_incidents = 0\<rparr>" "db' = db"
    using assms by simp_all
  then show thesis by (rule idle[OF True])
next
  case False
  obtain by_ip ks where u: "upsert_iocs (new_events now db) db = (by_ip, db\<lparr>iocs := fold store_slot ks (iocs db)\<rparr>)"
    using upsert_iocs_db by metis
  define d1 where "d1 = fold (update_session now) (group_on (\<lambda>e. Some (e_source_ip e)) (new_events now db))
              (db\<lparr>iocs := fold store_slot ks (iocs db)\<rparr>)"
  have "run_cycle env now rules db =
    Option.bind (candidates (ce_rules env) now rules (window_events now (new_events now db) db) (cursor_of now db)) (\<lambda>cands.
    Option.bind (raise_detections (filter (\<lambda>k. k \<in> d_key ` set (detections d1)) (map cd_key cands)) cands d1 []) (\<lambda>(d2, raised).
    Option.bind (correlate_ips (ce_custody env) now (ce_new_id env) raised (new_events now db) by_ip
         (ce_order env (touched_ips raised (new_events now db))) d2) (\<lambda>(n, d3).
    Some (\<lparr>cs_new_events = length (new_events now db), cs_detections = length raised, cs_incidents = n\<rparr>,
          d3\<lparr>detection_cursor := Some (max_or now (map (ingested now) (new_events now db)))\<rparr>))))"
    unfolding run_cycle_def Let_def u d1_def by (simp only: False if_False prod.case)
  from assms[unfolded this] obtain cands d2 raised n d3 where
    "candidates (ce_rules env) now rules (window_events now (new_events now db) db) (cursor_of now db) = Some cands"
    "raise_detections (filter (\<lambda>k. k \<in> d_key ` set (detections d1)) (map cd_key cands)) cands d1 [] = Some (d2, raised)"
    "correlate_ips (ce_custody env) now (ce_new_id env) raised (new_events now db) by_ip
         (ce_order env (touched_ips raised (new_events now db))) d2 = Some (n, d3)"
    "s = \<lparr>cs_new_events = length (new_events now db), cs_detections = length raised, cs_incidents = n\<rparr>"
    "db' = d3\<lparr>detection_cursor := Some (max_or now (map (ingested now) (new_events now db)))\<rparr>"
    by (auto simp: bind_eq_Some_conv)
  then show thesis using busy[OF False d1_def] by blast
qed

lemma detections_only:
  "db' = db\<lparr>detections := ds\<rparr> \<Longrightarrow> incidents db' = incidents db \<and> incident_events db' = incident_events db
     \<and> iocs db' = iocs db \<and> evidence_rows db' = evidence_rows db \<and> events db' = events db
     \<and> incident_iocs db' = incident_iocs db \<and> detection_cursor db' = detection_cursor db"
  by simp

lemma run_cycle_wf:
  assumes "soc_wf (ce_new_id env) db" "inj (ce_new_id env)" "run_cycle env now rules db = Some (s, db')"
  shows "soc_wf (ce_new_id env) db'"
  using assms(3)
proof (cases rule: run_cycle_stages)
  case (busy ks by_ip d1 cands d2 raised n d3)
  let ?d0 = "db\<lparr>iocs := fold store_slot ks (iocs db)\<rparr>"
  have fr: "same_soc ?d0 d1" "iocs d1 = iocs ?d0"
    using busy(2) update_sessions_frame by blast+
  have d1: "soc_wf (ce_new_id env) d1"
    using assms(1) fr by (simp add: soc_wf_def same_soc_def fold_store_slot_wf)
  have r: "det_wf (detections d2)" "d2 = d1\<lparr>detections := detections d2\<rparr>"
    using raise_detections_wf[OF busy(4)] d1 by (simp_all add: soc_wf_def)
  have "soc_wf (ce_new_id env) d2" using r(1) detections_only[OF r(2)] d1 by (simp add: soc_wf_def)
  then have "soc_wf (ce_new_id env) d3" by (rule correlate_ips_wf[OF assms(2) busy(5)])
  then show ?thesis by (simp add: busy(7) soc_wf_def)
qed (simp add: assms(1))

subsection \<open>What a correlation leaves alone\<close>

definition incident_names :: "soc_db \<Rightarrow> (string \<times> string) set" where
  "incident_names db = (\<lambda>i. (i_id i, i_correlation_key i)) ` set (incidents db)"

lemma incident_names_set:
  assumes "inc_wf new_id (incidents db)" "inj new_id" "i0 \<in> set (incidents db)" "i_id inc = i_id i0"
    "i_correlation_key inc = i_correlation_key i0"
  shows "incident_names (set_incident inc db) = incident_names db"
proof -
  have "distinct (map i_id (incidents db))"
    using assms(1,2) by (simp add: inc_wf_def distinct_map inj_on_def inj_def)
  then have "i = i0" if "i \<in> set (incidents db)" "i_id i = i_id i0" for i
    using that assms(3) by (auto simp: distinct_map inj_on_def)
  then have "(\<lambda>i. (i_id i, i_correlation_key i)) (if i_id i = i_id inc then inc else i) = (i_id i, i_correlation_key i)"
    if "i \<in> set (incidents db)" for i using that assms(4,5) by auto
  then show ?thesis unfolding incident_names_def incidents_set_incident set_map image_image by (rule image_cong[OF refl])
qed

lemma incident_names_log [simp]: "incident_names (log_activity a b c d t db) = incident_names db"
  by (simp add: incident_names_def)

lemma frame_events [simp]:
  "events (set_incident inc db) = events db" "events (claim_detections a ds db) = events db"
  "events (link_iocs a is db) = events db" "events (link_matched a m db) = events db"
  "events (log_activity a b c d t db) = events db"
  "detection_cursor (set_incident inc db) = detection_cursor db"
  by (simp_all add: set_incident_def claim_detections_def link_iocs_def link_matched_def log_activity_def)

lemma correlate_effect:
  assumes wf: "soc_wf new_id db" and inj: "inj new_id"
    and c: "correlate cu now new_id ip dets matched is r n db = Some (touched, db')"
  shows "events db' = events db \<and> incident_names db \<subseteq> incident_names db'
    \<and> (dets = [] \<and> detections db' = detections db
       \<or> (\<exists>a. (a, ip) \<in> incident_names db'
          \<and> detections db' = map (\<lambda>d. if d_id d \<in> d_id ` set dets then d\<lparr>d_incident := Some a\<rparr> else d) (detections db)))"
  using c
proof (cases rule: correlate_stages)
  case (incident inc d1 d2 d3 d4 inc')
  have d1: "inc_wf new_id (incidents d1) \<and> inc \<in> set (incidents d1) \<and> incident_names db \<subseteq> incident_names d1
      \<and> detections d1 = detections db \<and> events d1 = events db"
    using incident(1)
  proof
    assume "i_id inc = new_id (length (incidents db)) \<and> i_key inc = next_incident_key db
          \<and> d1 = db\<lparr>incidents := incidents db @ [inc]\<rparr>"
    then show ?thesis using wf
      by (auto simp: soc_wf_def inc_wf_snoc next_incident_key_def key_of_number_def incident_names_def)
  next
    assume "\<exists>i \<in> set (incidents db). i_correlation_key i = ip \<and> i_id inc = i_id i \<and> i_key inc = i_key i
          \<and> d1 = set_incident inc db"
    then obtain i where i: "i \<in> set (incidents db)" "i_correlation_key i = ip" "i_id inc = i_id i" "i_key inc = i_key i"
      and d1: "d1 = set_incident inc db" by blast
    have "inc \<in> set (incidents d1)"
      using i by (simp add: d1 incidents_set_incident image_iff) metis
    then show ?thesis
      using set_incident_wf[OF _ inj i(1,3,4)] incident_names_set[OF _ inj i(1,3)] incident(2) i(2) wf
      by (simp add: d1 soc_wf_def)
  qed
  have d4: "incidents d4 = incidents d1" "detections d4 = detections d2" "events d4 = events d1"
    using incident(5) attach_all_frame[of cu now "i_id inc" "hash_values is" d3]
    by (auto simp: incident(3,4) claim_frame)
  have names: "incident_names (set_incident inc' d4) = incident_names d1"
    using incident_names_set[OF _ inj, of d4 inc inc'] d1 d4(1) incident(2,6,8)
    by (simp add: incident_names_def)
  have db': "incident_names db' = incident_names d1" "detections db' = detections d2" "events db' = events db"
    using incident(9) names d4 d1 by auto
  have "(i_id inc, ip) \<in> incident_names db'"
    unfolding db'(1) using d1 incident(2) by (auto simp: incident_names_def)
  moreover have "detections db'
      = map (\<lambda>d. if d_id d \<in> d_id ` set dets then d\<lparr>d_incident := Some (i_id inc)\<rparr> else d) (detections db)"
    using d1 by (simp add: db' incident(3) claim_detections_def)
  ultimately show ?thesis using d1 db' by blast
qed simp

text \<open>Over all addresses: the detections of an address are claimed by an incident of that address,
  the others keep what they had.\<close>

definition ip_detections :: "(candidate \<times> nat) list \<Rightarrow> string \<Rightarrow> nat set" where
  "ip_detections raised ip = {n. \<exists>c. (c, n) \<in> set raised \<and> detection_ip c = ip}"

definition claimed_for :: "(candidate \<times> nat) list \<Rightarrow> string list \<Rightarrow> soc_db \<Rightarrow> bool" where
  "claimed_for raised ips db \<longleftrightarrow> (\<forall>ip \<in> set ips. \<forall>d \<in> set (detections db). ip \<noteq> [] \<longrightarrow> d_id d \<in> ip_detections raised ip
     \<longrightarrow> (\<exists>a. d_incident d = Some a \<and> (a, ip) \<in> incident_names db))"

lemma claimed_for_map:
  assumes seen: "claimed_for raised seen db" and names: "incident_names db \<subseteq> incident_names db'" "(a, ip) \<in> incident_names db'"
    and disj: "\<And>ip'. ip' \<noteq> ip \<Longrightarrow> ip_detections raised ip' \<inter> ip_detections raised ip = {}"
    and ds: "detections db' = map (\<lambda>d. if d_id d \<in> M then d\<lparr>d_incident := Some a\<rparr> else d) (detections db)"
    and mine: "\<And>x. x \<in> set (detections db) \<Longrightarrow> d_id x \<in> M \<longleftrightarrow> d_id x \<in> ip_detections raised ip"
  shows "claimed_for raised (seen @ [ip]) db'"
  unfolding claimed_for_def
proof (intro ballI impI)
  fix ip' y assume ip': "ip' \<in> set (seen @ [ip])" "ip' \<noteq> []"
    and y: "y \<in> set (detections db')" "d_id y \<in> ip_detections raised ip'"
  then obtain x where x: "x \<in> set (detections db)"
    "y = (if d_id x \<in> M then x\<lparr>d_incident := Some a\<rparr> else x)" by (auto simp: ds)
  show "\<exists>a. d_incident y = Some a \<and> (a, ip') \<in> incident_names db'"
  proof (cases "ip' = ip")
    case True
    then show ?thesis using x y(2) names(2) mine[OF x(1)] by (auto split: if_splits)
  next
    case False
    then have "d_id x \<notin> ip_detections raised ip" using disj[OF False] x(2) y(2) by (auto split: if_splits)
    then have "y = x" using x mine by simp
    then show ?thesis using seen names(1) ip' x(1) y(2) False by (force simp: claimed_for_def)
  qed
qed

lemma correlate_ip_claim:
  assumes inj: "inj new_id" and wf: "soc_wf new_id db"
    and disj: "\<And>ip'. ip' \<noteq> ip \<Longrightarrow> ip_detections raised ip' \<inter> ip_detections raised ip = {}"
    and c: "correlate_ip cu now new_id raised new by_ip ip db = Some (t, d)"
    and seen: "claimed_for raised seen db"
  shows "soc_wf new_id d \<and> claimed_for raised (seen @ [ip]) d \<and> events d = events db
      \<and> map d_id (detections d) = map d_id (detections db) \<and> map d_key (detections d) = map d_key (detections db)
      \<and> map d_source_ip (detections d) = map d_source_ip (detections db)"
proof (cases "ip = []")
  case True
  then show ?thesis using c seen wf by (simp add: correlate_ip_def claimed_for_def)
next
  case False
  define dets where "dets = filter (\<lambda>d. d_id d \<in> ip_detections raised ip) (detections db)"
  have "set (concat (map (\<lambda>(c, n). if detection_ip c = ip then [n] else []) raised)) = ip_detections raised ip"
    by (auto simp: ip_detections_def split: if_splits)
  then obtain "is" r n where c': "correlate cu now new_id ip dets (matched_for ip raised new) is r n db = Some (t, d)"
    using c False by (auto simp: correlate_ip_def Let_def dets_def)
  have d: "soc_wf new_id d"
    by (rule correlate_wf[OF wf inj matched_for_distinct c'])
  consider (none) "dets = []" "detections d = detections db" "events d = events db" "incident_names db \<subseteq> incident_names d"
    | (some) a where "(a, ip) \<in> incident_names d" "events d = events db" "incident_names db \<subseteq> incident_names d"
      "detections d = map (\<lambda>d. if d_id d \<in> d_id ` set dets then d\<lparr>d_incident := Some a\<rparr> else d) (detections db)"
    using correlate_effect[OF wf inj c'] by (elim conjE disjE exE; blast)
  then show ?thesis
  proof cases
    case none
    then have "claimed_for raised (seen @ [ip]) d"
      using seen by (force simp: claimed_for_def dets_def filter_empty_conv)
    then show ?thesis using d none by simp
  next
    case (some a)
    have "claimed_for raised (seen @ [ip]) d"
      by (rule claimed_for_map[OF seen some(3,1) disj some(4)]) (auto simp: dets_def)
    moreover have "map d_id (detections d) = map d_id (detections db)" "map d_key (detections d) = map d_key (detections db)"
      "map d_source_ip (detections d) = map d_source_ip (detections db)"
      unfolding some(4) by (rule update_when_keys, simp)+
    ultimately show ?thesis using d some by simp
  qed
qed

lemma correlate_ips_claim:
  assumes inj: "inj new_id"
    and disj: "\<And>ip ip'. ip \<noteq> ip' \<Longrightarrow> ip_detections raised ip \<inter> ip_detections raised ip' = {}"
  shows "correlate_ips cu now new_id raised new by_ip ips db = Some (k, db') \<Longrightarrow> soc_wf new_id db \<Longrightarrow>
    claimed_for raised seen db \<Longrightarrow>
    claimed_for raised (seen @ ips) db' \<and> events db' = events db
    \<and> map d_id (detections db') = map d_id (detections db) \<and> map d_key (detections db') = map d_key (detections db)
    \<and> map d_source_ip (detections db') = map d_source_ip (detections db)"
proof (induction ips arbitrary: db k seen)
  case (Cons ip ips)
  then obtain t d n where c: "correlate_ip cu now new_id raised new by_ip ip db = Some (t, d)"
    and rest: "correlate_ips cu now new_id raised new by_ip ips d = Some (n, db')"
    by (auto simp: bind_eq_Some_conv)
  have "soc_wf new_id d \<and> claimed_for raised (seen @ [ip]) d \<and> events d = events db
      \<and> map d_id (detections d) = map d_id (detections db) \<and> map d_key (detections d) = map d_key (detections db)
      \<and> map d_source_ip (detections d) = map d_source_ip (detections db)"
    by (rule correlate_ip_claim[OF inj Cons.prems(2) disj c Cons.prems(3)])
  then show ?case using Cons.IH[OF rest, of "seen @ [ip]"] by simp
qed simp

subsection \<open>What raising does\<close>

definition raised_rows :: "detection list \<Rightarrow> (candidate \<times> nat) list \<Rightarrow> bool" where
  "raised_rows ds raised \<longleftrightarrow>
     list_all (\<lambda>(c, n). n < length ds \<and> map d_source_ip ds ! n = Some (candidate_ip c)) raised"

lemma raised_rows_append: "raised_rows ds raised \<Longrightarrow> raised_rows (ds @ ds') raised"
  by (auto simp: raised_rows_def list_all_iff nth_append)

lemma refresh_detection_ips [simp]:
  "map d_source_ip (detections (refresh_detection k t db)) = map d_source_ip (detections db)"
  by (auto simp: refresh_detection_def)

lemma raised_rows_refresh: "raised_rows (detections (refresh_detection k t db)) raised = raised_rows (detections db) raised"
  by (simp only: raised_rows_def refresh_detection_ips refresh_detection_length)

lemma refresh_detection_key_set [simp]:
  "d_key ` set (detections (refresh_detection k t db)) = d_key ` set (detections db)"
  by (metis refresh_detection_keys(2) set_map)

lemma raise_detections_effect:
  "raise_detections ex cs db raised = Some (db', raised') \<Longrightarrow> set ex \<subseteq> d_key ` set (detections db) \<Longrightarrow>
   map snd raised = [k..<length (detections db)] \<Longrightarrow> k \<le> length (detections db) \<Longrightarrow> raised_rows (detections db) raised \<Longrightarrow>
   d_key ` set (detections db') = d_key ` set (detections db) \<union> cd_key ` set cs
   \<and> map snd raised' = [k..<length (detections db')] \<and> k \<le> length (detections db') \<and> raised_rows (detections db') raised'"
proof (induction ex cs db raised rule: raise_detections.induct)
  case (2 ex c cs db raised)
  show ?case
  proof (cases "cd_key c \<in> set ex")
    case True
    then show ?thesis
      using "2.IH"(1)[OF True] "2.prems" by (auto simp del: map_eq_conv simp: raised_rows_refresh)
  next
    case False
    then have new: "cd_key c \<notin> d_key ` set (detections db)"
      using "2.prems"(1) by (auto split: if_splits)
    let ?row = "make_detection (length (detections db)) c"
    have "raised_rows (detections db @ [?row]) (raised @ [(c, length (detections db))])"
      using raised_rows_append[OF "2.prems"(5), of "[?row]"]
      by (simp add: raised_rows_def nth_append make_detection_def Let_def)
    moreover have "d_key ?row = cd_key c" by (simp add: make_detection_def Let_def)
    ultimately show ?thesis
      using "2.IH"(2)[OF False new] "2.prems"(1-4) False new by auto
  qed
qed auto

section \<open>The engine as a machine\<close>

text \<open>What happens to the tables: the collector inserts events, the engine loop runs a cycle. A
  cycle that raises is rolled back by the session it ran in.\<close>

datatype soc_input =
    Ingest "event list"
  | Cycle time "rule list"

fun soc_step :: "cycle_env \<Rightarrow> soc_db \<Rightarrow> soc_input \<Rightarrow> soc_db" where
  "soc_step env db (Ingest es) = db\<lparr>events := events db @ es\<rparr>"
| "soc_step env db (Cycle now rules) =
     (case run_cycle env now rules db of None \<Rightarrow> db | Some (_, db') \<Rightarrow> db')"

interpretation soc: event_machine "soc_step env" "\<lambda>db. inj (ce_new_id env) \<longrightarrow> soc_wf (ce_new_id env) db" for env
proof
  fix db st
  assume wf: "inj (ce_new_id env) \<longrightarrow> soc_wf (ce_new_id env) db"
  show "inj (ce_new_id env) \<longrightarrow> soc_wf (ce_new_id env) (soc_step env db st)"
  proof (cases st)
    case (Cycle now rules)
    then show ?thesis using wf run_cycle_wf[of env db now rules] by (auto split: option.splits)
  qed (use wf in \<open>simp add: soc_wf_def\<close>)
qed

text \<open>However events arrive and cycles run, from empty tables and with any rules, the tables
  keep what the rest of the application relies on: detection keys are unique (the same rule,
  source and time bucket is raised once), incidents are numbered without gap or repetition, no
  event is linked twice to an incident, an indicator has one row with at most 200 event ids, and
  no evidence is recorded twice.\<close>

theorem soc_tables_well_formed:
  "inj (ce_new_id env) \<Longrightarrow> soc_wf (ce_new_id env) (foldl (soc_step env) empty_db steps)"
  using soc.run_inv[of env empty_db steps] by simp

lemma run_cycle_effect:
  assumes wf: "soc_wf (ce_new_id env) db" and inj: "inj (ce_new_id env)"
    and order: "\<And>S. finite S \<Longrightarrow> set (ce_order env S) = S"
    and run: "run_cycle env now rules db = Some (s, db')" and new: "new_events now db \<noteq> []"
  shows "events db' = events db \<and> detection_cursor db' = Some (max_or now (map (ingested now) (new_events now db)))
    \<and> (\<exists>cands raised d3. candidates (ce_rules env) now rules (window_events now (new_events now db) db) (cursor_of now db) = Some cands
      \<and> d_key ` set (detections db') = d_key ` set (detections db) \<union> cd_key ` set cands
      \<and> map snd raised = [length (detections db)..<length (detections db')] \<and> length (detections db) \<le> length (detections db')
      \<and> raised_rows (detections db') raised \<and> cs_detections s = length raised
      \<and> claimed_for raised (map (detection_ip \<circ> fst) raised) db')"
  using run
proof (cases rule: run_cycle_stages)
  case (busy ks by_ip d1 cands d2 raised n d3)
  let ?d0 = "db\<lparr>iocs := fold store_slot ks (iocs db)\<rparr>"
  let ?order = "ce_order env (touched_ips raised (new_events now db))"
  have fr: "same_soc ?d0 d1" "iocs d1 = iocs ?d0"
    using busy(2) update_sessions_frame by blast+
  have d1: "soc_wf (ce_new_id env) d1"
    using wf fr by (simp add: soc_wf_def same_soc_def fold_store_slot_wf)
  have r: "det_wf (detections d2)" "d2 = d1\<lparr>detections := detections d2\<rparr>"
    using raise_detections_wf[OF busy(4)] d1 by (simp_all add: soc_wf_def)
  have d2: "soc_wf (ce_new_id env) d2" "events d2 = events db"
    using r(1) detections_only[OF r(2)] d1 fr by (simp_all add: soc_wf_def same_soc_def)
  have eff: "d_key ` set (detections d2) = d_key ` set (detections d1) \<union> cd_key ` set cands
      \<and> map snd raised = [length (detections d1)..<length (detections d2)] \<and> length (detections d1) \<le> length (detections d2)
      \<and> raised_rows (detections d2) raised"
    by (rule raise_detections_effect[OF busy(4)]) (auto simp: raised_rows_def)
  have "distinct (map snd raised)" using eff by simp
  then have disj: "ip_detections raised ip \<inter> ip_detections raised ip' = {}" if "ip \<noteq> ip'" for ip ip'
    using that by (fastforce simp: ip_detections_def distinct_map inj_on_def)
  have cl: "claimed_for raised ([] @ ?order) d3 \<and> events d3 = events d2
    \<and> map d_id (detections d3) = map d_id (detections d2) \<and> map d_key (detections d3) = map d_key (detections d2)
    \<and> map d_source_ip (detections d3) = map d_source_ip (detections d2)"
    by (rule correlate_ips_claim[OF inj disj busy(5) d2(1)]) (auto simp: claimed_for_def)
  have len: "length (detections d3) = length (detections d2)" using cl by (metis length_map)
  have keys: "d_key ` set (detections d3) = d_key ` set (detections d2)" using cl by (metis set_map)
  have "finite (touched_ips raised (new_events now db))" by (simp add: touched_ips_def)
  then have "set (map (detection_ip \<circ> fst) raised) \<subseteq> set ?order"
    by (auto simp: order touched_ips_def split_beta)
  then have "claimed_for raised (map (detection_ip \<circ> fst) raised) d3"
    using cl unfolding claimed_for_def append_Nil by blast
  moreover have "raised_rows (detections d3) raised"
    using eff cl len by (simp add: raised_rows_def del: map_eq_conv)
  moreover have "detections d1 = detections db" using fr by (simp add: same_soc_def)
  ultimately show ?thesis
    using busy cl eff keys len d2 by (auto simp: claimed_for_def incident_names_def)
qed (simp add: new)

text \<open>C6. A cycle that succeeds loses no alert: every candidate the rules produced has a detection
  afterwards, the summary counts exactly the rows that were added, and every added detection with
  a source address is claimed by an incident of that very address.\<close>

theorem cycle_raises_and_claims:
  assumes wf: "soc_wf (ce_new_id env) db" and inj: "inj (ce_new_id env)"
    and order: "\<And>S. finite S \<Longrightarrow> set (ce_order env S) = S"
    and run: "run_cycle env now rules db = Some (s, db')" and new: "new_events now db \<noteq> []"
    and cands: "candidates (ce_rules env) now rules (window_events now (new_events now db) db) (cursor_of now db) = Some cands"
  shows "cd_key ` set cands \<subseteq> d_key ` set (detections db')
    \<and> length (detections db') = length (detections db) + cs_detections s
    \<and> (\<forall>d \<in> set (drop (length (detections db)) (detections db')). \<forall>ip. d_source_ip d = Some ip \<longrightarrow> ip \<noteq> [] \<longrightarrow>
         (\<exists>i \<in> set (incidents db'). d_incident d = Some (i_id i) \<and> i_correlation_key i = ip))"
proof -
  let ?k = "length (detections db)" and ?ds = "detections db'"
  obtain raised where r: "d_key ` set ?ds = d_key ` set (detections db) \<union> cd_key ` set cands"
      "map snd raised = [?k..<length ?ds]" "?k \<le> length ?ds" "raised_rows ?ds raised" "cs_detections s = length raised"
      "claimed_for raised (map (detection_ip \<circ> fst) raised) db'"
    using run_cycle_effect[OF wf inj order run new] cands by auto
  have count: "length ?ds = ?k + cs_detections s"
    using r(2,3,5) by (metis length_map length_upt le_add_diff_inverse)
  have ids: "map d_id ?ds = [0..<length ?ds]"
    using run_cycle_wf[OF wf inj run] by (simp add: soc_wf_def det_wf_def)
  have "\<exists>i \<in> set (incidents db'). d_incident d = Some (i_id i) \<and> i_correlation_key i = ip"
    if d: "d \<in> set (drop ?k ?ds)" "d_source_ip d = Some ip" "ip \<noteq> []" for d ip
  proof -
    obtain n where n: "?k \<le> n" "n < length ?ds" "d = ?ds ! n"
      using d(1) by (auto simp: in_set_conv_nth) (metis add.commute le_add2 less_diff_conv)
    then have "n \<in> set (map snd raised)" by (simp add: r(2))
    then obtain c where c: "(c, n) \<in> set raised" by auto
    have "candidate_ip c = ip" using r(4) c n d(2) by (auto simp: raised_rows_def list_all_iff)
    then have ip: "detection_ip c = ip" using d(3) by (simp add: detection_ip_def)
    have "d_id d = n" using arg_cong[OF ids, of "\<lambda>xs. xs ! n"] n by simp
    then have "d_id d \<in> ip_detections raised ip" using c ip by (auto simp: ip_detections_def)
    moreover have "ip \<in> set (map (detection_ip \<circ> fst) raised)" using c ip by force
    ultimately show ?thesis
      using r(6) n d(3) by (fastforce simp: claimed_for_def incident_names_def)
  qed
  then show ?thesis using r(1) count by auto
qed

text \<open>C18. A successful cycle consumes its batch: none of the events it read is read again by a later
  cycle, and exactly the events that arrived after the newest one of the batch are still to come.
  When at most 3000 events were waiting, a second cycle finds nothing and changes nothing.\<close>

theorem cycle_consumes_the_batch:
  assumes wf: "soc_wf (ce_new_id env) db" and inj: "inj (ce_new_id env)"
    and order: "\<And>S. finite S \<Longrightarrow> set (ce_order env S) = S"
    and run: "run_cycle env now rules db = Some (s, db')" and new: "new_events now db \<noteq> []"
  shows "after_cursor later db'
      = filter (\<lambda>e. max_or now (map (ingested now) (new_events now db)) < ingested now e) (after_cursor now db)
    \<and> set (new_events now db) \<inter> set (after_cursor later db') = {}
    \<and> (length (after_cursor now db) \<le> 3000 \<longrightarrow>
        run_cycle env later rules' db' = Some (\<lparr>cs_new_events = 0, cs_detections = 0, cs_incidents = 0\<rparr>, db'))"
proof -
  let ?new = "new_events now db" and ?M = "max_or now (map (ingested now) (new_events now db))"
  have eff: "events db' = events db" "detection_cursor db' = Some ?M"
    using run_cycle_effect[OF wf inj order run new] by auto
  have in_new: "cursor_of now db < ingested now e \<and> e \<in> set (after_cursor now db)" if "e \<in> set ?new" for e
    using that by (auto simp: new_events_def after_cursor_def ingested_def dest!: in_set_takeD split: option.splits)
  have "?M \<in> set (map (ingested now) ?new)" using new by (intro max_or_in_list) simp
  then have M: "cursor_of now db < ?M" using in_new by auto
  have all: "after_cursor later db' = filter (\<lambda>e. ?M < ingested now e) (after_cursor now db)"
    using M by (auto simp: after_cursor_def cursor_of_def[of later] eff ingested_def intro!: filter_cong split: option.splits)
  have le: "ingested now e \<le> ?M" if "e \<in> set ?new" for e
    using that by (intro max_or_ge) simp
  have "run_cycle env later rules' db' = Some (\<lparr>cs_new_events = 0, cs_detections = 0, cs_incidents = 0\<rparr>, db')"
    if "length (after_cursor now db) \<le> 3000"
  proof -
    have "set ?new = set (after_cursor now db)" using that by (simp add: new_events_def)
    then have "after_cursor later db' = []" using le by (force simp: all filter_empty_conv)
    then have "new_events later db' = []" by (simp add: new_events_def)
    then show ?thesis by (simp add: run_cycle_def)
  qed
  then show ?thesis using all le by force
qed

definition demo_cycle_env :: cycle_env where
  "demo_cycle_env = \<lparr>ce_rules = demo_env, ce_custody = demo_custody, ce_new_id = str_of_nat,
     ce_order = sorted_list_of_set\<rparr>"

definition any_event_rule :: rule where
  "any_event_rule = demo_rule\<lparr>r_sequence := False, r_conditions := []\<rparr>"

definition demo_db :: soc_db where
  "demo_db = empty_db\<lparr>events := [(sample_event ''a'' 1 ''FAILURE'')
     \<lparr>e_ingested_at := Some 5, e_source_ip := ''10.0.0.9'', e_username := None\<rparr>]\<rparr>"

lemma demo_cycle_runs:
  "\<exists>s db'. run_cycle demo_cycle_env 6 [any_event_rule] demo_db = Some (s, db') \<and> cs_detections s = 1"
proof -
  have "map_option (cs_detections \<circ> fst) (run_cycle demo_cycle_env 6 [any_event_rule] demo_db) = Some 1"
    by code_simp
  then show ?thesis by auto
qed

lemma demo_wf:
  "soc_wf (ce_new_id demo_cycle_env) demo_db" "inj (ce_new_id demo_cycle_env)"
  "finite S \<Longrightarrow> set (ce_order demo_cycle_env S) = S" "new_events 6 demo_db \<noteq> []"
proof -
  show "soc_wf (ce_new_id demo_cycle_env) demo_db"
    by (simp add: soc_wf_def demo_db_def empty_db_def det_wf_def inc_wf_def link_wf_def ioc_wf_def evd_wf_def)
  show "inj (ce_new_id demo_cycle_env)" by (simp add: demo_cycle_env_def inj_def)
  show "finite S \<Longrightarrow> set (ce_order demo_cycle_env S) = S" by (simp add: demo_cycle_env_def)
  show "new_events 6 demo_db \<noteq> []"
    by (simp add: new_events_def after_cursor_def demo_db_def cursor_of_def empty_db_def sample_event_def time_defs)
qed

theorem soc_tables_well_formed_witness:
  "soc_wf (ce_new_id demo_cycle_env) (foldl (soc_step demo_cycle_env) empty_db
     [Ingest (events demo_db), Cycle 6 [any_event_rule]])"
  by (rule soc_tables_well_formed[OF demo_wf(2)])

theorem cycle_raises_and_claims_witness:
  "\<exists>s db'. run_cycle demo_cycle_env 6 [any_event_rule] demo_db = Some (s, db') \<and> length (detections db') = 1"
proof -
  obtain s db' where run: "run_cycle demo_cycle_env 6 [any_event_rule] demo_db = Some (s, db')" "cs_detections s = 1"
    using demo_cycle_runs by blast
  from run(1) obtain cands where
    "candidates (ce_rules demo_cycle_env) 6 [any_event_rule]
       (window_events 6 (new_events 6 demo_db) demo_db) (cursor_of 6 demo_db) = Some cands"
    by (cases rule: run_cycle_stages) (use demo_wf(4) in auto)
  from cycle_raises_and_claims[OF demo_wf(1-3) run(1) demo_wf(4) this] run
  show ?thesis by (auto simp: demo_db_def empty_db_def)
qed

theorem cycle_consumes_the_batch_witness:
  "\<exists>s db'. run_cycle demo_cycle_env 6 [any_event_rule] demo_db = Some (s, db')
     \<and> set (new_events 6 demo_db) \<inter> set (after_cursor 7 db') = {}"
proof -
  obtain s db' where run: "run_cycle demo_cycle_env 6 [any_event_rule] demo_db = Some (s, db')"
    using demo_cycle_runs by blast
  from cycle_consumes_the_batch[OF demo_wf(1-3) run demo_wf(4)] run show ?thesis by blast
qed

section \<open>Limits of a cycle\<close>

text \<open>The batch is cut at 3000 events and the cursor moves to the newest time it contains: an event
  left out that was ingested at that very time is never read.\<close>

lemma late_tie_is_lost:
  assumes "soc_wf (ce_new_id env) db" "inj (ce_new_id env)" "\<And>S. finite S \<Longrightarrow> set (ce_order env S) = S"
    and "run_cycle env now rules db = Some (s, db')" "new_events now db \<noteq> []"
    and "ingested now e = max_or now (map (ingested now) (new_events now db))"
  shows "e \<notin> set (after_cursor later db')"
  using cycle_consumes_the_batch[OF assms(1-5), of later] assms(6) by auto

text \<open>The window the rules see is the oldest 8000 events of the touched addresses: when that many
  are older than everything new, no rule can fire.\<close>

lemma take_sort_key_split:
  assumes "n \<le> length (filter P xs)" "\<And>x y. x \<in> set xs \<Longrightarrow> y \<in> set xs \<Longrightarrow> P x \<Longrightarrow> \<not> P y \<Longrightarrow> f x < f y"
  shows "set (take n (sort_key f xs)) \<subseteq> {x. P x}"
proof
  let ?ys = "sort_key f xs"
  fix y assume "y \<in> set (take n ?ys)"
  then obtain i where i: "i < n" "i < length ?ys" "y = ?ys ! i"
    by (auto simp: in_set_conv_nth)
  show "y \<in> {x. P x}"
  proof (rule ccontr)
    assume y: "y \<notin> {x. P x}"
    have "f y \<le> f z" if z: "z \<in> set (drop i ?ys)" for z
    proof -
      obtain j where "z = ?ys ! (i + j)" "i + j < length ?ys"
        using z by (auto simp: in_set_conv_nth)
      then show ?thesis using i sorted_nth_mono[of "map f ?ys" i "i + j"] by simp
    qed
    moreover have "y \<in> set xs" using i by (metis nth_mem set_sort)
    moreover have "z \<in> set xs" if "z \<in> set (drop i ?ys)" for z
      using in_set_dropD[OF that] by simp
    ultimately have "filter P (drop i ?ys) = []"
      using assms(2) y by (fastforce simp: filter_empty_conv)
    then have "length (filter P ?ys) = length (filter P (take i ?ys))"
      by (metis append.right_neutral append_take_drop_id filter_append)
    also have "\<dots> \<le> i" by (metis length_filter_le length_take min.bounded_iff)
    finally have "length (filter P xs) \<le> i" by (simp add: filter_sort)
    then show False using assms(1) i(1) by simp
  qed
qed

lemma flood_blinds_rules:
  assumes "8000 \<le> length (filter (\<lambda>e. ingested now e \<le> cursor_of now db)
      (filter (\<lambda>e. e_source_ip e \<in> e_source_ip ` set new \<and> e_source_ip e \<noteq> [] \<and> now - MAX_LOOKBACK \<le> e_timestamp e) (events db)))"
    and "\<And>old e. old \<in> set (events db) \<Longrightarrow> e \<in> set (events db) \<Longrightarrow> ingested now old \<le> cursor_of now db \<Longrightarrow>
      cursor_of now db < ingested now e \<Longrightarrow> e_timestamp old < e_timestamp e"
  shows "candidates env now rules (window_events now new db) (cursor_of now db) = Some []"
proof -
  let ?w = "window_events now new db" and ?since = "cursor_of now db"
  have "set ?w \<subseteq> {e. ingested now e \<le> ?since}"
    unfolding window_events_def by (rule take_sort_key_split[OF assms(1)]) (use assms(2) in auto)
  then have old: "\<not> (\<exists>e \<in> set es. ?since < ingested now e)" if "set es \<subseteq> set ?w" for es
    using that by fastforce
  have "evaluate_group env now r ?since g = Some []" if "g \<in> set (group_on (group_key env r) ?w)" for r g
  proof -
    obtain k es where g: "g = (k, es)" by (cases g)
    have "es = filter (\<lambda>x. group_key env r x = Some k) ?w" using that unfolding g in_group_on by blast
    then have "set (filter (\<lambda>e. now - r_timeframe r \<le> e_timestamp e) (sort_key e_timestamp es)) \<subseteq> set ?w"
      by (metis filter_is_subset set_sort subset_trans)
    from old[OF this] show ?thesis
      by (simp only: evaluate_group_def g prod.case Let_def simp_thms if_True)
  qed
  then have "traverse (evaluate_group env now r ?since) gs = Some (replicate (length gs) [])"
    if "set gs \<subseteq> set (group_on (group_key env r) ?w)" for r gs
    using that by (induction gs) auto
  then have "evaluate_rule env now r ?w ?since = Some []" for r
    by (simp add: evaluate_rule_def)
  then have "traverse (\<lambda>r. evaluate_rule env now r ?w ?since) rs = Some (replicate (length rs) [])" for rs
    by (induction rs) auto
  then show ?thesis by (simp add: candidates_def)
qed

end
