(* ===== verification/Accounts.thy ===== *)
theory Accounts
  imports Prelude
begin

text \<open>
  User accounts and who may do what: \<open>backend/app/services/auth_service.py\<close>,
  \<open>backend/app/api/v1/dependencies.py\<close> and the endpoints \<open>auth.py\<close> and \<open>users.py\<close> of
  \<open>backend/app/api/v1/endpoints\<close>.

  An operation takes the tables and returns its reply, an HTTP error (status, detail) or a
  value, with the tables it leaves: an error raised before a commit leaves them alone. Arguments
  of the environment: bcrypt, the JWT library, the collation of the database (two texts are equal
  for it when their collations are), the process environment, and the text of a driver error.
  The clock, new UUIDs, random codes and the outcome of sending an email are arguments of the
  operations.
\<close>

record user =
  u_id :: string
  u_username :: string
  u_email :: string
  u_hash :: string
  u_first :: "string option"
  u_last :: "string option"
  u_department :: "string option"
  u_clearance :: "int option"
  u_requested :: "int option"
  u_role :: "string option"
  u_status :: "string option"
  u_otp :: "string option"
  u_otp_expires :: "time option"
  u_system_code :: "string option"
  u_last_login :: "time option"

record credential_token =
  ct_id :: string
  ct_username :: string
  ct_token :: string
  ct_issued_by :: "string option"
  ct_expires :: time
  ct_used :: bool
  ct_used_at :: "time option"
  ct_force :: bool

record credential_audit =
  ca_id :: string
  ca_username :: string
  ca_email :: "string option"
  ca_phone :: "string option"
  ca_issued_by :: "string option"
  ca_issuer :: string
  ca_delivery :: string
  ca_email_status :: string
  ca_whatsapp_status :: string
  ca_token_id :: "string option"
  ca_token_status :: string
  ca_message :: string
  ca_admin_ip :: string

record access_entry =
  ae_admin :: string
  ae_target :: "string option"
  ae_action :: string
  ae_details :: string

record admin_entry =
  ad_admin :: string
  ad_name :: string
  ad_action :: string
  ad_user :: string
  ad_ip :: string
  ad_time :: time
  ad_result :: string
  ad_details :: string

record identity_db =
  users :: "user list"
  tokens :: "credential_token list"
  audits :: "credential_audit list"
  access_log :: "access_entry list"
  admin_entries :: "admin_entry list"

record claims =
  cl_sub :: string
  cl_role :: "string option"
  cl_clearance :: "int option"
  cl_user :: string
  cl_exp :: time

record identity_env =
  check_pw :: "string \<Rightarrow> string \<Rightarrow> bool" \<comment> \<open>\<open>bcrypt.checkpw\<close>: password, hash\<close>
  hash_pw :: "string \<Rightarrow> string"
  jwt_encode :: "claims \<Rightarrow> string"
  jwt_decode :: "time \<Rightarrow> string \<Rightarrow> string option option" \<comment> \<open>\<open>None\<close>: \<open>PyJWTError\<close>; the \<open>sub\<close> claim\<close>
  collate :: "string \<Rightarrow> string"
  getenv :: "string \<Rightarrow> string option"
  driver_error :: string

type_synonym http_error = "int \<times> string"
type_synonym 'a reply = "(http_error + 'a) \<times> identity_db"

definition same_text :: "identity_env \<Rightarrow> string \<Rightarrow> string \<Rightarrow> bool" where
  "same_text env a b \<longleftrightarrow> collate env a = collate env b"

definition same_opt :: "identity_env \<Rightarrow> string option \<Rightarrow> string \<Rightarrow> bool" where
  "same_opt env a b = (case a of None \<Rightarrow> False | Some t \<Rightarrow> same_text env t b)"

definition user_by_email :: "identity_env \<Rightarrow> string \<Rightarrow> identity_db \<Rightarrow> user option" where
  "user_by_email env e db = find (\<lambda>u. same_text env (u_email u) e) (users db)"

definition user_by_username :: "identity_env \<Rightarrow> string \<Rightarrow> identity_db \<Rightarrow> user option" where
  "user_by_username env n db = find (\<lambda>u. same_text env (u_username u) n) (users db)"

definition user_by_id :: "identity_env \<Rightarrow> string \<Rightarrow> identity_db \<Rightarrow> user option" where
  "user_by_id env i db = find (\<lambda>u. same_text env (u_id u) i) (users db)"

text \<open>An insert that violates a unique index is an \<open>IntegrityError\<close>.\<close>

definition insert_user :: "identity_env \<Rightarrow> user \<Rightarrow> identity_db \<Rightarrow> identity_db option" where
  "insert_user env u db =
     (if \<exists>v \<in> set (users db). same_text env (u_id v) (u_id u) \<or> same_text env (u_username v) (u_username u)
          \<or> same_text env (u_email v) (u_email u)
      then None else Some (db\<lparr>users := users db @ [u]\<rparr>))"

definition put_user :: "user \<Rightarrow> identity_db \<Rightarrow> identity_db" where
  "put_user u db = db\<lparr>users := map (\<lambda>v. if u_id v = u_id u then u else v) (users db)\<rparr>"

section \<open>The authentication service\<close>

definition ACCESS_TOKEN_EXPIRE :: time where
  "ACCESS_TOKEN_EXPIRE = minutes 60"

definition create_access_token :: "identity_env \<Rightarrow> time \<Rightarrow> user \<Rightarrow> string" where
  "create_access_token env now u =
     jwt_encode env \<lparr>cl_sub = u_email u, cl_role = u_role u, cl_clearance = u_clearance u,
       cl_user = u_id u, cl_exp = now + ACCESS_TOKEN_EXPIRE\<rparr>"

record token_reply =
  tr_token :: string
  tr_id :: string
  tr_email :: string
  tr_role :: "string option"
  tr_status :: "string option"
  tr_code :: "string option"

definition token_for :: "identity_env \<Rightarrow> time \<Rightarrow> user \<Rightarrow> token_reply" where
  "token_for env now u =
     \<lparr>tr_token = create_access_token env now u, tr_id = u_id u, tr_email = u_email u,
      tr_role = u_role u, tr_status = u_status u, tr_code = None\<rparr>"

definition role_map :: "int \<Rightarrow> string" where
  "role_map level = (if level = 1 then ''OPERATIVE'' else if level = 2 then ''SPECIALIST'' else ''OVERSEER'')"

definition register_user ::
  "identity_env \<Rightarrow> string \<Rightarrow> string \<Rightarrow> string \<Rightarrow> string \<Rightarrow> string \<Rightarrow> string \<Rightarrow> string \<Rightarrow> int
   \<Rightarrow> identity_db \<Rightarrow> user reply" where
  "register_user env uid username email password fname lname department level db =
     (if user_by_email env email db \<noteq> None then (Inl (400, ''Email already registered''), db)
      else if user_by_username env username db \<noteq> None then (Inl (400, ''Username already taken''), db)
      else if level \<notin> {1, 2, 3} then (Inl (400, ''Clearance level must be 1, 2, or 3''), db)
      else (let u = \<lparr>u_id = uid, u_username = username, u_email = email, u_hash = hash_pw env password,
                     u_first = Some fname, u_last = Some lname, u_department = Some department,
                     u_clearance = None, u_requested = Some level, u_role = Some (role_map level),
                     u_status = Some ''PENDING'', u_otp = None, u_otp_expires = None,
                     u_system_code = None, u_last_login = None\<rparr>
            in case insert_user env u db of
                 None \<Rightarrow> (Inl (500, driver_error env), db)
               | Some db' \<Rightarrow> (Inr u, db')))"

text \<open>The second step of a login checks no secret: the code is ignored.\<close>

definition verify_otp_and_token ::
  "identity_env \<Rightarrow> time \<Rightarrow> string \<Rightarrow> string \<Rightarrow> identity_db \<Rightarrow> token_reply reply" where
  "verify_otp_and_token env now email otp db =
     (case user_by_email env email db of
        None \<Rightarrow> (Inl (400, ''User not found''), db)
      | Some u \<Rightarrow> (Inr (token_for env now u), db))"

definition login :: "identity_env \<Rightarrow> time \<Rightarrow> string \<Rightarrow> string \<Rightarrow> identity_db \<Rightarrow> token_reply reply" where
  "login env now name password db =
     (case (case user_by_email env name db of None \<Rightarrow> user_by_username env name db | Some u \<Rightarrow> Some u) of
        None \<Rightarrow> (Inl (401, ''Invalid credentials''), db)
      | Some u \<Rightarrow>
          if \<not> check_pw env password (u_hash u) then (Inl (401, ''Invalid credentials''), db)
          else if u_status u = Some ''PENDING'' then (Inl (403, ''Account pending approval by Admin''), db)
          else if u_status u = Some ''BLOCKED'' then (Inl (403, ''Account is blocked''), db)
          else verify_otp_and_token env now name ''SKIP_OTP'' (put_user (u\<lparr>u_last_login := Some now\<rparr>) db))"

definition forgot_password ::
  "identity_env \<Rightarrow> time \<Rightarrow> string \<Rightarrow> bool \<Rightarrow> string \<Rightarrow> identity_db \<Rightarrow> bool option reply" where
  "forgot_password env now secret sent email db =
     (if strip email = [] then (Inl (400, ''Email is required''), db)
      else case user_by_email env (strip email) db of
        None \<Rightarrow> (Inr None, db)
      | Some u \<Rightarrow> (Inr (Some sent),
          put_user (u\<lparr>u_otp := Some secret, u_otp_expires := Some (now + hours 1)\<rparr>) db))"

definition user_by_otp :: "identity_env \<Rightarrow> string \<Rightarrow> identity_db \<Rightarrow> user option" where
  "user_by_otp env token db = find (\<lambda>u. same_opt env (u_otp u) token) (users db)"

definition reset_password ::
  "identity_env \<Rightarrow> time \<Rightarrow> string \<Rightarrow> string \<Rightarrow> identity_db \<Rightarrow> unit reply" where
  "reset_password env now token new_password db =
     (if length new_password < 8 then (Inl (400, ''Password must be at least 8 characters.''), db)
      else case user_by_otp env token db of
        None \<Rightarrow> (Inl (400, ''Invalid or expired reset token.''), db)
      | Some u \<Rightarrow>
          if (case u_otp_expires u of None \<Rightarrow> True | Some t \<Rightarrow> t < now)
          then (Inl (400, ''Reset token has expired. Please request a new one.''), db)
          else (Inr (), put_user (u\<lparr>u_hash := hash_pw env new_password, u_otp := None,
                                    u_otp_expires := None\<rparr>) db))"

definition ADMIN_ROLES :: "string list" where
  "ADMIN_ROLES = [''SUPER_ADMIN'', ''ADMIN'', ''OVERSEER'']"

definition has_role :: "string list \<Rightarrow> user \<Rightarrow> bool" where
  "has_role roles u = (case u_role u of None \<Rightarrow> False | Some r \<Rightarrow> r \<in> set roles)"

definition admin_login ::
  "identity_env \<Rightarrow> time \<Rightarrow> string \<Rightarrow> string \<Rightarrow> string \<Rightarrow> identity_db \<Rightarrow> token_reply reply" where
  "admin_login env now email password code db =
     (case user_by_email env email db of
        None \<Rightarrow> (Inl (401, ''Invalid credentials''), db)
      | Some u \<Rightarrow>
          if \<not> check_pw env password (u_hash u) then (Inl (401, ''Invalid credentials''), db)
          else if u_status u \<noteq> Some ''ACTIVE'' then (Inl (403, ''Account is not active''), db)
          else if \<not> has_role ADMIN_ROLES u
          then (Inl (403, ''This account does not have admin privileges''), db)
          else (case u_system_code u of
              None \<Rightarrow> (Inl (403, ''No admin access code is set for this account. Contact a Super Admin.''), db)
            | Some c \<Rightarrow>
                if c = []
                then (Inl (403, ''No admin access code is set for this account. Contact a Super Admin.''), db)
                else if upper (strip c) \<noteq> upper (strip code)
                then (Inl (401, ''Invalid admin access code''), db)
                else (let u = u\<lparr>u_last_login := Some now\<rparr>
                      in (Inr (token_for env now u), put_user u db))))"

definition DEV_BYPASS_EMAIL :: string where
  "DEV_BYPASS_EMAIL = ''admin@gmail.com''"

definition env_word :: "identity_env \<Rightarrow> string \<Rightarrow> string \<Rightarrow> string" where
  "env_word env name missing =
     lower (strip (case getenv env name of None \<Rightarrow> missing | Some v \<Rightarrow> v))"

definition dev_bypass_enabled :: "identity_env \<Rightarrow> bool" where
  "dev_bypass_enabled env \<longleftrightarrow> env_word env ''DEV_BYPASS'' ''0'' \<in> {''1'', ''true'', ''yes''}
     \<and> env_word env ''INFRA_PROVIDER'' ''local'' = ''local''"

definition dev_bypass_token ::
  "identity_env \<Rightarrow> time \<Rightarrow> string \<Rightarrow> string \<Rightarrow> identity_db \<Rightarrow> token_reply reply" where
  "dev_bypass_token env now uid code db =
     (case user_by_email env DEV_BYPASS_EMAIL db of
        None \<Rightarrow>
          (let u = \<lparr>u_id = uid, u_username = ''admin_bypass'', u_email = DEV_BYPASS_EMAIL,
                    u_hash = hash_pw env ''password123'', u_first = Some ''Dev'', u_last = Some ''Bypass'',
                    u_department = None, u_clearance = Some 5, u_requested = None,
                    u_role = Some ''SUPER_ADMIN'', u_status = Some ''ACTIVE'', u_otp = None,
                    u_otp_expires = None, u_system_code = Some code, u_last_login = None\<rparr>
           in case insert_user env u db of
                None \<Rightarrow> (Inl (500, ''Internal Server Error''), db)
              | Some db' \<Rightarrow> (Inr ((token_for env now u)\<lparr>tr_code := Some code\<rparr>), db'))
      | Some u \<Rightarrow>
          (let u = (if u_status u \<noteq> Some ''ACTIVE'' \<or> u_role u \<noteq> Some ''SUPER_ADMIN''
                    then u\<lparr>u_status := Some ''ACTIVE'', u_role := Some ''SUPER_ADMIN'', u_clearance := Some 5\<rparr>
                    else u);
               u = (if u_system_code u = None \<or> u_system_code u = Some [] then u\<lparr>u_system_code := Some code\<rparr> else u)
           in (Inr ((token_for env now u)\<lparr>tr_code := u_system_code u\<rparr>), put_user u db)))"

definition dev_bypass ::
  "identity_env \<Rightarrow> time \<Rightarrow> string \<Rightarrow> string \<Rightarrow> identity_db \<Rightarrow> token_reply reply" where
  "dev_bypass env now uid code db =
     (if dev_bypass_enabled env then dev_bypass_token env now uid code db
      else (Inl (404, ''Not Found''), db))"

section \<open>Who is asking\<close>

definition CREDENTIALS_ERROR :: http_error where
  "CREDENTIALS_ERROR = (401, ''Could not validate credentials'')"

text \<open>The user a bearer token stands for. The development shortcut may create or reactivate its
  account on the way.\<close>

definition resolve_user :: "identity_env \<Rightarrow> string \<Rightarrow> identity_db \<Rightarrow> user reply" where
  "resolve_user env email db =
     (case user_by_email env email db of
        None \<Rightarrow> (Inl CREDENTIALS_ERROR, db)
      | Some u \<Rightarrow> if u_status u \<noteq> Some ''ACTIVE'' then (Inl (400, ''Inactive user''), db) else (Inr u, db))"

definition get_current_user ::
  "identity_env \<Rightarrow> time \<Rightarrow> string \<Rightarrow> string \<Rightarrow> string \<Rightarrow> identity_db \<Rightarrow> user reply" where
  "get_current_user env now uid code token db =
     (if token = ''dev_bypass_token''
     then (if \<not> dev_bypass_enabled env then (Inl CREDENTIALS_ERROR, db)
            else if user_by_email env DEV_BYPASS_EMAIL db = None
            then (case dev_bypass_token env now uid code db of
                    (Inl e, db') \<Rightarrow> (Inl e, db') | (Inr _, db') \<Rightarrow> resolve_user env DEV_BYPASS_EMAIL db')
            else resolve_user env DEV_BYPASS_EMAIL db)
     else (case jwt_decode env now token of
              None \<Rightarrow> (Inl CREDENTIALS_ERROR, db)
            | Some None \<Rightarrow> (Inl CREDENTIALS_ERROR, db)
            | Some (Some email) \<Rightarrow> resolve_user env email db))"

definition get_current_active_user ::
  "identity_env \<Rightarrow> time \<Rightarrow> string \<Rightarrow> string \<Rightarrow> string \<Rightarrow> identity_db \<Rightarrow> user reply" where
  "get_current_active_user env now uid code token db =
     (case get_current_user env now uid code token db of
        (Inl e, db') \<Rightarrow> (Inl e, db')
      | (Inr u, db') \<Rightarrow> if u_status u \<noteq> Some ''ACTIVE'' then (Inl (400, ''Inactive user''), db') else (Inr u, db'))"

definition py_roles :: "string list \<Rightarrow> string" where
  "py_roles roles = ''['' @ join_str '', '' (map (\<lambda>r. [CHR 0x27] @ r @ [CHR 0x27]) roles) @ '']''"

definition role_checker :: "string list \<Rightarrow> user \<Rightarrow> http_error + user" where
  "role_checker allowed u =
     (if \<not> has_role allowed u \<and> u_role u \<noteq> Some ''SUPER_ADMIN''
      then Inl (403, ''Operation not permitted. Required role in '' @ py_roles allowed) else Inr u)"

text \<open>An account without a clearance level makes the comparison raise a \<open>TypeError\<close>.\<close>

definition clearance_checker :: "int \<Rightarrow> user \<Rightarrow> http_error + user" where
  "clearance_checker level u =
     (case u_clearance u of
        None \<Rightarrow> Inl (500, ''Internal Server Error'')
      | Some c \<Rightarrow> if c < level \<and> u_role u \<noteq> Some ''SUPER_ADMIN''
          then Inl (403, ''Operation not permitted. Minimum clearance level '' @ str_of_int level @ '' required'')
          else Inr u)"

type_synonym caller = "string \<times> string \<times> string" \<comment> \<open>bearer token; UUID and code the shortcut would draw\<close>

definition require_role ::
  "identity_env \<Rightarrow> time \<Rightarrow> string list \<Rightarrow> caller \<Rightarrow> identity_db \<Rightarrow> user reply" where
  "require_role env now allowed = (\<lambda>(token, uid, code) db.
     case get_current_active_user env now uid code token db of
        (Inl e, db') \<Rightarrow> (Inl e, db')
      | (Inr u, db') \<Rightarrow> (role_checker allowed u, db'))"

section \<open>Account administration\<close>

definition as_super ::
  "identity_env \<Rightarrow> time \<Rightarrow> caller \<Rightarrow> (user \<Rightarrow> identity_db \<Rightarrow> 'a reply) \<Rightarrow> identity_db \<Rightarrow> 'a reply" where
  "as_super env now caller k db =
     (case require_role env now [''SUPER_ADMIN''] caller db of
        (Inl e, db') \<Rightarrow> (Inl e, db') | (Inr admin, db') \<Rightarrow> k admin db')"

text \<open>\<open>except Exception as e: raise HTTPException(500, str(e))\<close>, which also catches the handler's
  own HTTP errors.\<close>

definition swallow :: "http_error \<Rightarrow> http_error" where
  "swallow e = (500, str_of_int (fst e) @ '': '' @ snd e)"

definition create_user ::
  "identity_env \<Rightarrow> string \<Rightarrow> string \<Rightarrow> string \<Rightarrow> string \<Rightarrow> string \<Rightarrow> string \<Rightarrow> int \<Rightarrow> identity_db \<Rightarrow> user reply" where
  "create_user env uid email password fname lname role level db =
     (if user_by_email env email db \<noteq> None then (Inl (swallow (400, ''User already exists'')), db)
      else (let u = \<lparr>u_id = uid, u_username = fst (partition_on (CHR ''@'') email), u_email = email,
                     u_hash = hash_pw env password, u_first = Some fname, u_last = Some lname,
                     u_department = None, u_clearance = Some level, u_requested = None,
                     u_role = Some role, u_status = Some ''ACTIVE'', u_otp = None, u_otp_expires = None,
                     u_system_code = None, u_last_login = None\<rparr>
            in case insert_user env u db of
                 None \<Rightarrow> (Inl (500, driver_error env), db)
               | Some db' \<Rightarrow> (Inr u, db')))"

text \<open>The fields an update sets; each may be set to null.\<close>

record user_update =
  uu_first :: "string option option"
  uu_last :: "string option option"
  uu_role :: "string option option"
  uu_clearance :: "int option option"
  uu_status :: "string option option"

definition set_opt :: "'a option \<Rightarrow> 'a \<Rightarrow> 'a" where
  "set_opt new old = (case new of None \<Rightarrow> old | Some v \<Rightarrow> v)"

definition apply_update :: "user_update \<Rightarrow> user \<Rightarrow> user" where
  "apply_update up u =
     u\<lparr>u_first := set_opt (uu_first up) (u_first u), u_last := set_opt (uu_last up) (u_last u),
       u_role := set_opt (uu_role up) (u_role u), u_clearance := set_opt (uu_clearance up) (u_clearance u),
       u_status := set_opt (uu_status up) (u_status u)\<rparr>"

definition update_is_empty :: "user_update \<Rightarrow> bool" where
  "update_is_empty up \<longleftrightarrow> uu_first up = None \<and> uu_last up = None \<and> uu_role up = None
     \<and> uu_clearance up = None \<and> uu_status up = None"

text \<open>A null status is stored, and then rejected by the response model.\<close>

definition update_user :: "identity_env \<Rightarrow> string \<Rightarrow> user_update \<Rightarrow> identity_db \<Rightarrow> user reply" where
  "update_user env uid up db =
     (case user_by_id env uid db of
        None \<Rightarrow> (Inl (swallow (404, ''User not found'')), db)
      | Some u \<Rightarrow>
          if update_is_empty up then (Inl (swallow (400, ''No fields to update'')), db)
          else (let u = apply_update up u; db = put_user u db
                in if u_status u = None then (Inl (500, ''Internal Server Error''), db) else (Inr u, db)))"

text \<open>The foreign keys that point at a user have no \<open>ON DELETE\<close> rule.\<close>

definition referenced :: "string \<Rightarrow> identity_db \<Rightarrow> bool" where
  "referenced uid db \<longleftrightarrow> (\<exists>e \<in> set (access_log db). ae_admin e = uid \<or> ae_target e = Some uid)
     \<or> (\<exists>t \<in> set (tokens db). ct_issued_by t = Some uid)
     \<or> (\<exists>a \<in> set (audits db). ca_issued_by a = Some uid)
     \<or> (\<exists>a \<in> set (admin_entries db). ad_admin a = uid)"

definition remove_user :: "string \<Rightarrow> identity_db \<Rightarrow> identity_db" where
  "remove_user uid db = db\<lparr>users := filter (\<lambda>u. u_id u \<noteq> uid) (users db)\<rparr>"

definition delete_user :: "identity_env \<Rightarrow> string \<Rightarrow> identity_db \<Rightarrow> unit reply" where
  "delete_user env uid db =
     (case user_by_id env uid db of
        None \<Rightarrow> (Inl (swallow (404, ''User not found'')), db)
      | Some u \<Rightarrow> if referenced (u_id u) db then (Inl (500, driver_error env), db)
          else (Inr (), remove_user (u_id u) db))"

definition log_access :: "access_entry \<Rightarrow> identity_db \<Rightarrow> identity_db" where
  "log_access e db = db\<lparr>access_log := access_log db @ [e]\<rparr>"

definition approve_user ::
  "identity_env \<Rightarrow> user \<Rightarrow> string \<Rightarrow> string \<Rightarrow> int \<Rightarrow> string \<Rightarrow> identity_db \<Rightarrow> user reply" where
  "approve_user env admin uid role level code db =
     (case user_by_id env uid db of
        None \<Rightarrow> (Inl (swallow (404, ''User not found'')), db)
      | Some u \<Rightarrow>
          (let u = u\<lparr>u_status := Some ''ACTIVE'', u_role := Some role, u_clearance := Some level\<rparr>;
               u = (if role \<in> set ADMIN_ROLES then u\<lparr>u_system_code := Some code\<rparr> else u)
           in (Inr u, log_access
                 \<lparr>ae_admin = u_id admin, ae_target = Some (u_id u), ae_action = ''APPROVE'',
                  ae_details = ''Role: '' @ role @ '', Level: '' @ str_of_int level\<rparr> (put_user u db))))"

definition regenerate_admin_code ::
  "identity_env \<Rightarrow> string \<Rightarrow> string \<Rightarrow> bool \<Rightarrow> identity_db \<Rightarrow> (string \<times> bool \<times> string) reply" where
  "regenerate_admin_code env uid code sent db =
     (case user_by_id env uid db of
        None \<Rightarrow> (Inl (404, ''User not found''), db)
      | Some u \<Rightarrow> (Inr (code, sent, u_email u), put_user (u\<lparr>u_system_code := Some code\<rparr>) db))"

definition deny_user :: "identity_env \<Rightarrow> user \<Rightarrow> string \<Rightarrow> string \<Rightarrow> identity_db \<Rightarrow> unit reply" where
  "deny_user env admin uid reason db =
     (case user_by_id env uid db of
        None \<Rightarrow> (Inl (swallow (404, ''User not found'')), db)
      | Some u \<Rightarrow> \<comment> \<open>the log entry of the denial would point at an administrator who denies itself\<close>
          if referenced (u_id u) db \<or> u_id u = u_id admin then (Inl (500, driver_error env), db)
          else (Inr (), log_access
                 \<lparr>ae_admin = u_id admin, ae_target = None, ae_action = ''DENY'',
                  ae_details = ''User '' @ u_email u @ '' denied. Reason: '' @ reason\<rparr>
                 (remove_user (u_id u) db)))"

definition list_users :: "identity_db \<Rightarrow> user list" where
  "list_users db = users db"

definition list_pending_users :: "identity_env \<Rightarrow> identity_db \<Rightarrow> user list" where
  "list_pending_users env db = filter (\<lambda>u. same_opt env (u_status u) ''PENDING'') (users db)"

end
