(* ===== verification/Incidents.thy ===== *)
theory Incidents
  imports Correlation Accounts
begin

text \<open>
  The incident API (\<open>backend/app/api/v1/endpoints/incidents.py\<close>): what analysts do to the
  incidents the detection engine and they themselves open. A handler either raises an HTTP error,
  before the only commit, or returns its reply and the tables it commits.

  Arguments: the ATT\&CK catalog (\<open>mitre.py\<close>, data), the printing of time stamps and the UUIDs
  of new incidents by their number.
\<close>

record incident_env =
  ix_catalog :: "(string \<times> string \<times> string) list" \<comment> \<open>id, name, tactic\<close>
  ix_stamp :: "time \<Rightarrow> string"
  ix_epoch :: "time \<Rightarrow> string"
  ix_new_id :: "nat \<Rightarrow> string"

record visit =
  vs_user :: user
  vs_ip :: "string option"
  vs_now :: time

definition STATUSES :: "string list" where
  "STATUSES = [''CONTAINED'', ''FALSE_POSITIVE'', ''INVESTIGATING'', ''NEW'', ''RESOLVED'', ''TRIAGING'']"

definition SEVERITIES :: "string list" where
  "SEVERITIES = [''LOW'', ''MEDIUM'', ''HIGH'', ''CRITICAL'']"

definition ANALYST_ROLES :: "string list" where
  "ANALYST_ROLES = [''ANALYST'', ''AUDITOR'', ''OVERSEER'', ''ADMIN'']"

definition IOC_TYPES :: "string list" where
  "IOC_TYPES = [''domain'', ''email'', ''filename'', ''ip'', ''md5'', ''sha1'', ''sha256'', ''url'']"

definition MAX_LINK_EVENTS :: nat where
  "MAX_LINK_EVENTS = 500"

section \<open>ATT\&CK techniques\<close>

definition is_technique_id :: "string \<Rightarrow> bool" where
  "is_technique_id s =
     (case s of [] \<Rightarrow> False
      | c # cs \<Rightarrow> c = CHR ''T'' \<and> list_all is_digit (take 4 cs)
          \<and> (length cs = 4 \<or> (length cs = 8 \<and> cs ! 4 = CHR ''.'' \<and> list_all is_digit (drop 5 cs))))"

definition catalog_text :: "(string \<times> string) option \<Rightarrow> (string \<times> string \<Rightarrow> string) \<Rightarrow> json" where
  "catalog_text known part = (case known of None \<Rightarrow> JNull | Some e \<Rightarrow> JStr (part e))"

definition clean_technique :: "incident_env \<Rightarrow> string \<Rightarrow> jdict \<Rightarrow> technique" where
  "clean_technique env tid item =
     (let known = map_of (ix_catalog env) tid in
      \<lparr>t_id = tid,
       t_tactic = Some (take 100 (py_str (py_or (py_or (dict_get ''tactic'' item) (catalog_text known snd)) (JStr [])))),
       t_name = take 200 (py_str (py_or (py_or (dict_get ''name'' item) (catalog_text known fst)) (JStr [])))\<rparr>)"

fun clean_techniques :: "incident_env \<Rightarrow> string list \<Rightarrow> jdict list \<Rightarrow> http_error + technique list" where
  "clean_techniques env seen [] = Inr []"
| "clean_techniques env seen (item # items) =
     (let tid = upper (strip (py_str (get_default ''id'' (JStr []) item))) in
      if \<not> is_technique_id tid
      then Inl (400, ''invalid ATT&CK technique id: '' @ (if tid = [] then ''(empty)'' else tid))
      else if tid \<in> set seen then clean_techniques env seen items
      else map_sum (\<lambda>e. e) (Cons (clean_technique env tid item)) (clean_techniques env (tid # seen) items))"

section \<open>Linking events\<close>

record link_state =
  ls_already :: "string list"
  ls_links :: "incident_event list"
  ls_linked :: nat
  ls_dupes :: nat
  ls_ips :: "string list"
  ls_users :: "string list"
  ls_sensors :: "string list"
  ls_stamps :: "time list"

definition event_by_id :: "string \<Rightarrow> soc_db \<Rightarrow> event option" where
  "event_by_id eid db = find (\<lambda>e. e_id e = eid) (events db)"

definition add_text :: "string option \<Rightarrow> string list \<Rightarrow> string list" where
  "add_text t xs = (case t of None \<Rightarrow> xs | Some s \<Rightarrow> if s = [] then xs else xs @ [s])"

definition link_one :: "string \<Rightarrow> string \<Rightarrow> soc_db \<Rightarrow> string \<Rightarrow> link_state \<Rightarrow> link_state" where
  "link_one inc reason db eid ls =
     (case event_by_id eid db of
        None \<Rightarrow> ls
      | Some ev \<Rightarrow>
          if eid \<in> set (ls_already ls) then ls\<lparr>ls_dupes := ls_dupes ls + 1\<rparr>
          else ls\<lparr>ls_already := eid # ls_already ls,
                  ls_links := ls_links ls @ [\<lparr>ie_incident = inc, ie_event = eid,
                      ie_source = (if e_sensor ev = [] then ''honeypot'' else e_sensor ev), ie_reason = reason\<rparr>],
                  ls_linked := ls_linked ls + 1,
                  ls_stamps := ls_stamps ls @ [e_timestamp ev],
                  ls_ips := add_text (Some (e_source_ip ev)) (ls_ips ls),
                  ls_users := add_text (e_username ev) (ls_users ls),
                  ls_sensors := add_text (Some (e_sensor ev)) (ls_sensors ls)\<rparr>)"

definition requested_ids :: "string list \<Rightarrow> string list" where
  "requested_ids ids = take MAX_LINK_EVENTS (filter (\<lambda>e. e \<noteq> []) (dedup_on (\<lambda>e. e) ids))"

definition widen :: "time list \<Rightarrow> incident \<Rightarrow> incident" where
  "widen stamps inc =
     (if stamps = [] then inc
      else (let lo = Min (set stamps); hi = Max (set stamps) in
        inc\<lparr>i_first_seen := (case i_first_seen inc of None \<Rightarrow> Some lo | Some t \<Rightarrow> if lo < t then Some lo else Some t),
            i_last_seen := (case i_last_seen inc of None \<Rightarrow> Some hi | Some t \<Rightarrow> if t < hi then Some hi else Some t)\<rparr>))"

record link_counts =
  lc_linked :: nat
  lc_already :: nat
  lc_not_found :: nat

text \<open>The incident itself is written back by the caller's commit.\<close>

definition link_events ::
  "string list \<Rightarrow> string \<Rightarrow> incident \<Rightarrow> soc_db \<Rightarrow> link_counts \<times> incident \<times> soc_db" where
  "link_events event_ids reason inc db =
     (let ids = requested_ids event_ids in
      if ids = [] then (\<lparr>lc_linked = 0, lc_already = 0, lc_not_found = 0\<rparr>, inc, db)
      else
        (let ls = fold (link_one (i_id inc) reason db) ids
               \<lparr>ls_already = linked_events (i_id inc) db, ls_links = [], ls_linked = 0, ls_dupes = 0,
                ls_ips = i_source_ips inc, ls_users = i_users inc, ls_sensors = i_sensors inc, ls_stamps = []\<rparr>;
             inc = (if 0 < ls_linked ls
                    then inc\<lparr>i_source_ips := sorted_set (ls_ips ls), i_users := sorted_set (ls_users ls),
                             i_sensors := sorted_set (ls_sensors ls)\<rparr> else inc)
         in (\<lparr>lc_linked = ls_linked ls, lc_already = ls_dupes ls,
              lc_not_found = length ids - ls_linked ls - ls_dupes ls\<rparr>,
             widen (ls_stamps ls) inc,
             db\<lparr>incident_events := incident_events db @ ls_links ls\<rparr>)))"

section \<open>The audit trail\<close>

definition audit :: "visit \<Rightarrow> string \<Rightarrow> incident \<Rightarrow> string \<Rightarrow> soc_db \<Rightarrow> soc_db" where
  "audit v action inc detail db =
     (let db = log_activity (i_id inc) (u_email (vs_user v)) action detail (vs_now v) db in
      db\<lparr>admin_log := admin_log db @ [\<lparr>aa_admin = u_email (vs_user v), aa_action = ''INCIDENT_'' @ action,
         aa_affected = i_key inc, aa_ip = vs_ip v, aa_details = take 2000 detail\<rparr>]\<rparr>)"

definition incident_by_ref :: "string \<Rightarrow> soc_db \<Rightarrow> incident option" where
  "incident_by_ref ref db = find (\<lambda>i. i_id i = ref \<or> i_key i = ref) (incidents db)"

text \<open>Most handlers start by looking the incident up.\<close>

definition with_incident ::
  "string \<Rightarrow> (incident \<Rightarrow> soc_db \<Rightarrow> (http_error + 'a \<times> soc_db)) \<Rightarrow> soc_db \<Rightarrow> (http_error + 'a \<times> soc_db)" where
  "with_incident ref k db =
     (case incident_by_ref ref db of
        None \<Rightarrow> Inl (404, ''incident not found'') | Some inc \<Rightarrow> k inc db)"

section \<open>Patching\<close>

record patch =
  pt_status :: "string option"
  pt_assigned :: "string option"
  pt_title :: "string option"
  pt_severity :: "string option"
  pt_techniques :: "jdict list option"

type_synonym patch_state = "string list \<times> incident \<times> soc_db" \<comment> \<open>changes, incident, tables\<close>

definition patch_status :: "visit \<Rightarrow> patch \<Rightarrow> patch_state \<Rightarrow> http_error + patch_state" where
  "patch_status v p = (\<lambda>(changes, inc, db).
     case pt_status p of
       None \<Rightarrow> Inr (changes, inc, db)
     | Some s \<Rightarrow>
         (let new = upper s in
          if new \<notin> set STATUSES then Inl (400, ''status must be one of '' @ py_roles STATUSES)
          else if new = i_status inc then Inr (changes, inc, db)
          else (let change = ''status '' @ i_status inc @ '' -> '' @ new; inc = inc\<lparr>i_status := new\<rparr>
                in Inr (changes @ [change], inc, audit v ''STATUS_CHANGE'' inc change db))))"

definition patch_assigned :: "visit \<Rightarrow> patch \<Rightarrow> patch_state \<Rightarrow> patch_state" where
  "patch_assigned v p = (\<lambda>(changes, inc, db).
     case pt_assigned p of
       None \<Rightarrow> (changes, inc, db)
     | Some a \<Rightarrow>
         if i_assigned inc = Some a then (changes, inc, db)
         else (let change = ''assignee -> '' @ (if a = [] then ''unassigned'' else a);
                   inc = inc\<lparr>i_assigned := (if a = [] then None else Some a)\<rparr>
               in (changes @ [change], inc, audit v ''ASSIGN'' inc change db)))"

definition patch_title :: "patch \<Rightarrow> patch_state \<Rightarrow> patch_state" where
  "patch_title p = (\<lambda>(changes, inc, db).
     case pt_title p of
       None \<Rightarrow> (changes, inc, db)
     | Some t \<Rightarrow> if t = [] then (changes, inc, db)
         else (changes @ [''title updated''], inc\<lparr>i_title := take 500 t\<rparr>, db))"

definition patch_severity :: "visit \<Rightarrow> patch \<Rightarrow> patch_state \<Rightarrow> http_error + patch_state" where
  "patch_severity v p = (\<lambda>(changes, inc, db).
     case pt_severity p of
       None \<Rightarrow> Inr (changes, inc, db)
     | Some s \<Rightarrow>
         (let sev = upper s in
          if sev \<notin> set SEVERITIES then Inl (400, ''invalid severity'')
          else if sev = i_severity inc then Inr (changes, inc, db)
          else (let change = ''severity '' @ i_severity inc @ '' -> '' @ sev @ '' (analyst override)'';
                    inc = inc\<lparr>i_severity := sev\<rparr>
                in Inr (changes @ [change], inc, audit v ''STATUS_CHANGE'' inc change db))))"

definition technique_change :: "string list \<Rightarrow> string list \<Rightarrow> string" where
  "technique_change before after =
     (let added = sorted_set (filter (\<lambda>t. t \<notin> set before) after);
          removed = sorted_set (filter (\<lambda>t. t \<notin> set after) before)
      in ''techniques: '' @ join_str ''; ''
           ((if added = [] then [] else [''added '' @ join_str '', '' added])
            @ (if removed = [] then [] else [''removed '' @ join_str '', '' removed])))"

definition patch_techniques :: "incident_env \<Rightarrow> visit \<Rightarrow> patch \<Rightarrow> patch_state \<Rightarrow> http_error + patch_state" where
  "patch_techniques env v p = (\<lambda>(changes, inc, db).
     case pt_techniques p of
       None \<Rightarrow> Inr (changes, inc, db)
     | Some raw \<Rightarrow>
         (case clean_techniques env [] raw of
            Inl e \<Rightarrow> Inl e
          | Inr cleaned \<Rightarrow>
              (let before = map t_id (i_techniques inc); after = map t_id cleaned in
               if set before = set after then Inr (changes, inc, db)
               else (let change = technique_change before after; inc = inc\<lparr>i_techniques := cleaned\<rparr>
                     in Inr (changes @ [change], inc, audit v ''TECHNIQUES'' inc change db)))))"

definition and_then :: "('e + 'a) \<Rightarrow> ('a \<Rightarrow> 'e + 'b) \<Rightarrow> 'e + 'b" where
  "and_then r k = (case r of Inl e \<Rightarrow> Inl e | Inr x \<Rightarrow> k x)"

definition patch_incident ::
  "incident_env \<Rightarrow> visit \<Rightarrow> string \<Rightarrow> patch \<Rightarrow> soc_db \<Rightarrow> http_error + string list \<times> soc_db" where
  "patch_incident env v ref p = with_incident ref (\<lambda>inc db.
     and_then (patch_status v p ([], inc, db)) (\<lambda>st.
     and_then (patch_severity v p (patch_title p (patch_assigned v p st))) (\<lambda>st.
     and_then (patch_techniques env v p st) (\<lambda>(changes, inc, db).
     Inr (changes, set_incident (inc\<lparr>i_updated_at := vs_now v\<rparr>) db)))))"

section \<open>The other handlers\<close>

definition link_events_handler ::
  "visit \<Rightarrow> string \<Rightarrow> string list \<Rightarrow> string \<Rightarrow> soc_db \<Rightarrow> http_error + link_counts \<times> soc_db" where
  "link_events_handler v ref event_ids reason = with_incident ref (\<lambda>inc db.
     let why = take 500 (strip reason);
         (counts, inc, db) = link_events event_ids (if why = [] then ''linked by analyst'' else why) inc db
     in Inr (counts,
          if 0 < lc_linked counts
          then (let inc = inc\<lparr>i_updated_at := vs_now v\<rparr>
                in set_incident inc (audit v ''EVENTS_LINK'' inc
                     (''linked '' @ str_of_nat (lc_linked counts) @ '' event(s): '' @ take 200 (strip reason)) db))
          else set_incident inc db))"

definition add_ioc ::
  "visit \<Rightarrow> string \<Rightarrow> string \<Rightarrow> string \<Rightarrow> soc_db \<Rightarrow> http_error + bool \<times> soc_db" where
  "add_ioc v ref kind value = with_incident ref (\<lambda>inc db.
     let kind = lower (strip kind); value = take 512 (strip value) in
     if kind \<notin> set IOC_TYPES then Inl (400, ''type must be one of '' @ py_roles IOC_TYPES)
     else if value = [] then Inl (400, ''value is required'')
     else if value \<in> set (linked_iocs (i_id inc) db) then Inr (False, db)
     else (let db = db\<lparr>incident_iocs := incident_iocs db
                 @ [\<lparr>ii_incident = i_id inc, ii_type = kind, ii_value = value\<rparr>]\<rparr>;
               inc = inc\<lparr>i_updated_at := vs_now v\<rparr>
           in Inr (True, set_incident inc (audit v ''IOC_ADD'' inc (kind @ '':'' @ value) db))))"

fun delete_first :: "('a \<Rightarrow> bool) \<Rightarrow> 'a list \<Rightarrow> 'a list" where
  "delete_first p [] = []"
| "delete_first p (x # xs) = (if p x then xs else x # delete_first p xs)"

definition remove_ioc :: "visit \<Rightarrow> string \<Rightarrow> string \<Rightarrow> soc_db \<Rightarrow> http_error + string \<times> soc_db" where
  "remove_ioc v ref value = with_incident ref (\<lambda>inc db.
     let mine = (\<lambda>r. ii_incident r = i_id inc \<and> ii_value r = strip value) in
     case find mine (incident_iocs db) of
       None \<Rightarrow> Inl (404, ''ioc not found on this incident'')
     | Some row \<Rightarrow>
         (let db = db\<lparr>incident_iocs := delete_first mine (incident_iocs db)\<rparr>;
              inc = inc\<lparr>i_updated_at := vs_now v\<rparr>
          in Inr (strip value, set_incident inc
                (audit v ''IOC_REMOVE'' inc (ii_type row @ '':'' @ ii_value row) db))))"

definition add_note :: "incident_env \<Rightarrow> visit \<Rightarrow> string \<Rightarrow> string \<Rightarrow> soc_db \<Rightarrow> http_error + string \<times> soc_db" where
  "add_note env v ref note = with_incident ref (\<lambda>inc db.
     let line = ''['' @ ix_stamp env (vs_now v) @ ''] '' @ u_email (vs_user v) @ '': '' @ strip note;
         old = (case i_notes inc of None \<Rightarrow> [] | Some n \<Rightarrow> if n = [] then [] else n @ [CHR 0x0A]);
         inc = inc\<lparr>i_notes := Some (old @ line), i_updated_at := vs_now v\<rparr>
     in Inr (line, set_incident inc (audit v ''NOTE'' inc (take 500 (strip note)) db)))"

record new_request =
  nr_title :: string
  nr_severity :: string
  nr_source_ips :: "string list"
  nr_event_ids :: "string list"
  nr_reason :: string
  nr_techniques :: "jdict list"
  nr_iocs :: "(string \<times> string) list list"

fun manual_iocs :: "string \<Rightarrow> (string \<times> string) list list \<Rightarrow> http_error + incident_ioc list" where
  "manual_iocs inc [] = Inr []"
| "manual_iocs inc (item # items) =
     (let get = (\<lambda>k. case map_of item k of None \<Rightarrow> [] | Some t \<Rightarrow> t);
          kind = lower (strip (get ''type'')); value = take 512 (strip (get ''value''))
      in if kind \<notin> set IOC_TYPES then Inl (400, ''ioc type must be one of '' @ py_roles IOC_TYPES)
      else map_sum (\<lambda>e. e) (\<lambda>rest. (if value = [] then []
             else [\<lparr>ii_incident = inc, ii_type = kind, ii_value = value\<rparr>]) @ rest) (manual_iocs inc items))"

definition manual_incident ::
  "incident_env \<Rightarrow> visit \<Rightarrow> new_request \<Rightarrow> string \<Rightarrow> technique list \<Rightarrow> soc_db \<Rightarrow> incident" where
  "manual_incident env v nr sev techniques db =
     \<lparr>i_id = ix_new_id env (length (incidents db)), i_key = next_incident_key db,
      i_correlation_key = (case nr_source_ips nr of [] \<Rightarrow> ''manual-'' @ ix_epoch env (vs_now v) | ip # _ \<Rightarrow> ip),
      i_title = take 500 (nr_title nr), i_severity = sev, i_status = ''NEW'', i_confidence = 1 / 2,
      i_risk_score = 0, i_breakdown = None, i_first_seen = Some (vs_now v), i_last_seen = Some (vs_now v),
      i_source_ips = nr_source_ips nr, i_users = [], i_sensors = [], i_techniques = techniques,
      i_reasons = [nr_reason nr], i_assigned = None, i_notes = None, i_auto_created = False,
      i_updated_at = vs_now v\<rparr>"

definition create_incident ::
  "incident_env \<Rightarrow> visit \<Rightarrow> new_request \<Rightarrow> soc_db \<Rightarrow> http_error + link_counts \<times> soc_db" where
  "create_incident env v nr db =
     (let sev = upper (nr_severity nr) in
      if sev \<notin> set SEVERITIES then Inl (400, ''invalid severity'')
      else and_then (clean_techniques env [] (nr_techniques nr)) (\<lambda>techniques.
        let inc = manual_incident env v nr sev techniques db;
            db = db\<lparr>incidents := incidents db @ [inc]\<rparr>;
            (counts, inc, db) = link_events (nr_event_ids nr) ''added by analyst on creation'' inc db
        in and_then (manual_iocs (i_id inc) (nr_iocs nr)) (\<lambda>rows.
           Inr (counts, set_incident inc (audit v ''CREATE'' inc
             (''manual incident: '' @ take 200 (nr_title nr) @ '' ('' @ str_of_nat (lc_linked counts)
              @ '' event(s), '' @ str_of_nat (length (i_techniques inc)) @ '' technique(s), ''
              @ str_of_nat (length (nr_iocs nr)) @ '' ioc(s))'')
             (db\<lparr>incident_iocs := incident_iocs db @ rows\<rparr>))))))"

section \<open>Reading\<close>

text \<open>Newest activity first, then newest row; nulls come last.\<close>

definition newest_first :: "incident list \<Rightarrow> incident list" where
  "newest_first is =
     sort_desc (\<lambda>i. case i_last_seen i of None \<Rightarrow> 0 | Some t \<Rightarrow> t) (filter (\<lambda>i. i_last_seen i \<noteq> None) (rev is))
     @ filter (\<lambda>i. i_last_seen i = None) (rev is)"

definition given :: "string option \<Rightarrow> (string \<Rightarrow> bool) \<Rightarrow> bool" where
  "given v p = (case v of None \<Rightarrow> True | Some s \<Rightarrow> s = [] \<or> p s)"

definition list_incidents ::
  "string option \<Rightarrow> string option \<Rightarrow> string option \<Rightarrow> string option \<Rightarrow> nat \<Rightarrow> soc_db \<Rightarrow> incident list" where
  "list_incidents status severity assignee ip limit db =
     filter (\<lambda>i. given ip (\<lambda>a. a \<in> set (i_source_ips i)))
       (take limit (filter (\<lambda>i. given status (\<lambda>s. i_status i = upper s) \<and> given severity (\<lambda>s. i_severity i = upper s)
           \<and> given assignee (\<lambda>a. i_assigned i = Some a)) (newest_first (incidents db))))"

record stats_reply =
  st_total :: nat
  st_open :: nat
  st_by_status :: "(string \<times> nat) list"
  st_by_severity :: "(string \<times> nat) list"

definition count_by :: "(incident \<Rightarrow> string) \<Rightarrow> incident list \<Rightarrow> (string \<times> nat) list" where
  "count_by f is = map (\<lambda>(k, xs). (k, length xs)) (group_on (\<lambda>i. Some (f i)) is)"

definition incident_stats :: "soc_db \<Rightarrow> stats_reply" where
  "incident_stats db =
     (let by_status = count_by i_status (incidents db) in
      \<lparr>st_total = length (incidents db),
       st_open = sum_list (map snd (filter (\<lambda>(k, _). k \<notin> {''RESOLVED'', ''FALSE_POSITIVE''}) by_status)),
       st_by_status = by_status, st_by_severity = count_by i_severity (incidents db)\<rparr>)"

record incident_detail =
  dt_incident :: incident
  dt_detections :: "detection list"
  dt_events :: "incident_event list"
  dt_iocs :: "incident_ioc list"
  dt_evidence :: "evidence list"
  dt_activity :: "activity list"

definition get_incident :: "string \<Rightarrow> soc_db \<Rightarrow> http_error + incident_detail" where
  "get_incident ref db =
     (case incident_by_ref ref db of
        None \<Rightarrow> Inl (404, ''incident not found'')
      | Some inc \<Rightarrow> Inr
          \<lparr>dt_incident = inc, dt_detections = incident_detections (i_id inc) db,
           dt_events = filter (\<lambda>l. ie_incident l = i_id inc) (incident_events db),
           dt_iocs = filter (\<lambda>r. ii_incident r = i_id inc) (incident_iocs db),
           dt_evidence = filter (\<lambda>e. evd_incident e = i_id inc) (evidence_rows db),
           dt_activity = sort_key ac_at (filter (\<lambda>a. ac_incident a = i_id inc) (activities db))\<rparr>)"

section \<open>Engine and analysts on the same tables\<close>

datatype incident_op =
    Patch string patch
  | Link string "string list" string
  | Add_IOC string string string
  | Remove_IOC string string
  | Note string string
  | Create new_request

fun incident_handler :: "incident_env \<Rightarrow> visit \<Rightarrow> incident_op \<Rightarrow> soc_db \<Rightarrow> http_error + soc_db" where
  "incident_handler env v (Patch ref p) db = map_sum (\<lambda>e. e) snd (patch_incident env v ref p db)"
| "incident_handler env v (Link ref ids reason) db = map_sum (\<lambda>e. e) snd (link_events_handler v ref ids reason db)"
| "incident_handler env v (Add_IOC ref kind val) db = map_sum (\<lambda>e. e) snd (add_ioc v ref kind val db)"
| "incident_handler env v (Remove_IOC ref val) db = map_sum (\<lambda>e. e) snd (remove_ioc v ref val db)"
| "incident_handler env v (Note ref note) db = map_sum (\<lambda>e. e) snd (add_note env v ref note db)"
| "incident_handler env v (Create nr) db = map_sum (\<lambda>e. e) snd (create_incident env v nr db)"

text \<open>The role gate comes first; an error leaves the tables as they were.\<close>

definition analyst_request ::
  "incident_env \<Rightarrow> visit \<Rightarrow> incident_op \<Rightarrow> soc_db \<Rightarrow> http_error option \<times> soc_db" where
  "analyst_request env v oper db =
     (case role_checker ANALYST_ROLES (vs_user v) of
        Inl e \<Rightarrow> (Some e, db)
      | Inr _ \<Rightarrow> (case incident_handler env v oper db of Inl e \<Rightarrow> (Some e, db) | Inr db' \<Rightarrow> (None, db')))"

datatype workspace_input =
    Engine soc_input
  | Analyst visit incident_op

definition workspace_step :: "cycle_env \<Rightarrow> incident_env \<Rightarrow> soc_db \<Rightarrow> workspace_input \<Rightarrow> soc_db" where
  "workspace_step cenv ienv db w =
     (case w of Engine i \<Rightarrow> soc_step cenv db i | Analyst v oper \<Rightarrow> snd (analyst_request ienv v oper db))"

section \<open>Linking keeps links unique\<close>

definition links_fit :: "string \<Rightarrow> string list \<Rightarrow> link_state \<Rightarrow> bool" where
  "links_fit inc old ls \<longleftrightarrow> distinct (map ie_event (ls_links ls)) \<and> list_all (\<lambda>l. ie_incident l = inc) (ls_links ls)
     \<and> set (ls_already ls) = set old \<union> ie_event ` set (ls_links ls) \<and> set old \<inter> ie_event ` set (ls_links ls) = {}
     \<and> ls_linked ls = length (ls_links ls) \<and> length (ls_stamps ls) = length (ls_links ls)"

lemma link_one_fit: "links_fit inc old ls \<Longrightarrow> links_fit inc old (link_one inc reason db eid ls)"
  by (auto simp: link_one_def links_fit_def split: option.split)

lemma links_fold_fit: "links_fit inc old ls \<Longrightarrow> links_fit inc old (fold (link_one inc reason db) eids ls)"
  by (induction eids arbitrary: ls) (auto simp: link_one_fit)

lemma widen_names [simp]: "i_id (widen st inc) = i_id inc" "i_key (widen st inc) = i_key inc"
  by (simp_all add: widen_def Let_def)

lemma link_events_effect:
  assumes "link_events eids reason inc db = (counts, inc', db')"
  obtains ls where "db' = db\<lparr>incident_events := incident_events db @ ls\<rparr>" "lc_linked counts = length ls"
    "distinct (map ie_event ls)" "list_all (\<lambda>l. ie_incident l = i_id inc) ls"
    "set (linked_events (i_id inc) db) \<inter> ie_event ` set ls = {}"
    "i_id inc' = i_id inc" "i_key inc' = i_key inc" "ls = [] \<longrightarrow> inc' = inc"
proof (cases "requested_ids eids = []")
  case True
  then have "counts = \<lparr>lc_linked = 0, lc_already = 0, lc_not_found = 0\<rparr>" "inc' = inc" "db' = db"
    using assms by (simp_all add: link_events_def Let_def)
  then show thesis by (intro that[of "[]"]) simp_all
next
  case False
  define st where "st = fold (link_one (i_id inc) reason db) (requested_ids eids)
     \<lparr>ls_already = linked_events (i_id inc) db, ls_links = [], ls_linked = 0, ls_dupes = 0,
      ls_ips = i_source_ips inc, ls_users = i_users inc, ls_sensors = i_sensors inc, ls_stamps = []\<rparr>"
  have fit: "links_fit (i_id inc) (linked_events (i_id inc) db) st"
    unfolding st_def by (rule links_fold_fit) (simp add: links_fit_def)
  have r: "lc_linked counts = ls_linked st" "db' = db\<lparr>incident_events := incident_events db @ ls_links st\<rparr>"
    "inc' = widen (ls_stamps st) (if 0 < ls_linked st
       then inc\<lparr>i_source_ips := sorted_set (ls_ips st), i_users := sorted_set (ls_users st),
                i_sensors := sorted_set (ls_sensors st)\<rparr> else inc)"
    using assms False by (auto simp: link_events_def Let_def st_def[symmetric])
  show thesis
  proof (rule that[of "ls_links st"])
    show "ls_links st = [] \<longrightarrow> inc' = inc" using fit r(3) by (auto simp: links_fit_def widen_def)
  qed (use fit r in \<open>auto simp: links_fit_def\<close>)
qed

lemma link_wf_append:
  assumes "link_wf old" "distinct (map ie_event ls)" "list_all (\<lambda>l. ie_incident l = inc) ls"
    "set (map ie_event (filter (\<lambda>l. ie_incident l = inc) old)) \<inter> ie_event ` set ls = {}"
  shows "link_wf (old @ ls)"
proof -
  have "distinct (map (\<lambda>l. (ie_incident l, ie_event l)) ls)"
    using assms(2) by (auto simp: distinct_map inj_on_def)
  moreover have "(ie_incident l, ie_event l) \<noteq> (ie_incident l', ie_event l')" if "l \<in> set old" "l' \<in> set ls" for l l'
    using that assms(3,4) by (auto simp: list_all_iff)
  ultimately show ?thesis using assms(1) by (auto simp: link_wf_def)
qed

lemma link_events_wf:
  assumes "link_events eids reason inc db = (counts, inc', db')" and "link_wf (incident_events db)"
  shows "link_wf (incident_events db')"
proof -
  from assms(1) obtain ls where "db' = db\<lparr>incident_events := incident_events db @ ls\<rparr>" "distinct (map ie_event ls)"
    "list_all (\<lambda>l. ie_incident l = i_id inc) ls" "set (linked_events (i_id inc) db) \<inter> ie_event ` set ls = {}"
    by (rule link_events_effect)
  then show ?thesis using link_wf_append[OF assms(2), of ls "i_id inc"] by (simp add: linked_events_def)
qed

section \<open>The audit trail is complete\<close>

lemma audit_frame [simp]:
  "detections (audit v a i t db) = detections db" "incidents (audit v a i t db) = incidents db"
  "incident_events (audit v a i t db) = incident_events db" "incident_iocs (audit v a i t db) = incident_iocs db"
  "iocs (audit v a i t db) = iocs db" "evidence_rows (audit v a i t db) = evidence_rows db"
  by (simp_all add: audit_def log_activity_def Let_def)

lemma set_incident_frame2 [simp]:
  "activities (set_incident i db) = activities db" "admin_log (set_incident i db) = admin_log db"
  "incident_iocs (set_incident i db) = incident_iocs db"
  by (simp_all add: set_incident_def)

text \<open>What an incident is, up to its title and the time of its last update.\<close>

definition substance :: "incident \<Rightarrow> incident" where
  "substance inc = inc\<lparr>i_title := [], i_updated_at := 0\<rparr>"

definition audited :: "visit \<Rightarrow> incident \<times> soc_db \<Rightarrow> incident \<times> soc_db \<Rightarrow> bool" where
  "audited v = (\<lambda>(inc, db) (inc', db').
     \<exists>as ls. activities db' = activities db @ as \<and> admin_log db' = admin_log db @ ls \<and> length as = length ls
       \<and> list_all (\<lambda>a. ac_incident a = i_id inc \<and> ac_actor a = u_email (vs_user v) \<and> ac_at a = vs_now v) as
       \<and> incidents db' = incidents db \<and> i_id inc' = i_id inc \<and> i_key inc' = i_key inc
       \<and> detections db' = detections db \<and> iocs db' = iocs db \<and> evidence_rows db' = evidence_rows db
       \<and> (as = [] \<longrightarrow> substance inc' = substance inc \<and> incident_events db' = incident_events db
            \<and> incident_iocs db' = incident_iocs db)
       \<and> (link_wf (incident_events db) \<longrightarrow> link_wf (incident_events db')))"

lemma audited_refl: "audited v s s"
  by (auto simp: audited_def)

lemma audited_trans: "audited v s t \<Longrightarrow> audited v t u \<Longrightarrow> audited v s u"
proof -
  assume st: "audited v s t" and tu: "audited v t u"
  obtain i db where s: "s = (i, db)" by (cases s)
  obtain j d where t: "t = (j, d)" by (cases t)
  obtain k e where u: "u = (k, e)" by (cases u)
  from st obtain as ls where a: "activities d = activities db @ as" "admin_log d = admin_log db @ ls" "length as = length ls"
      "list_all (\<lambda>a. ac_incident a = i_id i \<and> ac_actor a = u_email (vs_user v) \<and> ac_at a = vs_now v) as"
    by (auto simp: audited_def s t)
  from tu obtain as' ls' where b: "activities e = activities d @ as'" "admin_log e = admin_log d @ ls'" "length as' = length ls'"
      "list_all (\<lambda>a. ac_incident a = i_id j \<and> ac_actor a = u_email (vs_user v) \<and> ac_at a = vs_now v) as'"
    by (auto simp: audited_def t u)
  show ?thesis
    using st tu a b unfolding s t u audited_def
    by (auto intro!: exI[of _ "as @ as'"] exI[of _ "ls @ ls'"])
qed

lemma audited_audit:
  "i_id inc' = i_id inc \<Longrightarrow> i_key inc' = i_key inc \<Longrightarrow>
   audited v (inc, db) (inc', audit v action inc' detail db)"
  by (auto simp: audited_def audit_def log_activity_def Let_def)

lemma audited_edit:
  "substance inc' = substance inc \<Longrightarrow> i_id inc' = i_id inc \<Longrightarrow> i_key inc' = i_key inc \<Longrightarrow> audited v (inc, db) (inc', db)"
  by (auto simp: audited_def)

lemma and_then_Inr: "and_then r k = Inr y \<longleftrightarrow> (\<exists>x. r = Inr x \<and> k x = Inr y)"
  by (cases r) (auto simp: and_then_def)

lemma patch_status_audited:
  "patch_status v p (c, inc, db) = Inr (c', inc', db') \<Longrightarrow> audited v (inc, db) (inc', db')"
  by (auto simp: patch_status_def Let_def audited_refl split: option.splits if_splits intro!: audited_audit)

lemma patch_assigned_audited:
  "patch_assigned v p (c, inc, db) = (c', inc', db') \<Longrightarrow> audited v (inc, db) (inc', db')"
  by (auto simp: patch_assigned_def Let_def audited_refl split: option.splits if_splits intro!: audited_audit)

lemma patch_title_audited:
  "patch_title p (c, inc, db) = (c', inc', db') \<Longrightarrow> audited v (inc, db) (inc', db')"
  by (auto simp: patch_title_def substance_def audited_refl split: option.splits if_splits intro!: audited_edit)

lemma patch_severity_audited:
  "patch_severity v p (c, inc, db) = Inr (c', inc', db') \<Longrightarrow> audited v (inc, db) (inc', db')"
  by (auto simp: patch_severity_def Let_def audited_refl split: option.splits if_splits intro!: audited_audit)

lemma patch_techniques_audited:
  "patch_techniques env v p (c, inc, db) = Inr (c', inc', db') \<Longrightarrow> audited v (inc, db) (inc', db')"
  by (auto simp: patch_techniques_def Let_def audited_refl split: option.splits if_splits sum.splits intro!: audited_audit)

definition edits :: "visit \<Rightarrow> soc_db \<Rightarrow> soc_db \<Rightarrow> bool" where
  "edits v db db' \<longleftrightarrow> (\<exists>inc inc' d. inc \<in> set (incidents db) \<and> audited v (inc, db) (inc', d) \<and> db' = set_incident inc' d)
     \<or> db' = db"

lemma with_incident_Inr:
  "with_incident ref k db = Inr r \<Longrightarrow> \<exists>inc \<in> set (incidents db). k inc db = Inr r"
  by (auto simp: with_incident_def incident_by_ref_def find_Some_iff split: option.splits)

lemma patch_edits:
  assumes "patch_incident env v ref p db = Inr (changes, db')"
  shows "edits v db db'"
proof -
  from with_incident_Inr[OF assms[unfolded patch_incident_def]] obtain inc st1 st4 st5 where inc: "inc \<in> set (incidents db)"
    and raw: "patch_status v p ([], inc, db) = Inr st1"
      "patch_severity v p (patch_title p (patch_assigned v p st1)) = Inr st4" "patch_techniques env v p st4 = Inr st5"
      "(case st5 of (c, i, d) \<Rightarrow> Inr (c, set_incident (i\<lparr>i_updated_at := vs_now v\<rparr>) d)) = (Inr (changes, db') :: http_error + _)"
    unfolding and_then_Inr by blast
  obtain c1 i1 d1 where st1: "st1 = (c1, i1, d1)" by (rule prod_cases3)
  obtain c2 i2 d2 where st2: "patch_assigned v p (c1, i1, d1) = (c2, i2, d2)" by (rule prod_cases3)
  obtain c3 i3 d3 where st3: "patch_title p (c2, i2, d2) = (c3, i3, d3)" by (rule prod_cases3)
  obtain c4 i4 d4 where st4: "st4 = (c4, i4, d4)" by (rule prod_cases3)
  obtain c5 i5 d5 where st5: "st5 = (c5, i5, d5)" by (rule prod_cases3)
  have db': "db' = set_incident (i5\<lparr>i_updated_at := vs_now v\<rparr>) d5" using raw(4) by (simp add: st5)
  have steps: "patch_status v p ([], inc, db) = Inr (c1, i1, d1)" "patch_severity v p (c3, i3, d3) = Inr (c4, i4, d4)"
    "patch_techniques env v p (c4, i4, d4) = Inr (c5, i5, d5)"
    using raw(1-3) by (simp_all add: st1 st2 st3 st4 st5)
  have "audited v (i5, d5) (i5\<lparr>i_updated_at := vs_now v\<rparr>, d5)"
    by (rule audited_edit) (simp_all add: substance_def)
  with steps st2 st3 have "audited v (inc, db) (i5\<lparr>i_updated_at := vs_now v\<rparr>, d5)"
    by (meson audited_trans patch_status_audited patch_assigned_audited patch_title_audited
        patch_severity_audited patch_techniques_audited)
  then show ?thesis using inc db' unfolding edits_def by blast
qed

lemma link_audited:
  assumes "link_events eids reason inc db = (counts, inc', db')"
  shows "if 0 < lc_linked counts
    then audited v (inc, db) (inc'\<lparr>i_updated_at := n\<rparr>, audit v a (inc'\<lparr>i_updated_at := n\<rparr>) t db')
    else audited v (inc, db) (inc', db')"
proof -
  from assms obtain ls where db': "db' = db\<lparr>incident_events := incident_events db @ ls\<rparr>" "lc_linked counts = length ls"
    "distinct (map ie_event ls)" "list_all (\<lambda>l. ie_incident l = i_id inc) ls"
    "set (linked_events (i_id inc) db) \<inter> ie_event ` set ls = {}"
    and inc': "i_id inc' = i_id inc" "i_key inc' = i_key inc" "ls = [] \<longrightarrow> inc' = inc"
    by (rule link_events_effect)
  have wf: "link_wf (incident_events db) \<longrightarrow> link_wf (incident_events db @ ls)"
    using link_wf_append[of "incident_events db" ls "i_id inc"] db' by (simp add: linked_events_def)
  show ?thesis
    using db' inc' wf by (auto simp: audited_def audit_def log_activity_def Let_def)
qed

lemma incident_by_ref_in: "incident_by_ref ref db = Some inc \<Longrightarrow> inc \<in> set (incidents db)"
  by (auto simp: incident_by_ref_def find_Some_iff)

lemma link_edits:
  assumes "link_events_handler v ref eids reason db = Inr (counts, db')"
  shows "edits v db db'"
proof (cases "incident_by_ref ref db")
  case (Some inc)
  define why where "why = (if take 500 (strip reason) = [] then ''linked by analyst'' else take 500 (strip reason))"
  obtain counts' inc' d where l: "link_events eids why inc db = (counts', inc', d)" by (metis prod_cases3)
  obtain detail where db': "counts' = counts" "db' = (if 0 < lc_linked counts
      then set_incident (inc'\<lparr>i_updated_at := vs_now v\<rparr>) (audit v ''EVENTS_LINK'' (inc'\<lparr>i_updated_at := vs_now v\<rparr>) detail d)
      else set_incident inc' d)"
    using assms l unfolding link_events_handler_def with_incident_def Some option.case Let_def why_def[symmetric]
    by (simp only: prod.case sum.inject prod.inject) metis
  show ?thesis
    using incident_by_ref_in[OF Some] db' link_audited[OF l, of v "vs_now v" "''EVENTS_LINK''" detail] unfolding edits_def
    by (cases "0 < lc_linked counts") auto
qed (use assms in \<open>simp add: link_events_handler_def with_incident_def\<close>)

lemma edits_by_audit:
  assumes "inc \<in> set (incidents db)" "i_id inc' = i_id inc" "i_key inc' = i_key inc"
    and "db' = set_incident inc' (audit v action inc' detail (db\<lparr>incident_iocs := rows\<rparr>))"
  shows "edits v db db'"
  using assms unfolding edits_def
  by (intro disjI1 exI[of _ inc] exI[of _ inc'] exI[of _ "audit v action inc' detail (db\<lparr>incident_iocs := rows\<rparr>)"])
    (auto simp: audited_def audit_def log_activity_def Let_def)

lemma add_ioc_edits:
  assumes "add_ioc v ref kind val db = Inr (b, db')"
  shows "edits v db db'"
proof (cases "incident_by_ref ref db")
  case (Some inc)
  let ?row = "\<lparr>ii_incident = i_id inc, ii_type = lower (strip kind), ii_value = take 512 (strip val)\<rparr>"
  have "db' = db \<or> (\<exists>detail. db' = set_incident (inc\<lparr>i_updated_at := vs_now v\<rparr>)
      (audit v ''IOC_ADD'' (inc\<lparr>i_updated_at := vs_now v\<rparr>) detail (db\<lparr>incident_iocs := incident_iocs db @ [?row]\<rparr>)))"
    using assms unfolding add_ioc_def with_incident_def Some option.case Let_def by (auto split: if_splits)
  then show ?thesis
  proof
    assume "db' = db"
    then show ?thesis by (simp add: edits_def)
  qed (use edits_by_audit[OF incident_by_ref_in[OF Some], of "inc\<lparr>i_updated_at := vs_now v\<rparr>"] in auto)
qed (use assms in \<open>simp add: add_ioc_def with_incident_def\<close>)

lemma remove_ioc_edits:
  assumes "remove_ioc v ref val db = Inr (b, db')"
  shows "edits v db db'"
proof (cases "incident_by_ref ref db")
  case (Some inc)
  let ?rows = "delete_first (\<lambda>r. ii_incident r = i_id inc \<and> ii_value r = strip val) (incident_iocs db)"
  have "\<exists>detail. db' = set_incident (inc\<lparr>i_updated_at := vs_now v\<rparr>)
      (audit v ''IOC_REMOVE'' (inc\<lparr>i_updated_at := vs_now v\<rparr>) detail (db\<lparr>incident_iocs := ?rows\<rparr>))"
    using assms unfolding remove_ioc_def with_incident_def Some option.case Let_def by (auto split: option.splits)
  then show ?thesis
    using edits_by_audit[OF incident_by_ref_in[OF Some], of "inc\<lparr>i_updated_at := vs_now v\<rparr>"] by auto
qed (use assms in \<open>simp add: remove_ioc_def with_incident_def\<close>)

lemma add_note_edits:
  assumes "add_note env v ref note db = Inr (b, db')"
  shows "edits v db db'"
proof (cases "incident_by_ref ref db")
  case (Some inc)
  have "\<exists>ns detail. db' = set_incident (inc\<lparr>i_notes := ns, i_updated_at := vs_now v\<rparr>)
      (audit v ''NOTE'' (inc\<lparr>i_notes := ns, i_updated_at := vs_now v\<rparr>) detail (db\<lparr>incident_iocs := incident_iocs db\<rparr>))"
    using assms unfolding add_note_def with_incident_def Some option.case Let_def by auto
  then obtain ns detail where "db' = set_incident (inc\<lparr>i_notes := ns, i_updated_at := vs_now v\<rparr>)
      (audit v ''NOTE'' (inc\<lparr>i_notes := ns, i_updated_at := vs_now v\<rparr>) detail (db\<lparr>incident_iocs := incident_iocs db\<rparr>))"
    by blast
  then show ?thesis
    using edits_by_audit[OF incident_by_ref_in[OF Some], where inc' = "inc\<lparr>i_notes := ns, i_updated_at := vs_now v\<rparr>"
        and v = v and action = "''NOTE''" and detail = detail and rows = "incident_iocs db"] by simp
qed (use assms in \<open>simp add: add_note_def with_incident_def\<close>)

text \<open>A creation appends the incident and then edits it.\<close>

lemma create_effect:
  assumes "create_incident env v nr db = Inr (counts, db')"
  obtains inc db1 inc' d where "i_id inc = ix_new_id env (length (incidents db))" "i_key inc = next_incident_key db"
    "db1 = db\<lparr>incidents := incidents db @ [inc]\<rparr>"
    "audited v (inc, db1) (inc', d)" "db' = set_incident inc' d" "activities d \<noteq> activities db"
proof -
  obtain sev ts where c: "sev \<in> set SEVERITIES" "sev = upper (nr_severity nr)" "clean_techniques env [] (nr_techniques nr) = Inr ts"
    using assms by (auto simp: create_incident_def Let_def and_then_Inr split: if_splits)
  define inc where "inc = manual_incident env v nr sev ts db"
  define db1 where "db1 = db\<lparr>incidents := incidents db @ [inc]\<rparr>"
  obtain counts' inc' d where l: "link_events (nr_event_ids nr) ''added by analyst on creation'' inc db1 = (counts', inc', d)"
    by (rule prod_cases3)
  obtain rows detail where db': "db' = set_incident inc' (audit v ''CREATE'' inc' detail (d\<lparr>incident_iocs := incident_iocs d @ rows\<rparr>))"
    using assms c l unfolding create_incident_def inc_def db1_def Let_def
    by (cases "manual_iocs (i_id inc') (nr_iocs nr)") (auto simp: and_then_def)
  from l obtain ls where ls: "d = db1\<lparr>incident_events := incident_events db1 @ ls\<rparr>" "distinct (map ie_event ls)"
    "list_all (\<lambda>l. ie_incident l = i_id inc) ls" "set (linked_events (i_id inc) db1) \<inter> ie_event ` set ls = {}"
    "i_id inc' = i_id inc" "i_key inc' = i_key inc"
    by (rule link_events_effect)
  have "link_wf (incident_events db1) \<longrightarrow> link_wf (incident_events db1 @ ls)"
    using link_wf_append[of "incident_events db1" ls "i_id inc"] ls by (simp add: linked_events_def)
  then have "audited v (inc, db1) (inc', audit v ''CREATE'' inc' detail (d\<lparr>incident_iocs := incident_iocs d @ rows\<rparr>))"
    using ls by (auto simp: audited_def audit_def log_activity_def Let_def)
  moreover have "activities (audit v ''CREATE'' inc' detail (d\<lparr>incident_iocs := incident_iocs d @ rows\<rparr>)) \<noteq> activities db"
    using ls(1) by (simp add: audit_def log_activity_def Let_def db1_def)
  moreover have "i_id inc = ix_new_id env (length (incidents db))" "i_key inc = next_incident_key db"
    by (simp_all add: inc_def manual_incident_def)
  ultimately show thesis using that db1_def db' by blast
qed

lemma handler_edits:
  assumes "incident_handler env v oper db = Inr db'" "\<And>nr. oper \<noteq> Create nr"
  shows "edits v db db'"
proof -
  have r: "\<exists>x. r = Inr (x, db')" if "map_sum (\<lambda>e. e) snd r = Inr db'" for r :: "http_error + 'a \<times> soc_db"
    using that by (cases r) (auto simp: prod_eq_iff)
  show ?thesis
    using assms by (cases oper)
      (auto dest!: r intro: patch_edits link_edits add_ioc_edits remove_ioc_edits add_note_edits)
qed


lemma audited_wf:
  assumes wf: "soc_wf new_id db" and inj: "inj new_id" and inc: "inc \<in> set (incidents db)"
    and a: "audited v (inc, db) (inc', d)"
  shows "soc_wf new_id (set_incident inc' d)"
proof -
  have d: "incidents d = incidents db" "i_id inc' = i_id inc" "i_key inc' = i_key inc" "detections d = detections db"
    "iocs d = iocs db" "evidence_rows d = evidence_rows db" "link_wf (incident_events db) \<longrightarrow> link_wf (incident_events d)"
    using a by (auto simp: audited_def)
  have "inc_wf new_id (incidents (set_incident inc' d))"
    using set_incident_wf[OF _ inj, of d inc inc'] wf inc d by (simp add: soc_wf_def)
  then show ?thesis using wf d by (simp add: soc_wf_def)
qed

lemma analyst_request_wf:
  assumes wf: "soc_wf (ix_new_id env) db" and inj: "inj (ix_new_id env)"
  shows "soc_wf (ix_new_id env) (snd (analyst_request env v oper db))"
proof (cases "analyst_request env v oper db")
  case (Pair err db')
  show ?thesis
  proof (cases "db' = db")
    case False
    then have h: "incident_handler env v oper db = Inr db'"
      using Pair by (auto simp: analyst_request_def split: sum.splits)
    show ?thesis
    proof (cases "\<exists>nr. oper = Create nr")
      case True
      then obtain nr counts where "create_incident env v nr db = Inr (counts, db')"
        using h by (cases "create_incident env v (case oper of Create nr \<Rightarrow> nr) db") auto
      then obtain inc db1 inc' d where c: "i_id inc = ix_new_id env (length (incidents db))" "i_key inc = next_incident_key db"
        "db1 = db\<lparr>incidents := incidents db @ [inc]\<rparr>" "audited v (inc, db1) (inc', d)" "db' = set_incident inc' d"
        by (rule create_effect)
      have "soc_wf (ix_new_id env) db1"
        using wf c(1,2) by (simp add: c(3) soc_wf_def inc_wf_snoc next_incident_key_def key_of_number_def)
      then show ?thesis using audited_wf[OF _ inj _ c(4)] by (simp add: Pair c(3,5))
    next
      case False
      then have "edits v db db'" using handler_edits[OF h] by blast
      then show ?thesis using audited_wf[OF wf inj] wf by (auto simp: edits_def Pair)
    qed
  qed (simp add: Pair wf)
qed

interpretation workspace: event_machine "workspace_step cenv ienv"
  "\<lambda>db. inj (ce_new_id cenv) \<and> ix_new_id ienv = ce_new_id cenv \<longrightarrow> soc_wf (ce_new_id cenv) db" for cenv ienv
proof
  fix cenv :: cycle_env and ienv :: incident_env and db w
  assume wf: "inj (ce_new_id cenv) \<and> ix_new_id ienv = ce_new_id cenv \<longrightarrow> soc_wf (ce_new_id cenv) db"
  show "inj (ce_new_id cenv) \<and> ix_new_id ienv = ce_new_id cenv \<longrightarrow> soc_wf (ce_new_id cenv) (workspace_step cenv ienv db w)"
  proof (cases w)
    case (Engine i)
    then show ?thesis using wf soc.step_inv[of cenv db i] by (auto simp: workspace_step_def)
  next
    case (Analyst v oper)
    then show ?thesis using wf analyst_request_wf[of ienv db v oper] by (auto simp: workspace_step_def)
  qed
qed


text \<open>The status page adds up.\<close>

lemma count_by_total: "sum_list (map snd (count_by f is)) = length is"
proof -
  have "sum_list (map snd (count_by f is)) = (\<Sum>g \<leftarrow> group_on (\<lambda>i. Some (f i)) is. length (snd g))"
    by (simp add: count_by_def comp_def split_beta)
  also have "\<dots> = length is"
  proof (induction "is" rule: rev_induct)
    case (snoc i "is")
    have "(\<Sum>g \<leftarrow> add_to_group k x gs. length (snd g)) = Suc (\<Sum>g \<leftarrow> gs. length (snd g))" for k :: string and x :: incident and gs
      by (induction gs) (auto split: prod.splits)
    then show ?case using snoc by (simp add: group_on_snoc)
  qed (simp add: group_on_def)
  finally show ?thesis .
qed

lemma stats_add_up:
  "sum_list (map snd (st_by_status (incident_stats db))) = st_total (incident_stats db)"
  "sum_list (map snd (st_by_severity (incident_stats db))) = st_total (incident_stats db)"
  by (simp_all add: incident_stats_def Let_def count_by_total)

section \<open>Examples\<close>

definition demo_incident_env :: incident_env where
  "demo_incident_env = \<lparr>ix_catalog = [(''T1110'', ''Brute Force'', ''Credential Access'')], ix_stamp = (\<lambda>_. ''now''),
     ix_epoch = (\<lambda>_. ''0''), ix_new_id = str_of_nat\<rparr>"

definition demo_analyst :: user where
  "demo_analyst = \<lparr>u_id = ''u1'', u_username = ''ana'', u_email = ''ana@soc'', u_hash = [], u_first = None, u_last = None,
     u_department = None, u_clearance = Some 1, u_requested = None, u_role = Some ''ANALYST'', u_status = Some ''ACTIVE'',
     u_otp = None, u_otp_expires = None, u_system_code = None, u_last_login = None\<rparr>"

definition demo_visit :: visit where
  "demo_visit = \<lparr>vs_user = demo_analyst, vs_ip = None, vs_now = 9\<rparr>"


definition demo_create :: incident_op where
  "demo_create = Create \<lparr>nr_title = ''scan'', nr_severity = ''low'', nr_source_ips = [''10.0.0.9''], nr_event_ids = [],
     nr_reason = ''seen'', nr_techniques = [], nr_iocs = []\<rparr>"


end
