(* ===== verification/Credentials.thy ===== *)
theory Credentials
  imports Accounts Json
begin

text \<open>
  Credential delivery (\<open>backend/app/services/credential_service.py\<close>,
  \<open>backend/app/api/v1/endpoints/credentials_api.py\<close>) and the activation of an account with a
  credential token (\<open>auth.py\<close>), and the accounts, tokens and logs together as one machine whose
  inputs are the requests of the API.

  The mail server, the Twilio client and the drawn tokens and ids are arguments; the message
  texts are not modelled.
\<close>

section \<open>Checks\<close>

definition mask_password :: "string \<Rightarrow> string" where
  "mask_password pw = (if length pw < 3 then ''****''
     else take 2 pw @ replicate (length pw - 2) (CHR ''*''))"

definition SPECIALS :: string where
  "SPECIALS = ''!@#$%^&*''"

definition is_upper_letter :: "char \<Rightarrow> bool" where
  "is_upper_letter c = (let n = of_char c :: nat in 65 \<le> n \<and> n \<le> 90)"

definition is_lower_letter :: "char \<Rightarrow> bool" where
  "is_lower_letter c = (let n = of_char c :: nat in 97 \<le> n \<and> n \<le> 122)"

definition strong_password :: "string \<Rightarrow> bool" where
  "strong_password pw \<longleftrightarrow> (\<exists>c \<in> set pw. is_upper_letter c) \<and> (\<exists>c \<in> set pw. is_lower_letter c)
     \<and> (\<exists>c \<in> set pw. is_digit c) \<and> (\<exists>c \<in> set pw. c \<in> set SPECIALS)"

text \<open>The loop draws until a password has every class; the argument is the sequence of draws.\<close>

fun generate_temp_password :: "string list \<Rightarrow> string option" where
  "generate_temp_password [] = None"
| "generate_temp_password (pw # pws) = (if strong_password pw then Some pw else generate_temp_password pws)"

text \<open>The \<open>$\<close> of a regular expression also matches before a final line feed.\<close>

definition drop_newline :: "string \<Rightarrow> string" where
  "drop_newline s = (if s \<noteq> [] \<and> last s = CHR 0x0A then butlast s else s)"

definition addr_char :: "char \<Rightarrow> bool" where
  "addr_char c \<longleftrightarrow> is_word c \<or> c = CHR ''.'' \<or> c = CHR ''-''"

definition validate_email :: "string \<Rightarrow> bool" where
  "validate_email e =
     (case partition_on (CHR ''@'') (drop_newline e) of
        (a, Some rest) \<Rightarrow>
          (let labels = split_on (CHR ''.'') rest; domain = join_str ''.'' (butlast labels); tld = last labels
           in a \<noteq> [] \<and> list_all addr_char a \<and> 2 \<le> length labels \<and> domain \<noteq> [] \<and> list_all addr_char domain
              \<and> 2 \<le> length tld \<and> list_all is_word tld)
      | (_, None) \<Rightarrow> False)"

definition validate_phone :: "string \<Rightarrow> bool" where
  "validate_phone p =
     (case drop_newline (filter (\<lambda>c. c \<noteq> CHR '' '') p) of
        c # ds \<Rightarrow> c = CHR ''+'' \<and> 7 \<le> length ds \<and> length ds \<le> 15 \<and> list_all is_digit ds
      | [] \<Rightarrow> False)"

definition RATE_LIMIT_WINDOW :: time where
  "RATE_LIMIT_WINDOW = hours 1"

definition LIMITED_ACTIONS :: "string list" where
  "LIMITED_ACTIONS = [''ISSUE_CREDENTIALS'', ''RESET_PASSWORD'', ''RESEND_CREDENTIALS'']"

definition recent_actions :: "identity_env \<Rightarrow> time \<Rightarrow> string \<Rightarrow> identity_db \<Rightarrow> admin_entry list" where
  "recent_actions env now admin db =
     filter (\<lambda>a. same_text env (ad_admin a) admin \<and> now - RATE_LIMIT_WINDOW \<le> ad_time a
        \<and> ad_action a \<in> set LIMITED_ACTIONS) (admin_entries db)"

definition rate_limit_check :: "identity_env \<Rightarrow> nat \<Rightarrow> time \<Rightarrow> string \<Rightarrow> identity_db \<Rightarrow> bool" where
  "rate_limit_check env limit now admin db \<longleftrightarrow> length (recent_actions env now admin db) < limit"

section \<open>Delivery\<close>

text \<open>The Twilio client: switched on, the sender, the inbound messages of a number (newest first)
  or the code of the exception, and the sending itself.\<close>

record courier =
  cr_mail :: "string \<Rightarrow> string" \<comment> \<open>recipient; \<open>SENT\<close>, \<open>FAILED\<close> or \<open>NOT_CONFIGURED\<close>\<close>
  cr_enabled :: bool
  cr_from :: string
  cr_inbound :: "string \<Rightarrow> int option + string option list"
  cr_create :: "string \<Rightarrow> int option + unit"

definition SANDBOX_NUMBER :: string where
  "SANDBOX_NUMBER = ''+14155238886''"

fun opted_in :: "string option list \<Rightarrow> bool" where
  "opted_in [] = False"
| "opted_in (m # ms) =
     (let body = lower (strip (case m of None \<Rightarrow> [] | Some b \<Rightarrow> b)) in
      if starts_with ''stop'' body \<or> starts_with ''unsubscribe'' body \<or> starts_with ''cancel'' body then False
      else if starts_with ''join '' body then True
      else opted_in ms)"

definition whatsapp_failure :: "int option \<Rightarrow> string" where
  "whatsapp_failure code = (if code = Some 63015 then ''NOT_OPTED_IN'' else ''FAILED'')"

definition send_whatsapp :: "courier \<Rightarrow> string \<Rightarrow> string" where
  "send_whatsapp cr phone =
     (if \<not> cr_enabled cr then ''NOT_CONFIGURED''
      else let deliver = (case cr_create cr phone of Inl code \<Rightarrow> whatsapp_failure code | Inr _ \<Rightarrow> ''SENT'') in
        if cr_from cr = SANDBOX_NUMBER
        then (case cr_inbound cr phone of
                Inl code \<Rightarrow> whatsapp_failure code
              | Inr ms \<Rightarrow> if opted_in ms then deliver else ''NOT_OPTED_IN'')
        else deliver)"

section \<open>Issuing\<close>

record issue_request =
  ir_username :: string
  ir_password :: string
  ir_email :: "string option"
  ir_phone :: "string option"
  ir_delivery :: "string list"
  ir_message :: string
  ir_hours :: int
  ir_force :: bool
  ir_extra :: "(string option \<times> string option \<times> string list option) list"

record recipient =
  rp_email :: "string option"
  rp_phone :: "string option"
  rp_do_email :: bool
  rp_do_whatsapp :: bool

definition has_value :: "string option \<Rightarrow> bool" where
  "has_value v = (case v of None \<Rightarrow> False | Some s \<Rightarrow> s \<noteq> [])"

definition make_recipient :: "string option \<Rightarrow> string option \<Rightarrow> string list \<Rightarrow> recipient" where
  "make_recipient email phone ways =
     \<lparr>rp_email = email, rp_phone = phone,
      rp_do_email = (''email'' \<in> set ways \<or> ''both'' \<in> set ways),
      rp_do_whatsapp = (''whatsapp'' \<in> set ways \<or> ''both'' \<in> set ways)\<rparr>"

definition recipients :: "issue_request \<Rightarrow> recipient list" where
  "recipients ir =
     (let ways = map lower (ir_delivery ir) in
      (if has_value (ir_email ir) \<or> has_value (ir_phone ir)
       then [make_recipient (ir_email ir) (ir_phone ir) ways] else [])
      @ map (\<lambda>(e, p, d). make_recipient e p
            (case d of None \<Rightarrow> ways | Some ds \<Rightarrow> if ds = [] then ways else map lower ds)) (ir_extra ir))"

definition delivery_method :: "recipient \<Rightarrow> string" where
  "delivery_method r =
     (if rp_do_email r \<and> rp_do_whatsapp r then ''BOTH'' else if rp_do_email r then ''EMAIL''
      else if rp_do_whatsapp r then ''WHATSAPP'' else ''NONE'')"

definition notify :: "courier \<Rightarrow> recipient \<Rightarrow> string \<times> string" where
  "notify cr r =
     (if rp_do_email r \<and> has_value (rp_email r) then cr_mail cr (the (rp_email r)) else ''NOT_SENT'',
      if rp_do_whatsapp r \<and> has_value (rp_phone r) then send_whatsapp cr (the (rp_phone r)) else ''NOT_SENT'')"

record issuer =
  is_id :: string
  is_name :: string
  is_ip :: string

definition audit_row ::
  "courier \<Rightarrow> issuer \<Rightarrow> issue_request \<Rightarrow> string \<Rightarrow> string \<Rightarrow> recipient \<Rightarrow> credential_audit" where
  "audit_row cr adm ir token_id audit_id r =
     (case notify cr r of (mail, wa) \<Rightarrow>
       \<lparr>ca_id = audit_id, ca_username = ir_username ir, ca_email = rp_email r, ca_phone = rp_phone r,
        ca_issued_by = Some (is_id adm), ca_issuer = is_name adm, ca_delivery = delivery_method r,
        ca_email_status = mail, ca_whatsapp_status = wa, ca_token_id = Some token_id,
        ca_token_status = ''GENERATED'', ca_message = ir_message ir, ca_admin_ip = is_ip adm\<rparr>)"

definition log_admin ::
  "issuer \<Rightarrow> string \<Rightarrow> string \<Rightarrow> string \<Rightarrow> jdict \<Rightarrow> time \<Rightarrow> identity_db \<Rightarrow> identity_db" where
  "log_admin adm action affected result details now db =
     db\<lparr>admin_entries := admin_entries db @ [\<lparr>ad_admin = is_id adm, ad_name = is_name adm,
        ad_action = action, ad_user = affected, ad_ip = is_ip adm, ad_time = now, ad_result = result,
        ad_details = dumps False (JObj details)\<rparr>]\<rparr>"

text \<open>The drawn token value and row ids; a repeated one violates the unique index.\<close>

record draw =
  dr_token :: string
  dr_token_id :: string
  dr_audit_id :: "nat \<Rightarrow> string"

definition insert_token :: "identity_env \<Rightarrow> credential_token \<Rightarrow> identity_db \<Rightarrow> identity_db option" where
  "insert_token env t db =
     (if \<exists>s \<in> set (tokens db). same_text env (ct_id s) (ct_id t) \<or> same_text env (ct_token s) (ct_token t)
      then None else Some (db\<lparr>tokens := tokens db @ [t]\<rparr>))"

definition issue_credentials ::
  "identity_env \<Rightarrow> courier \<Rightarrow> nat \<Rightarrow> time \<Rightarrow> draw \<Rightarrow> issuer \<Rightarrow> issue_request \<Rightarrow> identity_db
   \<Rightarrow> (string \<times> string \<times> string) reply" where
  "issue_credentials env cr limit now dr adm ir db =
     (if \<not> rate_limit_check env limit now (is_id adm) db
      then (Inl (400, ''Rate limit exceeded. Max 20 operations/hour.''), db)
      else if has_value (ir_email ir) \<and> \<not> validate_email (the (ir_email ir))
      then (Inl (400, ''Invalid email address: '' @ the (ir_email ir)), db)
      else if has_value (ir_phone ir) \<and> \<not> validate_phone (the (ir_phone ir))
      then (Inl (400, ''Invalid phone number: '' @ the (ir_phone ir)
             @ ''. Use E.164 format e.g. +911234567890''), db)
      else (case insert_token env
              \<lparr>ct_id = dr_token_id dr, ct_username = ir_username ir, ct_token = dr_token dr,
               ct_issued_by = Some (is_id adm), ct_expires = now + hours (ir_hours ir), ct_used = False,
               ct_used_at = None, ct_force = ir_force ir\<rparr> db of
           None \<Rightarrow> (Inl (500, ''Internal Server Error''), db)
         | Some db' \<Rightarrow>
             (let rs = recipients ir;
                  rows = map (\<lambda>(n, r). audit_row cr adm ir (dr_token_id dr) (dr_audit_id dr n) r) (enumerate 0 rs);
                  db' = db'\<lparr>audits := audits db' @ rows\<rparr>
              in (Inr (ir_username ir, dr_token dr, mask_password (ir_password ir)),
                  log_admin adm ''ISSUE_CREDENTIALS'' (ir_username ir) ''SUCCESS''
                    [(''delivery_method'', JStr (delivery_method (make_recipient None None (map lower (ir_delivery ir))))),
                     (''token_expires_hours'', JInt (ir_hours ir)),
                     (''recipients_count'', JInt (int (length rs)))] now db'))))"

section \<open>Redeeming and resending\<close>

definition token_by_value :: "identity_env \<Rightarrow> string \<Rightarrow> identity_db \<Rightarrow> credential_token option" where
  "token_by_value env v db = find (\<lambda>t. same_text env (ct_token t) v) (tokens db)"

definition use_token :: "time \<Rightarrow> credential_token \<Rightarrow> identity_db \<Rightarrow> identity_db" where
  "use_token now t db =
     db\<lparr>tokens := map (\<lambda>s. if ct_id s = ct_id t then s\<lparr>ct_used := True, ct_used_at := Some now\<rparr> else s)
          (tokens db)\<rparr>"

datatype validation =
    Invalid string
  | Valid string bool time

definition validate_one_time_token :: "identity_env \<Rightarrow> time \<Rightarrow> string \<Rightarrow> identity_db \<Rightarrow> validation reply" where
  "validate_one_time_token env now v db =
     (case token_by_value env v db of
        None \<Rightarrow> (Inr (Invalid ''Token not found''), db)
      | Some t \<Rightarrow>
          if ct_used t then (Inr (Invalid ''Token already used''), db)
          else if ct_expires t < now then (Inr (Invalid ''Token expired''), db)
          else (let db = use_token now t db in
            (Inr (Valid (ct_username t) (ct_force t) (ct_expires t)),
             db\<lparr>audits := map (\<lambda>a. if same_opt env (ca_token_id a) (ct_id t)
                  then a\<lparr>ca_token_status := ''USED''\<rparr> else a) (audits db)\<rparr>)))"

text \<open>The account of a credential token: by username, then by email.\<close>

definition token_user :: "identity_env \<Rightarrow> credential_token \<Rightarrow> identity_db \<Rightarrow> user option" where
  "token_user env t db =
     (case user_by_username env (ct_username t) db of
        None \<Rightarrow> user_by_email env (ct_username t) db | Some u \<Rightarrow> Some u)"

definition activate_account ::
  "identity_env \<Rightarrow> time \<Rightarrow> string \<Rightarrow> string \<Rightarrow> identity_db \<Rightarrow> token_reply reply" where
  "activate_account env now v new_password db =
     (if length new_password < 8 then (Inl (400, ''Password must be at least 8 characters.''), db)
      else case token_by_value env v db of
        None \<Rightarrow> (Inl (400, ''Invalid credential token.''), db)
      | Some t \<Rightarrow>
          if ct_used t then (Inl (400, ''This credential token has already been used.''), db)
          else if ct_expires t < now then (Inl (400, ''Credential token has expired.''), db)
          else (case token_user env t db of
              None \<Rightarrow> (Inl (404, ''User '' @ [CHR 0x27] @ ct_username t @ [CHR 0x27] @ '' not found.''), db)
            | Some u \<Rightarrow>
                (let u = u\<lparr>u_hash := hash_pw env new_password, u_last_login := Some now,
                           u_status := (if u_status u = Some ''PENDING'' then Some ''ACTIVE'' else u_status u)\<rparr>
                 in (Inr (token_for env now u), use_token now t (put_user u db)))))"

definition resend_credentials ::
  "identity_env \<Rightarrow> courier \<Rightarrow> nat \<Rightarrow> time \<Rightarrow> issuer \<Rightarrow> string \<Rightarrow> identity_db \<Rightarrow> (string \<times> string) reply" where
  "resend_credentials env cr limit now adm audit_id db =
     (case find (\<lambda>a. same_text env (ca_id a) audit_id) (audits db) of
        None \<Rightarrow> (Inl (400, ''Audit log entry not found''), db)
      | Some a \<Rightarrow>
          if \<not> rate_limit_check env limit now (is_id adm) db then (Inl (400, ''Rate limit exceeded.''), db)
          else (let mail = (if has_value (ca_email a) \<and> ca_delivery a \<in> {''EMAIL'', ''BOTH''}
                            then cr_mail cr (the (ca_email a)) else ca_email_status a);
                    wa = (if has_value (ca_phone a) \<and> ca_delivery a \<in> {''WHATSAPP'', ''BOTH''}
                          then send_whatsapp cr (the (ca_phone a)) else ca_whatsapp_status a);
                    db = db\<lparr>audits := map (\<lambda>b. if ca_id b = ca_id a
                           then b\<lparr>ca_email_status := mail, ca_whatsapp_status := wa\<rparr> else b) (audits db)\<rparr>
                in (Inr (mail, wa), log_admin adm ''RESEND_CREDENTIALS'' (ca_username a) ''SUCCESS''
                      [(''audit_id'', JStr audit_id)] now db)))"

section \<open>The audit pages\<close>

text \<open>A Python slice, whose bounds may be negative.\<close>

definition slice_bound :: "int \<Rightarrow> nat \<Rightarrow> nat" where
  "slice_bound i n = (if i < 0 then nat (max 0 (i + int n)) else min n (nat i))"

definition py_slice :: "int \<Rightarrow> int \<Rightarrow> 'a list \<Rightarrow> 'a list" where
  "py_slice a b xs = (let lo = slice_bound a (length xs); hi = slice_bound b (length xs)
     in take (hi - lo) (drop lo xs))"

definition page_of :: "int \<Rightarrow> int \<Rightarrow> 'a list \<Rightarrow> 'a list" where
  "page_of page limit xs = py_slice ((page - 1) * limit) ((page - 1) * limit + limit) xs"

definition page_count :: "int \<Rightarrow> 'a list \<Rightarrow> int" where
  "page_count limit xs = (if limit = 0 then 1 else \<lceil>(of_nat (length xs) :: rat) / of_int limit\<rceil>)"

definition in_text :: "string \<Rightarrow> string option \<Rightarrow> bool" where
  "in_text needle field = contains_str needle (lower (case field of None \<Rightarrow> [] | Some f \<Rightarrow> f))"

definition audit_matches :: "string \<Rightarrow> string \<Rightarrow> string \<Rightarrow> credential_audit \<Rightarrow> bool" where
  "audit_matches search way status a \<longleftrightarrow>
     (search = [] \<or> (\<exists>f \<in> {Some (ca_username a), ca_email a, ca_phone a, Some (ca_issuer a)}. in_text (lower search) f))
     \<and> (way = [] \<or> ca_delivery a = upper way)
     \<and> (status = [] \<or> contains_str (upper status) (upper (ca_email_status a @ ''|'' @ ca_whatsapp_status a)))"

text \<open>Newest first: rows are inserted in the order of their timestamps.\<close>

definition get_audit_trail ::
  "int \<Rightarrow> int \<Rightarrow> string \<Rightarrow> string \<Rightarrow> string \<Rightarrow> identity_db \<Rightarrow> nat \<times> int \<times> credential_audit list" where
  "get_audit_trail page limit search way status db =
     (let rows = filter (audit_matches search way status) (rev (audits db))
      in (length rows, page_count limit rows, page_of page limit rows))"

definition activity_matches :: "string \<Rightarrow> string \<Rightarrow> admin_entry \<Rightarrow> bool" where
  "activity_matches search action a \<longleftrightarrow>
     (search = [] \<or> (\<exists>f \<in> {ad_name a, ad_action a, ad_user a, ad_ip a}. in_text (lower search) (Some f)))
     \<and> (action = [] \<or> ad_action a = upper action)"

definition get_admin_activity ::
  "int \<Rightarrow> int \<Rightarrow> string \<Rightarrow> string \<Rightarrow> identity_db \<Rightarrow> nat \<times> int \<times> admin_entry list" where
  "get_admin_activity page limit search action db =
     (let rows = filter (activity_matches search action) (sort_desc ad_time (admin_entries db))
      in (length rows, page_count limit rows, page_of page limit rows))"

section \<open>The requests\<close>

definition display_name :: "user \<Rightarrow> string" where
  "display_name u =
     (let name = strip ((case u_first u of None \<Rightarrow> [] | Some f \<Rightarrow> f) @ '' '' @ (case u_last u of None \<Rightarrow> [] | Some l \<Rightarrow> l))
      in if name \<noteq> [] then name else if u_username u \<noteq> [] then u_username u
         else if u_email u \<noteq> [] then u_email u else ''Administrator'')"

definition issuer_of :: "user \<Rightarrow> string \<Rightarrow> issuer" where
  "issuer_of u ip = \<lparr>is_id = (if u_id u = [] then ''unknown'' else u_id u), is_name = display_name u, is_ip = ip\<rparr>"

definition as_admin ::
  "identity_env \<Rightarrow> time \<Rightarrow> caller \<Rightarrow> (user \<Rightarrow> identity_db \<Rightarrow> 'a reply) \<Rightarrow> identity_db \<Rightarrow> 'a reply" where
  "as_admin env now = (\<lambda>(token, uid, code) k db.
     case get_current_user env now uid code token db of
       (Inl e, db') \<Rightarrow> (Inl e, db')
     | (Inr u, db') \<Rightarrow> if has_role ADMIN_ROLES u then k u db'
         else (Inl (403, ''Administrator privileges required''), db'))"

datatype request =
    Register string string string string string string string int
  | Login string string
  | Verify_Otp string string
  | Forgot string bool string
  | Reset string string
  | Admin_Login string string string
  | Dev_Bypass string string
  | Activate string string
  | Validate_Token string
  | Create_User caller string string string string string string int
  | Update_User caller string user_update
  | Delete_User caller string
  | Approve caller string string int string
  | Regenerate caller string string bool
  | Deny caller string string
  | Issue caller string draw issue_request
  | Resend caller string string

datatype answer =
    A_User user
  | A_Token token_reply
  | A_Done
  | A_Forgot "bool option"
  | A_Code "string \<times> bool \<times> string"
  | A_Validation validation
  | A_Issued "string \<times> string \<times> string"
  | A_Resent "string \<times> string"

definition answer :: "('a \<Rightarrow> answer) \<Rightarrow> 'a reply \<Rightarrow> answer reply" where
  "answer f r = (map_sum (\<lambda>e. e) f (fst r), snd r)"

record service =
  sv_env :: identity_env
  sv_courier :: courier
  sv_limit :: nat

fun serve :: "service \<Rightarrow> time \<Rightarrow> request \<Rightarrow> identity_db \<Rightarrow> answer reply" where
  "serve sv now (Register uid un em pw f l d lv) db = answer A_User (register_user (sv_env sv) uid un em pw f l d lv db)"
| "serve sv now (Login n pw) db = answer A_Token (login (sv_env sv) now n pw db)"
| "serve sv now (Verify_Otp em otp) db = answer A_Token (verify_otp_and_token (sv_env sv) now em otp db)"
| "serve sv now (Forgot secret sent em) db = answer A_Forgot (forgot_password (sv_env sv) now secret sent em db)"
| "serve sv now (Reset tok pw) db = answer (\<lambda>_. A_Done) (reset_password (sv_env sv) now tok pw db)"
| "serve sv now (Admin_Login em pw c) db = answer A_Token (admin_login (sv_env sv) now em pw c db)"
| "serve sv now (Dev_Bypass uid c) db = answer A_Token (dev_bypass (sv_env sv) now uid c db)"
| "serve sv now (Activate v pw) db = answer A_Token (activate_account (sv_env sv) now v pw db)"
| "serve sv now (Validate_Token v) db = answer A_Validation (validate_one_time_token (sv_env sv) now v db)"
| "serve sv now (Create_User who uid em pw f l r lv) db =
     as_super (sv_env sv) now who (\<lambda>_ db. answer A_User (create_user (sv_env sv) uid em pw f l r lv db)) db"
| "serve sv now (Update_User who uid up) db =
     as_super (sv_env sv) now who (\<lambda>_ db. answer A_User (update_user (sv_env sv) uid up db)) db"
| "serve sv now (Delete_User who uid) db =
     as_super (sv_env sv) now who (\<lambda>_ db. answer (\<lambda>_. A_Done) (delete_user (sv_env sv) uid db)) db"
| "serve sv now (Approve who uid r lv c) db =
     as_super (sv_env sv) now who (\<lambda>a db. answer A_User (approve_user (sv_env sv) a uid r lv c db)) db"
| "serve sv now (Regenerate who uid c sent) db =
     as_super (sv_env sv) now who (\<lambda>_ db. answer A_Code (regenerate_admin_code (sv_env sv) uid c sent db)) db"
| "serve sv now (Deny who uid reason) db =
     as_super (sv_env sv) now who (\<lambda>a db. answer (\<lambda>_. A_Done) (deny_user (sv_env sv) a uid reason db)) db"
| "serve sv now (Issue who ip dr ir) db =
     as_admin (sv_env sv) now who (\<lambda>a db. answer A_Issued
       (issue_credentials (sv_env sv) (sv_courier sv) (sv_limit sv) now dr (issuer_of a ip) ir db)) db"
| "serve sv now (Resend who ip audit) db =
     as_admin (sv_env sv) now who (\<lambda>a db. answer A_Resent
       (resend_credentials (sv_env sv) (sv_courier sv) (sv_limit sv) now (issuer_of a ip) audit db)) db"

definition identity_step :: "service \<Rightarrow> identity_db \<Rightarrow> time \<times> request \<Rightarrow> identity_db" where
  "identity_step sv db = (\<lambda>(now, r). snd (serve sv now r db))"

section \<open>Tokens are single use\<close>

definition spent :: "string \<Rightarrow> credential_token list \<Rightarrow> bool" where
  "spent i ts \<longleftrightarrow> i \<in> set (map ct_id ts) \<and> (\<forall>t \<in> set ts. ct_id t = i \<longrightarrow> ct_used t)"

lemma tokens_frame [simp]:
  "tokens (put_user u db) = tokens db" "tokens (remove_user i db) = tokens db"
  "tokens (log_access e db) = tokens db" "tokens (log_admin a b c d ds t db) = tokens db"
  "insert_user env u db = Some db' \<Longrightarrow> tokens db' = tokens db"
  by (auto simp: put_user_def remove_user_def log_access_def log_admin_def insert_user_def split: if_splits)

lemma use_token_ids: "map ct_id (tokens (use_token now t db)) = map ct_id (tokens db)"
  by (auto simp: use_token_def)

lemma tokens_use_put: "tokens (use_token now t (put_user u db)) = tokens (use_token now t db)"
  by (simp add: use_token_def)

lemma spent_use: "s \<in> set (tokens db) \<Longrightarrow> spent (ct_id s) (tokens (use_token now s db))"
  unfolding spent_def use_token_ids by (auto simp: use_token_def)

lemma spent_use_other: "spent i (tokens db) \<Longrightarrow> spent i (tokens (use_token now t db))"
  unfolding spent_def use_token_ids by (auto simp: use_token_def)

lemma spent_insert_token: "spent i (tokens db) \<Longrightarrow> insert_token env t db = Some db' \<Longrightarrow> spent i (tokens db')"
  by (fastforce simp: spent_def insert_token_def same_text_def split: if_splits)

lemma tokens_register [simp]: "tokens (snd (register_user env uid un em pw f l d lv db)) = tokens db"
  by (simp add: register_user_def Let_def split: option.split)

lemma tokens_otp [simp]: "tokens (snd (verify_otp_and_token env now em otp db)) = tokens db"
  by (simp add: verify_otp_and_token_def split: option.split)

lemma tokens_login [simp]: "tokens (snd (login env now n pw db)) = tokens db"
  by (simp add: login_def Let_def split: option.split)

lemma tokens_forgot [simp]: "tokens (snd (forgot_password env now s sent em db)) = tokens db"
  by (simp add: forgot_password_def split: option.split)

lemma tokens_reset [simp]: "tokens (snd (reset_password env now tok pw db)) = tokens db"
  by (simp add: reset_password_def split: option.split)

lemma tokens_admin_login [simp]: "tokens (snd (admin_login env now em pw c db)) = tokens db"
  by (simp add: admin_login_def Let_def split: option.split)

lemma tokens_dev_token [simp]: "tokens (snd (dev_bypass_token env now uid c db)) = tokens db"
  by (simp add: dev_bypass_token_def Let_def split: option.split)

lemma tokens_dev [simp]: "tokens (snd (dev_bypass env now uid c db)) = tokens db"
  by (simp add: dev_bypass_def)

lemma snd_resolve [simp]: "snd (resolve_user env em db) = db"
  by (simp add: resolve_user_def split: option.split)

lemma tokens_current [simp]: "tokens (snd (get_current_user env now uid c tok db)) = tokens db"
proof -
  have "tokens db' = tokens db" if "dev_bypass_token env now uid c db = (r, db')" for r db'
    using tokens_dev_token[of env now uid c db] that by simp
  then show ?thesis
    by (simp add: get_current_user_def split: option.split prod.split sum.split)
qed

lemma tokens_require [simp]: "tokens (snd (require_role env now allowed who db)) = tokens db"
proof -
  obtain tok uid c where who: "who = (tok, uid, c)" by (cases who)
  have "tokens db' = tokens db" if "get_current_user env now uid c tok db = (r, db')" for r db'
    using tokens_current[of env now uid c tok db] that by simp
  then show ?thesis
    by (auto simp: who require_role_def get_current_active_user_def split: prod.split sum.split)
qed

lemma tokens_administration [simp]:
  "tokens (snd (create_user env uid em pw f l r lv db)) = tokens db"
  "tokens (snd (update_user env uid up db)) = tokens db"
  "tokens (snd (delete_user env uid db)) = tokens db"
  "tokens (snd (approve_user env a uid r lv c db)) = tokens db"
  "tokens (snd (regenerate_admin_code env uid c sent db)) = tokens db"
  "tokens (snd (deny_user env a uid reason db)) = tokens db"
  by (simp_all add: create_user_def update_user_def delete_user_def approve_user_def
      regenerate_admin_code_def deny_user_def Let_def split: option.split)

lemma tokens_resend [simp]: "tokens (snd (resend_credentials env cr limit now adm aid db)) = tokens db"
  by (simp add: resend_credentials_def Let_def split: option.split)

lemma snd_answer [simp]: "snd (answer f r) = snd r"
  by (simp add: answer_def)

lemma as_super_spent:
  assumes "\<And>a d. spent i (tokens d) \<Longrightarrow> spent i (tokens (snd (k a d)))" and "spent i (tokens db)"
  shows "spent i (tokens (snd (as_super env now who k db)))"
proof -
  have "spent i (tokens d)" if "require_role env now [''SUPER_ADMIN''] who db = (r, d)" for r d
    using tokens_require[of env now "[''SUPER_ADMIN'']" who db] that assms(2) by simp
  then show ?thesis using assms(1) by (auto simp: as_super_def split: prod.split sum.split)
qed

lemma as_admin_spent:
  assumes "\<And>a d. spent i (tokens d) \<Longrightarrow> spent i (tokens (snd (k a d)))" and "spent i (tokens db)"
  shows "spent i (tokens (snd (as_admin env now who k db)))"
proof -
  obtain tok uid c where who: "who = (tok, uid, c)" by (cases who)
  have "spent i (tokens d)" if "get_current_user env now uid c tok db = (r, d)" for r d
    using tokens_current[of env now uid c tok db] that assms(2) by simp
  then show ?thesis using assms(1) by (auto simp: as_admin_def who split: prod.split sum.split)
qed

lemma issue_spent: "spent i (tokens db) \<Longrightarrow> spent i (tokens (snd (issue_credentials env cr limit now dr adm ir db)))"
proof -
  assume i: "spent i (tokens db)"
  have "spent i (tokens db')" if "insert_token env s db = Some db'"
    for s db'
    using spent_insert_token[OF i that] .
  then show ?thesis using i by (simp add: issue_credentials_def Let_def split: option.split)
qed

lemma validate_spent: "spent i (tokens db) \<Longrightarrow> spent i (tokens (snd (validate_one_time_token env now v db)))"
  by (simp add: validate_one_time_token_def Let_def spent_use_other split: option.split)

lemma activate_spent: "spent i (tokens db) \<Longrightarrow> spent i (tokens (snd (activate_account env now v pw db)))"
proof -
  assume i: "spent i (tokens db)"
  have "spent i (tokens (use_token now t (put_user u db)))" for t u
    using i by (intro spent_use_other) simp
  then show ?thesis using i by (simp add: activate_account_def Let_def split: option.split)
qed

lemma serve_spent: "spent i (tokens db) \<Longrightarrow> spent i (tokens (snd (serve sv now r db)))"
  by (cases r) (simp_all add: as_super_spent as_admin_spent issue_spent validate_spent activate_spent)

text \<open>The token a request redeems, by setting a password or by a successful validation.\<close>

definition redeemed_by :: "service \<Rightarrow> identity_db \<Rightarrow> time \<times> request \<Rightarrow> string option" where
  "redeemed_by sv db = (\<lambda>(now, r).
     (case (r, fst (serve sv now r db)) of
        (Activate v pw, Inr _) \<Rightarrow> map_option ct_id (token_by_value (sv_env sv) v db)
      | (Validate_Token v, Inr (A_Validation (Valid _ _ _))) \<Rightarrow> map_option ct_id (token_by_value (sv_env sv) v db)
      | _ \<Rightarrow> None))"

fun redemptions :: "service \<Rightarrow> (time \<times> request) list \<Rightarrow> identity_db \<Rightarrow> string list" where
  "redemptions sv [] db = []"
| "redemptions sv (e # es) db =
     (case redeemed_by sv db e of None \<Rightarrow> [] | Some i \<Rightarrow> [i]) @ redemptions sv es (identity_step sv db e)"

lemma token_by_value_in: "token_by_value env v db = Some t \<Longrightarrow> t \<in> set (tokens db)"
  by (auto simp: token_by_value_def find_Some_iff)

lemma redeemed_step:
  assumes "redeemed_by sv db e = Some i"
  shows "\<not> spent i (tokens db) \<and> spent i (tokens (identity_step sv db e))"
proof -
  obtain now r where e: "e = (now, r)" by (cases e)
  consider (act) v pw where "r = Activate v pw" | (val) v where "r = Validate_Token v"
    using assms by (cases r) (simp_all add: redeemed_by_def e del: serve.simps)
  then show ?thesis
  proof cases
    case act
    obtain x where x: "fst (activate_account (sv_env sv) now v pw db) = Inr x"
      using assms by (cases "fst (activate_account (sv_env sv) now v pw db)") (simp_all add: redeemed_by_def e act answer_def)
    obtain t where t: "token_by_value (sv_env sv) v db = Some t" "i = ct_id t"
      using assms by (auto simp: redeemed_by_def e act answer_def x)
    from x t(1) have "\<not> ct_used t"
      "tokens (snd (activate_account (sv_env sv) now v pw db)) = tokens (use_token now t db)"
      by (auto simp: activate_account_def Let_def tokens_use_put split: if_splits option.splits)
    then show ?thesis
      using spent_use[OF token_by_value_in[OF t(1)]] token_by_value_in[OF t(1)] t(2)
      by (auto simp: identity_step_def e act spent_def)
  next
    case val
    obtain y where y: "fst (validate_one_time_token (sv_env sv) now v db) = Inr y"
      using assms by (cases "fst (validate_one_time_token (sv_env sv) now v db)") (simp_all add: redeemed_by_def e val answer_def)
    obtain un fo ex where x: "fst (validate_one_time_token (sv_env sv) now v db) = Inr (Valid un fo ex)"
      using assms y by (cases y) (simp_all add: redeemed_by_def e val answer_def)
    obtain t where t: "token_by_value (sv_env sv) v db = Some t" "i = ct_id t"
      using assms by (auto simp: redeemed_by_def e val answer_def x)
    from x t(1) have "\<not> ct_used t" "tokens (snd (validate_one_time_token (sv_env sv) now v db)) = tokens (use_token now t db)"
      by (auto simp: validate_one_time_token_def Let_def split: if_splits option.splits)
    then show ?thesis
      using spent_use[OF token_by_value_in[OF t(1)]] token_by_value_in[OF t(1)] t(2)
      by (auto simp: identity_step_def e val spent_def)
  qed
qed

text \<open>C1. A credential token is redeemed at most once: over any sequence of requests, from any
  tables, no token appears twice among those redeemed, whether by setting a password with it or
  by having it validated. (So a link that was validated can no longer activate its account.)\<close>

theorem tokens_are_single_use: "distinct (redemptions sv es db)"
proof -
  have later: "i \<notin> set (redemptions sv es db)" if "spent i (tokens db)" for i es db
    using that
  proof (induction es arbitrary: db)
    case (Cons e es)
    then have "spent i (tokens (identity_step sv db e))"
      by (cases e) (simp add: identity_step_def serve_spent)
    then show ?case using Cons redeemed_step[of sv db e] by (auto split: option.splits)
  qed simp
  show ?thesis
  proof (induction es arbitrary: db)
    case (Cons e es)
    then show ?case using later redeemed_step[of sv db e] by (auto split: option.splits)
  qed simp
qed

section \<open>Who turns an account active\<close>

lemma resolve_user_Inr:
  "fst (resolve_user env em db) = Inr u \<longleftrightarrow> user_by_email env em db = Some u \<and> u_status u = Some ''ACTIVE''"
  by (auto simp: resolve_user_def split: option.splits)

text \<open>Without the development shortcut, a caller is the stored, active account its token names.\<close>

lemma get_current_user_plain:
  assumes "\<not> dev_bypass_enabled env"
  shows "get_current_user env now uid c token db =
    (if token = ''dev_bypass_token'' then (Inl CREDENTIALS_ERROR, db)
     else case jwt_decode env now token of
       Some (Some em) \<Rightarrow> resolve_user env em db | _ \<Rightarrow> (Inl CREDENTIALS_ERROR, db))"
  using assms by (auto simp: get_current_user_def split: option.split)


definition standing :: "identity_db \<Rightarrow> (string \<times> string option) set" where
  "standing db = (\<lambda>u. (u_id u, u_status u)) ` set (users db)"

lemma user_by_in:
  "user_by_email env x db = Some u \<Longrightarrow> u \<in> set (users db)"
  "user_by_username env x db = Some u \<Longrightarrow> u \<in> set (users db)"
  "user_by_id env x db = Some u \<Longrightarrow> u \<in> set (users db)"
  "user_by_otp env x db = Some u \<Longrightarrow> u \<in> set (users db)"
  by (auto simp: user_by_email_def user_by_username_def user_by_id_def user_by_otp_def find_Some_iff)

lemma standing_put: "standing (put_user v db) \<subseteq> insert (u_id v, u_status v) (standing db)"
  by (auto simp: standing_def put_user_def)

lemma standing_put_known:
  "(u_id v, u_status v) \<in> standing db \<Longrightarrow> standing (put_user v db) \<subseteq> standing db"
  using standing_put[of v db] by auto

lemma in_standing:
  "user_by_email env x db = Some u \<Longrightarrow> (u_id u, u_status u) \<in> standing db"
  "user_by_username env x db = Some u \<Longrightarrow> (u_id u, u_status u) \<in> standing db"
  "user_by_id env x db = Some u \<Longrightarrow> (u_id u, u_status u) \<in> standing db"
  "user_by_otp env x db = Some u \<Longrightarrow> (u_id u, u_status u) \<in> standing db"
  using user_by_in by (auto simp: standing_def)

lemmas known = standing_put_known in_standing

lemma standing_cong: "users db' = users db \<Longrightarrow> standing db' = standing db"
  by (simp add: standing_def)

lemma users_frame [simp]:
  "users (use_token now t db) = users db" "users (log_access e db) = users db"
  "users (log_admin a b c d ds now db) = users db"
  by (simp_all add: use_token_def log_access_def log_admin_def)

lemma standing_log: "standing (log_access e db) = standing db"
  by (simp add: standing_def)

lemma standing_insert:
  assumes "insert_user env u db = Some db'"
  shows "standing db' = insert (u_id u, u_status u) (standing db) \<and> (\<forall>v \<in> set (users db). u_id v \<noteq> u_id u)"
  using assms by (auto simp: insert_user_def standing_def same_text_def split: if_splits)

lemma standing_otp: "standing (snd (verify_otp_and_token env now em otp db)) = standing db"
  by (simp add: verify_otp_and_token_def split: option.split)

lemma standing_login: "standing (snd (login env now n pw db)) \<subseteq> standing db"
proof -
  have "standing (snd (verify_otp_and_token env now n otp (put_user (u\<lparr>u_last_login := Some now\<rparr>) db))) \<subseteq> standing db"
    if "user_by_email env n db = Some u \<or> user_by_username env n db = Some u" for u otp
    unfolding standing_otp using that by (intro standing_put_known) (auto dest: in_standing)
  then show ?thesis by (simp add: login_def standing_otp known split: option.split)
qed

lemma standing_forgot: "standing (snd (forgot_password env now s sent em db)) \<subseteq> standing db"
  by (simp add: forgot_password_def known split: option.split)

lemma standing_reset: "standing (snd (reset_password env now tok pw db)) \<subseteq> standing db"
  by (simp add: reset_password_def known split: option.split)

lemma standing_admin_login: "standing (snd (admin_login env now em pw c db)) \<subseteq> standing db"
proof -
  have "standing (put_user (u\<lparr>u_last_login := Some now\<rparr>) db) \<subseteq> standing db" if "user_by_email env em db = Some u" for u
    using in_standing(1)[OF that] by (intro standing_put_known) simp
  then show ?thesis by (simp add: admin_login_def Let_def split: option.split)
qed

lemma standing_register:
  "p \<in> standing (snd (register_user env uid un em pw f l d lv db)) \<Longrightarrow> p \<in> standing db \<or> snd p = Some ''PENDING''"
  by (auto simp: register_user_def Let_def dest!: standing_insert split: option.splits if_splits)

lemma standing_regenerate: "standing (snd (regenerate_admin_code env uid c sent db)) \<subseteq> standing db"
  by (simp add: regenerate_admin_code_def known split: option.split)

lemma standing_remove: "standing (remove_user i db) \<subseteq> standing db"
  by (auto simp: standing_def remove_user_def)

lemma standing_delete: "standing (snd (delete_user env uid db)) \<subseteq> standing db"
  by (simp add: delete_user_def standing_remove split: option.split)

lemma standing_deny: "standing (snd (deny_user env a uid reason db)) \<subseteq> standing db"
  by (simp add: deny_user_def standing_remove standing_log split: option.split)

lemma standing_validate: "standing (snd (validate_one_time_token env now v db)) = standing db"
  by (auto simp: validate_one_time_token_def Let_def standing_def split: option.split)

lemma standing_issue: "standing (snd (issue_credentials env cr limit now dr adm ir db)) = standing db"
  by (auto simp: issue_credentials_def Let_def standing_def insert_token_def split: option.split)

lemma standing_resend: "standing (snd (resend_credentials env cr limit now adm aid db)) = standing db"
  by (auto simp: resend_credentials_def Let_def standing_def split: option.split)

lemma as_super_plain:
  assumes "\<not> dev_bypass_enabled env"
  obtains (denied) e where "as_super env now who k db = (Inl e, db)"
  | (granted) a where "require_role env now [''SUPER_ADMIN''] who db = (Inr a, db)" "as_super env now who k db = k a db"
proof -
  obtain tok uid c where who: "who = (tok, uid, c)" by (cases who)
  have same: "snd (require_role env now [''SUPER_ADMIN''] who db) = db"
    using assms by (auto simp: who require_role_def get_current_active_user_def get_current_user_plain
        split: option.split prod.split sum.split) (metis snd_conv snd_resolve)+
  show thesis
    by (cases "require_role env now [''SUPER_ADMIN''] who db"; cases "fst (require_role env now [''SUPER_ADMIN''] who db)")
      (use same denied granted in \<open>auto simp: as_super_def\<close>)
qed

lemma as_admin_plain:
  assumes "\<not> dev_bypass_enabled env"
  shows "(\<exists>e. as_admin env now who k db = (Inl e, db)) \<or> (\<exists>a. as_admin env now who k db = k a db)"
proof -
  obtain tok uid c where who: "who = (tok, uid, c)" by (cases who)
  have same: "snd (get_current_user env now uid c tok db) = db"
    using assms by (auto simp: get_current_user_plain split: option.split)
  then show ?thesis
    by (cases "get_current_user env now uid c tok db"; cases "fst (get_current_user env now uid c tok db)")
      (auto simp: as_admin_def who)
qed

text \<open>What an approval, an update, an activation and a creation can add.\<close>

lemma standing_update:
  assumes "(i, s) \<in> standing (snd (update_user env uid up db))" "(i, s) \<notin> standing db"
  shows "\<exists>u. user_by_id env uid db = Some u \<and> i = u_id u \<and> uu_status up = Some s"
proof (cases "user_by_id env uid db")
  case (Some u)
  then have "(i, s) = (u_id u, set_opt (uu_status up) (u_status u))"
    using assms standing_put[of "apply_update up u" db]
    by (auto simp: update_user_def Let_def apply_update_def split: if_splits)
  then show ?thesis using Some in_standing(3)[OF Some] assms(2) by (auto simp: set_opt_def split: option.splits)
qed (use assms in \<open>simp add: update_user_def\<close>)

lemma standing_approve:
  assumes "(i, s) \<in> standing (snd (approve_user env a uid role level code db))" "(i, s) \<notin> standing db"
  shows "\<exists>u. user_by_id env uid db = Some u \<and> i = u_id u"
proof (cases "user_by_id env uid db")
  case (Some u)
  let ?v = "u\<lparr>u_status := Some ''ACTIVE'', u_role := Some role, u_clearance := Some level\<rparr>"
  have "(i, s) \<in> standing (put_user ?v db) \<union> standing (put_user (?v\<lparr>u_system_code := Some code\<rparr>) db)"
    using assms(1) Some by (auto simp: approve_user_def Let_def standing_log split: if_splits)
  then show ?thesis using Some assms(2) standing_put[of ?v db] standing_put[of "?v\<lparr>u_system_code := Some code\<rparr>" db] by auto
qed (use assms in \<open>simp add: approve_user_def\<close>)

lemma standing_activate:
  assumes "(i, s) \<in> standing (snd (activate_account env now v pw db))" "(i, s) \<notin> standing db"
  shows "\<exists>t u. token_by_value env v db = Some t \<and> \<not> ct_used t \<and> now \<le> ct_expires t
     \<and> token_user env t db = Some u \<and> i = u_id u"
proof -
  obtain t u where tu: "token_by_value env v db = Some t" "\<not> ct_used t" "now \<le> ct_expires t" "token_user env t db = Some u"
    and s: "(i, s) \<in> standing (put_user (u\<lparr>u_hash := hash_pw env pw, u_last_login := Some now,
         u_status := (if u_status u = Some ''PENDING'' then Some ''ACTIVE'' else u_status u)\<rparr>) db)"
    using assms by (auto simp: activate_account_def Let_def standing_cong[OF users_frame(1)] split: if_splits option.splits)
  then show ?thesis using standing_put assms(2) by fastforce
qed

lemma standing_create:
  assumes "(i, s) \<in> standing (snd (create_user env uid em pw f l r lv db))" "(i, s) \<notin> standing db"
  shows "i \<notin> u_id ` set (users db)"
  using assms by (auto simp: create_user_def Let_def dest!: standing_insert split: option.splits if_splits)

lemma standing_others:
  assumes dev: "\<not> dev_bypass_enabled (sv_env sv)"
    and r: "case r of Activate _ _ \<Rightarrow> False | Update_User _ _ _ \<Rightarrow> False | Approve _ _ _ _ _ \<Rightarrow> False
      | Create_User _ _ _ _ _ _ _ _ \<Rightarrow> False | Register _ _ _ _ _ _ _ _ \<Rightarrow> False | _ \<Rightarrow> True"
  shows "standing (snd (serve sv now r db)) \<subseteq> standing db"
proof (cases r)
  case (Delete_User who uid)
  from dev show ?thesis
    by (cases rule: as_super_plain[of "sv_env sv" now who "\<lambda>_ db. answer (\<lambda>_. A_Done) (delete_user (sv_env sv) uid db)" db])
      (use Delete_User standing_delete in auto)
next
  case (Deny who uid reason)
  from dev show ?thesis
    by (cases rule: as_super_plain[of "sv_env sv" now who "\<lambda>a db. answer (\<lambda>_. A_Done) (deny_user (sv_env sv) a uid reason db)" db])
      (use Deny standing_deny in auto)
next
  case (Regenerate who uid c sent)
  from dev show ?thesis
    by (cases rule: as_super_plain[of "sv_env sv" now who "\<lambda>_ db. answer A_Code (regenerate_admin_code (sv_env sv) uid c sent db)" db])
      (use Regenerate standing_regenerate in auto)
next
  case (Issue who ip dr ir)
  then show ?thesis
    using as_admin_plain[OF dev, of now who "\<lambda>a db. answer A_Issued
     (issue_credentials (sv_env sv) (sv_courier sv) (sv_limit sv) now dr (issuer_of a ip) ir db)" db]
    by (auto simp: standing_issue)
next
  case (Resend who ip audit)
  then show ?thesis
    using as_admin_plain[OF dev, of now who "\<lambda>a db. answer A_Resent
     (resend_credentials (sv_env sv) (sv_courier sv) (sv_limit sv) now (issuer_of a ip) audit db)" db]
    by (auto simp: standing_resend)
qed (use r standing_login standing_forgot standing_reset standing_admin_login dev in
    \<open>auto simp: standing_otp standing_validate dev_bypass_def\<close>)

text \<open>C3. A pending account becomes active in one of two ways only (the development shortcut being
  off): an active SUPER_ADMIN approves that account or sets its status, or somebody presents an
  unused, unexpired credential token that an administrator issued for its username or email. No
  registration, login, password reset, code check, creation of another account or delivery of
  credentials does it.\<close>

theorem pending_needs_approval:
  assumes dev: "\<not> dev_bypass_enabled (sv_env sv)" and ids: "distinct (map u_id (users db))"
    and u: "u \<in> set (users db)" "u_status u = Some ''PENDING''"
    and u': "u' \<in> set (users (snd (serve sv now r db)))" "u_id u' = u_id u" "u_status u' = Some ''ACTIVE''"
  shows "(\<exists>who a uid. require_role (sv_env sv) now [''SUPER_ADMIN''] who db = (Inr a, db)
            \<and> user_by_id (sv_env sv) uid db = Some u
            \<and> ((\<exists>role lv c. r = Approve who uid role lv c)
               \<or> (\<exists>up. r = Update_User who uid up \<and> uu_status up = Some (Some ''ACTIVE''))))
    \<or> (\<exists>v pw t. r = Activate v pw \<and> token_by_value (sv_env sv) v db = Some t \<and> \<not> ct_used t
         \<and> now \<le> ct_expires t \<and> token_user (sv_env sv) t db = Some u)"
proof -
  let ?p = "(u_id u, Some ''ACTIVE'')" and ?env = "sv_env sv"
  have eq: "w = u" if "w \<in> set (users db)" "u_id w = u_id u" for w
    using that u(1) ids by (auto simp: distinct_map inj_on_def)
  have new: "?p \<in> standing (snd (serve sv now r db))" unfolding standing_def using u' by (intro image_eqI[of _ _ u']) simp_all
  have old: "?p \<notin> standing db" using eq u(2) by (auto simp: standing_def)
  have tok: "token_user ?env t db = Some w \<Longrightarrow> w \<in> set (users db)" for t w
    by (auto simp: token_user_def dest: user_by_in split: option.splits)
  show ?thesis
  proof (cases r)
    case (Activate v pw)
    then obtain t w where t: "token_by_value ?env v db = Some t" "\<not> ct_used t" "now \<le> ct_expires t"
      "token_user ?env t db = Some w" "u_id u = u_id w"
      using standing_activate[of "u_id u" "Some ''ACTIVE''" ?env now v pw db] new old by auto
    have "w = u" using eq tok[OF t(4)] t(5) by simp
    then show ?thesis using t Activate by blast
  next
    case (Update_User who uid up)
    from dev show ?thesis
    proof (cases rule: as_super_plain[of ?env now who "\<lambda>_ db. answer A_User (update_user ?env uid up db)" db])
      case (granted a)
      then obtain w where w: "user_by_id ?env uid db = Some w" "u_id u = u_id w" "uu_status up = Some (Some ''ACTIVE'')"
        using standing_update[of "u_id u" "Some ''ACTIVE''" ?env uid up db] new old by (auto simp: Update_User)
      have "w = u" using eq user_by_in(3)[OF w(1)] w(2) by simp
      then show ?thesis using w granted(1) Update_User by blast
    qed (use new old Update_User in auto)
  next
    case (Approve who uid role lv c)
    from dev show ?thesis
    proof (cases rule: as_super_plain[of ?env now who "\<lambda>a db. answer A_User (approve_user ?env a uid role lv c db)" db])
      case (granted a)
      then obtain w where w: "user_by_id ?env uid db = Some w" "u_id u = u_id w"
        using standing_approve[of "u_id u" "Some ''ACTIVE''" ?env a uid role lv c db] new old by (auto simp: Approve)
      have "w = u" using eq user_by_in(3)[OF w(1)] w(2) by simp
      then show ?thesis using w granted(1) Approve by blast
    qed (use new old Approve in auto)
  next
    case (Create_User who uid em pw f l ro lv)
    from dev show ?thesis
    proof (cases rule: as_super_plain[of ?env now who "\<lambda>_ db. answer A_User (create_user ?env uid em pw f l ro lv db)" db])
      case (granted a)
      then show ?thesis
        using standing_create[of "u_id u" "Some ''ACTIVE''" ?env uid em pw f l ro lv db] new old u(1) Create_User by auto
    qed (use new old Create_User in auto)
  next
    case (Register uid un em pw f l d lv)
    then show ?thesis using standing_register[of ?p] new old by fastforce
  qed (use subsetD[OF standing_others[OF dev, of r now db] new] old in \<open>simp_all del: serve.simps\<close>)
qed

section \<open>Unique names and tokens\<close>

definition identity_wf :: "identity_env \<Rightarrow> identity_db \<Rightarrow> bool" where
  "identity_wf env db \<longleftrightarrow> distinct (map (collate env \<circ> u_id) (users db))
     \<and> distinct (map (collate env \<circ> u_username) (users db)) \<and> distinct (map (collate env \<circ> u_email) (users db))
     \<and> distinct (map (collate env \<circ> ct_id) (tokens db)) \<and> distinct (map (collate env \<circ> ct_token) (tokens db))"

definition naming :: "identity_db \<Rightarrow> (string \<times> string \<times> string) set" where
  "naming db = (\<lambda>u. (u_id u, u_username u, u_email u)) ` set (users db)"

lemma wf_ids: "identity_wf env db \<Longrightarrow> distinct (map u_id (users db))"
  unfolding identity_wf_def by (metis distinct_map list.map_comp)

lemma in_naming:
  "user_by_email env x db = Some u \<Longrightarrow> (u_id u, u_username u, u_email u) \<in> naming db"
  "user_by_username env x db = Some u \<Longrightarrow> (u_id u, u_username u, u_email u) \<in> naming db"
  "user_by_id env x db = Some u \<Longrightarrow> (u_id u, u_username u, u_email u) \<in> naming db"
  "user_by_otp env x db = Some u \<Longrightarrow> (u_id u, u_username u, u_email u) \<in> naming db"
  using user_by_in by (auto simp: naming_def)

lemma wf_put:
  assumes wf: "identity_wf env db" and v: "(u_id v, u_username v, u_email v) \<in> naming db"
  shows "identity_wf env (put_user v db)"
proof -
  obtain u where u: "u \<in> set (users db)" "u_id v = u_id u" "u_username v = u_username u" "u_email v = u_email u"
    using v by (auto simp: naming_def)
  have "w = u" if "w \<in> set (users db)" "u_id w = u_id v" for w
    using that u wf_ids[OF wf] by (auto simp: distinct_map inj_on_def)
  then have "map (f \<circ> g) (users (put_user v db)) = map (f \<circ> g) (users db)" if "g v = g u"
    for f :: "string \<Rightarrow> string" and g
    using that by (auto simp: put_user_def)
  then show ?thesis using wf u unfolding identity_wf_def tokens_frame(1) by simp
qed

lemma wf_insert: "identity_wf env db \<Longrightarrow> insert_user env u db = Some db' \<Longrightarrow> identity_wf env db'"
  by (auto simp: identity_wf_def insert_user_def same_text_def split: if_splits; metis)

lemma wf_insert_token: "identity_wf env db \<Longrightarrow> insert_token env t db = Some db' \<Longrightarrow> identity_wf env db'"
  by (auto simp: identity_wf_def insert_token_def same_text_def split: if_splits; metis)

lemma wf_remove: "identity_wf env db \<Longrightarrow> identity_wf env (remove_user i db)"
  by (simp add: identity_wf_def remove_user_def distinct_map_filter)

lemma wf_use: "identity_wf env (use_token now t db) = identity_wf env db"
proof -
  have "map (f \<circ> ct_id) (tokens (use_token now t db)) = map (f \<circ> ct_id) (tokens db)"
    "map (f \<circ> ct_token) (tokens (use_token now t db)) = map (f \<circ> ct_token) (tokens db)" for f :: "string \<Rightarrow> string"
    by (auto simp: use_token_def)
  then show ?thesis unfolding identity_wf_def users_frame by simp
qed

lemma wf_cong: "users db' = users db \<Longrightarrow> tokens db' = tokens db \<Longrightarrow> identity_wf env db' = identity_wf env db"
  by (simp add: identity_wf_def)

lemma wf_logs [simp]:
  "identity_wf env (log_access e db) = identity_wf env db"
  "identity_wf env (log_admin a b c d ds now db) = identity_wf env db"
  "identity_wf env (db\<lparr>audits := as\<rparr>) = identity_wf env db"
  by (intro wf_cong; simp)+

lemma wf_otp: "identity_wf env (snd (verify_otp_and_token env now em otp db)) = identity_wf env db"
  by (simp add: verify_otp_and_token_def split: option.split)

lemma wf_register: "identity_wf env db \<Longrightarrow> identity_wf env (snd (register_user env uid un em pw f l d lv db))"
  by (auto simp: register_user_def Let_def intro: wf_insert split: option.split)

lemma wf_create: "identity_wf env db \<Longrightarrow> identity_wf env (snd (create_user env uid em pw f l ro lv db))"
  by (auto simp: create_user_def Let_def intro: wf_insert split: option.split)

lemma wf_login: "identity_wf env db \<Longrightarrow> identity_wf env (snd (login env now n pw db))"
  by (auto simp: login_def wf_otp intro!: wf_put dest: in_naming split: option.split)

lemma wf_forgot: "identity_wf env db \<Longrightarrow> identity_wf env (snd (forgot_password env now s sent em db))"
  by (auto simp: forgot_password_def intro!: wf_put dest: in_naming split: option.split)

lemma wf_reset: "identity_wf env db \<Longrightarrow> identity_wf env (snd (reset_password env now tok pw db))"
  by (auto simp: reset_password_def intro!: wf_put dest: in_naming split: option.split)

lemma wf_update: "identity_wf env db \<Longrightarrow> identity_wf env (snd (update_user env uid up db))"
  by (auto simp: update_user_def apply_update_def Let_def intro!: wf_put dest: in_naming split: option.split)

lemma wf_regenerate: "identity_wf env db \<Longrightarrow> identity_wf env (snd (regenerate_admin_code env uid c sent db))"
  by (auto simp: regenerate_admin_code_def intro!: wf_put dest: in_naming split: option.split)

lemma wf_approve: "identity_wf env db \<Longrightarrow> identity_wf env (snd (approve_user env a uid ro lv c db))"
  by (auto simp: approve_user_def Let_def intro!: wf_put dest: in_naming split: option.split)

lemma wf_delete: "identity_wf env db \<Longrightarrow> identity_wf env (snd (delete_user env uid db))"
  by (simp add: delete_user_def wf_remove split: option.split)

lemma wf_deny: "identity_wf env db \<Longrightarrow> identity_wf env (snd (deny_user env a uid reason db))"
  by (simp add: deny_user_def wf_remove split: option.split)

lemma wf_admin_login:
  assumes wf: "identity_wf env db"
  shows "identity_wf env (snd (admin_login env now em pw c db))"
proof -
  have "identity_wf env (put_user (u\<lparr>u_last_login := Some now\<rparr>) db)" if "user_by_email env em db = Some u" for u
    using in_naming(1)[OF that] wf by (intro wf_put) simp_all
  then show ?thesis using wf by (simp add: admin_login_def Let_def split: option.split)
qed

lemma wf_dev_token:
  assumes wf: "identity_wf env db"
  shows "identity_wf env (snd (dev_bypass_token env now uid c db))"
proof (cases "user_by_email env DEV_BYPASS_EMAIL db")
  case (Some u)
  then show ?thesis using wf in_naming(1)[OF Some] by (simp add: dev_bypass_token_def Let_def wf_put)
qed (use wf wf_insert in \<open>simp add: dev_bypass_token_def Let_def split: option.split\<close>)

lemma wf_current: "identity_wf env db \<Longrightarrow> identity_wf env (snd (get_current_user env now uid c tok db))"
proof -
  assume wf: "identity_wf env db"
  have "identity_wf env db'" if "dev_bypass_token env now uid c db = (r, db')" for r db'
    using wf_dev_token[OF wf, of now uid c] that by simp
  then show ?thesis using wf by (simp add: get_current_user_def split: option.split prod.split sum.split)
qed

lemma wf_as_super:
  assumes "\<And>a d. identity_wf env d \<Longrightarrow> identity_wf env (snd (k a d))" and wf: "identity_wf env db"
  shows "identity_wf env (snd (as_super env now who k db))"
proof -
  obtain tok uid c where who: "who = (tok, uid, c)" by (cases who)
  have "identity_wf env d" if "get_current_user env now uid c tok db = (r, d)" for r d
    using wf_current[OF wf, of now uid c tok] that by simp
  then show ?thesis using assms(1)
    by (auto simp: as_super_def require_role_def get_current_active_user_def who split: prod.split sum.split)
qed

lemma wf_as_admin:
  assumes "\<And>a d. identity_wf env d \<Longrightarrow> identity_wf env (snd (k a d))" and wf: "identity_wf env db"
  shows "identity_wf env (snd (as_admin env now who k db))"
proof -
  obtain tok uid c where who: "who = (tok, uid, c)" by (cases who)
  have "identity_wf env d" if "get_current_user env now uid c tok db = (r, d)" for r d
    using wf_current[OF wf, of now uid c tok] that by simp
  then show ?thesis using assms(1) by (auto simp: as_admin_def who split: prod.split sum.split)
qed

lemma wf_issue: "identity_wf env db \<Longrightarrow> identity_wf env (snd (issue_credentials env cr limit now dr adm ir db))"
  by (auto simp: issue_credentials_def Let_def intro: wf_insert_token split: option.split)

lemma wf_resend: "identity_wf env db \<Longrightarrow> identity_wf env (snd (resend_credentials env cr limit now adm aid db))"
  by (simp add: resend_credentials_def Let_def split: option.split)

lemma wf_validate: "identity_wf env db \<Longrightarrow> identity_wf env (snd (validate_one_time_token env now v db))"
  by (simp add: validate_one_time_token_def Let_def wf_use split: option.split)

lemma wf_activate:
  assumes wf: "identity_wf env db"
  shows "identity_wf env (snd (activate_account env now v pw db))"
proof -
  have "identity_wf env (put_user (u\<lparr>u_hash := h, u_last_login := Some now, u_status := st\<rparr>) db)"
    if "token_user env t db = Some u" for t u h st
    using wf that by (intro wf_put) (auto simp: token_user_def dest: in_naming split: option.splits)
  then show ?thesis using wf by (simp add: activate_account_def Let_def wf_use split: option.split)
qed

lemmas wf_operations = wf_otp wf_register wf_create wf_login wf_forgot wf_reset wf_update wf_regenerate wf_approve
  wf_delete wf_deny wf_admin_login wf_dev_token wf_issue wf_resend wf_validate wf_activate

interpretation identity: event_machine "identity_step sv" "identity_wf (sv_env sv)" for sv
proof
  fix sv :: service and db and e :: "time \<times> request"
  assume wf: "identity_wf (sv_env sv) db"
  obtain now r where e: "e = (now, r)" by (cases e)
  have "identity_wf (sv_env sv) (snd (serve sv now r db))"
    by (cases r) (simp_all add: wf wf_operations dev_bypass_def wf_as_super wf_as_admin)
  then show "identity_wf (sv_env sv) (identity_step sv db e)" by (simp add: identity_step_def e)
qed

definition no_identities :: identity_db where
  "no_identities = \<lparr>users = [], tokens = [], audits = [], access_log = [], admin_entries = []\<rparr>"

lemma reachable_wf: "identity_wf (sv_env sv) (foldl (identity_step sv) no_identities es)"
  by (rule identity.run_inv) (simp add: identity_wf_def no_identities_def)

text \<open>The code check of the second login step proves nothing: an email address is enough to be
  handed a token for the account, whatever its status.\<close>

lemma otp_needs_no_secret:
  "user_by_email env email db = Some u \<Longrightarrow>
   verify_otp_and_token env now email otp db = (Inr (token_for env now u), db)"
  by (simp add: verify_otp_and_token_def)

text \<open>An issued password is delivered but never stored with an account.\<close>

lemma issued_password_is_not_stored:
  "users (snd (issue_credentials env cr limit now dr adm ir db)) = users db"
  by (auto simp: issue_credentials_def Let_def insert_token_def split: option.split)

text \<open>A refused issue leaves no trace, not even the rate-limit entry it meant to log.\<close>

lemma rate_limited_issue_leaves_no_entry:
  "\<not> rate_limit_check env limit now (is_id adm) db \<Longrightarrow>
   snd (issue_credentials env cr limit now dr adm ir db) = db"
  by (simp add: issue_credentials_def)

section \<open>Examples\<close>

definition demo_identity :: identity_env where
  "demo_identity = \<lparr>check_pw = (\<lambda>p h. p = h), hash_pw = (\<lambda>p. p), jwt_encode = cl_sub,
     jwt_decode = (\<lambda>_ t. Some (Some t)), collate = lower, getenv = (\<lambda>_. None), driver_error = []\<rparr>"

definition demo_user :: "string \<Rightarrow> string \<Rightarrow> string \<Rightarrow> user" where
  "demo_user name role status =
     \<lparr>u_id = name, u_username = name, u_email = name, u_hash = ''pw'', u_first = None, u_last = None,
      u_department = None, u_clearance = Some 3, u_requested = None, u_role = Some role,
      u_status = Some status, u_otp = None, u_otp_expires = None, u_system_code = None, u_last_login = None\<rparr>"

definition demo_identities :: identity_db where
  "demo_identities = no_identities\<lparr>users := [demo_user ''boss'' ''SUPER_ADMIN'' ''ACTIVE'',
     demo_user ''new'' ''OPERATIVE'' ''PENDING'']\<rparr>"

definition demo_service :: service where
  "demo_service = \<lparr>sv_env = demo_identity,
     sv_courier = \<lparr>cr_mail = (\<lambda>_. ''SENT''), cr_enabled = False, cr_from = [], cr_inbound = (\<lambda>_. Inr []),
                   cr_create = (\<lambda>_. Inr ())\<rparr>, sv_limit = 20\<rparr>"

lemma demo_bypass_off: "\<not> dev_bypass_enabled demo_identity" "\<not> dev_bypass_enabled (sv_env demo_service)"
  by code_simp+


theorem pending_needs_approval_witness:
  "\<exists>who a uid. require_role demo_identity 5 [''SUPER_ADMIN''] who demo_identities = (Inr a, demo_identities)
     \<and> user_by_id demo_identity uid demo_identities = Some (demo_user ''new'' ''OPERATIVE'' ''PENDING'')"
proof -
  let ?r = "Approve (''boss'', [], []) ''new'' ''ANALYST'' 2 ''AAA-111''"
  let ?u = "demo_user ''new'' ''OPERATIVE'' ''PENDING''"
  let ?u' = "?u\<lparr>u_status := Some ''ACTIVE'', u_role := Some ''ANALYST'', u_clearance := Some 2\<rparr>"
  have "?u' \<in> set (users (snd (serve demo_service 5 ?r demo_identities)))" by code_simp
  moreover have "distinct (map u_id (users demo_identities))" "?u \<in> set (users demo_identities)"
    by (simp_all add: demo_identities_def demo_user_def)
  ultimately show ?thesis
    using pending_needs_approval[OF demo_bypass_off(2), of demo_identities ?u ?u' 5 ?r]
    by (auto simp: demo_user_def demo_service_def)
qed

end
