(* ===== verification/Sessions.thy ===== *)
theory Sessions
  imports Soc_Db "HOL-Library.Option_ord"
begin

text \<open>
  The session engine (\<open>backend/app/services/session_engine.py\<close>): every minute it takes up to 1000
  raw events that belong to no session, groups them by source address and cuts every address's
  stream into sessions wherever more than thirty minutes pass without an event.

  The state is the two tables it touches, \<open>raw_events\<close> as read here and \<open>attacker_sessions\<close>. A pass
  is one transaction: an insert that violates the primary key of \<open>attacker_sessions\<close> raises, and
  then nothing of the pass is kept. \<open>int(ts.timestamp())\<close> of a naive time stamp reads the time
  zone of the machine, so it is the argument \<open>epoch\<close>. The database orders null time stamps
  first, as MariaDB does.
\<close>

record sighting =
  rv_id :: string
  rv_timestamp :: "time option"
  rv_ip :: string
  rv_session :: "string option"
  rv_score :: "rat option"
  rv_geo :: json

record geo_session = attacker_session +
  as_country :: json

record session_db =
  sightings :: "sighting list"
  attacker_sessions :: "geo_session list"

definition SESSION_TIMEOUT :: time where
  "SESSION_TIMEOUT = minutes 30"

definition UNMAPPED_BATCH :: nat where
  "UNMAPPED_BATCH = 1000"

definition risk_level :: "rat \<Rightarrow> string" where
  "risk_level max_score =
     (if max_score \<ge> 80 then ''CRITICAL'' else if max_score \<ge> 50 then ''HIGH''
      else if max_score \<ge> 20 then ''MEDIUM'' else ''LOW'')"

definition risk_floor :: "string option \<Rightarrow> rat" where
  "risk_floor level =
     (if level = Some ''MEDIUM'' then 20 else if level = Some ''HIGH'' then 50
      else if level = Some ''CRITICAL'' then 80 else 0)"

definition score_or_0 :: "sighting \<Rightarrow> rat" where
  "score_or_0 evt = (case rv_score evt of None \<Rightarrow> 0 | Some s \<Rightarrow> s)"

definition seen_at :: "time \<Rightarrow> sighting \<Rightarrow> time" where
  "seen_at now evt = (case rv_timestamp evt of None \<Rightarrow> now | Some t \<Rightarrow> t)"

definition geo_country :: "json \<Rightarrow> json" where
  "geo_country g = (case g of JObj kvs \<Rightarrow> dict_get ''country'' kvs | _ \<Rightarrow> JNull)"

definition session_key :: "(time \<Rightarrow> int) \<Rightarrow> string \<Rightarrow> time \<Rightarrow> string" where
  "session_key epoch ip ts = ip @ ''-'' @ str_of_int (epoch ts)"

definition new_session :: "(time \<Rightarrow> int) \<Rightarrow> time \<Rightarrow> string \<Rightarrow> sighting \<Rightarrow> geo_session" where
  "new_session epoch now ip evt = (let ts = seen_at now evt in
     \<lparr>as_session_id = session_key epoch ip ts, as_ip = ip, as_first_seen = ts, as_last_seen = ts,
      as_risk_level = Some (risk_level (score_or_0 evt)), as_total_events = 0,
      as_country = geo_country (rv_geo evt)\<rparr>)"

text \<open>The last three assignments of the loop body.\<close>

definition touch :: "time \<Rightarrow> sighting \<Rightarrow> geo_session \<Rightarrow> geo_session" where
  "touch now evt s =
     s\<lparr>as_last_seen := seen_at now evt,
       as_total_events := as_total_events s + 1,
       as_risk_level := Some (risk_level (max (score_or_0 evt) (risk_floor (as_risk_level s))))\<rparr>"

text \<open>\<open>db.add(current); await db.flush()\<close>\<close>

definition add_session :: "geo_session \<Rightarrow> session_db \<Rightarrow> session_db option" where
  "add_session s db =
     (if as_session_id s \<in> as_session_id ` set (attacker_sessions db) then None
      else Some (db\<lparr>attacker_sessions := attacker_sessions db @ [s]\<rparr>))"

definition put_session :: "geo_session \<Rightarrow> session_db \<Rightarrow> session_db" where
  "put_session s db = db\<lparr>attacker_sessions :=
     map (\<lambda>x. if as_session_id x = as_session_id s then s else x) (attacker_sessions db)\<rparr>"

definition assign :: "sighting \<Rightarrow> string \<Rightarrow> session_db \<Rightarrow> session_db" where
  "assign evt sid db = db\<lparr>sightings :=
     map (\<lambda>r. if rv_id r = rv_id evt then r\<lparr>rv_session := Some sid\<rparr> else r) (sightings db)\<rparr>"

definition current_for :: "(time \<Rightarrow> int) \<Rightarrow> time \<Rightarrow> string \<Rightarrow> sighting \<Rightarrow> geo_session option \<Rightarrow> session_db
    \<Rightarrow> (geo_session \<times> session_db) option" where
  "current_for epoch now ip evt cur db =
     (if (case cur of None \<Rightarrow> True | Some s \<Rightarrow> seen_at now evt - as_last_seen s > SESSION_TIMEOUT)
      then (let s = new_session epoch now ip evt in map_option (\<lambda>db'. (s, db')) (add_session s db))
      else map_option (\<lambda>s. (s, db)) cur)"

definition map_event :: "(time \<Rightarrow> int) \<Rightarrow> time \<Rightarrow> string \<Rightarrow> sighting \<Rightarrow> geo_session option \<times> session_db
    \<Rightarrow> (geo_session option \<times> session_db) option" where
  "map_event epoch now ip evt st =
     (case current_for epoch now ip evt (fst st) (snd st) of
        None \<Rightarrow> None
      | Some (s, db) \<Rightarrow>
          let s' = touch now evt s
          in Some (Some s', put_session s' (assign evt (as_session_id s) db)))"

fun map_events :: "(time \<Rightarrow> int) \<Rightarrow> time \<Rightarrow> string \<Rightarrow> sighting list \<Rightarrow> geo_session option \<times> session_db
    \<Rightarrow> (geo_session option \<times> session_db) option" where
  "map_events epoch now ip [] st = Some st"
| "map_events epoch now ip (evt # evts) st =
     (case map_event epoch now ip evt st of None \<Rightarrow> None | Some st' \<Rightarrow> map_events epoch now ip evts st')"

text \<open>The most recent session of the address, if it is still open at the first event.\<close>

definition resumed :: "string \<Rightarrow> sighting list \<Rightarrow> session_db \<Rightarrow> geo_session option" where
  "resumed ip evts db =
     (case sort_desc as_last_seen (filter (\<lambda>s. as_ip s = ip) (attacker_sessions db)) of
        [] \<Rightarrow> None
      | last_sess # _ \<Rightarrow>
          (case rv_timestamp (hd evts) of
             None \<Rightarrow> None
           | Some t \<Rightarrow> if t - as_last_seen last_sess \<le> SESSION_TIMEOUT then Some last_sess else None))"

definition map_address :: "(time \<Rightarrow> int) \<Rightarrow> time \<Rightarrow> string \<times> sighting list \<Rightarrow> session_db \<Rightarrow> session_db option" where
  "map_address epoch now = (\<lambda>(ip, rows) db.
     let evts = sort_key rv_timestamp rows
     in map_option snd (map_events epoch now ip evts (resumed ip evts db, db)))"

fun map_addresses :: "(time \<Rightarrow> int) \<Rightarrow> time \<Rightarrow> (string \<times> sighting list) list \<Rightarrow> session_db \<Rightarrow> session_db option" where
  "map_addresses epoch now [] db = Some db"
| "map_addresses epoch now (g # gs) db =
     (case map_address epoch now g db of None \<Rightarrow> None | Some db' \<Rightarrow> map_addresses epoch now gs db')"

definition unmapped :: "session_db \<Rightarrow> sighting list" where
  "unmapped db = filter (\<lambda>r. rv_session r = None) (sightings db)"

definition picked :: "session_db \<Rightarrow> sighting list" where
  "picked db = take UNMAPPED_BATCH (sort_key rv_ip (sort_key rv_timestamp (unmapped db)))"

text \<open>One pass: whether it raised, and the tables after it.\<close>

definition process_unmapped_events :: "(time \<Rightarrow> int) \<Rightarrow> time \<Rightarrow> session_db \<Rightarrow> bool \<times> session_db" where
  "process_unmapped_events epoch now db =
     (let rows = picked db in
      if rows = [] then (False, db)
      else case map_addresses epoch now (group_on (\<lambda>e. Some (rv_ip e)) rows) db of
             None \<Rightarrow> (True, db)
           | Some db' \<Rightarrow> (False, db'))"

section \<open>Cutting a stream at its gaps\<close>

text \<open>What an address's stream should become. \<open>seg_after l xs\<close> is the run that continues an
  activity last seen at \<open>l\<close>, and the runs after it.\<close>

fun seg_after :: "('a \<Rightarrow> time) \<Rightarrow> time \<Rightarrow> 'a list \<Rightarrow> 'a list \<times> 'a list list" where
  "seg_after t l [] = ([], [])"
| "seg_after t l (x # xs) =
     (case seg_after t (t x) xs of (run, rest) \<Rightarrow>
        if t x - l \<le> SESSION_TIMEOUT then (x # run, rest) else ([], (x # run) # rest))"

definition segments :: "('a \<Rightarrow> time) \<Rightarrow> 'a list \<Rightarrow> 'a list list" where
  "segments t xs = (case xs of [] \<Rightarrow> []
     | x # ys \<Rightarrow> (case seg_after t (t x) ys of (run, rest) \<Rightarrow> (x # run) # rest))"

fun unbroken :: "('a \<Rightarrow> time) \<Rightarrow> 'a list \<Rightarrow> bool" where
  "unbroken t (x # y # ys) \<longleftrightarrow> t y - t x \<le> SESSION_TIMEOUT \<and> unbroken t (y # ys)"
| "unbroken t _ \<longleftrightarrow> True"

fun broken_between :: "('a \<Rightarrow> time) \<Rightarrow> 'a list list \<Rightarrow> bool" where
  "broken_between t (r # s # ss) \<longleftrightarrow> t (hd s) - t (last r) > SESSION_TIMEOUT \<and> broken_between t (s # ss)"
| "broken_between t _ \<longleftrightarrow> True"

lemma seg_after_spec:
  assumes "seg_after t (t x) ys = (run, rest)"
  shows "x # ys = concat ((x # run) # rest) \<and> (\<forall>s \<in> set rest. s \<noteq> [])
    \<and> (\<forall>s \<in> set ((x # run) # rest). unbroken t s) \<and> broken_between t ((x # run) # rest)"
  using assms
proof (induction ys arbitrary: x run rest)
  case (Cons y ys)
  obtain run' rest' where r: "seg_after t (t y) ys = (run', rest')" by fastforce
  from Cons.IH[OF r] Cons.prems r show ?case
    by (cases rest') (auto split: if_splits)
qed simp

lemma seg_after_cat: "seg_after t l ys = (run, rest) \<Longrightarrow> run @ concat rest = ys"
  by (induction ys arbitrary: l run rest) (auto split: prod.splits if_splits)

lemma segments_spec:
  "concat (segments t xs) = xs" "s \<in> set (segments t xs) \<Longrightarrow> s \<noteq> [] \<and> unbroken t s"
  "broken_between t (segments t xs)"
proof -
  have "concat (segments t xs) = xs \<and> (\<forall>s \<in> set (segments t xs). s \<noteq> [] \<and> unbroken t s)
    \<and> broken_between t (segments t xs)"
  proof (cases xs)
    case (Cons x ys)
    obtain run rest where "seg_after t (t x) ys = (run, rest)" by fastforce
    with seg_after_spec[OF this] Cons show ?thesis by (auto simp: segments_def)
  qed (simp add: segments_def)
  then show "concat (segments t xs) = xs" "broken_between t (segments t xs)"
    "s \<in> set (segments t xs) \<Longrightarrow> s \<noteq> [] \<and> unbroken t s" by auto
qed

section \<open>The session a run of events makes\<close>

definition session_of :: "(time \<Rightarrow> int) \<Rightarrow> time \<Rightarrow> string \<Rightarrow> sighting list \<Rightarrow> geo_session" where
  "session_of epoch now ip seg = fold (touch now) seg (new_session epoch now ip (hd seg))"

definition label_of :: "(time \<Rightarrow> int) \<Rightarrow> time \<Rightarrow> string \<Rightarrow> sighting list \<Rightarrow> string" where
  "label_of epoch now ip seg = session_key epoch ip (seen_at now (hd seg))"

definition labels :: "(time \<Rightarrow> int) \<Rightarrow> time \<Rightarrow> string \<Rightarrow> sighting list \<Rightarrow> (string \<times> string) list" where
  "labels epoch now ip seg = map (\<lambda>e. (rv_id e, label_of epoch now ip seg)) seg"

definition relabel :: "(string \<times> string) list \<Rightarrow> sighting list \<Rightarrow> sighting list" where
  "relabel pairs rs = map (\<lambda>r. case map_of pairs (rv_id r) of None \<Rightarrow> r
     | Some sid \<Rightarrow> r\<lparr>rv_session := Some sid\<rparr>) rs"

lemma touch_frame [simp]:
  "as_session_id (touch now e s) = as_session_id s" "as_ip (touch now e s) = as_ip s"
  "as_first_seen (touch now e s) = as_first_seen s" "as_country (touch now e s) = as_country s"
  "as_last_seen (touch now e s) = seen_at now e" "as_total_events (touch now e s) = Suc (as_total_events s)"
  by (simp_all add: touch_def)

lemma fold_touch_frame [simp]:
  "as_session_id (fold (touch now) es s) = as_session_id s" "as_ip (fold (touch now) es s) = as_ip s"
  "as_first_seen (fold (touch now) es s) = as_first_seen s" "as_country (fold (touch now) es s) = as_country s"
  "as_total_events (fold (touch now) es s) = as_total_events s + length es"
  by (induction es arbitrary: s) simp_all

lemma new_session_frame [simp]:
  "as_session_id (new_session epoch now ip e) = session_key epoch ip (seen_at now e)"
  "as_ip (new_session epoch now ip e) = ip" "as_total_events (new_session epoch now ip e) = 0"
  "as_first_seen (new_session epoch now ip e) = seen_at now e"
  "as_last_seen (new_session epoch now ip e) = seen_at now e"
  by (simp_all add: new_session_def Let_def)

lemma risk_level_floor [simp]:
  "risk_level (max a (risk_floor (Some (risk_level m)))) = risk_level (max a m)"
  by (auto simp: risk_level_def risk_floor_def max_def)

lemma fold_touch_risk:
  "as_risk_level s = Some (risk_level m) \<Longrightarrow>
   as_risk_level (fold (touch now) es s) = Some (risk_level (foldl max m (map score_or_0 es)))"
proof (induction es arbitrary: s m)
  case (Cons e es)
  have "as_risk_level (touch now e s) = Some (risk_level (max m (score_or_0 e)))"
    using Cons.prems by (simp add: touch_def max.commute)
  from Cons.IH[OF this] show ?case by simp
qed simp

lemma session_of_spec:
  assumes "seg \<noteq> []"
  shows "as_session_id (session_of epoch now ip seg) = label_of epoch now ip seg"
    "as_ip (session_of epoch now ip seg) = ip"
    "as_first_seen (session_of epoch now ip seg) = seen_at now (hd seg)"
    "as_last_seen (session_of epoch now ip seg) = seen_at now (last seg)"
    "as_total_events (session_of epoch now ip seg) = length seg"
    "as_risk_level (session_of epoch now ip seg) = Some (risk_level (max_or 0 (map score_or_0 seg)))"
proof -
  obtain e es where seg: "seg = e # es" using assms by (cases seg) auto
  show "as_last_seen (session_of epoch now ip seg) = seen_at now (last seg)"
  proof (cases seg rule: rev_cases)
    case (snoc ys y)
    then show ?thesis by (simp add: session_of_def)
  qed (use assms in simp)
  have "as_risk_level (new_session epoch now ip e) = Some (risk_level (score_or_0 e))"
    by (simp add: new_session_def Let_def)
  from fold_touch_risk[OF this, of now seg]
  show "as_risk_level (session_of epoch now ip seg) = Some (risk_level (max_or 0 (map score_or_0 seg)))"
    by (simp add: seg session_of_def max_or_def)
qed (use assms in \<open>simp_all add: session_of_def label_of_def\<close>)

lemma relabel_Nil [simp]: "relabel [] rs = rs"
  by (simp add: relabel_def)

lemma relabel_ids [simp]: "map rv_id (relabel pairs rs) = map rv_id rs"
  by (simp add: relabel_def comp_def split: option.splits cong: map_cong)

lemma relabel_assign:
  "rv_id e \<notin> fst ` set pairs \<Longrightarrow>
   relabel pairs (sightings (assign e sid db)) = relabel ((rv_id e, sid) # pairs) (sightings db)"
proof -
  assume "rv_id e \<notin> fst ` set pairs"
  then have "map_of pairs (rv_id e) = None" by (simp add: map_of_eq_None_iff)
  then show ?thesis by (simp add: relabel_def assign_def)
qed

lemma put_session_same: "attacker_sessions (put_session s' db) =
  map (\<lambda>x. if as_session_id x = as_session_id s' then s' else x) (attacker_sessions db)"
  by (simp add: put_session_def)

lemma db_frames [simp]:
  "sightings (put_session s db) = sightings db" "attacker_sessions (assign e sid db) = attacker_sessions db"
  by (simp_all add: put_session_def assign_def)

section \<open>Processing a stream is cutting it\<close>

lemma replace_self:
  "distinct (map f xs) \<Longrightarrow> s \<in> set xs \<Longrightarrow> map (\<lambda>x. if f x = f s then s else x) xs = xs"
  by (rule map_idI) (auto simp: distinct_map inj_on_def)

lemma replace_none: "k \<notin> f ` set xs \<Longrightarrow> map (\<lambda>x. if f x = k then y else x) xs = xs"
  by (rule map_idI) auto

lemma open_event:
  assumes "case cur of None \<Rightarrow> True | Some s \<Rightarrow> seen_at now e - as_last_seen s > SESSION_TIMEOUT"
    and "session_key epoch ip (seen_at now e) \<notin> as_session_id ` set (attacker_sessions db)"
  shows "map_event epoch now ip e (cur, db) = Some (Some (session_of epoch now ip [e]),
     db\<lparr>sightings := relabel (labels epoch now ip [e]) (sightings db),
        attacker_sessions := attacker_sessions db @ [session_of epoch now ip [e]]\<rparr>)"
proof -
  let ?sid = "session_key epoch ip (seen_at now e)"
  have "map (\<lambda>x. if as_session_id x = ?sid then y else x) (attacker_sessions db) = attacker_sessions db" for y
    using assms(2) by (rule replace_none)
  moreover have "sightings (assign e ?sid db) = relabel (labels epoch now ip [e]) (sightings db)"
    using relabel_assign[of e "[]" ?sid db] by (simp add: labels_def label_of_def)
  ultimately show ?thesis using assms
    by (simp add: map_event_def current_for_def add_session_def Let_def put_session_def assign_def session_of_def cong: if_cong)
qed

lemma continue_event:
  assumes "seen_at now e - as_last_seen s \<le> SESSION_TIMEOUT"
  shows "map_event epoch now ip e (Some s, db) =
     Some (Some (touch now e s), put_session (touch now e s) (assign e (as_session_id s) db))"
  using assms by (simp add: map_event_def current_for_def Let_def)

definition run_labels :: "string \<Rightarrow> sighting list \<Rightarrow> (string \<times> string) list" where
  "run_labels sid run = map (\<lambda>e. (rv_id e, sid)) run"

lemma fst_labels:
  "fst ` set (run_labels sid run @ concat (map (labels epoch now ip) rest)) = rv_id ` set (run @ concat rest)"
proof -
  have "map fst (concat (map (labels epoch now ip) rest)) = map rv_id (concat rest)"
    by (induction rest) (simp_all add: labels_def)
  then have "map fst (run_labels sid run @ concat (map (labels epoch now ip) rest)) = map rv_id (run @ concat rest)"
    by (simp add: run_labels_def)
  then show ?thesis by (metis set_map)
qed

lemma relabel_append:
  assumes "fst ` set ps \<inter> fst ` set qs = {}"
  shows "relabel qs (relabel ps rs) = relabel (ps @ qs) rs"
proof -
  have "map_of qs k = None" if "map_of ps k = Some v" for k v
    using assms map_of_SomeD[OF that] by (force simp: map_of_eq_None_iff)
  then show ?thesis by (auto simp: relabel_def map_add_def split: option.splits)
qed

lemma map_events_run:
  assumes "seg_after (seen_at now) (as_last_seen s) evts = (run, rest)"
    and "distinct (map as_session_id (attacker_sessions db) @ map (label_of epoch now ip) rest)"
    and "s \<in> set (attacker_sessions db)" and "distinct (map rv_id evts)"
  shows "\<exists>cur. map_events epoch now ip evts (Some s, db) = Some (cur, db\<lparr>
     sightings := relabel (run_labels (as_session_id s) run @ concat (map (labels epoch now ip) rest)) (sightings db),
     attacker_sessions := map (\<lambda>x. if as_session_id x = as_session_id s then fold (touch now) run s else x)
       (attacker_sessions db) @ map (session_of epoch now ip) rest\<rparr>)"
  using assms
proof (induction evts arbitrary: s db run rest)
  case Nil
  then have "run = []" "rest = []" by auto
  with Nil show ?case by (simp add: replace_self run_labels_def cong: if_cong)
next
  case (Cons e es)
  obtain run' rest' where r: "seg_after (seen_at now) (seen_at now e) es = (run', rest')" by fastforce
  have cat: "set es = set (run' @ concat rest')"
    using seg_after_spec[of "seen_at now" e es run' rest'] r by (metis concat.simps(2) append_Cons list.inject)
  have fresh: "rv_id e \<notin> rv_id ` set (run' @ concat rest')" "distinct (map rv_id es)"
    using Cons.prems(4) cat by auto
  show ?case
  proof (cases "seen_at now e - as_last_seen s \<le> SESSION_TIMEOUT")
    case True
    then have rr: "run = e # run'" "rest = rest'" using Cons.prems(1) r by auto
    let ?s = "touch now e s" and ?db = "put_session (touch now e s) (assign e (as_session_id s) db)"
    have ids: "map as_session_id (attacker_sessions ?db) = map as_session_id (attacker_sessions db)"
      by (simp add: put_session_def)
    have mem: "?s \<in> set (attacker_sessions ?db)" using Cons.prems(3) by (force simp: put_session_def)
    have lab: "relabel (run_labels (as_session_id s) run' @ concat (map (labels epoch now ip) rest')) (sightings ?db)
        = relabel (run_labels (as_session_id s) run @ concat (map (labels epoch now ip) rest)) (sightings db)"
      using fresh(1) unfolding rr db_frames
      by (subst relabel_assign) (simp only: fst_labels, simp, simp add: run_labels_def)
    have sess: "map (\<lambda>x. if as_session_id x = as_session_id ?s then fold (touch now) run' ?s else x) (attacker_sessions ?db)
        = map (\<lambda>x. if as_session_id x = as_session_id s then fold (touch now) run s else x) (attacker_sessions db)"
      by (simp add: put_session_def rr comp_def)
    obtain cur where "map_events epoch now ip es (Some ?s, ?db) = Some (cur, ?db\<lparr>
     sightings := relabel (run_labels (as_session_id ?s) run' @ concat (map (labels epoch now ip) rest')) (sightings ?db),
     attacker_sessions := map (\<lambda>x. if as_session_id x = as_session_id ?s then fold (touch now) run' ?s else x)
       (attacker_sessions ?db) @ map (session_of epoch now ip) rest'\<rparr>)"
      using Cons.IH[of ?s run' rest' ?db] r Cons.prems(2) ids mem fresh(2) rr by auto
    moreover have "?db\<lparr>sightings := x, attacker_sessions := y\<rparr> = db\<lparr>sightings := x, attacker_sessions := y\<rparr>" for x y
      by (simp add: put_session_def assign_def)
    ultimately show ?thesis
      using lab sess True by (simp add: continue_event rr)
  next
    case False
    then have rr: "run = []" "rest = (e # run') # rest'" using Cons.prems(1) r by auto
    let ?s = "session_of epoch now ip [e]"
    let ?db = "db\<lparr>sightings := relabel (labels epoch now ip [e]) (sightings db),
        attacker_sessions := attacker_sessions db @ [?s]\<rparr>"
    have new: "session_key epoch ip (seen_at now e) \<notin> as_session_id ` set (attacker_sessions db)"
      using Cons.prems(2) by (auto simp: rr label_of_def)
    have key: "as_session_id ?s = session_key epoch ip (seen_at now e)" by (simp add: session_of_def)
    have step: "map_event epoch now ip e (Some s, db) = Some (Some ?s, ?db)"
      using open_event[where cur = "Some s" and now = now and e = e] False new by simp
    obtain cur where it: "map_events epoch now ip es (Some ?s, ?db) = Some (cur, ?db\<lparr>
     sightings := relabel (run_labels (as_session_id ?s) run' @ concat (map (labels epoch now ip) rest')) (sightings ?db),
     attacker_sessions := map (\<lambda>x. if as_session_id x = as_session_id ?s then fold (touch now) run' ?s else x)
       (attacker_sessions ?db) @ map (session_of epoch now ip) rest'\<rparr>)"
      using Cons.IH[of ?s run' rest' ?db] r Cons.prems(2) fresh(2) rr key
      by (auto simp: session_of_def label_of_def)
    have "relabel (run_labels (as_session_id ?s) run' @ concat (map (labels epoch now ip) rest')) (sightings ?db)
        = relabel (run_labels (as_session_id s) run @ concat (map (labels epoch now ip) rest)) (sightings db)"
      using fresh(1) by (simp add: rr key run_labels_def labels_def label_of_def,
        subst relabel_append) (auto simp: labels_def)
    moreover have "map (\<lambda>x. if as_session_id x = as_session_id ?s then fold (touch now) run' ?s else x) (attacker_sessions db @ [?s])
        = map (\<lambda>x. if as_session_id x = as_session_id s then fold (touch now) run s else x) (attacker_sessions db)
          @ [session_of epoch now ip (e # run')]"
      using replace_none[OF new] replace_self[of as_session_id "attacker_sessions db" s] Cons.prems(2,3)
      by (simp add: key rr session_of_def cong: if_cong)
    ultimately show ?thesis using step it by (simp add: rr)
  qed
qed

text \<open>The whole of an address's stream, when it resumes no session and when it does.\<close>

lemma map_address_fresh:
  assumes "evts = sort_key rv_timestamp rows" "rows \<noteq> []" "resumed ip evts db = None"
    and "distinct (map as_session_id (attacker_sessions db) @ map (label_of epoch now ip) (segments (seen_at now) evts))"
    and "distinct (map rv_id rows)"
  shows "map_address epoch now (ip, rows) db = Some (db\<lparr>
     sightings := relabel (concat (map (labels epoch now ip) (segments (seen_at now) evts))) (sightings db),
     attacker_sessions := attacker_sessions db @ map (session_of epoch now ip) (segments (seen_at now) evts)\<rparr>)"
proof -
  have ids: "distinct (map rv_id evts)" using assms(1,5) by (simp add: distinct_map)
  obtain e es where evts: "evts = e # es" using assms(1,2) by (metis length_0_conv length_sort list.exhaust)
  obtain run rest where r: "seg_after (seen_at now) (seen_at now e) es = (run, rest)" by fastforce
  have seg: "segments (seen_at now) evts = (e # run) # rest" by (simp add: segments_def evts r)
  have cat: "es = run @ concat rest" using seg_after_spec[OF r] by simp
  have srt: "sort_key rv_timestamp rows = e # es" "resumed ip (e # es) db = None" using assms(1,3) evts by simp_all
  let ?s = "session_of epoch now ip [e]"
  let ?db = "db\<lparr>sightings := relabel (labels epoch now ip [e]) (sightings db),
        attacker_sessions := attacker_sessions db @ [?s]\<rparr>"
  have new: "session_key epoch ip (seen_at now e) \<notin> as_session_id ` set (attacker_sessions db)"
    using assms(4) by (auto simp: seg label_of_def)
  have key: "as_session_id ?s = session_key epoch ip (seen_at now e)" by (simp add: session_of_def)
  have step: "map_event epoch now ip e (None, db) = Some (Some ?s, ?db)"
    using open_event[where cur = None and now = now and e = e] new by simp
  have "seg_after (seen_at now) (as_last_seen ?s) es = (run, rest)" by (simp add: session_of_def r)
  moreover have "distinct (map as_session_id (attacker_sessions ?db) @ map (label_of epoch now ip) rest)"
    using assms(4) by (simp add: seg key label_of_def)
  moreover have "?s \<in> set (attacker_sessions ?db)" "distinct (map rv_id es)" using ids evts by auto
  ultimately obtain cur where it: "map_events epoch now ip es (Some ?s, ?db) = Some (cur, ?db\<lparr>
     sightings := relabel (run_labels (as_session_id ?s) run @ concat (map (labels epoch now ip) rest)) (sightings ?db),
     attacker_sessions := map (\<lambda>x. if as_session_id x = as_session_id ?s then fold (touch now) run ?s else x)
       (attacker_sessions ?db) @ map (session_of epoch now ip) rest\<rparr>)"
    using map_events_run by blast
  have "rv_id e \<notin> rv_id ` set (run @ concat rest)" using ids evts cat by auto
  then have "fst ` set (labels epoch now ip [e]) \<inter>
      fst ` set (run_labels (as_session_id ?s) run @ concat (map (labels epoch now ip) rest)) = {}"
    unfolding fst_labels by (simp add: labels_def)
  from relabel_append[OF this, of "sightings db"]
  have "relabel (run_labels (as_session_id ?s) run @ concat (map (labels epoch now ip) rest)) (sightings ?db)
      = relabel (concat (map (labels epoch now ip) ((e # run) # rest))) (sightings db)"
    by (simp add: key run_labels_def labels_def label_of_def)
  moreover have "map (\<lambda>x. if as_session_id x = as_session_id ?s then fold (touch now) run ?s else x) (attacker_sessions db @ [?s])
      = attacker_sessions db @ [session_of epoch now ip (e # run)]"
    using replace_none[OF new] by (simp add: key session_of_def)
  ultimately show ?thesis
    using step it srt by (simp add: map_address_def Let_def seg del: append.simps concat.simps)
qed

lemma map_address_resumed:
  assumes "evts = sort_key rv_timestamp rows" "resumed ip evts db = Some s" "s \<in> set (attacker_sessions db)"
    and "seg_after (seen_at now) (as_last_seen s) evts = (run, rest)"
    and "distinct (map as_session_id (attacker_sessions db) @ map (label_of epoch now ip) rest)"
    and "distinct (map rv_id rows)"
  shows "map_address epoch now (ip, rows) db = Some (db\<lparr>
     sightings := relabel (run_labels (as_session_id s) run @ concat (map (labels epoch now ip) rest)) (sightings db),
     attacker_sessions := map (\<lambda>x. if as_session_id x = as_session_id s then fold (touch now) run s else x)
       (attacker_sessions db) @ map (session_of epoch now ip) rest\<rparr>)"
proof -
  have "distinct (map rv_id evts)" using assms(1,6) by (simp add: distinct_map)
  from map_events_run[OF assms(4,5,3) this] assms(1,2) show ?thesis
    by (auto simp: map_address_def Let_def)
qed

section \<open>In order, a pass never fails\<close>

definition clock_ok :: "(time \<Rightarrow> int) \<Rightarrow> bool" where
  "clock_ok epoch \<longleftrightarrow> (\<forall>t u. t + SESSION_TIMEOUT < u \<longrightarrow> epoch t < epoch u) \<and> (\<forall>t. 0 \<le> t \<longrightarrow> 0 \<le> epoch t)"

text \<open>A session whose key reads as an address and a second was opened by the engine for them.\<close>

definition key_honest :: "(time \<Rightarrow> int) \<Rightarrow> geo_session \<Rightarrow> bool" where
  "key_honest epoch s \<longleftrightarrow> (\<forall>ip t. 0 \<le> epoch t \<and> as_session_id s = session_key epoch ip t
     \<longrightarrow> ip = as_ip s \<and> epoch t = epoch (as_first_seen s)) \<and> as_first_seen s \<le> as_last_seen s"

definition orderly :: "(time \<Rightarrow> int) \<Rightarrow> session_db \<Rightarrow> bool" where
  "orderly epoch db \<longleftrightarrow> distinct (map rv_id (sightings db)) \<and> distinct (map as_session_id (attacker_sessions db))
     \<and> list_all (key_honest epoch) (attacker_sessions db)
     \<and> (\<forall>r \<in> set (unmapped db). \<exists>t \<ge> 0. rv_timestamp r = Some t
          \<and> (\<forall>s \<in> set (attacker_sessions db). as_ip s = rv_ip r \<longrightarrow> as_last_seen s \<le> t))"

lemma last_dash_unique:
  assumes "CHR ''-'' \<notin> set b" "CHR ''-'' \<notin> set d" and "a @ CHR ''-'' # b = c @ CHR ''-'' # d"
  shows "a = c \<and> b = d"
proof -
  have "takeWhile (\<lambda>x. x \<noteq> CHR ''-'') (rev b @ CHR ''-'' # rev a) = rev b"
    if "CHR ''-'' \<notin> set b" for a b
    using that by (subst takeWhile_append2) auto
  from this[OF assms(1), of a] this[OF assms(2), of c] arg_cong[OF assms(3), of rev]
  have "rev b = rev d" by simp
  with assms(3) show ?thesis by simp
qed

lemma session_key_inj:
  assumes "0 \<le> epoch t" "0 \<le> epoch u" "session_key epoch ip t = session_key epoch ip' u"
  shows "ip = ip' \<and> epoch t = epoch u"
proof -
  have "CHR ''-'' \<notin> set (str_of_nat n)" for n
    using str_of_nat_digits[of "CHR ''-''" n] by (auto simp: is_digit_def)
  moreover have "ip @ CHR ''-'' # str_of_nat (nat (epoch t)) = ip' @ CHR ''-'' # str_of_nat (nat (epoch u))"
    using assms by (simp add: session_key_def str_of_int_def)
  ultimately have "ip = ip' \<and> str_of_nat (nat (epoch t)) = str_of_nat (nat (epoch u))"
    using last_dash_unique by blast
  then show ?thesis using assms(1,2) by (simp add: eq_nat_nat_iff)
qed

lemma clock_nonneg: "clock_ok epoch \<Longrightarrow> 0 \<le> t \<Longrightarrow> 0 \<le> epoch t"
  by (simp add: clock_ok_def)

lemma seg_heads:
  assumes "seg_after t l evts = (run, rest)" "sorted (map t evts)" "\<forall>e \<in> set evts. l \<le> t e"
  shows "sorted_wrt (\<lambda>a b. t (hd a) + SESSION_TIMEOUT < t (hd b)) rest
    \<and> (\<forall>s \<in> set rest. s \<noteq> [] \<and> hd s \<in> set evts \<and> l + SESSION_TIMEOUT < t (hd s))"
  using assms
proof (induction evts arbitrary: l run rest)
  case (Cons e es)
  obtain run' rest' where r: "seg_after t (t e) es = (run', rest')" by fastforce
  have IH: "sorted_wrt (\<lambda>a b. t (hd a) + SESSION_TIMEOUT < t (hd b)) rest'
    \<and> (\<forall>s \<in> set rest'. s \<noteq> [] \<and> hd s \<in> set es \<and> t e + SESSION_TIMEOUT < t (hd s))"
    using Cons.IH[OF r] Cons.prems(2) by auto
  show ?case
  proof (cases "t e - l \<le> SESSION_TIMEOUT")
    case True
    then have "rest = rest'" using Cons.prems(1) r by auto
    then show ?thesis using IH Cons.prems(3) by fastforce
  next
    case False
    then have "rest = (e # run') # rest'" using Cons.prems(1) r by auto
    then show ?thesis using IH Cons.prems(3) False by fastforce
  qed
qed simp

lemma fresh_labels:
  assumes clock: "clock_ok epoch" and honest: "list_all (key_honest epoch) ss" "distinct (map as_session_id ss)"
    and apart: "sorted_wrt (\<lambda>a b. seen_at now (hd a) + SESSION_TIMEOUT < seen_at now (hd b)) segs"
    and late: "\<forall>g \<in> set segs. 0 \<le> seen_at now (hd g) \<and>
       (\<forall>s \<in> set ss. as_ip s = ip \<longrightarrow> as_last_seen s + SESSION_TIMEOUT < seen_at now (hd g))"
  shows "distinct (map as_session_id ss @ map (label_of epoch now ip) segs)"
proof -
  have "distinct (map (label_of epoch now ip) segs)" using apart late
  proof (induction segs)
    case (Cons g gs)
    have "label_of epoch now ip g \<noteq> label_of epoch now ip h" if "h \<in> set gs" for h
      using that Cons.prems clock session_key_inj[of epoch "seen_at now (hd g)" "seen_at now (hd h)" ip ip]
      by (fastforce simp: clock_ok_def label_of_def)
    with Cons show ?case by auto
  qed simp
  moreover have "as_session_id s \<noteq> label_of epoch now ip g" if "s \<in> set ss" "g \<in> set segs" for s g
  proof
    assume eq: "as_session_id s = label_of epoch now ip g"
    have pos: "0 \<le> epoch (seen_at now (hd g))" using late that(2) clock by (simp add: clock_ok_def)
    from honest(1) that(1) have h: "key_honest epoch s" by (simp add: list_all_iff)
    with eq pos have f: "ip = as_ip s" "epoch (seen_at now (hd g)) = epoch (as_first_seen s)" "as_first_seen s \<le> as_last_seen s"
      by (auto simp: key_honest_def label_of_def)
    have "as_last_seen s + SESSION_TIMEOUT < seen_at now (hd g)" using late that f(1) by simp
    with f(3) have "as_first_seen s + SESSION_TIMEOUT < seen_at now (hd g)" by simp
    then have "epoch (as_first_seen s) < epoch (seen_at now (hd g))" using clock unfolding clock_ok_def by blast
    then show False using f(2) by simp
  qed
  ultimately show ?thesis using honest(2) by auto
qed

text \<open>What processing one address does to the rest of the tables, however it turns out.\<close>

lemma fst_session_labels: "fst ` set (concat (map (labels epoch now ip) segs)) = rv_id ` set (concat segs)"
  using fst_labels[of "[]" "[]" epoch now ip segs] by (simp add: run_labels_def)

lemma resumed_None:
  assumes "resumed ip evts db = None" "rv_timestamp (hd evts) = Some t" "s \<in> set (attacker_sessions db)" "as_ip s = ip"
  shows "as_last_seen s + SESSION_TIMEOUT < t"
proof -
  let ?ss = "sort_desc as_last_seen (filter (\<lambda>s. as_ip s = ip) (attacker_sessions db))"
  have "s \<in> set ?ss" using assms(3,4) by simp
  then obtain m ms where m: "?ss = m # ms" by (cases ?ss) auto
  have "as_last_seen s \<le> as_last_seen m"
    using \<open>s \<in> set ?ss\<close> sorted_sort_desc[of as_last_seen "filter (\<lambda>s. as_ip s = ip) (attacker_sessions db)"]
    unfolding m by auto
  moreover have "as_last_seen m + SESSION_TIMEOUT < t"
    using assms(1,2) m by (auto simp: resumed_def split: if_splits)
  ultimately show ?thesis by simp
qed

lemma resumed_Some:
  assumes "resumed ip evts db = Some m"
  shows "m \<in> set (attacker_sessions db) \<and> as_ip m = ip"
    and "s \<in> set (attacker_sessions db) \<Longrightarrow> as_ip s = ip \<Longrightarrow> as_last_seen s \<le> as_last_seen m"
proof -
  let ?ss = "sort_desc as_last_seen (filter (\<lambda>s. as_ip s = ip) (attacker_sessions db))"
  obtain ms where m: "?ss = m # ms"
    using assms by (cases ?ss) (auto simp: resumed_def split: option.splits if_splits)
  then have "m \<in> set ?ss" by simp
  then show "m \<in> set (attacker_sessions db) \<and> as_ip m = ip" by simp
  assume "s \<in> set (attacker_sessions db)" "as_ip s = ip"
  then have "s \<in> set ?ss" by simp
  then show "as_last_seen s \<le> as_last_seen m"
    using sorted_sort_desc[of as_last_seen "filter (\<lambda>s. as_ip s = ip) (attacker_sessions db)"]
    unfolding m by auto
qed

lemma last_seen_of_run: "run \<noteq> [] \<Longrightarrow> as_last_seen (fold (touch now) run s) = seen_at now (last run)"
  by (cases run rule: rev_cases) simp_all

lemma honest_touch: "as_first_seen s \<le> seen_at now (last run) \<Longrightarrow> key_honest epoch s \<Longrightarrow> key_honest epoch (fold (touch now) run s)"
  by (cases "run = []") (auto simp: key_honest_def last_seen_of_run)

lemma honest_session_of:
  assumes "seg \<noteq> []" "seen_at now (hd seg) \<le> seen_at now (last seg)" "0 \<le> epoch (seen_at now (hd seg))"
  shows "key_honest epoch (session_of epoch now ip seg)"
proof -
  have "ip' = ip \<and> epoch t = epoch (seen_at now (hd seg))"
    if "0 \<le> epoch t" "label_of epoch now ip seg = session_key epoch ip' t" for ip' t
    using session_key_inj[of epoch t "seen_at now (hd seg)" ip' ip] that assms(3) by (simp add: label_of_def)
  then show ?thesis using assms(1,2) unfolding key_honest_def session_of_spec[OF assms(1)] by blast
qed

definition settled :: "string \<Rightarrow> time \<Rightarrow> sighting list \<Rightarrow> session_db \<Rightarrow> session_db \<Rightarrow> bool" where
  "settled ip now rows db db' \<longleftrightarrow>
     (\<exists>ps. sightings db' = relabel ps (sightings db) \<and> fst ` set ps = rv_id ` set rows)
     \<and> (\<forall>s \<in> set (attacker_sessions db'). (as_ip s \<noteq> ip \<and> s \<in> set (attacker_sessions db))
          \<or> (as_ip s = ip \<and> (\<forall>u. (\<forall>r \<in> set rows. seen_at now r \<le> u) \<longrightarrow> as_last_seen s \<le> u)))"

lemma settledI:
  assumes "sightings db' = relabel ps (sightings db)" "fst ` set ps = rv_id ` set rows"
    and "\<And>s. s \<in> set (attacker_sessions db') \<Longrightarrow> as_ip s \<noteq> ip \<Longrightarrow> s \<in> set (attacker_sessions db)"
    and "\<And>s u. s \<in> set (attacker_sessions db') \<Longrightarrow> as_ip s = ip \<Longrightarrow> \<forall>r \<in> set rows. seen_at now r \<le> u \<Longrightarrow> as_last_seen s \<le> u"
  shows "settled ip now rows db db'"
  unfolding settled_def using assms by blast

lemma sorted_concat_parts: "sorted (map t (concat segs)) \<Longrightarrow> g \<in> set segs \<Longrightarrow> g \<noteq> [] \<Longrightarrow> t (hd g) \<le> t (last g)"
proof (induction segs)
  case (Cons h hs)
  have "t (hd h) \<le> t (last h)" if "h \<noteq> []"
    using Cons.prems(1) that by (cases h) (auto simp: sorted_append)
  with Cons show ?case by (auto simp: sorted_append)
qed simp

lemma settled_old:
  assumes "rows \<noteq> []" "\<forall>r \<in> set rows. as_last_seen s \<le> seen_at now r" "\<forall>r \<in> set rows. seen_at now r \<le> u"
  shows "as_last_seen s \<le> u"
  using assms by (cases rows) force+

definition in_order :: "string \<Rightarrow> sighting list \<Rightarrow> geo_session list \<Rightarrow> bool" where
  "in_order ip rows ss \<longleftrightarrow> (\<forall>r \<in> set rows. \<exists>t \<ge> 0. rv_timestamp r = Some t
     \<and> (\<forall>s \<in> set ss. as_ip s = ip \<longrightarrow> as_last_seen s \<le> t))"

lemma fresh_runs:
  assumes clock: "clock_ok epoch" and ids: "distinct (map as_session_id (attacker_sessions db))"
    and honest: "list_all (key_honest epoch) (attacker_sessions db)" and rows: "rows \<noteq> []"
    and order: "in_order ip rows (attacker_sessions db)" and none: "resumed ip (sort_key rv_timestamp rows) db = None"
    and segs_def: "segs = segments (seen_at now) (sort_key rv_timestamp rows)"
  shows "distinct (map as_session_id (attacker_sessions db) @ map (label_of epoch now ip) segs)"
    and "\<forall>g \<in> set segs. g \<noteq> [] \<and> 0 \<le> seen_at now (hd g)"
    and "sorted (map (seen_at now) (sort_key rv_timestamp rows))"
proof -
  define evts where evts: "evts = sort_key rv_timestamp rows"
  have seen: "0 \<le> seen_at now r" "rv_timestamp r = Some (seen_at now r)" if "r \<in> set rows" for r
    using order that by (auto simp: seen_at_def in_order_def)
  have set_evts: "set evts = set rows" by (simp add: evts)
  have "sorted (map rv_timestamp evts)" by (simp add: evts)
  then have srt: "sorted (map (seen_at now) evts)"
    unfolding sorted_map by (rule sorted_wrt_mono_rel[rotated]) (auto simp: set_evts seen(2))
  then show "sorted (map (seen_at now) (sort_key rv_timestamp rows))" by (simp add: evts)
  obtain e es where cons: "evts = e # es" using rows(1) evts by (metis length_0_conv length_sort list.exhaust)
  have mem: "e \<in> set rows" using set_evts cons by auto
  obtain run rest where r: "seg_after (seen_at now) (seen_at now e) es = (run, rest)" by fastforce
  have segs: "segs = (e # run) # rest" unfolding segs_def evts[symmetric] by (simp add: segments_def cons r)
  have heads: "sorted_wrt (\<lambda>a b. seen_at now (hd a) + SESSION_TIMEOUT < seen_at now (hd b)) segs"
    "\<forall>g \<in> set segs. g \<noteq> [] \<and> hd g \<in> set rows \<and> seen_at now e \<le> seen_at now (hd g)"
    using seg_heads[OF r] srt mem set_evts unfolding segs cons by auto
  have "as_last_seen s + SESSION_TIMEOUT < seen_at now e" if "s \<in> set (attacker_sessions db)" "as_ip s = ip" for s
    using resumed_None[OF none[folded evts] _ that, of "seen_at now e"] seen(2)[OF mem] cons by simp
  then have late: "\<forall>g \<in> set segs. 0 \<le> seen_at now (hd g) \<and>
     (\<forall>s \<in> set (attacker_sessions db). as_ip s = ip \<longrightarrow> as_last_seen s + SESSION_TIMEOUT < seen_at now (hd g))"
    using heads(2) seen(1) by (meson less_le_trans)
  then show "\<forall>g \<in> set segs. g \<noteq> [] \<and> 0 \<le> seen_at now (hd g)" using heads(2) by blast
  show "distinct (map as_session_id (attacker_sessions db) @ map (label_of epoch now ip) segs)"
    by (rule fresh_labels[OF clock honest ids heads(1) late])
qed

lemma map_address_orderly:
  assumes clock: "clock_ok epoch" and ids: "distinct (map as_session_id (attacker_sessions db))"
    and honest: "list_all (key_honest epoch) (attacker_sessions db)"
    and rows: "rows \<noteq> []" "distinct (map rv_id rows)"
    and order: "\<forall>r \<in> set rows. \<exists>t \<ge> 0. rv_timestamp r = Some t
       \<and> (\<forall>s \<in> set (attacker_sessions db). as_ip s = ip \<longrightarrow> as_last_seen s \<le> t)"
  shows "\<exists>db'. map_address epoch now (ip, rows) db = Some db' \<and> settled ip now rows db db'
    \<and> distinct (map as_session_id (attacker_sessions db')) \<and> list_all (key_honest epoch) (attacker_sessions db')"
proof -
  define evts where evts: "evts = sort_key rv_timestamp rows"
  have seen: "0 \<le> seen_at now r" "s \<in> set (attacker_sessions db) \<Longrightarrow> as_ip s = ip \<Longrightarrow> as_last_seen s \<le> seen_at now r"
    "rv_timestamp r = Some (seen_at now r)" if "r \<in> set rows" for r s
    using order that by (auto simp: seen_at_def)
  have set_evts: "set evts = set rows" by (simp add: evts)
  have "sorted (map rv_timestamp evts)" by (simp add: evts)
  then have srt: "sorted (map (seen_at now) evts)"
    unfolding sorted_map by (rule sorted_wrt_mono_rel[rotated]) (auto simp: set_evts seen(3))
  obtain e es where cons: "evts = e # es" using rows(1) evts by (metis length_0_conv length_sort list.exhaust)
  have mem: "e \<in> set rows" using set_evts cons by auto
  show ?thesis
  proof (cases "resumed ip evts db")
    case None
    define segs where "segs = segments (seen_at now) evts"
    note fresh = fresh_runs[OF clock ids honest rows(1) _ None[unfolded evts] segs_def[unfolded evts]]
    have "in_order ip rows (attacker_sessions db)" using order by (simp add: in_order_def)
    note dist = fresh(1)[OF this] and late = fresh(2)[OF this]
    have cat: "concat segs = evts" unfolding segs_def by (rule segments_spec)
    have "set rows = (\<Union>g \<in> set segs. set g)" using arg_cong[OF cat, of set] set_evts by simp
    then have in_rows: "x \<in> set rows" if "g \<in> set segs" "x \<in> set g" for g x using that by blast
    have sc: "sorted (map (seen_at now) (concat segs))" using srt cat by simp
    have new: "key_honest epoch (session_of epoch now ip g)" if "g \<in> set segs" for g
      using honest_session_of[of g now epoch ip] late that sorted_concat_parts[OF sc that] clock_nonneg[OF clock]
      by auto
    let ?db = "db\<lparr>sightings := relabel (concat (map (labels epoch now ip) segs)) (sightings db),
      attacker_sessions := attacker_sessions db @ map (session_of epoch now ip) segs\<rparr>"
    have "map_address epoch now (ip, rows) db = Some ?db"
      using map_address_fresh[OF evts rows(1) None _ rows(2)] dist unfolding segs_def by blast
    moreover have "settled ip now rows db ?db"
    proof (rule settledI)
      show "fst ` set (concat (map (labels epoch now ip) segs)) = rv_id ` set rows"
        unfolding fst_session_labels cat set_evts ..
      have made: "as_ip (session_of epoch now ip g) = ip \<and> as_last_seen (session_of epoch now ip g) = seen_at now (last g)
        \<and> last g \<in> set rows" if "g \<in> set segs" for g
        using that late in_rows[OF that] by (simp add: session_of_spec)
      show "s \<in> set (attacker_sessions db)" if "s \<in> set (attacker_sessions ?db)" "as_ip s \<noteq> ip" for s
        using that made by auto
      show "as_last_seen s \<le> u" if "s \<in> set (attacker_sessions ?db)" "as_ip s = ip" "\<forall>r \<in> set rows. seen_at now r \<le> u" for s u
      proof -
        from that(1) consider "s \<in> set (attacker_sessions db)" | g where "g \<in> set segs" "s = session_of epoch now ip g" by auto
        then show ?thesis
        proof cases
          case 1
          then show ?thesis using settled_old[OF rows(1) _ that(3)] seen(2) that(2) by blast
        next
          case 2
          then show ?thesis using made[OF 2(1)] that(3) by simp
        qed
      qed
    qed simp
    moreover have "distinct (map as_session_id (attacker_sessions ?db))"
      using dist late by (simp add: comp_def session_of_spec cong: map_cong)
    ultimately show ?thesis using honest new by (auto simp: list_all_iff)
  next
    case (Some m)
    note m = resumed_Some[OF Some]
    obtain run rest where r: "seg_after (seen_at now) (as_last_seen m) evts = (run, rest)" by fastforce
    have after: "\<forall>x \<in> set evts. as_last_seen m \<le> seen_at now x" using m(1) seen(2) set_evts by auto
    have heads: "sorted_wrt (\<lambda>a b. seen_at now (hd a) + SESSION_TIMEOUT < seen_at now (hd b)) rest"
      "\<forall>g \<in> set rest. g \<noteq> [] \<and> hd g \<in> set rows \<and> as_last_seen m + SESSION_TIMEOUT < seen_at now (hd g)"
      using seg_heads[OF r srt after] set_evts by auto
    have late: "\<forall>g \<in> set rest. 0 \<le> seen_at now (hd g) \<and>
       (\<forall>s \<in> set (attacker_sessions db). as_ip s = ip \<longrightarrow> as_last_seen s + SESSION_TIMEOUT < seen_at now (hd g))"
      using heads(2) seen(1) m(2) by fastforce
    have dist: "distinct (map as_session_id (attacker_sessions db) @ map (label_of epoch now ip) rest)"
      by (rule fresh_labels[OF clock honest ids heads(1) late])
    have cat: "run @ concat rest = evts" by (rule seg_after_cat[OF r])
    have "set rows = set run \<union> (\<Union>g \<in> set rest. set g)" using arg_cong[OF cat, of set] set_evts by simp
    then have in_rows: "x \<in> set rows" if "x \<in> set run \<or> (\<exists>g \<in> set rest. x \<in> set g)" for x using that by blast
    have "sorted (map (seen_at now) (concat rest))" using srt cat[symmetric] by (simp add: sorted_append)
    note sc = this
    have new: "key_honest epoch (session_of epoch now ip g)" if "g \<in> set rest" for g
      using honest_session_of[of g now epoch ip] heads(2) late that sorted_concat_parts[OF sc that] clock_nonneg[OF clock]
      by auto
    let ?m = "fold (touch now) run m"
    have hm: "key_honest epoch m" using honest m(1) by (simp add: list_all_iff)
    have "key_honest epoch ?m"
    proof (cases "run = []")
      case False
      then have "as_first_seen m \<le> seen_at now (last run)"
        using hm seen(2)[of "last run" m] m(1) in_rows[of "last run"] by (simp add: key_honest_def)
      then show ?thesis using hm by (rule honest_touch)
    qed (use hm in simp)
    have bound: "as_last_seen s \<le> u" if "s \<in> set (attacker_sessions db)" "as_ip s = ip" "\<forall>r \<in> set rows. seen_at now r \<le> u" for s u
      using settled_old[OF rows(1) _ that(3)] seen(2) that by blast
    have mbound: "as_last_seen ?m \<le> u" if "\<forall>r \<in> set rows. seen_at now r \<le> u" for u
      using bound[of m] m(1) that last_seen_of_run[of run now m] in_rows[of "last run"] by (cases "run = []") simp_all
    let ?db = "db\<lparr>sightings := relabel (run_labels (as_session_id m) run @ concat (map (labels epoch now ip) rest)) (sightings db),
      attacker_sessions := map (\<lambda>x. if as_session_id x = as_session_id m then ?m else x) (attacker_sessions db)
        @ map (session_of epoch now ip) rest\<rparr>"
    have "map_address epoch now (ip, rows) db = Some ?db"
      using map_address_resumed[OF evts Some _ r dist rows(2)] m(1) by blast
    moreover have "settled ip now rows db ?db"
    proof (rule settledI)
      show "fst ` set (run_labels (as_session_id m) run @ concat (map (labels epoch now ip) rest)) = rv_id ` set rows"
        unfolding fst_labels cat set_evts ..
      have made: "as_ip (session_of epoch now ip g) = ip \<and> as_last_seen (session_of epoch now ip g) = seen_at now (last g)
        \<and> last g \<in> set rows" if "g \<in> set rest" for g
      proof -
        have "g \<noteq> []" "last g \<in> set rows" using that heads(2) in_rows[of "last g"] last_in_set[of g] by blast+
        then show ?thesis by (simp add: session_of_spec)
      qed
      show "s \<in> set (attacker_sessions db)" if "s \<in> set (attacker_sessions ?db)" "as_ip s \<noteq> ip" for s
        using that made m(1) by (auto split: if_splits)
      show "as_last_seen s \<le> u" if "s \<in> set (attacker_sessions ?db)" "as_ip s = ip" "\<forall>r \<in> set rows. seen_at now r \<le> u" for s u
      proof -
        from that(1) consider "s \<in> set (attacker_sessions db)" | "s = ?m" | g where "g \<in> set rest" "s = session_of epoch now ip g"
          by (auto split: if_splits)
        then show ?thesis
        proof cases
          case 3
          then show ?thesis using made[OF 3(1)] that(3) by simp
        qed (use bound mbound that in blast)+
      qed
    qed simp
    moreover have "distinct (map as_session_id (attacker_sessions ?db))"
      using dist heads(2) by (simp add: comp_def session_of_spec if_distrib cong: map_cong if_cong)
    ultimately show ?thesis using honest new \<open>key_honest epoch ?m\<close> by (auto simp: list_all_iff)
  qed
qed

section \<open>Passes\<close>

lemma relabel_relabel: "relabel qs (relabel ps rs) = relabel (qs @ ps) rs"
  by (auto simp: relabel_def map_add_def split: option.splits)

lemma unmapped_relabel:
  assumes "sightings db' = relabel ps (sightings db)"
  shows "unmapped db' = filter (\<lambda>r. rv_id r \<notin> fst ` set ps) (unmapped db)"
proof -
  have "filter (\<lambda>r. rv_session r = None) (relabel ps rs)
      = filter (\<lambda>r. rv_id r \<notin> fst ` set ps) (filter (\<lambda>r. rv_session r = None) rs)" for rs
    by (induction rs) (auto simp: relabel_def map_of_eq_None_iff[symmetric] split: option.splits)
  then show ?thesis using assms by (simp add: unmapped_def)
qed

lemma map_addresses_orderly:
  assumes "clock_ok epoch" "distinct (map as_session_id (attacker_sessions db))"
    and "list_all (key_honest epoch) (attacker_sessions db)" "distinct (map fst gs)"
    and "\<forall>(ip, rows) \<in> set gs. rows \<noteq> [] \<and> distinct (map rv_id rows) \<and> in_order ip rows (attacker_sessions db)"
  shows "\<exists>db' ps. map_addresses epoch now gs db = Some db'
    \<and> distinct (map as_session_id (attacker_sessions db')) \<and> list_all (key_honest epoch) (attacker_sessions db')
    \<and> sightings db' = relabel ps (sightings db) \<and> fst ` set ps = rv_id ` (\<Union>g \<in> set gs. set (snd g))
    \<and> (\<forall>s \<in> set (attacker_sessions db'). s \<in> set (attacker_sessions db)
         \<or> (\<exists>(ip, rows) \<in> set gs. as_ip s = ip \<and> (\<forall>u. (\<forall>r \<in> set rows. seen_at now r \<le> u) \<longrightarrow> as_last_seen s \<le> u)))"
  using assms(2-)
proof (induction gs arbitrary: db)
  case Nil
  then show ?case by (intro exI[of _ db] exI[of _ "[]"]) simp
next
  case (Cons g gs)
  obtain ip rows where g: "g = (ip, rows)" by fastforce
  obtain db1 where one: "map_address epoch now (ip, rows) db = Some db1" "settled ip now rows db db1"
    "distinct (map as_session_id (attacker_sessions db1))" "list_all (key_honest epoch) (attacker_sessions db1)"
    using map_address_orderly[OF assms(1) Cons.prems(1,2), of rows ip now] Cons.prems(4) by (auto simp: g in_order_def)
  have rest: "\<forall>(ip', rows') \<in> set gs. rows' \<noteq> [] \<and> distinct (map rv_id rows') \<and> in_order ip' rows' (attacker_sessions db1)"
  proof (clarify, intro conjI)
    fix ip' rows' assume mem: "(ip', rows') \<in> set gs"
    then show "rows' \<noteq> []" "distinct (map rv_id rows')" using Cons.prems(4) by auto
    have "ip' \<noteq> ip" using mem Cons.prems(3) by (force simp: g)
    then show "in_order ip' rows' (attacker_sessions db1)"
      using mem Cons.prems(4) one(2) by (fastforce simp: in_order_def settled_def)
  qed
  obtain ps where ps: "sightings db1 = relabel ps (sightings db)" "fst ` set ps = rv_id ` set rows"
    using one(2) by (auto simp: settled_def)
  from Cons.IH[OF one(3,4) _ rest] Cons.prems(3) obtain db' qs where ih: "map_addresses epoch now gs db1 = Some db'"
    "distinct (map as_session_id (attacker_sessions db'))" "list_all (key_honest epoch) (attacker_sessions db')"
    "sightings db' = relabel qs (sightings db1)" "fst ` set qs = rv_id ` (\<Union>g \<in> set gs. set (snd g))"
    "\<forall>s \<in> set (attacker_sessions db'). s \<in> set (attacker_sessions db1)
         \<or> (\<exists>(ip, rows) \<in> set gs. as_ip s = ip \<and> (\<forall>u. (\<forall>r \<in> set rows. seen_at now r \<le> u) \<longrightarrow> as_last_seen s \<le> u))"
    by auto
  have "sightings db' = relabel (qs @ ps) (sightings db)" using ih(4) ps(1) by (simp add: relabel_relabel)
  moreover have "fst ` set (qs @ ps) = rv_id ` (\<Union>g \<in> set (g # gs). set (snd g))"
    using ih(5) ps(2) by (auto simp: g image_Un)
  moreover have "s \<in> set (attacker_sessions db) \<or> (\<exists>(ip, rows) \<in> set (g # gs). as_ip s = ip
      \<and> (\<forall>u. (\<forall>r \<in> set rows. seen_at now r \<le> u) \<longrightarrow> as_last_seen s \<le> u))"
    if "s \<in> set (attacker_sessions db')" for s
    using ih(6) that one(2) unfolding settled_def g by fastforce
  moreover have "map_addresses epoch now (g # gs) db = Some db'" using ih(1) one(1) by (simp add: g)
  ultimately show ?case using ih(2,3) by blast
qed

lemma picked_order:
  assumes "q \<in> set (picked db)" "r \<in> set (unmapped db)" "rv_id r \<notin> rv_id ` set (picked db)" "rv_ip q = rv_ip r"
  shows "rv_timestamp q \<le> rv_timestamp r"
proof -
  let ?T = "sort_key rv_timestamp (unmapped db)"
  let ?L = "sort_key rv_ip ?T"
  let ?P = "\<lambda>x. rv_ip x = rv_ip r"
  have "filter ?P ?L = filter ?P ?T" by (rule sort_key_stable)
  moreover have "sorted (map rv_timestamp (filter ?P ?T))" by (rule sorted_filter) simp
  ultimately have "sorted (map rv_timestamp (filter ?P (take UNMAPPED_BATCH ?L) @ filter ?P (drop UNMAPPED_BATCH ?L)))"
    by (metis append_take_drop_id filter_append)
  moreover have "q \<in> set (filter ?P (take UNMAPPED_BATCH ?L))" using assms(1,4) by (simp add: picked_def)
  moreover have "r \<in> set (filter ?P (drop UNMAPPED_BATCH ?L))"
  proof -
    have "r \<in> set ?L" using assms(2) by simp
    moreover have "r \<notin> set (take UNMAPPED_BATCH ?L)" using assms(3) unfolding picked_def by blast
    ultimately have "r \<in> set (drop UNMAPPED_BATCH ?L)" by (metis Un_iff append_take_drop_id set_append)
    then show ?thesis by simp
  qed
  ultimately show ?thesis by (simp add: sorted_append)
qed

lemma picked_count:
  assumes "distinct (map rv_id (unmapped db))"
  shows "length (filter (\<lambda>r. rv_id r \<notin> rv_id ` set (picked db)) (unmapped db)) = length (unmapped db) - UNMAPPED_BATCH"
    and "set (picked db) \<subseteq> set (unmapped db)" "distinct (map rv_id (picked db))"
proof -
  let ?L = "sort_key rv_ip (sort_key rv_timestamp (unmapped db))"
  let ?Q = "\<lambda>r. rv_id r \<notin> rv_id ` set (picked db)"
  have dist: "distinct (map rv_id ?L)" using assms by (simp add: distinct_map)
  have "mset (filter ?Q ?L) = mset (filter ?Q (unmapped db))" by (simp add: mset_filter)
  then have "length (filter ?Q (unmapped db)) = length (filter ?Q ?L)" by (metis size_mset)
  also have "\<dots> = length (filter ?Q (take UNMAPPED_BATCH ?L)) + length (filter ?Q (drop UNMAPPED_BATCH ?L))"
    by (metis append_take_drop_id filter_append length_append)
  also have "filter ?Q (take UNMAPPED_BATCH ?L) = []" by (auto simp: picked_def filter_empty_conv)
  also have "filter ?Q (drop UNMAPPED_BATCH ?L) = drop UNMAPPED_BATCH ?L"
  proof (rule filter_True, rule ballI)
    have "set (map rv_id (take UNMAPPED_BATCH ?L)) \<inter> set (map rv_id (drop UNMAPPED_BATCH ?L)) = {}"
      using dist by (metis append_take_drop_id distinct_append map_append)
    then show "?Q r" if "r \<in> set (drop UNMAPPED_BATCH ?L)" for r using that by (auto simp: picked_def)
  qed
  finally show "length (filter ?Q (unmapped db)) = length (unmapped db) - UNMAPPED_BATCH" by simp
  show "set (picked db) \<subseteq> set (unmapped db)" unfolding picked_def using set_take_subset[of UNMAPPED_BATCH ?L] by simp
  show "distinct (map rv_id (picked db))" using dist unfolding picked_def take_map[symmetric] by (rule distinct_take)
qed

lemma pass_ordered:
  assumes clock: "clock_ok epoch" and ord: "orderly epoch db"
  shows "\<exists>db'. process_unmapped_events epoch now db = (False, db') \<and> orderly epoch db'
    \<and> length (unmapped db') = length (unmapped db) - UNMAPPED_BATCH
    \<and> map rv_id (sightings db') = map rv_id (sightings db)"
proof -
  have du: "distinct (map rv_id (unmapped db))"
    using ord by (simp add: orderly_def unmapped_def distinct_map_filter)
  note pc = picked_count[OF du]
  show ?thesis
  proof (cases "picked db = []")
    case True
    then have "length (unmapped db) - UNMAPPED_BATCH = length (unmapped db)" using pc(1) by simp
    then show ?thesis using True ord by (simp add: process_unmapped_events_def)
  next
    case False
    let ?gs = "group_on (\<lambda>e. Some (rv_ip e)) (picked db)"
    have un: "\<exists>t \<ge> 0. rv_timestamp r = Some t \<and> (\<forall>s \<in> set (attacker_sessions db). as_ip s = rv_ip r \<longrightarrow> as_last_seen s \<le> t)"
      if "r \<in> set (unmapped db)" for r using ord that by (simp add: orderly_def)
    have ready: "\<forall>(ip, rows) \<in> set ?gs. rows \<noteq> [] \<and> distinct (map rv_id rows) \<and> in_order ip rows (attacker_sessions db)"
    proof (clarify, intro conjI)
      fix ip rows assume "(ip, rows) \<in> set ?gs"
      then have g: "rows = filter (\<lambda>e. rv_ip e = ip) (picked db)" "\<exists>e \<in> set (picked db). rv_ip e = ip"
        by (auto simp: in_group_on)
      then show "rows \<noteq> []" "distinct (map rv_id rows)" using pc(3) by (auto simp: filter_empty_conv distinct_map_filter)
      show "in_order ip rows (attacker_sessions db)" using g(1) pc(2) un by (fastforce simp: in_order_def)
    qed
    have union: "(\<Union>g \<in> set ?gs. set (snd g)) = set (picked db)"
    proof (intro equalityI subsetI)
      fix x assume "x \<in> set (picked db)"
      then have "(rv_ip x, filter (\<lambda>e. Some (rv_ip e) = Some (rv_ip x)) (picked db)) \<in> set ?gs" by (auto simp: in_group_on)
      then show "x \<in> (\<Union>g \<in> set ?gs. set (snd g))" using \<open>x \<in> set (picked db)\<close> by force
    qed (auto simp: in_group_on)
    have ids: "distinct (map as_session_id (attacker_sessions db))" "list_all (key_honest epoch) (attacker_sessions db)"
      using ord by (simp_all add: orderly_def)
    from map_addresses_orderly[OF clock ids distinct_group_on ready, of now] obtain db' ps where
      run: "map_addresses epoch now ?gs db = Some db'" "distinct (map as_session_id (attacker_sessions db'))"
      "list_all (key_honest epoch) (attacker_sessions db')" "sightings db' = relabel ps (sightings db)"
      "fst ` set ps = rv_id ` set (picked db)"
      and seen: "\<forall>s \<in> set (attacker_sessions db'). s \<in> set (attacker_sessions db)
         \<or> (\<exists>(ip, rows) \<in> set ?gs. as_ip s = ip \<and> (\<forall>u. (\<forall>r \<in> set rows. seen_at now r \<le> u) \<longrightarrow> as_last_seen s \<le> u))"
      unfolding union by (elim exE conjE) (rule that)
    have left: "unmapped db' = filter (\<lambda>r. rv_id r \<notin> rv_id ` set (picked db)) (unmapped db)"
      using unmapped_relabel[OF run(4)] run(5) by simp
    have bound: "as_last_seen s \<le> t" if s: "s \<in> set (attacker_sessions db')" "as_ip s = rv_ip r"
      and r: "r \<in> set (unmapped db')" "rv_timestamp r = Some t" for s r t
    proof -
      have r': "r \<in> set (unmapped db)" "rv_id r \<notin> rv_id ` set (picked db)" using r(1) by (auto simp: left)
      have "seen_at now q \<le> t" if "q \<in> set (picked db)" "rv_ip q = rv_ip r" for q
      proof -
        have "q \<in> set (unmapped db)" using pc(2) that(1) by blast
        then obtain u where "rv_timestamp q = Some u" using un by blast
        then show ?thesis using picked_order[OF that(1) r' that(2)] r(2) by (simp add: seen_at_def)
      qed
      then show ?thesis using seen s un[OF r'(1)] r(2) by (fastforce simp: in_group_on)
    qed
    have "\<exists>t \<ge> 0. rv_timestamp r = Some t \<and> (\<forall>s \<in> set (attacker_sessions db'). as_ip s = rv_ip r \<longrightarrow> as_last_seen s \<le> t)"
      if "r \<in> set (unmapped db')" for r
    proof -
      have "r \<in> set (unmapped db)" using that by (simp add: left)
      then obtain t where "0 \<le> t" "rv_timestamp r = Some t" using un by blast
      then show ?thesis using bound that by blast
    qed
    moreover have "distinct (map rv_id (sightings db'))" using ord run(4) by (simp add: orderly_def)
    ultimately have "orderly epoch db'" using run(2,3) by (simp add: orderly_def)
    then show ?thesis
      using run(1,4) pc(1) False left by (simp add: process_unmapped_events_def Let_def)
  qed
qed

definition passes :: "(time \<Rightarrow> int) \<Rightarrow> time list \<Rightarrow> session_db \<Rightarrow> bool \<times> session_db" where
  "passes epoch nows db = foldl (\<lambda>(failed, db) now.
     case process_unmapped_events epoch now db of (raised, db') \<Rightarrow> (failed \<or> raised, db')) (False, db) nows"

text \<open>C20. The backlog drains: while an address's events arrive in the order of their time stamps, no
  pass of the engine raises, and after one pass for every thousand waiting events each of
  them belongs to a session.\<close>

theorem session_backlog_drains:
  assumes "clock_ok epoch" and "orderly epoch db" and "length (unmapped db) \<le> UNMAPPED_BATCH * length nows"
  shows "fst (passes epoch nows db) = False \<and> unmapped (snd (passes epoch nows db)) = []
    \<and> map rv_id (sightings (snd (passes epoch nows db))) = map rv_id (sightings db)"
proof -
  have "fst (passes epoch nows db) = False \<and> orderly epoch (snd (passes epoch nows db))
    \<and> length (unmapped (snd (passes epoch nows db))) = length (unmapped db) - UNMAPPED_BATCH * length nows
    \<and> map rv_id (sightings (snd (passes epoch nows db))) = map rv_id (sightings db)"
  proof (induction nows rule: rev_induct)
    case (snoc now nows)
    obtain failed d where d: "passes epoch nows db = (failed, d)" by fastforce
    have step: "passes epoch (nows @ [now]) db =
        (case process_unmapped_events epoch now d of (raised, db') \<Rightarrow> (failed \<or> raised, db'))"
      using d by (simp add: passes_def)
    from snoc d pass_ordered[OF assms(1), of d now] show ?case by (auto simp: step)
  qed (simp add: passes_def assms(2))
  then show ?thesis using assms(3) by simp
qed

lemma map_of_const: "map_of (map (\<lambda>e. (f e, v)) xs) k = (if k \<in> f ` set xs then Some v else None)"
  by (induction xs) auto

lemma map_of_labels:
  "map_of (concat (map (labels epoch now ip) runs)) k
     = map_option (label_of epoch now ip) (find (\<lambda>run. k \<in> rv_id ` set run) runs)"
proof (induction runs)
  case (Cons run runs)
  have "map_of (labels epoch now ip run) k = (if k \<in> rv_id ` set run then Some (label_of epoch now ip run) else None)"
    unfolding labels_def by (rule map_of_const)
  with Cons show ?case by (simp add: map_add_def)
qed simp

text \<open>C19. For an address without earlier sessions, the engine's one loop over the events is the
  specification: its stream cut wherever more than thirty minutes pass, one session row per run
  with the run's first and last time, number of events and highest risk, and every event of the
  run carrying that session's key.\<close>

theorem sessions_are_activity_runs:
  assumes "clock_ok epoch" "distinct (map as_session_id (attacker_sessions db))"
    and "list_all (key_honest epoch) (attacker_sessions db)" "list_all (\<lambda>s. as_ip s \<noteq> ip) (attacker_sessions db)"
    and "rows \<noteq> []" "distinct (map rv_id rows)" "list_all (\<lambda>r. \<exists>t \<ge> 0. rv_timestamp r = Some t) rows"
    and "runs = segments (seen_at now) (sort_key rv_timestamp rows)"
  shows "\<exists>db' new. map_address epoch now (ip, rows) db = Some db'
    \<and> attacker_sessions db' = attacker_sessions db @ new
    \<and> list_all2 (\<lambda>run s. as_session_id s = session_key epoch ip (seen_at now (hd run)) \<and> as_ip s = ip
         \<and> as_first_seen s = seen_at now (hd run) \<and> as_last_seen s = seen_at now (last run)
         \<and> as_total_events s = length run
         \<and> as_risk_level s = Some (risk_level (max_or 0 (map score_or_0 run)))) runs new
    \<and> sightings db' = map (\<lambda>r. case find (\<lambda>run. rv_id r \<in> rv_id ` set run) runs of
         None \<Rightarrow> r | Some run \<Rightarrow> r\<lparr>rv_session := Some (session_key epoch ip (seen_at now (hd run)))\<rparr>) (sightings db)"
proof -
  have none: "resumed ip (sort_key rv_timestamp rows) db = None"
    using assms(4) by (simp add: resumed_def list_all_iff filter_empty_conv sort_desc_def)
  have order: "in_order ip rows (attacker_sessions db)" using assms(4,7) by (auto simp: in_order_def list_all_iff)
  note fresh = fresh_runs[OF assms(1-3,5) order none assms(8)]
  let ?db = "db\<lparr>sightings := relabel (concat (map (labels epoch now ip) runs)) (sightings db),
      attacker_sessions := attacker_sessions db @ map (session_of epoch now ip) runs\<rparr>"
  have "map_address epoch now (ip, rows) db = Some ?db"
    unfolding assms(8) by (rule map_address_fresh[OF refl assms(5) none _ assms(6)]) (rule fresh(1)[unfolded assms(8)])
  moreover have "relabel (concat (map (labels epoch now ip) runs)) (sightings db) =
      map (\<lambda>r. case find (\<lambda>run. rv_id r \<in> rv_id ` set run) runs of
         None \<Rightarrow> r | Some run \<Rightarrow> r\<lparr>rv_session := Some (session_key epoch ip (seen_at now (hd run)))\<rparr>) (sightings db)"
    unfolding relabel_def map_of_labels by (rule map_cong[OF refl]) (simp add: label_of_def split: option.split)
  moreover have "list_all2 (\<lambda>run s. as_session_id s = session_key epoch ip (seen_at now (hd run)) \<and> as_ip s = ip
         \<and> as_first_seen s = seen_at now (hd run) \<and> as_last_seen s = seen_at now (last run)
         \<and> as_total_events s = length run
         \<and> as_risk_level s = Some (risk_level (max_or 0 (map score_or_0 run)))) runs (map (session_of epoch now ip) runs)"
    using fresh(2) by (simp add: list_all2_map2 list_all2_same session_of_spec label_of_def)
  ultimately show ?thesis by (intro exI[of _ ?db] exI[of _ "map (session_of epoch now ip) runs"]) simp
qed

section \<open>Examples\<close>

definition utc :: "time \<Rightarrow> int" where
  "utc t = t div 1000000"

lemma utc_clock: "clock_ok utc"
proof -
  have "t div 1000000 < u div 1000000" if "t + 1800000000 < u" for t u :: int
  proof -
    have "(t + 1800 * 1000000) div 1000000 \<le> u div 1000000" using that by (intro zdiv_mono1) simp_all
    moreover have "(t + 1800 * 1000000) div 1000000 = t div 1000000 + 1800" by simp
    ultimately show ?thesis by simp
  qed
  then show ?thesis
    by (auto simp: clock_ok_def utc_def SESSION_TIMEOUT_def time_defs pos_imp_zdiv_nonneg_iff)
qed

definition probe :: "string \<Rightarrow> time \<Rightarrow> rat \<Rightarrow> sighting" where
  "probe n t score = \<lparr>rv_id = n, rv_timestamp = Some t, rv_ip = ''10.0.0.9'', rv_session = None,
     rv_score = Some score, rv_geo = JNull\<rparr>"

definition arrive :: "sighting \<Rightarrow> session_db \<Rightarrow> session_db" where
  "arrive r db = db\<lparr>sightings := sightings db @ [r]\<rparr>"

text \<open>An event that arrives late moves \<open>last_seen\<close> back; the next event then looks like the start
  of a new session, and when it falls in the second in which the session was opened, the key is
  taken: the pass raises, and so does every later one, for all addresses.\<close>

text \<open>An event that arrives late moves \<open>last_seen\<close> back; the next event then looks like the start
  of a new session, and when it falls in the second in which the session was opened, the key is
  taken: the pass raises, and so does every later one, for all addresses.\<close>

lemmas engine_run = process_unmapped_events_def picked_def unmapped_def group_on_def map_address_def resumed_def
  map_event_def current_for_def new_session_def add_session_def put_session_def assign_def touch_def session_key_def
  seen_at_def score_or_0_def risk_level_def risk_floor_def geo_country_def sort_desc_def
  UNMAPPED_BATCH_def SESSION_TIMEOUT_def time_defs Let_def

definition after_one :: session_db where
  "after_one = snd (process_unmapped_events utc 0
     (arrive (probe ''a'' (hours 12) 10) \<lparr>sightings = [], attacker_sessions = []\<rparr>))"

definition after_late :: session_db where
  "after_late = snd (process_unmapped_events utc 0 (arrive (probe ''b'' (hours 11) 10) after_one))"

lemma late_event_jams_the_engine:
  "map as_last_seen (attacker_sessions after_one) = [hours 12]"
  "map as_last_seen (attacker_sessions after_late) = [hours 11]"
  "process_unmapped_events utc now (arrive (probe ''c'' (hours 12 + 1) 10) after_late)
     = (True, arrive (probe ''c'' (hours 12 + 1) 10) after_late)"
  by (simp_all add: after_one_def after_late_def arrive_def probe_def utc_def engine_run)

theorem session_backlog_drains_witness:
  "unmapped (snd (passes utc [0] \<lparr>sightings = [probe ''a'' 5 10, probe ''b'' 7 90], attacker_sessions = []\<rparr>)) = []"
  by (rule conjunct1[OF conjunct2[OF session_backlog_drains[OF utc_clock]]])
    (simp_all add: orderly_def unmapped_def probe_def UNMAPPED_BATCH_def)

theorem sessions_are_activity_runs_witness:
  "\<exists>db'. map_address utc 0 (''10.0.0.9'', [probe ''a'' 5 10, probe ''b'' 7 90]) \<lparr>sightings = [], attacker_sessions = []\<rparr> = Some db'
     \<and> length (attacker_sessions db') = length (segments (seen_at 0) (sort_key rv_timestamp [probe ''a'' 5 10, probe ''b'' 7 90]))"
proof -
  have "distinct (map rv_id [probe ''a'' 5 10, probe ''b'' 7 90])"
    "list_all (\<lambda>r. \<exists>t \<ge> 0. rv_timestamp r = Some t) [probe ''a'' 5 10, probe ''b'' 7 90]"
    by (simp_all add: probe_def)
  from sessions_are_activity_runs[OF utc_clock, of "\<lparr>sightings = [], attacker_sessions = []\<rparr>" "''10.0.0.9''", OF _ _ _ _ this refl, of 0]
  show ?thesis by (auto dest: list_all2_lengthD)
qed

end
