(* ===== verification/Containers.thy ===== *)
theory Containers
  imports Json
begin

text \<open>
  The container manager (\<open>backend/app/services/container_manager.py\<close>), the one module that
  talks to the Docker daemon: the policy checks for lab and analysis containers, and the
  operations that list, inspect, stop and enter containers.

  The daemon is not modelled: every call the module makes is recorded in a log, and the answer
  is an argument, a function of the log so far, so that the theorems hold for any daemon. The
  keyword arguments of \<open>containers.run\<close> are a dictionary of Python values. A raised exception
  is a value: \<open>policy_error\<close> has one constructor per \<open>raise\<close> of the policy checks, and
  \<open>Type_error\<close> for a value of a type the check cannot handle (an \<open>AttributeError\<close>, \<open>TypeError\<close>
  or \<open>ValueError\<close>). The environment variables the module reads when it is imported are the
  record \<open>container_config\<close>. The forbidden options are a Python set, tested here in the order
  they are written; which of several violations is reported first is not specified by the code.
\<close>

definition MANAGED_LABEL :: string where
  "MANAGED_LABEL = ''shadowtrust.managed''"

definition LAB_ID_LABEL :: string where
  "LAB_ID_LABEL = ''shadowtrust.lab_id''"

definition KIND_LABEL :: string where
  "KIND_LABEL = ''shadowtrust.kind''"

definition SESSION_LABEL :: string where
  "SESSION_LABEL = ''shadowtrust.session''"

definition OWNER_LABEL :: string where
  "OWNER_LABEL = ''shadowtrust.owner''"

lemmas label_defs = MANAGED_LABEL_def LAB_ID_LABEL_def KIND_LABEL_def SESSION_LABEL_def OWNER_LABEL_def

record container_config =
  cc_kali_image :: string
  cc_windows_image :: string
  cc_image_allowlist :: string
  cc_lab_network :: string
  cc_max_mem_gb :: int
  cc_max_cpu :: rat
  cc_analysis_image :: string
  cc_analysis_network :: string

definition default_config :: container_config where
  "default_config = \<lparr>cc_kali_image = ''shadowtrust/lab-kali:latest'', cc_windows_image = ''dockurr/windows'',
     cc_image_allowlist = [], cc_lab_network = ''shadowtrust_labnet'', cc_max_mem_gb = 16, cc_max_cpu = 8,
     cc_analysis_image = ''shadowtrust/analysis-shell:latest'', cc_analysis_network = ''shadowtrust_analysis''\<rparr>"

definition allowed_lab_images :: "container_config \<Rightarrow> string list" where
  "allowed_lab_images cfg =
     [cc_kali_image cfg, cc_windows_image cfg]
     @ (let extra = strip (cc_image_allowlist cfg)
        in if extra = [] then [] else filter (\<lambda>i. i \<noteq> []) (map strip (split_on (CHR '','') extra)))"

definition KVM_CAPS :: "json list" where
  "KVM_CAPS = [JStr ''NET_ADMIN'']"

definition KVM_DEVICES :: "json list" where
  "KVM_DEVICES = [JStr ''/dev/kvm'']"

definition ANALYSIS_MAX_MEM :: string where
  "ANALYSIS_MAX_MEM = ''512m''"

definition ANALYSIS_MAX_NANO_CPUS :: int where
  "ANALYSIS_MAX_NANO_CPUS = 1000000000"

definition ANALYSIS_PIDS_LIMIT :: int where
  "ANALYSIS_PIDS_LIMIT = 128"

definition STACK_CONTAINERS :: "string list" where
  "STACK_CONTAINERS = [''honeynet_backend'', ''honeynet_frontend'', ''honeynet_db'', ''honeynet_phpmyadmin'',
     ''honeynet_mobsf'', ''honeynet_clamav'', ''honeynet_cowrie'', ''honeynet_dionaea'',
     ''honeynet_honeytrap'', ''guacamole'', ''guacd'', ''guacamole_db'', ''splunk'']"

definition PLATFORM_CONTAINERS :: "string list" where
  "PLATFORM_CONTAINERS = [''honeynet_backend'', ''honeynet_frontend'', ''honeynet_db'', ''honeynet_phpmyadmin'',
     ''honeynet_mobsf'', ''honeynet_clamav'', ''guacamole'', ''guacd'', ''guacamole_db'']"

definition MAX_LOG_TAIL :: int where
  "MAX_LOG_TAIL = 200"

definition FORBIDDEN_RUN_KEYS :: "string list" where
  "FORBIDDEN_RUN_KEYS = [''privileged'', ''pid_mode'', ''ipc_mode'', ''userns_mode'', ''network_mode'',
     ''volumes'', ''mounts'', ''binds'', ''volumes_from'', ''tmpfs'',
     ''cgroup_parent'', ''security_opt'', ''sysctls'', ''pids_limit'']"

definition ANALYSIS_FORBIDDEN_KEYS :: "string list" where
  "ANALYSIS_FORBIDDEN_KEYS = [''volumes'', ''mounts'', ''binds'', ''volumes_from'', ''tmpfs'', ''devices'',
     ''privileged'', ''pid_mode'', ''ipc_mode'', ''network_mode'']"

datatype policy_error =
    Image_not_allowed string
  | Wrong_network json
  | Forbidden_option string
  | Label_missing string
  | Bad_name
  | Cpu_ceiling
  | Memory_ceiling
  | Capabilities_not_allowed
  | Capabilities_kept
  | Privileges_not_dropped
  | Root_user
  | Pids_unlimited
  | Unmanaged_container string
  | Logs_not_exposed string
  | Type_error

section \<open>Python values\<close>

text \<open>\<open>list(value or [])\<close> and \<open>set(value or [])\<close>; the latter needs hashable elements.\<close>

definition items_or :: "json \<Rightarrow> json list option" where
  "items_or v = (if \<not> truthy v then Some [] else
     case v of JList xs \<Rightarrow> Some xs | JStr s \<Rightarrow> Some (map (\<lambda>c. JStr [c]) s)
     | JObj kvs \<Rightarrow> Some (map (\<lambda>(k, _). JStr k) kvs) | _ \<Rightarrow> None)"

definition hashable :: "json \<Rightarrow> bool" where
  "hashable v = (case v of JList _ \<Rightarrow> False | JObj _ \<Rightarrow> False | _ \<Rightarrow> True)"

definition set_or :: "json \<Rightarrow> json list option" where
  "set_or v = (case items_or v of None \<Rightarrow> None | Some xs \<Rightarrow> if list_all hashable xs then Some xs else None)"

text \<open>\<open>labels = value or {}\<close>, before its \<open>.get\<close>.\<close>

definition dict_or :: "json \<Rightarrow> jdict option" where
  "dict_or v = (if \<not> truthy v then Some [] else case v of JObj kvs \<Rightarrow> Some kvs | _ \<Rightarrow> None)"

definition str_or :: "json \<Rightarrow> string option" where
  "str_or v = (if \<not> truthy v then Some [] else case v of JStr s \<Rightarrow> Some s | _ \<Rightarrow> None)"

text \<open>A number a ceiling is compared with; a string or a collection raises.\<close>

definition number_of :: "json \<Rightarrow> rat option" where
  "number_of v = (case v of JInt i \<Rightarrow> Some (of_int i) | JFloat r _ \<Rightarrow> Some r
     | JBool b \<Rightarrow> Some (if b then 1 else 0) | _ \<Rightarrow> None)"

text \<open>\<open>str.isdigit\<close> accepts the superscript digits, which \<open>int\<close> then refuses.\<close>

definition py_isdigit :: "string \<Rightarrow> bool" where
  "py_isdigit s \<longleftrightarrow> s \<noteq> [] \<and> list_all (\<lambda>c. is_digit c \<or> of_char c \<in> {178, 179, 185 :: nat}) s"

section \<open>Policy checks\<close>

type_synonym verdict = "policy_error option"

text \<open>The first check that raises.\<close>

fun first_error :: "verdict list \<Rightarrow> verdict" where
  "first_error [] = None"
| "first_error (v # vs) = (case v of None \<Rightarrow> first_error vs | Some e \<Rightarrow> Some e)"

definition require :: "bool \<Rightarrow> policy_error \<Rightarrow> verdict" where
  "require ok e = (if ok then None else Some e)"

definition check_network :: "string \<Rightarrow> jdict \<Rightarrow> verdict" where
  "check_network net kw =
     (let requested = py_or (dict_get ''network'' kw) (dict_get ''network_mode'' kw)
      in require (requested = JStr net \<or> requested = JNull) (Wrong_network requested))"

definition check_absent :: "string list \<Rightarrow> jdict \<Rightarrow> verdict" where
  "check_absent keys kw = first_error (map (\<lambda>k. require (\<not> truthy (dict_get k kw)) (Forbidden_option k)) keys)"

definition check_lab_labels :: "jdict \<Rightarrow> verdict" where
  "check_lab_labels kw = (case dict_or (dict_get ''labels'' kw) of
       None \<Rightarrow> Some Type_error
     | Some labels \<Rightarrow> first_error
         [require (dict_get MANAGED_LABEL labels = JStr ''true'') (Label_missing MANAGED_LABEL),
          require (truthy (dict_get LAB_ID_LABEL labels)) (Label_missing LAB_ID_LABEL)])"

definition check_name :: "string \<Rightarrow> jdict \<Rightarrow> verdict" where
  "check_name prefix kw = (case str_or (dict_get ''name'' kw) of
       None \<Rightarrow> Some Type_error
     | Some name \<Rightarrow> require (starts_with prefix name) Bad_name)"

definition check_cpu :: "container_config \<Rightarrow> jdict \<Rightarrow> verdict" where
  "check_cpu cfg kw = (let nano = dict_get ''nano_cpus'' kw in
     if \<not> truthy nano then None
     else case number_of nano of
       None \<Rightarrow> Some Type_error
     | Some n \<Rightarrow> require (\<not> n > cc_max_cpu cfg * 1000000000) Cpu_ceiling)"

definition check_memory :: "container_config \<Rightarrow> jdict \<Rightarrow> verdict" where
  "check_memory cfg kw = (let mem = py_str (py_or (dict_get ''mem_limit'' kw) (JStr [])) in
     if ends_with ''g'' mem \<and> py_isdigit (butlast mem)
     then (case int_of_str (butlast mem) of
             None \<Rightarrow> Some Type_error
           | Some n \<Rightarrow> require (\<not> n > cc_max_mem_gb cfg) Memory_ceiling)
     else None)"

definition check_kvm :: "container_config \<Rightarrow> string \<Rightarrow> jdict \<Rightarrow> verdict" where
  "check_kvm cfg img kw =
     (case (set_or (dict_get ''cap_add'' kw), set_or (dict_get ''devices'' kw)) of
        (Some caps, Some devices) \<Rightarrow>
          if caps \<noteq> [] \<or> devices \<noteq> [] then first_error
            [require (img = cc_windows_image cfg) Capabilities_not_allowed,
             require (set caps \<subseteq> set KVM_CAPS) Capabilities_not_allowed,
             require (set devices \<subseteq> set KVM_DEVICES) Capabilities_not_allowed]
          else None
      | _ \<Rightarrow> Some Type_error)"

definition validate_lab_run :: "container_config \<Rightarrow> string option \<Rightarrow> string \<Rightarrow> jdict \<Rightarrow> verdict" where
  "validate_lab_run cfg allowed_network img kw =
     (let net = (case allowed_network of Some n \<Rightarrow> if n = [] then cc_lab_network cfg else n
                 | None \<Rightarrow> cc_lab_network cfg)
      in first_error
        [require (img \<in> set (allowed_lab_images cfg)) (Image_not_allowed img),
         check_network net kw,
         check_absent FORBIDDEN_RUN_KEYS kw,
         check_lab_labels kw,
         check_name ''shadowtrust-'' kw,
         check_cpu cfg kw,
         check_memory cfg kw,
         check_kvm cfg img kw])"

definition check_analysis_labels :: "jdict \<Rightarrow> verdict" where
  "check_analysis_labels kw = (case dict_or (dict_get ''labels'' kw) of
       None \<Rightarrow> Some Type_error
     | Some labels \<Rightarrow> first_error
         [require (dict_get MANAGED_LABEL labels = JStr ''true''
                   \<and> dict_get KIND_LABEL labels = JStr ''analysis-shell'') (Label_missing KIND_LABEL),
          require (truthy (dict_get SESSION_LABEL labels) \<and> truthy (dict_get OWNER_LABEL labels))
            (Label_missing SESSION_LABEL)])"

definition check_items :: "json \<Rightarrow> (json list \<Rightarrow> bool) \<Rightarrow> policy_error \<Rightarrow> verdict" where
  "check_items v ok e = (case items_or v of None \<Rightarrow> Some Type_error | Some xs \<Rightarrow> require (ok xs) e)"

definition validate_analysis_run :: "container_config \<Rightarrow> string \<Rightarrow> jdict \<Rightarrow> verdict" where
  "validate_analysis_run cfg img kw = first_error
     [require (img = cc_analysis_image cfg) (Image_not_allowed img),
      require (dict_get ''network'' kw = JStr (cc_analysis_network cfg)) (Wrong_network (dict_get ''network'' kw)),
      check_absent ANALYSIS_FORBIDDEN_KEYS kw,
      require (\<not> truthy (dict_get ''cap_add'' kw)) Capabilities_not_allowed,
      check_items (dict_get ''cap_drop'' kw) (\<lambda>xs. xs = [JStr ''ALL'']) Capabilities_kept,
      check_items (dict_get ''security_opt'' kw) (\<lambda>xs. JStr ''no-new-privileges:true'' \<in> set xs) Privileges_not_dropped,
      require (strip (py_str (py_or (dict_get ''user'' kw) (JStr []))) \<notin> {[], ''0'', ''root''}) Root_user,
      require (py_str (py_or (dict_get ''mem_limit'' kw) (JStr [])) = ANALYSIS_MAX_MEM) Memory_ceiling,
      (case py_int (py_or (dict_get ''nano_cpus'' kw) (JInt 0)) of
         None \<Rightarrow> Some Type_error | Some n \<Rightarrow> require (\<not> n > ANALYSIS_MAX_NANO_CPUS) Cpu_ceiling),
      require (truthy (dict_get ''pids_limit'' kw)) Pids_unlimited,
      check_name ''shadowtrust-shell-'' kw,
      check_analysis_labels kw]"

section \<open>The daemon and the operations\<close>

record container =
  c_id :: string
  c_name :: string
  c_labels :: "(string \<times> string) list"
  c_status :: string
  c_running :: bool
  c_health :: "string option"
  c_started_at :: "string option"
  c_networks :: "(string \<times> string option) list"

datatype docker_call =
    Ping
  | Run string jdict
  | List_containers "string list" bool
  | Stop container int
  | Remove container
  | Exec container "string list"
  | Get_network string
  | Create_network string bool
  | Get_container string
  | Logs container int
  | Reload container

text \<open>The answers of the daemon, after the calls made so far; \<open>None\<close> is an exception.\<close>

record daemon =
  dk_run :: "docker_call list \<Rightarrow> string \<Rightarrow> jdict \<Rightarrow> string + container"
  dk_list :: "docker_call list \<Rightarrow> string list \<Rightarrow> bool \<Rightarrow> container list option"
  dk_succeeds :: "docker_call list \<Rightarrow> docker_call \<Rightarrow> bool"
  dk_exec :: "docker_call list \<Rightarrow> container \<Rightarrow> string list \<Rightarrow> (int \<times> string) option"
  dk_get :: "docker_call list \<Rightarrow> string \<Rightarrow> container option"
  dk_logs :: "docker_call list \<Rightarrow> container \<Rightarrow> int \<Rightarrow> string"

text \<open>The module's state is the cached client and, for the theorems, the calls made so far. An
  operation returns a value or raises.\<close>

record manager =
  mg_client :: bool
  mg_calls :: "docker_call list"

datatype manager_error = Policy policy_error | Unavailable | Daemon_error string

type_synonym 'a operation = "manager \<Rightarrow> (manager_error + 'a) \<times> manager"

definition issue :: "docker_call \<Rightarrow> manager \<Rightarrow> manager" where
  "issue call m = m\<lparr>mg_calls := mg_calls m @ [call]\<rparr>"

text \<open>\<open>get_client\<close>; \<open>installed\<close> says that the docker package can be imported.\<close>

definition get_client :: "daemon \<Rightarrow> bool \<Rightarrow> unit operation" where
  "get_client dk installed m =
     (if mg_client m then (Inr (), m)
      else if \<not> installed then (Inl Unavailable, m)
      else if dk_succeeds dk (mg_calls m) Ping then (Inr (), (issue Ping m)\<lparr>mg_client := True\<rparr>)
      else (Inl Unavailable, issue Ping m))"

definition available :: "daemon \<Rightarrow> bool \<Rightarrow> manager \<Rightarrow> bool \<times> manager" where
  "available dk installed m = (case get_client dk installed m of (r, m') \<Rightarrow> (\<not> isl r, m'))"

definition reset_client :: "manager \<Rightarrow> manager" where
  "reset_client m = m\<lparr>mg_client := False\<rparr>"

text \<open>\<open>client or get_client()\<close>\<close>

definition client_or :: "bool \<Rightarrow> daemon \<Rightarrow> bool \<Rightarrow> unit operation" where
  "client_or given dk installed m = (if given then (Inr (), m) else get_client dk installed m)"

definition labels_of :: "container \<Rightarrow> string \<Rightarrow> string option" where
  "labels_of c = map_of (c_labels c)"

definition is_managed :: "container \<Rightarrow> bool" where
  "is_managed c \<longleftrightarrow> labels_of c MANAGED_LABEL = Some ''true''"

definition assert_managed :: "container \<Rightarrow> verdict" where
  "assert_managed c = require (is_managed c) (Unmanaged_container (c_name c))"

definition launch :: "daemon \<Rightarrow> string \<Rightarrow> jdict \<Rightarrow> container operation" where
  "launch dk img kw m = (case dk_run dk (mg_calls m) img kw of
       Inl e \<Rightarrow> (Inl (Daemon_error e), issue (Run img kw) m)
     | Inr c \<Rightarrow> (Inr c, issue (Run img kw) m))"

definition run_lab_container :: "container_config \<Rightarrow> daemon \<Rightarrow> bool \<Rightarrow> bool \<Rightarrow> string option \<Rightarrow> string \<Rightarrow> jdict
    \<Rightarrow> container operation" where
  "run_lab_container cfg dk installed given net img kw m =
     (case validate_lab_run cfg net img kw of
        Some e \<Rightarrow> (Inl (Policy e), m)
      | None \<Rightarrow> (case client_or given dk installed m of
            (Inl e, m) \<Rightarrow> (Inl e, m)
          | (Inr _, m) \<Rightarrow> launch dk img kw m))"

definition list_containers :: "daemon \<Rightarrow> string list \<Rightarrow> bool \<Rightarrow> container list operation" where
  "list_containers dk flt everything m =
     ((case dk_list dk (mg_calls m) flt everything of None \<Rightarrow> Inl (Daemon_error ''list'') | Some cs \<Rightarrow> Inr cs),
      issue (List_containers flt everything) m)"

text \<open>Apply a function to the value of an operation.\<close>

definition returning :: "('a \<Rightarrow> 'b) \<Rightarrow> (manager_error + 'a) \<times> manager \<Rightarrow> (manager_error + 'b) \<times> manager" where
  "returning f = (\<lambda>(r, m). (case r of Inl e \<Rightarrow> Inl e | Inr x \<Rightarrow> Inr (f x), m))"

definition find_lab_container :: "daemon \<Rightarrow> bool \<Rightarrow> bool \<Rightarrow> string \<Rightarrow> container option operation" where
  "find_lab_container dk installed given lab_id m =
     (case client_or given dk installed m of
        (Inl _, m) \<Rightarrow> (Inr None, m)
      | (Inr _, m) \<Rightarrow> 
          returning (find is_managed) (list_containers dk [LAB_ID_LABEL @ ''='' @ lab_id] True m))"

definition list_managed :: "daemon \<Rightarrow> bool \<Rightarrow> bool \<Rightarrow> bool \<Rightarrow> string option \<Rightarrow> container list operation" where
  "list_managed dk installed given running_only kind m =
     (case client_or given dk installed m of
        (Inl _, m) \<Rightarrow> (Inr [], m)
      | (Inr _, m) \<Rightarrow>
          let flt = [MANAGED_LABEL @ ''=true''] @
                (case kind of None \<Rightarrow> [] | Some k \<Rightarrow> if k = [] then [] else [KIND_LABEL @ ''='' @ k])
          in list_containers dk flt (\<not> running_only) m)"

definition exec_in_managed :: "daemon \<Rightarrow> container \<Rightarrow> string list \<Rightarrow> (int \<times> string) operation" where
  "exec_in_managed dk c cmd m =
     (case assert_managed c of
        Some e \<Rightarrow> (Inl (Policy e), m)
      | None \<Rightarrow> (case dk_exec dk (mg_calls m) c cmd of
            None \<Rightarrow> (Inl (Daemon_error ''exec''), issue (Exec c cmd) m)
          | Some r \<Rightarrow> (Inr r, issue (Exec c cmd) m)))"

definition attach_shell :: "daemon \<Rightarrow> container \<Rightarrow> string \<Rightarrow> (int \<times> string) operation" where
  "attach_shell dk c sh m = exec_in_managed dk c [sh] m"

text \<open>The exceptions of \<open>stop\<close> and \<open>remove\<close> are swallowed.\<close>

definition stop_and_remove_managed :: "container \<Rightarrow> unit operation" where
  "stop_and_remove_managed c m =
     (case assert_managed c of
        Some e \<Rightarrow> (Inl (Policy e), m)
      | None \<Rightarrow> (Inr (), issue (Remove c) (issue (Stop c 3) m)))"

text \<open>Look the network up, and create it when that fails; a failure to create is swallowed.\<close>

definition ensure_network :: "daemon \<Rightarrow> string \<Rightarrow> bool \<Rightarrow> manager \<Rightarrow> manager" where
  "ensure_network dk name internal m =
     (let found = dk_succeeds dk (mg_calls m) (Get_network name); m = issue (Get_network name) m
      in if found then m else issue (Create_network name internal) m)"

definition ensure_lab_network :: "container_config \<Rightarrow> daemon \<Rightarrow> bool \<Rightarrow> bool \<Rightarrow> string option \<Rightarrow> unit operation" where
  "ensure_lab_network cfg dk installed given name m =
     (let net = (case name of Some n \<Rightarrow> if n = [] then cc_lab_network cfg else n | None \<Rightarrow> cc_lab_network cfg) in
      case client_or given dk installed m of
        (Inl _, m) \<Rightarrow> (Inr (), m)
      | (Inr _, m) \<Rightarrow> (Inr (), ensure_network dk net False m))"

definition analysis_kwargs :: "container_config \<Rightarrow> string \<Rightarrow> string \<Rightarrow> jdict" where
  "analysis_kwargs cfg session_id owner =
     [(''name'', JStr (''shadowtrust-shell-'' @ take 12 session_id)),
      (''hostname'', JStr ''web-prod-01''),
      (''command'', JList [JStr ''sleep'', JStr ''infinity'']),
      (''detach'', JBool True),
      (''tty'', JBool True),
      (''stdin_open'', JBool True),
      (''network'', JStr (cc_analysis_network cfg)),
      (''user'', JStr ''analyst''),
      (''mem_limit'', JStr ANALYSIS_MAX_MEM),
      (''nano_cpus'', JInt ANALYSIS_MAX_NANO_CPUS),
      (''pids_limit'', JInt ANALYSIS_PIDS_LIMIT),
      (''cap_drop'', JList [JStr ''ALL'']),
      (''security_opt'', JList [JStr ''no-new-privileges:true'']),
      (''read_only'', JBool False),
      (''auto_remove'', JBool False),
      (''restart_policy'', JObj [(''Name'', JStr ''no'')]),
      (''labels'', JObj [(MANAGED_LABEL, JStr ''true''), (KIND_LABEL, JStr ''analysis-shell''),
                         (SESSION_LABEL, JStr session_id), (OWNER_LABEL, JStr owner)])]"

definition run_analysis_container :: "container_config \<Rightarrow> daemon \<Rightarrow> bool \<Rightarrow> bool \<Rightarrow> string \<Rightarrow> string
    \<Rightarrow> container operation" where
  "run_analysis_container cfg dk installed given session_id owner m =
     (let img = cc_analysis_image cfg; kw = analysis_kwargs cfg session_id owner in
      case validate_analysis_run cfg img kw of
        Some e \<Rightarrow> (Inl (Policy e), m)
      | None \<Rightarrow> (case client_or given dk installed m of
            (Inl e, m) \<Rightarrow> (Inl e, m)
          | (Inr _, m) \<Rightarrow> launch dk img kw (ensure_network dk (cc_analysis_network cfg) True m)))"

definition find_session_container :: "daemon \<Rightarrow> bool \<Rightarrow> bool \<Rightarrow> string \<Rightarrow> container option operation" where
  "find_session_container dk installed given session_id m =
     (case client_or given dk installed m of
        (Inl _, m) \<Rightarrow> (Inr None, m)
      | (Inr _, m) \<Rightarrow> 
          returning (find (\<lambda>c. is_managed c \<and> labels_of c KIND_LABEL = Some ''analysis-shell''))
            (list_containers dk [SESSION_LABEL @ ''='' @ session_id] True m))"

record stack_entry =
  se_status :: string
  se_running :: bool
  se_health :: "string option"
  se_started_at :: "string option"
  se_lab :: bool
  se_env :: "string option"

definition stack_entry :: "container \<Rightarrow> stack_entry" where
  "stack_entry c = \<lparr>se_status = c_status c, se_running = c_running c, se_health = c_health c,
     se_started_at = c_started_at c, se_lab = is_managed c,
     se_env = (if is_managed c then labels_of c ''shadowtrust.environment'' else None)\<rparr>"

definition read_stack_status :: "daemon \<Rightarrow> bool \<Rightarrow> string list \<Rightarrow> (string \<times> stack_entry) list operation" where
  "read_stack_status dk installed names m =
     (let wanted = filter (\<lambda>n. n \<in> set STACK_CONTAINERS) names in
      case get_client dk installed m of
        (Inl _, m) \<Rightarrow> (Inr [], m)
      | (Inr _, m) \<Rightarrow> 
          returning (\<lambda>cs. foldl (\<lambda>out c. AList.update (c_name c) (stack_entry c) out) []
              (filter (\<lambda>c. c_name c \<in> set wanted \<or> is_managed c) cs))
            (list_containers dk [] True m))"

definition read_container_logs :: "daemon \<Rightarrow> bool \<Rightarrow> string \<Rightarrow> int \<Rightarrow> string operation" where
  "read_container_logs dk installed name tail m =
     (if name \<notin> set PLATFORM_CONTAINERS then (Inl (Policy (Logs_not_exposed name)), m)
      else let tail = max 1 (min tail MAX_LOG_TAIL) in
        case get_client dk installed m of
          (Inl e, m) \<Rightarrow> (Inl e, m)
        | (Inr _, m) \<Rightarrow> (case dk_get dk (mg_calls m) name of
              None \<Rightarrow> (Inl (Daemon_error name), issue (Get_container name) m)
            | Some c \<Rightarrow> let m = issue (Get_container name) m
                in (Inr (dk_logs dk (mg_calls m) c tail), issue (Logs c tail) m)))"

section \<open>What the checks let through\<close>

lemma require_None [simp]: "require ok e = None \<longleftrightarrow> ok"
  by (simp add: require_def)

lemma first_error_None: "first_error vs = None \<longleftrightarrow> list_all (\<lambda>v. v = None) vs"
  by (induction vs) (auto split: option.splits)

declare first_error.simps [simp del]

lemma check_absent_None: "check_absent keys kw = None \<longleftrightarrow> list_all (\<lambda>k. \<not> truthy (dict_get k kw)) keys"
  by (simp add: check_absent_def first_error_None list_all_iff)

lemma falsy_dict: "dict_or v = Some [] \<longleftrightarrow> \<not> truthy v"
  by (auto simp: dict_or_def split: json.splits)

lemma dict_or_Some: "dict_or v = Some d \<Longrightarrow> d \<noteq> [] \<Longrightarrow> v = JObj d"
  by (auto simp: dict_or_def split: if_splits json.splits)

lemma items_or_Nil: "items_or v = Some [] \<Longrightarrow> \<not> truthy v"
  by (auto simp: items_or_def split: if_splits json.splits)

text \<open>What a run may look like, stated without the checks.\<close>

definition carries :: "jdict \<Rightarrow> string \<Rightarrow> (json \<Rightarrow> bool) \<Rightarrow> bool" where
  "carries kw label ok \<longleftrightarrow> (case dict_get ''labels'' kw of JObj labels \<Rightarrow> ok (dict_get label labels) | _ \<Rightarrow> False)"

definition lab_confined :: "container_config \<Rightarrow> string \<Rightarrow> jdict \<Rightarrow> bool" where
  "lab_confined cfg img kw \<longleftrightarrow>
     img \<in> set (allowed_lab_images cfg)
     \<and> list_all (\<lambda>k. \<not> truthy (dict_get k kw)) FORBIDDEN_RUN_KEYS
     \<and> carries kw MANAGED_LABEL (\<lambda>v. v = JStr ''true'') \<and> carries kw LAB_ID_LABEL truthy
     \<and> (truthy (dict_get ''cap_add'' kw) \<or> truthy (dict_get ''devices'' kw) \<longrightarrow> img = cc_windows_image cfg)"

definition analysis_confined :: "container_config \<Rightarrow> string \<Rightarrow> jdict \<Rightarrow> bool" where
  "analysis_confined cfg img kw \<longleftrightarrow>
     img = cc_analysis_image cfg \<and> dict_get ''network'' kw = JStr (cc_analysis_network cfg)
     \<and> list_all (\<lambda>k. \<not> truthy (dict_get k kw)) (''cap_add'' # ANALYSIS_FORBIDDEN_KEYS)
     \<and> items_or (dict_get ''cap_drop'' kw) = Some [JStr ''ALL'']
     \<and> strip (py_str (dict_get ''user'' kw)) \<notin> {[], ''0'', ''root''} \<and> py_str (dict_get ''mem_limit'' kw) = ANALYSIS_MAX_MEM
     \<and> truthy (dict_get ''pids_limit'' kw)
     \<and> carries kw MANAGED_LABEL (\<lambda>v. v = JStr ''true'') \<and> carries kw KIND_LABEL (\<lambda>v. v = JStr ''analysis-shell'')
     \<and> carries kw SESSION_LABEL truthy \<and> carries kw OWNER_LABEL truthy"

lemma lab_labels_None:
  "check_lab_labels kw = None \<longleftrightarrow> carries kw MANAGED_LABEL (\<lambda>v. v = JStr ''true'') \<and> carries kw LAB_ID_LABEL truthy"
  by (auto simp: check_lab_labels_def carries_def first_error_None dict_or_def split: json.splits)

lemma analysis_labels_None:
  "check_analysis_labels kw = None \<longleftrightarrow>
     carries kw MANAGED_LABEL (\<lambda>v. v = JStr ''true'') \<and> carries kw KIND_LABEL (\<lambda>v. v = JStr ''analysis-shell'')
     \<and> carries kw SESSION_LABEL truthy \<and> carries kw OWNER_LABEL truthy"
  by (auto simp: check_analysis_labels_def carries_def first_error_None dict_or_def split: json.splits)

lemma check_kvm_None:
  assumes "check_kvm cfg img kw = None" "truthy (dict_get ''cap_add'' kw) \<or> truthy (dict_get ''devices'' kw)"
  shows "img = cc_windows_image cfg"
proof -
  obtain caps devices where sets: "set_or (dict_get ''cap_add'' kw) = Some caps" "set_or (dict_get ''devices'' kw) = Some devices"
    using assms(1) by (auto simp: check_kvm_def split: option.splits)
  then have "caps \<noteq> [] \<or> devices \<noteq> []"
    using assms(2) items_or_Nil by (auto simp: set_or_def split: option.splits if_splits)
  with assms(1) sets show ?thesis by (simp add: check_kvm_def first_error_None)
qed

lemma valid_lab_run: "validate_lab_run cfg net img kw = None \<Longrightarrow> lab_confined cfg img kw"
  using check_kvm_None[of cfg img kw]
  by (simp add: validate_lab_run_def Let_def first_error_None lab_confined_def check_absent_None lab_labels_None)

lemma py_or_str: "py_str (py_or v (JStr [])) = t \<Longrightarrow> t \<noteq> [] \<Longrightarrow> py_str v = t"
  by (auto simp: py_or_def py_str_def split: if_splits)

lemma user_not_root:
  "strip (py_str (py_or v (JStr []))) \<notin> {[], ''0'', ''root''} \<Longrightarrow> strip (py_str v) \<notin> {[], ''0'', ''root''}"
  by (cases "truthy v") (auto simp: py_or_def py_str_def strip_def)

lemma valid_analysis_run: "validate_analysis_run cfg img kw = None \<Longrightarrow> analysis_confined cfg img kw"
  using user_not_root[of "dict_get ''user'' kw"] py_or_str[of "dict_get ''mem_limit'' kw" ANALYSIS_MAX_MEM]
  by (auto simp: validate_analysis_run_def first_error_None analysis_confined_def check_absent_None
    analysis_labels_None check_items_def ANALYSIS_MAX_MEM_def split: option.splits)

section \<open>Every call to the daemon is confined\<close>

fun permitted :: "container_config \<Rightarrow> docker_call \<Rightarrow> bool" where
  "permitted cfg (Run img kw) \<longleftrightarrow> lab_confined cfg img kw \<or> analysis_confined cfg img kw"
| "permitted cfg (Stop c _) \<longleftrightarrow> is_managed c"
| "permitted cfg (Remove c) \<longleftrightarrow> is_managed c"
| "permitted cfg (Exec c _) \<longleftrightarrow> is_managed c"
| "permitted cfg (Get_container name) \<longleftrightarrow> name \<in> set PLATFORM_CONTAINERS"
| "permitted cfg (Logs _ tail) \<longleftrightarrow> 1 \<le> tail \<and> tail \<le> MAX_LOG_TAIL"
| "permitted cfg _ \<longleftrightarrow> True"

definition calls_ok :: "container_config \<Rightarrow> manager \<Rightarrow> bool" where
  "calls_ok cfg m \<longleftrightarrow> list_all (permitted cfg) (mg_calls m)"

lemma calls_issue [simp]: "calls_ok cfg (issue call m) \<longleftrightarrow> calls_ok cfg m \<and> permitted cfg call"
  by (auto simp: calls_ok_def issue_def)

lemma calls_client [simp]: "calls_ok cfg (m\<lparr>mg_client := b\<rparr>) \<longleftrightarrow> calls_ok cfg m"
  by (simp add: calls_ok_def)

lemma get_client_ok: "calls_ok cfg m \<Longrightarrow> calls_ok cfg (snd (get_client dk installed m))"
  by (simp add: get_client_def)

lemma client_or_ok: "calls_ok cfg m \<Longrightarrow> calls_ok cfg (snd (client_or given dk installed m))"
  by (simp add: client_or_def get_client_ok)

lemma client_or_cases:
  assumes "calls_ok cfg m"
  obtains e m' where "client_or given dk installed m = (Inl e, m')" "calls_ok cfg m'"
    | u m' where "client_or given dk installed m = (Inr u, m')" "calls_ok cfg m'"
  using client_or_ok[OF assms, of given dk installed] by (cases "client_or given dk installed m"; cases "fst (client_or given dk installed m)") auto

lemma get_client_cases:
  assumes "calls_ok cfg m"
  obtains e m' where "get_client dk installed m = (Inl e, m')" "calls_ok cfg m'"
    | u m' where "get_client dk installed m = (Inr u, m')" "calls_ok cfg m'"
  using get_client_ok[OF assms, of dk installed] by (cases "get_client dk installed m"; cases "fst (get_client dk installed m)") auto

lemma list_containers_ok [simp]: "calls_ok cfg (snd (list_containers dk flt b m)) \<longleftrightarrow> calls_ok cfg m"
  by (simp add: list_containers_def)

lemma snd_returning [simp]: "snd (returning f x) = snd x"
  by (simp add: returning_def split: prod.splits)

lemma launch_ok: "calls_ok cfg m \<Longrightarrow> permitted cfg (Run img kw) \<Longrightarrow> calls_ok cfg (snd (launch dk img kw m))"
  by (simp add: launch_def split: sum.splits)

lemma ensure_network_ok [simp]: "calls_ok cfg (ensure_network dk name internal m) \<longleftrightarrow> calls_ok cfg m"
  by (simp add: ensure_network_def Let_def)

lemma run_lab_ok:
  assumes "calls_ok cfg m" shows "calls_ok cfg (snd (run_lab_container cfg dk installed given net img kw m))"
proof (cases "validate_lab_run cfg net img kw")
  case None
  then have p: "permitted cfg (Run img kw)" using valid_lab_run by simp
  show ?thesis
    by (rule client_or_cases[OF assms, of given dk installed]) (simp_all add: run_lab_container_def None launch_ok p del: permitted.simps)
qed (simp add: run_lab_container_def assms)

lemma run_analysis_ok:
  assumes "calls_ok cfg m" shows "calls_ok cfg (snd (run_analysis_container cfg dk installed given sid owner m))"
proof (cases "validate_analysis_run cfg (cc_analysis_image cfg) (analysis_kwargs cfg sid owner)")
  case None
  then have p: "permitted cfg (Run (cc_analysis_image cfg) (analysis_kwargs cfg sid owner))" using valid_analysis_run by simp
  show ?thesis
    by (rule client_or_cases[OF assms, of given dk installed])
      (simp_all add: run_analysis_container_def Let_def None launch_ok p del: permitted.simps)
qed (simp add: run_analysis_container_def assms)

lemma finders_ok:
  assumes "calls_ok cfg m"
  shows "calls_ok cfg (snd (find_lab_container dk installed given lab_id m))"
    "calls_ok cfg (snd (list_managed dk installed given running kind m))"
    "calls_ok cfg (snd (find_session_container dk installed given sid m))"
    "calls_ok cfg (snd (ensure_lab_network cfg dk installed given name m))"
    "calls_ok cfg (snd (read_stack_status dk installed names m))"
  by (rule client_or_cases[OF assms, of given dk installed];
      simp add: find_lab_container_def list_managed_def find_session_container_def ensure_lab_network_def Let_def)+
    (rule get_client_cases[OF assms, of dk installed]; simp add: read_stack_status_def Let_def)

lemma exec_ok: "calls_ok cfg m \<Longrightarrow> calls_ok cfg (snd (exec_in_managed dk c cmd m))"
  by (simp add: exec_in_managed_def assert_managed_def require_def split: option.splits)

lemma stop_ok: "calls_ok cfg m \<Longrightarrow> calls_ok cfg (snd (stop_and_remove_managed c m))"
  by (simp add: stop_and_remove_managed_def assert_managed_def require_def)

lemma logs_ok:
  assumes "calls_ok cfg m" shows "calls_ok cfg (snd (read_container_logs dk installed name tail m))"
proof (cases "name \<in> set PLATFORM_CONTAINERS")
  case True
  show ?thesis
    by (rule get_client_cases[OF assms, of dk installed])
      (simp_all add: True read_container_logs_def Let_def MAX_LOG_TAIL_def split: option.splits)
qed (simp add: read_container_logs_def assms)

text \<open>Any use of the module.\<close>

datatype manager_op =
    Launch_lab bool "string option" string jdict
  | Launch_analysis bool string string
  | Find_lab bool string
  | Find_session bool string
  | List_labs bool bool "string option"
  | Exec_in container "string list"
  | Attach container string
  | Stop_and_remove container
  | Lab_network bool "string option"
  | Stack_status "string list"
  | Container_logs string int
  | Probe_daemon
  | Forget_client

fun manager_step :: "container_config \<Rightarrow> daemon \<Rightarrow> bool \<Rightarrow> manager \<Rightarrow> manager_op \<Rightarrow> manager" where
  "manager_step cfg dk inst m (Launch_lab given net img kw) = snd (run_lab_container cfg dk inst given net img kw m)"
| "manager_step cfg dk inst m (Launch_analysis given sid owner) = snd (run_analysis_container cfg dk inst given sid owner m)"
| "manager_step cfg dk inst m (Find_lab given i) = snd (find_lab_container dk inst given i m)"
| "manager_step cfg dk inst m (Find_session given i) = snd (find_session_container dk inst given i m)"
| "manager_step cfg dk inst m (List_labs given running kind) = snd (list_managed dk inst given running kind m)"
| "manager_step cfg dk inst m (Exec_in c cmd) = snd (exec_in_managed dk c cmd m)"
| "manager_step cfg dk inst m (Attach c sh) = snd (attach_shell dk c sh m)"
| "manager_step cfg dk inst m (Stop_and_remove c) = snd (stop_and_remove_managed c m)"
| "manager_step cfg dk inst m (Lab_network given name) = snd (ensure_lab_network cfg dk inst given name m)"
| "manager_step cfg dk inst m (Stack_status names) = snd (read_stack_status dk inst names m)"
| "manager_step cfg dk inst m (Container_logs name tail) = snd (read_container_logs dk inst name tail m)"
| "manager_step cfg dk inst m Probe_daemon = snd (available dk inst m)"
| "manager_step cfg dk inst m Forget_client = reset_client m"

interpretation docker: event_machine "manager_step cfg dk inst" "calls_ok cfg"
proof unfold_locales
  fix m oper assume ok: "calls_ok cfg m"
  show "calls_ok cfg (manager_step cfg dk inst m oper)"
  proof (cases oper)
    case Probe_daemon
    then show ?thesis using get_client_ok[OF ok, of dk inst] by (cases "get_client dk inst m") (simp add: available_def)
  qed (simp_all add: ok run_lab_ok run_analysis_ok finders_ok exec_ok attach_shell_def stop_ok logs_ok reset_client_def)
qed

text \<open>C4. Whatever the rest of the backend asks of the container manager, and however the daemon
  answers, every call that reaches the Docker socket is confined: a container is only started as
  a lab (allow-listed image, no privileged mode, mounts or host namespaces, labelled as managed)
  or as an analysis shell (own network, all capabilities dropped, not root, memory and process
  limits); only containers labelled as managed are stopped, removed or entered; and only the
  logs of the listed platform containers are read, at most 200 lines of them.\<close>

theorem docker_calls_are_confined:
  "list_all (permitted cfg) (mg_calls (foldl (manager_step cfg dk inst) \<lparr>mg_client = False, mg_calls = []\<rparr> ops))"
  using docker.run_inv[of cfg "\<lparr>mg_client = False, mg_calls = []\<rparr>" dk inst ops] by (simp add: calls_ok_def)

text \<open>C12. The specification the module builds for an analysis shell passes its own check for every
  configuration, session and owner, as long as neither name is empty.\<close>

theorem analysis_spec_is_valid:
  "validate_analysis_run cfg (cc_analysis_image cfg) (analysis_kwargs cfg session_id owner) = None
     \<longleftrightarrow> session_id \<noteq> [] \<and> owner \<noteq> []"
proof -
  have none: "list_all (\<lambda>k. dict_get k (analysis_kwargs cfg session_id owner) = JNull) (''cap_add'' # ANALYSIS_FORBIDDEN_KEYS)"
    by (simp add: analysis_kwargs_def dict_get_def ANALYSIS_FORBIDDEN_KEYS_def)
  then have keys: "dict_get k (analysis_kwargs cfg session_id owner) = JNull" if "k \<in> set (''cap_add'' # ANALYSIS_FORBIDDEN_KEYS)" for k
    using that unfolding list_all_iff by blast
  have get: "dict_get ''network'' (analysis_kwargs cfg session_id owner) = JStr (cc_analysis_network cfg)"
    "dict_get ''name'' (analysis_kwargs cfg session_id owner) = JStr (''shadowtrust-shell-'' @ take 12 session_id)"
    "dict_get ''cap_drop'' (analysis_kwargs cfg session_id owner) = JList [JStr ''ALL'']"
    "dict_get ''security_opt'' (analysis_kwargs cfg session_id owner) = JList [JStr ''no-new-privileges:true'']"
    "dict_get ''user'' (analysis_kwargs cfg session_id owner) = JStr ''analyst''"
    "dict_get ''mem_limit'' (analysis_kwargs cfg session_id owner) = JStr ANALYSIS_MAX_MEM"
    "dict_get ''nano_cpus'' (analysis_kwargs cfg session_id owner) = JInt ANALYSIS_MAX_NANO_CPUS"
    "dict_get ''pids_limit'' (analysis_kwargs cfg session_id owner) = JInt ANALYSIS_PIDS_LIMIT"
    "dict_get ''labels'' (analysis_kwargs cfg session_id owner) = JObj [(MANAGED_LABEL, JStr ''true''),
       (KIND_LABEL, JStr ''analysis-shell''), (SESSION_LABEL, JStr session_id), (OWNER_LABEL, JStr owner)]"
    by (simp_all add: analysis_kwargs_def dict_get_def)
  have "check_absent ANALYSIS_FORBIDDEN_KEYS (analysis_kwargs cfg session_id owner) = None"
    unfolding check_absent_None using keys by (simp add: list_all_iff)
  moreover have "check_name ''shadowtrust-shell-'' (analysis_kwargs cfg session_id owner) = None"
    unfolding check_name_def get by (simp only: str_or_def truthy.simps) (simp add: starts_with_def)
  moreover have "check_analysis_labels (analysis_kwargs cfg session_id owner) = None \<longleftrightarrow> session_id \<noteq> [] \<and> owner \<noteq> []"
    unfolding analysis_labels_None carries_def get by (simp add: dict_get_def label_defs)
  moreover have "strip ''analyst'' = ''analyst''" by (simp add: strip_def is_space_def)
  ultimately show ?thesis
    by (simp add: validate_analysis_run_def first_error_None get keys check_items_def items_or_def py_or_def py_str_def
      ANALYSIS_MAX_NANO_CPUS_def ANALYSIS_PIDS_LIMIT_def ANALYSIS_MAX_MEM_def)
qed

text \<open>What the lab check does not cover: a memory limit is only read when it is written as digits
  and a small \<open>g\<close>, a missing limit is no limit, and a lab that names no network is started on the
  daemon's default bridge.\<close>

lemma lab_check_gaps:
  "check_memory cfg [(''mem_limit'', JStr ''999999m'')] = None" "check_memory cfg [(''mem_limit'', JStr ''512G'')] = None"
  "check_memory cfg [] = None" "check_cpu cfg [] = None" "check_network net [] = None"
  by (simp_all add: check_memory_def check_cpu_def check_network_def py_or_def py_str_def dict_get_def
    ends_with_def starts_with_def Let_def)

end
