(* ===== verification/Labs.thy ===== *)
theory Labs
  imports Containers
begin

text \<open>
  Disposable analyst machines: the provider contract (\<open>services/providers/base.py\<close>), the local
  Docker provider (\<open>services/providers/docker_provider.py\<close>), the session manager that drives a
  provider and records the labs (\<open>services/session_manager.py\<close>) and the lab endpoints
  (\<open>api/v1/endpoints/labs.py\<close>).

  The provider contract is the locale \<open>lab_provider\<close>; the session manager is proved against it
  and the Docker provider is its instance. Time readings, the UUID of a new lab, Guacamole's
  answers and the outcome of database writes (whose exceptions the code swallows) are arguments.
\<close>

section \<open>The contract\<close>

datatype lab_status = PROVISIONING | READY | RUNNING | STOPPING | TERMINATED | ERROR | UNKNOWN

record resource_profile =
  rp_id :: string
  rp_label :: string
  rp_cpu :: int
  rp_memory_gb :: int

definition PROFILES :: "(string \<times> resource_profile) list" where
  "PROFILES =
     [(''light'', \<lparr>rp_id = ''light'', rp_label = ''Light'', rp_cpu = 2, rp_memory_gb = 2\<rparr>),
      (''standard'', \<lparr>rp_id = ''standard'', rp_label = ''Standard'', rp_cpu = 4, rp_memory_gb = 4\<rparr>),
      (''heavy'', \<lparr>rp_id = ''heavy'', rp_label = ''Heavy'', rp_cpu = 6, rp_memory_gb = 8\<rparr>)]"

definition DEFAULT_PROFILE :: resource_profile where
  "DEFAULT_PROFILE = \<lparr>rp_id = ''standard'', rp_label = ''Standard'', rp_cpu = 4, rp_memory_gb = 4\<rparr>"

definition resolve_profile :: "string \<Rightarrow> resource_profile" where
  "resolve_profile profile_id =
     (if profile_id = [] then DEFAULT_PROFILE
      else case map_of PROFILES (lower (strip profile_id)) of None \<Rightarrow> DEFAULT_PROFILE | Some p \<Rightarrow> p)"

record lab_config =
  lc_environment :: string
  lc_profile :: string
  lc_protocol :: string
  lc_owner :: "string option"
  lc_labels :: "(string \<times> string) list"

record lab_connection =
  lx_host :: string
  lx_port :: int
  lx_protocol :: string
  lx_username :: string
  lx_password :: string

record lab_info =
  li_id :: string
  li_status :: lab_status
  li_environment :: string
  li_profile :: string
  li_host :: "string option"
  li_connection :: "lab_connection option"
  li_resources :: "resource_profile option"

datatype provider_error = Unsupported_environment | Provider_unavailable | Provider_failure

section \<open>The Docker provider\<close>

record provider_env =
  pe_cfg :: container_config
  pe_installed :: bool
  pe_network :: string
  pe_windows_enabled :: bool
  pe_kali_login :: "string \<times> string"
  pe_windows_login :: "string \<times> string"
  pe_windows_version :: string
  pe_ready_timeout :: int
  pe_windows_ready_timeout :: int

definition LABEL_ENVIRONMENT :: string where
  "LABEL_ENVIRONMENT = ''shadowtrust.environment''"

definition LABEL_PROFILE :: string where
  "LABEL_PROFILE = ''shadowtrust.profile''"

definition LABEL_PROTOCOL :: string where
  "LABEL_PROTOCOL = ''shadowtrust.protocol''"

definition protocol_port :: "string \<Rightarrow> int" where
  "protocol_port protocol = (if protocol = ''rdp'' then 3389 else if protocol = ''ssh'' then 22 else 3389)"

definition state_map :: "string \<Rightarrow> lab_status" where
  "state_map s =
     (if s = ''created'' \<or> s = ''restarting'' then PROVISIONING
      else if s = ''running'' then RUNNING
      else if s = ''paused'' \<or> s = ''removing'' then STOPPING
      else if s = ''exited'' then TERMINATED
      else if s = ''dead'' then ERROR else UNKNOWN)"

definition normalise_env :: "string \<Rightarrow> string" where
  "normalise_env environment = (let env = lower environment in
     if contains_str ''kali'' env \<or> env = ''linux'' then ''kali'' else env)"

definition supported_environments :: "provider_env \<Rightarrow> string list" where
  "supported_environments pe =
     [''kali'', ''kali_base'', ''linux''] @ (if pe_windows_enabled pe then [''windows''] else [])"

definition credentials_for :: "provider_env \<Rightarrow> string \<Rightarrow> string \<times> string" where
  "credentials_for pe env =
     (if env = ''kali'' then pe_kali_login pe else if env = ''windows'' then pe_windows_login pe else ([], []))"

definition label_or :: "container \<Rightarrow> string \<Rightarrow> string \<Rightarrow> string" where
  "label_or c k d = (case labels_of c k of None \<Rightarrow> d | Some v \<Rightarrow> v)"

text \<open>A provider operation: the manager's state threaded through, and its own errors.\<close>

type_synonym 'a provider_op = "manager \<Rightarrow> (provider_error + 'a) \<times> manager"

text \<open>\<open>self._client()\<close>, then an operation of the container manager with that client; what it
  raises leaves the provider as some other exception.\<close>

definition with_client :: "provider_env \<Rightarrow> daemon \<Rightarrow> 'a operation \<Rightarrow> 'a provider_op" where
  "with_client pe dk oper m =
     (case get_client dk (pe_installed pe) m of
        (Inl _, m) \<Rightarrow> (Inl Provider_unavailable, m)
      | (Inr _, m) \<Rightarrow> (case oper m of (Inl _, m) \<Rightarrow> (Inl Provider_failure, m) | (Inr x, m) \<Rightarrow> (Inr x, m)))"

definition find_container :: "provider_env \<Rightarrow> daemon \<Rightarrow> string \<Rightarrow> container option provider_op" where
  "find_container pe dk lab_id = with_client pe dk (find_lab_container dk (pe_installed pe) True lab_id)"

definition container_host :: "provider_env \<Rightarrow> daemon \<Rightarrow> container \<Rightarrow> manager \<Rightarrow> string option \<times> manager" where
  "container_host pe dk c m =
     (let ok = dk_succeeds dk (mg_calls m) (Reload c); m = issue (Reload c) m in
      if \<not> ok then (None, m)
      else if c_name c \<noteq> [] then (Some (c_name c), m)
      else (let address = (case map_of (c_networks c) (pe_network pe) of
                  Some a \<Rightarrow> a
                | None \<Rightarrow> (case c_networks c of (_, a) # _ \<Rightarrow> a | [] \<Rightarrow> None))
            in (if address = Some [] then None else address, m)))"

definition connection_for :: "provider_env \<Rightarrow> daemon \<Rightarrow> container \<Rightarrow> string \<Rightarrow> string \<Rightarrow> manager
    \<Rightarrow> lab_connection option \<times> manager" where
  "connection_for pe dk c environment protocol m =
     (case container_host pe dk c m of
        (None, m) \<Rightarrow> (None, m)
      | (Some host, m) \<Rightarrow>
          let (username, password) = credentials_for pe (normalise_env environment)
          in (Some \<lparr>lx_host = host, lx_port = protocol_port protocol, lx_protocol = protocol,
                    lx_username = username, lx_password = password\<rparr>, m))"

definition info_from_container :: "provider_env \<Rightarrow> daemon \<Rightarrow> container \<Rightarrow> manager \<Rightarrow> lab_info \<times> manager" where
  "info_from_container pe dk c m =
     (let environment = label_or c LABEL_ENVIRONMENT ''kali'';
          profile = label_or c LABEL_PROFILE ''standard'';
          protocol = label_or c LABEL_PROTOCOL ''rdp'';
          status = state_map (c_status c);
          (connection, m) = (if status \<in> {RUNNING, READY} then connection_for pe dk c environment protocol m else (None, m))
      in (\<lparr>li_id = label_or c LAB_ID_LABEL (take 12 (c_id c)), li_status = status, li_environment = environment,
           li_profile = profile, li_host = map_option lx_host connection, li_connection = connection,
           li_resources = Some (resolve_profile profile)\<rparr>, m))"

text \<open>The keyword arguments of a launch.\<close>

definition lab_labels :: "string \<Rightarrow> string \<Rightarrow> lab_config \<Rightarrow> jdict" where
  "lab_labels lab_id env config =
     foldl (\<lambda>d (k, v). AList.update k (JStr v) d)
       [(MANAGED_LABEL, JStr ''true''), (LAB_ID_LABEL, JStr lab_id), (LABEL_ENVIRONMENT, JStr env),
        (LABEL_PROFILE, JStr (rp_id (resolve_profile (lc_profile config)))),
        (LABEL_PROTOCOL, JStr (lc_protocol config)),
        (OWNER_LABEL, JStr (case lc_owner config of None \<Rightarrow> [] | Some owner \<Rightarrow> owner))]
       (lc_labels config)"

definition launch_kwargs :: "provider_env \<Rightarrow> string \<Rightarrow> string \<Rightarrow> lab_config \<Rightarrow> jdict" where
  "launch_kwargs pe lab_id env config =
     (let res = resolve_profile (lc_profile config);
          windows = (env = ''windows'');
          (username, password) = credentials_for pe env
      in [(''detach'', JBool True),
          (''name'', JStr (''shadowtrust-lab-'' @ take 8 lab_id)),
          (''hostname'', JStr (''lab-'' @ take 8 lab_id)),
          (''network'', JStr (pe_network pe)),
          (''nano_cpus'', JInt (rp_cpu res * 1000000000)),
          (''mem_limit'', JStr (str_of_int (if windows then max (rp_memory_gb res) 6 else rp_memory_gb res) @ ''g'')),
          (''shm_size'', JStr ''512m''),
          (''labels'', JObj (lab_labels lab_id env config)),
          (''auto_remove'', JBool False),
          (''restart_policy'', JObj [(''Name'', JStr ''no'')])]
         @ (if env = ''kali'' then
              [(''environment'', JObj [(''LAB_USER'', JStr username), (''LAB_PASSWORD'', JStr password)])]
            else if windows then
              [(''environment'', JObj [(''VERSION'', JStr (pe_windows_version pe)), (''USERNAME'', JStr username),
                 (''PASSWORD'', JStr password), (''RAM_SIZE'', JStr (str_of_int (max (rp_memory_gb res) 4) @ ''G'')),
                 (''CPU_CORES'', JStr (str_of_int (rp_cpu res)))]),
               (''devices'', JList [JStr ''/dev/kvm'']),
               (''cap_add'', JList [JStr ''NET_ADMIN''])]
            else []))"

definition image_for :: "provider_env \<Rightarrow> string \<Rightarrow> string" where
  "image_for pe env = (if env = ''kali'' then cc_kali_image (pe_cfg pe)
     else if env = ''windows'' then cc_windows_image (pe_cfg pe) else [])"

text \<open>The reading of the daemon's error text.\<close>

definition launch_error :: "string \<Rightarrow> provider_error" where
  "launch_error e = (let msg = lower e in
     if contains_str ''no such image'' msg \<or> contains_str ''not found'' msg then Provider_unavailable
     else if contains_str ''/dev/kvm'' msg \<or> contains_str ''kvm'' msg \<or> contains_str ''no such file or directory'' msg
     then Unsupported_environment else Provider_unavailable)"

definition launch_lab :: "provider_env \<Rightarrow> daemon \<Rightarrow> string \<Rightarrow> lab_config \<Rightarrow> lab_info provider_op" where
  "launch_lab pe dk lab_id config m =
     (let env = normalise_env (lc_environment config) in
      if env = ''windows'' \<and> \<not> pe_windows_enabled pe then (Inl Unsupported_environment, m)
      else if env \<notin> set (supported_environments pe) then (Inl Unsupported_environment, m)
      else if image_for pe env = [] then (Inl Unsupported_environment, m)
      else case get_client dk (pe_installed pe) m of
        (Inl _, m) \<Rightarrow> (Inl Provider_unavailable, m)
      | (Inr _, m) \<Rightarrow>
          (case ensure_lab_network (pe_cfg pe) dk (pe_installed pe) True (Some (pe_network pe)) m of (_, m) \<Rightarrow>
           case run_lab_container (pe_cfg pe) dk (pe_installed pe) True (Some (pe_network pe)) (image_for pe env)
                  (launch_kwargs pe lab_id env config) m of
             (Inl (Daemon_error e), m) \<Rightarrow> (Inl (launch_error e), m)
           | (Inl _, m) \<Rightarrow> (Inl Provider_unavailable, m)
           | (Inr c, m) \<Rightarrow>
               (Inr \<lparr>li_id = lab_id, li_status = PROVISIONING, li_environment = env,
                     li_profile = rp_id (resolve_profile (lc_profile config)), li_host = None, li_connection = None,
                     li_resources = Some (resolve_profile (lc_profile config))\<rparr>, m)))"

definition terminate_lab :: "provider_env \<Rightarrow> daemon \<Rightarrow> string \<Rightarrow> bool provider_op" where
  "terminate_lab pe dk lab_id m =
     (case find_container pe dk lab_id m of
        (Inl Provider_unavailable, m) \<Rightarrow> (Inl Provider_unavailable, m)
      | (Inl _, m) \<Rightarrow> (Inr False, m)
      | (Inr None, m) \<Rightarrow> (Inr True, m)
      | (Inr (Some c), m) \<Rightarrow>
          (case assert_managed c of
             Some _ \<Rightarrow> (Inl Provider_failure, m)
           | None \<Rightarrow>
               let m = issue (Stop c 10) m; ok = dk_succeeds dk (mg_calls m) (Remove c)
               in (Inr ok, issue (Remove c) m)))"

definition get_lab_status :: "provider_env \<Rightarrow> daemon \<Rightarrow> string \<Rightarrow> lab_info provider_op" where
  "get_lab_status pe dk lab_id m =
     (case find_container pe dk lab_id m of
        (Inl e, m) \<Rightarrow> (Inl e, m)
      | (Inr None, m) \<Rightarrow> (Inr \<lparr>li_id = lab_id, li_status = TERMINATED, li_environment = ''unknown'',
            li_profile = ''standard'', li_host = None, li_connection = None, li_resources = None\<rparr>, m)
      | (Inr (Some c), m) \<Rightarrow> (case info_from_container pe dk c m of (i, m) \<Rightarrow> (Inr i, m)))"

definition get_connection :: "provider_env \<Rightarrow> daemon \<Rightarrow> string \<Rightarrow> string \<Rightarrow> lab_connection option provider_op" where
  "get_connection pe dk lab_id protocol m =
     (case find_container pe dk lab_id m of
        (Inl e, m) \<Rightarrow> (Inl e, m)
      | (Inr None, m) \<Rightarrow> (Inr None, m)
      | (Inr (Some c), m) \<Rightarrow>
          (case connection_for pe dk c (label_or c LABEL_ENVIRONMENT ''kali'') protocol m of (x, m) \<Rightarrow> (Inr x, m)))"

definition port_open :: "provider_env \<Rightarrow> daemon \<Rightarrow> string \<Rightarrow> int \<Rightarrow> bool provider_op" where
  "port_open pe dk lab_id port m =
     (case find_container pe dk lab_id m of
        (Inl e, m) \<Rightarrow> (Inl e, m)
      | (Inr None, m) \<Rightarrow> (Inr False, m)
      | (Inr (Some c), m) \<Rightarrow>
          let cmd = [''sh'', ''-c'', ''command -v nc >/dev/null 2>&1 && nc -z 127.0.0.1 '' @ str_of_int port]
          in (Inr (case dk_exec dk (mg_calls m) c cmd of Some (code, _) \<Rightarrow> code = 0 | None \<Rightarrow> False),
              issue (Exec c cmd) m))"

record cluster_metrics =
  cm_vcpu :: int
  cm_ram :: int
  cm_active :: nat
  cm_labs :: "lab_info list"

fun metrics_of :: "provider_env \<Rightarrow> daemon \<Rightarrow> container list \<Rightarrow> manager \<Rightarrow> lab_info list \<times> manager" where
  "metrics_of pe dk [] m = ([], m)"
| "metrics_of pe dk (c # cs) m =
     (case info_from_container pe dk c m of (i, m) \<Rightarrow>
      case metrics_of pe dk cs m of (rest, m) \<Rightarrow> (i # rest, m))"

definition cpu_of :: "lab_info \<Rightarrow> int" where
  "cpu_of i = (case li_resources i of None \<Rightarrow> 0 | Some r \<Rightarrow> rp_cpu r)"

definition ram_of :: "lab_info \<Rightarrow> int" where
  "ram_of i = (case li_resources i of None \<Rightarrow> 0 | Some r \<Rightarrow> rp_memory_gb r)"

definition get_metrics :: "provider_env \<Rightarrow> daemon \<Rightarrow> manager \<Rightarrow> cluster_metrics \<times> manager" where
  "get_metrics pe dk m =
     (case with_client pe dk (list_managed dk (pe_installed pe) True True None) m of
        (Inl _, m) \<Rightarrow> (\<lparr>cm_vcpu = 0, cm_ram = 0, cm_active = 0, cm_labs = []\<rparr>, m)
      | (Inr cs, m) \<Rightarrow> (case metrics_of pe dk cs m of (labs, m) \<Rightarrow>
          (\<lparr>cm_vcpu = sum_list (map cpu_of labs), cm_ram = sum_list (map ram_of labs),
            cm_active = length cs, cm_labs = labs\<rparr>, m)))"

section \<open>Waiting for a lab\<close>

text \<open>The polling loop. \<open>clock i\<close> is the \<open>i\<close>-th reading of \<open>time.time()\<close> inside it; the loop ends
  only because of the clock, so it is a partial function: a value \<open>None\<close> would be a loop that
  never returns.\<close>

definition poll_once :: "provider_env \<Rightarrow> daemon \<Rightarrow> string \<Rightarrow> manager \<Rightarrow> (provider_error + lab_info \<times> bool) \<times> manager" where
  "poll_once pe dk lab_id m =
     (case get_lab_status pe dk lab_id m of
        (Inl e, m) \<Rightarrow> (Inl e, m)
      | (Inr info, m) \<Rightarrow>
          if li_status info \<in> {TERMINATED, ERROR} then (Inr (info, True), m)
          else (case (li_status info, li_connection info) of
              (RUNNING, Some x) \<Rightarrow>
                (case port_open pe dk lab_id (lx_port x) m of
                   (Inl e, m) \<Rightarrow> (Inl e, m)
                 | (Inr True, m) \<Rightarrow> (Inr (info\<lparr>li_status := READY\<rparr>, True), m)
                 | (Inr False, m) \<Rightarrow> (Inr (info, False), m))
            | _ \<Rightarrow> (Inr (info, False), m)))"

definition timed_out :: "provider_env \<Rightarrow> daemon \<Rightarrow> string \<Rightarrow> lab_info option \<Rightarrow> lab_info provider_op" where
  "timed_out pe dk lab_id recent m =
     (case recent of
        Some info \<Rightarrow> (Inr (info\<lparr>li_status := ERROR\<rparr>), m)
      | None \<Rightarrow> (case get_lab_status pe dk lab_id m of
            (Inl e, m) \<Rightarrow> (Inl e, m)
          | (Inr info, m) \<Rightarrow> (Inr (info\<lparr>li_status := ERROR\<rparr>), m)))"

partial_function (option) poll_until :: "provider_env \<Rightarrow> daemon \<Rightarrow> (nat \<Rightarrow> rat) \<Rightarrow> rat \<Rightarrow> string \<Rightarrow> nat
    \<Rightarrow> lab_info option \<Rightarrow> manager \<Rightarrow> ((provider_error + lab_info) \<times> manager) option" where
  "poll_until pe dk clock deadline lab_id i recent m =
     (if clock i < deadline then
        (case poll_once pe dk lab_id m of
           (Inl e, m) \<Rightarrow> Some (Inl e, m)
         | (Inr (info, over), m) \<Rightarrow>
             if over then Some (Inr info, m)
             else poll_until pe dk clock deadline lab_id (Suc i) (Some info) m)
      else Some (timed_out pe dk lab_id recent m))"

declare poll_until.simps [code]

definition poll_interval :: "string \<Rightarrow> rat" where
  "poll_interval env = (if env = ''windows'' then 5 else 3)"

definition ready_timeout :: "provider_env \<Rightarrow> string \<Rightarrow> int" where
  "ready_timeout pe env = (if env = ''windows'' then pe_windows_ready_timeout pe else pe_ready_timeout pe)"

definition wait_env :: "container option \<Rightarrow> string" where
  "wait_env c = (case c of None \<Rightarrow> ''kali'' | Some c \<Rightarrow> label_or c LABEL_ENVIRONMENT ''kali'')"

text \<open>\<open>start\<close> is the reading taken before the loop, the readings inside it may depend on the
  interval the loop sleeps.\<close>

definition wait_until_ready :: "provider_env \<Rightarrow> daemon \<Rightarrow> rat \<Rightarrow> (rat \<Rightarrow> nat \<Rightarrow> rat) \<Rightarrow> string \<Rightarrow> manager
    \<Rightarrow> ((provider_error + lab_info) \<times> manager) option" where
  "wait_until_ready pe dk start clock lab_id m =
     (case find_container pe dk lab_id m of
        (Inl e, m) \<Rightarrow> Some (Inl e, m)
      | (Inr c, m) \<Rightarrow>
          let env = wait_env c
          in poll_until pe dk (clock (poll_interval env)) (start + of_int (ready_timeout pe env)) lab_id 0 None m)"

text \<open>Each round sleeps for the interval, and \<open>time.sleep\<close> does not return early.\<close>

definition ticks :: "(rat \<Rightarrow> nat \<Rightarrow> rat) \<Rightarrow> bool" where
  "ticks clock \<longleftrightarrow> (\<forall>d i. clock d i + d \<le> clock d (Suc i))"

lemma poll_once_status:
  "poll_once pe dk lab_id m = (Inr (info, True), m') \<Longrightarrow> li_status info \<in> {READY, TERMINATED, ERROR}"
  by (auto simp: poll_once_def split: prod.splits sum.splits if_splits lab_status.splits option.splits bool.splits)

definition finished :: "provider_error + lab_info \<Rightarrow> bool" where
  "finished r \<longleftrightarrow> (case r of Inl _ \<Rightarrow> True | Inr info \<Rightarrow> li_status info \<in> {READY, TERMINATED, ERROR})"

lemma timed_out_finished: "finished (fst (timed_out pe dk lab_id recent m))"
  by (auto simp: timed_out_def finished_def split: option.splits prod.splits sum.splits)

section \<open>What the provider asks of Docker\<close>

lemma with_client_ok:
  assumes "calls_ok cfg m" "\<And>m. calls_ok cfg m \<Longrightarrow> calls_ok cfg (snd (oper m))"
  shows "calls_ok cfg (snd (with_client pe dk oper m))"
proof (rule get_client_cases[OF assms(1), of dk "pe_installed pe"])
  show "calls_ok cfg (snd (with_client pe dk oper m))"
    if "get_client dk (pe_installed pe) m = (Inl e, m')" "calls_ok cfg m'" for e m'
    using that by (simp add: with_client_def)
  show "calls_ok cfg (snd (with_client pe dk oper m))"
    if "get_client dk (pe_installed pe) m = (Inr u, m')" "calls_ok cfg m'" for u m'
    using that assms(2)[of m'] by (cases "oper m'") (auto simp: with_client_def split: sum.splits)
qed

lemma with_client_value:
  assumes "with_client pe dk oper m = (Inr x, m')"
  shows "\<exists>m1. oper m1 = (Inr x, m')"
  using assms by (auto simp: with_client_def split: prod.splits sum.splits)

lemma find_container_ok: "calls_ok cfg m \<Longrightarrow> calls_ok cfg (snd (find_container pe dk lab_id m))"
  unfolding find_container_def by (rule with_client_ok) (simp_all add: finders_ok)

lemma find_lab_managed:
  "find_lab_container dk inst given lab_id m = (Inr (Some c), m') \<Longrightarrow> is_managed c"
  by (auto simp: find_lab_container_def returning_def list_containers_def find_Some_iff split: prod.splits sum.splits option.splits)

lemma find_container_managed: "find_container pe dk lab_id m = (Inr (Some c), m') \<Longrightarrow> is_managed c"
  unfolding find_container_def by (drule with_client_value) (auto dest: find_lab_managed)

lemma find_container_cases:
  assumes "calls_ok cfg m"
  obtains e m' where "find_container pe dk lab_id m = (Inl e, m')" "calls_ok cfg m'"
    | m' where "find_container pe dk lab_id m = (Inr None, m')" "calls_ok cfg m'"
    | c m' where "find_container pe dk lab_id m = (Inr (Some c), m')" "calls_ok cfg m'" "is_managed c"
proof -
  obtain r m' where f: "find_container pe dk lab_id m = (r, m')" by fastforce
  have "calls_ok cfg m'" using find_container_ok[OF assms, of pe dk lab_id] f by simp
  moreover have "\<exists>e. r = Inl e \<or> r = Inr None \<or> (\<exists>c. r = Inr (Some c))" by (cases r) auto
  ultimately show ?thesis
    using that(1)[of _ m'] that(2)[of m'] that(3)[of _ m'] f find_container_managed[of pe dk lab_id m] by blast
qed

lemma connection_ok [simp]: "calls_ok cfg (snd (connection_for pe dk c e p m)) \<longleftrightarrow> calls_ok cfg m"
  by (auto simp: connection_for_def container_host_def Let_def split: prod.splits option.splits if_splits)

lemma info_ok [simp]: "calls_ok cfg (snd (info_from_container pe dk c m)) \<longleftrightarrow> calls_ok cfg m"
proof -
  obtain x m' where x: "connection_for pe dk c (label_or c LABEL_ENVIRONMENT ''kali'') (label_or c LABEL_PROTOCOL ''rdp'') m = (x, m')"
    by fastforce
  then have "calls_ok cfg m' \<longleftrightarrow> calls_ok cfg m"
    using connection_ok[of cfg pe dk c "label_or c LABEL_ENVIRONMENT ''kali''" "label_or c LABEL_PROTOCOL ''rdp''" m] by simp
  then show ?thesis by (simp add: info_from_container_def Let_def x)
qed

lemma metrics_of_ok: "calls_ok cfg m \<Longrightarrow> calls_ok cfg (snd (metrics_of pe dk cs m))"
proof (induction cs arbitrary: m)
  case (Cons c cs)
  obtain i m1 where i: "info_from_container pe dk c m = (i, m1)" by fastforce
  then have "calls_ok cfg m1" using info_ok[of cfg pe dk c m] Cons.prems by simp
  from Cons.IH[OF this] i show ?case by (cases "metrics_of pe dk cs m1") simp
qed simp

lemma get_metrics_ok:
  assumes "calls_ok cfg m" shows "calls_ok cfg (snd (get_metrics pe dk m))"
proof -
  obtain r m1 where w: "with_client pe dk (list_managed dk (pe_installed pe) True True None) m = (r, m1)" by fastforce
  then have "calls_ok cfg m1"
    using with_client_ok[OF assms, of "list_managed dk (pe_installed pe) True True None" pe dk] finders_ok(2) by simp
  then show ?thesis
    using metrics_of_ok[of cfg m1 pe dk] w by (cases r) (simp_all add: get_metrics_def split: prod.splits, metis snd_conv)
qed

lemma status_ok:
  assumes "calls_ok cfg m" shows "calls_ok cfg (snd (get_lab_status pe dk lab_id m))"
proof (rule find_container_cases[OF assms, of pe dk lab_id])
  fix c m' assume f: "find_container pe dk lab_id m = (Inr (Some c), m')" "calls_ok cfg m'"
  then show ?thesis using info_ok[of cfg pe dk c m'] by (cases "info_from_container pe dk c m'") (simp add: get_lab_status_def)
qed (simp_all add: get_lab_status_def)

lemma get_connection_ok:
  assumes "calls_ok cfg m" shows "calls_ok cfg (snd (get_connection pe dk lab_id protocol m))"
proof (rule find_container_cases[OF assms, of pe dk lab_id])
  fix c m' assume f: "find_container pe dk lab_id m = (Inr (Some c), m')" "calls_ok cfg m'"
  then show ?thesis using connection_ok[of cfg pe dk c "label_or c LABEL_ENVIRONMENT ''kali''" protocol m']
    by (cases "connection_for pe dk c (label_or c LABEL_ENVIRONMENT ''kali'') protocol m'") (simp add: get_connection_def)
qed (simp_all add: get_connection_def)

lemma port_open_ok:
  assumes "calls_ok cfg m" shows "calls_ok cfg (snd (port_open pe dk lab_id port m))"
  by (rule find_container_cases[OF assms, of pe dk lab_id]) (simp_all add: port_open_def Let_def)

lemma terminate_ok:
  assumes "calls_ok cfg m" shows "calls_ok cfg (snd (terminate_lab pe dk lab_id m))"
proof (rule find_container_cases[OF assms, of pe dk lab_id])
  fix e m' assume "find_container pe dk lab_id m = (Inl e, m')" "calls_ok cfg m'"
  then show ?thesis by (cases e) (simp_all add: terminate_lab_def)
qed (simp_all add: terminate_lab_def assert_managed_def require_def Let_def)

lemma launch_lab_ok:
  assumes "calls_ok (pe_cfg pe) m" shows "calls_ok (pe_cfg pe) (snd (launch_lab pe dk lab_id config m))"
proof (rule get_client_cases[OF assms, of dk "pe_installed pe"])
  fix u m1 assume c: "get_client dk (pe_installed pe) m = (Inr u, m1)" "calls_ok (pe_cfg pe) m1"
  define env where "env = normalise_env (lc_environment config)"
  obtain v m2 where e: "ensure_lab_network (pe_cfg pe) dk (pe_installed pe) True (Some (pe_network pe)) m1 = (v, m2)" by fastforce
  then have "calls_ok (pe_cfg pe) m2" using finders_ok(4)[OF c(2), of dk "pe_installed pe" True "Some (pe_network pe)"] by simp
  moreover obtain r m3 where l: "run_lab_container (pe_cfg pe) dk (pe_installed pe) True (Some (pe_network pe)) (image_for pe env)
      (launch_kwargs pe lab_id env config) m2 = (r, m3)" by fastforce
  ultimately have "calls_ok (pe_cfg pe) m3"
    using run_lab_ok[of "pe_cfg pe" m2 dk "pe_installed pe" True "Some (pe_network pe)" "image_for pe env" "launch_kwargs pe lab_id env config"]
    by simp
  then show ?thesis using assms
    by (simp add: launch_lab_def Let_def c e l env_def[symmetric] split: sum.splits manager_error.splits)
qed (use assms in \<open>simp_all add: launch_lab_def Let_def\<close>)

lemma poll_once_ok:
  assumes "calls_ok cfg m" shows "calls_ok cfg (snd (poll_once pe dk lab_id m))"
proof -
  obtain r m1 where s: "get_lab_status pe dk lab_id m = (r, m1)" by fastforce
  then have ok: "calls_ok cfg m1" using status_ok[OF assms, of pe dk lab_id] by simp
  show ?thesis
  proof (cases r)
    case (Inr info)
    show ?thesis
    proof (cases "li_status info = RUNNING \<and> li_connection info \<noteq> None")
      case True
      then obtain x where x: "li_connection info = Some x" by auto
      obtain p m2 where p: "port_open pe dk lab_id (lx_port x) m1 = (p, m2)" by fastforce
      then have "calls_ok cfg m2" using port_open_ok[OF ok, of pe dk lab_id "lx_port x"] by simp
      then show ?thesis using True x p
        by (cases p) (auto simp: poll_once_def s Inr split: bool.splits)
    next
      case False
      then show ?thesis using ok by (auto simp: poll_once_def s Inr split: lab_status.splits option.splits)
    qed
  qed (simp add: poll_once_def s ok)
qed

lemma timed_out_ok:
  assumes "calls_ok cfg m" shows "calls_ok cfg (snd (timed_out pe dk lab_id recent m))"
  using status_ok[OF assms, of pe dk lab_id]
  by (cases "get_lab_status pe dk lab_id m") (auto simp: timed_out_def assms split: option.splits sum.splits)

lemma poll_until_returns:
  assumes "0 < step" "\<And>i. clock i + step \<le> clock (Suc i)" "deadline \<le> clock i + of_nat n * step"
  shows "\<exists>r m'. poll_until pe dk clock deadline lab_id i recent m = Some (r, m') \<and> finished r
    \<and> (calls_ok cfg m \<longrightarrow> calls_ok cfg m')"
  using assms(3)
proof (induction n arbitrary: i recent m)
  case 0
  then have "poll_until pe dk clock deadline lab_id i recent m = Some (timed_out pe dk lab_id recent m)"
    by (subst poll_until.simps) simp
  then show ?case using timed_out_finished[of pe dk lab_id recent m] timed_out_ok[of cfg m pe dk lab_id recent]
    by (cases "timed_out pe dk lab_id recent m") simp
next
  case (Suc n)
  show ?case
  proof (cases "clock i < deadline")
    case False
    then have "poll_until pe dk clock deadline lab_id i recent m = Some (timed_out pe dk lab_id recent m)"
      by (subst poll_until.simps) simp
    then show ?thesis using timed_out_finished[of pe dk lab_id recent m] timed_out_ok[of cfg m pe dk lab_id recent]
      by (cases "timed_out pe dk lab_id recent m") simp
  next
    case True
    have "deadline \<le> clock (Suc i) + of_nat n * step" using Suc.prems assms(2)[of i] by (simp add: algebra_simps)
    note IH = Suc.IH[OF this]
    obtain r m' where p: "poll_once pe dk lab_id m = (r, m')" by fastforce
    then have ok: "calls_ok cfg m \<longrightarrow> calls_ok cfg m'" using poll_once_ok[of cfg m pe dk lab_id] by simp
    show ?thesis
    proof (cases r)
      case (Inl e)
      then show ?thesis using True p by (subst poll_until.simps) (simp add: finished_def ok)
    next
      case (Inr x)
      obtain info b where x: "x = (info, b)" by fastforce
      show ?thesis
      proof (cases b)
        case True
        then have "finished (Inr info)" using poll_once_status p Inr x by (fastforce simp: finished_def)
        then show ?thesis using \<open>clock i < deadline\<close> p Inr x True ok by (subst poll_until.simps) simp
      next
        case False
        then have "poll_until pe dk clock deadline lab_id i recent m =
            poll_until pe dk clock deadline lab_id (Suc i) (Some info) m'"
          using True p Inr x by (subst poll_until.simps) simp
        then show ?thesis using IH[of "Some info" m'] ok by auto
      qed
    qed
  qed
qed

lemma wait_returns:
  assumes "ticks clock"
  shows "\<exists>r m'. wait_until_ready pe dk start clock lab_id m = Some (r, m') \<and> finished r
    \<and> (calls_ok cfg m \<longrightarrow> calls_ok cfg m')"
proof -
  obtain r m1 where f: "find_container pe dk lab_id m = (r, m1)" by fastforce
  then have ok: "calls_ok cfg m \<longrightarrow> calls_ok cfg m1" using find_container_ok[of cfg m pe dk lab_id] by simp
  show ?thesis
  proof (cases r)
    case (Inr c)
    define env where "env = wait_env c"
    define deadline where "deadline = start + of_int (ready_timeout pe env)"
    have pos: "0 < poll_interval env" by (simp add: poll_interval_def)
    obtain n where "(deadline - clock (poll_interval env) 0) / poll_interval env \<le> of_nat n"
      using real_arch_simple by blast
    then have "deadline \<le> clock (poll_interval env) 0 + of_nat n * poll_interval env"
      using pos by (simp add: field_simps)
    then have "\<exists>r m'. poll_until pe dk (clock (poll_interval env)) deadline lab_id 0 None m1 = Some (r, m') \<and> finished r
      \<and> (calls_ok cfg m1 \<longrightarrow> calls_ok cfg m')"
      using poll_until_returns[of "poll_interval env" "clock (poll_interval env)" deadline 0 n pe dk lab_id None m1] pos assms
      by (simp add: ticks_def)
    then show ?thesis using ok by (auto simp: wait_until_ready_def f Inr Let_def env_def deadline_def)
  qed (simp add: wait_until_ready_def f finished_def ok)
qed

text \<open>C21. Waiting for a lab always ends, whatever the daemon answers: the clock moves on by at least
  the polling interval in every round, so the loop returns, and what it returns is ready,
  terminated or in error, never still starting; nor does it make a call that is not confined.\<close>

theorem waiting_for_a_lab_ends:
  assumes "ticks clock"
  shows "\<exists>r m'. wait_until_ready pe dk start clock lab_id m = Some (r, m') \<and> finished r
    \<and> (calls_ok cfg m \<longrightarrow> calls_ok cfg m')"
  using wait_returns[OF assms] .

section \<open>A launch is never blocked by the policy\<close>

lemma resolve_profile_cases:
  "resolve_profile p \<in> {\<lparr>rp_id = ''light'', rp_label = ''Light'', rp_cpu = 2, rp_memory_gb = 2\<rparr>,
     \<lparr>rp_id = ''standard'', rp_label = ''Standard'', rp_cpu = 4, rp_memory_gb = 4\<rparr>,
     \<lparr>rp_id = ''heavy'', rp_label = ''Heavy'', rp_cpu = 6, rp_memory_gb = 8\<rparr>}"
  by (auto simp: resolve_profile_def DEFAULT_PROFILE_def PROFILES_def)

lemma dict_get_updates:
  "k \<notin> fst ` set kvs \<Longrightarrow> dict_get k (foldl (\<lambda>d (k, v). AList.update k (JStr v) d) d kvs) = dict_get k d"
proof (induction kvs arbitrary: d)
  case (Cons kv kvs)
  then show ?case by (cases kv) (simp add: dict_get_def update_conv)
qed simp

lemma lab_label_values:
  assumes "MANAGED_LABEL \<notin> fst ` set (lc_labels config)" "LAB_ID_LABEL \<notin> fst ` set (lc_labels config)"
  shows "dict_get MANAGED_LABEL (lab_labels lab_id env config) = JStr ''true''"
    "dict_get LAB_ID_LABEL (lab_labels lab_id env config) = JStr lab_id"
  unfolding lab_labels_def dict_get_updates[OF assms(1)] dict_get_updates[OF assms(2)]
  by (simp_all add: dict_get_def MANAGED_LABEL_def LAB_ID_LABEL_def)

definition LAUNCH_KEYS :: "string list" where
  "LAUNCH_KEYS = [''detach'', ''name'', ''hostname'', ''network'', ''nano_cpus'', ''mem_limit'', ''shm_size'',
     ''labels'', ''auto_remove'', ''restart_policy'', ''environment'', ''devices'', ''cap_add'']"

lemma launch_keys: "fst ` set (launch_kwargs pe lab_id env config) \<subseteq> set LAUNCH_KEYS"
proof -
  have "map fst (launch_kwargs pe lab_id env config)
      = take (if env = ''kali'' then 11 else if env = ''windows'' then 13 else 10) LAUNCH_KEYS"
    by (simp add: launch_kwargs_def LAUNCH_KEYS_def Let_def split_beta)
  then have "set (map fst (launch_kwargs pe lab_id env config)) \<subseteq> set LAUNCH_KEYS"
    by (simp only: set_take_subset)
  then show ?thesis by simp
qed

lemma launch_absent: "check_absent FORBIDDEN_RUN_KEYS (launch_kwargs pe lab_id env config) = None"
proof -
  have "list_all (\<lambda>k. k \<notin> set LAUNCH_KEYS) FORBIDDEN_RUN_KEYS"
    by (simp add: FORBIDDEN_RUN_KEYS_def LAUNCH_KEYS_def)
  then have "dict_get k (launch_kwargs pe lab_id env config) = JNull" if "k \<in> set FORBIDDEN_RUN_KEYS" for k
    using that launch_keys[of pe lab_id env config]
    by (auto simp: dict_get_def list_all_iff map_of_eq_None_iff split: option.split dest!: map_of_SomeD)
  then show ?thesis by (simp add: check_absent_None list_all_iff)
qed

lemma launch_values:
  "dict_get ''name'' (launch_kwargs pe lab_id env config) = JStr (''shadowtrust-lab-'' @ take 8 lab_id)"
  "dict_get ''network'' (launch_kwargs pe lab_id env config) = JStr (pe_network pe)"
  "dict_get ''nano_cpus'' (launch_kwargs pe lab_id env config) = JInt (rp_cpu (resolve_profile (lc_profile config)) * 1000000000)"
  "dict_get ''mem_limit'' (launch_kwargs pe lab_id env config) =
     JStr (str_of_int (if env = ''windows'' then max (rp_memory_gb (resolve_profile (lc_profile config))) 6
        else rp_memory_gb (resolve_profile (lc_profile config))) @ ''g'')"
  "dict_get ''labels'' (launch_kwargs pe lab_id env config) = JObj (lab_labels lab_id env config)"
  by (simp_all add: launch_kwargs_def dict_get_def Let_def split_beta)

lemma launch_kvm_values:
  "dict_get ''cap_add'' (launch_kwargs pe lab_id env config) = (if env = ''windows'' then JList [JStr ''NET_ADMIN''] else JNull)"
  "dict_get ''devices'' (launch_kwargs pe lab_id env config) = (if env = ''windows'' then JList [JStr ''/dev/kvm''] else JNull)"
  by (simp_all add: launch_kwargs_def dict_get_def Let_def split_beta)

lemma launch_network: "check_network (if pe_network pe = [] then n else pe_network pe) (launch_kwargs pe lab_id env config) = None"
proof -
  have "dict_get ''network_mode'' (launch_kwargs pe lab_id env config) = JNull"
    using launch_absent[of pe lab_id env config] launch_keys[of pe lab_id env config]
    by (auto simp: dict_get_def LAUNCH_KEYS_def split: option.split dest!: map_of_SomeD)
  then show ?thesis by (simp add: check_network_def launch_values py_or_def)
qed

lemma launch_memory:
  assumes "8 \<le> cc_max_mem_gb cfg"
  shows "check_memory cfg (launch_kwargs pe lab_id env config) = None"
proof -
  have "str_of_int 2 = ''2''" "str_of_int 4 = ''4''" "str_of_int 6 = ''6''" "str_of_int 8 = ''8''"
    by code_simp+
  moreover have "int_of_str ''2'' = Some 2" "int_of_str ''4'' = Some 4" "int_of_str ''6'' = Some 6" "int_of_str ''8'' = Some 8"
    by code_simp+
  ultimately show ?thesis using assms resolve_profile_cases[of "lc_profile config"]
    by (auto simp: check_memory_def launch_values py_or_def py_str_def Let_def)
qed

text \<open>C13. Whatever profile, protocol and owner a request names, the container the provider builds for
  a Kali or Windows lab passes the container manager's policy: a launch is refused only where
  the configured ceilings lie below the largest profile or a caller's label overwrites the
  managed or lab-id label.\<close>

theorem launch_passes_policy:
  assumes "env \<in> {''kali'', ''windows''}" and "lab_id \<noteq> []"
    and "MANAGED_LABEL \<notin> fst ` set (lc_labels config)" "LAB_ID_LABEL \<notin> fst ` set (lc_labels config)"
    and "8 \<le> cc_max_mem_gb (pe_cfg pe)" "6 \<le> cc_max_cpu (pe_cfg pe)"
  shows "validate_lab_run (pe_cfg pe) (Some (pe_network pe)) (image_for pe env) (launch_kwargs pe lab_id env config) = None"
proof -
  have img: "image_for pe env \<in> set (allowed_lab_images (pe_cfg pe))"
    using assms(1) by (auto simp: image_for_def allowed_lab_images_def)
  have cpu: "check_cpu (pe_cfg pe) (launch_kwargs pe lab_id env config) = None"
    using resolve_profile_cases[of "lc_profile config"] assms(6)
    by (auto simp: check_cpu_def launch_values number_of_def Let_def)
  have kvm: "check_kvm (pe_cfg pe) (image_for pe env) (launch_kwargs pe lab_id env config) = None"
    by (simp add: check_kvm_def launch_kvm_values set_or_def items_or_def hashable_def
      KVM_CAPS_def KVM_DEVICES_def image_for_def first_error_None)
  have name: "check_name ''shadowtrust-'' (launch_kwargs pe lab_id env config) = None"
    unfolding check_name_def launch_values by (simp add: str_or_def starts_with_def)
  have labels: "check_lab_labels (launch_kwargs pe lab_id env config) = None"
    unfolding lab_labels_None carries_def launch_values by (simp add: lab_label_values[OF assms(3,4)] assms(2))
  show ?thesis
    using launch_network[of pe "cc_lab_network (pe_cfg pe)" lab_id env config]
    by (simp add: validate_lab_run_def Let_def first_error_None img launch_absent labels name cpu launch_memory[OF assms(5)] kvm)
qed

section \<open>Examples\<close>

theorem waiting_for_a_lab_ends_witness:
  "\<forall>dk m. \<exists>r m'. wait_until_ready \<lparr>pe_cfg = default_config, pe_installed = True, pe_network = ''net'',
     pe_windows_enabled = False, pe_kali_login = ([], []), pe_windows_login = ([], []), pe_windows_version = ''11'',
     pe_ready_timeout = 300, pe_windows_ready_timeout = 1800\<rparr> dk 0 (\<lambda>d i. of_nat i * d) ''lab'' m = Some (r, m') \<and> finished r"
proof -
  have "ticks (\<lambda>d i. of_nat i * d)" by (simp add: ticks_def algebra_simps)
  from waiting_for_a_lab_ends[OF this] show ?thesis by blast
qed

theorem launch_passes_policy_witness:
  "validate_lab_run default_config (Some ''net'') ''shadowtrust/lab-kali:latest''
     (launch_kwargs \<lparr>pe_cfg = default_config, pe_installed = True, pe_network = ''net'', pe_windows_enabled = False,
        pe_kali_login = ([], []), pe_windows_login = ([], []), pe_windows_version = ''11'',
        pe_ready_timeout = 300, pe_windows_ready_timeout = 1800\<rparr> ''7f3a'' ''kali''
      \<lparr>lc_environment = ''kali'', lc_profile = ''heavy'', lc_protocol = ''ssh'', lc_owner = Some ''ana'',
       lc_labels = [(''lab_id'', ''77'')]\<rparr>) = None"
proof -
  let ?pe = "\<lparr>pe_cfg = default_config, pe_installed = True, pe_network = ''net'', pe_windows_enabled = False,
        pe_kali_login = ([], []), pe_windows_login = ([], []), pe_windows_version = ''11'',
        pe_ready_timeout = 300, pe_windows_ready_timeout = 1800\<rparr>"
  have img: "image_for ?pe ''kali'' = ''shadowtrust/lab-kali:latest''" by (simp add: image_for_def default_config_def)
  show ?thesis
    using launch_passes_policy[of "''kali''" "''7f3a''" "\<lparr>lc_environment = ''kali'', lc_profile = ''heavy'', lc_protocol = ''ssh'',
       lc_owner = Some ''ana'', lc_labels = [(''lab_id'', ''77'')]\<rparr>" ?pe]
    unfolding img by (simp add: label_defs default_config_def)
qed

end
