(* ===== verification/Lab_Sessions.thy ===== *)
theory Lab_Sessions
  imports Labs
begin

text \<open>
  The lab session manager (\<open>backend/app/services/session_manager.py\<close>), the Guacamole tables it
  writes (\<open>services/guacamole_service.py\<close>) and the lab endpoints
  (\<open>api/v1/endpoints/labs.py\<close>), over any provider that keeps the contract of the locale
  \<open>lab_provider\<close>; the Docker provider of the theory Labs is its instance.

  A request and the background workers run on one event loop: between two \<open>await\<close>s their code is
  one step, and the calls that block (waiting for the lab, resolving its address, tearing it down)
  are where other requests come in. A lab event is such a step. The file that keeps the registry
  between runs is written after every change, so a restart finds the registry as it was. Whether
  the lab database and Guacamole answer are arguments; their exceptions are swallowed by the code.
\<close>

section \<open>The provider contract\<close>

record 's provider =
  pv_name :: string
  pv_launch :: "string \<Rightarrow> lab_config \<Rightarrow> 's \<Rightarrow> (provider_error + lab_info) \<times> 's"
  pv_wait :: "string \<Rightarrow> 's \<Rightarrow> (provider_error + lab_info) \<times> 's"
  pv_connection :: "string \<Rightarrow> string \<Rightarrow> 's \<Rightarrow> (provider_error + lab_connection option) \<times> 's"
  pv_terminate :: "string \<Rightarrow> 's \<Rightarrow> (provider_error + bool) \<times> 's"

text \<open>The clock a wait reads: each round sleeps for the interval and takes some more time.\<close>

definition clock_of :: "rat \<Rightarrow> (nat \<Rightarrow> rat) \<Rightarrow> rat \<Rightarrow> nat \<Rightarrow> rat" where
  "clock_of start delay d i = start + (\<Sum>k<i. d + \<bar>delay k\<bar>)"

definition docker_provider :: "provider_env \<Rightarrow> daemon \<Rightarrow> rat \<Rightarrow> (nat \<Rightarrow> rat) \<Rightarrow> manager provider" where
  "docker_provider pe dk start delay = \<lparr>pv_name = ''local'',
     pv_launch = launch_lab pe dk,
     pv_wait = (\<lambda>lab_id m. case wait_until_ready pe dk start (clock_of start delay) lab_id m of
        Some r \<Rightarrow> r | None \<Rightarrow> (Inl Provider_failure, m)),
     pv_connection = get_connection pe dk,
     pv_terminate = terminate_lab pe dk\<rparr>"

locale lab_provider =
  fixes p :: "'s provider" and safe :: "'s \<Rightarrow> bool"
  assumes launch_new: "pv_launch p lab_id c s = (Inr i, s') \<Longrightarrow>
      (li_id i = lab_id \<or> map_of (lc_labels c) ''lab_id'' = Some (li_id i)) \<and> li_status i = PROVISIONING"
    and wait_over: "pv_wait p lab_id s = (Inr i, s') \<Longrightarrow> li_status i \<in> {READY, TERMINATED, ERROR}"
    and safe_ops: "safe s \<Longrightarrow> safe (snd (pv_launch p lab_id c s))" "safe s \<Longrightarrow> safe (snd (pv_wait p lab_id s))"
      "safe s \<Longrightarrow> safe (snd (pv_connection p lab_id protocol s))" "safe s \<Longrightarrow> safe (snd (pv_terminate p lab_id s))"

section \<open>Guacamole\<close>

record guac_connection =
  gc_id :: nat
  gc_name :: string
  gc_protocol :: string
  gc_max :: nat
  gc_per_user :: nat
  gc_params :: "(string \<times> string) list"

record guac_db =
  gd_next :: nat
  gd_connections :: "guac_connection list"

definition connection_params :: "lab_connection \<Rightarrow> (string \<times> string) list" where
  "connection_params x =
     [(''hostname'', lx_host x), (''port'', str_of_int (lx_port x)), (''security'', ''any''),
      (''ignore-cert'', ''true''), (''resize-method'', ''display-update'')]
     @ (if lx_username x \<noteq> [] then [(''username'', lx_username x)] else [])
     @ (if lx_password x \<noteq> [] then [(''password'', lx_password x)] else [])"

definition create_connection :: "bool \<Rightarrow> string \<Rightarrow> lab_connection \<Rightarrow> guac_db \<Rightarrow> nat option \<times> guac_db" where
  "create_connection up lab_id x g =
     (if \<not> up then (None, g)
      else (Some (gd_next g), g\<lparr>gd_next := Suc (gd_next g),
        gd_connections := gd_connections g @
          [\<lparr>gc_id = gd_next g, gc_name = ''lab-'' @ lab_id, gc_protocol = lx_protocol x, gc_max = 2, gc_per_user = 1,
            gc_params = connection_params x\<rparr>]\<rparr>))"

definition delete_connection :: "bool \<Rightarrow> nat \<Rightarrow> guac_db \<Rightarrow> bool \<times> guac_db" where
  "delete_connection up i g =
     (if \<not> up then (False, g)
      else (True, g\<lparr>gd_connections := filter (\<lambda>c. gc_id c \<noteq> i) (gd_connections g)\<rparr>))"

section \<open>The registry\<close>

record lab_record =
  lr_status :: lab_status
  lr_owner :: string
  lr_protocol :: string
  lr_environment :: string
  lr_profile :: string
  lr_provider :: string
  lr_host :: "string option"
  lr_guac :: "nat option"

record vm_row =
  vm_id :: string
  vm_status :: lab_status
  vm_owner :: string
  vm_private_ip :: "string option"

text \<open>A background worker: the lab it waits for, the protocol it read when it started, and whether it
  still waits for readiness or already asks for the address.\<close>

record worker =
  wk_lab :: string
  wk_protocol :: string
  wk_resolving :: bool

record 's lab_world =
  lw_labs :: "(string \<times> lab_record) list"
  lw_vms :: "vm_row list"
  lw_guac :: guac_db
  lw_workers :: "worker list"
  lw_stops :: "string list"
  lw_launched :: nat
  lw_provider :: 's

definition set_lab :: "string \<Rightarrow> (lab_record \<Rightarrow> lab_record) \<Rightarrow> 's lab_world \<Rightarrow> 's lab_world" where
  "set_lab lab_id f w = w\<lparr>lw_labs := map (\<lambda>(k, r). (k, if k = lab_id then f r else r)) (lw_labs w)\<rparr>"

definition set_vm :: "bool \<Rightarrow> string \<Rightarrow> (vm_row \<Rightarrow> vm_row) \<Rightarrow> 's lab_world \<Rightarrow> 's lab_world" where
  "set_vm db_up lab_id f w =
     (if db_up then w\<lparr>lw_vms := map (\<lambda>r. if vm_id r = lab_id then f r else r) (lw_vms w)\<rparr> else w)"

definition update_db_status :: "bool \<Rightarrow> string \<Rightarrow> lab_status \<Rightarrow> 's lab_world \<Rightarrow> 's lab_world" where
  "update_db_status db_up lab_id status w =
     set_vm db_up lab_id (\<lambda>r. r\<lparr>vm_status := status\<rparr>) (set_lab lab_id (\<lambda>r. r\<lparr>lr_status := status\<rparr>) w)"

text \<open>\<open>load_local_state\<close>, when the process starts again.\<close>

definition load_local_state :: "'s lab_world \<Rightarrow> 's lab_world" where
  "load_local_state w = w\<lparr>lw_workers := [], lw_stops := [],
     lw_labs := map (\<lambda>(k, r). (k, if lr_status r \<in> {PROVISIONING, READY, RUNNING} then r\<lparr>lr_status := TERMINATED\<rparr> else r))
       (lw_labs w)\<rparr>"

definition insert_vm :: "bool \<Rightarrow> vm_row \<Rightarrow> 's lab_world \<Rightarrow> 's lab_world" where
  "insert_vm db_up r w =
     (if db_up \<and> vm_id r \<notin> vm_id ` set (lw_vms w) then w\<lparr>lw_vms := lw_vms w @ [r]\<rparr> else w)"

text \<open>\<open>POST /labs/start\<close>: the launch, the registry entry, the database row and the worker.\<close>

definition start_lab :: "'s provider \<Rightarrow> bool \<Rightarrow> (nat \<Rightarrow> string) \<Rightarrow> string \<Rightarrow> string \<Rightarrow> string \<Rightarrow> string
    \<Rightarrow> 's lab_world \<Rightarrow> (provider_error + string) \<times> 's lab_world" where
  "start_lab p db_up new_id owner environment profile protocol w =
     (let config = \<lparr>lc_environment = environment, lc_profile = profile, lc_protocol = protocol, lc_owner = Some owner,
            lc_labels = [(''lab_id'', new_id (2 * lw_launched w))]\<rparr>
      in case pv_launch p (new_id (2 * lw_launched w + 1)) config (lw_provider w) of
           (Inl e, s) \<Rightarrow> (Inl e, w\<lparr>lw_provider := s, lw_launched := Suc (lw_launched w)\<rparr>)
         | (Inr info, s) \<Rightarrow>
             (Inr (li_id info),
              insert_vm db_up \<lparr>vm_id = li_id info, vm_status = PROVISIONING, vm_owner = owner, vm_private_ip = None\<rparr>
                (w\<lparr>lw_provider := s, lw_launched := Suc (lw_launched w),
                   lw_labs := AList.update (li_id info)
                     \<lparr>lr_status = li_status info, lr_owner = owner, lr_protocol = protocol,
                      lr_environment = li_environment info, lr_profile = li_profile info, lr_provider = pv_name p,
                      lr_host = None, lr_guac = None\<rparr> (lw_labs w),
                   lw_workers := lw_workers w @ [\<lparr>wk_lab = li_id info, wk_protocol = protocol, wk_resolving = False\<rparr>]\<rparr>)))"

text \<open>The end of \<open>process_lab_readiness\<close>, once the lab has an address.\<close>

definition connect_lab :: "bool \<Rightarrow> bool \<Rightarrow> string \<Rightarrow> lab_connection \<Rightarrow> 's lab_world \<Rightarrow> 's lab_world" where
  "connect_lab db_up guac_up lab_id x w =
     (case create_connection guac_up lab_id x (lw_guac w) of
        (None, g) \<Rightarrow>
          update_db_status db_up lab_id READY
            (set_lab lab_id (\<lambda>r. r\<lparr>lr_status := READY, lr_host := Some (lx_host x), lr_guac := None\<rparr>) (w\<lparr>lw_guac := g\<rparr>))
      | (Some i, g) \<Rightarrow>
          set_vm db_up lab_id (\<lambda>r. r\<lparr>vm_status := READY, vm_private_ip := Some (lx_host x)\<rparr>)
            (set_lab lab_id (\<lambda>r. r\<lparr>lr_status := READY, lr_host := Some (lx_host x), lr_guac := Some i\<rparr>) (w\<lparr>lw_guac := g\<rparr>)))"

definition drop_worker :: "string \<Rightarrow> 's lab_world \<Rightarrow> 's lab_world" where
  "drop_worker lab_id w = w\<lparr>lw_workers := filter (\<lambda>k. wk_lab k \<noteq> lab_id) (lw_workers w)\<rparr>"

text \<open>The worker comes back from \<open>wait_until_ready\<close>.\<close>

definition lab_waited :: "'s provider \<Rightarrow> bool \<Rightarrow> bool \<Rightarrow> string \<Rightarrow> 's lab_world \<Rightarrow> 's lab_world" where
  "lab_waited p db_up guac_up lab_id w =
     (case pv_wait p lab_id (lw_provider w) of
        (Inl _, s) \<Rightarrow> update_db_status db_up lab_id ERROR (drop_worker lab_id (w\<lparr>lw_provider := s\<rparr>))
      | (Inr info, s) \<Rightarrow>
          let w = w\<lparr>lw_provider := s\<rparr> in
          if li_status info \<in> {ERROR, TERMINATED} then update_db_status db_up lab_id ERROR (drop_worker lab_id w)
          else (case li_connection info of
              Some x \<Rightarrow> connect_lab db_up guac_up lab_id x (drop_worker lab_id w)
            | None \<Rightarrow> w\<lparr>lw_workers := map (\<lambda>k. if wk_lab k = lab_id then k\<lparr>wk_resolving := True\<rparr> else k) (lw_workers w)\<rparr>))"

text \<open>The worker comes back from \<open>get_connection\<close>.\<close>

definition lab_resolved :: "'s provider \<Rightarrow> bool \<Rightarrow> bool \<Rightarrow> worker \<Rightarrow> 's lab_world \<Rightarrow> 's lab_world" where
  "lab_resolved p db_up guac_up k w =
     (case pv_connection p (wk_lab k) (wk_protocol k) (lw_provider w) of
        (Inr (Some x), s) \<Rightarrow> connect_lab db_up guac_up (wk_lab k) x (drop_worker (wk_lab k) (w\<lparr>lw_provider := s\<rparr>))
      | (_, s) \<Rightarrow> update_db_status db_up (wk_lab k) ERROR (drop_worker (wk_lab k) (w\<lparr>lw_provider := s\<rparr>)))"

text \<open>\<open>POST /labs/stop\<close> up to the provider's teardown, and what follows it.\<close>

definition stop_lab :: "bool \<Rightarrow> bool \<Rightarrow> string \<Rightarrow> nat option \<Rightarrow> 's lab_world \<Rightarrow> 's lab_world" where
  "stop_lab db_up guac_up lab_id guac_id w =
     (let w = update_db_status db_up lab_id STOPPING w;
          stored = (case map_of (lw_labs w) lab_id of None \<Rightarrow> None | Some r \<Rightarrow> lr_guac r);
          gone = (case guac_id of Some i \<Rightarrow> if i = 0 then stored else Some i | None \<Rightarrow> stored);
          w = (case gone of None \<Rightarrow> w | Some i \<Rightarrow> w\<lparr>lw_guac := snd (delete_connection guac_up i (lw_guac w))\<rparr>)
      in w\<lparr>lw_stops := lw_stops w @ [lab_id]\<rparr>)"

definition lab_stopped :: "'s provider \<Rightarrow> bool \<Rightarrow> string \<Rightarrow> 's lab_world \<Rightarrow> bool \<times> 's lab_world" where
  "lab_stopped p db_up lab_id w =
     (let w = w\<lparr>lw_stops := remove1 lab_id (lw_stops w)\<rparr> in
      case pv_terminate p lab_id (lw_provider w) of
        (Inr True, s) \<Rightarrow> (True, update_db_status db_up lab_id TERMINATED (w\<lparr>lw_provider := s\<rparr>))
      | (_, s) \<Rightarrow> (False, update_db_status db_up lab_id ERROR (w\<lparr>lw_provider := s\<rparr>)))"

text \<open>\<open>POST /labs/reattach\<close>: the checks, and the background step.\<close>

datatype reattach_reply = Not_found | Not_ready lab_status | No_address | Already_connected nat | Reattaching

definition reattach_check :: "string \<Rightarrow> 's lab_world \<Rightarrow> reattach_reply" where
  "reattach_check lab_id w =
     (case map_of (lw_labs w) lab_id of
        None \<Rightarrow> Not_found
      | Some r \<Rightarrow>
          if lr_status r \<notin> {READY, RUNNING} then Not_ready (lr_status r)
          else if lr_host r = None \<or> lr_host r = Some [] then No_address
          else (case lr_guac r of Some i \<Rightarrow> if i = 0 then Reattaching else Already_connected i | None \<Rightarrow> Reattaching))"

definition reattach :: "'s provider \<Rightarrow> bool \<Rightarrow> string \<Rightarrow> 's lab_world \<Rightarrow> 's lab_world" where
  "reattach p guac_up lab_id w =
     (if reattach_check lab_id w \<noteq> Reattaching then w
      else let protocol = (case map_of (lw_labs w) lab_id of Some r \<Rightarrow> lr_protocol r | None \<Rightarrow> ''rdp'') in
        case pv_connection p lab_id protocol (lw_provider w) of
          (Inr (Some x), s) \<Rightarrow>
            (case create_connection guac_up lab_id x (lw_guac w) of
               (Some i, g) \<Rightarrow> set_lab lab_id (\<lambda>r. r\<lparr>lr_guac := Some i\<rparr>) (w\<lparr>lw_provider := s, lw_guac := g\<rparr>)
             | (None, g) \<Rightarrow> w\<lparr>lw_provider := s, lw_guac := g\<rparr>)
        | (_, s) \<Rightarrow> w\<lparr>lw_provider := s\<rparr>)"

text \<open>\<open>GET /labs/status\<close>: the registry, and the database for a lab it does not know; \<open>token\<close> is what
  Guacamole answers to the login. \<open>None\<close> is the \<open>NOT_FOUND\<close> reply.\<close>

record status_reply =
  sr_status :: lab_status
  sr_host :: "string option"
  sr_guac :: "nat option"
  sr_token :: "string option"

definition lab_status_reply :: "string option \<Rightarrow> string \<Rightarrow> 's lab_world \<Rightarrow> status_reply option" where
  "lab_status_reply token lab_id w =
     (let with_token = (\<lambda>st. if st \<in> {READY, RUNNING} then token else None) in
      case map_of (lw_labs w) lab_id of
        Some r \<Rightarrow> Some \<lparr>sr_status = lr_status r, sr_host = lr_host r, sr_guac = lr_guac r, sr_token = with_token (lr_status r)\<rparr>
      | None \<Rightarrow> map_option (\<lambda>v. \<lparr>sr_status = vm_status v, sr_host = vm_private_ip v, sr_guac = None,
                    sr_token = with_token (vm_status v)\<rparr>)
                  (find (\<lambda>v. vm_id v = lab_id) (lw_vms w)))"

section \<open>Interleavings\<close>

datatype lab_event =
    Start string string string string
  | Waited string bool
  | Resolved string bool
  | Stopping string "nat option" bool
  | Torn_down string
  | Reattached string bool
  | Restarted

fun lab_step :: "'s provider \<Rightarrow> bool \<Rightarrow> (nat \<Rightarrow> string) \<Rightarrow> 's lab_world \<Rightarrow> lab_event \<Rightarrow> 's lab_world" where
  "lab_step p db_up new_id w (Start owner environment profile protocol) =
     snd (start_lab p db_up new_id owner environment profile protocol w)"
| "lab_step p db_up new_id w (Waited lab_id guac_up) =
     (if \<exists>k \<in> set (lw_workers w). wk_lab k = lab_id \<and> \<not> wk_resolving k then lab_waited p db_up guac_up lab_id w else w)"
| "lab_step p db_up new_id w (Resolved lab_id guac_up) =
     (case find (\<lambda>k. wk_lab k = lab_id \<and> wk_resolving k) (lw_workers w) of
        Some k \<Rightarrow> lab_resolved p db_up guac_up k w | None \<Rightarrow> w)"
| "lab_step p db_up new_id w (Stopping lab_id guac_id guac_up) = stop_lab db_up guac_up lab_id guac_id w"
| "lab_step p db_up new_id w (Torn_down lab_id) =
     (if lab_id \<in> set (lw_stops w) then snd (lab_stopped p db_up lab_id w) else w)"
| "lab_step p db_up new_id w (Reattached lab_id guac_up) = reattach p guac_up lab_id w"
| "lab_step p db_up new_id w Restarted = load_local_state w"

definition no_labs :: "'s \<Rightarrow> 's lab_world" where
  "no_labs s = \<lparr>lw_labs = [], lw_vms = [], lw_guac = \<lparr>gd_next = 1, gd_connections = []\<rparr>, lw_workers = [], lw_stops = [],
     lw_launched = 0, lw_provider = s\<rparr>"

text \<open>A registry entry and its database row.\<close>

definition agrees :: "string \<times> lab_record \<Rightarrow> vm_row \<Rightarrow> bool" where
  "agrees = (\<lambda>(k, r) v. vm_id v = k
     \<and> (vm_status v = lr_status r \<or> (lr_status r = TERMINATED \<and> vm_status v \<in> {PROVISIONING, READY, RUNNING}))
     \<and> (lr_status r \<in> {READY, RUNNING} \<longrightarrow> lr_host r \<noteq> None))"

definition registry_ok :: "(nat \<Rightarrow> string) \<Rightarrow> nat \<Rightarrow> (string \<times> lab_record) list \<Rightarrow> vm_row list \<Rightarrow> bool" where
  "registry_ok new_id n labs vms \<longleftrightarrow> distinct (map fst labs) \<and> list_all2 agrees labs vms
     \<and> (\<forall>k \<in> fst ` set labs. \<exists>i < 2 * n. k = new_id i)"

definition world_ok :: "(nat \<Rightarrow> string) \<Rightarrow> 's lab_world \<Rightarrow> bool" where
  "world_ok new_id w \<longleftrightarrow> registry_ok new_id (lw_launched w) (lw_labs w) (lw_vms w)"

lemma registry_update:
  assumes "registry_ok new_id n labs vms"
    and "\<And>r v. agrees (lab_id, r) v \<Longrightarrow> agrees (lab_id, f r) (g v)"
  shows "registry_ok new_id n (map (\<lambda>(k, r). (k, if k = lab_id then f r else r)) labs)
    (map (\<lambda>v. if vm_id v = lab_id then g v else v) vms)"
proof -
  have "list_all2 agrees labs vms" using assms(1) by (simp add: registry_ok_def)
  then have "list_all2 agrees (map (\<lambda>(k, r). (k, if k = lab_id then f r else r)) labs)
      (map (\<lambda>v. if vm_id v = lab_id then g v else v) vms)"
  proof (induction labs vms rule: list_all2_induct)
    case (Cons kr labs v vms)
    then show ?case using assms(2)[of "snd kr" v] by (cases kr) (auto simp: agrees_def)
  qed simp
  moreover have "map fst (map (\<lambda>(k, r). (k, if k = lab_id then f r else r)) labs) = map fst labs"
    by (simp add: comp_def split_beta)
  ultimately show ?thesis using assms(1) unfolding registry_ok_def by (metis set_map)
qed

lemma set_lab_vm_ok:
  assumes "world_ok new_id w" "\<And>r v. agrees (lab_id, r) v \<Longrightarrow> agrees (lab_id, f r) (g v)"
  shows "world_ok new_id (set_vm True lab_id g (set_lab lab_id f w))"
  using registry_update[of new_id "lw_launched w" "lw_labs w" "lw_vms w" lab_id f g] assms
  by (simp add: world_ok_def set_lab_def set_vm_def)

lemma set_lab_ok:
  assumes "world_ok new_id w" "\<And>r v. agrees (lab_id, r) v \<Longrightarrow> agrees (lab_id, f r) v"
  shows "world_ok new_id (set_lab lab_id f w)"
  using registry_update[of new_id "lw_launched w" "lw_labs w" "lw_vms w" lab_id f "\<lambda>v. v"] assms
  by (simp add: world_ok_def set_lab_def)

lemma world_frames [simp]:
  "world_ok new_id (w\<lparr>lw_provider := s\<rparr>) = world_ok new_id w"
  "world_ok new_id (w\<lparr>lw_guac := g\<rparr>) = world_ok new_id w"
  "world_ok new_id (w\<lparr>lw_workers := ks\<rparr>) = world_ok new_id w"
  "world_ok new_id (w\<lparr>lw_stops := is\<rparr>) = world_ok new_id w"
  "world_ok new_id (drop_worker lab_id w) = world_ok new_id w"
  by (simp_all add: world_ok_def drop_worker_def)

lemma update_status_ok: "world_ok new_id w \<Longrightarrow> st \<notin> {READY, RUNNING} \<Longrightarrow> world_ok new_id (update_db_status True lab_id st w)"
  unfolding update_db_status_def by (rule set_lab_vm_ok) (auto simp: agrees_def)

lemma set_lab_twice: "set_lab lab_id f (set_lab lab_id g w) = set_lab lab_id (\<lambda>r. f (g r)) w"
  unfolding set_lab_def by (auto simp: comp_def split_beta)

lemma registry_ids: "list_all2 agrees labs vms \<Longrightarrow> map vm_id vms = map fst labs"
  by (induction labs vms rule: list_all2_induct) (auto simp: agrees_def)

lemma connect_ok: "world_ok new_id w \<Longrightarrow> world_ok new_id (connect_lab True guac_up lab_id x w)"
proof -
  assume w: "world_ok new_id w"
  obtain c g where c: "create_connection guac_up lab_id x (lw_guac w) = (c, g)" by fastforce
  have "update_db_status True lab_id READY (set_lab lab_id (\<lambda>r. r\<lparr>lr_status := READY, lr_host := Some h, lr_guac := d\<rparr>) v)
     = set_vm True lab_id (\<lambda>r. r\<lparr>vm_status := READY\<rparr>)
        (set_lab lab_id (\<lambda>r. r\<lparr>lr_status := READY, lr_host := Some h, lr_guac := d\<rparr>) v)" for h d and v :: "'a lab_world"
  proof -
    have "set_lab lab_id (\<lambda>r. r\<lparr>lr_status := READY\<rparr>)
        (set_lab lab_id (\<lambda>r. r\<lparr>lr_status := READY, lr_host := Some h, lr_guac := d\<rparr>) v)
      = set_lab lab_id (\<lambda>r. r\<lparr>lr_status := READY, lr_host := Some h, lr_guac := d\<rparr>) v"
      unfolding set_lab_twice by (rule arg_cong[of _ _ "\<lambda>f. set_lab lab_id f v"])
        (rule ext, rule lab_record.equality, simp_all)
    then show ?thesis by (simp only: update_db_status_def)
  qed
  then show ?thesis using w c
    by (cases c) (auto simp: connect_lab_def intro!: set_lab_vm_ok, auto simp: agrees_def)
qed

lemma resolved_ok: "world_ok new_id w \<Longrightarrow> world_ok new_id (lab_resolved p True guac_up k w)"
  by (auto simp: lab_resolved_def connect_ok update_status_ok split: prod.splits sum.splits option.splits)

lemma waited_ok: "world_ok new_id w \<Longrightarrow> world_ok new_id (lab_waited p True guac_up lab_id w)"
  by (auto simp: lab_waited_def Let_def connect_ok update_status_ok split: prod.splits sum.splits option.splits)

lemma stop_lab_ok: "world_ok new_id w \<Longrightarrow> world_ok new_id (stop_lab True guac_up lab_id guac_id w)"
  by (auto simp: stop_lab_def Let_def update_status_ok split: option.splits)

lemma stopped_ok: "world_ok new_id w \<Longrightarrow> world_ok new_id (snd (lab_stopped p True lab_id w))"
  by (auto simp: lab_stopped_def Let_def update_status_ok split: prod.splits sum.splits bool.splits)

lemma reattach_ok: "world_ok new_id w \<Longrightarrow> world_ok new_id (reattach p guac_up lab_id w)"
  by (auto simp: reattach_def Let_def agrees_def intro!: set_lab_ok split: prod.splits sum.splits option.splits)

lemma restart_ok: "world_ok new_id w \<Longrightarrow> world_ok new_id (load_local_state w)"
proof -
  let ?h = "\<lambda>(k, r). (k :: string, if lr_status r \<in> {PROVISIONING, READY, RUNNING} then r\<lparr>lr_status := TERMINATED\<rparr> else r)"
  assume w: "world_ok new_id w"
  have "agrees (?h kr) v" if "agrees kr v" for kr v
    using that by (cases kr; cases "lr_status (snd kr)") (auto simp: agrees_def)
  then have rel: "list_all2 agrees (map ?h labs) vms" if "list_all2 agrees labs vms" for labs vms
    unfolding list.rel_map using that by (rule list_all2_mono[rotated])
  have keys: "map fst (map ?h labs) = map fst labs" for labs by (simp add: comp_def split_beta)
  have "registry_ok new_id n (map ?h labs) vms" if "registry_ok new_id n labs vms" for n labs vms
  proof -
    have "fst ` set (map ?h labs) = fst ` set labs" using arg_cong[OF keys[of labs], of set] by (simp only: set_map)
    then show ?thesis using that rel keys[of labs] by (simp only: registry_ok_def) simp
  qed
  then show ?thesis using w by (simp add: world_ok_def load_local_state_def)
qed

lemma registry_suc: "registry_ok new_id n labs vms \<Longrightarrow> registry_ok new_id (Suc n) labs vms"
proof -
  have more: "\<exists>i < 2 * Suc n. k = new_id i" if "\<exists>i < 2 * n. k = new_id i" for k
    using that less_le_trans[of _ "2 * n" "2 * Suc n"] by fastforce
  show "registry_ok new_id n labs vms \<Longrightarrow> ?thesis"
    unfolding registry_ok_def by (elim conjE, intro conjI ballI) (assumption, assumption, rule more, erule (1) bspec)
qed

context lab_provider
begin

lemma start_ok:
  assumes "world_ok new_id w" "inj new_id"
  shows "world_ok new_id (snd (start_lab p True new_id owner environment profile protocol w))"
proof -
  define config where "config = \<lparr>lc_environment = environment, lc_profile = profile, lc_protocol = protocol, lc_owner = Some owner,
            lc_labels = [(''lab_id'', new_id (2 * lw_launched w))]\<rparr>"
  obtain r s where l: "pv_launch p (new_id (2 * lw_launched w + 1)) config (lw_provider w) = (r, s)" by fastforce
  show ?thesis
  proof (cases r)
    case (Inl e)
    then show ?thesis using assms(1) l
      by (simp add: start_lab_def config_def world_ok_def registry_suc Let_def)
  next
    case (Inr info)
    let ?id = "li_id info"
    have i: "?id = new_id (2 * lw_launched w + 1) \<or> ?id = new_id (2 * lw_launched w)" "li_status info = PROVISIONING"
      using launch_new[of "new_id (2 * lw_launched w + 1)" config "lw_provider w" info s] l Inr by (auto simp: config_def)
    then obtain k where k: "?id = new_id k" "2 * lw_launched w \<le> k" "k < 2 * Suc (lw_launched w)" by auto
    have new: "?id \<notin> fst ` set (lw_labs w)"
      using assms k by (fastforce simp: world_ok_def registry_ok_def inj_eq)
    have "map vm_id (lw_vms w) = map fst (lw_labs w)"
      using assms(1) registry_ids by (auto simp: world_ok_def registry_ok_def)
    then have newv: "?id \<notin> vm_id ` set (lw_vms w)" using new by (metis set_map)
    have "AList.update ?id x (lw_labs w) = lw_labs w @ [(?id, x)]" for x
      using new by (rule update_new)
    moreover have "registry_ok new_id (Suc (lw_launched w)) (lw_labs w) (lw_vms w)"
      using assms(1) registry_suc by (simp add: world_ok_def)
    ultimately show ?thesis using l Inr i(2) k(1,3) new newv
      unfolding start_lab_def config_def[symmetric] Let_def
      by (auto simp: world_ok_def registry_ok_def insert_vm_def agrees_def intro!: list_all2_appendI)
  qed
qed

lemma step_ok:
  assumes "world_ok new_id w" "inj new_id"
  shows "world_ok new_id (lab_step p True new_id w e)"
  using assms by (cases e) (auto simp: start_ok waited_ok resolved_ok stop_lab_ok stopped_ok reattach_ok restart_ok split: option.splits)

lemma provider_frames:
  "lw_provider (update_db_status db_up lab_id st w) = lw_provider w" "lw_provider (drop_worker lab_id w) = lw_provider w"
  "lw_provider (connect_lab db_up guac_up lab_id x w) = lw_provider w" "lw_provider (insert_vm db_up v w) = lw_provider w"
  "lw_provider (set_lab lab_id f w) = lw_provider w"
  by (simp_all add: update_db_status_def set_vm_def set_lab_def drop_worker_def connect_lab_def insert_vm_def split: prod.splits option.splits)

lemma step_safe:
  assumes "safe (lw_provider w)" shows "safe (lw_provider (lab_step p db_up new_id w e))"
proof (cases e)
  case (Start owner environment profile protocol)
  define config where "config = \<lparr>lc_environment = environment, lc_profile = profile, lc_protocol = protocol, lc_owner = Some owner,
            lc_labels = [(''lab_id'', new_id (2 * lw_launched w))]\<rparr>"
  obtain r s where l: "pv_launch p (new_id (2 * lw_launched w + 1)) config (lw_provider w) = (r, s)" by fastforce
  then have "safe s" using safe_ops(1)[OF assms] by (metis snd_conv)
  then show ?thesis using l Start
    by (cases r) (simp_all add: start_lab_def config_def provider_frames Let_def)
next
  case (Waited lab_id guac_up)
  obtain r s where l: "pv_wait p lab_id (lw_provider w) = (r, s)" by fastforce
  then have "safe s" using safe_ops(2)[OF assms] by (metis snd_conv)
  then show ?thesis using l Waited assms
    by (cases r) (auto simp: lab_waited_def provider_frames Let_def split: option.splits)
next
  case (Resolved lab_id guac_up)
  have "safe (lw_provider (lab_resolved p db_up guac_up k w))" for k
  proof -
    obtain r s where l: "pv_connection p (wk_lab k) (wk_protocol k) (lw_provider w) = (r, s)" by fastforce
    then have "safe s" using safe_ops(3)[OF assms] by (metis snd_conv)
    then show ?thesis using l by (auto simp: lab_resolved_def provider_frames split: sum.splits option.splits)
  qed
  then show ?thesis using Resolved assms by (auto split: option.splits)
next
  case (Stopping lab_id guac_id guac_up)
  then show ?thesis using assms by (simp add: stop_lab_def Let_def provider_frames split: option.splits)
next
  case (Torn_down lab_id)
  obtain r s where l: "pv_terminate p lab_id (lw_provider w) = (r, s)" by fastforce
  then have "safe s" using safe_ops(4)[OF assms] by (metis snd_conv)
  then show ?thesis using l Torn_down assms
    by (auto simp: lab_stopped_def provider_frames Let_def split: sum.splits bool.splits)
next
  case (Reattached lab_id guac_up)
  define protocol where "protocol = (case map_of (lw_labs w) lab_id of Some r \<Rightarrow> lr_protocol r | None \<Rightarrow> ''rdp'')"
  obtain r s where l: "pv_connection p lab_id protocol (lw_provider w) = (r, s)" by fastforce
  then have "safe s" using safe_ops(3)[OF assms] by (metis snd_conv)
  then show ?thesis using l Reattached assms
    by (auto simp: reattach_def protocol_def[symmetric] provider_frames Let_def split: sum.splits option.splits prod.splits)
next
  case Restarted
  then show ?thesis using assms by (simp add: load_local_state_def)
qed

lemma run_ok:
  assumes "inj new_id" "safe s"
  shows "world_ok new_id (foldl (lab_step p True new_id) (no_labs s) es)
    \<and> safe (lw_provider (foldl (lab_step p True new_id) (no_labs s) es))"
proof (induction es rule: rev_induct)
  case (snoc e es)
  then show ?case using step_ok[OF _ assms(1)] step_safe by simp
qed (simp add: assms(2) no_labs_def world_ok_def registry_ok_def)

end

section \<open>The Docker provider keeps the contract\<close>

lemma clock_ticks: "ticks (clock_of start delay)"
  by (simp add: ticks_def clock_of_def)

lemma docker_wait:
  assumes "pv_wait (docker_provider pe dk start delay) lab_id m = (r, m')"
  shows "finished r \<and> (calls_ok cfg m \<longrightarrow> calls_ok cfg m')"
  using wait_returns[OF clock_ticks, of pe dk start start delay lab_id m cfg] assms by (auto simp: docker_provider_def)

lemma docker_launch: "launch_lab pe dk lab_id c m = (Inr i, m') \<Longrightarrow> li_id i = lab_id \<and> li_status i = PROVISIONING"
  by (auto simp: launch_lab_def Let_def split: if_splits prod.splits sum.splits manager_error.splits)

interpretation docker_labs: lab_provider "docker_provider pe dk start delay" "calls_ok (pe_cfg pe)"
proof
  fix lab_id c protocol and m m' :: manager and i
  show "pv_launch (docker_provider pe dk start delay) lab_id c m = (Inr i, m') \<Longrightarrow>
      (li_id i = lab_id \<or> map_of (lc_labels c) ''lab_id'' = Some (li_id i)) \<and> li_status i = PROVISIONING"
    by (simp add: docker_provider_def docker_launch)
  show "pv_wait (docker_provider pe dk start delay) lab_id m = (Inr i, m') \<Longrightarrow> li_status i \<in> {READY, TERMINATED, ERROR}"
    by (auto simp: finished_def dest!: docker_wait)
  assume ok: "calls_ok (pe_cfg pe) m"
  show "calls_ok (pe_cfg pe) (snd (pv_launch (docker_provider pe dk start delay) lab_id c m))"
    "calls_ok (pe_cfg pe) (snd (pv_connection (docker_provider pe dk start delay) lab_id protocol m))"
    "calls_ok (pe_cfg pe) (snd (pv_terminate (docker_provider pe dk start delay) lab_id m))"
    using ok by (simp_all add: docker_provider_def launch_lab_ok get_connection_ok terminate_ok)
  show "calls_ok (pe_cfg pe) (snd (pv_wait (docker_provider pe dk start delay) lab_id m))"
    using docker_wait[of pe dk start delay lab_id m] ok
    by (cases "pv_wait (docker_provider pe dk start delay) lab_id m") auto
qed


section \<open>Races\<close>

definition ready_info :: "string \<Rightarrow> lab_status \<Rightarrow> lab_info" where
  "ready_info i st = \<lparr>li_id = i, li_status = st, li_environment = ''kali'', li_profile = ''light'', li_host = None,
     li_connection = (if st = READY then Some \<lparr>lx_host = ''shadowtrust-lab-1'', lx_port = 22, lx_protocol = ''ssh'',
        lx_username = ''kali'', lx_password = ''kali''\<rparr> else None), li_resources = None\<rparr>"

definition prompt_provider :: "lab_status \<Rightarrow> unit provider" where
  "prompt_provider st = \<lparr>pv_name = ''local'', pv_launch = (\<lambda>i _ s. (Inr (ready_info i PROVISIONING), s)),
     pv_wait = (\<lambda>i s. (Inr (ready_info i st), s)), pv_connection = (\<lambda>_ _ s. (Inr None, s)),
     pv_terminate = (\<lambda>_ s. (Inr True, s))\<rparr>"

text \<open>A stop that overlaps the worker: when the lab turns ready between the two halves of the stop, the
  worker registers a Guacamole connection nobody deletes any more; when the worker is told after the
  stop that its lab is gone, it turns the terminated lab into one in error.\<close>

lemma stop_during_start:
  defines "run \<equiv> \<lambda>st es. foldl (lab_step (prompt_provider st) True str_of_nat) (no_labs ())
     (Start ''ana'' ''kali'' ''light'' ''ssh'' # es)"
  shows "map (lr_status \<circ> snd) (lw_labs (run READY [Stopping ''1'' None True, Waited ''1'' True, Torn_down ''1''])) = [TERMINATED]"
    "map gc_name (gd_connections (lw_guac (run READY [Stopping ''1'' None True, Waited ''1'' True, Torn_down ''1'']))) = [''lab-1'']"
    "map (lr_status \<circ> snd) (lw_labs (run TERMINATED [Stopping ''1'' None True, Torn_down ''1'', Waited ''1'' True])) = [ERROR]"
  unfolding run_def by code_simp+

definition demo_provider_env :: provider_env where
  "demo_provider_env = \<lparr>pe_cfg = default_config, pe_installed = True, pe_network = ''shadowtrust_labnet'',
     pe_windows_enabled = False, pe_kali_login = (''kali'', ''kali''), pe_windows_login = (''Docker'', ''admin''),
     pe_windows_version = ''11'', pe_ready_timeout = 300, pe_windows_ready_timeout = 1800\<rparr>"

definition idle_daemon :: daemon where
  "idle_daemon = \<lparr>dk_run = (\<lambda>_ _ _. Inl ''no such image''), dk_list = (\<lambda>_ _ _. Some []), dk_succeeds = (\<lambda>_ _. True),
     dk_exec = (\<lambda>_ _ _. None), dk_get = (\<lambda>_ _. None), dk_logs = (\<lambda>_ _ _. [])\<rparr>"


end
