(* ===== verification/Analysis_Shell.thy ===== *)
theory Analysis_Shell
  imports Containers Collector Soc_Db Accounts
begin

text \<open>
  The analysis lab (\<open>backend/app/services/analysis_shell.py\<close>, its endpoints
  \<open>backend/app/api/v1/endpoints/analysis_shell.py\<close> and the reaper of \<open>backend/app/main.py\<close>):
  sandbox shells, one per analyst, whose typed commands and outbound connections become
  telemetry events.

  An operation runs as one transaction on the tables it writes: sessions, the events of the
  shells (normalized and raw) and the incidents it only reads; operations do not overlap. What
  the daemon answers, SHA-256 (\<open>sx_digest\<close>), the printing of time stamps and the fresh session
  ids are arguments; the clock is read once per operation. A teardown that fails inside the
  container manager is swallowed, as in the code.
\<close>

record shell_env =
  sx_config :: container_config
  sx_ttl :: nat
  sx_hard_max :: nat
  sx_max_sessions :: nat
  sx_daemon :: daemon
  sx_installed :: bool
  sx_digest :: "string \<Rightarrow> string"
  sx_iso :: "time \<Rightarrow> string"

text \<open>\<open>TTL_MIN\<close>, \<open>HARD_MAX_MIN\<close> and \<open>MAX_SESSIONS\<close> when the environment does not set them.\<close>

definition default_limits :: "shell_env \<Rightarrow> shell_env" where
  "default_limits env = env\<lparr>sx_ttl := 20, sx_hard_max := 60, sx_max_sessions := 8\<rparr>"

definition START_TIMEOUT :: nat where
  "START_TIMEOUT = 20"

section \<open>Commands\<close>

definition is_alpha :: "char \<Rightarrow> bool" where
  "is_alpha c = (let n = of_char c :: nat in (65 \<le> n \<and> n \<le> 90) \<or> (97 \<le> n \<and> n \<le> 122))"

text \<open>The third alternative of \<open>_ANSI_RE\<close>; it contains the escape character, 27.\<close>

definition is_stray :: "char \<Rightarrow> bool" where
  "is_stray c = (let n = of_char c :: nat in n \<le> 8 \<or> (11 \<le> n \<and> n \<le> 31) \<or> n = 127)"

definition csi_param :: "char \<Rightarrow> bool" where
  "csi_param c \<longleftrightarrow> is_digit c \<or> c = CHR '';'' \<or> c = CHR ''?''"

text \<open>What follows an escape sequence whose escape character has been read.\<close>

definition after_escape :: "string \<Rightarrow> string option" where
  "after_escape s = (case s of
       [] \<Rightarrow> None
     | c # rest \<Rightarrow>
         if c = CHR ''['' then (case dropWhile csi_param rest of
             [] \<Rightarrow> None
           | d # tail \<Rightarrow> if is_alpha d then Some tail else None)
         else if c = CHR '']'' then (case dropWhile (\<lambda>d. d \<noteq> char_of (7::nat)) rest of
             [] \<Rightarrow> None
           | _ # tail \<Rightarrow> Some tail)
         else None)"

lemma after_escape_shorter: "after_escape s = Some t \<Longrightarrow> length t < length s"
  using length_dropWhile_le[of csi_param "tl s"] length_dropWhile_le[of "\<lambda>d. d \<noteq> char_of (7::nat)" "tl s"]
  by (auto simp: after_escape_def split: list.splits if_splits)

text \<open>\<open>_ANSI_RE.sub("", s)\<close>\<close>

function strip_ansi :: "string \<Rightarrow> string" where
  "strip_ansi [] = []"
| "strip_ansi (c # s) =
     (case (if c = char_of (27::nat) then after_escape s else None) of
        Some t \<Rightarrow> strip_ansi t
      | None \<Rightarrow> if is_stray c then strip_ansi s else c # strip_ansi s)"
  by pat_completeness auto
termination
  by (relation "measure length") (auto dest: after_escape_shorter split: if_splits)

definition clean_command :: "string \<Rightarrow> string" where
  "clean_command raw =
     take 2000 (map (\<lambda>c. if c = char_of (10::nat) then CHR '' '' else c)
       (filter (\<lambda>c. c \<noteq> char_of (13::nat)) (strip (strip_ansi raw))))"

definition source_tag :: "string \<Rightarrow> string" where
  "source_tag owner = ''analyst-shell:'' @ owner"

section \<open>Outbound connections\<close>

definition is_hex_digit :: "char \<Rightarrow> bool" where
  "is_hex_digit c = (let n = of_char c :: nat in is_digit c \<or> (65 \<le> n \<and> n \<le> 70) \<or> (97 \<le> n \<and> n \<le> 102))"

definition dotted_quad :: "string \<Rightarrow> bool" where
  "dotted_quad s \<longleftrightarrow> (let parts = split_on (CHR ''.'') s in
     length parts = 4 \<and> list_all (\<lambda>p. p \<noteq> [] \<and> length p \<le> 3 \<and> list_all is_digit p) parts)"

definition bracketed_host :: "string \<Rightarrow> bool" where
  "bracketed_host s \<longleftrightarrow> 3 \<le> length s \<and> hd s = CHR ''['' \<and> last s = CHR '']''
     \<and> list_all (\<lambda>c. is_hex_digit c \<or> c = CHR '':'') (butlast (tl s))"

text \<open>The address and port that end a line: \<open>_SS_PEER_RE.search(line.rstrip())\<close>, then
  \<open>strip("[]")\<close> and \<open>int\<close>. Neither holds white space, so they are the last word of the line.\<close>

definition ss_peer :: "string \<Rightarrow> (string \<times> nat) option" where
  "ss_peer line =
     (let line = rev (dropWhile is_space (rev line));
          word = rev (takeWhile (\<lambda>c. \<not> is_space c) (rev line));
          port = rev (takeWhile (\<lambda>c. c \<noteq> CHR '':'') (rev word));
          host = take (length word - length port - 1) word
      in if length word < length line \<and> length port < length word \<and> port \<noteq> [] \<and> list_all is_digit port
            \<and> (dotted_quad host \<or> bracketed_host host)
         then Some (if bracketed_host host then butlast (tl host) else host, nat_of_digits 0 port)
         else None)"

text \<open>\<open>_PRIVATE_RE\<close>\<close>

definition is_private :: "string \<Rightarrow> bool" where
  "is_private ip \<longleftrightarrow>
     list_ex (\<lambda>p. starts_with p ip) [''10.'', ''127.'', ''169.254.'', ''192.168.'', ''::1'', ''fe80:'']
     \<or> list_ex (\<lambda>n. starts_with (''172.'' @ str_of_nat n @ ''.'') ip) [16..<32]"

definition is_line_break :: "char \<Rightarrow> bool" where
  "is_line_break c = (let n = of_char c :: nat in (10 \<le> n \<and> n \<le> 13) \<or> (28 \<le> n \<and> n \<le> 30) \<or> n = 133)"

text \<open>\<open>str.splitlines\<close>, but for empty lines, which hold no address.\<close>

fun line_words :: "string \<Rightarrow> string \<Rightarrow> string list" where
  "line_words acc [] = [rev acc]"
| "line_words acc (c # cs) = (if is_line_break c then rev acc # line_words [] cs else line_words (c # acc) cs)"

definition peer_key :: "string \<times> nat \<Rightarrow> string" where
  "peer_key = (\<lambda>(ip, port). ip @ '':'' @ str_of_nat port)"

text \<open>The connections of one \<open>ss\<close> listing that are reported, and the keys seen after it.\<close>

fun new_peers :: "string list \<Rightarrow> string list \<Rightarrow> (string \<times> nat) list \<times> string list" where
  "new_peers seen [] = ([], seen)"
| "new_peers seen (l # ls) = (case ss_peer l of
       None \<Rightarrow> new_peers seen ls
     | Some p \<Rightarrow>
         if peer_key p \<in> set seen \<or> starts_with ''0.0.0.0'' (fst p) \<or> starts_with ''127.0.0.1'' (fst p)
         then new_peers seen ls
         else (case new_peers (peer_key p # seen) ls of (ps, seen') \<Rightarrow> (p # ps, seen')))"

definition connection_command :: "string \<times> nat \<Rightarrow> string" where
  "connection_command p =
     (if is_private (fst p) then ''connect '' else ''connect (external) '') @ peer_key p"

section \<open>Sessions\<close>

datatype shell_status = Shell_starting | Shell_running | Shell_stopped | Shell_error

record analysis_session =
  ss_id :: string
  ss_owner :: string
  ss_tag :: string
  ss_container :: "string option"
  ss_status :: shell_status
  ss_started :: time
  ss_activity :: time
  ss_stopped :: "time option"
  ss_commands :: nat
  ss_connections :: nat
  ss_seq :: nat
  ss_ttl :: nat
  ss_incident :: "string option"

record shell_state =
  sh_sessions :: "analysis_session list"
  sh_events :: "event list"
  sh_raw :: "raw_row list"
  sh_bus :: "json event_bus"
  sh_incidents :: "incident list"
  sh_manager :: manager

definition is_live :: "analysis_session \<Rightarrow> bool" where
  "is_live s \<longleftrightarrow> ss_status s = Shell_starting \<or> ss_status s = Shell_running"

definition put_shell :: "analysis_session \<Rightarrow> shell_state \<Rightarrow> shell_state" where
  "put_shell s st =
     st\<lparr>sh_sessions := map (\<lambda>t. if ss_id t = ss_id s then s else t) (sh_sessions st)\<rparr>"

definition shell_event_id :: "shell_env \<Rightarrow> string \<Rightarrow> nat \<Rightarrow> string \<Rightarrow> string" where
  "shell_event_id env sid n cmd =
     sx_digest env (utf8 (''shell:'' @ sid @ '':'' @ str_of_nat n @ '':'' @ cmd))"

definition shell_metadata :: "analysis_session \<Rightarrow> json" where
  "shell_metadata s = JObj [(''analysis_session'', JStr (ss_id s)), (''kind'', JStr ''analysis-shell''),
     (''owner'', JStr (ss_owner s))]"

definition shell_severity :: "string \<Rightarrow> string \<Rightarrow> string" where
  "shell_severity etype cmd =
     sev_name (derive_severity etype None (if contains_str ''command'' etype then JStr cmd else JNull))"

definition shell_event :: "shell_env \<Rightarrow> time \<Rightarrow> string \<Rightarrow> string \<Rightarrow> (string \<times> nat) option
    \<Rightarrow> analysis_session \<Rightarrow> event" where
  "shell_event env now etype cmd peer s =
     \<lparr>e_id = shell_event_id env (ss_id s) (ss_seq s) cmd, e_timestamp = now, e_ingested_at = Some now,
      e_sensor = ''analysis-shell'', e_type = Some etype, e_source_ip = ss_tag s, e_source_port = None,
      e_destination_ip = map_option fst peer,
      e_destination_port = Some (case peer of None \<Rightarrow> 0 | Some (_, p) \<Rightarrow> int p),
      e_protocol = Some ''shell'', e_username = None, e_password = None, e_auth_result = None,
      e_command = Some cmd, e_payload = None, e_session_id = Some (ss_id s),
      e_severity = Some (shell_severity etype cmd), e_raw = Some cmd, e_metadata = shell_metadata s\<rparr>"

definition shell_raw :: "event \<Rightarrow> string \<Rightarrow> string \<Rightarrow> raw_row" where
  "shell_raw e etype cmd =
     \<lparr>rr_id = e_id e, rr_timestamp = e_timestamp e, rr_attacker_ip = e_source_ip e,
      rr_target_port = (case e_destination_port e of None \<Rightarrow> 0 | Some p \<Rightarrow> p), rr_protocol = ''shell'',
      rr_honeypot_type = ''AnalysisShell'',
      rr_session_id = (case e_session_id e of None \<Rightarrow> JNull | Some i \<Rightarrow> JStr i),
      rr_event_type = etype, rr_commands = JStr cmd, rr_risk_score = risk_score_of (e_severity e),
      rr_raw_payload = cmd, rr_sync_status = ''LOCAL'', rr_signature = Some (e_id e)\<rparr>"

definition opt_str :: "string option \<Rightarrow> json" where
  "opt_str v = (case v of None \<Rightarrow> JNull | Some s \<Rightarrow> JStr s)"

definition shell_message :: "shell_env \<Rightarrow> event \<Rightarrow> (string \<times> nat) option \<Rightarrow> json" where
  "shell_message env e peer =
     JObj [(''event_id'', JStr (e_id e)), (''timestamp'', JStr (sx_iso env (e_timestamp e))),
       (''sensor'', JStr ''analysis-shell''), (''sensor_event_type'', opt_str (e_type e)),
       (''source_ip'', JStr (e_source_ip e)), (''command'', opt_str (e_command e)),
       (''severity'', opt_str (e_severity e)), (''destination_ip'', opt_str (e_destination_ip e)),
       (''destination_port'', case peer of None \<Rightarrow> JNull | Some (_, p) \<Rightarrow> JInt (int p))]"

text \<open>\<open>_emit_event\<close> returns the session with its new sequence number.\<close>

definition emit_event :: "shell_env \<Rightarrow> time \<Rightarrow> string \<Rightarrow> string \<Rightarrow> (string \<times> nat) option
    \<Rightarrow> analysis_session \<times> shell_state \<Rightarrow> analysis_session \<times> shell_state" where
  "emit_event env now etype cmd peer = (\<lambda>(s, st).
     let s = s\<lparr>ss_seq := ss_seq s + 1\<rparr>; e = shell_event env now etype cmd peer s
     in (s, st\<lparr>sh_events := sh_events st @ [e], sh_raw := sh_raw st @ [shell_raw e etype cmd],
               sh_bus := publish_many ''event'' [shell_message env e peer] (sh_bus st)\<rparr>))"

text \<open>\<open>_link_incident\<close>: incidents are in the order they were created.\<close>

definition link_incident :: "shell_state \<Rightarrow> analysis_session \<Rightarrow> analysis_session" where
  "link_incident st s =
     (if ss_incident s \<noteq> None \<and> ss_incident s \<noteq> Some [] then s
      else case find (\<lambda>i. i_correlation_key i = ss_tag s) (rev (sh_incidents st)) of
          None \<Rightarrow> s
        | Some i \<Rightarrow> s\<lparr>ss_incident := Some (i_id i)\<rparr>)"

definition get_session :: "string \<Rightarrow> string option \<Rightarrow> shell_state \<Rightarrow> analysis_session option" where
  "get_session sid owner st =
     find (\<lambda>s. ss_id s = sid \<and> (case owner of None \<Rightarrow> True | Some u \<Rightarrow> u = [] \<or> ss_owner s = u)) (sh_sessions st)"

text \<open>The Docker half of \<open>_teardown\<close>, with its \<open>except: pass\<close>, and the whole.\<close>

definition remove_sandbox :: "shell_env \<Rightarrow> string \<Rightarrow> manager \<Rightarrow> manager" where
  "remove_sandbox env sid m =
     (case find_session_container (sx_daemon env) (sx_installed env) False sid m of
        (Inr (Some c), m) \<Rightarrow> snd (stop_and_remove_managed c m)
      | (_, m) \<Rightarrow> m)"

definition teardown :: "shell_env \<Rightarrow> time \<Rightarrow> analysis_session \<Rightarrow> shell_state \<Rightarrow> shell_state" where
  "teardown env now s st =
     put_shell (s\<lparr>ss_status := Shell_stopped, ss_stopped := Some now\<rparr>)
       (st\<lparr>sh_manager := remove_sandbox env (ss_id s) (sh_manager st)\<rparr>)"

definition stop_session :: "shell_env \<Rightarrow> time \<Rightarrow> string \<Rightarrow> string option \<Rightarrow> shell_state \<Rightarrow> bool \<times> shell_state" where
  "stop_session env now sid owner st = (case get_session sid owner st of
       None \<Rightarrow> (False, st)
     | Some s \<Rightarrow> (True, teardown env now s st))"

definition IGNORED_COMMANDS :: "string list" where
  "IGNORED_COMMANDS = [[], '':'', ''clear'', ''exit'']"

definition record_command :: "shell_env \<Rightarrow> time \<Rightarrow> analysis_session \<Rightarrow> string \<Rightarrow> shell_state
    \<Rightarrow> string option \<times> shell_state" where
  "record_command env now s raw st =
     (let cmd = clean_command raw in
      if cmd \<in> set IGNORED_COMMANDS then (None, st)
      else case emit_event env now ''shell.command.input'' cmd None (s, st) of (s, st) \<Rightarrow>
        let s = s\<lparr>ss_commands := ss_commands s + 1, ss_activity := now\<rparr>
        in (Some cmd, put_shell (link_incident st s) st))"

text \<open>One reported connection, and \<open>poll_connections\<close>; \<open>None\<close> is the exception of a search that
  fails, which is outside its \<open>try\<close>.\<close>

definition emit_connection :: "shell_env \<Rightarrow> time \<Rightarrow> string \<times> nat
    \<Rightarrow> analysis_session \<times> shell_state \<Rightarrow> analysis_session \<times> shell_state" where
  "emit_connection env now p acc =
     (case emit_event env now ''shell.connection.attempt'' (connection_command p) (Some p) acc of (s, st) \<Rightarrow>
        (s\<lparr>ss_connections := ss_connections s + 1, ss_activity := now\<rparr>, st))"

definition list_peers :: "shell_env \<Rightarrow> string list \<Rightarrow> string \<Rightarrow> manager
    \<Rightarrow> ((string \<times> nat) list \<times> string list) option \<times> manager" where
  "list_peers env seen sid m =
     (case find_session_container (sx_daemon env) (sx_installed env) False sid m of
        (Inl _, m) \<Rightarrow> (None, m)
      | (Inr None, m) \<Rightarrow> (Some ([], seen), m)
      | (Inr (Some c), m) \<Rightarrow> (case exec_in_managed (sx_daemon env) c [''ss'', ''-tunH''] m of
            (Inl _, m) \<Rightarrow> (Some ([], seen), m)
          | (Inr (_, listing), m) \<Rightarrow> (Some (new_peers seen (line_words [] listing)), m)))"

definition poll_connections :: "shell_env \<Rightarrow> time \<Rightarrow> analysis_session \<Rightarrow> string list \<Rightarrow> shell_state
    \<Rightarrow> (nat \<times> string list) option \<times> shell_state" where
  "poll_connections env now s seen st =
     (case list_peers env seen (ss_id s) (sh_manager st) of
        (None, m) \<Rightarrow> (None, st\<lparr>sh_manager := m\<rparr>)
      | (Some (peers, seen), m) \<Rightarrow>
          if peers = [] then (Some (0, seen), st\<lparr>sh_manager := m\<rparr>)
          else case fold (emit_connection env now) peers (s, st\<lparr>sh_manager := m\<rparr>) of (s, st) \<Rightarrow>
            (Some (length peers, seen), put_shell (link_incident st s) st))"

section \<open>Starting a session\<close>

datatype start_error =
    Too_many_sessions nat
  | Docker_unreachable
  | Duplicate_session
  | Sandbox_blocked policy_error
  | Image_missing
  | Sandbox_failed manager_error

definition live_of :: "string \<Rightarrow> shell_state \<Rightarrow> analysis_session list" where
  "live_of owner st = filter (\<lambda>s. ss_owner s = owner \<and> is_live s) (sh_sessions st)"

definition running_sessions :: "shell_state \<Rightarrow> analysis_session list" where
  "running_sessions st = filter (\<lambda>s. ss_status s = Shell_running) (sh_sessions st)"

definition new_shell :: "shell_env \<Rightarrow> time \<Rightarrow> string \<Rightarrow> string \<Rightarrow> analysis_session" where
  "new_shell env now sid owner =
     \<lparr>ss_id = sid, ss_owner = owner, ss_tag = source_tag owner, ss_container = None,
      ss_status = Shell_starting, ss_started = now, ss_activity = now, ss_stopped = None,
      ss_commands = 0, ss_connections = 0, ss_seq = 0, ss_ttl = sx_ttl env, ss_incident = None\<rparr>"

text \<open>The wait for the container: two reloads a second until \<open>_START_TIMEOUT\<close>. The status each
  reload leaves is an argument, \<open>None\<close> an exception.\<close>

definition WAIT_ROUNDS :: nat where
  "WAIT_ROUNDS = 2 * START_TIMEOUT"

fun wait_running :: "container \<Rightarrow> string \<Rightarrow> string option list \<Rightarrow> manager \<Rightarrow> string \<times> manager" where
  "wait_running c status [] m = (status, m)"
| "wait_running c status (r # rs) m =
     (case r of
        None \<Rightarrow> wait_running c status rs (issue (Reload c) m)
      | Some status' \<Rightarrow>
          if status' = ''running'' then (status', issue (Reload c) m)
          else wait_running c status' rs (issue (Reload c) m))"

definition start_failure :: "manager_error \<Rightarrow> start_error" where
  "start_failure e = (case e of
       Policy p \<Rightarrow> Sandbox_blocked p
     | Unavailable \<Rightarrow> Sandbox_failed e
     | Daemon_error t \<Rightarrow>
         if contains_str ''no such image'' (lower t) \<or> contains_str ''not found'' (lower t)
         then Image_missing else Sandbox_failed e)"

definition insert_session :: "analysis_session \<Rightarrow> shell_state \<Rightarrow> shell_state" where
  "insert_session s st = st\<lparr>sh_sessions := sh_sessions st @ [s]\<rparr>"

text \<open>The id is the hexadecimal text of a new UUID, and \<open>session_id\<close> is a unique column. A refusal
  raises before the commit: the tables stay as they were, but what the teardown of
  the old sessions asked of the daemon has happened.\<close>

definition start_session :: "shell_env \<Rightarrow> time \<Rightarrow> string \<Rightarrow> string \<Rightarrow> string option list \<Rightarrow> shell_state
    \<Rightarrow> (start_error + analysis_session) \<times> shell_state" where
  "start_session env now sid owner reloads st =
     (let cleared = fold (teardown env now) (live_of owner st) st;
          live = length (running_sessions cleared)
      in if sx_max_sessions env \<le> live
         then (Inl (Too_many_sessions live), st\<lparr>sh_manager := sh_manager cleared\<rparr>)
         else case available (sx_daemon env) (sx_installed env) (sh_manager cleared) of (reachable, m) \<Rightarrow>
           if \<not> reachable then (Inl Docker_unreachable, st\<lparr>sh_manager := m\<rparr>)
           else if sid \<in> ss_id ` set (sh_sessions st) then (Inl Duplicate_session, st\<lparr>sh_manager := m\<rparr>)
           else let s = new_shell env now sid owner in
             case run_analysis_container (sx_config env) (sx_daemon env) (sx_installed env) False sid owner m of
               (Inl e, m) \<Rightarrow>
                 (Inl (start_failure e),
                  insert_session (s\<lparr>ss_status := Shell_error\<rparr>) (cleared\<lparr>sh_manager := m\<rparr>))
             | (Inr c, m) \<Rightarrow>
                 (case wait_running c (c_status c) (take WAIT_ROUNDS reloads) m of (status, m) \<Rightarrow>
                    let s = s\<lparr>ss_container := Some (c_name c),
                              ss_status := (if status = ''running'' then Shell_running else Shell_error)\<rparr>
                    in (Inr s, insert_session s (cleared\<lparr>sh_manager := m\<rparr>))))"

section \<open>The reaper\<close>

definition overdue :: "shell_env \<Rightarrow> time \<Rightarrow> analysis_session \<Rightarrow> bool" where
  "overdue env now s \<longleftrightarrow>
     now - ss_activity s > minutes (int (if ss_ttl s = 0 then sx_ttl env else ss_ttl s))
     \<or> now - ss_started s > minutes (int (sx_hard_max env))"

definition reap_stale :: "shell_env \<Rightarrow> time \<Rightarrow> shell_state \<Rightarrow> (nat \<times> nat) \<times> shell_state" where
  "reap_stale env now st =
     (let rows = filter is_live (sh_sessions st); stale = filter (overdue env now) rows
      in ((length stale, length rows - length stale), fold (teardown env now) stale st))"

text \<open>One round of \<open>background_analysis_reaper\<close>. The keys seen are kept per session; a search that
  raises ends the round, the keys of sessions no longer running with it.\<close>

type_synonym seen_keys = "(string \<times> string list) list"

fun poll_all :: "shell_env \<Rightarrow> time \<Rightarrow> analysis_session list \<Rightarrow> seen_keys \<Rightarrow> shell_state
    \<Rightarrow> bool \<times> seen_keys \<times> shell_state" where
  "poll_all env now [] seen st = (True, seen, st)"
| "poll_all env now (s # ss) seen st =
     (let old = (case map_of seen (ss_id s) of None \<Rightarrow> [] | Some ks \<Rightarrow> ks) in
      case poll_connections env now s old st of
        (None, st) \<Rightarrow> (False, AList.update (ss_id s) old seen, st)
      | (Some (_, keys), st) \<Rightarrow> poll_all env now ss (AList.update (ss_id s) keys seen) st)"

definition reaper_round :: "shell_env \<Rightarrow> time \<Rightarrow> seen_keys \<times> shell_state \<Rightarrow> seen_keys \<times> shell_state" where
  "reaper_round env now = (\<lambda>(seen, st).
     let st = snd (reap_stale env now st); running = running_sessions st in
     case poll_all env now running seen st of (finished, seen, st) \<Rightarrow>
       ((if finished then filter (\<lambda>(sid, _). sid \<in> ss_id ` set running) seen else seen), st))"

section \<open>The API\<close>

definition start_reply :: "(start_error + analysis_session) \<Rightarrow> int + analysis_session" where
  "start_reply r = map_sum (\<lambda>e. if e = Duplicate_session then 500 else 503) (\<lambda>s. s) r"

definition my_sessions :: "string \<Rightarrow> shell_state \<Rightarrow> analysis_session list" where
  "my_sessions email st = take 20 (sort_desc ss_started (filter (\<lambda>s. ss_owner s = email) (sh_sessions st)))"

definition recent_events :: "analysis_session \<Rightarrow> shell_state \<Rightarrow> event list" where
  "recent_events s st = take 60 (sort_desc e_timestamp
     (filter (\<lambda>e. e_source_ip e = ss_tag s \<and> e_session_id e = Some (ss_id s)) (sh_events st)))"

text \<open>The handler of \<open>GET /{session_id}\<close>; the conflict it retries is a concurrent commit.\<close>

definition session_detail :: "string \<Rightarrow> string \<Rightarrow> shell_state
    \<Rightarrow> (int + analysis_session \<times> event list) \<times> shell_state" where
  "session_detail sid email st = (case get_session sid (Some email) st of
       None \<Rightarrow> (Inl 404, st)
     | Some s \<Rightarrow>
         let s = link_incident st s in (Inr (s, recent_events s st), put_shell s st))"

definition stop_handler :: "shell_env \<Rightarrow> time \<Rightarrow> string \<Rightarrow> string \<Rightarrow> shell_state \<Rightarrow> (int + string) \<times> shell_state" where
  "stop_handler env now sid email st = (case stop_session env now sid (Some email) st of
       (ok, st) \<Rightarrow> (if ok then Inr ''stopped'' else Inl 404, st))"

section \<open>The terminal\<close>

definition user_from_token :: "identity_env \<Rightarrow> time \<Rightarrow> string \<Rightarrow> identity_db \<Rightarrow> user option" where
  "user_from_token ident now token db =
     (if token = [] then None
      else case jwt_decode ident now token of
        None \<Rightarrow> None
      | Some None \<Rightarrow> None
      | Some (Some email) \<Rightarrow>
          if email = [] then None
          else (case user_by_email ident email db of
              None \<Rightarrow> None
            | Some u \<Rightarrow> if u_status u = Some ''ACTIVE'' then Some u else None))"

datatype terminal = Closed int | Attached container

definition open_pty :: "shell_env \<Rightarrow> identity_env \<Rightarrow> time \<Rightarrow> string \<Rightarrow> string \<Rightarrow> identity_db \<Rightarrow> shell_state
    \<Rightarrow> terminal option \<times> shell_state" where
  "open_pty env ident now sid token db st =
     (case user_from_token ident now token db of
        None \<Rightarrow> (Some (Closed 4401), st)
      | Some u \<Rightarrow> (case get_session sid (Some (u_email u)) st of
          None \<Rightarrow> (Some (Closed 4404), st)
        | Some s \<Rightarrow>
            if ss_status s \<noteq> Shell_running then (Some (Closed 4404), st)
            else (case find_session_container (sx_daemon env) (sx_installed env) False sid (sh_manager st) of
                (Inl _, m) \<Rightarrow> (None, st\<lparr>sh_manager := m\<rparr>)
              | (Inr None, m) \<Rightarrow> (Some (Closed 4404), st\<lparr>sh_manager := m\<rparr>)
              | (Inr (Some c), m) \<Rightarrow> (case attach_shell (sx_daemon env) c ''/bin/bash'' m of
                    (Inl (Policy _), m) \<Rightarrow> (Some (Closed 4403), st\<lparr>sh_manager := m\<rparr>)
                  | (Inl _, m) \<Rightarrow> (None, st\<lparr>sh_manager := m\<rparr>)
                  | (Inr _, m) \<Rightarrow> (Some (Attached c), st\<lparr>sh_manager := m\<rparr>)))))"

text \<open>\<open>str.isprintable\<close> of one character\<close>

definition is_printable :: "char \<Rightarrow> bool" where
  "is_printable c = (let n = of_char c :: nat in (32 \<le> n \<and> n \<le> 126) \<or> (161 \<le> n \<and> n \<noteq> 173))"

text \<open>One keystroke: the line buffer, and the line that Enter hands on.\<close>

definition keystroke :: "char \<Rightarrow> string \<Rightarrow> string \<times> string option" where
  "keystroke c buf =
     (if c = char_of (13::nat) \<or> c = char_of (10::nat) then ([], if strip buf \<noteq> [] then Some buf else None)
      else if c = char_of (127::nat) \<or> c = char_of (8::nat) then (butlast buf, None)
      else if c = char_of (3::nat) then ([], None)
      else if is_printable c then (take_last 4000 (buf @ [c]), None)
      else (buf, None))"

text \<open>\<open>pump_in\<close>: the session is read again for every line.\<close>

fun pump_in :: "shell_env \<Rightarrow> time \<Rightarrow> string \<Rightarrow> string \<Rightarrow> string \<Rightarrow> shell_state \<Rightarrow> string \<times> shell_state" where
  "pump_in env now sid buf [] st = (buf, st)"
| "pump_in env now sid buf (c # cs) st =
     (case keystroke c buf of
        (buf, None) \<Rightarrow> pump_in env now sid buf cs st
      | (buf, Some line) \<Rightarrow> pump_in env now sid buf cs
          (case get_session sid None st of None \<Rightarrow> st | Some s \<Rightarrow> snd (record_command env now s line st)))"


section \<open>The tables stay consistent\<close>

definition sessions_ok :: "nat \<Rightarrow> analysis_session list \<Rightarrow> bool" where
  "sessions_ok most ss \<longleftrightarrow>
     distinct (map ss_id ss) \<and> distinct (map ss_owner (filter is_live ss))
     \<and> length (filter (\<lambda>s. ss_status s = Shell_running) ss) \<le> most
     \<and> list_all (\<lambda>s. ss_seq s = ss_commands s + ss_connections s) ss"

definition events_of :: "string \<Rightarrow> event list \<Rightarrow> event list" where
  "events_of sid es = filter (\<lambda>e. e_session_id e = Some sid) es"

definition numbered :: "shell_env \<Rightarrow> event list \<Rightarrow> string \<Rightarrow> nat \<Rightarrow> bool" where
  "numbered env es sid n \<longleftrightarrow>
     map e_id (events_of sid es)
       = map (\<lambda>(k, e). shell_event_id env sid (k + 1) (case e_command e of None \<Rightarrow> [] | Some c \<Rightarrow> c))
           (enumerate 0 (events_of sid es))
     \<and> length (events_of sid es) = n"

definition events_ok :: "shell_env \<Rightarrow> analysis_session list \<Rightarrow> event list \<Rightarrow> bool" where
  "events_ok env ss es \<longleftrightarrow>
     list_all (\<lambda>s. numbered env es (ss_id s) (ss_seq s)) ss
     \<and> list_all (\<lambda>e. e_session_id e \<in> (Some \<circ> ss_id) ` set ss) es"

definition shell_ok :: "shell_env \<Rightarrow> shell_state \<Rightarrow> bool" where
  "shell_ok env st \<longleftrightarrow>
     sessions_ok (sx_max_sessions env) (sh_sessions st)
     \<and> events_ok env (sh_sessions st) (sh_events st)
     \<and> map rr_id (sh_raw st) = map e_id (sh_events st)
     \<and> calls_ok (sx_config env) (sh_manager st)"

text \<open>Writing one row back.\<close>

definition put_in :: "analysis_session \<Rightarrow> analysis_session list \<Rightarrow> analysis_session list" where
  "put_in s ss = map (\<lambda>t. if ss_id t = ss_id s then s else t) ss"

lemma sessions_put [simp]: "sh_sessions (put_shell s st) = put_in s (sh_sessions st)"
  by (simp add: put_shell_def put_in_def)

lemma put_frame [simp]:
  "sh_events (put_shell s st) = sh_events st" "sh_raw (put_shell s st) = sh_raw st"
  "sh_manager (put_shell s st) = sh_manager st" "sh_incidents (put_shell s st) = sh_incidents st"
  by (simp_all add: put_shell_def)

lemma ids_put_in [simp]: "map ss_id (put_in s ss) = map ss_id ss"
  by (simp add: put_in_def)

lemma put_in_other: "ss_id s \<notin> ss_id ` set ss \<Longrightarrow> put_in s ss = ss"
  unfolding put_in_def by (rule map_idI) (metis imageI)

lemma put_in_split:
  assumes "distinct (map ss_id (xs @ t # ys))" "ss_id s = ss_id t"
  shows "put_in s (xs @ t # ys) = xs @ s # ys"
proof -
  have "ss_id s \<notin> ss_id ` set xs" "ss_id s \<notin> ss_id ` set ys" using assms by auto
  from this[THEN put_in_other] show ?thesis using assms(2) by (simp add: put_in_def)
qed

lemma sessions_ok_put:
  assumes ok: "sessions_ok most ss" and t: "t \<in> set ss" and same: "ss_id s = ss_id t" "ss_owner s = ss_owner t"
    and live: "is_live s \<Longrightarrow> is_live t" and running: "ss_status s = Shell_running \<Longrightarrow> ss_status t = Shell_running"
    and seq: "ss_seq s = ss_commands s + ss_connections s"
  shows "sessions_ok most (put_in s ss)"
proof -
  obtain xs ys where ss: "ss = xs @ t # ys" using t by (meson split_list)
  have put: "put_in s ss = xs @ s # ys"
    using put_in_split[of xs t ys s] ok same by (simp add: ss sessions_ok_def)
  have "distinct (map ss_owner (filter is_live (xs @ s # ys)))"
    using ok live same(2) unfolding sessions_ok_def ss by (cases "is_live s"; cases "is_live t") simp_all
  moreover have "length (filter (\<lambda>s. ss_status s = Shell_running) (xs @ s # ys)) \<le> most"
    using ok running unfolding sessions_ok_def ss
    by (cases "ss_status s = Shell_running"; cases "ss_status t = Shell_running") simp_all
  moreover have "distinct (map ss_id (xs @ s # ys))" using ok same(1) unfolding sessions_ok_def ss by simp
  moreover have "list_all (\<lambda>s. ss_seq s = ss_commands s + ss_connections s) (xs @ s # ys)"
    using ok seq unfolding sessions_ok_def ss by simp
  ultimately show ?thesis unfolding put sessions_ok_def by blast
qed

text \<open>Appending an event of the session \<open>s\<close>.\<close>

lemma events_of_snoc: "events_of sid (es @ [e]) = events_of sid es @ (if e_session_id e = Some sid then [e] else [])"
  by (simp add: events_of_def)

lemma numbered_snoc:
  assumes "numbered env es sid n" "e_session_id e = Some sid" "e_command e = Some cmd"
    "e_id e = shell_event_id env sid (n + 1) cmd"
  shows "numbered env (es @ [e]) sid (n + 1)"
  using assms by (simp add: numbered_def events_of_snoc enumerate_append_eq)

lemma numbered_other: "e_session_id e \<noteq> Some sid \<Longrightarrow> numbered env (es @ [e]) sid n = numbered env es sid n"
  by (simp add: numbered_def events_of_snoc)

text \<open>A session that has been changed but not written back: its events are numbered by the
  changed row, and the rest of the tables is consistent.\<close>

definition pending :: "shell_env \<Rightarrow> analysis_session \<Rightarrow> shell_state \<Rightarrow> bool" where
  "pending env s st \<longleftrightarrow>
     sessions_ok (sx_max_sessions env) (sh_sessions st)
     \<and> (\<exists>t \<in> set (sh_sessions st). ss_id t = ss_id s \<and> ss_owner t = ss_owner s \<and> ss_status t = ss_status s)
     \<and> events_ok env (put_in s (sh_sessions st)) (sh_events st)
     \<and> map rr_id (sh_raw st) = map e_id (sh_events st)
     \<and> calls_ok (sx_config env) (sh_manager st)"

lemma put_in_same: "s \<in> set ss \<Longrightarrow> distinct (map ss_id ss) \<Longrightarrow> put_in s ss = ss"
  by (metis put_in_split split_list)

lemma put_in_again: "ss_id s = ss_id t \<Longrightarrow> put_in s (put_in t ss) = put_in s ss"
  by (auto simp: put_in_def)

lemma pending_start:
  assumes "shell_ok env st" "s \<in> set (sh_sessions st)" shows "pending env s st"
  using assms put_in_same[of s "sh_sessions st"] by (auto simp: pending_def shell_ok_def sessions_ok_def)

lemma events_ok_keys:
  "events_ok env ss es \<longleftrightarrow>
     list_all (\<lambda>(i, n). numbered env es i n) (map (\<lambda>s. (ss_id s, ss_seq s)) ss)
     \<and> list_all (\<lambda>e. e_session_id e \<in> Some ` fst ` set (map (\<lambda>s. (ss_id s, ss_seq s)) ss)) es"
  by (simp add: events_ok_def list_all_iff image_image)

lemma events_ok_put_cong:
  assumes "ss_id s' = ss_id s" "ss_seq s' = ss_seq s"
  shows "events_ok env (put_in s' ss) es = events_ok env (put_in s ss) es"
proof -
  have "map (\<lambda>s. (ss_id s, ss_seq s)) (put_in s' ss) = map (\<lambda>s. (ss_id s, ss_seq s)) (put_in s ss)"
    using assms by (simp add: put_in_def)
  then show ?thesis by (simp only: events_ok_keys)
qed

lemma pending_finish:
  assumes "pending env s st" "ss_seq s = ss_commands s + ss_connections s"
  shows "shell_ok env (put_shell s st)"
proof -
  obtain t where t: "t \<in> set (sh_sessions st)" "ss_id t = ss_id s" "ss_owner t = ss_owner s" "ss_status t = ss_status s"
    using assms(1) by (auto simp: pending_def)
  then have "is_live s \<Longrightarrow> is_live t" by (simp add: is_live_def)
  with t have "sessions_ok (sx_max_sessions env) (put_in s (sh_sessions st))"
    using assms by (intro sessions_ok_put[of _ _ t]) (auto simp: pending_def)
  then show ?thesis using assms(1) by (simp add: shell_ok_def pending_def)
qed

lemma pending_update:
  assumes "pending env s st" "ss_id s' = ss_id s" "ss_owner s' = ss_owner s" "ss_status s' = ss_status s"
    "ss_seq s' = ss_seq s"
  shows "pending env s' st"
  using assms events_ok_put_cong[OF assms(2,5)] unfolding pending_def by simp

lemma pending_emit:
  assumes "pending env s st" "emit_event env now etype cmd peer (s, st) = (s', st')"
  shows "pending env s' st'"
proof -
  let ?e = "shell_event env now etype cmd peer s'"
  have s': "s' = s\<lparr>ss_seq := ss_seq s + 1\<rparr>"
    and st': "sh_events st' = sh_events st @ [?e]" "sh_raw st' = sh_raw st @ [shell_raw ?e etype cmd]"
      "sh_sessions st' = sh_sessions st" "sh_manager st' = sh_manager st"
    using assms(2) by (auto simp: emit_event_def Let_def)
  obtain t where t: "t \<in> set (sh_sessions st)" "ss_id t = ss_id s" using assms(1) by (auto simp: pending_def)
  have e: "e_session_id ?e = Some (ss_id s)" "e_command ?e = Some cmd"
    "e_id ?e = shell_event_id env (ss_id s) (ss_seq s + 1) cmd"
    by (simp_all add: shell_event_def s')
  have events: "events_ok env (put_in s (sh_sessions st)) (sh_events st)" using assms(1) by (simp add: pending_def)
  have in_put: "s \<in> set (put_in s (sh_sessions st))" using t by (force simp: put_in_def)
  have "list_all (\<lambda>u. numbered env (sh_events st @ [?e]) (ss_id u) (ss_seq u)) (put_in s' (sh_sessions st))"
    unfolding list_all_iff
  proof
    fix u assume u: "u \<in> set (put_in s' (sh_sessions st))"
    show "numbered env (sh_events st @ [?e]) (ss_id u) (ss_seq u)"
    proof (cases "ss_id u = ss_id s")
      case True
      with u have "u = s'" by (auto simp: put_in_def s' split: if_splits)
      moreover have "numbered env (sh_events st) (ss_id s) (ss_seq s)"
        using events in_put by (simp add: events_ok_def list_all_iff)
      ultimately show ?thesis using numbered_snoc[OF _ e] by (simp add: s')
    next
      case False
      with u have "u \<in> set (put_in s (sh_sessions st))" by (auto simp: put_in_def s')
      with events have "numbered env (sh_events st) (ss_id u) (ss_seq u)" by (simp add: events_ok_def list_all_iff)
      with False show ?thesis using e(1) by (simp add: numbered_other)
    qed
  qed
  moreover have ids: "ss_id ` set (put_in u (sh_sessions st)) = ss_id ` set (sh_sessions st)" for u
    by (simp flip: set_map)
  have "list_all (\<lambda>e. e_session_id e \<in> Some ` ss_id ` set (sh_sessions st)) (sh_events st)"
    using events unfolding events_ok_def image_comp [symmetric] ids by simp
  moreover have "ss_id s \<in> ss_id ` set (sh_sessions st)" using t by (metis imageI)
  ultimately have "events_ok env (put_in s' (sh_sessions st)) (sh_events st @ [?e])"
    unfolding events_ok_def image_comp [symmetric] ids by (simp add: e(1))
  then show ?thesis using assms(1) by (simp add: pending_def st' s' shell_raw_def)
qed

text \<open>Removing a sandbox, and ending sessions.\<close>

lemma remove_sandbox_ok: "calls_ok cfg m \<Longrightarrow> calls_ok cfg (remove_sandbox env sid m)"
  using finders_ok(3)[of cfg m "sx_daemon env" "sx_installed env" False sid]
  by (auto simp: remove_sandbox_def stop_ok split: prod.splits sum.splits option.splits)

lemma teardown_frame [simp]:
  "sh_events (teardown env now s st) = sh_events st" "sh_raw (teardown env now s st) = sh_raw st"
  "sh_incidents (teardown env now s st) = sh_incidents st" "sh_bus (teardown env now s st) = sh_bus st"
  by (simp_all add: teardown_def put_shell_def)

definition ended :: "time \<Rightarrow> analysis_session \<Rightarrow> analysis_session" where
  "ended now s = s\<lparr>ss_status := Shell_stopped, ss_stopped := Some now\<rparr>"

lemma ended_simps [simp]:
  "ss_id (ended now s) = ss_id s" "ss_owner (ended now s) = ss_owner s" "\<not> is_live (ended now s)"
  "ss_status (ended now s) = Shell_stopped" "ss_seq (ended now s) = ss_seq s"
  "ss_commands (ended now s) = ss_commands s" "ss_connections (ended now s) = ss_connections s"
  by (simp_all add: ended_def is_live_def)

lemma sessions_teardown: "sh_sessions (teardown env now s st) = put_in (ended now s) (sh_sessions st)"
  by (simp add: teardown_def ended_def)

lemma teardown_ok:
  assumes "shell_ok env st" "s \<in> set (sh_sessions st)" shows "shell_ok env (teardown env now s st)"
proof -
  let ?ss = "sh_sessions st"
  have ok: "sessions_ok (sx_max_sessions env) ?ss" and ids: "distinct (map ss_id ?ss)"
    using assms(1) by (simp_all add: shell_ok_def sessions_ok_def)
  have "ss_seq s = ss_commands s + ss_connections s"
    using ok assms(2) by (simp add: sessions_ok_def list_all_iff)
  then have "sessions_ok (sx_max_sessions env) (put_in (ended now s) ?ss)"
    using ok assms(2) by (intro sessions_ok_put[of _ _ s]) simp_all
  moreover have "events_ok env (put_in (ended now s) ?ss) (sh_events st)"
    using events_ok_put_cong[of "ended now s" s env ?ss] put_in_same[OF assms(2) ids] assms(1)
    by (simp add: shell_ok_def)
  ultimately show ?thesis
    using assms(1) remove_sandbox_ok[of "sx_config env"]
    by (simp add: shell_ok_def sessions_teardown) (simp add: teardown_def)
qed

lemma teardown_others:
  assumes "distinct (map ss_id ss)" "s \<in> set ss"
  shows "set (put_in (ended now s) ss) = insert (ended now s) (set ss - {s})"
proof -
  obtain xs ys where ss: "ss = xs @ s # ys" using assms(2) by (meson split_list)
  have "put_in (ended now s) ss = xs @ ended now s # ys"
    using put_in_split[of xs s ys "ended now s"] assms(1) ss by simp
  moreover have "s \<notin> set xs" "s \<notin> set ys" using assms(1) ss by (auto simp: image_iff)
  ultimately show ?thesis using ss by auto
qed

lemma fold_teardown:
  assumes "shell_ok env st" "set rows \<subseteq> set (sh_sessions st)" "distinct rows"
  shows "shell_ok env (fold (teardown env now) rows st)
     \<and> sh_sessions (fold (teardown env now) rows st)
         = map (\<lambda>s. if s \<in> set rows then ended now s else s) (sh_sessions st)"
  using assms
proof (induction rows arbitrary: st)
  case (Cons r rows)
  let ?st = "teardown env now r st" and ?ss = "sh_sessions st"
  have ids: "distinct (map ss_id ?ss)" using Cons.prems(1) by (simp add: shell_ok_def sessions_ok_def)
  have r: "r \<in> set ?ss" using Cons.prems(2) by simp
  have ok: "shell_ok env ?st" using Cons.prems(1) r by (rule teardown_ok)
  have "set rows \<subseteq> set (sh_sessions ?st)"
    using Cons.prems(2,3) teardown_others[OF ids r] by (auto simp: sessions_teardown)
  from Cons.IH[OF ok this] Cons.prems(3)
  have "shell_ok env (fold (teardown env now) rows ?st)"
    and step: "sh_sessions (fold (teardown env now) rows ?st)
      = map (\<lambda>s. if s \<in> set rows then ended now s else s) (put_in (ended now r) ?ss)"
    by (simp_all add: sessions_teardown)
  have eq: "u = v" if "u \<in> set ?ss" "v \<in> set ?ss" "ss_id u = ss_id v" for u v
    using ids that by (simp add: distinct_map inj_on_def)
  have once: "(if u \<in> set rows then ended now u else u) = ended now r"
    if "u = ended now r" for u
    using that eq[of u r] Cons.prems r by (cases "u \<in> set rows") (auto simp: ended_def)
  have "(\<lambda>s. if s \<in> set rows then ended now s else s) (if ss_id s = ss_id r then ended now r else s)
      = (if s \<in> set (r # rows) then ended now s else s)" if "s \<in> set ?ss" for s
    using eq[OF that r] once[OF refl] by auto
  then have "map (\<lambda>s. if s \<in> set rows then ended now s else s) (put_in (ended now r) ?ss)
      = map (\<lambda>s. if s \<in> set (r # rows) then ended now s else s) ?ss"
    by (simp add: put_in_def)
  with step show ?case using \<open>shell_ok env (fold (teardown env now) rows ?st)\<close> by simp
qed simp

lemma live_distinct: "shell_ok env st \<Longrightarrow> distinct (filter P (sh_sessions st))"
  by (simp add: shell_ok_def sessions_ok_def distinct_map)

lemma shell_ok_manager:
  "shell_ok env st \<Longrightarrow> calls_ok (sx_config env) m \<Longrightarrow> shell_ok env (st\<lparr>sh_manager := m\<rparr>)"
  by (simp add: shell_ok_def)

lemma shell_ok_calls: "shell_ok env st \<Longrightarrow> calls_ok (sx_config env) (sh_manager st)"
  by (simp add: shell_ok_def)

lemma wait_running_ok: "calls_ok cfg m \<Longrightarrow> calls_ok cfg (snd (wait_running c status rs m))"
  by (induction c status rs m rule: wait_running.induct) (auto split: option.splits)

lemma get_session_in: "get_session sid owner st = Some s \<Longrightarrow> s \<in> set (sh_sessions st) \<and> ss_id s = sid"
  unfolding get_session_def find_Some_iff by auto

text \<open>A new row with a fresh id for an owner without a live session.\<close>

lemma events_ok_fresh:
  assumes "events_ok env ss es" "ss_id s \<notin> ss_id ` set ss" "ss_seq s = 0"
  shows "events_ok env (ss @ [s]) es"
proof -
  have "e_session_id e \<noteq> Some (ss_id s)" if "e \<in> set es" for e
  proof
    assume e: "e_session_id e = Some (ss_id s)"
    have "e_session_id e \<in> (Some \<circ> ss_id) ` set ss" using assms(1) that by (simp add: events_ok_def list_all_iff)
    with e assms(2) show False by auto
  qed
  then have "events_of (ss_id s) es = []" by (simp add: events_of_def filter_empty_conv)
  then have "numbered env es (ss_id s) 0" by (simp add: numbered_def)
  with assms(1,3) show ?thesis by (auto simp: events_ok_def list_all_iff)
qed

lemma insert_session_ok:
  assumes ok: "shell_ok env st" and fresh: "ss_id s \<notin> ss_id ` set (sh_sessions st)"
    and none: "live_of (ss_owner s) st = []" and room: "length (running_sessions st) < sx_max_sessions env"
    and new: "ss_seq s = 0" "ss_commands s = 0" "ss_connections s = 0"
  shows "shell_ok env (insert_session s st)"
proof -
  have "ss_owner s \<notin> ss_owner ` set (filter is_live (sh_sessions st))"
    using none by (auto simp: live_of_def filter_empty_conv)
  then have "sessions_ok (sx_max_sessions env) (sh_sessions st @ [s])"
    using ok fresh room new by (auto simp: shell_ok_def sessions_ok_def running_sessions_def)
  then show ?thesis
    using ok events_ok_fresh[OF _ fresh new(1)] by (simp add: shell_ok_def insert_session_def)
qed

lemma record_command_ok:
  assumes "shell_ok env st" "s \<in> set (sh_sessions st)"
  shows "shell_ok env (snd (record_command env now s raw st))"
proof (cases "clean_command raw \<in> set IGNORED_COMMANDS")
  case False
  obtain s' st' where emit: "emit_event env now ''shell.command.input'' (clean_command raw) None (s, st) = (s', st')"
    by (metis surj_pair)
  let ?s = "s'\<lparr>ss_commands := ss_commands s' + 1, ss_activity := now\<rparr>"
  have seq: "ss_seq s = ss_commands s + ss_connections s"
    using assms by (simp add: shell_ok_def sessions_ok_def list_all_iff)
  have s': "s' = s\<lparr>ss_seq := ss_seq s + 1\<rparr>" using emit by (auto simp: emit_event_def Let_def)
  have "pending env s' st'" using pending_emit[OF pending_start[OF assms] emit] .
  then have "pending env (link_incident st' ?s) st'"
    by (rule pending_update) (simp_all add: link_incident_def split: option.splits)
  then have "shell_ok env (put_shell (link_incident st' ?s) st')"
    by (rule pending_finish) (simp add: link_incident_def s' seq split: option.splits)
  with False emit show ?thesis by (simp add: record_command_def Let_def)
qed (simp add: record_command_def assms(1))

lemma fold_emit_connection:
  assumes "pending env s st" "ss_seq s = ss_commands s + ss_connections s"
    "fold (emit_connection env now) ps (s, st) = (s', st')"
  shows "pending env s' st' \<and> ss_seq s' = ss_commands s' + ss_connections s'"
  using assms
proof (induction ps arbitrary: s st)
  case (Cons p ps)
  obtain u su where emit: "emit_event env now ''shell.connection.attempt'' (connection_command p) (Some p) (s, st) = (u, su)"
    by (metis surj_pair)
  let ?u = "u\<lparr>ss_connections := ss_connections u + 1, ss_activity := now\<rparr>"
  have u: "u = s\<lparr>ss_seq := ss_seq s + 1\<rparr>" using emit by (auto simp: emit_event_def Let_def)
  have "pending env ?u su" by (rule pending_update[OF pending_emit[OF Cons.prems(1) emit]]) simp_all
  moreover have "ss_seq ?u = ss_commands ?u + ss_connections ?u" using Cons.prems(2) by (simp add: u)
  moreover have "fold (emit_connection env now) ps (?u, su) = (s', st')"
    using Cons.prems(3) emit by (simp add: emit_connection_def [of env now p])
  ultimately show ?case by (rule Cons.IH)
qed simp

lemma list_peers_ok:
  assumes "calls_ok cfg m" "list_peers env seen sid m = (r, m')" shows "calls_ok cfg m'"
proof -
  obtain found m1 where f: "find_session_container (sx_daemon env) (sx_installed env) False sid m = (found, m1)"
    by (metis surj_pair)
  have m1: "calls_ok cfg m1" using finders_ok(3)[OF assms(1), of "sx_daemon env" "sx_installed env" False sid] f by simp
  show ?thesis
    using assms(2) m1 exec_ok[OF m1]
    by (auto simp: list_peers_def f split: sum.splits option.splits prod.splits) (metis snd_conv)+
qed

lemma poll_ok:
  assumes "shell_ok env st" "s \<in> set (sh_sessions st)"
  shows "shell_ok env (snd (poll_connections env now s seen st))"
proof -
  obtain r m where l: "list_peers env seen (ss_id s) (sh_manager st) = (r, m)" by (metis surj_pair)
  let ?st = "st\<lparr>sh_manager := m\<rparr>"
  have ok: "shell_ok env ?st"
    using shell_ok_manager[OF assms(1) list_peers_ok[OF shell_ok_calls[OF assms(1)] l]] .
  show ?thesis
  proof (cases r)
    case (Some pr)
    obtain ps keys where pr: "pr = (ps, keys)" by (metis surj_pair)
    obtain s' st' where f: "fold (emit_connection env now) ps (s, ?st) = (s', st')" by (metis surj_pair)
    have "ss_seq s = ss_commands s + ss_connections s"
      using assms by (simp add: shell_ok_def sessions_ok_def list_all_iff)
    from fold_emit_connection[OF pending_start[OF ok] this f] assms(2)
    have p: "pending env s' st'" "ss_seq s' = ss_commands s' + ss_connections s'" by simp_all
    have "pending env (link_incident st' s') st'"
      by (rule pending_update[OF p(1)]) (simp_all add: link_incident_def split: option.splits)
    then have "shell_ok env (put_shell (link_incident st' s') st')"
      by (rule pending_finish) (simp add: link_incident_def p(2) split: option.splits)
    then show ?thesis using ok f by (simp add: poll_connections_def l Some pr)
  qed (use ok in \<open>simp add: poll_connections_def l\<close>)
qed

lemma start_session_ok:
  assumes ok: "shell_ok env st" shows "shell_ok env (snd (start_session env now sid owner reloads st))"
proof -
  define cleared where "cleared = fold (teardown env now) (live_of owner st) st"
  have sub: "set (live_of owner st) \<subseteq> set (sh_sessions st)" by (auto simp: live_of_def)
  have dist: "distinct (live_of owner st)" using live_distinct[OF ok] by (simp add: live_of_def)
  have cl: "shell_ok env cleared"
    and ss: "sh_sessions cleared = map (\<lambda>s. if s \<in> set (live_of owner st) then ended now s else s) (sh_sessions st)"
    using fold_teardown[OF ok sub dist, of now] by (simp_all add: cleared_def)
  have "\<not> (ss_owner s = owner \<and> is_live s)" if "s \<in> set (sh_sessions cleared)" for s
  proof -
    from that obtain t where t: "t \<in> set (sh_sessions st)" "s = (if t \<in> set (live_of owner st) then ended now t else t)"
      unfolding ss set_map by blast
    show ?thesis
    proof (cases "t \<in> set (live_of owner st)")
      case False
      with t show ?thesis by (simp add: live_of_def)
    qed (simp add: t(2))
  qed
  then have none: "live_of owner cleared = []" by (simp add: live_of_def [of owner cleared] filter_empty_conv)
  have ids: "ss_id ` set (sh_sessions cleared) = ss_id ` set (sh_sessions st)"
  proof -
    have "map ss_id (sh_sessions cleared) = map ss_id (sh_sessions st)" by (simp add: ss)
    then show ?thesis by (metis set_map)
  qed
  obtain reach m where a: "available (sx_daemon env) (sx_installed env) (sh_manager cleared) = (reach, m)" by (metis surj_pair)
  have m: "calls_ok (sx_config env) m"
    using a get_client_ok[OF shell_ok_calls[OF cl], of "sx_daemon env" "sx_installed env"]
    by (auto simp: available_def split: prod.splits)
  obtain r m' where run: "run_analysis_container (sx_config env) (sx_daemon env) (sx_installed env) False sid owner m = (r, m')"
    by (metis surj_pair)
  have m': "calls_ok (sx_config env) m'"
    using run_analysis_ok[OF m, of "sx_daemon env" "sx_installed env" False sid owner] run by simp
  have insert: "shell_ok env (insert_session s (cleared\<lparr>sh_manager := n\<rparr>))"
    if "calls_ok (sx_config env) n" "sid \<notin> ss_id ` set (sh_sessions st)" "ss_id s = sid" "ss_owner s = owner"
      "\<not> sx_max_sessions env \<le> length (running_sessions cleared)"
      "ss_seq s = 0" "ss_commands s = 0" "ss_connections s = 0" for s n
  proof -
    have fresh: "ss_id s \<notin> ss_id ` set (sh_sessions cleared)" unfolding ids that(3) by (rule that(2))
    have "live_of (ss_owner s) (cleared\<lparr>sh_manager := n\<rparr>) = []"
      using none unfolding that(4) by (simp add: live_of_def)
    moreover have "length (running_sessions (cleared\<lparr>sh_manager := n\<rparr>)) < sx_max_sessions env"
      using that(5) by (simp add: running_sessions_def)
    ultimately show ?thesis
      using insert_session_ok[OF shell_ok_manager[OF cl that(1)]] fresh that(6-8) by simp
  qed
  show ?thesis
  proof (cases "sx_max_sessions env \<le> length (running_sessions cleared) \<or> \<not> reach \<or> sid \<in> ss_id ` set (sh_sessions st)")
    case True
    then show ?thesis
      using shell_ok_manager[OF ok m] shell_ok_manager[OF ok shell_ok_calls[OF cl]] a
      by (auto simp: start_session_def Let_def cleared_def [symmetric])
  next
    case False
    show ?thesis
    proof (cases r)
      case (Inl e)
      show ?thesis
        using False a run insert[OF m', of "(new_shell env now sid owner)\<lparr>ss_status := Shell_error\<rparr>"]
        by (simp add: start_session_def Let_def cleared_def [symmetric] Inl new_shell_def)
    next
      case (Inr c)
      obtain status n where w: "wait_running c (c_status c) (take WAIT_ROUNDS reloads) m' = (status, n)" by (metis surj_pair)
      have "calls_ok (sx_config env) n" using wait_running_ok[OF m', of c "c_status c" "take WAIT_ROUNDS reloads"] w by simp
      then show ?thesis
        using False a run insert[of n "(new_shell env now sid owner)\<lparr>ss_container := Some (c_name c),
            ss_status := (if status = ''running'' then Shell_running else Shell_error)\<rparr>"]
        by (simp add: start_session_def Let_def cleared_def [symmetric] Inr w new_shell_def del: if_image_distrib)
    qed
  qed
qed

lemma stop_session_ok: "shell_ok env st \<Longrightarrow> shell_ok env (snd (stop_session env now sid owner st))"
  by (auto simp: stop_session_def split: option.splits dest: get_session_in intro: teardown_ok)

lemma reap_ok: "shell_ok env st \<Longrightarrow> shell_ok env (snd (reap_stale env now st))"
  using fold_teardown[of env st "filter (overdue env now) (filter is_live (sh_sessions st))" now]
    live_distinct[of env st "\<lambda>s. overdue env now s \<and> is_live s"]
  by (simp add: reap_stale_def Let_def conj_commute)

lemma session_detail_ok:
  assumes "shell_ok env st" shows "shell_ok env (snd (session_detail sid email st))"
proof (cases "get_session sid (Some email) st")
  case (Some s)
  then have s: "s \<in> set (sh_sessions st)" by (simp add: get_session_in)
  have "pending env (link_incident st s) st"
    by (rule pending_update[OF pending_start[OF assms s]]) (simp_all add: link_incident_def split: option.splits)
  moreover have "ss_seq s = ss_commands s + ss_connections s"
    using assms s by (simp add: shell_ok_def sessions_ok_def list_all_iff)
  ultimately have "shell_ok env (put_shell (link_incident st s) st)"
    by (intro pending_finish) (simp_all add: link_incident_def split: option.splits)
  with Some show ?thesis by (simp add: session_detail_def Let_def)
qed (simp add: session_detail_def assms)

lemma open_pty_ok:
  assumes "shell_ok env st" shows "shell_ok env (snd (open_pty env ident now sid token db st))"
proof -
  obtain found m where f: "find_session_container (sx_daemon env) (sx_installed env) False sid (sh_manager st) = (found, m)"
    by (metis surj_pair)
  have m: "calls_ok (sx_config env) m"
    using finders_ok(3)[OF shell_ok_calls[OF assms], of "sx_daemon env" "sx_installed env" False sid] f by simp
  have "shell_ok env (st\<lparr>sh_manager := snd (attach_shell (sx_daemon env) c t m)\<rparr>)" for c t
    using shell_ok_manager[OF assms exec_ok[OF m]] by (simp add: attach_shell_def)
  then show ?thesis
    using assms shell_ok_manager[OF assms m]
    by (auto simp: open_pty_def f split: option.splits sum.splits prod.splits manager_error.splits) (metis snd_conv)+
qed

lemma pump_in_ok: "shell_ok env st \<Longrightarrow> shell_ok env (snd (pump_in env now sid buf keys st))"
proof (induction env now sid buf keys st rule: pump_in.induct)
  case (2 env now sid buf c cs st)
  obtain buf' line where k: "keystroke c buf = (buf', line)" by (metis surj_pair)
  show ?case
  proof (cases line)
    case None
    with 2 k show ?thesis by simp
  next
    case (Some l)
    have "shell_ok env (case get_session sid None st of None \<Rightarrow> st | Some s \<Rightarrow> snd (record_command env now s l st))"
      using 2(3) record_command_ok get_session_in by (auto split: option.splits)
    with 2(2)[OF k[symmetric] Some] k Some show ?thesis by simp
  qed
qed simp

text \<open>A poll writes back only the session it polled.\<close>

lemma emit_connection_sessions:
  "sh_sessions (snd (fold (emit_connection env now) ps (s, st))) = sh_sessions st
   \<and> ss_id (fst (fold (emit_connection env now) ps (s, st))) = ss_id s"
  by (induction ps arbitrary: s st) (simp_all add: emit_connection_def emit_event_def Let_def split: prod.splits)

lemma poll_sessions:
  "\<exists>u. sh_sessions (snd (poll_connections env now s seen st)) \<in> {sh_sessions st, put_in u (sh_sessions st)} \<and> ss_id u = ss_id s"
proof -
  obtain r m where l: "list_peers env seen (ss_id s) (sh_manager st) = (r, m)" by (metis surj_pair)
  show ?thesis
  proof (cases r)
    case (Some pr)
    obtain ps keys where pr: "pr = (ps, keys)" by (metis surj_pair)
    obtain s' st' where f: "fold (emit_connection env now) ps (s, st\<lparr>sh_manager := m\<rparr>) = (s', st')" by (metis surj_pair)
    have "sh_sessions st' = sh_sessions st" "ss_id (link_incident st' s') = ss_id s"
      using emit_connection_sessions[of env now ps s "st\<lparr>sh_manager := m\<rparr>"] f
      by (simp_all add: link_incident_def split: option.splits)
    then show ?thesis by (auto simp: poll_connections_def l Some pr f)
  qed (auto simp: poll_connections_def l)
qed

lemma poll_all_ok:
  assumes "shell_ok env st" "set ss \<subseteq> set (sh_sessions st)" "distinct (map ss_id ss)"
  shows "shell_ok env (snd (snd (poll_all env now ss seen st)))"
  using assms
proof (induction ss arbitrary: seen st)
  case (Cons s ss)
  define old where "old = (case map_of seen (ss_id s) of None \<Rightarrow> [] | Some ks \<Rightarrow> ks)"
  obtain r st' where p: "poll_connections env now s old st = (r, st')" by (metis surj_pair)
  have ok: "shell_ok env st'" using poll_ok[OF Cons.prems(1), of s now old] Cons.prems(2) p by simp
  obtain u where u: "sh_sessions st' \<in> {sh_sessions st, put_in u (sh_sessions st)}" "ss_id u = ss_id s"
    using poll_sessions[of env now s old st] p by auto
  have "t \<in> set (put_in u (sh_sessions st))" if "t \<in> set ss" for t
  proof -
    have "ss_id t \<noteq> ss_id u" using that Cons.prems(3) u(2) by (auto simp: image_iff)
    moreover have "t \<in> set (sh_sessions st)" using that Cons.prems(2) by auto
    ultimately show ?thesis by (force simp: put_in_def)
  qed
  then have "set ss \<subseteq> set (sh_sessions st')" using u(1) Cons.prems(2) by auto
  then have "shell_ok env (snd (snd (poll_all env now ss seen' st')))" for seen'
    using Cons.IH[OF ok] Cons.prems(3) by simp
  then show ?case using ok p by (auto simp: old_def [symmetric] Let_def split: option.splits prod.splits)
qed simp

lemma reaper_round_ok:
  assumes "shell_ok env st" shows "shell_ok env (snd (reaper_round env now (seen, st)))"
proof -
  let ?st = "snd (reap_stale env now st)"
  have ok: "shell_ok env ?st" using assms by (rule reap_ok)
  then have "distinct (map ss_id (running_sessions ?st))"
    by (simp add: running_sessions_def shell_ok_def sessions_ok_def distinct_map_filter)
  then have "shell_ok env (snd (snd (poll_all env now (running_sessions ?st) seen ?st)))"
    using ok by (intro poll_all_ok) (auto simp: running_sessions_def)
  then show ?thesis by (auto simp: reaper_round_def Let_def split: prod.splits)
qed

text \<open>Everything that happens to the tables, with the time it happens: the API, a terminal's
  input, the reaper, and the detection engine opening an incident.\<close>

datatype shell_op =
    Start_shell string string "string option list"
  | Stop_shell string string
  | Show_session string string
  | Open_terminal string string identity_db
  | Terminal_input string string string
  | Reaper_round
  | Incident_opened incident

fun shell_step :: "shell_env \<Rightarrow> identity_env \<Rightarrow> seen_keys \<times> shell_state \<Rightarrow> time \<times> shell_op \<Rightarrow> seen_keys \<times> shell_state" where
  "shell_step env ident (seen, st) (now, Start_shell sid owner reloads) = (seen, snd (start_session env now sid owner reloads st))"
| "shell_step env ident (seen, st) (now, Stop_shell sid email) = (seen, snd (stop_handler env now sid email st))"
| "shell_step env ident (seen, st) (now, Show_session sid email) = (seen, snd (session_detail sid email st))"
| "shell_step env ident (seen, st) (now, Open_terminal sid token db) = (seen, snd (open_pty env ident now sid token db st))"
| "shell_step env ident (seen, st) (now, Terminal_input sid buf keys) = (seen, snd (pump_in env now sid buf keys st))"
| "shell_step env ident (seen, st) (now, Reaper_round) = reaper_round env now (seen, st)"
| "shell_step env ident (seen, st) (now, Incident_opened inc) = (seen, st\<lparr>sh_incidents := sh_incidents st @ [inc]\<rparr>)"

lemma stop_handler_ok: "shell_ok env st \<Longrightarrow> shell_ok env (snd (stop_handler env now sid email st))"
  using stop_session_ok[of env st now sid "Some email"]
  by (cases "stop_session env now sid (Some email) st") (simp add: stop_handler_def)

lemma incident_opened_ok: "shell_ok env st \<Longrightarrow> shell_ok env (st\<lparr>sh_incidents := incs\<rparr>)"
  by (simp add: shell_ok_def)

interpretation analysis_lab: event_machine "shell_step env ident" "\<lambda>w. shell_ok env (snd w)"
proof unfold_locales
  fix w :: "seen_keys \<times> shell_state" and oper :: "time \<times> shell_op" assume ok: "shell_ok env (snd w)"
  obtain seen st now act where w: "w = (seen, st)" and oper: "oper = (now, act)" by (metis surj_pair)
  show "shell_ok env (snd (shell_step env ident w oper))"
    using ok w oper
    by (cases act) (simp_all add: start_session_ok stop_handler_ok session_detail_ok open_pty_ok pump_in_ok
      reaper_round_ok incident_opened_ok)
qed

definition empty_lab :: shell_state where
  "empty_lab = \<lparr>sh_sessions = [], sh_events = [], sh_raw = [], sh_bus = new_bus, sh_incidents = [],
     sh_manager = \<lparr>mg_client = False, mg_calls = []\<rparr>\<rparr>"

definition lab_after :: "shell_env \<Rightarrow> identity_env \<Rightarrow> (time \<times> shell_op) list \<Rightarrow> shell_state" where
  "lab_after env ident ops = snd (foldl (shell_step env ident) ([], empty_lab) ops)"

lemma lab_after_ok: "shell_ok env (lab_after env ident ops)"
  unfolding lab_after_def
  by (rule analysis_lab.run_inv) (simp add: shell_ok_def sessions_ok_def events_ok_def empty_lab_def calls_ok_def)


text \<open>A pass of the reaper ends exactly the live sessions that have been idle longer than their
  time to live or are older than the hard limit, leaves every other row alone, and reports the
  number ended and the number left; afterwards nothing live is overdue.\<close>

theorem reaper_ends_overdue_sessions:
  "case reap_stale env now (lab_after env ident ops) of ((reaped, active), st') \<Rightarrow>
     sh_sessions st' = map (\<lambda>s. if is_live s \<and> overdue env now s then ended now s else s)
       (sh_sessions (lab_after env ident ops))
     \<and> reaped = length (filter (\<lambda>s. is_live s \<and> overdue env now s) (sh_sessions (lab_after env ident ops)))
     \<and> active = length (filter is_live (sh_sessions st'))
     \<and> filter (\<lambda>s. is_live s \<and> overdue env now s) (sh_sessions st') = []"
proof -
  let ?st = "lab_after env ident ops"
  let ?stale = "filter (overdue env now) (filter is_live (sh_sessions ?st))"
  have "distinct ?stale" using live_distinct[OF lab_after_ok] by simp
  moreover have "set ?stale \<subseteq> set (sh_sessions ?st)" by auto
  ultimately have ss: "sh_sessions (fold (teardown env now) ?stale ?st)
      = map (\<lambda>s. if s \<in> set ?stale then ended now s else s) (sh_sessions ?st)"
    using fold_teardown[OF lab_after_ok, of ?stale env ident ops now] by blast
  also have "\<dots> = map (\<lambda>s. if is_live s \<and> overdue env now s then ended now s else s) (sh_sessions ?st)" (is "_ = ?new")
    by (rule map_cong) auto
  finally have new: "sh_sessions (fold (teardown env now) ?stale ?st) = ?new" .
  have left: "length (filter is_live (map (\<lambda>s. if is_live s \<and> overdue env now s then ended now s else s) ss))
      = length (filter is_live ss) - length (filter (\<lambda>s. is_live s \<and> overdue env now s) ss)" for ss
  proof (induction ss)
    case (Cons s ss)
    have "length (filter (\<lambda>s. is_live s \<and> overdue env now s) ss) \<le> length (filter is_live ss)"
      by (induction ss) auto
    with Cons show ?case by (auto simp: Suc_diff_le)
  qed simp
  have none: "filter (\<lambda>s. is_live s \<and> overdue env now s) ?new = []" by (auto simp: filter_empty_conv)
  have stale: "?stale = filter (\<lambda>s. is_live s \<and> overdue env now s) (sh_sessions ?st)" by (simp add: conj_commute)
  have "reap_stale env now ?st = ((length ?stale, length (filter is_live (sh_sessions ?st)) - length ?stale),
      fold (teardown env now) ?stale ?st)"
    by (simp only: reap_stale_def Let_def)
  then show ?thesis
    unfolding stale by (simp only: prod.case new [unfolded stale] none left)
qed

section \<open>What the terminal records\<close>

lemma printable_code: "is_printable c \<Longrightarrow> 32 \<le> (of_char c :: nat) \<and> (of_char c :: nat) \<noteq> 127"
  by (auto simp: is_printable_def Let_def)

lemma control_code: "n < 32 \<or> n = 127 \<Longrightarrow> of_char (char_of (n :: nat) :: char) = n"
  by auto

lemma printable_keystroke: "is_printable c \<Longrightarrow> keystroke c buf = (take_last 4000 (buf @ [c]), None)"
  using printable_code[of c] control_code[of 13] control_code[of 10] control_code[of 127] control_code[of 8] control_code[of 3]
  by (auto simp: keystroke_def)

lemma enter_keystroke: "keystroke (char_of (13::nat)) buf = ([], if strip buf \<noteq> [] then Some buf else None)"
  by (simp add: keystroke_def)

lemma pump_printable:
  "list_all is_printable l \<Longrightarrow> length buf + length l \<le> 4000 \<Longrightarrow>
     pump_in env now sid buf (l @ keys) st = pump_in env now sid (buf @ l) keys st"
  by (induction l arbitrary: buf) (simp_all add: printable_keystroke)

lemma strip_ansi_printable: "list_all is_printable l \<Longrightarrow> strip_ansi l = l"
proof (induction l)
  case (Cons c l)
  then have "32 \<le> (of_char c :: nat)" "(of_char c :: nat) \<noteq> 127" using printable_code[of c] by simp_all
  then have "c \<noteq> char_of (27::nat)" "\<not> is_stray c" using control_code[of 27] by (auto simp: is_stray_def Let_def)
  with Cons show ?case by simp
qed simp

lemma set_strip: "set (strip s) \<subseteq> set s"
  unfolding strip_def by (metis set_dropWhileD set_rev subsetI)

lemma clean_printable: "list_all is_printable l \<Longrightarrow> clean_command l = take 2000 (strip l)"
proof -
  assume l: "list_all is_printable l"
  have "32 \<le> (of_char c :: nat)" if "c \<in> set (strip l)" for c
    using l that set_strip[of l] printable_code[of c] by (auto simp: list_all_iff)
  then have "c \<noteq> char_of (13::nat) \<and> c \<noteq> char_of (10::nat)" if "c \<in> set (strip l)" for c
    using that control_code[of 13] control_code[of 10] by fastforce
  then have "filter (\<lambda>c. c \<noteq> char_of (13::nat)) (strip l) = strip l"
    "map (\<lambda>c. if c = char_of (10::nat) then CHR '' '' else c) (strip l) = strip l"
    by (simp_all add: filter_id_conv map_idI)
  then show ?thesis by (simp only: clean_command_def strip_ansi_printable[OF l])
qed

lemma record_events:
  assumes "get_session sid None st = Some s"
  shows "map e_command (events_of sid (sh_events (snd (record_command env now s l st))))
    = map e_command (events_of sid (sh_events st))
      @ (if clean_command l \<in> set IGNORED_COMMANDS then [] else [Some (clean_command l)])"
  using get_session_in[OF assms]
  by (simp add: record_command_def Let_def emit_event_def events_of_def shell_event_def)

lemma record_keeps:
  assumes "get_session sid None st = Some s"
  shows "\<exists>s'. get_session sid None (snd (record_command env now s l st)) = Some s'"
proof -
  have "ss_id s = sid" "s \<in> set (sh_sessions st)" using get_session_in[OF assms] by simp_all
  then show ?thesis using assms
    by (auto simp: record_command_def Let_def emit_event_def get_session_def put_in_def link_incident_def
        find_None_iff not_None_eq [symmetric] simp del: not_None_eq split: option.splits)
qed

lemma pump_enter:
  assumes "get_session sid None st = Some s" "list_all is_printable l" "length l \<le> 4000"
  shows "pump_in env now sid [] (l @ char_of (13::nat) # keys) st
    = pump_in env now sid [] keys (if strip l = [] then st else snd (record_command env now s l st))"
  using pump_printable[OF assms(2), of "[]"] assms(1,3) by (simp add: enter_keystroke)

text \<open>What an analyst types into the terminal is what is recorded: lines of printable characters,
  each ended with Enter, give one event per line in the order typed, whose command is the line
  stripped and cut to 2000 characters, except for blank lines and the ignored commands.\<close>

theorem typed_lines_are_recorded:
  assumes "get_session sid None st = Some s"
    and "list_all (\<lambda>l. list_all is_printable l \<and> length l \<le> 4000) lines"
  shows "map e_command (events_of sid (sh_events (snd
      (pump_in env now sid [] (concat (map (\<lambda>l. l @ [char_of (13::nat)]) lines)) st))))
    = map e_command (events_of sid (sh_events st))
      @ map Some (filter (\<lambda>cmd. cmd \<notin> set IGNORED_COMMANDS) (map (\<lambda>l. take 2000 (strip l)) lines))"
  using assms
proof (induction lines arbitrary: st s)
  case (Cons l lines)
  let ?st = "if strip l = [] then st else snd (record_command env now s l st)"
  have l: "list_all is_printable l" "length l \<le> 4000" using Cons.prems(2) by simp_all
  obtain s' where s': "get_session sid None ?st = Some s'"
    using record_keeps[OF Cons.prems(1), of env now l] Cons.prems(1) by (cases "strip l = []") auto
  have "map e_command (events_of sid (sh_events ?st)) = map e_command (events_of sid (sh_events st))
      @ map Some (filter (\<lambda>cmd. cmd \<notin> set IGNORED_COMMANDS) [take 2000 (strip l)])"
    using record_events[OF Cons.prems(1), of env now l] clean_printable[OF l(1)] by (auto simp: IGNORED_COMMANDS_def)
  with Cons.IH[OF s'] Cons.prems(2) pump_enter[OF Cons.prems(1) l] show ?case
    by (cases "take 2000 (strip l) \<in> set IGNORED_COMMANDS") (simp_all split del: if_split)
qed simp

theorem typed_lines_are_recorded_witness:
  "\<forall>env now. map e_command (events_of ''s1'' (sh_events (snd (pump_in env now ''s1'' []
       (''ls -la'' @ [char_of (13::nat)] @ ''clear'' @ [char_of (13::nat)] @ '' id '' @ [char_of (13::nat)])
       (insert_session (new_shell env 0 ''s1'' ''ana'') empty_lab)))))
     = [Some ''ls -la'', Some ''id'']"
proof (intro allI)
  fix env now
  have session: "get_session ''s1'' None (insert_session (new_shell env 0 ''s1'' ''ana'') empty_lab)
      = Some (new_shell env 0 ''s1'' ''ana'')"
    by (simp add: get_session_def insert_session_def new_shell_def empty_lab_def)
  have "list_all (\<lambda>l. list_all is_printable l \<and> length l \<le> 4000) [''ls -la'', ''clear'', '' id '']"
    by (simp add: is_printable_def)
  note typed = typed_lines_are_recorded[OF session this, of env now]
  have lines: "''ls -la'' @ [char_of (13::nat)] @ ''clear'' @ [char_of (13::nat)] @ '' id '' @ [char_of (13::nat)]
      = concat (map (\<lambda>l. l @ [char_of (13::nat)]) [''ls -la'', ''clear'', '' id ''])"
    by simp
  have cleaned: "filter (\<lambda>cmd. cmd \<notin> set IGNORED_COMMANDS) (map (\<lambda>l. take 2000 (strip l)) [''ls -la'', ''clear'', '' id ''])
      = [''ls -la'', ''id'']"
    by (simp add: strip_def is_space_def IGNORED_COMMANDS_def)
  have none: "events_of ''s1'' (sh_events (insert_session (new_shell env 0 ''s1'' ''ana'') empty_lab)) = []"
    by (simp add: events_of_def insert_session_def empty_lab_def)
  show "map e_command (events_of ''s1'' (sh_events (snd (pump_in env now ''s1'' []
       (''ls -la'' @ [char_of (13::nat)] @ ''clear'' @ [char_of (13::nat)] @ '' id '' @ [char_of (13::nat)])
       (insert_session (new_shell env 0 ''s1'' ''ana'') empty_lab)))))
     = [Some ''ls -la'', Some ''id'']"
    unfolding lines typed cleaned none by simp
qed

text \<open>Keys that edit the line in the shell are not understood: the arrow that recalls the previous
  command leaves the text of its escape sequence, and the command the shell runs is not recorded.\<close>

lemma recalled_command_is_lost:
  "pump_in env now sid [] [char_of (27::nat), CHR ''['', CHR ''A'', char_of (13::nat)] st
     = ([], case get_session sid None st of None \<Rightarrow> st | Some s \<Rightarrow> snd (record_command env now s ''[A'' st))"
  "clean_command ''[A'' = ''[A''"
proof -
  have "keystroke (char_of (27::nat)) [] = ([], None)" by (simp add: keystroke_def is_printable_def)
  moreover have "keystroke (CHR ''['') [] = (''['', None)" "keystroke (CHR ''A'') ''['' = (''[A'', None)"
    by (simp_all add: printable_keystroke is_printable_def)
  moreover have "keystroke (char_of (13::nat)) ''[A'' = ([], Some ''[A'')"
    by (simp add: enter_keystroke strip_def is_space_def)
  ultimately show "pump_in env now sid [] [char_of (27::nat), CHR ''['', CHR ''A'', char_of (13::nat)] st
     = ([], case get_session sid None st of None \<Rightarrow> st | Some s \<Rightarrow> snd (record_command env now s ''[A'' st))"
    by simp
  show "clean_command ''[A'' = ''[A''"
    by (subst clean_printable) (simp_all add: is_printable_def strip_def is_space_def)
qed

end
