(* ===== verification/Validation.thy ===== *)
theory Validation
  imports Correlation
begin

text \<open>
  Detection validation (\<open>backend/app/services/detection_validation.py\<close>,
  \<open>backend/app/api/v1/endpoints/soc_testing.py\<close>): a controlled attack scenario is run, or the
  recent past is looked at, and what the pipeline produced is graded against what the scenario
  expects; the coverage report sums up the latest grade of every scenario.

  Arguments: the YAML parser (a file gives a scenario, or nothing when it is malformed or has no
  id), the creation time of a detection by its number, what the attack script answers and what
  the sensors and loops do to the tables while it runs. The lists of a scenario document hold
  text. Rule ids and techniques of a run are kept as sorted lists, as the code stores them.
\<close>

record scenario =
  sc_id :: string
  sc_description :: string
  sc_detections :: "string list"
  sc_techniques :: "string list"
  sc_severity :: "string option"
  sc_incident :: bool
  sc_telemetry :: "string list"
  sc_script :: "string option"

text \<open>\<open>load_scenarios\<close>: the files in order of their names; a later document with the id of an
  earlier one takes its place. \<open>None\<close> is a directory that does not exist.\<close>

definition is_scenario_file :: "string \<Rightarrow> bool" where
  "is_scenario_file f \<longleftrightarrow> ends_with ''.yml'' f \<or> ends_with ''.yaml'' f"

definition load_scenarios :: "(string \<Rightarrow> scenario option) \<Rightarrow> string list option \<Rightarrow> (string \<times> scenario) list" where
  "load_scenarios parse files =
     (case files of
        None \<Rightarrow> []
      | Some fs \<Rightarrow> fold (\<lambda>f out. case parse f of
            None \<Rightarrow> out
          | Some sc \<Rightarrow> if sc_id sc = [] then out else AList.update (sc_id sc) sc out)
          (filter is_scenario_file (sort fs)) [])"

definition expected_rule_ids :: "(string \<times> scenario) list \<Rightarrow> string list" where
  "expected_rule_ids scs = concat (map (sc_detections \<circ> snd) scs)"

section \<open>Observing\<close>

record observation =
  ob_rules :: "string list"
  ob_rows :: nat
  ob_techniques :: "string list"
  ob_severity :: "string option"
  ob_incidents :: "string list"
  ob_telemetry :: bool

text \<open>\<open>max(xs, key=f)\<close>: the first of the largest.\<close>

fun first_max :: "('a \<Rightarrow> nat) \<Rightarrow> 'a \<Rightarrow> 'a list \<Rightarrow> 'a" where
  "first_max f best [] = best"
| "first_max f best (x # xs) = first_max f (if f best < f x then x else best) xs"

definition top_severity :: "string list \<Rightarrow> string option" where
  "top_severity sevs = (case sevs of [] \<Rightarrow> None | s # ss \<Rightarrow> Some (first_max severity_rank s ss))"

definition in_window :: "(nat \<Rightarrow> time) \<Rightarrow> time \<Rightarrow> detection \<Rightarrow> bool" where
  "in_window created start d \<longleftrightarrow> start \<le> created (d_id d) \<or> start \<le> d_last_event d"

definition present :: "string option list \<Rightarrow> string list" where
  "present xs = concat (map (\<lambda>x. case x of None \<Rightarrow> [] | Some s \<Rightarrow> if s = [] then [] else [s]) xs)"

definition observe :: "(nat \<Rightarrow> time) \<Rightarrow> time \<Rightarrow> soc_db \<Rightarrow> observation" where
  "observe created start db =
     (let dets = filter (in_window created start) (detections db);
          incs = filter (\<lambda>i. start \<le> i_updated_at i) (incidents db)
      in \<lparr>ob_rules = sorted_set (map d_rule_id dets),
          ob_rows = length dets,
          ob_techniques = sorted_set (present (map d_technique dets)),
          ob_severity = top_severity (map d_severity dets),
          ob_incidents = map i_key incs,
          ob_telemetry = list_ex (\<lambda>e. case e_ingested_at e of None \<Rightarrow> False | Some t \<Rightarrow> start \<le> t) (events db)\<rparr>)"

section \<open>Grading\<close>

datatype grade = PASS | PARTIAL | FAIL

record metrics =
  mt_detection_rate :: rat
  mt_attack_coverage :: rat
  mt_telemetry :: rat
  mt_severity_ok :: bool
  mt_incident_ok :: bool
  mt_missing_rules :: "string list"
  mt_missing_techniques :: "string list"
  mt_false_positives :: "string list"

text \<open>The size of a set of texts, and of the part of it that was seen.\<close>

definition set_size :: "string list \<Rightarrow> nat" where
  "set_size xs = length (remdups xs)"

definition hits :: "string list \<Rightarrow> string list \<Rightarrow> string list" where
  "hits wanted seen = filter (\<lambda>x. x \<in> set seen) (remdups wanted)"

definition missing :: "string list \<Rightarrow> string list \<Rightarrow> string list" where
  "missing wanted seen = sorted_set (filter (\<lambda>x. x \<notin> set seen) wanted)"

definition severity_ok :: "scenario \<Rightarrow> observation \<Rightarrow> bool" where
  "severity_ok sc ob =
     (let wanted = upper (case sc_severity sc of None \<Rightarrow> [] | Some s \<Rightarrow> s) in
      wanted = [] \<or> (case ob_severity ob of None \<Rightarrow> False | Some s \<Rightarrow> severity_rank wanted \<le> severity_rank s))"

definition incident_ok :: "scenario \<Rightarrow> observation \<Rightarrow> bool" where
  "incident_ok sc ob \<longleftrightarrow> \<not> sc_incident sc \<or> ob_incidents ob \<noteq> []"

definition grade_checks :: "scenario \<Rightarrow> observation \<Rightarrow> bool list" where
  "grade_checks sc ob =
     (if sc_detections sc \<noteq> [] then [length (hits (sc_detections sc) (ob_rules ob)) = set_size (sc_detections sc)] else [])
     @ (if sc_techniques sc \<noteq> [] then [length (hits (sc_techniques sc) (ob_techniques ob)) = set_size (sc_techniques sc)] else [])
     @ [severity_ok sc ob, incident_ok sc ob]"

definition grade_of :: "bool list \<Rightarrow> grade" where
  "grade_of checks = (let passed = list_all (\<lambda>c. c) checks; partial = list_ex (\<lambda>c. c) checks \<and> \<not> passed
     in if passed then PASS else if partial then PARTIAL else FAIL)"

definition hit_rate :: "string list \<Rightarrow> string list \<Rightarrow> rat" where
  "hit_rate wanted seen =
     (if wanted = [] then 1 else of_nat (length (hits wanted seen)) / of_nat (set_size wanted))"

definition grade_run :: "string list \<Rightarrow> scenario \<Rightarrow> observation \<Rightarrow> grade \<times> metrics" where
  "grade_run pool sc ob =
     (grade_of (grade_checks sc ob),
      \<lparr>mt_detection_rate = py_round 3 (hit_rate (sc_detections sc) (ob_rules ob)),
       mt_attack_coverage = py_round 3 (hit_rate (sc_techniques sc) (ob_techniques ob)),
       mt_telemetry = (if ob_telemetry ob then 1 else 0),
       mt_severity_ok = severity_ok sc ob,
       mt_incident_ok = incident_ok sc ob,
       mt_missing_rules = missing (sc_detections sc) (ob_rules ob),
       mt_missing_techniques = missing (sc_techniques sc) (ob_techniques ob),
       mt_false_positives = filter (\<lambda>r. r \<notin> set pool) (ob_rules ob)\<rparr>)"

section \<open>Runs\<close>

datatype run_mode = Evaluate | Execute

record scenario_run =
  sr_number :: nat
  sr_scenario :: string
  sr_mode :: run_mode
  sr_complete :: bool
  sr_started :: time
  sr_finished :: "time option"
  sr_observed :: "observation option"
  sr_result :: "grade option"
  sr_metrics :: "metrics option"
  sr_by :: "string option"

record lab_book =
  lb_soc :: soc_db
  lb_runs :: "scenario_run list"

record validation_env =
  ve_parse :: "string \<Rightarrow> scenario option"
  ve_files :: "string list option"
  ve_created :: "nat \<Rightarrow> time"
  ve_cycle :: cycle_env
  ve_rules :: "rule list"
  ve_window :: nat

definition run_mode_of :: "string \<Rightarrow> run_mode" where
  "run_mode_of t = (if t = ''execute'' then Execute else Evaluate)"

definition open_run :: "time \<Rightarrow> string \<Rightarrow> run_mode \<Rightarrow> string option \<Rightarrow> lab_book \<Rightarrow> scenario_run" where
  "open_run now sid mode who lb =
     \<lparr>sr_number = length (lb_runs lb), sr_scenario = sid, sr_mode = mode, sr_complete = False, sr_started = now,
      sr_finished = None, sr_observed = None, sr_result = None, sr_metrics = None, sr_by = who\<rparr>"

text \<open>Where the window of a run starts: an execution one second before the second it starts in, an
  evaluation \<open>VALIDATION_EVAL_WINDOW_MIN\<close> minutes back.\<close>

definition window_start :: "validation_env \<Rightarrow> time \<Rightarrow> run_mode \<Rightarrow> time" where
  "window_start env now mode = (case mode of
       Execute \<Rightarrow> now - now mod seconds 1 - seconds 1
     | Evaluate \<Rightarrow> now - minutes (int (ve_window env)))"

text \<open>The tables a run looks at. In an execution the attack, the sensors and the loops change them
  (\<open>meanwhile\<close>), then a detection cycle is forced; its exceptions are swallowed.\<close>

definition after_attack :: "validation_env \<Rightarrow> time \<Rightarrow> run_mode \<Rightarrow> (soc_db \<Rightarrow> soc_db) \<Rightarrow> soc_db \<Rightarrow> soc_db" where
  "after_attack env later mode meanwhile db = (case mode of
       Evaluate \<Rightarrow> db
     | Execute \<Rightarrow> (case run_cycle (ve_cycle env) later (ve_rules env) (meanwhile db) of
           None \<Rightarrow> meanwhile db
         | Some (_, db') \<Rightarrow> db'))"

definition scenarios_of :: "validation_env \<Rightarrow> (string \<times> scenario) list" where
  "scenarios_of env = load_scenarios (ve_parse env) (ve_files env)"

definition run_scenario :: "validation_env \<Rightarrow> time \<Rightarrow> time \<Rightarrow> (soc_db \<Rightarrow> soc_db) \<Rightarrow> string \<Rightarrow> string
    \<Rightarrow> string option \<Rightarrow> lab_book \<Rightarrow> scenario_run option \<times> lab_book" where
  "run_scenario env now later meanwhile sid mode_text who lb =
     (case map_of (scenarios_of env) sid of
        None \<Rightarrow> (None, lb)
      | Some sc \<Rightarrow>
          let mode = run_mode_of mode_text;
              soc = after_attack env later mode meanwhile (lb_soc lb);
              ob = observe (ve_created env) (window_start env now mode) soc;
              graded = grade_run (expected_rule_ids (scenarios_of env)) sc ob;
              r = (open_run now sid mode who lb)\<lparr>sr_complete := True, sr_finished := Some later,
                    sr_observed := Some ob, sr_result := Some (fst graded), sr_metrics := Some (snd graded)\<rparr>
          in (Some r, lb\<lparr>lb_soc := soc, lb_runs := lb_runs lb @ [r]\<rparr>))"

section \<open>The coverage report\<close>

record coverage_row =
  cv_scenario :: string
  cv_latest :: "scenario_run option"

record coverage =
  co_rows :: "coverage_row list"
  co_success_rate :: rat
  co_attack_coverage :: rat
  co_total :: nat
  co_passing :: nat
  co_failed :: "string list"
  co_untested :: "string list"

definition recent_runs :: "scenario_run list \<Rightarrow> scenario_run list" where
  "recent_runs rs = take 200 (sort_desc sr_started rs)"

definition latest_run :: "scenario_run list \<Rightarrow> string \<Rightarrow> scenario_run option" where
  "latest_run rs sid = find (\<lambda>r. sr_scenario r = sid) (recent_runs rs)"

definition row_result :: "coverage_row \<Rightarrow> grade option" where
  "row_result row = Option.bind (cv_latest row) sr_result"

definition techniques_seen :: "scenario_run \<Rightarrow> string list" where
  "techniques_seen r = (case sr_observed r of None \<Rightarrow> [] | Some ob \<Rightarrow> ob_techniques ob)"

definition coverage_report :: "(string \<times> scenario) list \<Rightarrow> scenario_run list \<Rightarrow> coverage" where
  "coverage_report scs rs =
     (let rows = map (\<lambda>(sid, _). \<lparr>cv_scenario = sid, cv_latest = latest_run rs sid\<rparr>) scs;
          passing = filter (\<lambda>row. row_result row = Some PASS) rows;
          wanted = concat (map (sc_techniques \<circ> snd) scs);
          covered = concat (map (\<lambda>row. case cv_latest row of None \<Rightarrow> [] | Some r \<Rightarrow> techniques_seen r) passing)
      in \<lparr>co_rows = rows,
          co_success_rate = py_round 3 (of_nat (length passing) / of_nat (max 1 (length scs))),
          co_attack_coverage = py_round 3 (of_nat (length (hits wanted covered)) / of_nat (max 1 (set_size wanted))),
          co_total = length scs,
          co_passing = length passing,
          co_failed = map cv_scenario (filter (\<lambda>row. row_result row \<in> {Some FAIL, Some PARTIAL}) rows),
          co_untested = map cv_scenario (filter (\<lambda>row. row_result row = None) rows)\<rparr>)"

text \<open>The handlers; an error is its HTTP status. FastAPI answers 422 to a limit above 200.\<close>

definition run_handler :: "validation_env \<Rightarrow> time \<Rightarrow> time \<Rightarrow> (soc_db \<Rightarrow> soc_db) \<Rightarrow> string \<Rightarrow> string
    \<Rightarrow> string \<Rightarrow> lab_book \<Rightarrow> (int + scenario_run) \<times> lab_book" where
  "run_handler env now later meanwhile sid mode_text email lb =
     (if mode_text \<notin> {''evaluate'', ''execute''} then (Inl 400, lb)
      else case run_scenario env now later meanwhile sid mode_text (Some email) lb of
          (None, lb) \<Rightarrow> (Inl 404, lb)
        | (Some r, lb) \<Rightarrow> (Inr r, lb))"

definition list_runs :: "string option \<Rightarrow> nat \<Rightarrow> lab_book \<Rightarrow> int + scenario_run list" where
  "list_runs sid limit lb =
     (if 200 < limit then Inl 422
      else Inr (take limit (filter (\<lambda>r. case sid of None \<Rightarrow> True | Some s \<Rightarrow> s = [] \<or> sr_scenario r = s)
        (sort_desc sr_started (lb_runs lb)))))"

definition get_run :: "nat \<Rightarrow> lab_book \<Rightarrow> int + scenario_run" where
  "get_run i lb = (case find (\<lambda>r. sr_number r = i) (lb_runs lb) of None \<Rightarrow> Inl 404 | Some r \<Rightarrow> Inr r)"


section \<open>Facts about grading\<close>

lemma length_filter_full: "length (filter P xs) = length xs \<longleftrightarrow> list_all P xs"
proof (induction xs)
  case (Cons x xs)
  have "length (filter P xs) \<noteq> Suc (length xs)" using length_filter_le[of P xs] by linarith
  with Cons show ?case by simp
qed simp

lemma hits_full: "length (hits wanted seen) = set_size wanted \<longleftrightarrow> set wanted \<subseteq> set seen"
  by (auto simp: hits_def set_size_def length_filter_full list_all_iff)

lemma hits_missing: "length (hits wanted seen) + length (remdups (missing wanted seen)) = set_size wanted"
proof -
  have "set_size wanted = card (set wanted)" by (simp add: set_size_def length_remdups_card_conv)
  moreover have "length (hits wanted seen) = card (set wanted \<inter> set seen)"
    unfolding hits_def by (subst distinct_card [symmetric]) (simp_all add: Int_def conj_commute)
  moreover have "length (remdups (missing wanted seen)) = card (set wanted - set seen)"
    by (simp add: missing_def length_remdups_card_conv set_diff_eq)
  ultimately show ?thesis by (metis card_Int_Diff List.finite_set)
qed

lemma hits_le: "length (hits wanted seen) \<le> set_size wanted"
  by (simp add: hits_def set_size_def)

lemma set_size_pos: "wanted \<noteq> [] \<Longrightarrow> 0 < set_size wanted"
  by (cases wanted) (auto simp: set_size_def length_remdups_card_conv card_gt_0_iff)

lemma ratio_bounds: "m \<le> n \<Longrightarrow> 0 \<le> py_round 3 (of_nat m / of_nat n) \<and> py_round 3 (of_nat m / of_nat n) \<le> 1"
proof -
  assume "m \<le> n"
  then have "0 \<le> (of_nat m / of_nat n :: rat)" "(of_nat m / of_nat n :: rat) \<le> 1"
    by (auto simp: divide_le_eq)
  then show ?thesis
    using py_round_mono[of 0 "of_nat m / of_nat n" 3] py_round_mono[of "of_nat m / of_nat n" 1 3] by simp
qed

lemma hit_rate_bounds: "0 \<le> py_round 3 (hit_rate wanted seen) \<and> py_round 3 (hit_rate wanted seen) \<le> 1"
  using ratio_bounds[OF hits_le] by (simp add: hit_rate_def)

lemma grade_of_iff:
  "grade_of cs = PASS \<longleftrightarrow> list_all (\<lambda>c. c) cs"
  "grade_of cs = FAIL \<longleftrightarrow> \<not> list_all (\<lambda>c. c) cs \<and> list_all Not cs"
  by (auto simp: grade_of_def Let_def list_all_iff list_ex_iff)

text \<open>A run passes exactly when every expected rule and technique was seen, the severity was
  reached and an incident opened where one is expected. It fails only when all of these fail: a
  scenario that names no severity, or expects no incident, is graded PARTIAL even when nothing at
  all was detected.\<close>

theorem grade_verdict:
  "(fst (grade_run pool sc ob) = PASS \<longleftrightarrow>
     set (sc_detections sc) \<subseteq> set (ob_rules ob) \<and> set (sc_techniques sc) \<subseteq> set (ob_techniques ob)
     \<and> severity_ok sc ob \<and> incident_ok sc ob)
   \<and> (fst (grade_run pool sc ob) = FAIL \<longleftrightarrow>
     sc_incident sc \<and> ob_incidents ob = [] \<and> \<not> severity_ok sc ob
     \<and> (sc_detections sc = [] \<or> \<not> set (sc_detections sc) \<subseteq> set (ob_rules ob))
     \<and> (sc_techniques sc = [] \<or> \<not> set (sc_techniques sc) \<subseteq> set (ob_techniques ob)))"
  by (auto simp: grade_run_def grade_of_iff grade_checks_def hits_full incident_ok_def)

definition demo_scenario :: scenario where
  "demo_scenario = \<lparr>sc_id = ''ssh-brute-force'', sc_description = ''SSH'', sc_detections = [''st-auth-001''],
     sc_techniques = [''T1110''], sc_severity = Some ''high'', sc_incident = True, sc_telemetry = [], sc_script = None\<rparr>"

definition demo_observation :: observation where
  "demo_observation = \<lparr>ob_rules = [''st-auth-001'', ''st-recon-002''], ob_rows = 2, ob_techniques = [''T1046'', ''T1110''],
     ob_severity = Some ''CRITICAL'', ob_incidents = [''INC-000001''], ob_telemetry = True\<rparr>"

theorem grade_verdict_witness:
  "fst (grade_run [] demo_scenario demo_observation) = PASS
   \<and> fst (grade_run [] demo_scenario (observe (\<lambda>_. 0) 0 empty_db)) = FAIL"
proof -
  have "severity_ok demo_scenario demo_observation" by code_simp
  moreover have "\<not> severity_ok demo_scenario (observe (\<lambda>_. 0) 0 empty_db)" by code_simp
  ultimately show ?thesis
    unfolding conjunct1[OF grade_verdict] conjunct2[OF grade_verdict]
    by (simp add: demo_scenario_def demo_observation_def observe_def incident_ok_def empty_db_def Let_def sorted_set_def present_def)
qed

section \<open>Facts about runs and the report\<close>

lemma find_sorted_newest:
  assumes "sorted_wrt (\<lambda>x y. f y \<le> f x) xs" "find P xs = Some r"
  shows "r \<in> set xs \<and> P r \<and> (\<forall>x \<in> set xs. P x \<longrightarrow> f x \<le> (f r :: 'k :: linorder))"
  using assms by (induction xs) (auto split: if_splits)

text \<open>When the table holds at most 200 runs, the report looks at the newest run of a scenario.\<close>

lemma latest_run_newest:
  assumes "length rs \<le> 200"
  shows "case latest_run rs sid of
      None \<Rightarrow> \<forall>r \<in> set rs. sr_scenario r \<noteq> sid
    | Some r \<Rightarrow> r \<in> set rs \<and> sr_scenario r = sid \<and> (\<forall>r' \<in> set rs. sr_scenario r' = sid \<longrightarrow> sr_started r' \<le> sr_started r)"
proof -
  have recent: "recent_runs rs = sort_desc sr_started rs" using assms by (simp add: recent_runs_def)
  show ?thesis
  proof (cases "latest_run rs sid")
    case None
    then have "\<forall>r \<in> set rs. sr_scenario r \<noteq> sid" by (auto simp: latest_run_def recent find_None_iff)
    then show ?thesis using None by simp
  next
    case (Some r)
    then show ?thesis
      using find_sorted_newest[OF sorted_sort_desc[of sr_started rs], of "\<lambda>r. sr_scenario r = sid" r]
      by (simp add: latest_run_def recent)
  qed
qed

lemma parts_add_up:
  "length (filter (\<lambda>x. f x = Some PASS) xs) + length (filter (\<lambda>x. f x \<in> {Some FAIL, Some PARTIAL}) xs)
     + length (filter (\<lambda>x. f x = None) xs) = length xs"
proof (induction xs)
  case (Cons x xs)
  have "f x \<in> {Some PASS, Some FAIL, Some PARTIAL, None}" by (cases "f x"; cases "the (f x)") auto
  with Cons show ?case by auto
qed simp

text \<open>The coverage report has one row per scenario, in their order; passing, failed and untested
  scenarios make up all of them, and both rates lie between 0 and 1.\<close>

theorem coverage_report_adds_up:
  "let r = coverage_report scs rs in
     map cv_scenario (co_rows r) = map fst scs
     \<and> co_passing r + length (co_failed r) + length (co_untested r) = co_total r
     \<and> 0 \<le> co_success_rate r \<and> co_success_rate r \<le> 1
     \<and> 0 \<le> co_attack_coverage r \<and> co_attack_coverage r \<le> 1"
proof -
  let ?rows = "map (\<lambda>(sid, _). \<lparr>cv_scenario = sid, cv_latest = latest_run rs sid\<rparr>) scs"
  have "length (filter (\<lambda>row. row_result row = Some PASS) ?rows) \<le> max 1 (length scs)"
    using length_filter_le[of "\<lambda>row. row_result row = Some PASS" ?rows] by (simp only: length_map)
  from ratio_bounds[OF this] have rate: "0 \<le> co_success_rate (coverage_report scs rs) \<and> co_success_rate (coverage_report scs rs) \<le> 1"
    by (simp add: coverage_report_def Let_def)
  have "length (hits wanted seen) \<le> max 1 (set_size wanted)" for wanted seen using hits_le[of wanted seen] by simp
  from ratio_bounds[OF this] have cover: "0 \<le> co_attack_coverage (coverage_report scs rs) \<and> co_attack_coverage (coverage_report scs rs) \<le> 1"
    by (simp add: coverage_report_def Let_def)
  have "map cv_scenario ?rows = map fst scs" by auto
  then show ?thesis
    using rate cover parts_add_up[of row_result ?rows] by (simp add: coverage_report_def Let_def)
qed

text \<open>An evaluation changes no table but its own: it appends one finished run, graded on what the
  window of the last \<open>VALIDATION_EVAL_WINDOW_MIN\<close> minutes holds.\<close>

lemma evaluation_only_appends:
  assumes "map_of (scenarios_of env) sid = Some sc"
  shows "\<exists>r. run_scenario env now later meanwhile sid ''evaluate'' who lb = (Some r, lb\<lparr>lb_runs := lb_runs lb @ [r]\<rparr>)
    \<and> sr_complete r \<and> sr_observed r = Some (observe (ve_created env) (now - minutes (int (ve_window env))) (lb_soc lb))"
  using assms by (simp add: run_scenario_def run_mode_of_def after_attack_def window_start_def Let_def open_run_def)

end
