(* ===== verification/Data_Admin.thy ===== *)
theory Data_Admin
  imports Analysis_Shell
begin

text \<open>
  The data life cycle of the platform (\<open>backend/app/services/data_admin.py\<close>, its endpoints in
  \<open>backend/app/api/v1/endpoints/diagnostics.py\<close>): one background job at a time that either
  fills the platform with data or wipes it.

  The platform is the database (the tables that exist, with their rows; the settings), the data
  directories, the sensor log files, the sensors and attacker containers, and the state of the
  analysis lab. A job is a sequence of steps; a step returns the exception it raises, if any, and
  the state it leaves. What can fail, and what a failed helper leaves of the logs, is the record
  \<open>hazards\<close>. \<open>TRUNCATE\<close> commits at once, so a wipe that fails half way has wiped that half.
\<close>

definition EDGE_NET :: string where
  "EDGE_NET = ''honeynet_edge''"

definition ATTACKER_IMAGE :: string where
  "ATTACKER_IMAGE = ''st-attacker:latest''"

definition ACTORS :: "string list" where
  "ACTORS = [''mirai'', ''handson'', ''exfil'', ''recon'', ''web'', ''dionaea'', ''slowbrute'']"

definition DATA_TABLES :: "string list" where
  "DATA_TABLES = [''normalized_events'', ''raw_events'', ''ingest_cursors'', ''events'', ''attacks'', ''alerts'',
     ''captured_payloads'', ''iocs'', ''ioc_observations'', ''node_metrics'', ''attacker_sessions'',
     ''structured_events'', ''s3_sync_state'', ''detections'', ''incident_events'', ''incident_iocs'',
     ''incident_activity'', ''evidence'', ''incidents'', ''scenario_runs'', ''analysis_sessions'',
     ''generated_reports'']"

definition DATA_SETTING_KEYS :: "string list" where
  "DATA_SETTING_KEYS = [''mitre_annotations'']"

definition DATA_DIRS :: "string list" where
  "DATA_DIRS = [''/app/reports'', ''evidence'', ''quarantine'', ''scans'']"

definition SENSOR_CONTAINERS :: "string list" where
  "SENSOR_CONTAINERS = [''honeynet_cowrie'', ''honeynet_dionaea'', ''honeynet_honeytrap'']"

definition LIVE_SENSOR_FILES :: "string list" where
  "LIVE_SENSOR_FILES = [''cowrie/cowrie.json'', ''cowrie/cowrie.log'', ''dionaea/dionaea.json'',
     ''dionaea/dionaea.log'', ''dionaea/dionaea-errors.log'', ''honeytrap/honeytrap.json'']"

section \<open>State\<close>

datatype job_status = Idle | Running | Done | Failed

datatype job_kind = Reset_data | Populate_data nat nat

record job =
  jb_kind :: "job_kind option"
  jb_status :: job_status
  jb_lines :: "string list"
  jb_started :: "time option"
  jb_finished :: "time option"

record platform =
  pf_tables :: "(string \<times> json list) list"
  pf_settings :: "(string \<times> json) list"
  pf_dirs :: "(string \<times> string list) list"
  pf_logs :: "(string \<times> string) list"
  pf_sensors :: "(string \<times> bool) list"
  pf_attackers :: "string list"
  pf_shell :: shell_state
  pf_job :: job
  pf_locked :: bool

text \<open>What may go wrong. \<open>hz_truncates\<close> and \<open>hz_clears\<close> give the number of tables and directories
  done before the failure, \<open>hz_damage\<close> what a failed helper leaves of the log files.\<close>

record hazards =
  hz_lab_db :: bool
  hz_docker_stop :: bool
  hz_docker_start :: bool
  hz_sensor :: "bool \<Rightarrow> string \<Rightarrow> bool"
  hz_mount :: bool
  hz_helper :: bool
  hz_damage :: "(string \<times> string) list \<Rightarrow> (string \<times> string) list"
  hz_truncates :: "nat option"
  hz_clears :: "nat option"
  hz_image :: bool
  hz_builds :: bool
  hz_output :: "string list"
  hz_waits :: "string \<Rightarrow> bool"
  hz_starts :: "string \<Rightarrow> bool"
  hz_removes :: "string \<Rightarrow> bool"
  hz_inventory :: bool

definition log_line :: "string \<Rightarrow> platform \<Rightarrow> platform" where
  "log_line line pf = pf\<lparr>pf_job := (pf_job pf)\<lparr>jb_lines := take_last 300 (jb_lines (pf_job pf) @ [line])\<rparr>\<rparr>"

text \<open>A step: the exception it raises, and the state it leaves.\<close>

type_synonym pf_step = "platform \<Rightarrow> string option \<times> platform"

definition say :: "string \<Rightarrow> pf_step" where
  "say line pf = (None, log_line line pf)"

definition raising :: "bool \<Rightarrow> string \<Rightarrow> pf_step" where
  "raising fails msg pf = (if fails then Some msg else None, pf)"

definition doing :: "(platform \<Rightarrow> platform) \<Rightarrow> pf_step" where
  "doing f pf = (None, f pf)"

definition before :: "pf_step \<Rightarrow> pf_step \<Rightarrow> pf_step" where
  "before a b pf = (case a pf of (Some e, pf) \<Rightarrow> (Some e, pf) | (None, pf) \<Rightarrow> b pf)"

fun in_order :: "pf_step list \<Rightarrow> pf_step" where
  "in_order [] pf = (None, pf)"
| "in_order (s # ss) pf = before s (in_order ss) pf"

text \<open>\<open>try: a finally: b\<close>\<close>

definition finally_do :: "pf_step \<Rightarrow> pf_step \<Rightarrow> pf_step" where
  "finally_do a b pf = (case a pf of (r, pf) \<Rightarrow> (case b pf of
       (Some e, pf) \<Rightarrow> (Some e, pf) | (None, pf) \<Rightarrow> (r, pf)))"

section \<open>Reset\<close>

text \<open>The sandboxes are removed one by one, then the rows are committed together.\<close>

definition end_sandboxes :: "shell_env \<Rightarrow> hazards \<Rightarrow> time \<Rightarrow> pf_step" where
  "end_sandboxes env hz now pf =
     (let live = filter is_live (sh_sessions (pf_shell pf));
          ended_shell = fold (teardown env now) live (pf_shell pf)
      in if hz_lab_db hz then say (''  stopped '' @ str_of_nat (length live)) (pf\<lparr>pf_shell := ended_shell\<rparr>)
         else (Some ''database'', pf\<lparr>pf_shell := (pf_shell pf)\<lparr>sh_manager := sh_manager ended_shell\<rparr>\<rparr>))"

text \<open>\<open>_sensors\<close>: a sensor that does not obey is logged.\<close>

definition sensor_act :: "hazards \<Rightarrow> bool \<Rightarrow> string \<Rightarrow> platform \<Rightarrow> platform" where
  "sensor_act hz up name pf =
     (if hz_sensor hz up name then pf\<lparr>pf_sensors := AList.update name up (pf_sensors pf)\<rparr>
      else log_line (''  '' @ (if up then ''start '' else ''stop '') @ name @ '': failed'') pf)"

definition sensors_act :: "hazards \<Rightarrow> bool \<Rightarrow> pf_step" where
  "sensors_act hz up = before
     (raising (if up then \<not> hz_docker_start hz else \<not> hz_docker_stop hz) ''docker'')
     (doing (fold (sensor_act hz up) SENSOR_CONTAINERS))"

text \<open>The helper: \<open>find -delete\<close> of everything but the live files, then truncate what is left.\<close>

definition empty_logs :: "(string \<times> string) list \<Rightarrow> (string \<times> string) list" where
  "empty_logs files = map (\<lambda>(f, _). (f, [])) (filter (\<lambda>(f, _). f \<in> set LIVE_SENSOR_FILES) files)"

definition run_log_helper :: "hazards \<Rightarrow> pf_step" where
  "run_log_helper hz pf =
     (if hz_helper hz then (None, pf\<lparr>pf_logs := empty_logs (pf_logs pf)\<rparr>)
      else (Some ''helper'', pf\<lparr>pf_logs := hz_damage hz (pf_logs pf)\<rparr>))"

definition wipe_shell :: "string \<Rightarrow> shell_state \<Rightarrow> shell_state" where
  "wipe_shell t st =
     (if t = ''analysis_sessions'' then st\<lparr>sh_sessions := []\<rparr>
      else if t = ''normalized_events'' then st\<lparr>sh_events := []\<rparr>
      else if t = ''raw_events'' then st\<lparr>sh_raw := []\<rparr>
      else if t = ''incidents'' then st\<lparr>sh_incidents := []\<rparr>
      else st)"

definition truncate_table :: "string \<Rightarrow> platform \<Rightarrow> platform" where
  "truncate_table t pf =
     pf\<lparr>pf_tables := AList.update t [] (pf_tables pf), pf_shell := wipe_shell t (pf_shell pf)\<rparr>"

definition drop_settings :: "platform \<Rightarrow> platform" where
  "drop_settings pf = pf\<lparr>pf_settings := filter (\<lambda>(k, _). k \<notin> set DATA_SETTING_KEYS) (pf_settings pf)\<rparr>"

text \<open>The tables of the list that exist, in its order.\<close>

definition existing_tables :: "platform \<Rightarrow> string list" where
  "existing_tables pf = filter (\<lambda>t. t \<in> fst ` set (pf_tables pf)) DATA_TABLES"

definition wipe_tables :: "hazards \<Rightarrow> pf_step" where
  "wipe_tables hz pf =
     (case hz_truncates hz of
        None \<Rightarrow> (None, drop_settings (fold truncate_table (existing_tables pf) pf))
      | Some k \<Rightarrow> (Some ''database'', fold truncate_table (take k (existing_tables pf)) pf))"

definition clear_dir :: "string \<Rightarrow> platform \<Rightarrow> platform" where
  "clear_dir d pf = (if d \<in> fst ` set (pf_dirs pf) then pf\<lparr>pf_dirs := AList.update d [] (pf_dirs pf)\<rparr> else pf)"

definition clear_dirs :: "hazards \<Rightarrow> pf_step" where
  "clear_dirs hz pf =
     (case hz_clears hz of
        None \<Rightarrow> (None, fold clear_dir DATA_DIRS pf)
      | Some k \<Rightarrow> (Some ''unlink'', fold clear_dir (take k DATA_DIRS) pf))"

definition reset_data :: "shell_env \<Rightarrow> hazards \<Rightarrow> time \<Rightarrow> pf_step" where
  "reset_data env hz now = in_order
     [say ''stopping analysis-lab sandboxes'',
      end_sandboxes env hz now,
      say (''stopping sensors: '' @ join_str '', '' SENSOR_CONTAINERS),
      sensors_act hz False,
      finally_do
        (in_order
           [say ''emptying sensor logs (helper container, telemetry mount only)'',
            raising (\<not> hz_mount hz) ''backend has no bind mount'',
            run_log_helper hz,
            say ''wiping data tables'',
            wipe_tables hz,
            say ''clearing reports / evidence / quarantine / scans'',
            clear_dirs hz])
        (in_order [say ''starting sensors'', sensors_act hz True])]"


section \<open>Populate\<close>

text \<open>The corpus helper appends to the log files of the sensors; what it writes is an argument.\<close>

definition seed_corpus :: "hazards \<Rightarrow> (nat \<Rightarrow> (string \<times> string) list \<Rightarrow> (string \<times> string) list) \<Rightarrow> nat \<Rightarrow> pf_step" where
  "seed_corpus hz corpus n = in_order
     [say (''writing '' @ str_of_nat n @ '' historic corpus events into sensor logs''),
      raising (\<not> hz_mount hz) ''backend has no bind mount'',
      (\<lambda>pf. if hz_helper hz then (None, pf\<lparr>pf_logs := corpus n (pf_logs pf)\<rparr>)
            else (Some ''helper'', pf\<lparr>pf_logs := hz_damage hz (pf_logs pf)\<rparr>)),
      doing (fold (\<lambda>line. log_line (''  '' @ strip line)) (hz_output hz))]"

definition ensure_attacker_image :: "hazards \<Rightarrow> pf_step" where
  "ensure_attacker_image hz =
     before (raising (\<not> hz_docker_start hz) ''docker'')
       (if hz_image hz then (\<lambda>pf. (None, pf))
        else before (say ''building st-attacker image (first run, needs internet for apk)'') (raising (\<not> hz_builds hz) ''build''))"

definition attacker_name :: "string \<Rightarrow> nat \<Rightarrow> nat \<Rightarrow> string" where
  "attacker_name a stamp n = ''st-atk-'' @ a @ ''-'' @ str_of_nat stamp @ ''-'' @ str_of_nat n"

text \<open>A wave starts every actor, then waits for and removes them all; an actor that cannot be
  started raises at once.\<close>

definition start_actor :: "hazards \<Rightarrow> string \<Rightarrow> pf_step" where
  "start_actor hz name pf =
     (if hz_starts hz name then say (''  + '' @ name) (pf\<lparr>pf_attackers := pf_attackers pf @ [name]\<rparr>)
      else (Some name, pf))"

text \<open>An actor that has not ended by the deadline is removed all the same; a failed removal is ignored.\<close>

definition remove_actor :: "hazards \<Rightarrow> string \<Rightarrow> platform \<Rightarrow> platform" where
  "remove_actor hz name pf =
     (let pf = (if hz_waits hz name then pf else log_line (''  '' @ name @ '' still running at deadline'') pf)
      in if hz_removes hz name then pf\<lparr>pf_attackers := remove1 name (pf_attackers pf)\<rparr> else pf)"

definition wave :: "hazards \<Rightarrow> nat \<Rightarrow> nat \<Rightarrow> pf_step" where
  "wave hz stamp n =
     (let names = map (\<lambda>a. attacker_name a stamp n) ACTORS in
      before (in_order (map (start_actor hz) names)) (doing (fold (remove_actor hz) names)))"

definition wave_steps :: "hazards \<Rightarrow> (nat \<Rightarrow> nat) \<Rightarrow> nat \<Rightarrow> nat \<Rightarrow> pf_step" where
  "wave_steps hz stamp waves w = in_order
     [say (''live attack wave '' @ str_of_nat w @ ''/'' @ str_of_nat waves @ '': '' @ str_of_nat (length ACTORS)
        @ '' actors on '' @ EDGE_NET),
      wave hz (stamp w) w,
      (if w < waves then say ''  cooldown 25s (lets the detection engine correlate)'' else (\<lambda>pf. (None, pf)))]"

definition populate_data :: "hazards \<Rightarrow> (nat \<Rightarrow> (string \<times> string) list \<Rightarrow> (string \<times> string) list)
    \<Rightarrow> (nat \<Rightarrow> nat) \<Rightarrow> nat \<Rightarrow> nat \<Rightarrow> pf_step" where
  "populate_data hz corpus stamp amount waves = in_order
     ((if amount = 0 then [] else [seed_corpus hz corpus amount])
      @ (if waves = 0 then [] else ensure_attacker_image hz # map (wave_steps hz stamp waves) [1..<waves + 1])
      @ [say ''waiting 20s for the collector + detection engine to catch up''])"

section \<open>The job\<close>

definition new_job :: job where
  "new_job = \<lparr>jb_kind = None, jb_status = Idle, jb_lines = [], jb_started = None, jb_finished = None\<rparr>"

text \<open>The rows the inventory counts.\<close>

definition inventory_rows :: "platform \<Rightarrow> (string \<times> nat) list" where
  "inventory_rows pf = map (\<lambda>t. (t, case map_of (pf_tables pf) t of None \<Rightarrow> 0 | Some rs \<Rightarrow> length rs)) (existing_tables pf)"

definition total_rows :: "platform \<Rightarrow> nat" where
  "total_rows pf = sum_list (map snd (inventory_rows pf))"

text \<open>\<open>start\<close>: refused while the lock is held.\<close>

definition start_job :: "time \<Rightarrow> job_kind \<Rightarrow> platform \<Rightarrow> bool \<times> platform" where
  "start_job now k pf =
     (if pf_locked pf then (False, pf)
      else (True, pf\<lparr>pf_locked := True, pf_job := \<lparr>jb_kind = Some k, jb_status = Running, jb_lines = [],
             jb_started = Some now, jb_finished = None\<rparr>\<rparr>))"

record job_env =
  je_shell :: shell_env
  je_corpus :: "nat \<Rightarrow> (string \<times> string) list \<Rightarrow> (string \<times> string) list"
  je_stamp :: "nat \<Rightarrow> nat"

definition job_body :: "job_env \<Rightarrow> hazards \<Rightarrow> time \<Rightarrow> job_kind \<Rightarrow> pf_step" where
  "job_body env hz now k = (case k of
       Reset_data \<Rightarrow> reset_data (je_shell env) hz now
     | Populate_data amount waves \<Rightarrow> populate_data hz (je_corpus env) (je_stamp env) amount waves)"

definition set_status :: "job_status \<Rightarrow> platform \<Rightarrow> platform" where
  "set_status s pf = pf\<lparr>pf_job := (pf_job pf)\<lparr>jb_status := s\<rparr>\<rparr>"

text \<open>\<open>_run\<close> counts the rows after the job; whatever happens, the end is recorded and the lock released.\<close>

definition count_rows :: pf_step where
  "count_rows pf = say (''done '' @ str_of_nat (total_rows pf) @ '' data rows now'') pf"

definition job_steps :: "job_env \<Rightarrow> hazards \<Rightarrow> time \<Rightarrow> job_kind \<Rightarrow> pf_step" where
  "job_steps env hz now k = in_order [job_body env hz now k, raising (\<not> hz_inventory hz) ''inventory'', count_rows]"

definition run_job :: "job_env \<Rightarrow> hazards \<Rightarrow> time \<Rightarrow> job_kind \<Rightarrow> platform \<Rightarrow> platform" where
  "run_job env hz now k pf =
     (case job_steps env hz now k pf of (r, pf) \<Rightarrow>
          let pf = (case r of None \<Rightarrow> set_status Done pf
                   | Some e \<Rightarrow> set_status Failed (log_line (''FAILED: '' @ e) pf))
          in pf\<lparr>pf_locked := False, pf_job := (pf_job pf)\<lparr>jb_finished := Some now\<rparr>\<rparr>)"

section \<open>The endpoints\<close>

definition as_data_admin :: "identity_env \<Rightarrow> time \<Rightarrow> caller \<Rightarrow> identity_db
    \<Rightarrow> (platform \<Rightarrow> (http_error + bool) \<times> platform) \<Rightarrow> platform \<Rightarrow> (http_error + bool) \<times> platform" where
  "as_data_admin ident now who db act pf =
     (case fst (require_role ident now [''ADMIN''] who db) of
        Inl e \<Rightarrow> (Inl e, pf) | Inr _ \<Rightarrow> act pf)"

definition data_populate :: "identity_env \<Rightarrow> time \<Rightarrow> caller \<Rightarrow> identity_db \<Rightarrow> int \<Rightarrow> int
    \<Rightarrow> platform \<Rightarrow> (http_error + bool) \<times> platform" where
  "data_populate ident now who db amount waves = as_data_admin ident now who db (\<lambda>pf.
     if \<not> (0 \<le> amount \<and> amount \<le> 60000 \<and> 0 \<le> waves \<and> waves \<le> 3) then (Inl (422, ''Unprocessable Entity''), pf)
     else if amount = 0 \<and> waves = 0 then (Inl (400, ''nothing to do: corpus_events and live_waves are both 0''), pf)
     else (case start_job now (Populate_data (nat amount) (nat waves)) pf of (ok, pf) \<Rightarrow> (Inr ok, pf)))"

definition data_reset :: "identity_env \<Rightarrow> time \<Rightarrow> caller \<Rightarrow> identity_db \<Rightarrow> string
    \<Rightarrow> platform \<Rightarrow> (http_error + bool) \<times> platform" where
  "data_reset ident now who db confirm = as_data_admin ident now who db (\<lambda>pf.
     if confirm \<noteq> ''RESET'' then (Inl (400, ''type RESET to confirm''), pf)
     else (case start_job now Reset_data pf of (ok, pf) \<Rightarrow> (Inr ok, pf)))"


section \<open>What steps keep\<close>

text \<open>A step keeps a relation when it relates the state before and the state after it, however it
  ends; a reflexive and transitive relation is respected by sequences, cleanup and the rest.\<close>

definition keeps :: "(platform \<Rightarrow> platform \<Rightarrow> bool) \<Rightarrow> pf_step \<Rightarrow> bool" where
  "keeps R s \<longleftrightarrow> (\<forall>pf. R pf (snd (s pf)))"

locale frame_relation =
  fixes R :: "platform \<Rightarrow> platform \<Rightarrow> bool"
  assumes same: "R pf pf"
    and chain: "R pf qf \<Longrightarrow> R qf rf \<Longrightarrow> R pf rf"
begin

lemma keeps_doing: "(\<And>pf. R pf (f pf)) \<Longrightarrow> keeps R (doing f)"
  by (simp add: keeps_def doing_def)

lemma keeps_raising: "keeps R (raising b msg)"
  by (simp add: keeps_def raising_def same)

lemma keeps_before: "keeps R a \<Longrightarrow> keeps R b \<Longrightarrow> keeps R (before a b)"
  by (auto simp: keeps_def before_def split: prod.splits option.splits) (metis chain snd_conv)+

lemma keeps_in_order: "list_all (keeps R) ss \<Longrightarrow> keeps R (in_order ss)"
proof (induction ss)
  case (Cons s ss)
  then show ?case using keeps_before[of s "in_order ss"] by (simp add: keeps_def)
qed (simp add: keeps_def same)

lemma keeps_finally: "keeps R a \<Longrightarrow> keeps R b \<Longrightarrow> keeps R (finally_do a b)"
  by (auto simp: keeps_def finally_do_def split: prod.splits option.splits) (metis chain snd_conv)+

lemma keeps_fold: "(\<And>x pf. R pf (f x pf)) \<Longrightarrow> R pf (fold f xs pf)"
proof (induction xs arbitrary: pf)
  case (Cons x xs)
  then show ?case using chain by (metis fold_simps(2))
qed (simp add: same)

end

text \<open>Everything a reset or a population may not touch.\<close>

definition spared :: "platform \<Rightarrow> platform \<Rightarrow> bool" where
  "spared pf qf \<longleftrightarrow>
     (\<forall>t. t \<notin> set DATA_TABLES \<longrightarrow> map_of (pf_tables qf) t = map_of (pf_tables pf) t)
     \<and> (\<forall>k. k \<notin> set DATA_SETTING_KEYS \<longrightarrow> map_of (pf_settings qf) k = map_of (pf_settings pf) k)
     \<and> (\<forall>d. d \<notin> set DATA_DIRS \<longrightarrow> map_of (pf_dirs qf) d = map_of (pf_dirs pf) d)
     \<and> (\<forall>n. n \<notin> set SENSOR_CONTAINERS \<longrightarrow> map_of (pf_sensors qf) n = map_of (pf_sensors pf) n)"

interpretation spared: frame_relation spared
  by unfold_locales (auto simp: spared_def)

text \<open>What happens to the job while it runs: only its lines change, and at most 300 are kept.\<close>

definition lines_only :: "platform \<Rightarrow> platform \<Rightarrow> bool" where
  "lines_only pf qf \<longleftrightarrow>
     pf_locked qf = pf_locked pf \<and> jb_kind (pf_job qf) = jb_kind (pf_job pf)
     \<and> jb_status (pf_job qf) = jb_status (pf_job pf) \<and> jb_started (pf_job qf) = jb_started (pf_job pf)
     \<and> jb_finished (pf_job qf) = jb_finished (pf_job pf)
     \<and> (length (jb_lines (pf_job pf)) \<le> 300 \<longrightarrow> length (jb_lines (pf_job qf)) \<le> 300)"

interpretation lines_only: frame_relation lines_only
  by unfold_locales (auto simp: lines_only_def)

lemma log_line_frames: "spared pf (log_line l pf)" "lines_only pf (log_line l pf)"
  by (simp_all add: spared_def lines_only_def log_line_def)

lemma say_frames: "keeps spared (say l)" "keeps lines_only (say l)"
  by (simp_all add: keeps_def say_def log_line_frames)

lemma sensor_act_frames:
  "name \<in> set SENSOR_CONTAINERS \<Longrightarrow> spared pf (sensor_act hz up name pf)" "lines_only pf (sensor_act hz up name pf)"
  by (auto simp: sensor_act_def log_line_frames) (auto simp: spared_def lines_only_def update_conv')

lemma fold_within:
  assumes "frame_relation R" "\<And>x pf. x \<in> A \<Longrightarrow> R pf (f x pf)" "set xs \<subseteq> A"
  shows "R pf (fold f xs pf)"
  using assms(3)
proof (induction xs arbitrary: pf)
  case Nil
  then show ?case using frame_relation.same[OF assms(1)] by simp
next
  case (Cons x xs)
  then show ?case using frame_relation.chain[OF assms(1)] assms(2) by (metis fold_simps(2) insert_subset list.simps(15))
qed

lemma sensors_act_frames: "keeps spared (sensors_act hz up)" "keeps lines_only (sensors_act hz up)"
proof -
  have "spared pf (fold (sensor_act hz up) SENSOR_CONTAINERS pf)" for pf
    by (rule fold_within[OF spared.frame_relation_axioms sensor_act_frames(1) subset_refl])
  then show "keeps spared (sensors_act hz up)"
    unfolding sensors_act_def by (intro spared.keeps_before spared.keeps_raising spared.keeps_doing)
  show "keeps lines_only (sensors_act hz up)"
    unfolding sensors_act_def
    by (intro lines_only.keeps_before lines_only.keeps_raising lines_only.keeps_doing
        lines_only.keeps_fold sensor_act_frames)
qed

lemma end_sandboxes_frames: "keeps spared (end_sandboxes env hz now)" "keeps lines_only (end_sandboxes env hz now)"
  by (auto simp: keeps_def end_sandboxes_def Let_def say_def spared_def lines_only_def log_line_def)

lemma log_helper_frames: "keeps spared (run_log_helper hz)" "keeps lines_only (run_log_helper hz)"
  by (auto simp: keeps_def run_log_helper_def spared_def lines_only_def)

lemma truncate_frames:
  "t \<in> set DATA_TABLES \<Longrightarrow> spared pf (truncate_table t pf)" "lines_only pf (truncate_table t pf)"
  by (auto simp: truncate_table_def spared_def lines_only_def update_conv')

lemma clear_dir_frames:
  "d \<in> set DATA_DIRS \<Longrightarrow> spared pf (clear_dir d pf)" "lines_only pf (clear_dir d pf)"
  by (auto simp: clear_dir_def spared_def lines_only_def update_conv')

lemma drop_settings_frames: "spared pf (drop_settings pf)" "lines_only pf (drop_settings pf)"
proof -
  have "map_of (filter (\<lambda>(k, _). k \<notin> A) xs) k = map_of xs k" if "k \<notin> A" for k A and xs :: "(string \<times> json) list"
    using that by (induction xs) auto
  then show "spared pf (drop_settings pf)" by (simp add: spared_def drop_settings_def)
  show "lines_only pf (drop_settings pf)" by (simp add: lines_only_def drop_settings_def)
qed

lemma wipe_tables_frames: "keeps spared (wipe_tables hz)" "keeps lines_only (wipe_tables hz)"
proof -
  have sub: "set (take k (existing_tables pf)) \<subseteq> set DATA_TABLES" "set (existing_tables pf) \<subseteq> set DATA_TABLES" for k pf
    using set_take_subset[of k "existing_tables pf"] by (auto simp: existing_tables_def)
  have "spared pf (fold truncate_table ts pf)" if "set ts \<subseteq> set DATA_TABLES" for ts pf
    by (rule fold_within[OF spared.frame_relation_axioms truncate_frames(1) that])
  then show "keeps spared (wipe_tables hz)"
    using sub spared.chain[OF _ drop_settings_frames(1)] by (auto simp: keeps_def wipe_tables_def split: option.splits)
  show "keeps lines_only (wipe_tables hz)"
    using lines_only.chain[OF _ drop_settings_frames(2)] lines_only.keeps_fold[of truncate_table, OF truncate_frames(2)]
    by (auto simp: keeps_def wipe_tables_def split: option.splits)
qed

lemma clear_dirs_frames: "keeps spared (clear_dirs hz)" "keeps lines_only (clear_dirs hz)"
proof -
  have "spared pf (fold clear_dir (take k DATA_DIRS) pf)" "spared pf (fold clear_dir DATA_DIRS pf)" for k pf
    using set_take_subset[of k DATA_DIRS]
    by (auto intro!: fold_within[OF spared.frame_relation_axioms clear_dir_frames(1)])
  then show "keeps spared (clear_dirs hz)" by (auto simp: keeps_def clear_dirs_def split: option.splits)
  show "keeps lines_only (clear_dirs hz)"
    using lines_only.keeps_fold[of clear_dir, OF clear_dir_frames(2)]
    by (auto simp: keeps_def clear_dirs_def split: option.splits)
qed

lemmas step_frames = say_frames sensors_act_frames end_sandboxes_frames log_helper_frames wipe_tables_frames
  clear_dirs_frames

lemma reset_frames: "keeps spared (reset_data env hz now)" "keeps lines_only (reset_data env hz now)"
  unfolding reset_data_def
  by (intro spared.keeps_in_order; simp add: step_frames spared.keeps_raising spared.keeps_finally spared.keeps_in_order)
    (intro lines_only.keeps_in_order; simp add: step_frames lines_only.keeps_raising lines_only.keeps_finally lines_only.keeps_in_order)


lemma silent_frames: "keeps spared (\<lambda>pf. (None, pf))" "keeps lines_only (\<lambda>pf. (None, pf))"
  by (simp_all add: keeps_def spared.same lines_only.same)

lemma corpus_frames: "keeps spared (seed_corpus hz corpus n)" "keeps lines_only (seed_corpus hz corpus n)"
proof -
  let ?writing = "\<lambda>pf. if hz_helper hz then (None, pf\<lparr>pf_logs := corpus n (pf_logs pf)\<rparr>)
            else (Some ''helper'', pf\<lparr>pf_logs := hz_damage hz (pf_logs pf)\<rparr>)"
  let ?print = "fold (\<lambda>line. log_line (''  '' @ strip line)) (hz_output hz)"
  have "keeps spared ?writing" "keeps lines_only ?writing" by (auto simp: keeps_def spared_def lines_only_def)
  moreover have "keeps spared (doing ?print)" "keeps lines_only (doing ?print)"
    by (intro spared.keeps_doing spared.keeps_fold log_line_frames, intro lines_only.keeps_doing lines_only.keeps_fold log_line_frames)
  ultimately show "keeps spared (seed_corpus hz corpus n)" "keeps lines_only (seed_corpus hz corpus n)"
    unfolding seed_corpus_def
    by (simp_all add: spared.keeps_in_order lines_only.keeps_in_order say_frames spared.keeps_raising
        lines_only.keeps_raising del: in_order.simps)
qed

lemma actor_frames: "keeps spared (start_actor hz name)" "keeps lines_only (start_actor hz name)"
  "spared pf (remove_actor hz name pf)" "lines_only pf (remove_actor hz name pf)"
  by (auto simp: keeps_def start_actor_def remove_actor_def say_def log_line_def spared_def lines_only_def)

lemma wave_frames: "keeps spared (wave_steps hz stamp waves w)" "keeps lines_only (wave_steps hz stamp waves w)"
proof -
  have "keeps spared (wave hz n w)" "keeps lines_only (wave hz n w)" for n
    unfolding wave_def Let_def
    by (intro spared.keeps_before spared.keeps_in_order spared.keeps_doing spared.keeps_fold actor_frames;
        simp add: list_all_iff actor_frames)
      (intro lines_only.keeps_before lines_only.keeps_in_order lines_only.keeps_doing lines_only.keeps_fold actor_frames;
        simp add: list_all_iff actor_frames)
  then show "keeps spared (wave_steps hz stamp waves w)" "keeps lines_only (wave_steps hz stamp waves w)"
    unfolding wave_steps_def
    by (simp_all add: spared.keeps_in_order lines_only.keeps_in_order say_frames silent_frames del: in_order.simps)
qed

lemma image_frames: "keeps spared (ensure_attacker_image hz)" "keeps lines_only (ensure_attacker_image hz)"
  unfolding ensure_attacker_image_def
  by (simp_all add: spared.keeps_before spared.keeps_raising lines_only.keeps_before lines_only.keeps_raising
      say_frames silent_frames)

lemma populate_frames:
  "keeps spared (populate_data hz corpus stamp amount waves)" "keeps lines_only (populate_data hz corpus stamp amount waves)"
  unfolding populate_data_def
  by (intro spared.keeps_in_order; simp add: list_all_iff say_frames corpus_frames image_frames wave_frames)
    (intro lines_only.keeps_in_order; simp add: list_all_iff say_frames corpus_frames image_frames wave_frames)

lemma job_frames: "keeps spared (job_body env hz now k)" "keeps lines_only (job_body env hz now k)"
  by (cases k; simp add: job_body_def reset_frames populate_frames)+

lemma job_steps_frames: "keeps spared (job_steps env hz now k)" "keeps lines_only (job_steps env hz now k)"
proof -
  have "keeps spared count_rows" "keeps lines_only count_rows"
    using say_frames by (auto simp: keeps_def count_rows_def)
  then show "keeps spared (job_steps env hz now k)" "keeps lines_only (job_steps env hz now k)"
    unfolding job_steps_def
    by (simp_all add: spared.keeps_in_order lines_only.keeps_in_order job_frames spared.keeps_raising lines_only.keeps_raising
        del: in_order.simps)
qed

lemma run_job_spared: "spared pf (run_job env hz now k pf)"
proof -
  obtain r qf where w: "job_steps env hz now k pf = (r, qf)" by (metis surj_pair)
  have "spared pf qf" using job_steps_frames(1)[of env hz now k] w by (metis keeps_def snd_conv)
  then show ?thesis
    by (simp add: run_job_def w Let_def set_status_def spared_def log_line_def split: option.splits)
qed

section \<open>The guarantees\<close>



definition sensors_up :: "platform \<Rightarrow> bool" where
  "sensors_up pf \<longleftrightarrow> list_all (\<lambda>n. map_of (pf_sensors pf) n = Some True) SENSOR_CONTAINERS"

lemma sensors_of_logs [simp]: "pf_sensors (log_line l pf) = pf_sensors pf"
  by (simp add: log_line_def)

lemma fold_sensor_up:
  assumes "\<And>n. n \<in> set ns \<Longrightarrow> hz_sensor hz True n"
  shows "map_of (pf_sensors (fold (sensor_act hz True) ns pf)) n = (if n \<in> set ns then Some True else map_of (pf_sensors pf) n)"
  using assms by (induction ns arbitrary: pf) (auto simp: sensor_act_def update_conv')

lemma sensors_started:
  assumes "hz_docker_start hz" "\<And>n. n \<in> set SENSOR_CONTAINERS \<Longrightarrow> hz_sensor hz True n"
  shows "sensors_up (snd (sensors_act hz True pf))"
  using assms fold_sensor_up[of SENSOR_CONTAINERS hz]
  by (simp add: sensors_act_def before_def raising_def doing_def sensors_up_def list_all_iff)

lemma sensors_up_finally:
  assumes "\<And>qf. sensors_up (snd (b qf))" shows "sensors_up (snd (finally_do a b pf))"
  using assms by (auto simp: finally_do_def split: prod.splits option.splits) (metis snd_conv)+

text \<open>A reset leaves the sensors running: when they run before it and start again when asked to,
  they run after it, whether the reset succeeds or fails in any of its steps.\<close>

theorem sensors_come_back:
  assumes "list_all (\<lambda>n. map_of (pf_sensors pf) n = Some True) SENSOR_CONTAINERS"
    and "hz_docker_start hz" "list_all (hz_sensor hz True) SENSOR_CONTAINERS"
  shows "list_all (\<lambda>n. map_of (pf_sensors (snd (reset_data env hz now pf))) n = Some True) SENSOR_CONTAINERS"
proof -
  have start: "sensors_up (snd (in_order [say ''starting sensors'', sensors_act hz True] qf))" for qf
    using sensors_started[of hz "log_line ''starting sensors'' qf"] assms(2,3)
    by (auto simp: before_def say_def list_all_iff split: prod.splits option.splits)
  have tail: "sensors_up (snd (in_order [finally_do a (in_order [say ''starting sensors'', sensors_act hz True])] qf))" for a qf
  proof -
    obtain r q where f: "finally_do a (in_order [say ''starting sensors'', sensors_act hz True]) qf = (r, q)" by (metis surj_pair)
    have "sensors_up (snd (finally_do a (in_order [say ''starting sensors'', sensors_act hz True]) qf))"
      by (rule sensors_up_finally) (rule start)
    then have "sensors_up q" by (simp only: f snd_conv)
    then show ?thesis by (cases r) (simp_all only: in_order.simps before_def f prod.case option.case snd_conv)
  qed
  obtain r qf where sandboxes: "end_sandboxes env hz now (log_line ''stopping analysis-lab sandboxes'' pf) = (r, qf)"
    by (metis surj_pair)
  have qf: "pf_sensors qf = pf_sensors pf" using sandboxes
    by (auto simp: end_sandboxes_def Let_def say_def split: if_splits)
  have "sensors_up (snd (reset_data env hz now pf))"
  proof (cases "r = None \<and> hz_docker_stop hz")
    case True
    then show ?thesis
      using tail by (simp add: reset_data_def before_def say_def sandboxes sensors_act_def raising_def doing_def del: in_order.simps(1))
  next
    case False
    then show ?thesis using qf assms(1)
      by (cases r) (auto simp: reset_data_def before_def say_def sandboxes sensors_act_def raising_def sensors_up_def)
  qed
  then show ?thesis by (simp add: sensors_up_def)
qed


theorem sensors_come_back_witness:
  "\<forall>env now shell. list_all (\<lambda>n. map_of (pf_sensors (snd (reset_data env
       \<lparr>hz_lab_db = True, hz_docker_stop = True, hz_docker_start = True, hz_sensor = (\<lambda>_ _. True), hz_mount = False,
        hz_helper = True, hz_damage = id, hz_truncates = None, hz_clears = None, hz_image = True, hz_builds = True, hz_output = [], hz_waits = (\<lambda>_. True),
        hz_starts = (\<lambda>_. True), hz_removes = (\<lambda>_. True), hz_inventory = True\<rparr> now
       \<lparr>pf_tables = [], pf_settings = [], pf_dirs = [], pf_logs = [], pf_sensors = map (\<lambda>n. (n, True)) SENSOR_CONTAINERS,
        pf_attackers = [], pf_shell = shell, pf_job = new_job, pf_locked = False\<rparr>))) n = Some True) SENSOR_CONTAINERS"
  by (intro allI sensors_come_back) (simp_all add: SENSOR_CONTAINERS_def)

section \<open>What a reset removes\<close>

lemma truncated_lookup:
  "map_of (pf_tables (fold truncate_table ts pf)) t = (if t \<in> set ts then Some [] else map_of (pf_tables pf) t)"
  by (induction ts arbitrary: pf) (auto simp: truncate_table_def update_conv')

lemma truncate_frame [simp]:
  "pf_settings (fold truncate_table ts pf) = pf_settings pf" "pf_dirs (fold truncate_table ts pf) = pf_dirs pf"
  "pf_logs (fold truncate_table ts pf) = pf_logs pf"
  by (induction ts arbitrary: pf) (simp_all add: truncate_table_def)

lemma drop_settings_frame [simp]:
  "pf_tables (drop_settings pf) = pf_tables pf" "pf_dirs (drop_settings pf) = pf_dirs pf" "pf_logs (drop_settings pf) = pf_logs pf"
  by (simp_all add: drop_settings_def)

lemma cleared_lookup:
  "map_of (pf_dirs (fold clear_dir ds pf)) d
     = (if d \<in> set ds \<and> d \<in> fst ` set (pf_dirs pf) then Some [] else map_of (pf_dirs pf) d)"
proof (induction ds arbitrary: pf)
  case (Cons e ds)
  have "fst ` set (pf_dirs (clear_dir e pf)) = fst ` set (pf_dirs pf)"
    by (auto simp: clear_dir_def dom_update)
  then show ?case using Cons[of "clear_dir e pf"] by (auto simp: clear_dir_def update_conv')
qed simp

lemma clear_frame [simp]:
  "pf_tables (fold clear_dir ds pf) = pf_tables pf" "pf_settings (fold clear_dir ds pf) = pf_settings pf"
  "pf_logs (fold clear_dir ds pf) = pf_logs pf"
  by (induction ds arbitrary: pf) (simp_all add: clear_dir_def)

lemma sensors_frame:
  "pf_tables (snd (sensors_act hz up pf)) = pf_tables pf" "pf_settings (snd (sensors_act hz up pf)) = pf_settings pf"
  "pf_dirs (snd (sensors_act hz up pf)) = pf_dirs pf" "pf_logs (snd (sensors_act hz up pf)) = pf_logs pf"
proof -
  have "pf_tables (fold (sensor_act hz up) ns pf) = pf_tables pf \<and> pf_settings (fold (sensor_act hz up) ns pf) = pf_settings pf
    \<and> pf_dirs (fold (sensor_act hz up) ns pf) = pf_dirs pf \<and> pf_logs (fold (sensor_act hz up) ns pf) = pf_logs pf" for ns
    by (induction ns arbitrary: pf) (simp_all add: sensor_act_def log_line_def)
  then show "pf_tables (snd (sensors_act hz up pf)) = pf_tables pf" "pf_settings (snd (sensors_act hz up pf)) = pf_settings pf"
    "pf_dirs (snd (sensors_act hz up pf)) = pf_dirs pf" "pf_logs (snd (sensors_act hz up pf)) = pf_logs pf"
    by (simp_all add: sensors_act_def before_def raising_def doing_def)
qed

lemma empty_logs_live: "list_all (\<lambda>(f, text). f \<in> set LIVE_SENSOR_FILES \<and> text = []) (empty_logs files)"
  by (auto simp: empty_logs_def list_all_iff)

definition wiped :: "platform \<Rightarrow> bool" where
  "wiped pf \<longleftrightarrow>
     list_all (\<lambda>t. map_of (pf_tables pf) t \<in> {None, Some []}) DATA_TABLES
     \<and> list_all (\<lambda>(k, _). k \<notin> set DATA_SETTING_KEYS) (pf_settings pf)
     \<and> list_all (\<lambda>d. map_of (pf_dirs pf) d \<in> {None, Some []}) DATA_DIRS
     \<and> list_all (\<lambda>(f, text). f \<in> set LIVE_SENSOR_FILES \<and> text = []) (pf_logs pf)"

lemma wiped_by_steps:
  assumes "hz_truncates hz = None" "hz_clears hz = None" "hz_helper hz" "hz_mount hz"
  shows "\<exists>qf. in_order [say a, raising (\<not> hz_mount hz) b, run_log_helper hz, say c, wipe_tables hz, say d, clear_dirs hz] pf
      = (None, qf) \<and> wiped qf"
proof -
  let ?p1 = "log_line c ((log_line a pf)\<lparr>pf_logs := empty_logs (pf_logs pf)\<rparr>)"
  let ?p2 = "log_line d (drop_settings (fold truncate_table (existing_tables ?p1) ?p1))"
  let ?q = "fold clear_dir DATA_DIRS ?p2"
  have "map_of (pf_tables ?q) t \<in> {None, Some []}" if "t \<in> set DATA_TABLES" for t
    using that by (auto simp: log_line_def truncated_lookup existing_tables_def map_of_eq_None_iff)
  moreover have "map_of (pf_dirs ?q) d \<in> {None, Some []}" if "d \<in> set DATA_DIRS" for d
    using that by (auto simp: cleared_lookup map_of_eq_None_iff)
  moreover have "list_all (\<lambda>(k, _). k \<notin> set DATA_SETTING_KEYS) (pf_settings ?q)"
    by (auto simp: log_line_def drop_settings_def list_all_iff)
  moreover have "pf_logs ?q = empty_logs (pf_logs pf)" by (simp add: log_line_def)
  ultimately have "wiped ?q" unfolding wiped_def list_all_iff using empty_logs_live[of "pf_logs pf"] by (simp add: list_all_iff)
  moreover have "in_order [say a, raising (\<not> hz_mount hz) b, run_log_helper hz, say c, wipe_tables hz, say d, clear_dirs hz] pf = (None, ?q)"
    using assms by (simp add: before_def say_def raising_def run_log_helper_def wipe_tables_def clear_dirs_def)
      (simp add: log_line_def)
  ultimately show ?thesis by blast
qed

text \<open>A reset that meets no failure succeeds and leaves no data: every data table that exists is
  empty, the listed settings are gone, the data directories are empty, and of the telemetry only
  the live sensor files are left, empty.\<close>

theorem reset_removes_all_data:
  assumes "hz_lab_db hz" "hz_docker_stop hz" "hz_docker_start hz" "hz_mount hz" "hz_helper hz"
    and "hz_truncates hz = None" "hz_clears hz = None"
  shows "fst (reset_data env hz now pf) = None \<and> wiped (snd (reset_data env hz now pf))"
proof -
  obtain q0 where sandboxes: "end_sandboxes env hz now (log_line ''stopping analysis-lab sandboxes'' pf) = (None, q0)"
    using assms(1) by (simp add: end_sandboxes_def Let_def say_def)
  let ?q1 = "fold (sensor_act hz False) SENSOR_CONTAINERS (log_line (''stopping sensors: '' @ join_str '', '' SENSOR_CONTAINERS) q0)"
  obtain q where wipe: "in_order [say ''emptying sensor logs (helper container, telemetry mount only)'',
            raising (\<not> hz_mount hz) ''backend has no bind mount'', run_log_helper hz, say ''wiping data tables'',
            wipe_tables hz, say ''clearing reports / evidence / quarantine / scans'', clear_dirs hz] ?q1 = (None, q)" "wiped q"
    using wiped_by_steps[OF assms(6,7,5,4)] by metis
  let ?finish = "fold (sensor_act hz True) SENSOR_CONTAINERS (log_line ''starting sensors'' q)"
  have "reset_data env hz now pf = (None, ?finish)"
    unfolding reset_data_def
    using wipe(1) assms(2,3)
    by (simp add: before_def say_def sandboxes sensors_act_def raising_def doing_def finally_do_def)
  moreover have "wiped ?finish"
    using wipe(2) sensors_frame[of hz True "log_line ''starting sensors'' q"] assms(3)
    by (simp add: wiped_def log_line_def sensors_act_def before_def raising_def doing_def)
  ultimately show ?thesis by simp
qed


definition calm :: hazards where
  "calm = \<lparr>hz_lab_db = True, hz_docker_stop = True, hz_docker_start = True, hz_sensor = (\<lambda>_ _. True), hz_mount = True,
     hz_helper = True, hz_damage = id, hz_truncates = None, hz_clears = None, hz_image = True, hz_builds = True, hz_output = [], hz_waits = (\<lambda>_. True),
     hz_starts = (\<lambda>_. True), hz_removes = (\<lambda>_. True), hz_inventory = True\<rparr>"

theorem reset_removes_all_data_witness:
  "\<forall>env now pf. fst (reset_data env calm now pf) = None \<and> wiped (snd (reset_data env calm now pf))"
  using reset_removes_all_data[of calm] by (simp add: calm_def)

section \<open>One job at a time\<close>

text \<open>What happens to the job: somebody asks for one through the API, or the running one ends.\<close>

datatype job_event =
    Ask_populate time caller identity_db int int
  | Ask_reset time caller identity_db string
  | Job_ends hazards time

fun job_step :: "job_env \<Rightarrow> identity_env \<Rightarrow> platform \<Rightarrow> job_event \<Rightarrow> platform" where
  "job_step env ident pf (Ask_populate now who db amount waves) = snd (data_populate ident now who db amount waves pf)"
| "job_step env ident pf (Ask_reset now who db confirm) = snd (data_reset ident now who db confirm pf)"
| "job_step env ident pf (Job_ends hz now) = (case jb_kind (pf_job pf) of
       None \<Rightarrow> pf
     | Some k \<Rightarrow> if pf_locked pf then run_job env hz now k pf else pf)"

definition job_ok :: "platform \<Rightarrow> bool" where
  "job_ok pf \<longleftrightarrow>
     (pf_locked pf \<longleftrightarrow> jb_status (pf_job pf) = Running)
     \<and> (jb_status (pf_job pf) = Idle \<longleftrightarrow> jb_kind (pf_job pf) = None)
     \<and> (jb_finished (pf_job pf) = None \<longleftrightarrow> jb_status (pf_job pf) \<in> {Idle, Running})
     \<and> (jb_started (pf_job pf) = None \<longleftrightarrow> jb_status (pf_job pf) = Idle)
     \<and> (case jb_kind (pf_job pf) of Some (Populate_data amount waves) \<Rightarrow> amount \<le> 60000 \<and> waves \<le> 3 \<and> 0 < amount + waves
        | _ \<Rightarrow> True)
     \<and> length (jb_lines (pf_job pf)) \<le> 300"

lemma start_job_ok:
  assumes "job_ok pf" "case k of Populate_data amount waves \<Rightarrow> amount \<le> 60000 \<and> waves \<le> 3 \<and> 0 < amount + waves | Reset_data \<Rightarrow> True"
  shows "job_ok (snd (start_job now k pf))"
  using assms by (auto simp: start_job_def job_ok_def split: job_kind.splits)

lemma run_job_ok:
  assumes "job_ok pf" "pf_locked pf" shows "job_ok (run_job env hz now k pf)"
proof -
  obtain r qf where w: "job_steps env hz now k pf = (r, qf)" by (metis surj_pair)
  have "lines_only pf qf" using job_steps_frames(2)[of env hz now k] w by (metis keeps_def snd_conv)
  then show ?thesis
    using assms by (auto simp: run_job_def w Let_def set_status_def lines_only_def log_line_def job_ok_def
        split: option.splits)
qed

lemma data_populate_ok: "job_ok pf \<Longrightarrow> job_ok (snd (data_populate ident now who db amount waves pf))"
  using start_job_ok[of pf "Populate_data (nat amount) (nat waves)" now]
  by (auto simp: data_populate_def as_data_admin_def nat_le_iff split: sum.splits prod.splits)

lemma data_reset_ok: "job_ok pf \<Longrightarrow> job_ok (snd (data_reset ident now who db confirm pf))"
  using start_job_ok[of pf Reset_data now]
  by (auto simp: data_reset_def as_data_admin_def split: sum.splits prod.splits)

interpretation data_jobs: event_machine "job_step env ident" job_ok
proof unfold_locales
  fix pf oper assume "job_ok pf"
  then show "job_ok (job_step env ident pf oper)"
    by (cases oper) (auto simp: data_populate_ok data_reset_ok run_job_ok split: option.splits)
qed

definition at_rest :: "platform \<Rightarrow> platform" where
  "at_rest pf = pf\<lparr>pf_job := new_job, pf_locked := False\<rparr>"

text \<open>However requests and job ends are interleaved, and whatever fails inside a job: the lock is
  held exactly while a job is running, a job that is not running has an end time, a population is
  within the bounds of the request, and at most 300 lines of the job's log are kept.\<close>

theorem one_data_job_at_a_time:
  "job_ok (foldl (job_step env ident) (at_rest pf) es)"
  by (rule data_jobs.run_inv) (simp add: job_ok_def at_rest_def new_job_def)

text \<open>While a job runs, no request changes anything.\<close>

lemma busy_refuses:
  assumes "pf_locked pf"
  shows "snd (data_populate ident now who db amount waves pf) = pf" "snd (data_reset ident now who db confirm pf) = pf"
  using assms by (auto simp: data_populate_def data_reset_def as_data_admin_def start_job_def split: sum.splits)

text \<open>A wave that cannot start one of its actors leaves the ones it started running.\<close>

lemma failed_wave_leaves_attackers:
  assumes "hz_starts hz = (\<lambda>name. name \<noteq> attacker_name ''handson'' stamp n)"
  shows "\<exists>e qf. wave hz stamp n pf = (Some e, qf) \<and> pf_attackers qf = pf_attackers pf @ [attacker_name ''mirai'' stamp n]"
proof -
  have ne: "attacker_name ''mirai'' stamp n \<noteq> attacker_name ''handson'' stamp n" by (simp add: attacker_name_def)
  then show ?thesis using assms
    by (simp add: wave_def Let_def ACTORS_def before_def start_actor_def say_def log_line_def)
qed

end
