(* ===== verification/Profiler.thy ===== *)
theory Profiler
  imports Local_Source "HOL-Library.Option_ord"
begin

text \<open>
  The behaviour profiler (\<open>backend/app/ai_engine/gnn_profiler.py\<close>): captured events become a
  graph of addresses, services, commands, payloads and sandbox sessions, a map of the observed
  tactics, and a classification of the activity.

  The \<open>json.loads\<close> of a raw payload is an argument (\<open>None\<close> when it raises), and so is what
  \<open>networkx\<close> computes from the graph. A payload that is JSON but no object makes the code raise;
  the construction is then \<open>None\<close>. Arrows in log lines are printed as \<open>->\<close>. The field
  \<open>node_lookup\<close> is the association list from node keys to node numbers.
\<close>

record captured =
  cv_timestamp :: "time option"
  cv_ip :: "string option"
  cv_port :: "int option"
  cv_protocol :: "string option"
  cv_honeypot :: "string option"
  cv_session :: "string option"
  cv_type :: "string option"
  cv_commands :: "string option"
  cv_uploaded :: "string option"
  cv_scanned :: "string option"
  cv_payload :: "string option"

record graph_node =
  gn_id :: nat
  gn_label :: string
  gn_color :: string
  gn_shape :: string
  gn_size :: nat

record graph_edge =
  ge_from :: nat
  ge_to :: nat
  ge_label :: string

record log_entry =
  le_time :: string
  le_user :: string
  le_color :: string
  le_msg :: string

record profiler =
  pr_nodes :: "graph_node list"
  pr_edges :: "graph_edge list"
  pr_lookup :: "(string \<times> nat) list"
  pr_mitre :: "(string \<times> string list) list"
  pr_logs :: "log_entry list"
  pr_prev :: "(string \<times> (nat \<times> nat)) list"

definition TACTICS :: "string list" where
  "TACTICS = [''initial_access'', ''execution'', ''persistence'', ''priv_esc'', ''defense_evasion'', ''c2'', ''impact'']"

definition new_profiler :: profiler where
  "new_profiler = \<lparr>pr_nodes = [], pr_edges = [], pr_lookup = [], pr_mitre = map (\<lambda>t. (t, [])) TACTICS,
     pr_logs = [], pr_prev = []\<rparr>"

text \<open>\<open>v or d\<close> for a nullable text, and the truth value of one.\<close>

definition text_or :: "string \<Rightarrow> string option \<Rightarrow> string" where
  "text_or d v = (case v of None \<Rightarrow> d | Some [] \<Rightarrow> d | Some s \<Rightarrow> s)"

definition nonblank :: "string option \<Rightarrow> bool" where
  "nonblank v \<longleftrightarrow> v \<noteq> None \<and> v \<noteq> Some []"

text \<open>\<open>strftime("%H:%M:%S")\<close>.\<close>

definition two_digits :: "int \<Rightarrow> string" where
  "two_digits n = zero_pad 2 (str_of_nat (nat n))"

definition clock_text :: "time option \<Rightarrow> string" where
  "clock_text t = (case t of None \<Rightarrow> ''00:00:00''
     | Some t \<Rightarrow> (let s = (t div 1000000) mod 86400 in
         two_digits (s div 3600) @ '':'' @ two_digits (s div 60 mod 60) @ '':'' @ two_digits (s mod 60)))"

section \<open>Nodes, edges, techniques\<close>

definition add_node :: "string \<Rightarrow> string \<Rightarrow> string \<Rightarrow> string \<Rightarrow> nat \<Rightarrow> profiler \<Rightarrow> nat \<times> profiler" where
  "add_node key label color shape sz p =
     (case map_of (pr_lookup p) key of
        Some n \<Rightarrow> (n, p)
      | None \<Rightarrow> (let n = length (pr_nodes p) + 1 in
          (n, p\<lparr>pr_lookup := AList.update key n (pr_lookup p),
                pr_nodes := pr_nodes p @ [\<lparr>gn_id = n, gn_label = take 25 label, gn_color = color,
                                           gn_shape = shape, gn_size = sz\<rparr>]\<rparr>)))"

definition add_edge :: "nat \<Rightarrow> nat \<Rightarrow> string \<Rightarrow> profiler \<Rightarrow> profiler" where
  "add_edge a b label p =
     (if a = b then p
      else if list_ex (\<lambda>e. ge_from e = a \<and> ge_to e = b \<and> ge_label e = label) (pr_edges p) then p
      else p\<lparr>pr_edges := pr_edges p @ [\<lparr>ge_from = a, ge_to = b, ge_label = label\<rparr>]\<rparr>)"

text \<open>\<open>mitre_map[tactic].add(technique)\<close>\<close>

definition note_technique :: "string \<Rightarrow> string \<Rightarrow> profiler \<Rightarrow> profiler" where
  "note_technique tactic tech p =
     p\<lparr>pr_mitre := map (\<lambda>(k, ts). (k, if k = tactic \<and> tech \<notin> set ts then ts @ [tech] else ts)) (pr_mitre p)\<rparr>"

definition note_when :: "bool \<Rightarrow> string \<Rightarrow> string \<Rightarrow> profiler \<Rightarrow> profiler" where
  "note_when b tactic tech p = (if b then note_technique tactic tech p else p)"

definition add_log :: "string \<Rightarrow> string \<Rightarrow> string \<Rightarrow> string \<Rightarrow> profiler \<Rightarrow> profiler" where
  "add_log ts user color msg p =
     p\<lparr>pr_logs := pr_logs p @ [\<lparr>le_time = ts, le_user = user, le_color = color, le_msg = msg\<rparr>]\<rparr>"

definition mentions :: "string list \<Rightarrow> string \<Rightarrow> bool" where
  "mentions ks s \<longleftrightarrow> list_ex (\<lambda>k. contains_str k s) ks"

section \<open>Sandbox events\<close>

text \<open>\<open>str.replace(w, "")\<close>\<close>

function erase :: "string \<Rightarrow> string \<Rightarrow> string" where
  "erase w [] = []"
| "erase w (c # cs) =
     (if w \<noteq> [] \<and> starts_with w (c # cs) then erase w (drop (length w) (c # cs)) else c # erase w cs)"
  by pat_completeness auto
termination by (relation "measure (\<lambda>(w, s). length s)") auto

definition destination :: "captured \<Rightarrow> string \<Rightarrow> string" where
  "destination e cmd =
     text_or ((case cv_ip e of None \<Rightarrow> ''None'' | Some ip \<Rightarrow> ip) @ '':''
              @ (case cv_port e of None \<Rightarrow> ''None'' | Some p \<Rightarrow> str_of_int p))
       (Some (strip (erase ''connect'' (erase ''connect (external)'' cmd))))"

definition shell_techniques :: "string \<Rightarrow> profiler \<Rightarrow> profiler" where
  "shell_techniques low p =
     note_when (mentions [''crontab'', ''systemctl enable'', ''.bashrc'', ''authorized_keys''] low) ''persistence'' ''T1098''
      (note_when (mentions [''cat /etc/passwd'', ''whoami'', ''id;'', ''uname'', ''cat /etc/shadow''] low) ''priv_esc'' ''T1078''
        (note_when (mentions [''nmap'', ''masscan'', ''ping -c'', ''ss -'', ''netstat''] low) ''initial_access'' ''T1046''
          (note_when (mentions [''base64'', '' xor'', ''gpg'', ''openssl enc''] low) ''defense_evasion'' ''T1027''
            (note_when (mentions [''wget'', ''curl'', ''tftp'', ''certutil''] low) ''c2'' ''T1105''
              (note_when (contains_str ''powershell'' low) ''execution'' ''T1059.001''
                (note_technique ''execution'' ''T1059'' p))))))"

definition step_key :: "string \<Rightarrow> nat \<Rightarrow> string" where
  "step_key sess n = ''SCMD_'' @ sess @ ''_'' @ str_of_nat n"

definition ingest_connection :: "captured \<Rightarrow> string \<Rightarrow> string \<Rightarrow> nat \<Rightarrow> profiler \<Rightarrow> profiler" where
  "ingest_connection e ts cmd shell_node p =
     (let dst = destination e cmd in
      case add_node (''DST_'' @ dst) dst ''#ff0055'' ''triangle'' 16 p of (dst_node, p) \<Rightarrow>
        note_technique ''c2'' ''T1071''
          (add_log ts ''sandbox'' ''#22c55e'' (''[conn] outbound attempt -> '' @ dst @ '' (blocked, no egress)'')
            (add_edge shell_node dst_node ''connects'' p)))"

definition ingest_command :: "string \<Rightarrow> string \<Rightarrow> string \<Rightarrow> nat \<Rightarrow> profiler \<Rightarrow> profiler" where
  "ingest_command ts sess cmd shell_node p =
     (let prev = map_of (pr_prev p) sess;
          n = (case prev of None \<Rightarrow> 0 | Some (_, n) \<Rightarrow> n) + 1;
          cmd_short = text_or (take 14 cmd) (Some (take 14 (hd (split_on (CHR '' '') cmd))))
      in case add_node (step_key sess n) (str_of_nat n @ ''. '' @ cmd_short) ''#ffee00'' ''square'' 15 p of
        (cmd_node, p) \<Rightarrow>
          (let p = (case prev of
                      Some (node, _) \<Rightarrow> add_edge node cmd_node ''then'' p
                    | None \<Rightarrow> add_edge shell_node cmd_node ''runs'' p);
               p = p\<lparr>pr_prev := AList.update sess (cmd_node, n) (pr_prev p)\<rparr>;
               p = add_log ts (''analyst@'' @ take 8 sess) ''#22c55e'' cmd p
           in shell_techniques (lower cmd) p))"

definition ingest_shell_event :: "captured \<Rightarrow> string \<Rightarrow> nat \<Rightarrow> profiler \<Rightarrow> profiler" where
  "ingest_shell_event e ts sys_node p =
     (let sess = text_or ''adhoc'' (cv_session e) in
      case add_node (''SHELL_'' @ sess) (''SHELL '' @ take 8 sess) ''#22c55e'' ''box'' 26 p of (shell_node, p) \<Rightarrow>
        (let p = add_edge shell_node sys_node ''sandbox_on'' p;
             cmd = strip (text_or [] (cv_commands e));
             etype = text_or [] (cv_type e)
         in if etype = ''shell.connection.attempt'' \<or> starts_with ''connect'' cmd
            then ingest_connection e ts cmd shell_node p
            else if cmd = [] then p
            else ingest_command ts sess cmd shell_node p))"

section \<open>Sensor events\<close>

definition service_name :: "int \<Rightarrow> string" where
  "service_name port =
     (if port = 22 then ''SSH Service'' else if port = 21 then ''FTP Service''
      else if port = 80 then ''HTTP Service'' else if port = 445 then ''SMB Service''
      else ''Port '' @ str_of_int port)"

text \<open>\<open>json.loads\<close> with its bare \<open>except\<close>.\<close>

definition payload_of :: "(string \<Rightarrow> json option) \<Rightarrow> captured \<Rightarrow> json" where
  "payload_of parse e =
     (if nonblank (cv_payload e)
      then (case parse (text_or [] (cv_payload e)) of None \<Rightarrow> JObj [] | Some v \<Rightarrow> v) else JObj [])"

text \<open>\<open>evt.commands or payload.get("input") or ""\<close>. Only objects have a \<open>get\<close>, and a true value
  that is no text raises in the slicing, splitting or lower-casing that follows.\<close>

definition commands_of :: "captured \<Rightarrow> json \<Rightarrow> string option" where
  "commands_of e payload =
     (if nonblank (cv_commands e) then cv_commands e
      else (case payload of
          JObj d \<Rightarrow> (let v = dict_get ''input'' d in
             if truthy v then (case v of JStr s \<Rightarrow> Some s | _ \<Rightarrow> None) else Some [])
        | _ \<Rightarrow> None))"

text \<open>\<open>"password" in payload\<close>: keys of an object, parts of a text, members of a list.\<close>

definition names_password :: "json \<Rightarrow> bool option" where
  "names_password payload = (case payload of
       JObj d \<Rightarrow> Some (has_key ''password'' d)
     | JStr s \<Rightarrow> Some (contains_str ''password'' s)
     | JList xs \<Rightarrow> Some (JStr ''password'' \<in> set xs)
     | _ \<Rightarrow> None)"

definition ingest_commands :: "string \<Rightarrow> int \<Rightarrow> string \<Rightarrow> nat \<Rightarrow> profiler \<Rightarrow> profiler" where
  "ingest_commands ts port cmds svc_node p =
     (let cmd_short = (if contains_str '' '' cmds then hd (split_on (CHR '' '') cmds) else cmds) in
      case add_node (''CMD_'' @ take 10 cmd_short) (''CMD: '' @ take 10 cmd_short) ''#ffee00'' ''square'' 15 p of
        (cmd_node, p) \<Rightarrow>
          (let p = add_edge svc_node cmd_node ''spawns'' p;
               p = add_log ts (if port = 22 then ''root@sys'' else ''www-data'')
                     (if port = 22 then ''#ef4444'' else ''#bc13fe'') cmds p;
               p = note_technique ''execution'' ''T1059'' p;
               p = note_when (contains_str ''powershell'' (lower cmds)) ''execution'' ''T1059.001'' p
           in note_when (mentions [''base64'', ''xor''] (lower cmds)) ''defense_evasion'' ''T1027'' p))"

definition ingest_upload :: "string \<Rightarrow> string \<Rightarrow> nat \<Rightarrow> profiler \<Rightarrow> profiler" where
  "ingest_upload ts uploaded ip_node p =
     (case add_node (''FILE_'' @ take 10 uploaded) (''Payload: '' @ take 10 uploaded) ''#ff0055'' ''hexagon'' 15 p of
        (file_node, p) \<Rightarrow>
          note_technique ''c2'' ''T1105''
            (add_log ts ''system'' ''#00f3ff'' (''[ALERT] Malicious payload drop detected: '' @ uploaded)
              (add_edge ip_node file_node ''drops'' p)))"

definition note_indicators :: "captured \<Rightarrow> int \<Rightarrow> string \<Rightarrow> json \<Rightarrow> profiler \<Rightarrow> profiler option" where
  "note_indicators e port cmds payload p =
     (case (if cv_type e = Some ''SSH_BRUTE_FORCE'' then Some True else names_password payload) of
        None \<Rightarrow> None
      | Some brute \<Rightarrow>
          (let p = note_when brute ''initial_access'' ''T1078'' p;
               p = note_when brute ''persistence'' ''T1098'' p;
               web = port \<in> set [80, 443, 8080];
               p = note_when web ''initial_access'' ''T1190'' p;
               p = note_when (web \<and> mentions [''sql'', ''select''] (lower cmds)) ''impact'' ''T1485'' p
           in Some (note_when (nonblank (cv_scanned e) \<or> port = 445) ''initial_access'' ''T1133'' p)))"

definition ingest_sensor_event :: "(string \<Rightarrow> json option) \<Rightarrow> captured \<Rightarrow> string \<Rightarrow> nat \<Rightarrow> profiler \<Rightarrow> profiler option" where
  "ingest_sensor_event parse e ts sys_node p =
     (let ip = text_or ''Unknown IP'' (cv_ip e);
          port = (case cv_port e of None \<Rightarrow> 0 | Some q \<Rightarrow> q);
          payload = payload_of parse e
      in case add_node (''IP_'' @ ip) ip ''#00f3ff'' ''diamond'' 15 p of (ip_node, p) \<Rightarrow>
         (case add_node (''PORT_'' @ str_of_int port) (service_name port) ''#bc13fe'' ''dot'' 20 p of (svc_node, p) \<Rightarrow>
           (let p = add_edge svc_node sys_node ''hosted_by'' (add_edge ip_node svc_node ''targets'' p) in
            case commands_of e payload of
              None \<Rightarrow> None
            | Some cmds \<Rightarrow>
                (let p = (if cmds = [] then p else ingest_commands ts port cmds svc_node p);
                     p = (if nonblank (cv_uploaded e) then ingest_upload ts (text_or [] (cv_uploaded e)) ip_node p else p)
                 in note_indicators e port cmds payload p))))"

section \<open>The graph\<close>

definition is_shell_event :: "captured \<Rightarrow> bool" where
  "is_shell_event e \<longleftrightarrow> text_or [] (cv_honeypot e) = ''AnalysisShell'' \<or> text_or [] (cv_protocol e) = ''shell''"

fun ingest_all :: "(string \<Rightarrow> json option) \<Rightarrow> nat \<Rightarrow> captured list \<Rightarrow> profiler \<Rightarrow> profiler option" where
  "ingest_all parse sys_node [] p = Some p"
| "ingest_all parse sys_node (e # es) p =
     (let ts = clock_text (cv_timestamp e) in
      case (if is_shell_event e then Some (ingest_shell_event e ts sys_node p)
            else ingest_sensor_event parse e ts sys_node p) of
        None \<Rightarrow> None
      | Some p \<Rightarrow> ingest_all parse sys_node es p)"

text \<open>\<open>datetime.min\<close>\<close>

definition TIME_MIN :: time where
  "TIME_MIN = - 62135596800 * 1000000"

definition chronological :: "captured list \<Rightarrow> captured list" where
  "chronological es = sort_key (\<lambda>e. case cv_timestamp e of None \<Rightarrow> TIME_MIN | Some t \<Rightarrow> t) es"

definition construct_graph :: "(string \<Rightarrow> json option) \<Rightarrow> captured list \<Rightarrow> profiler option" where
  "construct_graph parse es =
     (case add_node ''SYSTEM_ROOT'' ''Honeynet Core'' ''#ef4444'' ''star'' 30 new_profiler of (sys_node, p) \<Rightarrow>
        map_option (\<lambda>p. p\<lparr>pr_logs := take_last 20 (pr_logs p)\<rparr>) (ingest_all parse sys_node (chronological es) p))"

section \<open>Analysis\<close>

text \<open>\<open>node_degrees[k] += 1\<close> raises when there is no such node.\<close>

definition bump :: "nat \<Rightarrow> (nat \<times> nat) list \<Rightarrow> (nat \<times> nat) list option" where
  "bump k ds = (case map_of ds k of None \<Rightarrow> None | Some n \<Rightarrow> Some (AList.update k (n + 1) ds))"

fun count_degrees :: "graph_edge list \<Rightarrow> (nat \<times> nat) list \<Rightarrow> (nat \<times> nat) list option" where
  "count_degrees [] ds = Some ds"
| "count_degrees (e # es) ds =
     (case bump (ge_from e) ds of None \<Rightarrow> None | Some ds \<Rightarrow>
       (case bump (ge_to e) ds of None \<Rightarrow> None | Some ds \<Rightarrow> count_degrees es ds))"

definition node_degrees :: "profiler \<Rightarrow> (nat \<times> nat) list option" where
  "node_degrees p = count_degrees (pr_edges p) (map (\<lambda>n. (gn_id n, 0)) (pr_nodes p))"

definition tactic_seen :: "string \<Rightarrow> profiler \<Rightarrow> bool" where
  "tactic_seen t p = (case map_of (pr_mitre p) t of None \<Rightarrow> False | Some ts \<Rightarrow> ts \<noteq> [])"

definition observed_tactics :: "profiler \<Rightarrow> string list" where
  "observed_tactics p = map fst (filter (\<lambda>(k, ts). ts \<noteq> []) (pr_mitre p))"

definition command_count :: "captured list \<Rightarrow> nat" where
  "command_count es = sum_list (map (\<lambda>e. let n = length (splitlines (text_or [] (cv_commands e)))
      in if n = 0 then 1 else n) (filter (\<lambda>e. nonblank (cv_commands e)) es))"

definition captured_sessions :: "captured list \<Rightarrow> nat" where
  "captured_sessions es = length (remdups (map cv_session (filter (\<lambda>e. nonblank (cv_session e)) es)))"

definition port_count :: "captured list \<Rightarrow> nat" where
  "port_count es = length (remdups (map cv_port (filter (\<lambda>e. cv_port e \<noteq> None \<and> cv_port e \<noteq> Some 0) es)))"

definition times_of :: "captured list \<Rightarrow> time list" where
  "times_of es = concat (map (\<lambda>e. case cv_timestamp e of None \<Rightarrow> [] | Some t \<Rightarrow> [t]) es)"

text \<open>Seconds between the first and the last event, and events per second.\<close>

definition span_seconds :: "captured list \<Rightarrow> rat" where
  "span_seconds es = (case times_of es of [] \<Rightarrow> 0 | [_] \<Rightarrow> 0
     | t # ts \<Rightarrow> of_int (foldl max t ts - foldl min t ts) / 1000000)"

definition event_rate :: "captured list \<Rightarrow> rat" where
  "event_rate es = (if span_seconds es > 0 then of_nat (length es) / span_seconds es else 0)"

definition is_interactive :: "captured list \<Rightarrow> bool" where
  "is_interactive es \<longleftrightarrow> command_count es \<ge> 3 \<and> captured_sessions es \<ge> 1"

definition classify :: "captured list \<Rightarrow> profiler \<Rightarrow> string \<times> rat" where
  "classify es p =
     (let cmds = command_count es; ports = port_count es;
          inter = is_interactive es; rate = event_rate es
      in if es = [] then (''No activity'', 0)
         else if ports \<ge> 5 \<and> cmds = 0
           then (''Automated port scanner'', min 95 (50 + of_nat ports * 4))
         else if cmds = 0 \<and> length es > 3
           then (''Credential-stuffing / login bruteforce bot'', min 90 (45 + of_nat (length es)))
         else if inter \<and> (tactic_seen ''persistence'' p \<or> tactic_seen ''defense_evasion'' p \<or> tactic_seen ''c2'' p)
           then (''Hands-on-keyboard post-exploitation'',
                 min 97 (60 + of_nat cmds * 2 + 10 * of_nat (length (observed_tactics p))))
         else if inter \<and> tactic_seen ''execution'' p
           then (''Interactive operator (early-stage)'', min 88 (50 + of_nat cmds * 3))
         else if rate > 2
           then (''High-rate automated tool'', min 85 (40 + rate * 5))
         else (''Opportunistic automated probe'', min 80 (40 + of_nat (length es) * 2)))"

definition STAGES :: "string list" where
  "STAGES = [''Reconnaissance'', ''Weaponization'', ''Delivery'', ''Exploitation'', ''Installation'',
     ''Command & Control'', ''Actions on Objectives'']"

definition stage_index :: "profiler \<Rightarrow> nat" where
  "stage_index p =
     (let i = 0;
          i = (if tactic_seen ''execution'' p \<or> tactic_seen ''priv_esc'' p then max i 3 else i);
          i = (if tactic_seen ''persistence'' p then max i 4 else i);
          i = (if tactic_seen ''c2'' p then max i 5 else i)
      in if tactic_seen ''impact'' p \<or> tactic_seen ''defense_evasion'' p then max i 6 else i)"

definition stage_percent :: "nat \<Rightarrow> int" where
  "stage_percent i = round_half_even (of_nat (100 * (i + 1)) / of_nat (length STAGES))"

definition technique_rank :: "string \<Rightarrow> string" where
  "technique_rank t =
     (if t \<in> set [''T1190'', ''T1059'', ''T1573'', ''T1068'', ''T1486''] then ''critical''
      else if t \<in> set [''T1133'', ''T1098'', ''T1055'', ''T1070'', ''T1071'', ''T1090''] then ''high'' else ''med'')"

definition mitre_flat :: "profiler \<Rightarrow> (string \<times> string) list" where
  "mitre_flat p = fold (\<lambda>t. AList.update t (technique_rank t)) (concat (map snd (pr_mitre p))) []"

record profile =
  po_style :: string
  po_confidence :: rat
  po_interactive :: bool
  po_commands :: nat
  po_ports :: nat
  po_tactics :: nat
  po_rate :: rat
  po_stage :: string
  po_percent :: int
  po_active :: nat
  po_nodes :: nat
  po_edges :: nat
  po_max_degree :: nat
  po_betweenness :: rat
  po_components :: nat
  po_mitre :: "(string \<times> string) list"
  po_logs :: "log_entry list"

text \<open>\<open>analyze_behavior\<close>; \<open>nx\<close> gives the betweenness and the number of components, and is
  \<open>None\<close> when the library is missing or raises.\<close>

definition analyze_behavior :: "(nat list \<Rightarrow> (nat \<times> nat) list \<Rightarrow> (rat \<times> nat) option) \<Rightarrow> captured list
    \<Rightarrow> profiler \<Rightarrow> profile option" where
  "analyze_behavior nx es p =
     map_option (\<lambda>ds.
       let metrics = (case nx (map fst ds) (map (\<lambda>e. (ge_from e, ge_to e)) (pr_edges p)) of None \<Rightarrow> (0, 0) | Some m \<Rightarrow> m);
           verdict = classify es p
       in \<lparr>po_style = fst verdict, po_confidence = py_round 1 (snd verdict), po_interactive = is_interactive es,
           po_commands = command_count es, po_ports = port_count es, po_tactics = length (observed_tactics p),
           po_rate = event_rate es, po_stage = STAGES ! stage_index p @ '' (observed)'',
           po_percent = stage_percent (stage_index p), po_active = stage_index p,
           po_nodes = length (pr_nodes p), po_edges = length (pr_edges p), po_max_degree = max_or 0 (map snd ds),
           po_betweenness = fst metrics, po_components = snd metrics,
           po_mitre = mitre_flat p, po_logs = pr_logs p\<rparr>) (node_degrees p)"

section \<open>The endpoint\<close>

text \<open>\<open>GET /behavior/profile\<close>: the newest events of the thirty days before the newest one. Rows
  without a time stamp fail the comparison in the query.\<close>

definition profiled_events :: "time \<Rightarrow> string option \<Rightarrow> captured list \<Rightarrow> captured list" where
  "profiled_events now session rows =
     (let newest = sort_desc cv_timestamp (filter (\<lambda>r. cv_timestamp r \<noteq> None) rows);
          latest = (case newest of [] \<Rightarrow> now | r # _ \<Rightarrow> (case cv_timestamp r of None \<Rightarrow> now | Some t \<Rightarrow> t));
          lo = latest - days 30;
          hits = filter (\<lambda>r. (case cv_timestamp r of None \<Rightarrow> False | Some t \<Rightarrow> lo \<le> t)
                   \<and> (nonblank session \<longrightarrow> cv_session r = session)) newest
      in sort_key cv_timestamp (take (if nonblank session then 300 else 200) hits))"

definition behavior_profile :: "(string \<Rightarrow> json option) \<Rightarrow> (nat list \<Rightarrow> (nat \<times> nat) list \<Rightarrow> (rat \<times> nat) option)
    \<Rightarrow> time \<Rightarrow> string option \<Rightarrow> captured list \<Rightarrow> profile option" where
  "behavior_profile parse nx now session rows =
     (let es = profiled_events now session rows in
      case construct_graph parse es of None \<Rightarrow> None | Some p \<Rightarrow> analyze_behavior nx (chronological es) p)"

section \<open>The graph is well formed\<close>

definition in_graph :: "nat \<Rightarrow> profiler \<Rightarrow> bool" where
  "in_graph n p \<longleftrightarrow> 1 \<le> n \<and> n \<le> length (pr_nodes p)"

definition graph_ok :: "profiler \<Rightarrow> bool" where
  "graph_ok p \<longleftrightarrow>
     map gn_id (pr_nodes p) = [1..<length (pr_nodes p) + 1]
     \<and> map snd (pr_lookup p) = map gn_id (pr_nodes p) \<and> distinct (map fst (pr_lookup p))
     \<and> list_all (\<lambda>n. length (gn_label n) \<le> 25) (pr_nodes p)
     \<and> distinct (pr_edges p)
     \<and> list_all (\<lambda>e. in_graph (ge_from e) p \<and> in_graph (ge_to e) p \<and> ge_from e \<noteq> ge_to e) (pr_edges p)
     \<and> map fst (pr_mitre p) = TACTICS \<and> list_all (\<lambda>(_, ts). distinct ts) (pr_mitre p)"

text \<open>What every operation keeps: nodes and edges are only added, the last commands stay.\<close>

definition extends :: "profiler \<Rightarrow> profiler \<Rightarrow> bool" where
  "extends p q \<longleftrightarrow> map_of (pr_lookup p) \<subseteq>\<^sub>m map_of (pr_lookup q) \<and> set (pr_edges p) \<subseteq> set (pr_edges q)
     \<and> length (pr_nodes p) \<le> length (pr_nodes q) \<and> pr_prev q = pr_prev p"

lemma extends_refl [simp]: "extends p p"
  by (simp add: extends_def)

lemma extends_trans: "extends p q \<Longrightarrow> extends q r \<Longrightarrow> extends p r"
  unfolding extends_def using map_le_trans by (metis le_trans subset_trans)

lemma in_graph_extends: "extends p q \<Longrightarrow> in_graph n p \<Longrightarrow> in_graph n q"
  by (auto simp: extends_def in_graph_def)

lemma lookup_in_graph:
  assumes "graph_ok p" "map_of (pr_lookup p) k = Some n" shows "in_graph n p"
proof -
  have "n \<in> set (map snd (pr_lookup p))" using assms(2) by (force dest: map_of_SomeD)
  moreover have "map snd (pr_lookup p) = [1..<length (pr_nodes p) + 1]"
    using assms(1) by (simp add: graph_ok_def del: upt_Suc)
  ultimately have "n \<in> set [1..<length (pr_nodes p) + 1]" by (simp only:)
  then show ?thesis by (auto simp: in_graph_def)
qed

lemma lookup_inj:
  assumes "graph_ok p" "map_of (pr_lookup p) k = Some n" "map_of (pr_lookup p) k' = Some n" shows "k = k'"
proof -
  have "distinct (map snd (pr_lookup p))" using assms(1) by (simp add: graph_ok_def del: upt_Suc)
  then have "inj_on snd (set (pr_lookup p))" by (simp add: distinct_map)
  moreover have "(k, n) \<in> set (pr_lookup p)" "(k', n) \<in> set (pr_lookup p)"
    using assms(2,3) by (auto dest: map_of_SomeD)
  ultimately show ?thesis by (metis Pair_inject inj_on_def snd_conv)
qed

lemma add_node_ok:
  assumes "graph_ok p" "add_node k l c sh sz p = (n, q)"
  shows "graph_ok q" "in_graph n q" "extends p q" "map_of (pr_lookup q) k = Some n"
proof -
  have "graph_ok q \<and> in_graph n q \<and> extends p q \<and> map_of (pr_lookup q) k = Some n"
  proof (cases "map_of (pr_lookup p) k")
    case None
    then have new: "k \<notin> fst ` set (pr_lookup p)" by (simp add: map_of_eq_None_iff)
    have app: "AList.update k m (pr_lookup p) = pr_lookup p @ [(k, m)]" for m by (rule update_new[OF new])
    have q: "n = length (pr_nodes p) + 1"
      "q = p\<lparr>pr_lookup := pr_lookup p @ [(k, n)], pr_nodes := pr_nodes p @ [\<lparr>gn_id = n, gn_label = take 25 l,
         gn_color = c, gn_shape = sh, gn_size = sz\<rparr>]\<rparr>"
      using assms(2) None by (auto simp: add_node_def app)
    have "list_all (\<lambda>e. in_graph (ge_from e) q \<and> in_graph (ge_to e) q \<and> ge_from e \<noteq> ge_to e) (pr_edges p)"
      using assms(1) by (auto simp: graph_ok_def list_all_iff in_graph_def q(2))
    moreover have "map_of (pr_lookup p) \<subseteq>\<^sub>m map_of (pr_lookup q)"
      using None by (auto simp: q(2) map_le_def map_add_def)
    moreover have "map_of (pr_lookup q) k = Some n" using None by (simp add: q(2) map_add_def)
    ultimately show ?thesis
      using assms(1) new q(1) unfolding graph_ok_def extends_def
      by (simp add: q(2) in_graph_def)
  next
    case (Some m)
    then show ?thesis using assms lookup_in_graph[OF assms(1) Some] by (auto simp: add_node_def)
  qed
  then show "graph_ok q" "in_graph n q" "extends p q" "map_of (pr_lookup q) k = Some n" by auto
qed

lemma add_edge_ok:
  assumes "graph_ok p" "in_graph a p" "in_graph b p"
  shows "graph_ok (add_edge a b l p)" "extends p (add_edge a b l p)"
  using assms by (auto simp: add_edge_def graph_ok_def extends_def in_graph_def list_ex_iff)

lemma add_edge_in: "a \<noteq> b \<Longrightarrow> \<lparr>ge_from = a, ge_to = b, ge_label = l\<rparr> \<in> set (pr_edges (add_edge a b l p))"
  by (auto simp: add_edge_def list_ex_iff) (metis (full_types) graph_edge.surjective old.unit.exhaust)

lemma note_frames [simp]:
  "pr_nodes (note_technique t x p) = pr_nodes p" "pr_edges (note_technique t x p) = pr_edges p"
  "pr_lookup (note_technique t x p) = pr_lookup p" "pr_prev (note_technique t x p) = pr_prev p"
  "pr_nodes (add_log ts u c m p) = pr_nodes p" "pr_edges (add_log ts u c m p) = pr_edges p"
  "pr_lookup (add_log ts u c m p) = pr_lookup p" "pr_prev (add_log ts u c m p) = pr_prev p"
  "pr_mitre (add_log ts u c m p) = pr_mitre p"
  by (simp_all add: note_technique_def add_log_def)

lemma note_mitre [simp]:
  "map fst (pr_mitre (note_technique t x p)) = map fst (pr_mitre p)"
  "list_all (\<lambda>(_, ts). distinct ts) (pr_mitre (note_technique t x p)) = list_all (\<lambda>(_, ts). distinct ts) (pr_mitre p)"
proof -
  have "map fst (map (\<lambda>(k, ts). (k, if k = t \<and> x \<notin> set ts then ts @ [x] else ts)) m) = map fst m
    \<and> list_all (\<lambda>(_, ts). distinct ts) (map (\<lambda>(k, ts). (k, if k = t \<and> x \<notin> set ts then ts @ [x] else ts)) m)
      = list_all (\<lambda>(_, ts). distinct ts) m" for m :: "(string \<times> string list) list"
    by (induction m) (auto split: if_splits)
  moreover have "pr_mitre (note_technique t x p) =
      map (\<lambda>(k, ts). (k, if k = t \<and> x \<notin> set ts then ts @ [x] else ts)) (pr_mitre p)"
    by (simp add: note_technique_def)
  ultimately show "map fst (pr_mitre (note_technique t x p)) = map fst (pr_mitre p)"
    "list_all (\<lambda>(_, ts). distinct ts) (pr_mitre (note_technique t x p)) = list_all (\<lambda>(_, ts). distinct ts) (pr_mitre p)"
    by (simp_all only:)
qed

lemma note_ok [simp]:
  "graph_ok (note_technique t x p) = graph_ok p" "graph_ok (add_log ts u c m p) = graph_ok p"
  "extends p (note_technique t x q) = extends p q" "extends p (add_log ts u c m q) = extends p q"
  by (simp_all add: graph_ok_def in_graph_def extends_def del: upt_Suc map_map)

lemma note_when_ok [simp]:
  "graph_ok (note_when b t x p) = graph_ok p" "extends p (note_when b t x q) = extends p q"
  by (simp_all add: note_when_def)

lemma shell_techniques_ok [simp]:
  "graph_ok (shell_techniques low p) = graph_ok p" "extends p (shell_techniques low q) = extends p q"
  by (simp_all add: shell_techniques_def)

lemma new_profiler_ok: "graph_ok new_profiler"
  by (simp add: graph_ok_def new_profiler_def list_all_iff comp_def)

section \<open>Every event keeps the graph well formed\<close>

text \<open>The chain of a sandbox session: its latest command has the number of the commands so far,
  and consecutive commands are joined by an edge.\<close>

definition chained :: "profiler \<Rightarrow> string \<Rightarrow> nat \<Rightarrow> bool" where
  "chained p sess i \<longleftrightarrow> (\<exists>a b. map_of (pr_lookup p) (step_key sess i) = Some a
     \<and> map_of (pr_lookup p) (step_key sess (i + 1)) = Some b
     \<and> \<lparr>ge_from = a, ge_to = b, ge_label = ''then''\<rparr> \<in> set (pr_edges p))"

definition chain_of :: "profiler \<Rightarrow> string \<Rightarrow> nat \<Rightarrow> nat \<Rightarrow> bool" where
  "chain_of p sess node n \<longleftrightarrow> 1 \<le> n \<and> map_of (pr_lookup p) (step_key sess n) = Some node
     \<and> (\<forall>i \<in> {1..<n}. chained p sess i)"

definition chain_ok :: "profiler \<Rightarrow> bool" where
  "chain_ok p \<longleftrightarrow> (\<forall>(sess, node, n) \<in> set (pr_prev p). chain_of p sess node n)"

lemma lookup_extends: "extends p q \<Longrightarrow> map_of (pr_lookup p) k = Some n \<Longrightarrow> map_of (pr_lookup q) k = Some n"
  unfolding extends_def map_le_def by (metis domI)

lemma chained_extends: "extends p q \<Longrightarrow> chained p sess i \<Longrightarrow> chained q sess i"
  unfolding chained_def using lookup_extends[of p q] by (auto simp: extends_def)

lemma chain_of_extends: "extends p q \<Longrightarrow> chain_of p sess node n \<Longrightarrow> chain_of q sess node n"
  by (auto simp: chain_of_def lookup_extends chained_extends)

lemma chain_extends: "extends p q \<Longrightarrow> chain_ok p \<Longrightarrow> chain_ok q"
  using chain_of_extends[of p q] by (auto simp: chain_ok_def extends_def)

lemma ingest_connection_ok:
  assumes "graph_ok p" "in_graph sh p"
  shows "graph_ok (ingest_connection e ts cmd sh p)" "extends p (ingest_connection e ts cmd sh p)"
proof -
  obtain n q where a: "add_node (''DST_'' @ destination e cmd) (destination e cmd) ''#ff0055'' ''triangle'' 16 p = (n, q)"
    by (metis surj_pair)
  note q = add_node_ok[OF assms(1) a]
  have sh: "in_graph sh q" by (rule in_graph_extends[OF q(3) assms(2)])
  show "graph_ok (ingest_connection e ts cmd sh p)"
    unfolding ingest_connection_def Let_def by (simp only: a prod.case) (simp add: add_edge_ok q sh)
  show "extends p (ingest_connection e ts cmd sh p)"
    unfolding ingest_connection_def Let_def
    by (simp only: a prod.case) (simp add: extends_trans[OF q(3) add_edge_ok(2)[OF q(1) sh q(2)]])
qed

lemma ingest_upload_ok:
  assumes "graph_ok p" "in_graph ip p"
  shows "graph_ok (ingest_upload ts up ip p)" "extends p (ingest_upload ts up ip p)"
proof -
  obtain n q where a: "add_node (''FILE_'' @ take 10 up) (''Payload: '' @ take 10 up) ''#ff0055'' ''hexagon'' 15 p = (n, q)"
    by (metis surj_pair)
  note q = add_node_ok[OF assms(1) a]
  have ip: "in_graph ip q" by (rule in_graph_extends[OF q(3) assms(2)])
  show "graph_ok (ingest_upload ts up ip p)"
    unfolding ingest_upload_def by (simp only: a prod.case) (simp add: add_edge_ok q ip)
  show "extends p (ingest_upload ts up ip p)"
    unfolding ingest_upload_def
    by (simp only: a prod.case) (simp add: extends_trans[OF q(3) add_edge_ok(2)[OF q(1) ip q(2)]])
qed

lemma ingest_commands_ok:
  assumes "graph_ok p" "in_graph svc p"
  shows "graph_ok (ingest_commands ts port cmds svc p)" "extends p (ingest_commands ts port cmds svc p)"
proof -
  define key where "key = take 10 (if contains_str '' '' cmds then hd (split_on (CHR '' '') cmds) else cmds)"
  obtain n q where a: "add_node (''CMD_'' @ key) (''CMD: '' @ key) ''#ffee00'' ''square'' 15 p = (n, q)"
    by (metis surj_pair)
  note q = add_node_ok[OF assms(1) a]
  have svc: "in_graph svc q" by (rule in_graph_extends[OF q(3) assms(2)])
  show "graph_ok (ingest_commands ts port cmds svc p)"
    unfolding ingest_commands_def Let_def key_def[symmetric] by (simp only: a prod.case) (simp add: add_edge_ok q svc)
  show "extends p (ingest_commands ts port cmds svc p)"
    unfolding ingest_commands_def Let_def key_def[symmetric]
    by (simp only: a prod.case) (simp add: extends_trans[OF q(3) add_edge_ok(2)[OF q(1) svc q(2)]])
qed

lemma note_indicators_ok:
  "note_indicators e port cmds payload p = Some q \<Longrightarrow> graph_ok q = graph_ok p \<and> extends p q"
  by (auto simp: note_indicators_def Let_def split: option.splits)

text \<open>A command of a session is appended to its chain.\<close>

lemma shell_techniques_frames [simp]:
  "pr_lookup (shell_techniques low p) = pr_lookup p" "pr_edges (shell_techniques low p) = pr_edges p"
  "pr_prev (shell_techniques low p) = pr_prev p" "pr_nodes (shell_techniques low p) = pr_nodes p"
  by (simp_all add: shell_techniques_def note_when_def)

lemma step_key_inj: "step_key sess m = step_key sess n \<longleftrightarrow> m = n"
  by (simp add: step_key_def)

lemma graph_ok_prev [simp]: "graph_ok (p\<lparr>pr_prev := x\<rparr>) = graph_ok p"
  by (simp add: graph_ok_def in_graph_def)

lemma chained_prev [simp]: "chained (p\<lparr>pr_prev := x\<rparr>) = chained p"
  by (simp add: chained_def fun_eq_iff)

lemma set_update_subset: "set (AList.update k v xs) \<subseteq> insert (k, v) (set xs)"
  by (induction xs) auto

lemma ingest_command_ok:
  assumes ok: "graph_ok p" "in_graph sh p" "chain_ok p"
  shows "graph_ok (ingest_command ts sess cmd sh p) \<and> chain_ok (ingest_command ts sess cmd sh p)
    \<and> length (pr_nodes p) \<le> length (pr_nodes (ingest_command ts sess cmd sh p))"
proof -
  define n where "n = (case map_of (pr_prev p) sess of None \<Rightarrow> 0 | Some (_, n) \<Rightarrow> n) + 1"
  define short where "short = text_or (take 14 cmd) (Some (take 14 (hd (split_on (CHR '' '') cmd))))"
  obtain node q where a: "add_node (step_key sess n) (str_of_nat n @ ''. '' @ short) ''#ffee00'' ''square'' 15 p = (node, q)"
    by (metis surj_pair)
  note q = add_node_ok[OF ok(1) a]
  define r where "r = (case map_of (pr_prev p) sess of Some (m, _) \<Rightarrow> add_edge m node ''then'' q
                    | None \<Rightarrow> add_edge sh node ''runs'' q)"
  define t where "t = shell_techniques (lower cmd) (add_log ts (''analyst@'' @ take 8 sess) ''#22c55e'' cmd
       (r\<lparr>pr_prev := AList.update sess (node, n) (pr_prev r)\<rparr>))"
  have t: "ingest_command ts sess cmd sh p = t"
    unfolding ingest_command_def Let_def n_def[symmetric] short_def[symmetric] r_def t_def
    by (simp only: a prod.case)
  have sh: "in_graph sh q" by (rule in_graph_extends[OF q(3) ok(2)])
  have last: "chain_of p sess m k" if "map_of (pr_prev p) sess = Some (m, k)" for m k
    using ok(3) map_of_SomeD[OF that] by (auto simp: chain_ok_def)
  have r: "graph_ok r" "extends q r"
  proof -
    have "in_graph m q" if "map_of (pr_prev p) sess = Some (m, k)" for m k
      using last[OF that] lookup_in_graph[OF ok(1)] in_graph_extends[OF q(3)] by (auto simp: chain_of_def)
    then show "graph_ok r" "extends q r"
      unfolding r_def using add_edge_ok[OF q(1) _ q(2)] sh by (auto split: option.splits)
  qed
  have pr: "extends p r" by (rule extends_trans[OF q(3) r(2)])
  have key: "map_of (pr_lookup r) (step_key sess n) = Some node" by (rule lookup_extends[OF r(2) q(4)])
  have new: "chain_of r sess node n"
  proof (cases "map_of (pr_prev p) sess")
    case None
    then show ?thesis using key by (simp add: chain_of_def n_def)
  next
    case (Some mk)
    obtain m k where mk: "mk = (m, k)" by (metis surj_pair)
    have n: "n = k + 1" by (simp add: n_def Some mk)
    have c: "chain_of r sess m k" using chain_of_extends[OF pr last] Some mk by simp
    have ne: "m \<noteq> node"
    proof
      assume "m = node"
      then have "map_of (pr_lookup r) (step_key sess k) = Some node" using c by (simp add: chain_of_def)
      then have "step_key sess k = step_key sess n" using lookup_inj[OF r(1)] key by blast
      then show False by (simp add: step_key_inj n)
    qed
    have "r = add_edge m node ''then'' q" by (simp add: r_def Some mk)
    then have "\<lparr>ge_from = m, ge_to = node, ge_label = ''then''\<rparr> \<in> set (pr_edges r)" using add_edge_in[OF ne] by simp
    then have "chained r sess k" using c key by (auto simp: chained_def chain_of_def n)
    then have "chained r sess i" if "i \<in> {1..<n}" for i
      using that c by (cases "i = k") (auto simp: chain_of_def n)
    then show ?thesis using key by (simp add: chain_of_def n)
  qed
  have "chain_ok t"
    unfolding chain_ok_def
  proof safe
    fix s m k assume "(s, m, k) \<in> set (pr_prev t)"
    moreover have "pr_prev t = AList.update sess (node, n) (pr_prev p)" using pr by (simp add: t_def extends_def)
    ultimately have "(s, m, k) \<in> set (pr_prev p) \<or> (s = sess \<and> m = node \<and> k = n)"
      using set_update_subset by (metis Pair_inject insert_iff subsetD)
    then have "chain_of r s m k" using new chain_of_extends[OF pr] ok(3) by (auto simp: chain_ok_def)
    then show "chain_of t s m k" by (simp add: t_def chain_of_def chained_def)
  qed
  moreover have "graph_ok t" using r(1) by (simp add: t_def)
  moreover have "length (pr_nodes p) \<le> length (pr_nodes t)" using pr by (simp add: t_def extends_def)
  ultimately show ?thesis by (simp add: t)
qed

definition profiler_ok :: "profiler \<Rightarrow> bool" where
  "profiler_ok p \<longleftrightarrow> graph_ok p \<and> chain_ok p"

lemma ingest_shell_ok:
  assumes "profiler_ok p" "in_graph sys p"
  shows "profiler_ok (ingest_shell_event e ts sys p) \<and> in_graph sys (ingest_shell_event e ts sys p)"
proof -
  obtain sh q where a: "add_node (''SHELL_'' @ text_or ''adhoc'' (cv_session e))
      (''SHELL '' @ take 8 (text_or ''adhoc'' (cv_session e))) ''#22c55e'' ''box'' 26 p = (sh, q)"
    by (metis surj_pair)
  have p: "graph_ok p" "chain_ok p" using assms(1) by (simp_all add: profiler_ok_def)
  note q = add_node_ok[OF p(1) a]
  define r where "r = add_edge sh sys ''sandbox_on'' q"
  have r: "graph_ok r" "extends q r"
    unfolding r_def using add_edge_ok[OF q(1,2) in_graph_extends[OF q(3) assms(2)]] by simp_all
  have pr: "extends p r" by (rule extends_trans[OF q(3) r(2)])
  have sh: "in_graph sh r" "in_graph sys r" using in_graph_extends r(2) q(2) pr assms(2) by blast+
  have cr: "chain_ok r" by (rule chain_extends[OF pr p(2)])
  consider (conn) "ingest_shell_event e ts sys p = ingest_connection e ts (strip (text_or [] (cv_commands e))) sh r"
    | (none) "ingest_shell_event e ts sys p = r"
    | (cmd) "ingest_shell_event e ts sys p
        = ingest_command ts (text_or ''adhoc'' (cv_session e)) (strip (text_or [] (cv_commands e))) sh r"
    unfolding ingest_shell_event_def Let_def r_def a[unfolded prod.case] by (simp only: a prod.case) (meson)
  then show ?thesis
  proof cases
    case conn
    have c: "graph_ok (ingest_connection e ts (strip (text_or [] (cv_commands e))) sh r)"
      "extends r (ingest_connection e ts (strip (text_or [] (cv_commands e))) sh r)"
      by (rule ingest_connection_ok[OF r(1) sh(1)])+
    then show ?thesis using chain_extends[OF c(2) cr] in_graph_extends[OF c(2) sh(2)] by (simp add: conn profiler_ok_def)
  next
    case none
    then show ?thesis using r(1) cr sh(2) by (simp add: profiler_ok_def)
  next
    case cmd
    then show ?thesis using ingest_command_ok[OF r(1) sh(1) cr] sh(2)
      by (simp add: profiler_ok_def in_graph_def) (meson le_trans)
  qed
qed

lemma ingest_sensor_ok:
  assumes "profiler_ok p" "in_graph sys p" "ingest_sensor_event parse e ts sys p = Some r"
  shows "profiler_ok r \<and> in_graph sys r"
proof -
  define port where "port = (case cv_port e of None \<Rightarrow> 0 | Some q \<Rightarrow> q)"
  have p: "graph_ok p" "chain_ok p" using assms(1) by (simp_all add: profiler_ok_def)
  obtain ip q1 where a1: "add_node (''IP_'' @ text_or ''Unknown IP'' (cv_ip e)) (text_or ''Unknown IP'' (cv_ip e))
      ''#00f3ff'' ''diamond'' 15 p = (ip, q1)" by (metis surj_pair)
  note q1 = add_node_ok[OF p(1) a1]
  obtain svc q2 where a2: "add_node (''PORT_'' @ str_of_int port) (service_name port) ''#bc13fe'' ''dot'' 20 q1 = (svc, q2)"
    by (metis surj_pair)
  note q2 = add_node_ok[OF q1(1) a2]
  have g2: "in_graph ip q2" "in_graph sys q2"
    using in_graph_extends[OF q2(3)] in_graph_extends[OF q1(3)] q1(2) assms(2) by blast+
  define q3 where "q3 = add_edge ip svc ''targets'' q2"
  have q3: "graph_ok q3" "extends q2 q3" unfolding q3_def by (rule add_edge_ok[OF q2(1) g2(1) q2(2)])+
  have g3: "in_graph ip q3" "in_graph svc q3" "in_graph sys q3"
    using in_graph_extends[OF q3(2)] g2 q2(2) by blast+
  define q4 where "q4 = add_edge svc sys ''hosted_by'' q3"
  have q4: "graph_ok q4" "extends q3 q4" unfolding q4_def by (rule add_edge_ok[OF q3(1) g3(2,3)])+
  have g4: "in_graph ip q4" "in_graph svc q4" using in_graph_extends[OF q4(2)] g3 by blast+
  obtain cmds where c: "commands_of e (payload_of parse e) = Some cmds"
    using assms(3) unfolding ingest_sensor_event_def Let_def port_def[symmetric]
    by (simp only: a1 a2 prod.case) (auto split: option.splits)
  define q5 where "q5 = (if cmds = [] then q4 else ingest_commands ts port cmds svc q4)"
  have q5: "graph_ok q5" "extends q4 q5" unfolding q5_def using q4(1) ingest_commands_ok[OF q4(1) g4(2)] by auto
  define q6 where "q6 = (if nonblank (cv_uploaded e) then ingest_upload ts (text_or [] (cv_uploaded e)) ip q5 else q5)"
  have q6: "graph_ok q6" "extends q5 q6"
    unfolding q6_def using q5(1) ingest_upload_ok[OF q5(1) in_graph_extends[OF q5(2) g4(1)]] by auto
  have "note_indicators e port cmds (payload_of parse e) q6 = Some r"
    using assms(3) unfolding ingest_sensor_event_def Let_def port_def[symmetric] q6_def q5_def q4_def q3_def
    by (simp only: a1 a2 prod.case c option.case)
  then have r: "graph_ok r" "extends q6 r" using note_indicators_ok q6(1) by blast+
  have "extends p r"
    by (rule extends_trans[OF q1(3) extends_trans[OF q2(3) extends_trans[OF q3(2)
          extends_trans[OF q4(2) extends_trans[OF q5(2) extends_trans[OF q6(2) r(2)]]]]]])
  then show ?thesis using r(1) chain_extends p(2) in_graph_extends assms(2) by (auto simp: profiler_ok_def)
qed

lemma ingest_all_ok:
  "profiler_ok p \<Longrightarrow> in_graph sys p \<Longrightarrow> ingest_all parse sys es p = Some q \<Longrightarrow> profiler_ok q"
proof (induction es arbitrary: p)
  case (Cons e es)
  then show ?case
    using ingest_shell_ok[of p sys e "clock_text (cv_timestamp e)"] ingest_sensor_ok[of p sys parse e]
    by (auto simp: Let_def split: option.splits if_splits)
qed simp

lemma graph_ok_logs [simp]: "graph_ok (p\<lparr>pr_logs := x\<rparr>) = graph_ok p" "chain_ok (p\<lparr>pr_logs := x\<rparr>) = chain_ok p"
  by (simp_all add: graph_ok_def in_graph_def chain_ok_def chain_of_def chained_def)

lemma nodes_grow:
  "in_graph sys p \<Longrightarrow> profiler_ok p \<Longrightarrow> ingest_all parse sys es p = Some q \<Longrightarrow> in_graph sys q"
proof (induction es arbitrary: p)
  case (Cons e es)
  then show ?case
    using ingest_shell_ok[of p sys e "clock_text (cv_timestamp e)"] ingest_sensor_ok[of p sys parse e]
    by (auto simp: Let_def split: option.splits if_splits)
qed simp

lemma constructed:
  assumes "construct_graph parse es = Some p" shows "profiler_ok p \<and> pr_nodes p \<noteq> []"
proof -
  obtain n q where a: "add_node ''SYSTEM_ROOT'' ''Honeynet Core'' ''#ef4444'' ''star'' 30 new_profiler = (n, q)"
    by (metis surj_pair)
  note q = add_node_ok[OF new_profiler_ok a]
  have "chain_ok q" using q(3) by (simp add: chain_ok_def extends_def new_profiler_def)
  then have "profiler_ok q" using q(1) by (simp add: profiler_ok_def)
  moreover from this have "in_graph n r" if "ingest_all parse n (chronological es) q = Some r" for r
    using nodes_grow[OF q(2)] that by blast
  ultimately show ?thesis using assms ingest_all_ok[OF _ q(2)] unfolding construct_graph_def
    by (simp only: a prod.case) (fastforce simp: profiler_ok_def in_graph_def)
qed

lemmas constructed_ok = constructed[THEN conjunct1]
  and constructed_nodes = constructed[THEN conjunct2]

section \<open>Properties\<close>

text \<open>C27. Whatever the events: if the construction returns, the nodes are numbered 1 to n without
  gaps, node keys are distinct and the look-up agrees with the node list, labels have at most 25
  characters; edges join two different existing nodes and none is repeated; and the commands of
  every sandbox session form a chain, the i-th joined to the next by an edge \<open>then\<close>.\<close>

theorem behaviour_graph_well_formed:
  "case construct_graph parse es of None \<Rightarrow> True
   | Some p \<Rightarrow> graph_ok p \<and> chain_ok p \<and> length (pr_logs p) \<le> 20"
proof (cases "construct_graph parse es")
  case (Some p)
  then have "profiler_ok p" by (rule constructed_ok)
  moreover have "length (pr_logs p) \<le> 20" using Some
    unfolding construct_graph_def by (auto simp: split: prod.splits)
  ultimately show ?thesis by (simp add: Some profiler_ok_def)
qed simp

lemma bump_some:
  assumes "k \<in> fst ` set ds" "distinct (map fst ds)"
  shows "\<exists>ds'. bump k ds = Some ds' \<and> map fst ds' = map fst ds \<and> sum_list (map snd ds') = sum_list (map snd ds) + 1"
proof -
  obtain n where n: "map_of ds k = Some n" using assms(1) by (metis map_of_eq_None_iff option.exhaust)
  have "map fst (AList.update k m ds) = map fst ds" for m
    using assms(1) by (induction ds) auto
  moreover have "sum_list (map snd (AList.update k (n + 1) ds)) = sum_list (map snd ds) + 1"
    using assms n by (induction ds) (auto split: if_splits)
  ultimately show ?thesis by (simp add: bump_def n)
qed

lemma count_degrees_some:
  assumes "list_all (\<lambda>e. ge_from e \<in> fst ` set ds \<and> ge_to e \<in> fst ` set ds) es" "distinct (map fst ds)"
  shows "\<exists>ds'. count_degrees es ds = Some ds' \<and> map fst ds' = map fst ds
    \<and> sum_list (map snd ds') = sum_list (map snd ds) + 2 * length es"
  using assms
proof (induction es arbitrary: ds)
  case (Cons e es)
  obtain d1 where d1: "bump (ge_from e) ds = Some d1" "map fst d1 = map fst ds" "sum_list (map snd d1) = sum_list (map snd ds) + 1"
    using bump_some[of "ge_from e" ds] Cons.prems by auto
  have k1: "fst ` set d1 = fst ` set ds" using d1(2) by (metis set_map)
  obtain d2 where d2: "bump (ge_to e) d1 = Some d2" "map fst d2 = map fst d1" "sum_list (map snd d2) = sum_list (map snd d1) + 1"
    using bump_some[of "ge_to e" d1] Cons.prems k1 d1(2) by auto
  have k2: "fst ` set d2 = fst ` set ds" using d2(2) k1 by (metis set_map)
  show ?case using Cons.IH[of d2] Cons.prems d1 d2 k2 by (auto simp: list_all_iff)
qed simp

lemma degrees_some:
  assumes "graph_ok p"
  shows "\<exists>ds. node_degrees p = Some ds \<and> map fst ds = map gn_id (pr_nodes p)
    \<and> sum_list (map snd ds) = 2 * length (pr_edges p)"
proof -
  have ids: "map fst (map (\<lambda>n. (gn_id n, 0::nat)) (pr_nodes p)) = map gn_id (pr_nodes p)" by simp
  have range: "gn_id ` set (pr_nodes p) = {1..length (pr_nodes p)}"
  proof -
    have "set (map gn_id (pr_nodes p)) = set [1..<length (pr_nodes p) + 1]" using assms by (simp only: graph_ok_def)
    then show ?thesis by (auto simp del: upt_Suc)
  qed
  have "distinct (map gn_id (pr_nodes p))" using assms by (simp add: graph_ok_def del: upt_Suc)
  then show ?thesis
    using count_degrees_some[of "map (\<lambda>n. (gn_id n, 0::nat)) (pr_nodes p)" "pr_edges p"] assms
    by (auto simp: node_degrees_def graph_ok_def list_all_iff in_graph_def image_image range comp_def sum_list_triv
        simp del: upt_Suc)
qed

lemma stage_bounds: "stage_index p < length STAGES"
  by (simp add: stage_index_def Let_def STAGES_def)

lemma percent_bounds: "i < length STAGES \<Longrightarrow> 14 \<le> stage_percent i \<and> stage_percent i \<le> 100"
proof -
  assume i: "i < length STAGES"
  have m: "(0::nat) \<le> i" "i \<le> 6" using i by (simp_all add: STAGES_def)
  have "stage_percent 0 \<le> stage_percent i \<and> stage_percent i \<le> stage_percent 6"
    unfolding stage_percent_def using m
    by (intro conjI round_half_even_mono divide_right_mono) (simp_all add: STAGES_def)
  moreover have "\<lfloor>100 / 7 :: rat\<rfloor> = 14" by (simp add: floor_eq_iff)
  then have "stage_percent 0 = 14" "stage_percent 6 = 100"
    by (simp_all add: stage_percent_def STAGES_def round_half_even_def Let_def)
  ultimately show ?thesis by simp
qed

lemma confidence_bounds: "0 \<le> snd (classify es p) \<and> snd (classify es p) \<le> 97"
  by (auto simp: classify_def Let_def min_def)

text \<open>The analysis of a constructed graph never fails on a missing node and gives a profile in
  bounds: a confidence of 0 to 97 per cent, a kill-chain stage of the list that is the last one
  exactly when impact or evasion was seen, a percentage of 14 to 100, at most seven tactics, and
  a largest degree that the edges account for.\<close>

theorem profile_is_total_and_bounded:
  "case construct_graph parse es of None \<Rightarrow> True
   | Some p \<Rightarrow> \<exists>po. analyze_behavior nx es p = Some po
       \<and> 0 \<le> po_confidence po \<and> po_confidence po \<le> 97
       \<and> po_active po < length STAGES \<and> 14 \<le> po_percent po \<and> po_percent po \<le> 100
       \<and> (po_active po = 6 \<longleftrightarrow> tactic_seen ''impact'' p \<or> tactic_seen ''defense_evasion'' p)
       \<and> po_tactics po \<le> 7 \<and> po_max_degree po \<le> 2 * po_edges po \<and> po_nodes po \<noteq> 0"
proof (cases "construct_graph parse es")
  case (Some p)
  then have ok: "graph_ok p" using constructed_ok by (auto simp: profiler_ok_def)
  obtain ds where ds: "node_degrees p = Some ds" "map fst ds = map gn_id (pr_nodes p)"
    "sum_list (map snd ds) = 2 * length (pr_edges p)" using degrees_some[OF ok] by blast
  have conf: "0 \<le> py_round 1 (snd (classify es p))" "py_round 1 (snd (classify es p)) \<le> 97"
    using py_round_mono[of 0 "snd (classify es p)" 1] py_round_mono[of "snd (classify es p)" 97 1]
      confidence_bounds[of es p] by auto
  have deg: "max_or 0 (map snd ds) \<le> 2 * length (pr_edges p)"
    using max_or_in[of 0 "map snd ds"] member_le_sum_list[of _ "map snd ds"] ds(3) by auto
  have "length (observed_tactics p) \<le> length (map fst (pr_mitre p))"
    by (simp add: observed_tactics_def)
  then have tac: "length (observed_tactics p) \<le> 7" using ok by (simp add: graph_ok_def TACTICS_def del: length_map)
  have top: "stage_index p = 6 \<longleftrightarrow> tactic_seen ''impact'' p \<or> tactic_seen ''defense_evasion'' p"
    by (simp add: stage_index_def Let_def)
  have nodes: "pr_nodes p \<noteq> []"
    using constructed_nodes[OF Some] by simp
  show ?thesis
    using conf deg tac top nodes stage_bounds[of p] percent_bounds[OF stage_bounds[of p]]
    by (simp add: Some analyze_behavior_def ds(1) Let_def del: One_nat_def)
qed simp

text \<open>With no tactic observed at all, the stage is still reported as observed.\<close>

lemma stage_of_nothing: "STAGES ! stage_index new_profiler = ''Reconnaissance''"
  by (simp add: stage_index_def tactic_seen_def new_profiler_def TACTICS_def STAGES_def)

text \<open>One event without commands whose payload is a JSON list makes the profile fail.\<close>

lemma payload_list_breaks_profile:
  assumes "\<not> is_shell_event e" "cv_commands e = None" "cv_payload e = Some raw" "raw \<noteq> []" "parse raw = Some (JList xs)"
  shows "construct_graph parse [e] = None"
proof -
  have "commands_of e (payload_of parse e) = None"
    using assms(2-) by (cases raw) (simp_all add: commands_of_def payload_of_def nonblank_def text_or_def)
  then have "ingest_sensor_event parse e ts sys p = None" for ts sys p
    by (simp add: ingest_sensor_event_def Let_def split: prod.splits)
  then show ?thesis using assms(1)
    by (simp add: construct_graph_def chronological_def Let_def split: prod.splits)
qed

end
