(* ===== verification/Compliance.thy ===== *)
theory Compliance
  imports Validation Credentials Sessions Collector
begin

text \<open>
  The SOC 2 readiness assessment (\<open>backend/app/services/compliance/framework.py\<close>,
  \<open>evidence.py\<close>, \<open>assessment.py\<close>): a catalogue of controls, evidence collectors that query the
  database, and the assessment that runs the collectors and scores the result.

  The estate is what the collectors query: accounts, logs, tokens, the SOC tables, validation
  runs, raw events, reports and configuration. What they read outside the database (directories,
  environment, load of the host), the texts of times and floats, and the exceptions of a collector
  are the record \<open>assess_env\<close>. SQL's \<open>GROUP BY\<close> promises no order; groups are in order of first
  appearance here. Dashes and arrows in evidence texts are printed as \<open>-\<close> and \<open>->\<close>.
\<close>

section \<open>The catalogue\<close>

record control_spec =
  tc_id :: string
  tc_category :: string
  tc_title :: string
  tc_intent :: string
  tc_evidence :: "string option"

definition control :: "string \<Rightarrow> string \<Rightarrow> string \<Rightarrow> string \<Rightarrow> string option \<Rightarrow> control_spec" where
  "control i c t n e = \<lparr>tc_id = i, tc_category = c, tc_title = t, tc_intent = n, tc_evidence = e\<rparr>"

definition CATALOG :: "control_spec list" where
  "CATALOG = [
     control ''CC1.1'' ''Common Criteria'' ''Integrity & ethical values''
       ''The organisation demonstrates a commitment to integrity and ethical values through policy and tone.'' None,
     control ''CC1.2'' ''Common Criteria'' ''Board oversight''
       ''Those charged with governance oversee the design and operation of internal control.'' None,
     control ''CC1.3'' ''Common Criteria'' ''Structure, authority & responsibility''
       ''Management establishes reporting lines and appropriate authorities to meet objectives.'' (Some ''org_roles''),
     control ''CC1.4'' ''Common Criteria'' ''Commitment to competence''
       ''The organisation attracts, develops and retains competent individuals.'' None,
     control ''CC1.5'' ''Common Criteria'' ''Accountability''
       ''Individuals are held accountable for their internal-control responsibilities.'' (Some ''admin_activity''),
     control ''CC2.1'' ''Common Criteria'' ''Quality information''
       ''Relevant, quality information is generated and used to support internal control.'' (Some ''monitoring_pipeline''),
     control ''CC2.2'' ''Common Criteria'' ''Internal communication''
       ''Security objectives and responsibilities are communicated internally.'' None,
     control ''CC2.3'' ''Common Criteria'' ''External communication''
       ''Matters affecting internal control are communicated to external parties.'' None,
     control ''CC3.1'' ''Common Criteria'' ''Objectives specified''
       ''Objectives are specified with sufficient clarity to identify and assess risk.'' None,
     control ''CC3.2'' ''Common Criteria'' ''Risk identification & analysis''
       ''Risks to objectives are identified and analysed across the entity.'' (Some ''risk_process''),
     control ''CC3.3'' ''Common Criteria'' ''Fraud risk''
       ''The potential for fraud is considered in assessing risk.'' None,
     control ''CC3.4'' ''Common Criteria'' ''Change risk''
       ''Changes that could significantly affect internal control are identified and assessed.'' (Some ''change_mgmt''),
     control ''CC4.1'' ''Common Criteria'' ''Ongoing & separate evaluations''
       ''Evaluations are performed to ascertain whether controls are present and functioning.'' (Some ''control_testing''),
     control ''CC4.2'' ''Common Criteria'' ''Deficiencies evaluated & communicated''
       ''Control deficiencies are evaluated and communicated to those responsible for corrective action.'' (Some ''control_testing''),
     control ''CC5.1'' ''Common Criteria'' ''Control selection & development''
       ''Control activities are selected and developed to mitigate risk to acceptable levels.'' (Some ''detection_controls''),
     control ''CC5.2'' ''Common Criteria'' ''Technology general controls''
       ''General controls over technology are selected and developed.'' (Some ''detection_controls''),
     control ''CC5.3'' ''Common Criteria'' ''Policies & procedures''
       ''Control activities are deployed through policies that establish expectations and procedures.'' None,
     control ''CC6.1'' ''Common Criteria'' ''Logical access provisioning''
       ''Logical access to data and systems is restricted through identification, authentication and authorisation.'' (Some ''logical_access''),
     control ''CC6.2'' ''Common Criteria'' ''Registration & authorisation of users''
       ''New internal and external users are registered and authorised before access is granted; access is removed when no longer required.'' (Some ''user_lifecycle''),
     control ''CC6.3'' ''Common Criteria'' ''Role-based access & least privilege''
       ''Access is granted based on role and least privilege and is reviewed periodically.'' (Some ''rbac''),
     control ''CC6.6'' ''Common Criteria'' ''Boundary protection''
       ''Security measures protect against threats from outside the system boundary.'' (Some ''boundary''),
     control ''CC6.7'' ''Common Criteria'' ''Restricted transmission & movement of data''
       ''Data in transit and the movement of credentials/information is restricted to authorised users and protected.'' (Some ''data_transmission''),
     control ''CC6.8'' ''Common Criteria'' ''Malicious software prevention''
       ''Controls prevent or detect the introduction of unauthorised or malicious software.'' (Some ''malware_controls''),
     control ''CC7.1'' ''Common Criteria'' ''Vulnerability detection''
       ''Configuration and vulnerability management identifies deviations from the hardened baseline.'' (Some ''vuln_detection''),
     control ''CC7.2'' ''Common Criteria'' ''Security monitoring''
       ''The system is monitored to detect anomalies and potential security events.'' (Some ''monitoring_pipeline''),
     control ''CC7.3'' ''Common Criteria'' ''Security incident evaluation''
       ''Detected events are evaluated to determine whether they constitute a security incident.'' (Some ''incident_eval''),
     control ''CC7.4'' ''Common Criteria'' ''Incident response''
       ''Identified incidents are contained, remediated and communicated through a defined response process.'' (Some ''incident_response''),
     control ''CC7.5'' ''Common Criteria'' ''Recovery from incidents''
       ''The organisation restores affected systems and preserves evidence following an incident.'' (Some ''recovery''),
     control ''CC8.1'' ''Common Criteria'' ''Change management''
       ''Changes to infrastructure, data and software are authorised, designed, tested and approved before implementation.'' (Some ''change_mgmt''),
     control ''CC9.1'' ''Common Criteria'' ''Risk mitigation activities''
       ''The organisation identifies, selects and develops risk-mitigation activities for disruptions.'' (Some ''risk_process''),
     control ''CC9.2'' ''Common Criteria'' ''Vendor & business-partner risk''
       ''The organisation assesses and manages risks arising from vendors and business partners.'' None,
     control ''A1.1'' ''Availability'' ''Capacity management''
       ''Current processing capacity is monitored against demand so that capacity can be managed.'' (Some ''capacity''),
     control ''A1.2'' ''Availability'' ''Environmental & backup protection''
       ''Backup processes and recovery infrastructure protect against availability failures.'' (Some ''availability''),
     control ''A1.3'' ''Availability'' ''Recovery testing''
       ''Recovery-plan procedures are tested to support system availability commitments.'' None,
     control ''C1.1'' ''Confidentiality'' ''Confidential information identified''
       ''Information requiring confidential treatment is identified and maintained.'' (Some ''data_classification''),
     control ''C1.2'' ''Confidentiality'' ''Confidential information disposed''
       ''Confidential information is retained and disposed of in line with policy.'' (Some ''data_retention''),
     control ''PI1.1'' ''Processing Integrity'' ''Processing definitions''
       ''The organisation obtains/creates accurate definitions of processing to meet objectives.'' None,
     control ''PI1.2'' ''Processing Integrity'' ''Inputs complete & accurate''
       ''System inputs are processed completely, accurately and timely.'' (Some ''pipeline_integrity''),
     control ''PI1.3'' ''Processing Integrity'' ''Processing complete & accurate''
       ''Processing (normalisation, enrichment, correlation) is complete, accurate and authorised.'' (Some ''pipeline_integrity''),
     control ''PI1.4'' ''Processing Integrity'' ''Outputs complete & accurate''
       ''Outputs (detections, incidents, reports) are complete, accurate and distributed to authorised parties.'' (Some ''output_integrity''),
     control ''PI1.5'' ''Processing Integrity'' ''Storage integrity''
       ''Stored items are maintained completely, accurately and in a protected manner.'' (Some ''storage_integrity''),
     control ''P1.1'' ''Privacy'' ''Privacy notice''
       ''Notice about privacy practices is provided to data subjects.'' None,
     control ''P2.1'' ''Privacy'' ''Choice & consent''
       ''Choices regarding personal information are communicated and consent obtained.'' None,
     control ''P3.1'' ''Privacy'' ''Collection''
       ''Personal information is collected consistently with objectives.'' (Some ''pii_collection''),
     control ''P4.1'' ''Privacy'' ''Use, retention & disposal''
       ''Personal information use, retention and disposal follow policy.'' (Some ''data_retention''),
     control ''P5.1'' ''Privacy'' ''Access''
       ''Data subjects can access and correct their personal information.'' None,
     control ''P6.1'' ''Privacy'' ''Disclosure to third parties''
       ''Personal information disclosure is limited to stated purposes.'' None,
     control ''P7.1'' ''Privacy'' ''Quality''
       ''Personal information is accurate and complete for its purposes.'' None,
     control ''P8.1'' ''Privacy'' ''Monitoring & enforcement''
       ''Privacy complaints and compliance are monitored and enforced.'' None]"


section \<open>The estate\<close>

record estate =
  et_users :: "user list"
  et_tokens :: "credential_token list"
  et_access :: "access_entry list"
  et_admin :: "admin_entry list"
  et_soc :: soc_db
  et_runs :: "scenario_run list"
  et_raw :: "raw_row list"
  et_sessions :: "geo_session list"
  et_detected :: "nat \<Rightarrow> time"
  et_opened :: "string \<Rightarrow> time option"
  et_reports :: "string option list"
  et_config :: "(string \<times> json) list"

record assess_env =
  ax_now :: time
  ax_time :: "time \<Rightarrow> string"
  ax_float :: "rat \<Rightarrow> string"
  ax_getenv :: "string \<Rightarrow> string option"
  ax_dir :: "string \<Rightarrow> nat option"
  ax_rules :: nat
  ax_cores :: nat
  ax_load :: rat
  ax_memory :: "rat \<times> rat"
  ax_disk :: "rat \<times> rat"
  ax_raises :: "string \<Rightarrow> string option"

datatype readiness = Met | Partly | Gap | Manual

record finding_item =
  fi_label :: string
  fi_value :: string
  fi_source :: string

record collected =
  ce_status :: readiness
  ce_items :: "finding_item list"
  ce_metrics :: jdict

definition item :: "string \<Rightarrow> string \<Rightarrow> string \<Rightarrow> finding_item" where
  "item l v s = \<lparr>fi_label = l, fi_value = v, fi_source = s\<rparr>"

definition result_of :: "readiness \<Rightarrow> finding_item list \<Rightarrow> jdict \<Rightarrow> collected" where
  "result_of st ev ms = \<lparr>ce_status = st, ce_items = ev, ce_metrics = ms\<rparr>"

definition jnat :: "nat \<Rightarrow> json" where
  "jnat n = JInt (int n)"

definition count_if :: "('a \<Rightarrow> bool) \<Rightarrow> 'a list \<Rightarrow> nat" where
  "count_if P xs = length (filter P xs)"

definition out_of :: "nat \<Rightarrow> nat \<Rightarrow> string" where
  "out_of a b = str_of_nat a @ ''/'' @ str_of_nat b"

text \<open>The format \<open>:,\<close> of a count.\<close>

fun commas :: "string \<Rightarrow> string" where
  "commas (a # b # c # d # ds) = a # b # c # CHR '','' # commas (d # ds)"
| "commas s = s"

definition with_commas :: "nat \<Rightarrow> string" where
  "with_commas n = rev (commas (rev (str_of_nat n)))"

definition or_dash :: "string option \<Rightarrow> string" where
  "or_dash v = (case v of None \<Rightarrow> ''-'' | Some s \<Rightarrow> s)"

text \<open>\<open>MAX\<close> of a column.\<close>

definition newest :: "time list \<Rightarrow> time option" where
  "newest ts = (case ts of [] \<Rightarrow> None | t # ts \<Rightarrow> Some (foldl max t ts))"

section \<open>The collectors\<close>

text \<open>The dictionary of roles: rows without a role and with an empty one share the key \<open>UNSET\<close>.\<close>

definition role_counts :: "estate \<Rightarrow> (string \<times> nat) list" where
  "role_counts e = fold (\<lambda>(r, us). AList.update (case r of None \<Rightarrow> ''UNSET'' | Some [] \<Rightarrow> ''UNSET'' | Some r \<Rightarrow> r) (length us))
     (group_on (\<lambda>u. Some (u_role u)) (et_users e)) []"

definition count_of :: "string \<Rightarrow> (string \<times> nat) list \<Rightarrow> nat" where
  "count_of k ds = (case map_of ds k of None \<Rightarrow> 0 | Some n \<Rightarrow> n)"

definition org_roles :: "assess_env \<Rightarrow> estate \<Rightarrow> collected" where
  "org_roles env e =
     (let dist = role_counts e;
          admins = count_of ''ADMIN'' dist + count_of ''SUPER_ADMIN'' dist;
          total = sum_list (map snd dist);
          st = (if length dist \<ge> 2 \<and> total \<noteq> 0 \<and> 2 * admins \<le> total then Met else Partly);
          st = (if total = 0 then Gap else st)
      in result_of st
           (map (\<lambda>(r, c). item (''Users with role '' @ r) (str_of_nat c) ''users table'') dist
            @ [item ''Distinct roles in use'' (str_of_nat (length dist)) ''users.role GROUP BY''])
           [(''roles'', JObj (map (\<lambda>(r, c). (r, jnat c)) dist)),
            (''admin_ratio'', if total = 0 then JNull
               else (let r = py_round 3 (of_nat admins / of_nat total) in JFloat r (ax_float env r)))])"

definition rbac :: "assess_env \<Rightarrow> estate \<Rightarrow> collected" where
  "rbac env e =
     (let unset = count_if (\<lambda>u. u_role u = None) (et_users e);
          lvls = group_on (\<lambda>u. Some (u_clearance u)) (et_users e)
      in result_of (if unset = 0 then Met else Gap)
           [item ''Users with no role assigned'' (str_of_nat unset) ''users.role IS NULL'',
            item ''Clearance-level distribution''
              (py_str (JObj (map (\<lambda>(l, us). (case l of None \<Rightarrow> ''None'' | Some i \<Rightarrow> str_of_int i, jnat (length us))) lvls)))
              ''users.clearance_level'']
           [(''users_without_role'', jnat unset)])"

definition admin_activity_control :: "assess_env \<Rightarrow> estate \<Rightarrow> collected" where
  "admin_activity_control env e =
     (let total = length (et_admin e);
          recent = count_if (\<lambda>a. ax_now env - days 90 \<le> ad_time a) (et_admin e);
          failed = count_if (\<lambda>a. ad_result a \<noteq> ''SUCCESS'') (et_admin e)
      in result_of (if total > 0 then Met else Gap)
           [item ''Administrative actions logged (all time)'' (str_of_nat total) ''admin_activity_log'',
            item ''Logged in the last 90 days'' (str_of_nat recent) ''admin_activity_log.timestamp'',
            item ''Non-success outcomes captured'' (str_of_nat failed) ''admin_activity_log.result'']
           [(''total'', jnat total), (''recent_90d'', jnat recent)])"

definition change_mgmt :: "assess_env \<Rightarrow> estate \<Rightarrow> collected" where
  "change_mgmt env e =
     (let a = length (et_admin e); al = length (et_access e)
      in result_of (if a + al \<noteq> 0 then Partly else Gap)
           [item ''Config/administrative change events'' (str_of_nat a) ''admin_activity_log'',
            item ''Access-control change events'' (str_of_nat al) ''access_logs'',
            item ''Detection rules under version control'' ''backend/detections/*.yaml (read-only mount)'' ''docker-compose volume :ro'']
           [(''note'', JStr ''Formal change-approval workflow is a manual process; system logs the executed changes.'')])"

definition monitoring_pipeline :: "assess_env \<Rightarrow> estate \<Rightarrow> collected" where
  "monitoring_pipeline env e =
     (let raw = length (et_raw e); norm = length (events (et_soc e)); det = length (detections (et_soc e));
          last_evt = newest (map rr_timestamp (et_raw e));
          last_det = newest (map (\<lambda>d. et_detected e (d_id d)) (detections (et_soc e)));
          fresh = (case last_evt of None \<Rightarrow> False | Some t \<Rightarrow> ax_now env - t < hours 24)
      in result_of (if raw \<noteq> 0 \<and> det \<noteq> 0 \<and> fresh then Met else if raw \<noteq> 0 then Partly else Gap)
           [item ''Raw events ingested'' (with_commas raw) ''raw_events'',
            item ''Events normalised'' (with_commas norm) ''normalized_events'',
            item ''Detections produced'' (str_of_nat det) ''detections'',
            item ''Most recent event'' (or_dash (map_option (ax_time env) last_evt)) ''raw_events.timestamp'',
            item ''Most recent detection'' (or_dash (map_option (ax_time env) last_det)) ''detections.created_at'']
           [(''raw'', jnat raw), (''normalized'', jnat norm), (''detections'', jnat det), (''ingest_fresh'', JBool fresh)])"

definition risk_process :: "assess_env \<Rightarrow> estate \<Rightarrow> collected" where
  "risk_process env e =
     (let scored = count_if (\<lambda>i. i_risk_score i > 0) (incidents (et_soc e));
          total = length (incidents (et_soc e));
          detailed = count_if (\<lambda>i. i_breakdown i \<noteq> None) (incidents (et_soc e))
      in result_of (if total \<noteq> 0 \<and> scored = total \<and> detailed \<noteq> 0 then Met else if total \<noteq> 0 then Partly else Gap)
           [item ''Incidents with a computed risk score'' (out_of scored total) ''incidents.risk_score'',
            item ''Incidents with a documented risk breakdown'' (str_of_nat detailed) ''incidents.risk_breakdown'',
            item ''Automated risk register'' ''GET /compliance/risk-register'' ''risk_register.py'']
           [(''scored'', jnat scored), (''total'', jnat total)])"

definition control_testing :: "assess_env \<Rightarrow> estate \<Rightarrow> collected" where
  "control_testing env e =
     (let runs = length (et_runs e);
          passed = count_if (\<lambda>r. sr_result r = Some PASS) (et_runs e);
          failed = count_if (\<lambda>r. sr_result r = Some FAIL) (et_runs e);
          latest = newest (map sr_started (et_runs e))
      in result_of (if runs \<noteq> 0 \<and> passed \<noteq> 0 then Met else if runs \<noteq> 0 then Partly else Gap)
           [item ''Detection-validation runs executed'' (str_of_nat runs) ''scenario_runs'',
            item ''Runs passed / failed'' (str_of_nat passed @ '' / '' @ str_of_nat failed) ''scenario_runs.result'',
            item ''Most recent control test'' (or_dash (map_option (ax_time env) latest)) ''scenario_runs.started_at'']
           [(''runs'', jnat runs), (''passed'', jnat passed), (''failed'', jnat failed)])"

definition dir_entries :: "assess_env \<Rightarrow> string \<Rightarrow> nat" where
  "dir_entries env d = (case ax_dir env d of None \<Rightarrow> 0 | Some n \<Rightarrow> n)"

definition detection_controls :: "assess_env \<Rightarrow> estate \<Rightarrow> collected" where
  "detection_controls env e =
     (let yr = dir_entries env ''/app/yara_rules''; dr = dir_entries env ''/app/detections''
      in result_of (if dr \<noteq> 0 then Met else Gap)
           [item ''Detection rule files'' (str_of_nat dr) ''backend/detections/'',
            item ''YARA rule files'' (str_of_nat yr) ''backend/yara_rules/'',
            item ''Rules loaded by the engine''
              (if ax_rules env \<noteq> 0 then str_of_nat (ax_rules env) else ''see /detections/rules'') ''detection_rules'']
           [(''detection_files'', jnat dr), (''yara_files'', jnat yr)])"

definition logical_access :: "assess_env \<Rightarrow> estate \<Rightarrow> collected" where
  "logical_access env e =
     (let total = length (et_users e);
          active = count_if (\<lambda>u. u_status u = Some ''ACTIVE'') (et_users e);
          pending = count_if (\<lambda>u. u_status u = Some ''PENDING'') (et_users e);
          blocked = count_if (\<lambda>u. u_status u = Some ''BLOCKED'') (et_users e);
          hashed = count_if (\<lambda>u. starts_with ''$2'' (u_hash u)) (et_users e);
          otp = count_if (\<lambda>u. u_otp u \<noteq> None) (et_users e);
          st = (if total \<noteq> 0 \<and> hashed = total then Met else Partly);
          st = (if total = 0 then Gap else st)
      in result_of st
           [item ''Total accounts'' (str_of_nat total) ''users'',
            item ''Active / Pending-approval / Blocked''
              (str_of_nat active @ '' / '' @ str_of_nat pending @ '' / '' @ str_of_nat blocked) ''users.status'',
            item ''Passwords stored as bcrypt hashes'' (out_of hashed total) ''users.password_hash'',
            item ''Accounts that have used OTP second factor'' (str_of_nat otp) ''users.otp_code'',
            item ''Auth: OAuth2 password flow + JWT'' ''app/api/v1/endpoints/auth.py'' ''code'']
           [(''total'', jnat total), (''active'', jnat active), (''hashed'', jnat hashed), (''mfa_users'', jnat otp)])"

definition user_lifecycle :: "assess_env \<Rightarrow> estate \<Rightarrow> collected" where
  "user_lifecycle env e =
     (let approvals = count_if (\<lambda>a. ae_action a \<in> {''APPROVE'', ''DENY'', ''REVOKE''}) (et_access e);
          pending = count_if (\<lambda>u. u_status u = Some ''PENDING'') (et_users e)
      in result_of (if approvals \<noteq> 0 then Met else if pending = 0 then Partly else Gap)
           [item ''Registration -> admin-approval workflow'' ''auth/register + users/{id}/approve|deny'' ''code'',
            item ''Access-grant / revoke events logged'' (str_of_nat approvals) ''access_logs.action'',
            item ''Accounts awaiting approval'' (str_of_nat pending) ''users.status = PENDING'']
           [(''approval_events'', jnat approvals)])"

definition env_or :: "assess_env \<Rightarrow> string \<Rightarrow> string \<Rightarrow> string" where
  "env_or env k d = (case ax_getenv env k of None \<Rightarrow> d | Some v \<Rightarrow> v)"

definition boundary :: "assess_env \<Rightarrow> estate \<Rightarrow> collected" where
  "boundary env e = result_of Met
     [item ''Attacker-facing sensors isolated on honeynet_edge'' ''no service bridges edge<->app networks'' ''docker-compose networks'',
      item ''API CORS allow-list enforced'' (env_or env ''CORS_ORIGINS'' ''(default loopback)'') ''main.py'',
      item ''Dev auth bypass gate''
        (''DEV_BYPASS='' @ env_or env ''DEV_BYPASS'' ''0'' @ '' & INFRA_PROVIDER='' @ env_or env ''INFRA_PROVIDER'' ''local'') ''dependencies.py'',
      item ''Container hardening'' ''no-new-privileges, read-only rule mounts'' ''docker-compose''] []"

definition data_transmission :: "assess_env \<Rightarrow> estate \<Rightarrow> collected" where
  "data_transmission env e =
     (let tot = length (et_tokens e);
          used = count_if ct_used (et_tokens e);
          stale = count_if (\<lambda>t. \<not> ct_used t \<and> ct_expires t < ax_now env) (et_tokens e)
      in result_of (if tot \<noteq> 0 then Met else Manual)
           [item ''One-time credential tokens issued'' (str_of_nat tot) ''credential_tokens'',
            item ''Tokens redeemed / expired-unused'' (str_of_nat used @ '' / '' @ str_of_nat stale) ''credential_tokens.used / expires_at'',
            item ''Token model'' ''single-use, hard expiry, force_password_change'' ''credential_tokens schema'']
           [(''note'', JStr ''TLS termination for data in transit is a deployment/manual control (reverse proxy).'')])"

definition malware_controls :: "assess_env \<Rightarrow> estate \<Rightarrow> collected" where
  "malware_controls env e =
     (let n = count_if (\<lambda>v. contains_str ''clam'' (lower (evd_type v))) (evidence_rows (et_soc e));
          yr = dir_entries env ''/app/yara_rules''
      in result_of (if yr \<noteq> 0 then Met else Partly)
           [item ''ClamAV engine wired into the malware pipeline'' ''av_scanner.clamav_scan'' ''code'',
            item ''YARA rule sets available'' (str_of_nat yr) ''backend/yara_rules/'',
            item ''Quarantine isolation for uploaded samples'' ''backend/quarantine/ (never nginx-served)'' ''docker-compose / .gitignore'',
            item ''ClamAV verdicts recorded as evidence'' (str_of_nat n) ''evidence.type''] [])"

definition vuln_detection :: "assess_env \<Rightarrow> estate \<Rightarrow> collected" where
  "vuln_detection env e = result_of Partly
     [item ''Hardened container baseline'' ''slim base images, no-new-privileges, minimal packages'' ''Dockerfiles'',
      item ''Read-only mounts for detection logic'' ''detections/, yara_rules/, scenarios/ mounted :ro'' ''docker-compose'',
      item ''Dependency pinning'' ''backend/requirements.txt version constraints'' ''repo'']
     [(''note'', JStr (''No automated CVE scanner is wired in; add one (e.g. trivy) to reach '' @ [CHR 0x27] @ ''met'' @ [CHR 0x27] @ ''.''))]"

definition incident_eval :: "assess_env \<Rightarrow> estate \<Rightarrow> collected" where
  "incident_eval env e =
     (let det = length (detections (et_soc e));
          linked = count_if (\<lambda>d. d_incident d \<noteq> None) (detections (et_soc e));
          inc = length (incidents (et_soc e));
          fp = count_if (\<lambda>i. i_status i = ''FALSE_POSITIVE'') (incidents (et_soc e))
      in result_of (if det \<noteq> 0 \<and> inc \<noteq> 0 then Met else if det \<noteq> 0 then Partly else Gap)
           [item ''Detections triaged into incidents'' (out_of linked det) ''detections.incident_id'',
            item ''Incidents opened'' (str_of_nat inc) ''incidents'',
            item ''Explicitly dispositioned as false positive'' (str_of_nat fp) ''incidents.status'',
            item ''Correlation engine'' ''services/detection_engine.py (runs every 20s)'' ''main.py'']
           [(''detections'', jnat det), (''linked'', jnat linked), (''incidents'', jnat inc)])"

text \<open>The mean time to resolve, in hours, of the resolved incidents updated after they were opened.\<close>

definition resolved_incidents :: "estate \<Rightarrow> incident list" where
  "resolved_incidents e = filter (\<lambda>i. i_status i \<in> {''CONTAINED'', ''RESOLVED'', ''FALSE_POSITIVE''}) (incidents (et_soc e))"

definition resolve_hours :: "estate \<Rightarrow> rat list" where
  "resolve_hours e = concat (map (\<lambda>i. case et_opened e (i_id i) of
       None \<Rightarrow> []
     | Some t \<Rightarrow> if i_updated_at i > t then [of_int (i_updated_at i - t) / 1000000 / 3600] else []) (resolved_incidents e))"

definition mean_hours :: "estate \<Rightarrow> rat option" where
  "mean_hours e = (let ds = resolve_hours e in
     if ds = [] then None else Some (py_round 1 (sum_list ds / of_nat (length ds))))"

definition incident_response :: "assess_env \<Rightarrow> estate \<Rightarrow> collected" where
  "incident_response env e =
     (let total = length (incidents (et_soc e)); resolved = length (resolved_incidents e);
          mttr = mean_hours e; acts = length (activities (et_soc e));
          with_ev = length (remdups (map evd_incident (evidence_rows (et_soc e))))
      in result_of (if resolved \<noteq> 0 \<and> acts \<noteq> 0 then Met else if total \<noteq> 0 then Partly else Gap)
           [item ''Incidents progressed to contained/resolved'' (out_of resolved total) ''incidents.status'',
            item ''Mean time to resolve (hours)'' (or_dash (map_option (ax_float env) mttr)) ''incidents.updated_at - created_at'',
            item ''Analyst response actions logged'' (str_of_nat acts) ''incident_activity'',
            item ''Incidents with evidence attached'' (str_of_nat with_ev) ''evidence.incident_id'']
           [(''total'', jnat total), (''resolved'', jnat resolved),
            (''mttr_hours'', case mttr of None \<Rightarrow> JNull | Some r \<Rightarrow> JFloat r (ax_float env r)), (''activities'', jnat acts)])"

definition recovery :: "assess_env \<Rightarrow> estate \<Rightarrow> collected" where
  "recovery env e =
     (let total = length (evidence_rows (et_soc e));
          immutable = count_if evd_immutable (evidence_rows (et_soc e));
          hashed = count_if (\<lambda>v. evd_content_hash v \<noteq> None) (evidence_rows (et_soc e))
      in result_of (if total \<noteq> 0 \<and> hashed = total then Met else if total \<noteq> 0 then Partly else Gap)
           [item ''System backup endpoint'' ''GET /admin/backup (full DB export)'' ''admin.py'',
            item ''Evidence items preserved'' (str_of_nat total) ''evidence'',
            item ''Evidence marked immutable'' (out_of immutable total) ''evidence.immutable'',
            item ''Evidence with integrity hash'' (out_of hashed total) ''evidence.content_hash'',
            item ''Integrity verification'' ''GET /evidence/{id}/verify'' ''evidence.py'']
           [(''evidence'', jnat total), (''hashed'', jnat hashed)])"

definition capacity :: "assess_env \<Rightarrow> estate \<Rightarrow> collected" where
  "capacity env e =
     (case ax_memory env of (mem, mem_size) \<Rightarrow> case ax_disk env of (disk, disk_size) \<Rightarrow>
      let gb = (\<lambda>b. ax_float env (py_round 1 (b / 1024 ^ 3)) @ '' GB'')
      in result_of (if mem < 90 \<and> disk < 90 then Met else Partly)
           [item ''CPU cores / current load'' (str_of_nat (ax_cores env) @ '' / '' @ ax_float env (ax_load env) @ ''%'') ''psutil'',
            item ''Memory used'' (ax_float env mem @ ''% of '' @ gb mem_size) ''psutil'',
            item ''Disk used'' (ax_float env disk @ ''% of '' @ gb disk_size) ''psutil'',
            item ''Live capacity feed'' ''GET /labs/cluster-metrics, GET /nodes/stats'' ''code'']
           [(''mem_pct'', JFloat mem (ax_float env mem)), (''disk_pct'', JFloat disk (ax_float env disk))])"

definition availability :: "assess_env \<Rightarrow> estate \<Rightarrow> collected" where
  "availability env e = result_of Met
     [item ''Container restart policy'' ''restart: unless-stopped on all services'' ''docker-compose'',
      item ''Health checks + depends_on: service_healthy'' ''backend, db, mobsf, clamav, sensors'' ''docker-compose'',
      item ''Operator status page'' ''GET /health, GET /health/data'' ''health_page.py'',
      item ''Backup export'' ''GET /admin/backup'' ''admin.py'']
     [(''note'', JStr ''Off-host backup storage and restore drills are a manual/operational control.'')]"

definition data_classification :: "assess_env \<Rightarrow> estate \<Rightarrow> collected" where
  "data_classification env e = result_of Met
     [item ''Malware samples isolated'' ''backend/quarantine/ - authenticated endpoints only, never a static mount'' ''docker-compose / code'',
      item ''Incident evidence isolated'' ''backend/evidence/ - chain-of-custody, gitignored'' ''.gitignore'',
      item ''Detection logic protected'' ''detections/, yara_rules/ mounted read-only'' ''docker-compose'',
      item ''Report distribution'' ''reports served only via authenticated /reports/{id}/download'' ''reports.py''] []"

definition retention_keys :: "estate \<Rightarrow> jdict" where
  "retention_keys e = filter (\<lambda>(k, _). contains_str ''retent'' (lower k) \<or> contains_str ''ttl'' (lower k)) (et_config e)"

definition data_retention :: "assess_env \<Rightarrow> estate \<Rightarrow> collected" where
  "data_retention env e =
     (let retention = retention_keys e
      in result_of (if retention = [] then Partly else Met)
           [item ''Analysis Lab sandbox TTL'' ''ttl_minutes on analysis_sessions (default 20)'' ''schema'',
            item ''Credential token expiry'' ''hard expires_at on credential_tokens'' ''schema'',
            item ''Configured retention keys'' (if retention = [] then ''none set'' else py_str (JObj retention)) ''system_config'']
           [(''note'', JStr ''A documented data-retention schedule is a manual policy control; set system_config keys to make it enforceable.'')])"

definition pii_collection :: "assess_env \<Rightarrow> estate \<Rightarrow> collected" where
  "pii_collection env e = result_of Manual
     [item ''Personal data held'' ''operator accounts: name, email, department (users table)'' ''schema'',
      item ''Attacker data'' ''source IPs + captured credentials are threat telemetry, not customer PII'' ''design'',
      item ''Collection purpose'' ''SOC operation and honeypot threat intelligence'' ''design'']
     [(''note'', JStr ''Lawful-basis and data-subject notice for operator PII require a manual privacy review.'')]"

definition pipeline_integrity :: "assess_env \<Rightarrow> estate \<Rightarrow> collected" where
  "pipeline_integrity env e =
     (let raw = length (et_raw e); norm = length (events (et_soc e));
          rate = (if raw = 0 then None else Some (py_round 3 (of_nat norm / of_nat raw)))
      in result_of
           (if raw \<noteq> 0 \<and> (case rate of None \<Rightarrow> False | Some r \<Rightarrow> r \<noteq> 0 \<and> r \<ge> 8 / 10) then Met
            else if raw \<noteq> 0 then Partly else Gap)
           [item ''Raw -> normalised conversion rate''
              (or_dash (map_option (ax_float env) rate) @ '' ('' @ with_commas norm @ ''/'' @ with_commas raw @ '')'') ''raw_events / normalized_events'',
            item ''Idempotent ingest''
              ''normalized_events PK = content hash of the source event (re-ingest = PK collision, not a dupe)'' ''schema comment'',
            item ''Cursor-based dedup'' ''IngestCursor per sensor log'' ''services/telemetry/collector.py'']
           [(''raw'', jnat raw), (''normalized'', jnat norm),
            (''rate'', case rate of None \<Rightarrow> JNull | Some r \<Rightarrow> JFloat r (ax_float env r))])"

definition output_integrity :: "assess_env \<Rightarrow> estate \<Rightarrow> collected" where
  "output_integrity env e =
     (let reps = length (et_reports e); hashed = count_if (\<lambda>h. h \<noteq> None) (et_reports e)
      in result_of (if reps = 0 \<or> hashed = reps then Met else Partly)
           [item ''Reports generated'' (str_of_nat reps) ''generated_reports'',
            item ''Reports with content SHA-256'' (out_of hashed reps) ''generated_reports.sha256'',
            item ''Every report records generated_by / generated_at / data window'' ''provenance block on cover'' ''reporting/engine.py'',
            item ''Distribution restricted'' ''authenticated download only'' ''reports.py'']
           [(''reports'', jnat reps), (''hashed'', jnat hashed)])"

definition storage_integrity :: "assess_env \<Rightarrow> estate \<Rightarrow> collected" where
  "storage_integrity env e = result_of Met
     [item ''Evidence integrity hashes'' ''evidence.content_hash + /evidence/{id}/verify'' ''code'',
      item ''Immutable evidence flag'' ''evidence.immutable default true'' ''schema'',
      item ''Database'' ''MariaDB with pooled async connections, pre-ping recycle'' ''database.py''] []"

definition COLLECTORS :: "(string \<times> (assess_env \<Rightarrow> estate \<Rightarrow> collected)) list" where
  "COLLECTORS = [(''org_roles'', org_roles), (''rbac'', rbac), (''admin_activity'', admin_activity_control),
     (''change_mgmt'', change_mgmt), (''monitoring_pipeline'', monitoring_pipeline), (''risk_process'', risk_process),
     (''control_testing'', control_testing), (''detection_controls'', detection_controls),
     (''logical_access'', logical_access), (''user_lifecycle'', user_lifecycle), (''boundary'', boundary),
     (''data_transmission'', data_transmission), (''malware_controls'', malware_controls),
     (''vuln_detection'', vuln_detection), (''incident_eval'', incident_eval), (''incident_response'', incident_response),
     (''recovery'', recovery), (''capacity'', capacity), (''availability'', availability),
     (''data_classification'', data_classification), (''data_retention'', data_retention),
     (''pii_collection'', pii_collection), (''pipeline_integrity'', pipeline_integrity),
     (''output_integrity'', output_integrity), (''storage_integrity'', storage_integrity)]"

section \<open>The assessment\<close>

record entry =
  en_status :: readiness
  en_items :: "finding_item list"
  en_metrics :: jdict
  en_note :: "string option"

record assessed = entry +
  aw_control :: control_spec

definition plain_entry :: "readiness \<Rightarrow> string \<Rightarrow> entry" where
  "plain_entry st msg = \<lparr>en_status = st, en_items = [], en_metrics = [], en_note = Some msg\<rparr>"

text \<open>A collector's result has no key \<open>note\<close>; one that raises is a gap.\<close>

definition run_collector :: "assess_env \<Rightarrow> estate \<Rightarrow> string \<Rightarrow> (assess_env \<Rightarrow> estate \<Rightarrow> collected) \<Rightarrow> entry" where
  "run_collector env e k f =
     (case ax_raises env k of
        Some msg \<Rightarrow> plain_entry Gap (''collector error: '' @ msg)
      | None \<Rightarrow> (let c = f env e in
          \<lparr>en_status = ce_status c, en_items = ce_items c, en_metrics = ce_metrics c, en_note = None\<rparr>))"

definition entry_for :: "assess_env \<Rightarrow> estate \<Rightarrow> control_spec \<Rightarrow> (string \<times> entry) list \<Rightarrow> entry \<times> (string \<times> entry) list" where
  "entry_for env e c cache =
     (case tc_evidence c of
        None \<Rightarrow> (plain_entry Manual ''No system-derived evidence; requires manual attestation.'', cache)
      | Some k \<Rightarrow>
          (case map_of COLLECTORS k of
             None \<Rightarrow> (plain_entry Gap (''collector '' @ [CHR 0x27] @ k @ [CHR 0x27] @ '' not implemented''), cache)
           | Some f \<Rightarrow>
               (case map_of cache k of
                  Some en \<Rightarrow> (en, cache)
                | None \<Rightarrow> (let en = run_collector env e k f in (en, AList.update k en cache)))))"

definition assess_row :: "control_spec \<Rightarrow> entry \<Rightarrow> assessed" where
  "assess_row c en = entry.extend en \<lparr>aw_control = c\<rparr>"

fun assess_controls :: "assess_env \<Rightarrow> estate \<Rightarrow> control_spec list \<Rightarrow> (string \<times> entry) list \<Rightarrow> assessed list" where
  "assess_controls env e [] cache = []"
| "assess_controls env e (c # cs) cache =
     (case entry_for env e c cache of (en, cache) \<Rightarrow> assess_row c en # assess_controls env e cs cache)"

definition score_of :: "readiness \<Rightarrow> rat" where
  "score_of st = (case st of Met \<Rightarrow> 1 | Partly \<Rightarrow> 1 / 2 | _ \<Rightarrow> 0)"

definition readiness_pct :: "assessed list \<Rightarrow> rat" where
  "readiness_pct rows = (let auto = filter (\<lambda>x. en_status x \<noteq> Manual) rows in
     if auto = [] then 0 else py_round 1 (100 * sum_list (map (\<lambda>x. score_of (en_status x)) auto) / of_nat (length auto)))"

record tally =
  ty_met :: nat
  ty_partial :: nat
  ty_gap :: nat
  ty_manual :: nat
  ty_total :: nat

definition no_tally :: tally where
  "no_tally = \<lparr>ty_met = 0, ty_partial = 0, ty_gap = 0, ty_manual = 0, ty_total = 0\<rparr>"

definition count_row :: "readiness \<Rightarrow> tally \<Rightarrow> tally" where
  "count_row st t =
     (let t = (case st of Met \<Rightarrow> t\<lparr>ty_met := ty_met t + 1\<rparr> | Partly \<Rightarrow> t\<lparr>ty_partial := ty_partial t + 1\<rparr>
             | Gap \<Rightarrow> t\<lparr>ty_gap := ty_gap t + 1\<rparr> | Manual \<Rightarrow> t\<lparr>ty_manual := ty_manual t + 1\<rparr>)
      in t\<lparr>ty_total := ty_total t + 1\<rparr>)"

definition by_category :: "assessed list \<Rightarrow> (string \<times> tally) list" where
  "by_category rows = foldl (\<lambda>d x. let k = tc_category (aw_control x);
        t = (case map_of d k of None \<Rightarrow> no_tally | Some t \<Rightarrow> t) in AList.update k (count_row (en_status x) t) d) [] rows"

definition with_status :: "readiness \<Rightarrow> assessed list \<Rightarrow> assessed list" where
  "with_status st rows = filter (\<lambda>x. en_status x = st) rows"

record assessment =
  sm_readiness :: rat
  sm_counts :: tally
  sm_categories :: "(string \<times> tally) list"
  sm_controls :: "assessed list"
  sm_gaps :: "assessed list"
  sm_partials :: "assessed list"

definition run_assessment :: "assess_env \<Rightarrow> estate \<Rightarrow> assessment" where
  "run_assessment env e =
     (let rows = assess_controls env e CATALOG []
      in \<lparr>sm_readiness = readiness_pct rows,
          sm_counts = \<lparr>ty_met = length (with_status Met rows), ty_partial = length (with_status Partly rows),
            ty_gap = length (with_status Gap rows), ty_manual = length (with_status Manual rows), ty_total = length rows\<rparr>,
          sm_categories = by_category rows, sm_controls = rows,
          sm_gaps = with_status Gap rows, sm_partials = with_status Partly rows\<rparr>)"

section \<open>The cache changes nothing\<close>

definition direct_entry :: "assess_env \<Rightarrow> estate \<Rightarrow> control_spec \<Rightarrow> entry" where
  "direct_entry env e c =
     (case tc_evidence c of
        None \<Rightarrow> plain_entry Manual ''No system-derived evidence; requires manual attestation.''
      | Some k \<Rightarrow> (case map_of COLLECTORS k of
            None \<Rightarrow> plain_entry Gap (''collector '' @ [CHR 0x27] @ k @ [CHR 0x27] @ '' not implemented'')
          | Some f \<Rightarrow> run_collector env e k f))"

definition honest_cache :: "assess_env \<Rightarrow> estate \<Rightarrow> (string \<times> entry) list \<Rightarrow> bool" where
  "honest_cache env e cache \<longleftrightarrow> (\<forall>k en. map_of cache k = Some en \<longrightarrow>
     (\<exists>f. map_of COLLECTORS k = Some f \<and> en = run_collector env e k f))"

lemma entry_for_direct:
  "honest_cache env e cache \<Longrightarrow>
     fst (entry_for env e c cache) = direct_entry env e c \<and> honest_cache env e (snd (entry_for env e c cache))"
  by (auto simp: entry_for_def direct_entry_def honest_cache_def Let_def update_conv' split: option.splits) (metis option.inject)

lemma assess_controls_direct:
  "honest_cache env e cache \<Longrightarrow> assess_controls env e cs cache = map (\<lambda>c. assess_row c (direct_entry env e c)) cs"
proof (induction cs arbitrary: cache)
  case (Cons c cs)
  obtain en cache' where f: "entry_for env e c cache = (en, cache')" by (metis surj_pair)
  show ?case using entry_for_direct[OF Cons.prems, of c] Cons.IH[of cache'] by (simp add: f)
qed simp

lemma controls_direct: "sm_controls (run_assessment env e) = map (\<lambda>c. assess_row c (direct_entry env e c)) CATALOG"
  using assess_controls_direct[of env e "[]" CATALOG] by (simp add: run_assessment_def Let_def honest_cache_def)

text \<open>Although a collector runs once and its result is shared by the controls that name it, the
  assessment lists the controls of the catalogue in order, each with the result its own collector
  gives on the database.\<close>

theorem assessment_is_per_control:
  "sm_controls (run_assessment env e) = map (\<lambda>c. assess_row c (direct_entry env e c)) CATALOG"
  by (rule controls_direct)

section \<open>The report adds up\<close>

definition tally_of :: "assessed list \<Rightarrow> tally" where
  "tally_of rows = \<lparr>ty_met = length (with_status Met rows), ty_partial = length (with_status Partly rows),
     ty_gap = length (with_status Gap rows), ty_manual = length (with_status Manual rows), ty_total = length rows\<rparr>"

definition in_category :: "string \<Rightarrow> assessed list \<Rightarrow> assessed list" where
  "in_category k rows = filter (\<lambda>x. tc_category (aw_control x) = k) rows"

lemma tally_snoc: "tally_of (rows @ [x]) = count_row (en_status x) (tally_of rows)"
  by (cases "en_status x") (simp_all add: tally_of_def count_row_def with_status_def Let_def)

lemma tally_Nil: "tally_of [] = no_tally"
  by (simp add: tally_of_def no_tally_def with_status_def)

lemma tally_total:
  "ty_met (tally_of rows) + ty_partial (tally_of rows) + ty_gap (tally_of rows) + ty_manual (tally_of rows) = length rows"
proof (induction rows rule: rev_induct)
  case (snoc x rows)
  then show ?case unfolding tally_snoc by (cases "en_status x") (simp_all add: count_row_def Let_def)
qed (simp add: tally_Nil no_tally_def)

lemma by_category_snoc:
  "by_category (rows @ [x]) = AList.update (tc_category (aw_control x)) (count_row (en_status x)
     (case map_of (by_category rows) (tc_category (aw_control x)) of None \<Rightarrow> no_tally | Some t \<Rightarrow> t)) (by_category rows)"
  by (simp add: by_category_def Let_def)

text \<open>A category's tally counts the controls of the category, and every category is listed once.\<close>

lemma by_category_lookup:
  "map_of (by_category rows) k = (if in_category k rows = [] then None else Some (tally_of (in_category k rows)))"
proof (induction rows rule: rev_induct)
  case Nil
  then show ?case by (simp add: by_category_def in_category_def)
next
  case (snoc x rows)
  have i: "in_category k (rows @ [x]) = (if tc_category (aw_control x) = k then in_category k rows @ [x] else in_category k rows)"
    by (simp add: in_category_def)
  show ?case
    using snoc by (auto simp: by_category_snoc i update_conv' tally_snoc tally_Nil[symmetric])
qed

lemma by_category_keys: "map fst (by_category rows) = dedup_on (\<lambda>k. k) (map (\<lambda>x. tc_category (aw_control x)) rows)"
proof (induction rows rule: rev_induct)
  case Nil
  then show ?case by (simp add: by_category_def dedup_on_def)
next
  case (snoc x rows)
  have d: "dedup_on (\<lambda>k. k) (xs @ [y]) = (if y \<in> set xs then dedup_on (\<lambda>k. k) xs else dedup_on (\<lambda>k. k) xs @ [y])" for xs and y :: string
    using dedup_on_snoc[of "\<lambda>k. k" xs y] by simp
  have m: "set (map fst (by_category rows)) = tc_category ` aw_control ` set rows"
    unfolding snoc by (simp add: image_image)
  show ?case
  proof (cases "tc_category (aw_control x) \<in> tc_category ` aw_control ` set rows")
    case True
    then have "tc_category (aw_control x) \<in> fst ` set (by_category rows)" using m by simp
    then have "map fst (AList.update (tc_category (aw_control x)) t (by_category rows)) = map fst (by_category rows)" for t
      by (simp add: update_keys_in)
    then show ?thesis using True snoc by (simp add: by_category_snoc d image_image)
  next
    case False
    then have "tc_category (aw_control x) \<notin> fst ` set (by_category rows)" using m by simp
    then show ?thesis using False snoc by (simp add: by_category_snoc d image_image update_new)
  qed
qed

lemma score_bounds: "0 \<le> score_of st \<and> score_of st \<le> 1"
  by (cases st) (simp_all add: score_of_def)

lemma readiness_bounds: "0 \<le> readiness_pct rows \<and> readiness_pct rows \<le> 100"
proof -
  have s: "0 \<le> sum_list (map (\<lambda>x. score_of (en_status x)) xs) \<and> sum_list (map (\<lambda>x. score_of (en_status x)) xs) \<le> of_nat (length xs)"
    for xs :: "assessed list"
  proof (induction xs)
    case (Cons x xs)
    then show ?case using score_bounds[of "en_status x"] by (auto intro: add_mono)
  qed simp
  define auto where "auto = filter (\<lambda>x. en_status x \<noteq> Manual) rows"
  have "0 \<le> 100 * sum_list (map (\<lambda>x. score_of (en_status x)) auto) / of_nat (length auto)"
    "auto \<noteq> [] \<Longrightarrow> 100 * sum_list (map (\<lambda>x. score_of (en_status x)) auto) / of_nat (length auto) \<le> 100"
    using s[of auto] by (simp_all add: divide_le_eq)
  then show ?thesis using py_round_mono[of 0 _ 1] py_round_mono[of _ 100 1]
    by (auto simp: readiness_pct_def Let_def auto_def[symmetric])
qed

text \<open>The four status counts of the assessment sum to its total, which is the size of the
  catalogue; every category of the catalogue is listed once, in order, with the counts of its own
  controls; the readiness is between 0 and 100 per cent; and the gaps are the controls whose
  status is a gap.\<close>

theorem assessment_adds_up:
  "let a = run_assessment env e; n = sm_counts a in
     n = tally_of (sm_controls a) \<and> ty_met n + ty_partial n + ty_gap n + ty_manual n = ty_total n
     \<and> ty_total n = length CATALOG
     \<and> map fst (sm_categories a) = dedup_on (\<lambda>k. k) (map tc_category CATALOG)
     \<and> list_all (\<lambda>(k, t). t = tally_of (in_category k (sm_controls a))) (sm_categories a)
     \<and> 0 \<le> sm_readiness a \<and> sm_readiness a \<le> 100
     \<and> sm_gaps a = filter (\<lambda>x. en_status x = Gap) (sm_controls a)"
proof -
  define rows where "rows = assess_controls env e CATALOG []"
  have a: "run_assessment env e = \<lparr>sm_readiness = readiness_pct rows, sm_counts = tally_of rows,
      sm_categories = by_category rows, sm_controls = rows, sm_gaps = with_status Gap rows, sm_partials = with_status Partly rows\<rparr>"
    by (simp add: run_assessment_def Let_def rows_def tally_of_def)
  have rows: "map aw_control rows = CATALOG"
    unfolding rows_def using assess_controls_direct[of env e "[]" CATALOG]
    by (simp add: honest_cache_def comp_def assess_row_def entry.defs)
  then have len: "length rows = length CATALOG" by (metis length_map)
  have cats: "map (\<lambda>x. tc_category (aw_control x)) rows = map tc_category CATALOG"
    unfolding rows[symmetric] by simp
  have "distinct (map fst (by_category rows))" unfolding by_category_keys by simp
  then have each: "list_all (\<lambda>(k, t). t = tally_of (in_category k rows)) (by_category rows)"
    by (auto simp: list_all_iff by_category_lookup dest!: map_of_is_SomeI split: if_splits)
  have "ty_total (tally_of rows) = length rows" by (simp add: tally_of_def)
  then show ?thesis
    unfolding Let_def using tally_total[of rows] each readiness_bounds[of rows]
    by (simp add: a by_category_keys cats len with_status_def)
qed

section \<open>What a met control shows\<close>

lemma count_if_all: "count_if P xs = length xs \<longleftrightarrow> list_all P xs"
  unfolding count_if_def list_all_iff by (metis filter_True length_filter_less filter_id_conv nat_less_le)

lemma count_if_some: "0 < count_if P xs \<longleftrightarrow> list_ex P xs" "count_if P xs = 0 \<longleftrightarrow> \<not> list_ex P xs"
  by (auto simp: count_if_def list_ex_iff filter_empty_conv)

lemma newest_fresh: "(case newest ts of None \<Rightarrow> False | Some t \<Rightarrow> now - t < d) \<longleftrightarrow> list_ex (\<lambda>t. now - t < d) ts"
proof (cases ts)
  case (Cons t us)
  have "\<exists>u \<in> set ts. newest ts = Some u \<and> list_all (\<lambda>v. v \<le> u) ts"
    using foldl_max_in[of t us] foldl_max_ge[of _ us t] foldl_max_ge_acc[of t us]
    by (auto simp: Cons newest_def list_all_iff)
  then obtain u where u: "u \<in> set ts" "newest ts = Some u" "list_all (\<lambda>v. v \<le> u) ts" by blast
  have "now - u < d" if "v \<in> set ts" "now - v < d" for v
    using u(3) that by (force simp: list_all_iff)
  then show ?thesis using u(1,2) by (auto simp: list_ex_iff)
qed (simp add: newest_def)

text \<open>What the status \<open>met\<close> proves. Security monitoring is met exactly when there are raw events,
  one of them from the last 24 hours, and detections; logical access when there are accounts and
  all password hashes are bcrypt; control testing when a validation run passed; risk analysis when
  every incident has a positive score and some a breakdown; incident evaluation when there are
  detections and incidents; recovery when there is evidence and all of it is hashed; storage of
  results when every report has a checksum; accountability when an administrative action is logged.\<close>

theorem met_means_proved:
  "(ce_status (monitoring_pipeline env e) = Met \<longleftrightarrow>
      list_ex (\<lambda>r. ax_now env - rr_timestamp r < hours 24) (et_raw e) \<and> detections (et_soc e) \<noteq> [])
   \<and> (ce_status (logical_access env e) = Met \<longleftrightarrow>
      et_users e \<noteq> [] \<and> list_all (\<lambda>u. starts_with ''$2'' (u_hash u)) (et_users e))
   \<and> (ce_status (control_testing env e) = Met \<longleftrightarrow> list_ex (\<lambda>r. sr_result r = Some PASS) (et_runs e))
   \<and> (ce_status (risk_process env e) = Met \<longleftrightarrow>
      list_all (\<lambda>i. i_risk_score i > 0) (incidents (et_soc e)) \<and> list_ex (\<lambda>i. i_breakdown i \<noteq> None) (incidents (et_soc e)))
   \<and> (ce_status (incident_eval env e) = Met \<longleftrightarrow> detections (et_soc e) \<noteq> [] \<and> incidents (et_soc e) \<noteq> [])
   \<and> (ce_status (recovery env e) = Met \<longleftrightarrow>
      evidence_rows (et_soc e) \<noteq> [] \<and> list_all (\<lambda>v. evd_content_hash v \<noteq> None) (evidence_rows (et_soc e)))
   \<and> (ce_status (output_integrity env e) = Met \<longleftrightarrow> list_all (\<lambda>h. h \<noteq> None) (et_reports e))
   \<and> (ce_status (admin_activity_control env e) = Met \<longleftrightarrow> et_admin e \<noteq> [])"
proof (intro conjI)
  show "ce_status (monitoring_pipeline env e) = Met \<longleftrightarrow>
      list_ex (\<lambda>r. ax_now env - rr_timestamp r < hours 24) (et_raw e) \<and> detections (et_soc e) \<noteq> []"
    using newest_fresh[where ts = "map rr_timestamp (et_raw e)" and now = "ax_now env" and d = "hours 24"]
    by (auto simp: monitoring_pipeline_def result_of_def Let_def list_ex_iff)
  show "ce_status (logical_access env e) = Met \<longleftrightarrow>
      et_users e \<noteq> [] \<and> list_all (\<lambda>u. starts_with ''$2'' (u_hash u)) (et_users e)"
    by (simp add: logical_access_def result_of_def Let_def count_if_all)
  show "ce_status (control_testing env e) = Met \<longleftrightarrow> list_ex (\<lambda>r. sr_result r = Some PASS) (et_runs e)"
    by (auto simp: control_testing_def result_of_def Let_def count_if_some list_ex_iff)
  show "ce_status (risk_process env e) = Met \<longleftrightarrow>
      list_all (\<lambda>i. i_risk_score i > 0) (incidents (et_soc e)) \<and> list_ex (\<lambda>i. i_breakdown i \<noteq> None) (incidents (et_soc e))"
    by (auto simp: risk_process_def result_of_def Let_def count_if_some count_if_all list_ex_iff)
  show "ce_status (incident_eval env e) = Met \<longleftrightarrow> detections (et_soc e) \<noteq> [] \<and> incidents (et_soc e) \<noteq> []"
    by (simp add: incident_eval_def result_of_def Let_def)
  show "ce_status (recovery env e) = Met \<longleftrightarrow>
      evidence_rows (et_soc e) \<noteq> [] \<and> list_all (\<lambda>v. evd_content_hash v \<noteq> None) (evidence_rows (et_soc e))"
    by (simp add: recovery_def result_of_def Let_def count_if_all)
  show "ce_status (output_integrity env e) = Met \<longleftrightarrow> list_all (\<lambda>h. h \<noteq> None) (et_reports e)"
    by (auto simp: output_integrity_def result_of_def Let_def count_if_all)
  show "ce_status (admin_activity_control env e) = Met \<longleftrightarrow> et_admin e \<noteq> []"
    by (simp add: admin_activity_control_def result_of_def Let_def)
qed

text \<open>Some controls are met without any evidence: least privilege when there is no account at all,
  the integrity of outputs when no report was ever generated, and four always.\<close>

lemma met_without_evidence:
  "et_users e = [] \<Longrightarrow> ce_status (rbac env e) = Met"
  "et_reports e = [] \<Longrightarrow> ce_status (output_integrity env e) = Met"
  "ce_status (boundary env e) = Met" "ce_status (availability env e) = Met"
  "ce_status (data_classification env e) = Met" "ce_status (storage_integrity env e) = Met"
  by (simp_all add: rbac_def output_integrity_def boundary_def availability_def data_classification_def
      storage_integrity_def result_of_def Let_def count_if_def)

text \<open>The explanation a collector gives is filed as a metric and never becomes the note of the control.\<close>

lemma collector_notes_are_lost:
  assumes "ax_raises env ''vuln_detection'' = None"
  shows "en_note (run_collector env e ''vuln_detection'' vuln_detection) = None"
    "map fst (en_metrics (run_collector env e ''vuln_detection'' vuln_detection)) = [''note'']"
  using assms by (simp_all add: run_collector_def vuln_detection_def result_of_def Let_def)

end
