(* ===== verification/Risk_Register.thy ===== *)
theory Risk_Register
  imports Compliance
begin

text \<open>
  The automated risk register (\<open>backend/app/services/compliance/risk_register.py\<close>) and the
  compliance API (\<open>backend/app/api/v1/endpoints/compliance.py\<close>): risks derived from open
  incidents, failed control tests, hot attacker sessions and control gaps, ranked, and exported
  as CSV by Python's \<open>csv\<close> module.

  The scenarios are those \<open>load_scenarios\<close> returns. The dash in the category of a control gap is
  printed as \<open>-\<close>. The JSON export is the list itself.
\<close>

record risk =
  rk_id :: string
  rk_title :: string
  rk_source :: string
  rk_category :: string
  rk_likelihood :: int
  rk_impact :: int
  rk_score :: int
  rk_rating :: string
  rk_treatment :: string
  rk_owner :: string
  rk_status :: string

definition SEV_IMPACT :: "(string \<times> int) list" where
  "SEV_IMPACT = [(''CRITICAL'', 5), (''HIGH'', 4), (''MEDIUM'', 3), (''LOW'', 2), (''INFO'', 1)]"

definition impact_of :: "string \<Rightarrow> int" where
  "impact_of sev = (case map_of SEV_IMPACT (upper sev) of None \<Rightarrow> 3 | Some i \<Rightarrow> i)"

definition rating_of :: "int \<Rightarrow> string" where
  "rating_of s = (if s \<ge> 20 then ''Critical'' else if s \<ge> 12 then ''High'' else if s \<ge> 6 then ''Medium'' else ''Low'')"

definition new_risk :: "string \<Rightarrow> string \<Rightarrow> string \<Rightarrow> string \<Rightarrow> int \<Rightarrow> int \<Rightarrow> string \<Rightarrow> string \<Rightarrow> risk" where
  "new_risk rid title source category likelihood imp treatment status =
     (let l = max 1 (min 5 likelihood); i = max 1 (min 5 imp)
      in \<lparr>rk_id = rid, rk_title = title, rk_source = source, rk_category = category, rk_likelihood = l, rk_impact = i,
          rk_score = l * i, rk_rating = rating_of (l * i), rk_treatment = treatment, rk_owner = ''unassigned'',
          rk_status = status\<rparr>)"

section \<open>The four sources\<close>

definition open_incidents :: "estate \<Rightarrow> incident list" where
  "open_incidents e = sort_desc i_risk_score (filter (\<lambda>i. i_status i \<notin> {''RESOLVED'', ''FALSE_POSITIVE''}) (incidents (et_soc e)))"

definition incident_risk_entry :: "time \<Rightarrow> incident \<Rightarrow> risk" where
  "incident_risk_entry now i =
     new_risk (''RISK-INC-'' @ i_key i) (''Unresolved incident: '' @ take 70 (i_title i)) (''incidents / '' @ i_key i)
       ''Security incident''
       (case i_last_seen i of None \<Rightarrow> 3 | Some t \<Rightarrow> if t > now - days 2 then 5 else 3)
       (impact_of (i_severity i))
       ''Complete triage, contain, and close the incident per the response process.'' (i_status i)"

definition needs_test :: "coverage_row \<Rightarrow> bool" where
  "needs_test row \<longleftrightarrow> row_result row \<in> {Some FAIL, Some PARTIAL} \<or> cv_latest row = None"

definition coverage_risk :: "(string \<times> scenario) list \<Rightarrow> coverage_row \<Rightarrow> risk" where
  "coverage_risk scs row =
     (let sid = cv_scenario row; res = row_result row;
          missing = join_str '', '' (case Option.bind (cv_latest row) sr_metrics of None \<Rightarrow> [] | Some m \<Rightarrow> mt_missing_rules m);
          expected = (case Option.bind (map_of scs sid) sc_severity of None \<Rightarrow> ''MEDIUM'' | Some [] \<Rightarrow> ''MEDIUM'' | Some s \<Rightarrow> s)
      in new_risk (''RISK-COV-'' @ sid)
           (''Detection coverage gap: '' @ sid @ (if missing = [] then [] else '' (missing '' @ missing @ '')''))
           ''detection_validation'' ''Detection coverage''
           (if res = Some FAIL then 4 else 3) (impact_of expected)
           ''Tune or add the missing detection rule; re-run the scenario to verify.''
           (if res \<noteq> Some PASS then ''Open'' else ''Monitoring''))"

definition hot_sessions :: "estate \<Rightarrow> geo_session list" where
  "hot_sessions e = take 10 (sort_desc as_last_seen
     (filter (\<lambda>s. as_risk_level s \<in> {Some ''HIGH'', Some ''CRITICAL''}) (et_sessions e)))"

definition session_risk_entry :: "geo_session \<Rightarrow> risk" where
  "session_risk_entry s =
     new_risk (''RISK-SESS-'' @ take 12 (as_session_id s))
       (''High-risk attacker session from '' @ as_ip s @ '' ('' @ py_str (py_or (as_country s) (JStr ''unknown'')) @ '')'')
       ''attacker_sessions'' ''Active threat'' 4 4
       ''Investigate the session, block the source, and confirm no lateral movement.'' ''Open''"

definition control_risk :: "assessed \<Rightarrow> risk" where
  "control_risk g =
     new_risk (''RISK-CTRL-'' @ tc_id (aw_control g))
       (''SOC 2 control gap: '' @ tc_id (aw_control g) @ '' '' @ tc_title (aw_control g))
       ''SOC 2 readiness assessment'' (''Compliance - '' @ tc_category (aw_control g)) 3 3
       (case en_note g of None \<Rightarrow> ''Implement the control and collect operating evidence.''
        | Some [] \<Rightarrow> ''Implement the control and collect operating evidence.'' | Some m \<Rightarrow> m) ''Open''"

definition found_risks :: "assess_env \<Rightarrow> (string \<times> scenario) list \<Rightarrow> estate \<Rightarrow> risk list" where
  "found_risks env scs e =
     map (incident_risk_entry (ax_now env)) (open_incidents e)
     @ map (coverage_risk scs) (filter needs_test (co_rows (coverage_report scs (et_runs e))))
     @ map session_risk_entry (hot_sessions e)
     @ map control_risk (sm_gaps (run_assessment env e))"

definition build_risks :: "assess_env \<Rightarrow> (string \<times> scenario) list \<Rightarrow> estate \<Rightarrow> risk list" where
  "build_risks env scs e = sort_desc rk_score (found_risks env scs e)"

section \<open>The endpoints\<close>

definition RATINGS :: "string list" where
  "RATINGS = [''Critical'', ''High'', ''Medium'', ''Low'']"

definition risk_register :: "assess_env \<Rightarrow> (string \<times> scenario) list \<Rightarrow> estate \<Rightarrow> nat \<times> (string \<times> nat) list \<times> risk list" where
  "risk_register env scs e =
     (let risks = build_risks env scs e
      in (length risks, map (\<lambda>r. (r, count_if (\<lambda>x. rk_rating x = r) risks)) RATINGS, risks))"

text \<open>\<open>csv.DictWriter\<close> with the default dialect: a field is quoted when it holds a comma, a quote
  or a character of the line end, and quotes inside are doubled.\<close>

definition csv_special :: "char \<Rightarrow> bool" where
  "csv_special c \<longleftrightarrow> c \<in> {CHR '','', CHR 0x22, CHR 0x0D, CHR 0x0A}"

definition csv_quoted :: "string \<Rightarrow> string" where
  "csv_quoted s = concat (map (\<lambda>c. if c = CHR 0x22 then [CHR 0x22, CHR 0x22] else [c]) s)"

definition csv_field :: "string \<Rightarrow> string" where
  "csv_field s = (if list_ex csv_special s then [CHR 0x22] @ csv_quoted s @ [CHR 0x22] else s)"

definition csv_row :: "string list \<Rightarrow> string" where
  "csv_row fs = join_str '','' (map csv_field fs) @ [CHR 0x0D, CHR 0x0A]"

definition RISK_FIELDS :: "string list" where
  "RISK_FIELDS = [''id'', ''title'', ''source'', ''category'', ''likelihood'', ''impact'', ''score'', ''rating'',
     ''treatment'', ''owner'', ''status'']"

definition risk_fields :: "risk \<Rightarrow> string list" where
  "risk_fields r = [rk_id r, rk_title r, rk_source r, rk_category r, str_of_int (rk_likelihood r),
     str_of_int (rk_impact r), str_of_int (rk_score r), rk_rating r, rk_treatment r, rk_owner r, rk_status r]"

datatype export = Export_json "risk list" | Export_csv string

definition risk_export :: "string \<Rightarrow> assess_env \<Rightarrow> (string \<times> scenario) list \<Rightarrow> estate \<Rightarrow> export" where
  "risk_export fmt env scs e =
     (let risks = build_risks env scs e
      in if fmt = ''json'' then Export_json risks
         else Export_csv (csv_row RISK_FIELDS @ concat (map (\<lambda>r. csv_row (risk_fields r)) risks)))"

section \<open>The ranking\<close>

definition risk_ok :: "risk \<Rightarrow> bool" where
  "risk_ok r \<longleftrightarrow> 1 \<le> rk_likelihood r \<and> rk_likelihood r \<le> 5 \<and> 1 \<le> rk_impact r \<and> rk_impact r \<le> 5
     \<and> rk_score r = rk_likelihood r * rk_impact r \<and> rk_rating r = rating_of (rk_score r)"

lemma new_risk_ok: "risk_ok (new_risk i t s c l m tr st)"
  by (simp add: risk_ok_def new_risk_def Let_def)

lemma entry_ok [simp]:
  "risk_ok (incident_risk_entry now i)" "risk_ok (coverage_risk scs row)" "risk_ok (session_risk_entry s)" "risk_ok (control_risk g)"
  unfolding incident_risk_entry_def coverage_risk_def session_risk_entry_def control_risk_def Let_def by (rule new_risk_ok)+

lemma new_risk_id: "rk_id (new_risk i t s c l m tr st) = i"
  by (simp add: new_risk_def Let_def)

lemma entry_id [simp]:
  "rk_id (incident_risk_entry now i) = ''RISK-INC-'' @ i_key i" "rk_id (coverage_risk scs row) = ''RISK-COV-'' @ cv_scenario row"
  "rk_id (session_risk_entry s) = ''RISK-SESS-'' @ take 12 (as_session_id s)"
  "rk_id (control_risk g) = ''RISK-CTRL-'' @ tc_id (aw_control g)"
  unfolding incident_risk_entry_def coverage_risk_def session_risk_entry_def control_risk_def Let_def by (rule new_risk_id)+

lemma found_risks_ok: "list_all risk_ok (found_risks env scs e)"
  by (auto simp: found_risks_def list_all_iff)

lemma ratings_partition:
  "sum_list (map snd (map (\<lambda>r. (r, count_if (\<lambda>x. rk_rating x = r) risks)) RATINGS)) = length risks"
  if "list_all risk_ok risks"
  using that
proof (induction risks)
  case (Cons x risks)
  have "rk_rating x \<in> set RATINGS" using Cons.prems by (simp add: risk_ok_def rating_of_def RATINGS_def)
  then show ?case using Cons by (auto simp: RATINGS_def count_if_def)
qed (simp add: RATINGS_def count_if_def)

text \<open>The register is ranked by descending score; every risk has a likelihood and an impact of 1 to
  5, their product as its score and the rating of that score; the counts per rating add up to the
  number of risks.\<close>

theorem risk_register_ranked:
  "case risk_register env scs e of (n, ratings, risks) \<Rightarrow>
     sorted_wrt (\<lambda>a b. rk_score b \<le> rk_score a) risks \<and> list_all risk_ok risks
     \<and> n = length risks \<and> sum_list (map snd ratings) = n"
proof -
  have ok: "list_all risk_ok (build_risks env scs e)"
    using found_risks_ok[of env scs e] by (simp add: build_risks_def list_all_iff)
  show ?thesis using ratings_partition[OF ok] ok sorted_sort_desc[of rk_score "found_risks env scs e"]
    by (simp add: risk_register_def Let_def build_risks_def)
qed

text \<open>Nothing open is forgotten and nothing else is registered: the risk identifiers are those of
  the unresolved incidents, of the scenarios that failed or never ran, of the ten latest high-risk
  sessions and of the control gaps.\<close>

theorem risk_register_complete:
  "rk_id ` set (build_risks env scs e) =
     (\<lambda>i. ''RISK-INC-'' @ i_key i) ` {i \<in> set (incidents (et_soc e)). i_status i \<noteq> ''RESOLVED'' \<and> i_status i \<noteq> ''FALSE_POSITIVE''}
     \<union> (\<lambda>(sid, _). ''RISK-COV-'' @ sid) ` {(sid, sc) \<in> set scs. latest_run (et_runs e) sid = None
          \<or> Option.bind (latest_run (et_runs e) sid) sr_result \<in> {Some FAIL, Some PARTIAL}}
     \<union> (\<lambda>s. ''RISK-SESS-'' @ take 12 (as_session_id s)) ` set (hot_sessions e)
     \<union> (\<lambda>c. ''RISK-CTRL-'' @ tc_id c) ` {c \<in> set CATALOG. en_status (direct_entry env e c) = Gap}"
proof -
  have inc: "rk_id ` incident_risk_entry (ax_now env) ` set (open_incidents e) =
      (\<lambda>i. ''RISK-INC-'' @ i_key i) ` {i \<in> set (incidents (et_soc e)). i_status i \<noteq> ''RESOLVED'' \<and> i_status i \<noteq> ''FALSE_POSITIVE''}"
    by (simp add: image_image open_incidents_def)
  have cov: "rk_id ` coverage_risk scs ` set (filter needs_test (co_rows (coverage_report scs (et_runs e)))) =
      (\<lambda>(sid, _). ''RISK-COV-'' @ sid) ` {(sid, sc) \<in> set scs. latest_run (et_runs e) sid = None
          \<or> Option.bind (latest_run (et_runs e) sid) sr_result \<in> {Some FAIL, Some PARTIAL}}"
    by (force simp: image_image coverage_report_def Let_def needs_test_def row_result_def)
  have ses: "rk_id ` session_risk_entry ` set (hot_sessions e) =
      (\<lambda>s. ''RISK-SESS-'' @ take 12 (as_session_id s)) ` set (hot_sessions e)"
    by (simp add: image_image)
  have rows: "aw_control (assess_row c en) = c" "en_status (assess_row c en) = en_status en" for c en
    by (simp_all add: assess_row_def entry.defs)
  have "sm_gaps (run_assessment env e) = filter (\<lambda>x. en_status x = Gap) (sm_controls (run_assessment env e))"
    by (simp add: run_assessment_def Let_def with_status_def)
  then have ctl: "rk_id ` control_risk ` set (sm_gaps (run_assessment env e)) =
      (\<lambda>c. ''RISK-CTRL-'' @ tc_id c) ` {c \<in> set CATALOG. en_status (direct_entry env e c) = Gap}"
    unfolding controls_direct
    by (force simp: image_image rows)
  show ?thesis
    unfolding build_risks_def found_risks_def set_sort_desc set_append set_map image_Un inc cov ses ctl
    by (simp only: Un_assoc)
qed

section \<open>The export\<close>

text \<open>Reading CSV: the state within a record, the characters of the current field, the fields of the
  current record and the records read so far.\<close>

datatype csv_mode = Field_start | Plain | Quoted | Quote_in_quoted

fun csv_read :: "csv_mode \<Rightarrow> string \<Rightarrow> string list \<Rightarrow> string list list \<Rightarrow> string \<Rightarrow> string list list" where
  "csv_read m cur fs rows [] = rows"
| "csv_read Quoted cur fs rows (c # cs) =
     (if c = CHR 0x22 then csv_read Quote_in_quoted cur fs rows cs else csv_read Quoted (cur @ [c]) fs rows cs)"
| "csv_read m cur fs rows (c # cs) =
     (if c = CHR 0x22 \<and> m = Field_start then csv_read Quoted [] fs rows cs
      else if c = CHR 0x22 \<and> m = Quote_in_quoted then csv_read Quoted (cur @ [c]) fs rows cs
      else if c = CHR '','' then csv_read Field_start [] (fs @ [cur]) rows cs
      else if c = CHR 0x0D then csv_read Plain cur fs rows cs
      else if c = CHR 0x0A then csv_read Field_start [] [] (rows @ [fs @ [cur]]) cs
      else csv_read Plain (cur @ [c]) fs rows cs)"

lemma read_plain:
  "\<not> list_ex csv_special s \<Longrightarrow> m = Plain \<or> m = Field_start \<Longrightarrow>
     \<exists>m'. (m' = Plain \<or> m' = Field_start) \<and> csv_read m cur fs rows (s @ rest) = csv_read m' (cur @ s) fs rows rest"
proof (induction s arbitrary: cur m)
  case (Cons c s)
  then have "csv_read m cur fs rows ((c # s) @ rest) = csv_read Plain (cur @ [c]) fs rows (s @ rest)"
    by (auto simp: csv_special_def)
  then show ?case using Cons.IH[of Plain "cur @ [c]"] Cons.prems(1) by auto
qed auto

lemma read_quoted:
  "csv_read Quoted cur fs rows (csv_quoted s @ CHR 0x22 # rest) = csv_read Quote_in_quoted (cur @ s) fs rows rest"
  by (induction s arbitrary: cur) (simp_all add: csv_quoted_def)

lemma read_field:
  "\<exists>m. m \<noteq> Quoted \<and> csv_read Field_start [] fs rows (csv_field s @ rest) = csv_read m s fs rows rest"
proof (cases "list_ex csv_special s")
  case True
  then show ?thesis using read_quoted[of "[]" fs rows s rest] by (auto simp: csv_field_def)
next
  case False
  then obtain m where "m = Plain \<or> m = Field_start" "csv_read Field_start [] fs rows (s @ rest) = csv_read m ([] @ s) fs rows rest"
    using read_plain[of s Field_start "[]" fs rows rest] by blast
  then show ?thesis using False by (auto simp: csv_field_def)
qed

lemma read_comma: "m \<noteq> Quoted \<Longrightarrow> csv_read m s fs rows (CHR '','' # rest) = csv_read Field_start [] (fs @ [s]) rows rest"
  by (cases m) simp_all

lemma read_line_end:
  "m \<noteq> Quoted \<Longrightarrow> csv_read m s fs rows (CHR 0x0D # CHR 0x0A # rest) = csv_read Field_start [] [] (rows @ [fs @ [s]]) rest"
  by (cases m) simp_all

lemma read_row:
  assumes "xs \<noteq> []"
  shows "csv_read Field_start [] fs rows (csv_row xs @ rest) = csv_read Field_start [] [] (rows @ [fs @ xs]) rest"
  using assms
proof (induction xs arbitrary: fs rule: induct_list012)
  case (2 x)
  then show ?case
    using read_field[of fs rows x "CHR 0x0D # CHR 0x0A # rest"] read_line_end by (auto simp: csv_row_def)
next
  case (3 x y zs)
  obtain m where m: "m \<noteq> Quoted" "csv_read Field_start [] fs rows (csv_field x @ CHR '','' # csv_row (y # zs) @ rest)
      = csv_read m x fs rows (CHR '','' # csv_row (y # zs) @ rest)"
    using read_field by blast
  then show ?case using 3(2)[of "fs @ [x]"] read_comma[OF m(1)] by (simp add: csv_row_def)
qed simp

lemma read_rows:
  "list_all (\<lambda>xs. xs \<noteq> []) rs \<Longrightarrow> csv_read Field_start [] [] rows (concat (map csv_row rs)) = rows @ rs"
proof (induction rs arbitrary: rows)
  case (Cons r rs)
  then show ?case using read_row[of r "[]" rows "concat (map csv_row rs)"] by simp
qed simp


text \<open>A high-risk session is registered whether or not its address already has an incident.\<close>

lemma linked_session_is_registered:
  assumes "et_sessions e = [s]" "as_risk_level s = Some ''HIGH''"
  shows "session_risk_entry s \<in> set (build_risks env scs e)"
  using assms by (simp add: build_risks_def found_risks_def hot_sessions_def sort_desc_def)

text \<open>A run that never finished counts as no gap although the coverage report lists its scenario as untested.\<close>

lemma unfinished_run_is_no_gap:
  assumes "cv_latest row = Some r" "sr_result r = None" shows "\<not> needs_test row"
  using assms by (simp add: needs_test_def row_result_def)

end
