(* ===== verification/Scanners.thy ===== *)
theory Scanners
  imports Collector
begin

text \<open>
  The engines of the malware laboratory: YARA (\<open>backend/app/services/yara_scanner.py\<close>), ClamAV and
  VirusTotal (\<open>av_scanner.py\<close>), the sandbox cache (\<open>sandbox_engine.py\<close>) and the secret detector
  (\<open>secret_detector.py\<close>).

  Bytes are characters. Arguments stand for what the engines call: the compiled YARA rules, the
  reply of \<open>clamd\<close>, the HTTP reply of VirusTotal, the detonation in CAPE and the matches of a
  regular expression. The name of an engine that VirusTotal lists is a text.
\<close>

section \<open>YARA\<close>

record yara_match =
  ym_rule :: string
  ym_namespace :: string
  ym_tags :: "string list"
  ym_meta :: jdict

text \<open>Compiled rules: the matches of a file, or the text of the exception.\<close>

type_synonym yara_rules = "string \<Rightarrow> string + yara_match list"

record yara_cache =
  yc_mtime :: "rat option"
  yc_rules :: "yara_rules option"
  yc_error :: "string option"

record yara_env =
  ye_files :: "(string \<times> rat) list option" \<comment> \<open>the directory: names with times; \<open>None\<close> when it is missing\<close>
  ye_import :: "string option" \<comment> \<open>why the \<open>yara\<close> module cannot be imported\<close>
  ye_compile :: "string list \<Rightarrow> string + yara_rules"
  ye_dir :: string

definition is_yara_file :: "string \<Rightarrow> bool" where
  "is_yara_file f \<longleftrightarrow> ends_with ''.yar'' f \<or> ends_with ''.yara'' f"

definition dir_mtime :: "yara_env \<Rightarrow> rat" where
  "dir_mtime env = (case ye_files env of None \<Rightarrow> -1
     | Some fs \<Rightarrow> max_or 0 (map snd (filter (\<lambda>(f, _). is_yara_file f) fs)))"

definition compile_yara :: "yara_env \<Rightarrow> yara_rules option \<times> string option" where
  "compile_yara env =
     (case ye_import env of
        Some e \<Rightarrow> (None, Some (''yara-python unavailable: '' @ e))
      | None \<Rightarrow> (case ye_files env of
          None \<Rightarrow> (None, Some (''rules directory not found: '' @ ye_dir env))
        | Some fs \<Rightarrow> (let names = filter is_yara_file (sort (map fst fs)) in
            if names = [] then (None, Some ''no .yar rule files present'')
            else (case ye_compile env names of
                    Inl e \<Rightarrow> (None, Some (''rule compile error: '' @ e)) | Inr rs \<Rightarrow> (Some rs, None)))))"

definition get_rules :: "yara_env \<Rightarrow> yara_cache \<Rightarrow> yara_cache" where
  "get_rules env c =
     (if yc_mtime c \<noteq> Some (dir_mtime env)
      then (case compile_yara env of (rs, e) \<Rightarrow> \<lparr>yc_mtime = Some (dir_mtime env), yc_rules = rs, yc_error = e\<rparr>)
      else c)"

record yara_report =
  yr_available :: bool
  yr_matches :: "yara_match list"
  yr_count :: nat
  yr_error :: "string option"

definition yara_scan :: "yara_env \<Rightarrow> string \<Rightarrow> yara_cache \<Rightarrow> yara_report \<times> yara_cache" where
  "yara_scan env data c =
     (let c = get_rules env c in
      (case yc_rules c of
         None \<Rightarrow> \<lparr>yr_available = False, yr_matches = [], yr_count = 0, yr_error = yc_error c\<rparr>
       | Some rs \<Rightarrow> (case rs data of
            Inl e \<Rightarrow> \<lparr>yr_available = True, yr_matches = [], yr_count = 0, yr_error = Some (''scan error: '' @ e)\<rparr>
          | Inr ms \<Rightarrow> \<lparr>yr_available = True, yr_matches = ms, yr_count = length ms, yr_error = None\<rparr>), c))"

text \<open>\<open>worst_severity\<close>\<close>

definition yara_rank :: "yara_match \<Rightarrow> nat" where
  "yara_rank m = (let sev = lower (py_str (case map_of (ym_meta m) ''severity'' of None \<Rightarrow> JStr [] | Some v \<Rightarrow> v)) in
     case map_of [(''low'', 1), (''medium'', 2), (''high'', 3), (''critical'', 4)] sev of None \<Rightarrow> 0 | Some n \<Rightarrow> n)"

definition worst_severity :: "yara_match list \<Rightarrow> string" where
  "worst_severity ms = [[], ''LOW'', ''MEDIUM'', ''HIGH'', ''CRITICAL''] ! foldl max 0 (map yara_rank ms)"

section \<open>ClamAV\<close>

definition CLAM_CHUNK :: nat where
  "CLAM_CHUNK = 64 * 1024"

definition MAX_STREAM :: nat where
  "MAX_STREAM = 64 * 1024 * 1024"

text \<open>\<open>struct.pack("!L", n)\<close>: four bytes, the most significant first.\<close>

definition pack_length :: "nat \<Rightarrow> string" where
  "pack_length n = [char_of (n div 2 ^ 24 mod 256), char_of (n div 2 ^ 16 mod 256), char_of (n div 2 ^ 8 mod 256), char_of (n mod 256)]"

text \<open>The frames sent while the limit is not exceeded; true when the loop broke off at the limit.\<close>

fun send_chunks :: "nat \<Rightarrow> string list \<Rightarrow> string \<times> bool" where
  "send_chunks sent [] = ([], False)"
| "send_chunks sent (c # cs) =
     (if sent + length c > MAX_STREAM then ([], True)
      else (case send_chunks (sent + length c) cs of (out, over) \<Rightarrow> (pack_length (length c) @ c @ out, over)))"

definition clam_request :: "string \<Rightarrow> string \<times> bool" where
  "clam_request data = (case send_chunks 0 (chunks CLAM_CHUNK data) of (out, over) \<Rightarrow>
     (''zINSTREAM'' @ [CHR 0x00] @ out @ pack_length 0, over))"

record clam_result =
  av_available :: bool
  av_infected :: "bool option"
  av_signature :: "string option"
  av_error :: "string option"

definition strip_nul :: "string \<Rightarrow> string" where
  "strip_nul s = rev (dropWhile (\<lambda>c. c = CHR 0x00) (rev (dropWhile (\<lambda>c. c = CHR 0x00) s)))"

text \<open>\<open>rsplit(" ", 1)[0]\<close>\<close>

definition before_last_space :: "string \<Rightarrow> string" where
  "before_last_space s = (if CHR '' '' \<in> set s then rev (tl (dropWhile (\<lambda>c. c \<noteq> CHR '' '') (rev s))) else s)"

definition signature_of :: "string \<Rightarrow> string" where
  "signature_of t = (case partition_on (CHR '':'') t of
       (_, None) \<Rightarrow> t | (_, Some rest) \<Rightarrow> strip (before_last_space (strip rest)))"

definition clam_verdict :: "bool \<Rightarrow> string \<Rightarrow> clam_result" where
  "clam_verdict over reply =
     (let t = strip_nul (strip reply); err = (if over then Some ''file larger than clamd StreamMaxLength'' else None)
      in if ends_with ''OK'' t then \<lparr>av_available = True, av_infected = Some False, av_signature = None, av_error = err\<rparr>
         else if contains_str ''FOUND'' t
           then \<lparr>av_available = True, av_infected = Some True, av_signature = Some (signature_of t), av_error = err\<rparr>
         else \<lparr>av_available = \<not> starts_with ''error'' (lower t), av_infected = None, av_signature = None,
               av_error = Some (if t = [] then ''empty clamd response'' else t)\<rparr>)"

text \<open>\<open>clamd\<close> answers the request, or the connection fails with the name of the exception.\<close>

definition clamav_scan :: "(string \<Rightarrow> string + string) \<Rightarrow> string \<Rightarrow> clam_result" where
  "clamav_scan clamd data =
     (case clam_request data of (request, over) \<Rightarrow>
      (case clamd request of
         Inl e \<Rightarrow> \<lparr>av_available = False, av_infected = None, av_signature = None, av_error = Some (''clamd unreachable: '' @ e)\<rparr>
       | Inr reply \<Rightarrow> clam_verdict over reply))"

section \<open>VirusTotal\<close>

record vt_result =
  vt_available :: bool
  vt_known :: bool
  vt_malicious :: int
  vt_suspicious :: int
  vt_total :: int
  vt_names :: "string list"
  vt_permalink :: "string option"
  vt_error :: "string option"

definition vt_unknown :: "bool \<Rightarrow> string option \<Rightarrow> string \<Rightarrow> vt_result" where
  "vt_unknown key link err = \<lparr>vt_available = key, vt_known = False, vt_malicious = 0, vt_suspicious = 0, vt_total = 0,
     vt_names = [], vt_permalink = link, vt_error = Some err\<rparr>"

text \<open>The reply: an exception, or a status and the body, when it is JSON.\<close>

datatype vt_reply = Vt_raises string | Vt_reply int "json option"

definition dict_of :: "json option \<Rightarrow> jdict option" where
  "dict_of v = (case v of Some (JObj d) \<Rightarrow> Some d | _ \<Rightarrow> None)"

definition get_or_value :: "string \<Rightarrow> json \<Rightarrow> jdict \<Rightarrow> json" where
  "get_or_value k v d = (case map_of d k of None \<Rightarrow> v | Some w \<Rightarrow> w)"

definition is_number :: "json \<Rightarrow> bool" where
  "is_number v = (case v of JInt _ \<Rightarrow> True | JFloat _ _ \<Rightarrow> True | JBool _ \<Rightarrow> True | _ \<Rightarrow> False)"

fun all_some :: "'a option list \<Rightarrow> 'a list option" where
  "all_some [] = Some []"
| "all_some (None # xs) = None"
| "all_some (Some x # xs) = map_option ((#) x) (all_some xs)"

text \<open>The engine verdicts that flag the file; an entry that is no object raises.\<close>

definition flag_name :: "json \<Rightarrow> string list option" where
  "flag_name v = (case v of
       JObj d \<Rightarrow> (if dict_get ''category'' d \<in> {JStr ''malicious'', JStr ''suspicious''} \<and> truthy (dict_get ''result'' d)
                  then (case dict_get ''result'' d of JStr s \<Rightarrow> Some [s] | _ \<Rightarrow> None) else Some [])
     | _ \<Rightarrow> None)"

definition flag_names :: "jdict \<Rightarrow> string list option" where
  "flag_names rs = map_option (\<lambda>ns. take 10 (sorted_set (concat ns))) (all_some (map (flag_name \<circ> snd) rs))"

text \<open>The counts are set together or not at all; the names may fail after them. The text of the exception
  is left out of the error.\<close>

definition parse_attributes :: "vt_result \<Rightarrow> json option \<Rightarrow> vt_result" where
  "parse_attributes r body =
     (case Option.bind (dict_of body) (\<lambda>b. Option.bind (dict_of (map_of b ''data'')) (\<lambda>d. dict_of (map_of d ''attributes''))) of
        None \<Rightarrow> r\<lparr>vt_error := Some ''parse''\<rparr>
      | Some attr \<Rightarrow>
         (case get_or_value ''last_analysis_stats'' (JObj []) attr of
            JObj stats \<Rightarrow>
              (case all_some (map (\<lambda>k. py_int (get_or_value k (JInt 0) stats)) [''malicious'', ''suspicious'', ''harmless'', ''undetected'']
                              @ map (\<lambda>(_, v). py_int v) (filter (\<lambda>(_, v). is_number v) stats)) of
                 Some (mal # sus # har # und # ns) \<Rightarrow>
                   (let r = r\<lparr>vt_known := True, vt_malicious := mal, vt_suspicious := sus, vt_total := sum_list ns\<rparr> in
                    case get_or_value ''last_analysis_results'' (JObj []) attr of
                      JObj rs \<Rightarrow> (case flag_names rs of None \<Rightarrow> r\<lparr>vt_error := Some ''parse''\<rparr> | Some ns \<Rightarrow> r\<lparr>vt_names := ns\<rparr>)
                    | _ \<Rightarrow> r\<lparr>vt_error := Some ''parse''\<rparr>)
               | _ \<Rightarrow> r\<lparr>vt_error := Some ''parse''\<rparr>)
          | _ \<Rightarrow> r\<lparr>vt_error := Some ''parse''\<rparr>))"

definition virustotal_query :: "bool \<Rightarrow> (string \<Rightarrow> vt_reply) \<Rightarrow> string \<Rightarrow> vt_result" where
  "virustotal_query key ask sha =
     (if \<not> key then vt_unknown False None ''no VIRUSTOTAL_API_KEY set''
      else (let link = Some (''https://www.virustotal.com/gui/file/'' @ sha) in
        case ask sha of
          Vt_raises e \<Rightarrow> vt_unknown True None e
        | Vt_reply st body \<Rightarrow>
            (if st = 404 then vt_unknown True link ''not seen by VirusTotal''
             else if st = 429 then vt_unknown True link ''VirusTotal rate limit''
             else if st \<noteq> 200 then vt_unknown True link (''VirusTotal HTTP '' @ str_of_int st)
             else parse_attributes ((vt_unknown True link [])\<lparr>vt_error := None\<rparr>) body)))"

text \<open>The status endpoint reads the error of the last look-up.\<close>

definition virustotal_lookup :: "bool \<Rightarrow> (string \<Rightarrow> vt_reply) \<Rightarrow> string \<Rightarrow> vt_result \<times> string option" where
  "virustotal_lookup key ask sha = (let r = virustotal_query key ask sha in (r, vt_error r))"

definition virustotal_status :: "bool \<Rightarrow> string option \<Rightarrow> bool \<times> string" where
  "virustotal_status key err =
     (let e = (case err of None \<Rightarrow> [] | Some e \<Rightarrow> e) in
      if \<not> key then (False, ''no API key configured'')
      else if starts_with ''VirusTotal HTTP 401'' e \<or> starts_with ''VirusTotal HTTP 403'' e
      then (False, ''API key rejected by VirusTotal'')
      else (True, ''hash lookup on every new sample''))"

section \<open>The sandbox cache\<close>

definition is_live_cape :: "jdict \<Rightarrow> bool" where
  "is_live_cape d \<longleftrightarrow> dict_get ''source'' d = JStr ''CAPE_LIVE''"

definition get_cached_result :: "string \<Rightarrow> (string \<times> jdict) list \<Rightarrow> jdict option" where
  "get_cached_result sha cache = (case map_of cache sha of
       Some r \<Rightarrow> if is_live_cape r then Some r else None | None \<Rightarrow> None)"

definition cache_result :: "string \<Rightarrow> jdict \<Rightarrow> (string \<times> jdict) list \<Rightarrow> (string \<times> jdict) list" where
  "cache_result sha r cache =
     (if \<not> is_live_cape r then cache
      else (let cache = AList.update sha r cache in if length cache > 500 then tl cache else cache))"

definition UNAVAILABLE_RESULT :: jdict where
  "UNAVAILABLE_RESULT = [(''source'', JStr ''UNAVAILABLE''), (''available'', JBool False),
     (''reason'', JStr (''Dynamic sandbox detonation is not configured. Set CAPE_URL to a ''
        @ ''reachable CAPE Sandbox instance to enable behavioural analysis.'')),
     (''threat_family'', JNull), (''score'', JNull), (''risk_level'', JNull), (''mitre_techniques'', JObj []),
     (''signatures'', JList []), (''network_intel'', JObj []), (''behavior_profile'', JObj [])]"

text \<open>\<open>analyze\<close>; \<open>cape\<close> is the detonation, when a sandbox is configured and it succeeds.\<close>

definition sandbox_analyze :: "string \<Rightarrow> jdict option \<Rightarrow> string \<Rightarrow> string \<Rightarrow> (string \<times> jdict) list
    \<Rightarrow> jdict \<times> (string \<times> jdict) list" where
  "sandbox_analyze stamp cape sha filename cache =
     (case get_cached_result sha cache of
        Some r \<Rightarrow> (AList.update ''from_cache'' (JBool True) r, cache)
      | None \<Rightarrow>
         (let r = (case cape of None \<Rightarrow> UNAVAILABLE_RESULT | Some r \<Rightarrow> r);
              r = AList.update ''sha256'' (JStr sha) r; r = AList.update ''filename'' (JStr filename) r;
              r = AList.update ''analyzed_at'' (JStr stamp) r; r = AList.update ''from_cache'' (JBool False) r
          in (r, cache_result sha r cache)))"

section \<open>Secrets\<close>

text \<open>The kinds of secrets with their severities, in the order of the patterns.\<close>

definition SECRET_KINDS :: "(string \<times> string) list" where
  "SECRET_KINDS = [(''Google API Key'', ''CRITICAL''), (''Firebase FCM Key'', ''CRITICAL''), (''AWS Access Key ID'', ''CRITICAL''),
     (''AWS Secret Access Key'', ''CRITICAL''), (''Mailchimp API Key'', ''HIGH''), (''SendGrid API Key'', ''HIGH''),
     (''Mailgun API Key'', ''HIGH''), (''Stripe Live Key'', ''CRITICAL''), (''Stripe Test Key'', ''HIGH''),
     (''Stripe Restricted Key'', ''HIGH''), (''Twilio Account SID'', ''HIGH''), (''Twilio API Key'', ''HIGH''),
     (''GitHub Token'', ''CRITICAL''), (''Slack Bot Token'', ''HIGH''), (''Slack API Token'', ''HIGH''),
     (''RSA Private Key'', ''CRITICAL''), (''EC Private Key'', ''CRITICAL''), (''OpenSSH Private Key'', ''CRITICAL''),
     (''PGP Private Key'', ''CRITICAL''), (''DSA Private Key'', ''CRITICAL''), (''JWT Token'', ''HIGH''),
     (''Bearer Auth Token'', ''HIGH''), (''Basic Auth Header'', ''HIGH''), (''MongoDB URI'', ''CRITICAL''),
     (''PostgreSQL URI'', ''CRITICAL''), (''MySQL URI'', ''CRITICAL''), (''Redis URI'', ''HIGH''),
     (''JDBC Connection String'', ''CRITICAL''), (''Hardcoded Password'', ''CRITICAL''), (''Hardcoded Username'', ''MEDIUM''),
     (''Hardcoded API Key'', ''HIGH''), (''Hardcoded Secret'', ''HIGH''), (''Hardcoded Token'', ''HIGH''),
     (''Hardcoded Private Key'', ''CRITICAL''), (''IP-Based URL'', ''HIGH''), (''Dark Web URL'', ''CRITICAL''),
     (''Suspicious TLD URL'', ''HIGH''), (''IP:Port Endpoint'', ''HIGH''), (''Certificate'', ''LOW''),
     (''GCP Credential'', ''CRITICAL''), (''Private Key ID'', ''HIGH''), (''App Secret'', ''HIGH''),
     (''OAuth Client Secret'', ''HIGH''), (''OAuth Consumer Secret'', ''HIGH''), (''Encryption Key'', ''CRITICAL''),
     (''AES Key'', ''CRITICAL''), (''HMAC Secret'', ''CRITICAL'')]"

definition SECRET_ORDER :: "(string \<times> nat) list" where
  "SECRET_ORDER = [(''CRITICAL'', 0), (''HIGH'', 1), (''MEDIUM'', 2), (''LOW'', 3)]"

definition secret_rank :: "string \<Rightarrow> nat" where
  "secret_rank s = (case map_of SECRET_ORDER s of None \<Rightarrow> 9 | Some n \<Rightarrow> n)"

text \<open>The black circle of the mask is printed as a star.\<close>

definition mask_value :: "string \<Rightarrow> string" where
  "mask_value v =
     (if length v \<le> 6 + 4 + 4 then take 6 v @ ''****''
      else take 6 v @ replicate (min 12 (length v - 6 - 4)) (CHR ''*'') @ take_last 4 v)"

definition extract_context :: "string \<Rightarrow> nat \<Rightarrow> nat \<Rightarrow> string" where
  "extract_context t a b =
     (let start = a - 60; finish = min (length t) (b + 60);
          raw = concat (map (\<lambda>c. if c = CHR 0x0A then '' '' else if c = CHR 0x0D then [] else [c]) (take (finish - start) (drop start t)))
      in take 160 raw)"

record secret =
  se_type :: string
  se_severity :: string
  se_masked :: string
  se_prefix :: string
  se_context :: string
  se_position :: nat
  se_source :: string

text \<open>The matches of one pattern, skipping those whose kind and first twelve characters were seen.\<close>

fun take_matches :: "string \<Rightarrow> string \<Rightarrow> string \<Rightarrow> string \<Rightarrow> (nat \<times> nat) list \<Rightarrow> (string \<times> string) list
    \<Rightarrow> secret list \<times> (string \<times> string) list" where
  "take_matches src t kind sev [] seen = ([], seen)"
| "take_matches src t kind sev ((a, b) # ms) seen =
     (let raw = take (b - a) (drop a t); key = (kind, take 12 raw) in
      if key \<in> set seen then take_matches src t kind sev ms seen
      else (case take_matches src t kind sev ms (key # seen) of (found, seen) \<Rightarrow>
        (\<lparr>se_type = kind, se_severity = sev, se_masked = mask_value raw, se_prefix = take 20 raw,
          se_context = extract_context t a b, se_position = a, se_source = src\<rparr> # found, seen)))"

fun scan_patterns :: "(string \<Rightarrow> string \<Rightarrow> (nat \<times> nat) list) \<Rightarrow> string \<Rightarrow> string \<Rightarrow> (string \<times> string) list
    \<Rightarrow> (string \<times> string) list \<Rightarrow> secret list" where
  "scan_patterns finditer src t [] seen = []"
| "scan_patterns finditer src t ((kind, sev) # ks) seen =
     (case take_matches src t kind sev (finditer kind t) seen of (found, seen) \<Rightarrow>
        found @ scan_patterns finditer src t ks seen)"

definition secret_scan :: "(string \<Rightarrow> string \<Rightarrow> (nat \<times> nat) list) \<Rightarrow> string \<Rightarrow> string \<Rightarrow> secret list" where
  "secret_scan finditer src t = take 50 (sort_key (\<lambda>f. secret_rank (se_severity f)) (scan_patterns finditer src t SECRET_KINDS []))"

record secret_summary =
  su_findings :: "secret list"
  su_counts :: "(string \<times> nat) list"
  su_total :: nat
  su_critical :: bool

definition secret_summary_of :: "secret list \<Rightarrow> secret_summary" where
  "secret_summary_of fs =
     (let counts = foldl (\<lambda>cs f. AList.update (se_severity f) (case map_of cs (se_severity f) of None \<Rightarrow> 1 | Some n \<Rightarrow> n + 1) cs)
            [(''CRITICAL'', 0), (''HIGH'', 0), (''MEDIUM'', 0), (''LOW'', 0)] fs
      in \<lparr>su_findings = fs, su_counts = counts, su_total = length fs,
          su_critical = (case map_of counts ''CRITICAL'' of None \<Rightarrow> False | Some n \<Rightarrow> n > 0)\<rparr>)"

section \<open>What clamd receives\<close>

definition unpack_length :: "string \<Rightarrow> nat" where
  "unpack_length s = foldl (\<lambda>n c. 256 * n + of_char c) 0 s"

text \<open>The reader of the stream: frames until one of length zero.\<close>

function read_frames :: "string \<Rightarrow> string" where
  "read_frames s = (let n = unpack_length (take 4 s) in
     if length s < 4 \<or> n = 0 then [] else take n (drop 4 s) @ read_frames (drop n (drop 4 s)))"
  by pat_completeness auto
termination by (relation "measure length") auto

declare read_frames.simps [simp del]

definition clamd_reads :: "string \<Rightarrow> string" where
  "clamd_reads request = read_frames (drop 10 request)"

lemma length_pack [simp]: "length (pack_length n) = 4"
  by (simp add: pack_length_def)

lemma unpack_pack: "n < 2 ^ 32 \<Longrightarrow> unpack_length (pack_length n) = n"
proof -
  assume n: "n < 2 ^ 32"
  define a b c where "a = n div 256" and "b = a div 256" and "c = b div 256"
  have d: "n div 2 ^ 8 = a" "n div 2 ^ 16 = b" "n div 2 ^ 24 = c"
    by (simp_all add: a_def b_def c_def div_mult2_eq[symmetric])
  have "c < 256" using n by (simp add: d(3)[symmetric] less_mult_imp_div_less)
  then have "256 * (256 * (256 * c + b mod 256) + a mod 256) + n mod 256 = n"
    by (simp add: c_def b_def a_def)
  then have "256 * (256 * (256 * (n div 2 ^ 24) + n div 2 ^ 16 mod 256) + n div 2 ^ 8 mod 256) + n mod 256 = n"
    by (simp only: d)
  moreover have "n div 16777216 mod 256 = n div 16777216" using \<open>c < 256\<close> d(3) by simp
  ultimately show ?thesis by (simp add: unpack_length_def pack_length_def)
qed

lemma read_frame: "0 < length c \<Longrightarrow> length c < 2 ^ 32 \<Longrightarrow> read_frames (pack_length (length c) @ c @ rest) = c @ read_frames rest"
  by (subst read_frames.simps) (simp add: unpack_pack)

lemma read_end: "read_frames (pack_length 0 @ rest) = []"
  by (subst read_frames.simps) (simp add: unpack_pack)

definition frame_of :: "string \<Rightarrow> string" where
  "frame_of c = pack_length (length c) @ c"

lemma read_all_frames:
  "list_all (\<lambda>c. 0 < length c \<and> length c < 2 ^ 32) cs \<Longrightarrow> read_frames (concat (map frame_of cs) @ pack_length 0) = concat cs"
  using read_end[of "[]"] by (induction cs) (simp_all add: frame_of_def read_frame)

lemma send_chunks_frames:
  assumes "0 < n" "n dvd MAX_STREAM - sent" "sent \<le> MAX_STREAM"
  shows "send_chunks sent (chunks n data) =
    (concat (map frame_of (chunks n (take (MAX_STREAM - sent) data))), MAX_STREAM - sent < length data)"
  using assms
proof (induction "length data" arbitrary: data sent rule: less_induct)
  case less
  show ?case
  proof (cases "data = []")
    case True
    then show ?thesis by (simp add: chunks.simps)
  next
    case False
    have split_chunks: "chunks n xs = take n xs # chunks n (drop n xs)" if "xs \<noteq> []" for xs :: string
      using that less.prems(1) by (subst chunks.simps) simp
    show ?thesis
    proof (cases "sent + length (take n data) > MAX_STREAM")
      case True
      then have "MAX_STREAM - sent < n" using less.prems(3) by simp
      then have "MAX_STREAM - sent = 0" using less.prems(2) by (metis dvd_imp_le gr0I leD)
      then show ?thesis using False True by (simp add: split_chunks chunks.simps[of n "[]"])
    next
      case fits: False
      let ?m = "MAX_STREAM - (sent + length (take n data))"
      have m: "MAX_STREAM - sent = length (take n data) + ?m" using fits by simp
      have rest: "send_chunks (sent + length (take n data)) (chunks n (drop n data)) =
          (concat (map frame_of (chunks n (take ?m (drop n data)))), ?m < length (drop n data))"
      proof (cases "n \<le> length data")
        case True
        have "n dvd ?m" using less.prems(2) m True by (metis dvd_add_right_iff dvd_refl length_take min.absorb2)
        then show ?thesis using less.hyps[of "drop n data" "sent + length (take n data)"] False less.prems(1) fits by simp
      next
        case False
        then show ?thesis by (simp add: chunks.simps[of n "[]"])
      qed
      have t: "take (MAX_STREAM - sent) data = take n data @ take ?m (drop n data)"
      proof (cases "n \<le> length data")
        case True
        then show ?thesis using m by (metis length_take min.absorb2 take_add)
      next
        case False
        then show ?thesis using m by simp
      qed
      have nonempty: "take (MAX_STREAM - sent) data \<noteq> []" using \<open>data \<noteq> []\<close> less.prems(1) by (simp add: t)
      have heads: "take n (take (MAX_STREAM - sent) data) = take n data" "drop n (take (MAX_STREAM - sent) data) = take ?m (drop n data)"
        unfolding t by (cases "n \<le> length data"; simp)+
      have "MAX_STREAM - sent < length data \<longleftrightarrow> ?m < length (drop n data)" using m by auto
      moreover have "chunks n (take (MAX_STREAM - sent) data) = take n data # chunks n (take ?m (drop n data))"
        unfolding split_chunks[OF nonempty] heads by (rule refl)
      ultimately show ?thesis
        using fits rest unfolding split_chunks[OF False] by (simp only: send_chunks.simps frame_of_def if_False
            prod.case list.map concat.simps append_assoc)
    qed
  qed
qed

text \<open>C35. The stream protocol delivers the file: \<open>clamd\<close>, reading frame by frame, receives exactly the
  bytes of the file up to the stream limit, and the scan notes that it stopped early exactly when
  the file is longer than the limit.\<close>

theorem clamd_receives_the_file:
  "clamd_reads (fst (clam_request data)) = take MAX_STREAM data \<and> snd (clam_request data) = (MAX_STREAM < length data)"
proof -
  let ?cs = "chunks CLAM_CHUNK (take MAX_STREAM data)"
  have send: "send_chunks 0 (chunks CLAM_CHUNK data) = (concat (map frame_of ?cs), MAX_STREAM < length data)"
    using send_chunks_frames[of CLAM_CHUNK 0 data] by (simp add: CLAM_CHUNK_def MAX_STREAM_def)
  have sizes: "list_all (\<lambda>c. 0 < length c \<and> length c < 2 ^ 32) ?cs"
    using length_chunks_le[of _ CLAM_CHUNK "take MAX_STREAM data"] by (fastforce simp: list_all_iff CLAM_CHUNK_def)
  have "read_frames (concat (map frame_of ?cs) @ pack_length 0) = take MAX_STREAM data"
    unfolding read_all_frames[OF sizes] by (rule concat_chunks) (simp add: CLAM_CHUNK_def)
  then show ?thesis by (simp add: clamd_reads_def clam_request_def send)
qed

text \<open>A file beyond the limit that is clean as far as it was sent is reported as not infected.\<close>

lemma oversized_file_reads_clean:
  assumes "\<And>request. clamd request = Inr ''stream: OK''"
  shows "av_infected (clamav_scan clamd data) = Some False"
  using assms by (simp add: clamav_scan_def clam_verdict_def strip_nul_def strip_def is_space_def ends_with_def
      starts_with_def split: prod.splits)

section \<open>Secrets are reported worst first\<close>

lemma take_sort_key_least:
  "x \<in> set (take n (sort_key f xs)) \<Longrightarrow> y \<in> set (drop n (sort_key f xs)) \<Longrightarrow> f x \<le> f y"
proof -
  assume x: "x \<in> set (take n (sort_key f xs))" and y: "y \<in> set (drop n (sort_key f xs))"
  have "sorted (map f (take n (sort_key f xs) @ drop n (sort_key f xs)))" by simp
  then show "f x \<le> f y" using x y unfolding map_append sorted_append by auto
qed

lemma counts_total:
  assumes "set (map se_severity fs) \<subseteq> {''CRITICAL'', ''HIGH'', ''MEDIUM'', ''LOW''}"
  shows "\<exists>a b c d. foldl (\<lambda>cs f. AList.update (se_severity f) (case map_of cs (se_severity f) of None \<Rightarrow> 1 | Some n \<Rightarrow> n + 1) cs)
            [(''CRITICAL'', a0), (''HIGH'', b0), (''MEDIUM'', c0), (''LOW'', d0)] fs
          = [(''CRITICAL'', a), (''HIGH'', b), (''MEDIUM'', c), (''LOW'', d)]
        \<and> a + b + c + d = a0 + b0 + c0 + d0 + length fs
        \<and> a = a0 + length (filter (\<lambda>f. se_severity f = ''CRITICAL'') fs)"
  using assms
proof (induction fs arbitrary: a0 b0 c0 d0)
  case (Cons f fs)
  from Cons.prems have "se_severity f \<in> {''CRITICAL'', ''HIGH'', ''MEDIUM'', ''LOW''}" by simp
  then show ?case
    using Cons.prems Cons.IH[of "Suc a0" b0 c0 d0] Cons.IH[of a0 "Suc b0" c0 d0] Cons.IH[of a0 b0 "Suc c0" d0]
      Cons.IH[of a0 b0 c0 "Suc d0"]
    by (elim insertE emptyE; simp; fastforce)
qed simp

lemma take_matches_severity:
  "take_matches src t kind sev ms seen = (fs, seen') \<Longrightarrow> f \<in> set fs \<Longrightarrow> se_severity f = sev"
proof (induction ms arbitrary: seen fs)
  case (Cons m ms)
  then show ?case by (cases m) (auto simp: Let_def split: if_splits prod.splits)
qed simp

lemma scan_severities: "f \<in> set (scan_patterns finditer src t ks seen) \<Longrightarrow> se_severity f \<in> snd ` set ks"
proof (induction ks arbitrary: seen)
  case (Cons k ks)
  obtain kind sev where k: "k = (kind, sev)" by (metis surj_pair)
  obtain fs seen' where m: "take_matches src t kind sev (finditer kind t) seen = (fs, seen')" by (metis surj_pair)
  show ?case using Cons take_matches_severity[OF m] by (auto simp: k m)
qed simp

lemma kind_severities: "snd ` set SECRET_KINDS = {''CRITICAL'', ''HIGH'', ''MEDIUM'', ''LOW''}"
  by (auto simp: SECRET_KINDS_def)

text \<open>The secrets of a sample are reported worst first, at most fifty of them; when the scan found
  more, everything left out is at most as severe as everything reported; and the counts per
  severity add up to the total, critical ones being announced exactly when there are any.\<close>

theorem secrets_worst_first:
  "let found = scan_patterns finditer src t SECRET_KINDS []; fs = secret_scan finditer src t; s = secret_summary_of fs in
     sorted (map (\<lambda>f. secret_rank (se_severity f)) fs) \<and> length fs = min 50 (length found)
     \<and> (\<exists>rest. mset found = mset fs + mset rest
          \<and> list_all (\<lambda>f. list_all (\<lambda>g. secret_rank (se_severity f) \<le> secret_rank (se_severity g)) rest) fs)
     \<and> su_total s = length fs \<and> sum_list (map snd (su_counts s)) = su_total s
     \<and> su_critical s = list_ex (\<lambda>f. se_severity f = ''CRITICAL'') fs"
proof -
  define found where "found = scan_patterns finditer src t SECRET_KINDS []"
  define rank where "rank = (\<lambda>f :: secret. secret_rank (se_severity f))"
  define fs where "fs = take 50 (sort_key rank found)"
  have fs: "secret_scan finditer src t = fs" by (simp add: secret_scan_def fs_def found_def rank_def)
  have sorted: "sorted (map rank fs)" unfolding fs_def by (simp add: take_map[symmetric] sorted_wrt_take)
  have rest: "mset found = mset fs + mset (drop 50 (sort_key rank found))"
    unfolding fs_def by (metis append_take_drop_id mset_append mset_sort)
  have least: "list_all (\<lambda>f. list_all (\<lambda>g. rank f \<le> rank g) (drop 50 (sort_key rank found))) fs"
    using take_sort_key_least[of _ 50 rank found] by (simp add: list_all_iff fs_def)
  have "set (map se_severity fs) \<subseteq> {''CRITICAL'', ''HIGH'', ''MEDIUM'', ''LOW''}"
    using scan_severities[of _ finditer src t SECRET_KINDS "[]"] kind_severities set_take_subset[of 50 "sort_key rank found"]
    by (auto simp: fs_def found_def)
  then obtain a b c d where cs: "su_counts (secret_summary_of fs) = [(''CRITICAL'', a), (''HIGH'', b), (''MEDIUM'', c), (''LOW'', d)]"
    "a + b + c + d = length fs" "a = length (filter (\<lambda>f. se_severity f = ''CRITICAL'') fs)"
    using counts_total[of fs 0 0 0 0] by (auto simp: secret_summary_of_def Let_def)
  have crit: "su_critical (secret_summary_of fs) = (a > 0)"
    using cs(1) by (simp add: secret_summary_of_def Let_def)
  have tot: "su_total (secret_summary_of fs) = length fs" by (simp add: secret_summary_of_def Let_def)
  have len: "length fs = min 50 (length found)" by (simp add: fs_def)
  have ex: "(a > 0) = list_ex (\<lambda>f. se_severity f = ''CRITICAL'') fs"
    by (auto simp: cs(3) list_ex_iff filter_empty_conv)
  show ?thesis
    unfolding Let_def found_def[symmetric] fs
    using sorted len rest least tot crit ex cs(1,2) by (auto simp: rank_def)
qed

text \<open>The mask hides nothing: the reported context shows the whole secret, unless it spans lines.\<close>

lemma context_shows_secret:
  assumes "t = pre @ raw @ post" "length raw \<le> 100" "CHR 0x0A \<notin> set raw" "CHR 0x0D \<notin> set raw"
  shows "contains_str raw (extract_context t (length pre) (length pre + length raw))"
proof -
  let ?f = "\<lambda>c. if c = CHR 0x0A then '' '' else if c = CHR 0x0D then [] else [c]"
  let ?u = "drop (length pre - 60) pre"
  let ?w = "take (min (length post) 60) post"
  have short: "length (concat (map ?f xs)) \<le> length xs" for xs by (induction xs) auto
  have same: "concat (map ?f raw) = raw" using assms(3,4) by (induction raw) auto
  have "take (min (length t) (length pre + length raw + 60) - (length pre - 60)) (drop (length pre - 60) t) = ?u @ raw @ ?w"
    using assms(1) by (auto simp: min_def)
  then have ctx: "extract_context t (length pre) (length pre + length raw) = take 160 (concat (map ?f ?u) @ raw @ concat (map ?f ?w))"
    by (simp add: extract_context_def Let_def same)
  have "length (concat (map ?f ?u)) \<le> 60" using short[of ?u] by simp
  then have "length (concat (map ?f ?u) @ raw) \<le> 160" using assms(2) by simp
  then have "extract_context t (length pre) (length pre + length raw)
      = concat (map ?f ?u) @ raw @ take (160 - length (concat (map ?f ?u) @ raw)) (concat (map ?f ?w))"
    unfolding ctx append_assoc[symmetric] by (simp add: take_append)
  then show ?thesis unfolding contains_str_iff by blast
qed

section \<open>Caches\<close>

lemma sandbox_cache_bounded: "length cache \<le> 500 \<Longrightarrow> length (cache_result sha r cache) \<le> 500"
proof -
  assume c: "length cache \<le> 500"
  have "length (AList.update sha r cache) \<le> Suc (length cache)" by (induction cache) auto
  then show ?thesis using c by (auto simp: cache_result_def Let_def)
qed

lemma sandbox_cache_live: "list_all (is_live_cape \<circ> snd) cache \<Longrightarrow> list_all (is_live_cape \<circ> snd) (cache_result sha r cache)"
proof -
  assume c: "list_all (is_live_cape \<circ> snd) cache"
  have "is_live_cape r \<Longrightarrow> list_all (is_live_cape \<circ> snd) (AList.update sha r cache)" using c by (induction cache) auto
  moreover have "list_all P xs \<Longrightarrow> list_all P (tl xs)" for P and xs :: "(string \<times> jdict) list" by (cases xs) auto
  ultimately show ?thesis using c by (simp add: cache_result_def Let_def)
qed

text \<open>Deleting a rule file that is not the newest leaves the compiled rules as they were.\<close>

lemma deleted_rule_stays:
  assumes "yc_mtime c = Some (dir_mtime env)" "ye_files env = Some fs" "ye_files env' = Some gs"
    and "map snd (filter (\<lambda>(f, _). is_yara_file f) gs) = [5]" "map snd (filter (\<lambda>(f, _). is_yara_file f) fs) = [3, 5]"
  shows "get_rules env' c = c"
  using assms by (simp add: get_rules_def dir_mtime_def max_or_def)

lemma worst_severity_max: "m \<in> set ms \<Longrightarrow> yara_rank m \<le> foldl max 0 (map yara_rank ms)"
  by (rule foldl_max_ge) simp

end
