(* ===== verification/Malware.thy ===== *)
theory Malware
  imports Scanners Evidence Accounts
begin

text \<open>
  The malware laboratory (\<open>backend/app/api/v1/endpoints/malware.py\<close>): uploads are hashed, moved to
  the quarantine under their SHA-256, run through the engines once, and reported.

  Arguments are the hash functions, the path resolution of the operating system, the archive
  reader, the static and APK analysers, and what the engines of theory \<open>Scanners\<close> need. A score an
  engine reports is an integer or absent; any other makes the pipeline fail (\<open>None\<close>). The report
  files on disk are the lists of the state.
\<close>

section \<open>Quarantine paths\<close>

definition is_hex_char :: "char \<Rightarrow> bool" where
  "is_hex_char c \<longleftrightarrow> is_digit c \<or> c \<in> set ''abcdef''"

text \<open>The pattern ends with a dollar sign, which also matches before a final line feed.\<close>

definition is_sha256 :: "string \<Rightarrow> bool" where
  "is_sha256 s = (let t = (if s \<noteq> [] \<and> last s = CHR 0x0A then butlast s else s)
     in length t = 64 \<and> list_all is_hex_char t)"

record lab_env =
  mx_sha :: "string \<Rightarrow> string"
  mx_md5 :: "string \<Rightarrow> string"
  mx_sha1 :: "string \<Rightarrow> string"
  mx_realpath :: "string \<Rightarrow> string"
  mx_dir :: string
  mx_limit :: nat
  mx_zip :: "string \<Rightarrow> ((string \<times> bool) list \<times> (string \<Rightarrow> (bool + string))) option"
  mx_static :: "string \<Rightarrow> string \<Rightarrow> string + jdict"
  mx_apk :: "string \<Rightarrow> string \<Rightarrow> string + jdict"
  mx_yara :: yara_env
  mx_cape :: "string \<Rightarrow> jdict option"
  mx_finditer :: "string \<Rightarrow> string \<Rightarrow> (nat \<times> nat) list"
  mx_decode :: "string \<Rightarrow> string"
  mx_clamd :: "string \<Rightarrow> string + string"
  mx_vt_key :: bool
  mx_vt :: "string \<Rightarrow> vt_reply"
  mx_stamp :: "time \<Rightarrow> string"
  mx_removable :: bool

definition quarantine_path :: "lab_env \<Rightarrow> string \<Rightarrow> http_error + string" where
  "quarantine_path env sha =
     (if \<not> is_sha256 sha then Inl (400, ''invalid sha256'')
      else (let path = mx_realpath env (mx_dir env @ ''/'' @ sha) in
        if \<not> path_inside path (mx_dir env) then Inl (400, ''path escapes quarantine'') else Inr path))"

section \<open>File types and archives\<close>

definition ALLOWED_TYPES :: "string list" where
  "ALLOWED_TYPES = [''pe'', ''elf'', ''pdf'', ''apk'', ''office'', ''zip'', ''script'', ''binary'']"

definition detect_type :: "string \<Rightarrow> string \<Rightarrow> string" where
  "detect_type data filename =
     (if take 2 data = ''MZ'' then ''pe''
      else if take 4 data = CHR 0x7F # ''ELF'' then ''elf''
      else if take 4 data = ''%PDF'' then ''pdf''
      else if take 4 data \<in> {''PK'' @ [CHR 0x03, CHR 0x04], ''PK'' @ [CHR 0x05, CHR 0x06]}
        then (if ends_with ''.apk'' (lower filename) then ''apk''
              else if list_ex (\<lambda>e. ends_with e (lower filename)) [''.docx'', ''.xlsx'', ''.pptx''] then ''office''
              else ''zip'')
      else if list_ex (\<lambda>e. ends_with (''.'' @ e) (lower filename)) [''sh'', ''py'', ''js'', ''bat'', ''ps1'', ''lua'', ''rb'', ''pl'']
        then ''script''
      else ''binary'')"

datatype archive = Plain_file | Unlocked string string | Locked

definition ARCHIVE_PASSWORDS :: "string list" where
  "ARCHIVE_PASSWORDS = [''infected'', ''malware'']"

text \<open>Reading a member: \<open>Inr\<close> its bytes, \<open>Inl True\<close> the \<open>RuntimeError\<close> of a wrong password, \<open>Inl False\<close>
  any other exception, which ends the function with \<open>plain\<close>.\<close>

fun try_passwords :: "(string \<Rightarrow> bool + string) \<Rightarrow> string \<Rightarrow> string list \<Rightarrow> archive" where
  "try_passwords rd name [] = Locked"
| "try_passwords rd name (pwd # ps) =
     (case rd pwd of Inr payload \<Rightarrow> Unlocked payload name
      | Inl True \<Rightarrow> try_passwords rd name ps
      | Inl False \<Rightarrow> Plain_file)"

definition password_zip_status :: "lab_env \<Rightarrow> string \<Rightarrow> archive" where
  "password_zip_status env data =
     (case mx_zip env data of
        None \<Rightarrow> Plain_file
      | Some (infos, rd) \<Rightarrow>
          (let infos = filter (\<lambda>(n, _). \<not> ends_with ''/'' n) infos in
           if infos = [] \<or> \<not> list_ex snd infos then Plain_file
           else if length infos \<noteq> 1 then Locked
           else try_passwords rd (fst (hd infos)) ARCHIVE_PASSWORDS))"

section \<open>The pipeline\<close>

record malware_report =
  mr_filename :: string
  mr_sha256 :: string
  mr_type :: string
  mr_family :: json
  mr_score :: int
  mr_risk :: string
  mr_at :: string
  mr_cached :: bool
  mr_clam :: clam_result
  mr_vt :: vt_result
  mr_verdict :: string
  mr_note :: "string option"
  mr_yara :: yara_report
  mr_static :: jdict
  mr_sandbox :: jdict
  mr_apk :: jdict
  mr_secrets :: secret_summary

definition vt_hits :: "vt_result \<Rightarrow> int" where
  "vt_hits vt = (if vt_known vt then vt_malicious vt else 0)"

definition vt_flags :: "vt_result \<Rightarrow> int" where
  "vt_flags vt = vt_hits vt + (if vt_known vt then vt_suspicious vt else 0)"

definition av_verdict :: "clam_result \<Rightarrow> vt_result \<Rightarrow> string" where
  "av_verdict clam vt =
     (if av_infected clam = Some True \<or> vt_hits vt \<ge> 3 then ''MALICIOUS''
      else if vt_flags vt > 0 then ''SUSPICIOUS''
      else if av_infected clam = Some False \<or> vt_known vt then ''CLEAN''
      else ''UNKNOWN'')"

definition final_verdict :: "archive \<Rightarrow> clam_result \<Rightarrow> vt_result \<Rightarrow> string" where
  "final_verdict st clam vt =
     (let v = av_verdict clam vt in if st = Locked \<and> v \<in> {''CLEAN'', ''UNKNOWN''} then ''SUSPICIOUS'' else v)"

definition nameless :: "json \<Rightarrow> bool" where
  "nameless v \<longleftrightarrow> v = JStr ''Unknown'' \<or> v = JStr [] \<or> v = JNull"

definition family_of :: "jdict \<Rightarrow> jdict \<Rightarrow> yara_match list \<Rightarrow> clam_result \<Rightarrow> vt_result \<Rightarrow> json" where
  "family_of sandbox apk ms clam vt =
     (let sf = py_or (dict_get ''threat_family'' sandbox) (JStr ''Unknown'');
          af = (if apk = [] then JStr ''Unknown'' else get_or_value ''threat_family'' (JStr ''Unknown'') apk);
          family = (if \<not> nameless sf then sf else af);
          family = (case filter truthy (map (\<lambda>m. dict_get ''family'' (ym_meta m)) ms) of [] \<Rightarrow> family | f # _ \<Rightarrow> f)
      in case av_signature clam of
           Some (c # cs) \<Rightarrow> JStr (c # cs)
         | _ \<Rightarrow> (if nameless family then (case vt_names vt of [] \<Rightarrow> family | n # _ \<Rightarrow> JStr n) else family))"

definition int_or_zero :: "json \<Rightarrow> int option" where
  "int_or_zero v = (if \<not> truthy v then Some 0 else case v of JInt i \<Rightarrow> Some i | _ \<Rightarrow> None)"

text \<open>\<open>if c1: s = max(s, f1)\<close>, \<open>elif c2: s = max(s, f2)\<close> and so on.\<close>

fun raise_first :: "(bool \<times> int) list \<Rightarrow> int \<Rightarrow> int" where
  "raise_first [] s = s"
| "raise_first ((b, f) # bs) s = (if b then max s f else raise_first bs s)"

definition score_with :: "archive \<Rightarrow> int \<Rightarrow> int \<Rightarrow> nat \<Rightarrow> yara_match list \<Rightarrow> clam_result \<Rightarrow> vt_result \<Rightarrow> int" where
  "score_with st sandbox apk secrets ms clam vt =
     (let sev = worst_severity ms;
          s = min 100 (sandbox + apk div 3 + min 30 (int secrets * 5));
          s = raise_first [(sev = ''CRITICAL'', 90), (sev = ''HIGH'', 70), (sev = ''MEDIUM'' \<and> ms \<noteq> [], 45)] s;
          s = raise_first [(av_infected clam = Some True, 95)] s;
          s = raise_first [(vt_hits vt \<ge> 10, 90), (vt_hits vt \<ge> 3, 75), (vt_flags vt > 0, 45)] s
      in raise_first [(st = Locked, 50)] s)"

definition risk_level_of :: "int \<Rightarrow> string" where
  "risk_level_of s =
     (let r = ''LOW''; r = (if s \<ge> 30 then ''MEDIUM'' else r); r = (if s \<ge> 55 then ''HIGH'' else r)
      in if s \<ge> 80 then ''CRITICAL'' else r)"

record history_row =
  hi_sha256 :: string
  hi_md5 :: string
  hi_sha1 :: string
  hi_filename :: string
  hi_size :: nat
  hi_type :: string
  hi_family :: json
  hi_score :: int
  hi_risk :: string
  hi_at :: string
  hi_secrets :: nat

record malware_lab =
  ml_files :: "(string \<times> string) list"
  ml_temps :: "string list"
  ml_reports :: "(string \<times> malware_report) list"
  ml_history :: "history_row list"
  ml_yara :: yara_cache
  ml_cape :: "(string \<times> jdict) list"
  ml_vt_last :: "string option"

definition HEAD_BYTES :: nat where
  "HEAD_BYTES = 8 * 1024 * 1024"

text \<open>The dictionary the pipeline returns, from the results of its stages.\<close>

definition make_report :: "string \<Rightarrow> string \<Rightarrow> string \<Rightarrow> archive \<Rightarrow> string \<Rightarrow> jdict \<Rightarrow> yara_report \<Rightarrow> jdict \<Rightarrow> int \<Rightarrow> jdict \<Rightarrow> int
    \<Rightarrow> secret_summary \<Rightarrow> clam_result \<Rightarrow> vt_result \<Rightarrow> malware_report" where
  "make_report stamp filename sha st ftype static yara sandbox sb apk ar secrets clam vt =
     (let s = score_with st sb ar (su_total secrets) (yr_matches yara) clam vt
      in \<lparr>mr_filename = filename, mr_sha256 = sha, mr_type = ftype,
          mr_family = family_of sandbox apk (yr_matches yara) clam vt, mr_score = s,
          mr_risk = risk_level_of s, mr_at = stamp, mr_cached = False, mr_clam = clam, mr_vt = vt,
          mr_verdict = final_verdict st clam vt,
          mr_note = (if st = Locked
            then Some ''password-protected archive - payload could not be decrypted, contents unscanned'' else None),
          mr_yara = yara, mr_static = static, mr_sandbox = sandbox, mr_apk = apk, mr_secrets = secrets\<rparr>)"

definition assemble :: "string \<Rightarrow> string \<Rightarrow> string \<Rightarrow> archive \<Rightarrow> string \<Rightarrow> jdict \<Rightarrow> yara_report \<Rightarrow> jdict \<Rightarrow> jdict
    \<Rightarrow> secret_summary \<Rightarrow> clam_result \<Rightarrow> vt_result \<Rightarrow> malware_report option" where
  "assemble stamp filename sha st ftype static yara sandbox apk secrets clam vt =
     (case (int_or_zero (dict_get ''score'' sandbox),
            if apk = [] then Some 0 else int_or_zero (get_or_value ''risk_score'' (JInt 0) apk)) of
        (Some sb, Some ar) \<Rightarrow>
          Some (make_report stamp filename sha st ftype static yara sandbox sb apk ar secrets clam vt)
      | _ \<Rightarrow> None)"

definition payload_scanned :: "archive \<Rightarrow> string \<Rightarrow> string" where
  "payload_scanned st bytes = (case st of Unlocked payload _ \<Rightarrow> payload | _ \<Rightarrow> bytes)"

definition scanned_type :: "archive \<Rightarrow> string \<Rightarrow> string \<Rightarrow> string" where
  "scanned_type st bytes filename =
     (case st of Unlocked payload name \<Rightarrow> detect_type (take HEAD_BYTES payload) (if name = [] then filename else name)
      | _ \<Rightarrow> detect_type (take HEAD_BYTES bytes) filename)"

definition or_error :: "string + jdict \<Rightarrow> jdict" where
  "or_error r = (case r of Inl e \<Rightarrow> [(''error'', JStr e)] | Inr d \<Rightarrow> d)"

definition run_pipeline :: "lab_env \<Rightarrow> time \<Rightarrow> string \<Rightarrow> string \<Rightarrow> string \<Rightarrow> malware_lab \<Rightarrow> malware_report option \<times> malware_lab" where
  "run_pipeline env now bytes filename sha lab =
     (let st = (if detect_type (take HEAD_BYTES bytes) filename = ''zip'' then password_zip_status env bytes else Plain_file);
          target = payload_scanned st bytes; ftype = scanned_type st bytes filename; data = take HEAD_BYTES target;
          static = or_error (mx_static env data filename)
      in case yara_scan (mx_yara env) target (ml_yara lab) of (yara, yc) \<Rightarrow>
         case sandbox_analyze (mx_stamp env now) (mx_cape env target) sha filename (ml_cape lab) of (sandbox, cape) \<Rightarrow>
         let apk = (if ftype = ''apk'' then or_error (mx_apk env data filename) else []);
             secrets = secret_summary_of (secret_scan (mx_finditer env) filename (mx_decode env data));
             clam = clamav_scan (mx_clamd env) target
         in case virustotal_lookup (mx_vt_key env) (mx_vt env) sha of (vt, vt_last) \<Rightarrow>
            (assemble (mx_stamp env now) filename sha st ftype static yara sandbox apk secrets clam vt,
             lab\<lparr>ml_yara := yc, ml_cape := cape, ml_vt_last := vt_last\<rparr>))"

section \<open>Reports and history\<close>

definition store_full_report :: "string \<Rightarrow> malware_report \<Rightarrow> malware_lab \<Rightarrow> malware_lab" where
  "store_full_report sha r lab =
     (let store = AList.update sha r (ml_reports lab)
      in lab\<lparr>ml_reports := if length store > 1000 then tl store else store\<rparr>)"

definition MAX_HISTORY :: nat where
  "MAX_HISTORY = 500"

definition history_entry :: "lab_env \<Rightarrow> string \<Rightarrow> malware_report \<Rightarrow> history_row" where
  "history_entry env bytes r =
     \<lparr>hi_sha256 = mx_sha env bytes, hi_md5 = mx_md5 env bytes, hi_sha1 = mx_sha1 env bytes, hi_filename = mr_filename r,
      hi_size = length bytes, hi_type = mr_type r, hi_family = mr_family r, hi_score = mr_score r, hi_risk = mr_risk r,
      hi_at = mr_at r, hi_secrets = su_total (mr_secrets r)\<rparr>"

definition append_history :: "history_row \<Rightarrow> malware_lab \<Rightarrow> malware_lab" where
  "append_history h lab =
     lab\<lparr>ml_history := take MAX_HISTORY (h # filter (\<lambda>x. hi_sha256 x \<noteq> hi_sha256 h) (ml_history lab))\<rparr>"

section \<open>Uploads\<close>

record upload_reply =
  ul_filename :: string
  ul_hashes :: "string \<times> string \<times> string"
  ul_size :: nat
  ul_preview :: string
  ul_cached :: bool
  ul_report :: malware_report

definition hex_preview :: "string \<Rightarrow> string" where
  "hex_preview bytes = take 256 (concat (map (\<lambda>c. hex2 (of_char c)) (take 512 bytes))) @ ''...''"

definition reply_for :: "lab_env \<Rightarrow> string \<Rightarrow> string \<Rightarrow> bool \<Rightarrow> malware_report \<Rightarrow> upload_reply" where
  "reply_for env bytes filename cached r =
     \<lparr>ul_filename = filename, ul_hashes = (mx_md5 env bytes, mx_sha1 env bytes, mx_sha env bytes), ul_size = length bytes,
      ul_preview = hex_preview bytes, ul_cached = cached, ul_report = r\<rparr>"

text \<open>The part of the handler after the sample has been moved to the quarantine.\<close>

definition analyse_sample :: "lab_env \<Rightarrow> time \<Rightarrow> string \<Rightarrow> string \<Rightarrow> malware_lab \<Rightarrow> (http_error + upload_reply) \<times> malware_lab" where
  "analyse_sample env now bytes filename lab =
     (let sha = mx_sha env bytes in
      case map_of (ml_reports lab) sha of
        Some r \<Rightarrow> (Inr (reply_for env bytes filename True (r\<lparr>mr_cached := True\<rparr>)), lab)
      | None \<Rightarrow>
         (case run_pipeline env now bytes filename sha lab of
            (None, lab) \<Rightarrow> (Inl (500, ''TypeError''), lab)
          | (Some r, lab) \<Rightarrow> (Inr (reply_for env bytes filename False r), append_history (history_entry env bytes r) (store_full_report sha r lab))))"

text \<open>The upload is written to the temporary file \<open>tmp\<close> first; what is not moved is removed at the end.\<close>

definition discard :: "lab_env \<Rightarrow> string \<Rightarrow> malware_lab \<Rightarrow> malware_lab" where
  "discard env tmp lab = (if mx_removable env then lab\<lparr>ml_temps := remove1 tmp (ml_temps lab)\<rparr> else lab)"

definition upload_file :: "lab_env \<Rightarrow> time \<Rightarrow> string \<Rightarrow> string \<Rightarrow> string \<Rightarrow> malware_lab
    \<Rightarrow> (http_error + upload_reply) \<times> malware_lab" where
  "upload_file env now tmp bytes filename lab =
     (let opened = lab\<lparr>ml_temps := ml_temps lab @ [tmp]\<rparr> in
      if length bytes > mx_limit env
      then (Inl (413, ''file exceeds '' @ str_of_nat (mx_limit env div (1024 * 1024)) @ '' MB limit''), discard env tmp opened)
      else if bytes = [] then (Inl (400, ''empty upload''), discard env tmp opened)
      else if detect_type (take HEAD_BYTES bytes) filename \<notin> set ALLOWED_TYPES
      then (Inl (415, ''unsupported file type''), discard env tmp opened)
      else (case quarantine_path env (mx_sha env bytes) of
              Inl e \<Rightarrow> (Inl e, discard env tmp opened)
            | Inr path \<Rightarrow> analyse_sample env now bytes filename
                (opened\<lparr>ml_temps := remove1 tmp (ml_temps opened), ml_files := AList.update path bytes (ml_files opened)\<rparr>)))"

section \<open>Reading reports\<close>

definition get_full_report :: "string \<Rightarrow> malware_lab \<Rightarrow> http_error + malware_report" where
  "get_full_report sha lab = (case map_of (ml_reports lab) sha of
       None \<Rightarrow> Inl (404, ''Report not found. Upload the sample first.'') | Some r \<Rightarrow> Inr r)"

definition get_section :: "(malware_report \<Rightarrow> 'a) \<Rightarrow> string \<Rightarrow> malware_lab \<Rightarrow> http_error + 'a" where
  "get_section f sha lab = (case map_of (ml_reports lab) sha of None \<Rightarrow> Inl (404, ''Report not found.'') | Some r \<Rightarrow> Inr (f r))"

definition get_secrets :: "string \<Rightarrow> malware_lab \<Rightarrow> http_error + secret_summary" where
  "get_secrets = get_section mr_secrets"

definition get_yara :: "string \<Rightarrow> malware_lab \<Rightarrow> http_error + yara_report" where
  "get_yara = get_section mr_yara"

definition get_static :: "string \<Rightarrow> malware_lab \<Rightarrow> http_error + jdict" where
  "get_static = get_section mr_static"

definition get_apk_intel :: "string \<Rightarrow> malware_lab \<Rightarrow> http_error + jdict" where
  "get_apk_intel sha lab = (case get_section mr_apk sha lab of
       Inr [] \<Rightarrow> Inl (404, ''No APK analysis for this sample.'') | r \<Rightarrow> r)"

text \<open>The limit may be negative: \<open>h[:limit]\<close> then leaves out the oldest rows.\<close>

definition malware_history :: "int \<Rightarrow> malware_lab \<Rightarrow> http_error + history_row list" where
  "malware_history limit lab =
     (let h = ml_history lab in
      if limit > 200 then Inl (422, ''Unprocessable Entity'')
      else Inr (take (if limit < 0 then length h - nat (- limit) else nat limit) h))"

definition family_distribution :: "malware_lab \<Rightarrow> (json \<times> nat) list \<times> nat" where
  "family_distribution lab =
     (let counts = map (\<lambda>(f, rs). (f, length rs)) (group_on (\<lambda>h. Some (hi_family h)) (ml_history lab));
          counts = (if counts = [] then [(JStr ''Unknown'', 0)] else counts)
      in (counts, sum_list (map snd counts)))"

section \<open>What a report promises\<close>

definition report_ok :: "malware_report \<Rightarrow> bool" where
  "report_ok r \<longleftrightarrow> mr_score r \<le> 100 \<and> mr_risk r = risk_level_of (mr_score r)
     \<and> (av_infected (mr_clam r) = Some True \<longrightarrow> mr_verdict r = ''MALICIOUS'' \<and> mr_risk r = ''CRITICAL'' \<and> mr_score r \<ge> 95)
     \<and> (mr_note r \<noteq> None \<longrightarrow> mr_verdict r \<in> {''SUSPICIOUS'', ''MALICIOUS''} \<and> mr_score r \<ge> 50)
     \<and> (vt_hits (mr_vt r) \<ge> 3 \<longrightarrow> mr_verdict r = ''MALICIOUS'' \<and> mr_score r \<ge> 75)"

lemma raise_first_ge: "s \<le> raise_first bs s"
  by (induction bs) auto

lemma raise_first_le: "s \<le> m \<Longrightarrow> list_all (\<lambda>(_, f). f \<le> m) bs \<Longrightarrow> raise_first bs s \<le> m"
  by (induction bs) auto

lemma score_bounds_high: "score_with st sb ar n ms clam vt \<le> 100"
  unfolding score_with_def Let_def by (intro raise_first_le) simp_all

lemma score_floor_clam: "av_infected clam = Some True \<Longrightarrow> 95 \<le> score_with st sb ar n ms clam vt"
proof -
  assume c: "av_infected clam = Some True"
  have "95 \<le> raise_first [(av_infected clam = Some True, 95)] s" for s using c by simp
  then show ?thesis unfolding score_with_def Let_def by (rule order_trans[OF order_trans[OF _ raise_first_ge] raise_first_ge])
qed

lemma score_floor_locked: "50 \<le> score_with Locked sb ar n ms clam vt"
proof -
  have "50 \<le> raise_first [(Locked = Locked, 50)] s" for s by simp
  then show ?thesis unfolding score_with_def Let_def by this
qed

lemma score_floor_vt: "3 \<le> vt_hits vt \<Longrightarrow> 75 \<le> score_with st sb ar n ms clam vt"
proof -
  assume c: "3 \<le> vt_hits vt"
  have "75 \<le> raise_first [(vt_hits vt \<ge> 10, 90), (vt_hits vt \<ge> 3, 75), (vt_flags vt > 0, 45)] s" for s
    using c by (simp add: le_max_iff_disj)
  then show ?thesis unfolding score_with_def Let_def by (rule order_trans[OF _ raise_first_ge])
qed

lemma made_report_ok:
  "report_ok (make_report stamp filename sha st ftype static yara sandbox sb apk ar secrets clam vt)"
proof -
  have risk: "risk_level_of s = ''CRITICAL''" if "s \<ge> 95" for s using that by (simp add: risk_level_of_def Let_def)
  show ?thesis
    unfolding report_ok_def make_report_def Let_def
    by (cases st) (auto simp: final_verdict_def av_verdict_def Let_def score_bounds_high score_floor_clam
        score_floor_locked score_floor_vt risk)
qed

lemma assembled_ok:
  "assemble stamp filename sha st ftype static yara sandbox apk secrets clam vt = Some r \<Longrightarrow> report_ok r \<and> mr_sha256 r = sha"
proof -
  assume "assemble stamp filename sha st ftype static yara sandbox apk secrets clam vt = Some r"
  then have "\<exists>sb ar. r = make_report stamp filename sha st ftype static yara sandbox sb apk ar secrets clam vt"
    unfolding assemble_def by (auto split: option.splits)
  then show "report_ok r \<and> mr_sha256 r = sha"
    using made_report_ok by (auto simp: make_report_def Let_def)
qed

lemma pipeline_result:
  assumes "run_pipeline env now bytes filename sha lab = (res, lab')"
  shows "res = Some r \<Longrightarrow> report_ok r \<and> mr_sha256 r = sha" "ml_files lab' = ml_files lab" "ml_temps lab' = ml_temps lab"
    "ml_reports lab' = ml_reports lab" "ml_history lab' = ml_history lab"
proof -
  obtain yara yc where y: "yara_scan (mx_yara env) (payload_scanned (if detect_type (take HEAD_BYTES bytes) filename = ''zip''
      then password_zip_status env bytes else Plain_file) bytes) (ml_yara lab) = (yara, yc)" by (metis surj_pair)
  obtain sb cape where s: "sandbox_analyze (mx_stamp env now) (mx_cape env (payload_scanned
      (if detect_type (take HEAD_BYTES bytes) filename = ''zip'' then password_zip_status env bytes else Plain_file) bytes))
      sha filename (ml_cape lab) = (sb, cape)" by (metis surj_pair)
  obtain vt vt_last where v: "virustotal_lookup (mx_vt_key env) (mx_vt env) sha = (vt, vt_last)" by (metis surj_pair)
  obtain st ftype static apk secrets clam where
    run: "(assemble (mx_stamp env now) filename sha st ftype static yara sb apk secrets clam vt,
        lab\<lparr>ml_yara := yc, ml_cape := cape, ml_vt_last := vt_last\<rparr>) = (res, lab')"
    using assms unfolding run_pipeline_def Let_def by (simp only: y s v prod.case)
  show "res = Some r \<Longrightarrow> report_ok r \<and> mr_sha256 r = sha" using run assembled_ok by blast
  show "ml_files lab' = ml_files lab" "ml_temps lab' = ml_temps lab"
    "ml_reports lab' = ml_reports lab" "ml_history lab' = ml_history lab"
    using run by auto
qed

section \<open>The laboratory stays in order\<close>

definition lab_ok :: "lab_env \<Rightarrow> malware_lab \<Rightarrow> bool" where
  "lab_ok env lab \<longleftrightarrow>
     list_all (\<lambda>(path, bytes). quarantine_path env (mx_sha env bytes) = Inr path) (ml_files lab)
     \<and> distinct (map fst (ml_files lab))
     \<and> length (ml_reports lab) \<le> 1000 \<and> distinct (map fst (ml_reports lab))
     \<and> list_all (\<lambda>(sha, r). mr_sha256 r = sha \<and> report_ok r) (ml_reports lab)
     \<and> length (ml_history lab) \<le> MAX_HISTORY \<and> distinct (map hi_sha256 (ml_history lab))
     \<and> (mx_removable env \<longrightarrow> ml_temps lab = [])"

lemma list_all_update: "list_all P al \<Longrightarrow> P (k, v) \<Longrightarrow> list_all P (AList.update k v al)"
  by (induction al) auto

lemma length_update_le: "length (AList.update k v al) \<le> Suc (length al)"
  by (induction al) auto

lemma store_report_ok:
  assumes "lab_ok env lab" "mr_sha256 r = sha" "report_ok r" shows "lab_ok env (store_full_report sha r lab)"
proof -
  let ?store = "AList.update sha r (ml_reports lab)"
  have s: "length ?store \<le> 1001" "distinct (map fst ?store)" "list_all (\<lambda>(sha, r). mr_sha256 r = sha \<and> report_ok r) ?store"
    using assms length_update_le[of sha r "ml_reports lab"]
    by (auto simp: lab_ok_def distinct_update intro: list_all_update)
  have "length (tl ?store) \<le> 1000" "distinct (map fst (tl ?store))"
    "list_all (\<lambda>(sha, r). mr_sha256 r = sha \<and> report_ok r) (tl ?store)"
    using s by (cases ?store; simp)+
  then show ?thesis using assms s by (simp add: lab_ok_def store_full_report_def Let_def)
qed

lemma append_history_ok:
  assumes "lab_ok env lab" shows "lab_ok env (append_history h lab)"
proof -
  have "distinct (map hi_sha256 (h # filter (\<lambda>x. hi_sha256 x \<noteq> hi_sha256 h) (ml_history lab)))"
    using assms by (auto simp: lab_ok_def distinct_map intro: inj_on_subset)
  then have "distinct (map hi_sha256 (take MAX_HISTORY (h # filter (\<lambda>x. hi_sha256 x \<noteq> hi_sha256 h) (ml_history lab))))"
    unfolding take_map[symmetric] by (rule distinct_take)
  then show ?thesis using assms by (simp add: lab_ok_def append_history_def)
qed

lemma analyse_ok:
  assumes "lab_ok env lab" shows "lab_ok env (snd (analyse_sample env now bytes filename lab))"
proof (cases "map_of (ml_reports lab) (mx_sha env bytes)")
  case None
  obtain res lab' where run: "run_pipeline env now bytes filename (mx_sha env bytes) lab = (res, lab')" by (metis surj_pair)
  have ok: "lab_ok env lab'" using assms pipeline_result(2-5)[OF run] by (simp add: lab_ok_def)
  then show ?thesis
    using None run pipeline_result(1)[OF run] by (cases res) (auto simp: analyse_sample_def Let_def intro!: append_history_ok store_report_ok)
next
  case (Some r)
  then show ?thesis using assms by (simp add: analyse_sample_def Let_def)
qed

lemma upload_ok:
  assumes "lab_ok env lab" shows "lab_ok env (snd (upload_file env now tmp bytes filename lab))"
proof -
  have opened: "lab_ok env (discard env tmp (lab\<lparr>ml_temps := ml_temps lab @ [tmp]\<rparr>))"
    using assms by (auto simp: lab_ok_def discard_def)
  have moved: "lab_ok env (lab\<lparr>ml_temps := remove1 tmp (ml_temps lab @ [tmp]), ml_files := AList.update path bytes (ml_files lab)\<rparr>)"
    if "quarantine_path env (mx_sha env bytes) = Inr path" for path
    using assms that by (auto simp: lab_ok_def distinct_update intro!: list_all_update)
  show ?thesis
    using opened analyse_ok[OF moved] unfolding upload_file_def Let_def
    by (auto split: sum.splits simp del: remove1_append)
qed

datatype malware_request = Upload time string string string

fun malware_step :: "lab_env \<Rightarrow> malware_lab \<Rightarrow> malware_request \<Rightarrow> malware_lab" where
  "malware_step env lab (Upload now tmp bytes filename) = snd (upload_file env now tmp bytes filename lab)"

interpretation malware_uploads: event_machine "malware_step env" "lab_ok env"
proof unfold_locales
  fix lab rq assume "lab_ok env lab"
  then show "lab_ok env (malware_step env lab rq)" by (cases rq) (simp add: upload_ok)
qed

definition clean_lab :: malware_lab where
  "clean_lab = \<lparr>ml_files = [], ml_temps = [], ml_reports = [], ml_history = [],
     ml_yara = \<lparr>yc_mtime = None, yc_rules = None, yc_error = None\<rparr>, ml_cape = [], ml_vt_last = None\<rparr>"

text \<open>C34. After any uploads: every file of the quarantine lies under the path of the SHA-256 of its own
  bytes, which is inside the quarantine directory, and no two share a path; at most 1000 reports are
  kept, one per sample, each with the risk level of its score and no understatement of a detection;
  the history has at most 500 rows, one per sample; and no temporary file is left when it can be removed.\<close>

theorem malware_lab_stays_in_order:
  "lab_ok env (foldl (malware_step env) clean_lab rqs)"
  by (rule malware_uploads.run_inv) (simp add: lab_ok_def clean_lab_def)


text \<open>Every type the detection returns is allowed, so the type check never refuses an upload.\<close>

lemma detect_type_allowed: "detect_type data filename \<in> set ALLOWED_TYPES"
  by (simp add: detect_type_def ALLOWED_TYPES_def)

lemma upload_cases:
  assumes "upload_file env now tmp bytes filename lab = (Inr rep, lab')"
  obtains path where "quarantine_path env (mx_sha env bytes) = Inr path" "length bytes \<le> mx_limit env" "bytes \<noteq> []"
    "analyse_sample env now bytes filename (lab\<lparr>ml_temps := remove1 tmp (ml_temps lab @ [tmp]),
       ml_files := AList.update path bytes (ml_files lab)\<rparr>) = (Inr rep, lab')"
  using assms detect_type_allowed[of "take HEAD_BYTES bytes" filename] unfolding upload_file_def Let_def
  by (auto split: if_splits sum.splits simp del: remove1_append)

lemma stored_report: "map_of (ml_reports lab) sha = None \<Longrightarrow> map_of (ml_reports (store_full_report sha r lab)) sha = Some r"
proof -
  assume "map_of (ml_reports lab) sha = None"
  then have "sha \<notin> fst ` set (ml_reports lab)" by (simp add: map_of_eq_None_iff)
  then have app: "AList.update sha r (ml_reports lab) = ml_reports lab @ [(sha, r)]" "map_of (ml_reports lab @ [(sha, r)]) sha = Some r"
    by (simp_all add: update_new map_of_append map_add_def map_of_eq_None_iff[THEN iffD2])
  have "map_of (tl (ml_reports lab @ [(sha, r)])) sha = Some r" if "ml_reports lab \<noteq> []"
    using that \<open>sha \<notin> fst ` set (ml_reports lab)\<close>
    by (cases "ml_reports lab") (auto simp: map_add_def map_of_eq_None_iff[THEN iffD2])
  then show "map_of (ml_reports (store_full_report sha r lab)) sha = Some r"
    using app by (cases "ml_reports lab") (auto simp: store_full_report_def Let_def)
qed

lemma analysed_is_cached:
  assumes "analyse_sample env now bytes filename lab = (Inr rep, lab')"
  shows "\<exists>r. map_of (ml_reports lab') (mx_sha env bytes) = Some r"
proof (cases "map_of (ml_reports lab) (mx_sha env bytes)")
  case None
  obtain res lab'' where run: "run_pipeline env now bytes filename (mx_sha env bytes) lab = (res, lab'')" by (metis surj_pair)
  have "map_of (ml_reports lab'') (mx_sha env bytes) = None" using None pipeline_result(4)[OF run] by simp
  then show ?thesis using assms None run stored_report
    by (cases res) (auto simp: analyse_sample_def Let_def append_history_def)
next
  case (Some r)
  then show ?thesis using assms by (simp add: analyse_sample_def Let_def)
qed

text \<open>A sample is analysed once: when an upload was answered with a report, uploading the same bytes
  again, at any later time and under any name, is answered from the stored report, and neither the
  reports nor the history change.\<close>

theorem reupload_is_answered_from_the_report:
  assumes "upload_file env now tmp bytes filename lab = (Inr rep, lab')"
  shows "\<exists>rep' lab''. upload_file env now' tmp' bytes filename' lab' = (Inr rep', lab'')
    \<and> ul_cached rep' \<and> ml_reports lab'' = ml_reports lab' \<and> ml_history lab'' = ml_history lab'"
proof -
  obtain path where path: "quarantine_path env (mx_sha env bytes) = Inr path" "length bytes \<le> mx_limit env" "bytes \<noteq> []"
    and an: "analyse_sample env now bytes filename (lab\<lparr>ml_temps := remove1 tmp (ml_temps lab @ [tmp]),
       ml_files := AList.update path bytes (ml_files lab)\<rparr>) = (Inr rep, lab')"
    using upload_cases[OF assms] by metis
  obtain r where "map_of (ml_reports lab') (mx_sha env bytes) = Some r" using analysed_is_cached[OF an] by blast
  then show ?thesis
    using path detect_type_allowed[of "take HEAD_BYTES bytes" filename']
    by (simp add: upload_file_def Let_def analyse_sample_def reply_for_def)
qed

definition bench :: lab_env where
  "bench = \<lparr>mx_sha = (\<lambda>s. replicate 64 (CHR ''a'')), mx_md5 = (\<lambda>s. s), mx_sha1 = (\<lambda>s. s), mx_realpath = (\<lambda>p. p), mx_dir = ''/q'',
     mx_limit = 100, mx_zip = (\<lambda>s. None), mx_static = (\<lambda>d f. Inl []), mx_apk = (\<lambda>d f. Inl []),
     mx_yara = \<lparr>ye_files = None, ye_import = None, ye_compile = (\<lambda>_. Inl []), ye_dir = ''/y''\<rparr>,
     mx_cape = (\<lambda>s. None), mx_finditer = (\<lambda>k t. []), mx_decode = (\<lambda>s. s), mx_clamd = (\<lambda>s. Inl ''OSError''), mx_vt_key = False,
     mx_vt = (\<lambda>s. Vt_raises []), mx_stamp = (\<lambda>t. []), mx_removable = True\<rparr>"

lemma bench_pipeline:
  assumes "ml_cape lab = []"
  shows "\<exists>r lab'. run_pipeline bench now ''MZ'' ''a.exe'' sha lab = (Some r, lab')"
proof -
  have head: "take HEAD_BYTES ''MZ'' = ''MZ''" by (simp add: HEAD_BYTES_def)
  have pe: "detect_type ''MZ'' ''a.exe'' = ''pe''" by (simp add: detect_type_def)
  obtain yara yc where y: "yara_scan (mx_yara bench) ''MZ'' (ml_yara lab) = (yara, yc)" by (metis surj_pair)
  obtain sb cape where s: "sandbox_analyze (mx_stamp bench now) (mx_cape bench ''MZ'') sha ''a.exe'' (ml_cape lab) = (sb, cape)"
    by (metis surj_pair)
  obtain vt vt_last where v: "virustotal_lookup (mx_vt_key bench) (mx_vt bench) sha = (vt, vt_last)" by (metis surj_pair)
  have "dict_get ''score'' sb = JNull"
    using s assms by (auto simp: sandbox_analyze_def get_cached_result_def bench_def Let_def dict_get_def
        update_conv' UNAVAILABLE_RESULT_def)
  then have "int_or_zero (dict_get ''score'' sb) = Some 0" by (simp add: int_or_zero_def)
  then have "assemble st f h a ''pe'' stat yara sb [] sec clam vt \<noteq> None" for st f h a stat sec clam
    by (simp add: assemble_def)
  then show ?thesis
    unfolding run_pipeline_def Let_def
    by (simp add: head pe y s v payload_scanned_def scanned_type_def)
qed

lemma bench_accepts:
  "\<exists>rep lab. upload_file bench 0 ''t'' ''MZ'' ''a.exe'' clean_lab = (Inr rep, lab)"
proof -
  have sha: "mx_sha bench ''MZ'' = replicate 64 (CHR ''a'')" by (simp add: bench_def)
  have hex: "is_sha256 (replicate 64 (CHR ''a''))"
    by (simp add: is_sha256_def Let_def is_hex_char_def list_all_iff)
  have path: "quarantine_path bench (mx_sha bench ''MZ'') = Inr (''/q/'' @ replicate 64 (CHR ''a''))"
    unfolding sha using hex by (simp add: quarantine_path_def Let_def path_inside_def bench_def starts_with_def)
  have lim: "\<not> mx_limit bench < length ''MZ''" by (simp add: bench_def)
  have an: "\<exists>rep lab. analyse_sample bench 0 ''MZ'' ''a.exe'' l = (Inr rep, lab)" if "ml_reports l = []" "ml_cape l = []" for l
    using that bench_pipeline[of l 0 "mx_sha bench ''MZ''"] by (auto simp: analyse_sample_def Let_def)
  show ?thesis
    unfolding upload_file_def Let_def using an lim detect_type_allowed[of "take HEAD_BYTES ''MZ''" "''a.exe''"]
    by (simp add: path clean_lab_def del: length_Cons)
qed

theorem reupload_is_answered_from_the_report_witness:
  "\<exists>rep lab rep' lab''. upload_file bench 0 ''t'' ''MZ'' ''a.exe'' clean_lab = (Inr rep, lab)
    \<and> upload_file bench 7 ''u'' ''MZ'' ''b.exe'' lab = (Inr rep', lab'') \<and> ul_cached rep'
    \<and> ml_reports lab'' = ml_reports lab \<and> ml_history lab'' = ml_history lab"
proof -
  obtain rep lab where "upload_file bench 0 ''t'' ''MZ'' ''a.exe'' clean_lab = (Inr rep, lab)" using bench_accepts by blast
  then show ?thesis using reupload_is_answered_from_the_report[where now' = 7 and tmp' = "''u''" and filename' = "''b.exe''"] by blast
qed

section \<open>Where the checks are weaker than they read\<close>

text \<open>A trailing line feed passes for a bare hexadecimal digest.\<close>

lemma newline_passes: "is_sha256 (replicate 64 (CHR ''a'') @ [CHR 0x0A])"
  by (simp add: is_sha256_def Let_def is_hex_char_def list_all_iff)

text \<open>An archive whose reader raises anything but a \<open>RuntimeError\<close> on a wrong password counts as a
  plain file: the report carries no note and nothing lifts its verdict.\<close>

lemma corrupt_password_check_reads_plain:
  assumes "mx_zip env data = Some ([(name, True)], \<lambda>_. Inl False)"
  shows "password_zip_status env data = Plain_file"
  using assms by (simp add: password_zip_status_def ARCHIVE_PASSWORDS_def Let_def)

text \<open>A sample whose analysis fails stays in the quarantine without a report.\<close>

lemma failed_analysis_leaves_the_sample:
  assumes "quarantine_path env (mx_sha env bytes) = Inr path" "length bytes \<le> mx_limit env" "bytes \<noteq> []"
    and "map_of (ml_reports lab) (mx_sha env bytes) = None"
    and "\<And>l. fst (run_pipeline env now bytes filename (mx_sha env bytes) l) = None"
  shows "map_of (ml_files (snd (upload_file env now tmp bytes filename lab))) path = Some bytes"
proof -
  let ?l = "lab\<lparr>ml_temps := remove1 tmp (ml_temps lab @ [tmp]), ml_files := AList.update path bytes (ml_files lab)\<rparr>"
  obtain lab' where run: "run_pipeline env now bytes filename (mx_sha env bytes) ?l = (None, lab')"
    using assms(5)[of ?l] by (metis prod.collapse)
  have "snd (upload_file env now tmp bytes filename lab) = lab'"
    unfolding upload_file_def Let_def
    using assms(1-4) detect_type_allowed[of "take HEAD_BYTES bytes" filename] run
    by (simp add: analyse_sample_def Let_def del: remove1_append)
  then show ?thesis using pipeline_result(2)[OF run] by (simp add: update_conv')
qed

end
