(* ===== verification/Case_File.thy ===== *)
theory Case_File
  imports Malware Incidents Credentials
begin

text \<open>
  The file of one incident: the reconstructed timeline
  (\<open>backend/app/services/timeline_builder.py\<close>) and the evidence endpoints
  (\<open>backend/app/api/v1/endpoints/evidence.py\<close>), which list, add, verify and hand out evidence.

  Arguments: the ISO printing of a time stamp, the Splunk search (its texts; \<open>None\<close> when it
  raises), the ids the database gives to evidence rows by their number, and those of theories
  \<open>Evidence\<close>, \<open>Accounts\<close> and \<open>Malware\<close>. A query without \<open>ORDER BY\<close> returns rows in table order.
\<close>

section \<open>The timeline\<close>

record timeline_entry =
  te_at :: "string option"
  te_source :: string
  te_type :: "string option"
  te_severity :: "string option"
  te_ip :: "string option"
  te_destination :: "string option"
  te_username :: "string option"
  te_ioc :: "string option"
  te_technique :: "string option"
  te_ref :: "string option"
  te_reason :: string

definition make_entry :: "string option \<Rightarrow> string \<Rightarrow> string option \<Rightarrow> string option \<Rightarrow> string \<Rightarrow> string option \<Rightarrow> timeline_entry" where
  "make_entry stamp source etype severity reason ref =
     \<lparr>te_at = stamp, te_source = source, te_type = etype, te_severity = severity, te_ip = None, te_destination = None,
      te_username = None, te_ioc = None, te_technique = None, te_ref = ref, te_reason = reason\<rparr>"

definition strip_colons :: "string \<Rightarrow> string" where
  "strip_colons s = rev (dropWhile (\<lambda>c. c = CHR '':'') (rev (dropWhile (\<lambda>c. c = CHR '':'') s)))"

text \<open>A missing port and port 0 are printed as nothing.\<close>

definition destination_of :: "event \<Rightarrow> string" where
  "destination_of e = strip_colons
     ((case e_destination_ip e of None \<Rightarrow> [] | Some ip \<Rightarrow> ip) @ '':''
      @ (case e_destination_port e of None \<Rightarrow> [] | Some p \<Rightarrow> if p = 0 then [] else str_of_int p))"

definition event_entry :: "(time \<Rightarrow> string) \<Rightarrow> (event \<Rightarrow> string) \<Rightarrow> event \<Rightarrow> timeline_entry" where
  "event_entry fmt reason e =
     (make_entry (Some (fmt (e_timestamp e))) ''honeypot'' (e_type e) (e_severity e) (reason e) (Some (e_id e)))
       \<lparr>te_ip := Some (e_source_ip e), te_destination := Some (destination_of e), te_username := e_username e\<rparr>"

definition incident_links :: "incident \<Rightarrow> soc_db \<Rightarrow> incident_event list" where
  "incident_links inc db = filter (\<lambda>l. ie_incident l = i_id inc) (incident_events db)"

text \<open>\<open>{le.event_id: le.correlation_reason}\<close>: the last link of an event counts.\<close>

definition link_reason :: "incident \<Rightarrow> soc_db \<Rightarrow> event \<Rightarrow> string" where
  "link_reason inc db e =
     (case map_of (rev (map (\<lambda>l. (ie_event l, ie_reason l)) (incident_links inc db))) (e_id e) of
        Some (c # cs) \<Rightarrow> c # cs | _ \<Rightarrow> ''linked to incident'')"

definition linked_rows :: "incident \<Rightarrow> soc_db \<Rightarrow> event list" where
  "linked_rows inc db = filter (\<lambda>e. e_id e \<in> set (map ie_event (incident_links inc db))) (events db)"

definition timeline_ips :: "incident \<Rightarrow> string list" where
  "timeline_ips inc = (if i_source_ips inc \<noteq> [] then i_source_ips inc
     else if i_correlation_key inc \<noteq> [] then [i_correlation_key inc] else [])"

text \<open>The window: five minutes around the first and the last event; none when one of them is unknown.\<close>

definition timeline_window :: "incident \<Rightarrow> (time \<times> time) option" where
  "timeline_window inc = (case (i_first_seen inc, i_last_seen inc) of
       (Some a, Some b) \<Rightarrow> if timeline_ips inc = [] then None else Some (a - minutes 5, b + minutes 5) | _ \<Rightarrow> None)"

definition window_rows :: "incident \<Rightarrow> soc_db \<Rightarrow> event list" where
  "window_rows inc db = (case timeline_window inc of None \<Rightarrow> []
     | Some (lo, hi) \<Rightarrow> take 400 (sort_key e_timestamp
         (filter (\<lambda>e. e_source_ip e \<in> set (timeline_ips inc) \<and> lo \<le> e_timestamp e \<and> e_timestamp e \<le> hi) (events db))))"

definition event_entries :: "(time \<Rightarrow> string) \<Rightarrow> incident \<Rightarrow> soc_db \<Rightarrow> timeline_entry list" where
  "event_entries fmt inc db =
     map (event_entry fmt (link_reason inc db)) (linked_rows inc db)
     @ map (event_entry fmt (\<lambda>e. ''same source IP '' @ e_source_ip e @ '' within the incident window''))
         (dedup_seen e_id (map e_id (linked_rows inc db)) (window_rows inc db))"

definition detection_entry :: "(time \<Rightarrow> string) \<Rightarrow> detection \<Rightarrow> timeline_entry" where
  "detection_entry fmt d =
     (make_entry (Some (fmt (d_last_event d))) ''detection'' (Some (d_rule_name d)) (Some (d_severity d))
       (if d_reason d = [] then ''rule '' @ d_rule_id d @ '' fired'' else d_reason d)
       (Some (''detection:'' @ str_of_nat (d_id d))))
       \<lparr>te_ip := d_source_ip d, te_username := d_username d, te_technique := d_technique d\<rparr>"

definition detection_entries :: "(time \<Rightarrow> string) \<Rightarrow> incident \<Rightarrow> soc_db \<Rightarrow> timeline_entry list" where
  "detection_entries fmt inc db = map (detection_entry fmt) (filter (\<lambda>d. d_incident d = Some (i_id inc)) (detections db))"

definition analysis_entry :: "incident_ioc \<Rightarrow> malware_report \<Rightarrow> string \<Rightarrow> string \<Rightarrow> string \<Rightarrow> string \<Rightarrow> timeline_entry" where
  "analysis_entry ioc r etype severity reason sect =
     (make_entry (Some (mr_at r)) ''malware-analysis'' (Some etype) (Some severity) reason
       (Some (''scans/'' @ ii_value ioc @ ''.json'' @ sect)))
       \<lparr>te_ioc := Some (ii_type ioc @ '':'' @ ii_value ioc)\<rparr>"

definition malware_entries :: "(string \<times> malware_report) list \<Rightarrow> incident_ioc \<Rightarrow> timeline_entry list" where
  "malware_entries store ioc =
     (case map_of store (ii_value ioc) of
        None \<Rightarrow> []
      | Some r \<Rightarrow> (let short = take 12 (ii_value ioc) @ ''...'' in
          [analysis_entry ioc r ''sample analysed'' (mr_risk r)
             (''hash '' @ short @ '' observed in this incident was analysed (family '' @ py_str (mr_family r)
              @ '', score '' @ str_of_int (mr_score r) @ '')'') []]
          @ (if av_infected (mr_clam r) = Some True
             then [analysis_entry ioc r ''ClamAV signature hit'' ''CRITICAL''
                     (''ClamAV flagged '' @ short @ '' as ''
                      @ (case av_signature (mr_clam r) of None \<Rightarrow> ''None'' | Some s \<Rightarrow> s)) ''#av''] else [])
          @ (if yr_count (mr_yara r) \<noteq> 0
             then [analysis_entry ioc r ''YARA match'' ''HIGH''
                     (''YARA rules matched '' @ short @ '': '' @ join_str '', '' (map ym_rule (take 5 (yr_matches (mr_yara r)))))
                     ''#yara''] else [])))"

definition hash_iocs :: "incident \<Rightarrow> soc_db \<Rightarrow> incident_ioc list" where
  "hash_iocs inc db = filter (\<lambda>i. ii_incident i = i_id inc \<and> ii_type i \<in> {''sha256'', ''md5'', ''sha1''}) (incident_iocs db)"

text \<open>Splunk is asked for the first three addresses, until it cannot be reached or raises.\<close>

record splunk_row =
  sr_time :: "string option"
  sr_sourcetype :: "string option"
  sr_source :: "string option"

definition splunk_query :: "string \<Rightarrow> string" where
  "splunk_query ip = ''search index=* '' @ ip @ '' earliest=-24h | sort - _time | head 20 ''
     @ ''| table _time host source sourcetype _raw''"

definition splunk_entry :: "string \<Rightarrow> splunk_row \<Rightarrow> timeline_entry" where
  "splunk_entry ip r =
     (make_entry (sr_time r) ''splunk''
       (Some (case sr_sourcetype r of None \<Rightarrow> ''event'' | Some t \<Rightarrow> if t = [] then ''event'' else t)) (Some ''INFO'')
       (''Splunk event mentioning '' @ ip @ '' within the incident window'') (sr_source r))\<lparr>te_ip := Some ip\<rparr>"

fun splunk_entries :: "(string \<Rightarrow> (bool \<times> splunk_row list) option) \<Rightarrow> string list \<Rightarrow> timeline_entry list" where
  "splunk_entries search [] = []"
| "splunk_entries search (ip # ips) =
     (case search (splunk_query ip) of
        None \<Rightarrow> []
      | Some (reachable, rows) \<Rightarrow> if \<not> reachable then [] else map (splunk_entry ip) rows @ splunk_entries search ips)"

definition sort_stamp :: "timeline_entry \<Rightarrow> string" where
  "sort_stamp e = (case te_at e of None \<Rightarrow> [] | Some t \<Rightarrow> t)"

definition build_timeline :: "(time \<Rightarrow> string) \<Rightarrow> (string \<Rightarrow> (bool \<times> splunk_row list) option) \<Rightarrow> (string \<times> malware_report) list
    \<Rightarrow> bool \<Rightarrow> incident \<Rightarrow> soc_db \<Rightarrow> timeline_entry list" where
  "build_timeline fmt search store include_splunk inc db = sort_key sort_stamp
     (event_entries fmt inc db @ detection_entries fmt inc db
      @ concat (map (malware_entries store) (hash_iocs inc db))
      @ (if include_splunk \<and> timeline_window inc \<noteq> None then splunk_entries search (take 3 (timeline_ips inc)) else []))"

section \<open>The evidence endpoints\<close>

record case_env =
  cf_ident :: identity_env
  cf_custody :: custody
  cf_lab :: lab_env
  cf_row_id :: "nat \<Rightarrow> string"

definition signed_in :: "case_env \<Rightarrow> time \<Rightarrow> caller \<Rightarrow> identity_db \<Rightarrow> http_error + user" where
  "signed_in env now who idb = (case who of (token, uid, code) \<Rightarrow>
     fst (get_current_active_user (cf_ident env) now uid code token idb))"

definition with_user :: "case_env \<Rightarrow> time \<Rightarrow> caller \<Rightarrow> identity_db \<Rightarrow> (user \<Rightarrow> http_error + 'a) \<Rightarrow> http_error + 'a" where
  "with_user env now who idb k = (case signed_in env now who idb of Inl e \<Rightarrow> Inl e | Inr u \<Rightarrow> k u)"

text \<open>The evidence row with an id, and its number in the table.\<close>

definition evidence_by_id :: "case_env \<Rightarrow> string \<Rightarrow> soc_db \<Rightarrow> evidence option" where
  "evidence_by_id env eid db = map_of (map (\<lambda>(n, r). (cf_row_id env n, r)) (enumerate 0 (evidence_rows db))) eid"

definition list_evidence :: "case_env \<Rightarrow> time \<Rightarrow> caller \<Rightarrow> identity_db \<Rightarrow> string \<Rightarrow> soc_db
    \<Rightarrow> http_error + (string \<times> nat \<times> evidence list)" where
  "list_evidence env now who idb ref db = with_user env now who idb (\<lambda>_.
     case incident_by_ref ref db of
       None \<Rightarrow> Inl (404, ''incident not found'')
     | Some inc \<Rightarrow> (let rows = filter (\<lambda>r. evd_incident r = i_id inc) (evidence_rows db) in Inr (i_key inc, length rows, rows)))"

definition ANALYST_EVIDENCE_TYPES :: "string list" where
  "ANALYST_EVIDENCE_TYPES = [''analyst_note'', ''attachment'', ''exported_log'', ''splunk_result'']"

definition MAX_ATTACHMENT_BYTES :: nat where
  "MAX_ATTACHMENT_BYTES = 25 * 1024 * 1024"

definition needs_text :: "string \<Rightarrow> string option \<Rightarrow> bool" where
  "needs_text etype text \<longleftrightarrow>
     etype \<in> {''analyst_note'', ''exported_log'', ''splunk_result''} \<and> (text = None \<or> text = Some [])"

text \<open>The file of the form: its name and its bytes. The handler returns the row, the file written
  and the database; a path that escapes the directory raises before anything is kept.\<close>

type_synonym added = "evidence \<times> (string \<times> string) option \<times> soc_db"

definition add_evidence :: "case_env \<Rightarrow> time \<Rightarrow> caller \<Rightarrow> identity_db \<Rightarrow> string \<Rightarrow> string \<Rightarrow> string \<Rightarrow> string option \<Rightarrow> string option
    \<Rightarrow> (string option \<times> string) option \<Rightarrow> soc_db \<Rightarrow> http_error + added" where
  "add_evidence env now who idb uuid ref etype text link file db = with_user env now who idb (\<lambda>u.
     case role_checker ANALYST_ROLES u of
       Inl e \<Rightarrow> Inl e
     | Inr _ \<Rightarrow>
       if etype \<notin> set ANALYST_EVIDENCE_TYPES
       then Inl (400, ''type must be one of '' @ py_roles ANALYST_EVIDENCE_TYPES)
       else case incident_by_ref ref db of
         None \<Rightarrow> Inl (404, ''incident not found'')
       | Some inc \<Rightarrow>
         if (case file of None \<Rightarrow> False | Some (_, bytes) \<Rightarrow> length bytes > MAX_ATTACHMENT_BYTES)
         then Inl (413, ''attachment too large'')
         else (let kind = (if file = None then etype else ''attachment'') in
           if needs_text kind text then Inl (400, ''text is required for this evidence type'')
           else (case add_analyst_evidence (cf_custody env) now uuid (i_id inc) kind ''analyst'' text link
                        (map_option snd file) (Option.bind file fst) (Some (u_email u)) db of
                   None \<Rightarrow> Inl (500, ''Internal Server Error'')
                 | Some added \<Rightarrow> Inr added)))"

definition get_evidence :: "case_env \<Rightarrow> time \<Rightarrow> caller \<Rightarrow> identity_db \<Rightarrow> string \<Rightarrow> soc_db \<Rightarrow> http_error + evidence" where
  "get_evidence env now who idb eid db = with_user env now who idb (\<lambda>_.
     case evidence_by_id env eid db of None \<Rightarrow> Inl (404, ''evidence not found'') | Some ev \<Rightarrow> Inr ev)"

record verification =
  vf_id :: string
  vf_stored :: "string option"
  vf_recomputed :: "string option"
  vf_verified :: bool
  vf_note :: "string option"

definition verify_item :: "case_env \<Rightarrow> time \<Rightarrow> caller \<Rightarrow> identity_db \<Rightarrow> string \<Rightarrow> soc_db \<Rightarrow> http_error + verification" where
  "verify_item env now who idb eid db = with_user env now who idb (\<lambda>_.
     case evidence_by_id env eid db of
       None \<Rightarrow> Inl (404, ''evidence not found'')
     | Some ev \<Rightarrow> (let h = recompute (cf_custody env) ev in Inr
         \<lparr>vf_id = eid, vf_stored = evd_content_hash ev, vf_recomputed = h, vf_verified = verified (cf_custody env) ev,
          vf_note = (if h = None then Some ''hash recomputation not supported for this evidence type'' else None)\<rparr>))"

text \<open>The sample, under a defanged name: for an administrator with clearance 3.\<close>

definition download_sample :: "case_env \<Rightarrow> time \<Rightarrow> caller \<Rightarrow> identity_db \<Rightarrow> malware_lab \<Rightarrow> string \<Rightarrow> soc_db
    \<Rightarrow> http_error + (string \<times> string)" where
  "download_sample env now who idb lab eid db = with_user env now who idb (\<lambda>u.
     case role_checker [''ADMIN''] u of
       Inl e \<Rightarrow> Inl e
     | Inr _ \<Rightarrow> case clearance_checker 3 u of
         Inl e \<Rightarrow> Inl e
       | Inr _ \<Rightarrow> case (case evidence_by_id env eid db of
                          Some ev \<Rightarrow> if evd_type ev = ''malware_sample'' then evd_sha256 ev else None | None \<Rightarrow> None) of
           Some (c # cs) \<Rightarrow> (case quarantine_path (cf_lab env) (c # cs) of
               Inl e \<Rightarrow> Inl e
             | Inr path \<Rightarrow> (case map_of (ml_files lab) path of
                   None \<Rightarrow> Inl (410, ''sample no longer in quarantine'')
                 | Some bytes \<Rightarrow> Inr ((c # cs) @ ''.bin'', bytes)))
         | _ \<Rightarrow> Inl (404, ''no downloadable sample for this evidence item''))"

section \<open>What the timeline holds\<close>

lemma make_entry_sel [simp]:
  "te_source (make_entry t s k v r x) = s" "te_ref (make_entry t s k v r x) = x" "te_at (make_entry t s k v r x) = t"
  "te_reason (make_entry t s k v r x) = r"
  by (simp_all add: make_entry_def)

lemma entry_sources [simp]:
  "te_source (event_entry fmt f e) = ''honeypot''" "te_source (detection_entry fmt d) = ''detection''"
  "te_source (analysis_entry i r a b c s) = ''malware-analysis''" "te_source (splunk_entry ip row) = ''splunk''"
  by (simp_all add: event_entry_def detection_entry_def analysis_entry_def splunk_entry_def)

lemma event_entry_ref [simp]: "te_ref (event_entry fmt f e) = Some (e_id e)"
  by (simp add: event_entry_def)

lemma event_entry_at [simp]: "te_at (event_entry fmt f e) = Some (fmt (e_timestamp e))"
  by (simp add: event_entry_def)

lemma malware_sources: "e \<in> set (malware_entries store i) \<Longrightarrow> te_source e = ''malware-analysis''"
  by (auto simp: malware_entries_def Let_def split: option.splits if_splits)

lemma splunk_sources: "e \<in> set (splunk_entries search ips) \<Longrightarrow> te_source e = ''splunk''"
  by (induction ips) (auto split: option.splits if_splits)

lemma filter_sort_key: "filter P (sort_key f xs) = sort_key f (filter P xs)"
  by (rule filter_sort)

lemma honeypot_part:
  "filter (\<lambda>e. te_source e = ''honeypot'') (build_timeline fmt search store sp inc db)
     = sort_key sort_stamp (event_entries fmt inc db)"
proof -
  have "filter (\<lambda>e. te_source e = ''honeypot'') (concat (map (malware_entries store) (hash_iocs inc db))) = []"
    by (auto simp: filter_empty_conv dest: malware_sources)
  moreover have "filter (\<lambda>e. te_source e = ''honeypot'') (splunk_entries search ips) = []" for ips
    by (auto simp: filter_empty_conv dest: splunk_sources)
  moreover have "filter (\<lambda>e. te_source e = ''honeypot'') (event_entries fmt inc db) = event_entries fmt inc db"
    by (rule filter_True) (auto simp: event_entries_def)
  moreover have "filter (\<lambda>e. te_source e = ''honeypot'') (detection_entries fmt inc db) = []"
    by (auto simp: filter_empty_conv detection_entries_def)
  ultimately show ?thesis by (simp add: build_timeline_def filter_sort)
qed

lemma event_refs:
  "map te_ref (event_entries fmt inc db) = map Some (map e_id (linked_rows inc db)
     @ map e_id (dedup_seen e_id (map e_id (linked_rows inc db)) (window_rows inc db)))"
  by (simp add: event_entries_def)

text \<open>C31. The timeline of an incident is in the order of its printed stamps and shows every event once:
  the events on it are exactly those linked to the incident and the first 400 of its addresses within
  five minutes of its first and last event. Every detection of the incident is on it too.\<close>

theorem timeline_is_complete:
  assumes "distinct (map e_id (events db))"
  shows "sorted (map sort_stamp (build_timeline fmt search store sp inc db))
    \<and> distinct (map te_ref (filter (\<lambda>e. te_source e = ''honeypot'') (build_timeline fmt search store sp inc db)))
    \<and> te_ref ` set (filter (\<lambda>e. te_source e = ''honeypot'') (build_timeline fmt search store sp inc db))
        = Some ` e_id ` (set (linked_rows inc db) \<union> set (window_rows inc db))
    \<and> detection_entry fmt ` {d \<in> set (detections db). d_incident d = Some (i_id inc)}
        \<subseteq> set (build_timeline fmt search store sp inc db)"
proof -
  have "distinct (map e_id (linked_rows inc db))"
    using assms by (simp add: linked_rows_def distinct_map_filter)
  then have d: "distinct (map te_ref (event_entries fmt inc db))"
    using distinct_dedup_seen[of e_id "map e_id (linked_rows inc db)" "window_rows inc db"]
      set_dedup_seen[of e_id "map e_id (linked_rows inc db)" "window_rows inc db"]
    unfolding event_refs distinct_map[of Some] by (auto simp: distinct_append)
  have "mset (map te_ref (sort_key sort_stamp (event_entries fmt inc db))) = mset (map te_ref (event_entries fmt inc db))"
    by simp
  with d have "distinct (map te_ref (sort_key sort_stamp (event_entries fmt inc db)))"
    by (metis mset_eq_imp_distinct_iff)
  moreover have "te_ref ` set (event_entries fmt inc db) = Some ` e_id ` (set (linked_rows inc db) \<union> set (window_rows inc db))"
  proof -
    have "te_ref ` set (event_entries fmt inc db) = set (map te_ref (event_entries fmt inc db))" by simp
    also have "\<dots> = Some ` (e_id ` set (linked_rows inc db) \<union> (e_id ` set (window_rows inc db) - e_id ` set (linked_rows inc db)))"
      unfolding event_refs by (simp only: set_map set_append set_dedup_seen)
    finally show ?thesis by (simp add: image_Un)
  qed
  ultimately show ?thesis
    unfolding honeypot_part by (auto simp: build_timeline_def detection_entries_def)
qed

text \<open>Splunk is asked for the last day whatever the window of the incident, and its entries still say
  that they are within it.\<close>

lemma splunk_reason_ignores_window:
  "search (splunk_query ip) = Some (True, [r]) \<Longrightarrow>
   map te_reason (splunk_entries search [ip]) = [''Splunk event mentioning '' @ ip @ '' within the incident window'']"
  by (simp add: splunk_entry_def)

text \<open>An IPv6 destination that begins with colons loses them.\<close>

lemma loopback_destination_cut:
  "e_destination_ip e = Some ''::1'' \<Longrightarrow> e_destination_port e = Some 22 \<Longrightarrow> destination_of e = ''1:22''"
  by (simp add: destination_of_def strip_colons_def, code_simp)

section \<open>Evidence\<close>

text \<open>The custody after the file of an addition has been written.\<close>

definition after_write :: "(string \<times> string) option \<Rightarrow> custody \<Rightarrow> custody" where
  "after_write written cu = (case written of None \<Rightarrow> cu
     | Some (path, bytes) \<Rightarrow> cu\<lparr>stored_files := (stored_files cu)(relpath cu path \<mapsto> bytes)\<rparr>)"

lemma with_user_Inr: "with_user env now who idb k = Inr r \<longleftrightarrow> (\<exists>u. signed_in env now who idb = Inr u \<and> k u = Inr r)"
  by (simp add: with_user_def split: sum.split)

lemma role_checked: "role_checker roles u = Inr v \<longleftrightarrow> v = u \<and> (has_role roles u \<or> u_role u = Some ''SUPER_ADMIN'')"
  by (auto simp: role_checker_def)

lemma clearance_checked: "clearance_checker n u = Inr v \<longleftrightarrow>
   v = u \<and> (\<exists>c. u_clearance u = Some c \<and> (n \<le> c \<or> u_role u = Some ''SUPER_ADMIN''))"
  by (auto simp: clearance_checker_def split: option.splits)

lemma added_row:
  assumes "add_analyst_evidence cu now uuid inc etype source text ref bytes filename by db = Some (ev, written, db')"
  shows "evidence_rows db' = evidence_rows db @ [ev]" "evd_incident ev = inc" "evd_added_by ev = by" "evd_type ev = etype"
    "evd_acquired_at ev = now"
  using assms by (auto simp: add_analyst_evidence_def Let_def log_activity_def split: option.splits if_splits)

lemma file_added:
  assumes "add_analyst_evidence cu now uuid inc etype source text ref (Some b) filename by db = Some (ev, written, db')"
  shows "\<exists>disk. written = Some (disk, b) \<and> evd_ref ev = Some (relpath cu disk) \<and> evd_content_hash ev = Some (sha256 cu b)
    \<and> evd_type ev = etype"
  using assms by (auto simp: add_analyst_evidence_def Let_def hash_bytes_def split: if_splits)

lemma text_added:
  assumes "add_analyst_evidence cu now uuid inc etype source (Some t) ref None filename by db = Some (ev, written, db')"
  shows "written = None \<and> evd_metadata ev = [(''text'', JStr (take 8000 t))] \<and> evd_content_hash ev = Some (sha256 cu (utf8 t))
    \<and> evd_type ev = etype"
  using assms by (auto simp: add_analyst_evidence_def Let_def hash_bytes_def)

lemma added_verifies:
  assumes "add_analyst_evidence cu now uuid inc etype source text ref bytes filename by db = Some (ev, written, db')"
    and "(bytes \<noteq> None \<and> etype = ''attachment'') \<or> (bytes = None \<and> etype \<noteq> ''attachment'' \<and> (\<exists>t. text = Some t \<and> length t \<le> 8000))"
  shows "verified (after_write written cu) ev"
proof (cases bytes)
  case (Some b)
  with assms(2) have e: "etype = ''attachment''" by simp
  from file_added[OF assms(1)[unfolded Some]] obtain disk where
    "written = Some (disk, b)" "evd_ref ev = Some (relpath cu disk)" "evd_content_hash ev = Some (sha256 cu b)" "evd_type ev = etype" by blast
  with e show ?thesis by (simp add: verified_def recompute_def after_write_def hash_bytes_def)
next
  case None
  with assms(2) obtain t where t: "text = Some t" "length t \<le> 8000" "etype \<noteq> ''attachment''" by auto
  from text_added[OF assms(1)[unfolded None t(1)]] t show ?thesis
    by (simp add: verified_def recompute_def after_write_def hash_bytes_def has_key_def dict_get_def)
qed

text \<open>What the endpoint adds it can verify: a file, and a text of at most 8,000 characters, is the last
  row of the table, in the incident that was named and under the name of the signed-in analyst, and its
  hash recomputes as long as the written file stays as it is.\<close>

theorem added_evidence_verifies:
  assumes "add_evidence env now who idb uuid ref etype text link file db = Inr (ev, written, db')"
    and "file \<noteq> None \<or> (etype \<noteq> ''attachment'' \<and> (\<exists>t. text = Some t \<and> length t \<le> 8000))"
  shows "verified (after_write written (cf_custody env)) ev
    \<and> evidence_rows db' = evidence_rows db @ [ev]
    \<and> (\<exists>u inc. signed_in env now who idb = Inr u \<and> (has_role ANALYST_ROLES u \<or> u_role u = Some ''SUPER_ADMIN'')
         \<and> incident_by_ref ref db = Some inc \<and> evd_incident ev = i_id inc \<and> evd_added_by ev = Some (u_email u))"
proof -
  obtain u inc where u: "signed_in env now who idb = Inr u" "has_role ANALYST_ROLES u \<or> u_role u = Some ''SUPER_ADMIN''"
      "incident_by_ref ref db = Some inc"
    and added: "add_analyst_evidence (cf_custody env) now uuid (i_id inc) (if file = None then etype else ''attachment'') ''analyst''
      text link (map_option snd file) (Option.bind file fst) (Some (u_email u)) db = Some (ev, written, db')"
    using assms(1) unfolding add_evidence_def with_user_Inr
    by (fastforce simp: role_checked Let_def split: sum.splits if_splits option.splits)
  have "verified (after_write written (cf_custody env)) ev"
    by (rule added_verifies[OF added]) (use assms(2) in auto)
  then show ?thesis using added_row[OF added] u by blast
qed

text \<open>An attachment without a file keeps the reference the client sends, and its verification reads the
  file of that name wherever it is.\<close>

lemma attachment_reference_is_read:
  assumes "add_evidence env now who idb uuid ref ''attachment'' text (Some path) None db = Inr (ev, written, db')"
    and "stored_files (cf_custody env) path = Some bytes"
  shows "recompute (cf_custody env) ev = Some (sha256 (cf_custody env) bytes)"
proof -
  have "evd_ref ev = Some path" "evd_type ev = ''attachment''"
    using assms(1) unfolding add_evidence_def with_user_Inr
    by (fastforce simp: Let_def add_analyst_evidence_def split: sum.splits if_splits option.splits)+
  with assms(2) show ?thesis by (simp add: recompute_def hash_bytes_def)
qed

lemma signed_in_active: "signed_in env now who idb = Inr u \<Longrightarrow> u_status u = Some ''ACTIVE''"
  by (auto simp: signed_in_def get_current_active_user_def split: prod.splits sum.splits if_splits)

lemma quarantine_path_inside: "quarantine_path env sha = Inr path \<Longrightarrow> path_inside path (mx_dir env)"
  by (simp add: quarantine_path_def Let_def split: if_splits)

lemma quarantined_under_own_hash:
  "map_of (ml_files (foldl (malware_step env) clean_lab rqs)) path = Some bytes \<Longrightarrow> quarantine_path env (mx_sha env bytes) = Inr path"
proof -
  have "lab_ok env (foldl (malware_step env) clean_lab rqs)"
    by (rule malware_uploads.run_inv) (simp add: lab_ok_def clean_lab_def)
  then show "map_of (ml_files (foldl (malware_step env) clean_lab rqs)) path = Some bytes \<Longrightarrow> ?thesis"
    by (auto simp: lab_ok_def list_all_iff dest: map_of_SomeD)
qed

lemma downloaded:
  assumes "download_sample env now who idb lab eid db = Inr (name, bytes)"
  shows "\<exists>u c ev sha path. signed_in env now who idb = Inr u
    \<and> (has_role [''ADMIN''] u \<or> u_role u = Some ''SUPER_ADMIN'')
    \<and> u_clearance u = Some c \<and> (3 \<le> c \<or> u_role u = Some ''SUPER_ADMIN'')
    \<and> evidence_by_id env eid db = Some ev \<and> evd_type ev = ''malware_sample'' \<and> evd_sha256 ev = Some sha
    \<and> name = sha @ ''.bin'' \<and> quarantine_path (cf_lab env) sha = Inr path \<and> map_of (ml_files lab) path = Some bytes"
  using assms unfolding download_sample_def with_user_Inr
  by (fastforce simp: role_checked clearance_checked split: sum.splits option.splits list.splits if_splits)


section \<open>Witnesses\<close>

text \<open>An analyst notes something on an incident that has one linked event and one of the same address.\<close>

definition case_event :: "string \<Rightarrow> time \<Rightarrow> event" where
  "case_event eid t = \<lparr>e_id = eid, e_timestamp = t, e_ingested_at = None, e_sensor = ''cowrie'', e_type = None,
     e_source_ip = ''10.0.0.9'', e_source_port = None, e_destination_ip = None, e_destination_port = Some 22, e_protocol = None,
     e_username = None, e_password = None, e_auth_result = None, e_command = None, e_payload = None, e_session_id = None,
     e_severity = None, e_raw = None, e_metadata = JNull\<rparr>"

definition case_incident :: incident where
  "case_incident = \<lparr>i_id = ''i1'', i_key = ''INC-000001'', i_correlation_key = ''10.0.0.9'', i_title = ''t'', i_severity = ''LOW'',
     i_status = ''NEW'', i_confidence = 0, i_risk_score = 0, i_breakdown = None, i_first_seen = Some 5, i_last_seen = Some 9,
     i_source_ips = [''10.0.0.9''], i_users = [], i_sensors = [], i_techniques = [], i_reasons = [], i_assigned = None,
     i_notes = None, i_auto_created = False, i_updated_at = 9\<rparr>"

definition case_db :: soc_db where
  "case_db = empty_db\<lparr>incidents := [case_incident], events := [case_event ''a'' 5, case_event ''b'' 9],
     incident_events := [\<lparr>ie_incident = ''i1'', ie_event = ''b'', ie_source = ''cowrie'', ie_reason = []\<rparr>]\<rparr>"

theorem timeline_is_complete_witness:
  "distinct (map te_ref (filter (\<lambda>e. te_source e = ''honeypot'')
     (build_timeline str_of_int (\<lambda>_. None) [] True case_incident case_db)))
   \<and> linked_rows case_incident case_db = [case_event ''b'' 9]"
proof -
  have "distinct (map e_id (events case_db))" by (simp add: case_db_def case_event_def)
  moreover have "linked_rows case_incident case_db = [case_event ''b'' 9]"
    by (simp add: linked_rows_def incident_links_def case_db_def case_incident_def case_event_def)
  ultimately show ?thesis using timeline_is_complete by blast
qed

definition demo_case :: case_env where
  "demo_case = \<lparr>cf_ident = demo_identity, cf_custody = demo_custody, cf_lab = bench, cf_row_id = str_of_nat\<rparr>"

theorem added_evidence_verifies_witness:
  "\<exists>ev written db'. add_evidence demo_case 7 (''boss'', [], []) demo_identities ''u'' ''INC-000001'' ''analyst_note''
       (Some ''seen'') None None case_db = Inr (ev, written, db')
     \<and> verified (after_write written demo_custody) ev"
proof -
  have user: "signed_in demo_case 7 (''boss'', [], []) demo_identities = Inr (demo_user ''boss'' ''SUPER_ADMIN'' ''ACTIVE'')"
    by code_simp
  have inc: "incident_by_ref ''INC-000001'' case_db = Some case_incident"
    by (simp add: incident_by_ref_def case_db_def case_incident_def)
  have role: "role_checker ANALYST_ROLES (demo_user ''boss'' ''SUPER_ADMIN'' ''ACTIVE'') = Inr (demo_user ''boss'' ''SUPER_ADMIN'' ''ACTIVE'')"
    by (simp add: role_checker_def demo_user_def)
  have kind: "''analyst_note'' \<in> set ANALYST_EVIDENCE_TYPES" "\<not> needs_text ''analyst_note'' (Some ''seen'')"
    by (simp_all add: ANALYST_EVIDENCE_TYPES_def needs_text_def)
  obtain ev written db' where run: "add_evidence demo_case 7 (''boss'', [], []) demo_identities ''u'' ''INC-000001'' ''analyst_note''
       (Some ''seen'') None None case_db = Inr (ev, written, db')"
    using note_added[where cu = "cf_custody demo_case" and now = 7 and uuid = "''u''" and inc = "i_id case_incident"
        and etype = "''analyst_note''" and source = "''analyst''" and t = "''seen''" and filename = None and db = case_db
        and added_by = "Some (u_email (demo_user ''boss'' ''SUPER_ADMIN'' ''ACTIVE''))"]
    by (auto simp: add_evidence_def with_user_def user inc role kind)
  have "cf_custody demo_case = demo_custody" by (simp add: demo_case_def)
  then show ?thesis using added_evidence_verifies[OF run] run by simp
qed

end
