(* ===== verification/Url_Scan.thy ===== *)
theory Url_Scan
  imports Scanners Accounts
begin

text \<open>
  The URL scanner (\<open>backend/app/services/url_scan_service.py\<close>) and its endpoint
  (\<open>backend/app/api/v1/endpoints/url_scan.py\<close>): structural checks, look-ups, a score and a verdict.

  Arguments: the entropy of a host name (a logarithm), the DNS, TLS, HTTP and WHOIS look-ups, and
  whether a bracketed host is an IPv6 address. \<open>urllib.parse.urlparse\<close> is modelled for URLs with
  an authority. The location of the address and the time of the scan are left out of the report.
\<close>

section \<open>Parsing\<close>

record parsed_url =
  pu_scheme :: string
  pu_netloc :: string
  pu_path :: string
  pu_query :: string

definition scheme_letter :: "char \<Rightarrow> bool" where
  "scheme_letter c \<longleftrightarrow> (CHR ''a'' \<le> c \<and> c \<le> CHR ''z'') \<or> (CHR ''A'' \<le> c \<and> c \<le> CHR ''Z'')"

definition is_scheme :: "string \<Rightarrow> bool" where
  "is_scheme s \<longleftrightarrow> s \<noteq> [] \<and> scheme_letter (hd s) \<and> list_all (\<lambda>c. scheme_letter c \<or> is_digit c \<or> c \<in> set ''+-.'') s"

definition text_before :: "char \<Rightarrow> string \<Rightarrow> string" where
  "text_before d s = takeWhile (\<lambda>c. c \<noteq> d) s"

text \<open>The text after the last occurrence of a character, and the text up to it.\<close>

definition after_last :: "char \<Rightarrow> string \<Rightarrow> string" where
  "after_last d s = rev (takeWhile (\<lambda>c. c \<noteq> d) (rev s))"

definition through_last :: "char \<Rightarrow> string \<Rightarrow> string" where
  "through_last d s = rev (dropWhile (\<lambda>c. c \<noteq> d) (rev s))"

text \<open>\<open>None\<close> is the \<open>ValueError\<close> of unbalanced brackets or a bad address in them.\<close>

definition urlparse :: "(string \<Rightarrow> bool) \<Rightarrow> string \<Rightarrow> parsed_url option" where
  "urlparse v6 url =
     (let u = filter (\<lambda>c. c \<notin> {CHR 0x09, CHR 0x0A, CHR 0x0D}) url;
          (scheme, rest) = (case partition_on (CHR '':'') u of
             (s, Some r) \<Rightarrow> if is_scheme s then (lower s, r) else ([], u) | _ \<Rightarrow> ([], u));
          (netloc, rest) = (if starts_with ''//'' rest
             then (takeWhile (\<lambda>c. c \<notin> set ''/?#'') (drop 2 rest), dropWhile (\<lambda>c. c \<notin> set ''/?#'') (drop 2 rest))
             else ([], rest));
          opened = CHR 0x5B \<in> set netloc; closed = CHR 0x5D \<in> set netloc;
          rest = text_before (CHR ''#'') rest;
          (path, query) = (case partition_on (CHR ''?'') rest of (p, None) \<Rightarrow> (p, []) | (p, Some q) \<Rightarrow> (p, q));
          path = through_last (CHR ''/'') path @ text_before (CHR '';'') (after_last (CHR ''/'') path)
      in if opened \<noteq> closed \<or> (opened \<and> \<not> v6 netloc) then None
         else Some \<lparr>pu_scheme = scheme, pu_netloc = netloc, pu_path = path, pu_query = query\<rparr>)"

text \<open>\<open>.hostname or ""\<close>: without user info and port, in lower case up to a zone.\<close>

definition hostname_of :: "parsed_url \<Rightarrow> string" where
  "hostname_of u =
     (let info = after_last (CHR ''@'') (pu_netloc u);
          name = (case partition_on (CHR 0x5B) info of
                    (_, Some b) \<Rightarrow> text_before (CHR 0x5D) b | (_, None) \<Rightarrow> text_before (CHR '':'') info)
      in lower (text_before (CHR ''%'') name) @ dropWhile (\<lambda>c. c \<noteq> CHR ''%'') name)"

section \<open>Tables\<close>

definition WHITELIST :: "string list" where
  "WHITELIST = [''google.com'', ''github.com'', ''microsoft.com'', ''apple.com'', ''amazon.com'', ''cloudflare.com'',
     ''fastly.com'', ''akamai.com'', ''cdn.jsdelivr.net'', ''stackoverflow.com'', ''wikipedia.org'', ''mozilla.org'',
     ''python.org'', ''npmjs.com'', ''pypi.org'', ''reddit.com'', ''twitter.com'', ''youtube.com'']"

definition PHISHING_KEYWORDS :: "(string \<times> int \<times> string) list" where
  "PHISHING_KEYWORDS =
    [(''login'', 12, ''Phishing keyword: login''), (''signin'', 12, ''Phishing keyword: sign-in''),
     (''verify'', 15, ''Phishing keyword: verify''), (''verification'', 15, ''Phishing keyword: verification''),
     (''account'', 10, ''Phishing keyword: account''), (''update'', 10, ''Phishing keyword: update''),
     (''secure'', 12, ''Phishing keyword: secure''), (''banking'', 20, ''Phishing keyword: banking''),
     (''paypal'', 25, ''Brand impersonation: PayPal''), (''apple'', 18, ''Brand impersonation: Apple''),
     (''amazon'', 18, ''Brand impersonation: Amazon''), (''microsoft'', 18, ''Brand impersonation: Microsoft''),
     (''gmail'', 18, ''Brand impersonation: Gmail''), (''netflix'', 18, ''Brand impersonation: Netflix''),
     (''crypto'', 20, ''High-risk keyword: crypto''), (''wallet'', 18, ''High-risk keyword: wallet''),
     (''password'', 20, ''High-risk keyword: password''), (''admin'', 15, ''High-risk keyword: admin panel''),
     (''confirm'', 12, ''Phishing keyword: confirm''), (''recover'', 12, ''Phishing keyword: recover''),
     (''reward'', 15, ''Phishing keyword: reward''), (''prize'', 20, ''Phishing keyword: prize''),
     (''urgent'', 18, ''Social engineering: urgent''), (''click-here'', 15, ''Social engineering: click-here'')]"

definition SUSPICIOUS_TLDS :: "string list" where
  "SUSPICIOUS_TLDS = [''.tk'', ''.ml'', ''.ga'', ''.cf'', ''.gq'', ''.xyz'', ''.top'', ''.cc'', ''.pw'', ''.icu'',
     ''.onion'', ''.i2p'', ''.su'', ''.zip'', ''.mov'']"

definition PATH_INDICATORS :: "string list" where
  "PATH_INDICATORS = [''/wp-login'', ''/admin'', ''/.env'', ''/.git'', ''passwd'', ''cmd='', ''exec('', ''/shell'']"

section \<open>Checks\<close>

record scan_state =
  us_score :: int
  us_findings :: "string list"
  us_categories :: "string list"

definition tick :: "bool \<Rightarrow> int \<Rightarrow> string \<Rightarrow> string option \<Rightarrow> scan_state \<Rightarrow> scan_state" where
  "tick b pts what category s = (if \<not> b then s else
     s\<lparr>us_score := us_score s + pts, us_findings := us_findings s @ [what],
       us_categories := us_categories s @ (case category of None \<Rightarrow> [] | Some c \<Rightarrow> [c])\<rparr>)"

definition is_ipv4_like :: "string \<Rightarrow> bool" where
  "is_ipv4_like h = (let ps = split_on (CHR ''.'') h in
     length ps = 4 \<and> list_all (\<lambda>p. p \<noteq> [] \<and> length p \<le> 3 \<and> list_all is_digit p) ps)"

definition strip_www :: "string \<Rightarrow> string" where
  "strip_www h = (if starts_with ''www.'' h then drop 4 h else h)"

definition tld_of :: "string \<Rightarrow> string" where
  "tld_of h = (if CHR ''.'' \<in> set h then CHR ''.'' # after_last (CHR ''.'') h else [])"

definition is_whitelisted :: "string \<Rightarrow> bool" where
  "is_whitelisted h \<longleftrightarrow> list_ex (\<lambda>d. ends_with d h) WHITELIST"

definition count_char :: "char \<Rightarrow> string \<Rightarrow> nat" where
  "count_char c s = length (filter (\<lambda>x. x = c) s)"

text \<open>\<open>str.isdigit\<close> also accepts the superscripts one, two and three.\<close>

definition is_digit_like :: "char \<Rightarrow> bool" where
  "is_digit_like c \<longleftrightarrow> is_digit c \<or> c \<in> {CHR 0xB2, CHR 0xB3, CHR 0xB9}"

definition digit_ratio :: "string \<Rightarrow> rat" where
  "digit_ratio d = of_nat (length (filter is_digit_like d)) / of_nat (max 1 (length d))"

definition has_user_info :: "string \<Rightarrow> bool" where
  "has_user_info url \<longleftrightarrow> CHR ''@'' \<in> set url"

definition is_punycode :: "string \<Rightarrow> bool" where
  "is_punycode h = contains_str ''xn--'' h"

text \<open>Checks 2 to 7 of \<open>analyze\<close>.\<close>

definition address_checks :: "string \<Rightarrow> parsed_url \<Rightarrow> scan_state \<Rightarrow> scan_state" where
  "address_checks url u s =
     (let h = hostname_of u; dots = count_char (CHR ''.'') h;
          s = tick (pu_scheme u = ''http'') 15 ''Unencrypted HTTP - no TLS/SSL'' None s;
          s = tick (tld_of h \<in> set SUSPICIOUS_TLDS) 25 (''High-risk TLD: '' @ tld_of h) (Some ''Suspicious TLD'') s;
          s = tick (has_user_info url) 35 ''User-info in URL (@ symbol) - credential phishing pattern'' (Some ''Credential Trick'') s;
          s = tick (is_ipv4_like h) 30 ''Bare IP address as host - malware hosting pattern'' (Some ''IP Host'') s;
          s = tick (dots > 4) 20 (''Excessive subdomain depth: '' @ str_of_nat dots @ '' levels'') (Some ''Subdomain Abuse'') s
      in tick (length url > 75) 10 (''Unusually long URL ('' @ str_of_nat (length url) @ '' chars)'') None s)"

text \<open>Check 8.\<close>

definition keyword_checks :: "string \<Rightarrow> string \<Rightarrow> scan_state \<Rightarrow> scan_state" where
  "keyword_checks url h s =
     fold (\<lambda>(kw, pts, what). tick (contains_str kw (lower url) \<and> \<not> is_whitelisted h) pts what None) PHISHING_KEYWORDS s"

text \<open>Checks 9 to 14; the printed entropy is an argument as well.\<close>

definition name_checks :: "(string \<Rightarrow> rat) \<Rightarrow> (rat \<Rightarrow> string) \<Rightarrow> parsed_url \<Rightarrow> scan_state \<Rightarrow> scan_state" where
  "name_checks entropy shown u s =
     (let h = hostname_of u; d = strip_www h;
          s = tick (entropy d > 38 / 10) 15 (''High domain entropy ('' @ shown (entropy d) @ '') - possible DGA domain'') (Some ''DGA Domain'') s;
          s = tick (is_punycode h) 30 ''Punycode/IDN domain detected - potential homograph attack'' (Some ''Homograph Attack'') s;
          s = tick (digit_ratio d > 4 / 10) 12 (''High digit ratio in domain ('' @ str_of_int (round_half_even (100 * digit_ratio d))
                @ ''%) - spam pattern'') None s;
          s = tick (count_char (CHR ''-'') d \<ge> 3) 10 ''Multiple hyphens in domain - common phishing indicator'' None s;
          s = fold (\<lambda>p. tick (contains_str p (lower (pu_path u))) 20 (''Suspicious path indicator: '' @ p) (Some ''Suspicious Path''))
                PATH_INDICATORS s
      in tick (length (pu_query u) > 200) 10 ''Very long query string'' None s)"

section \<open>Look-ups\<close>

record whois_record =
  wh_age :: int
  wh_created :: string

record url_env =
  ue_v6 :: "string \<Rightarrow> bool"
  ue_entropy :: "string \<Rightarrow> rat"
  ue_shown :: "rat \<Rightarrow> string"
  ue_dns :: "string \<Rightarrow> string list \<times> string option"
  ue_tls :: "string \<Rightarrow> string option option" \<comment> \<open>\<open>None\<close>: not valid; otherwise the issuer\<close>
  ue_probe :: "string \<Rightarrow> int option \<times> string"
  ue_whois :: "string \<Rightarrow> string + whois_record"

definition look_up_dns :: "url_env \<Rightarrow> string \<Rightarrow> string list \<times> string option" where
  "look_up_dns env h = (if h = [] then ([], Some ''No hostname'') else ue_dns env h)"

definition look_up_tls :: "url_env \<Rightarrow> parsed_url \<Rightarrow> string option option" where
  "look_up_tls env u = (if hostname_of u \<noteq> [] \<and> pu_scheme u = ''https'' then ue_tls env (hostname_of u) else None)"

text \<open>\<open>None\<close> when the final URL of the probe cannot be parsed.\<close>

definition redirect_check :: "url_env \<Rightarrow> string \<Rightarrow> string \<Rightarrow> string \<Rightarrow> scan_state \<Rightarrow> scan_state option" where
  "redirect_check env url h final s =
     (if final = [] \<or> final = url then Some s
      else map_option (\<lambda>u. tick (hostname_of u \<noteq> [] \<and> hostname_of u \<noteq> h) 15
             (''Redirects to different domain: '' @ hostname_of u) (Some ''Hidden Redirect'') s) (urlparse (ue_v6 env) final))"

definition dns_failed :: "string option \<Rightarrow> bool" where
  "dns_failed err = (case err of None \<Rightarrow> False | Some e \<Rightarrow> e \<noteq> [])"

definition network_checks :: "url_env \<Rightarrow> string \<Rightarrow> parsed_url \<Rightarrow> scan_state \<Rightarrow> scan_state option" where
  "network_checks env url u s =
     (let h = hostname_of u; tls = look_up_tls env u; (st, final) = ue_probe env url;
          starts_digit = (case h of [] \<Rightarrow> False | c # _ \<Rightarrow> is_digit c);
          s = tick (dns_failed (snd (look_up_dns env h)) \<and> \<not> starts_digit) 10
                ''DNS resolution failed - domain may not exist or is blocked'' None s;
          s = tick (tls = None \<and> pu_scheme u = ''https'') 20 ''Invalid or missing SSL certificate'' (Some ''SSL Issue'') s;
          s = (case tls of Some (Some (c # cs)) \<Rightarrow> tick True 0 (''SSL issued by: '' @ c # cs) None s | _ \<Rightarrow> s);
          s = tick (case st of None \<Rightarrow> False | Some n \<Rightarrow> n \<ge> 400) 5
                (''HTTP error response: '' @ (case st of None \<Rightarrow> [] | Some n \<Rightarrow> str_of_int n)) None s
      in redirect_check env url h final s)"

definition look_up_whois :: "url_env \<Rightarrow> string \<Rightarrow> string + whois_record" where
  "look_up_whois env h = (if h = [] then Inl ''no hostname'' else ue_whois env h)"

definition age_check :: "string + whois_record \<Rightarrow> scan_state \<Rightarrow> scan_state" where
  "age_check w s = (case w of Inl _ \<Rightarrow> s
     | Inr r \<Rightarrow> if wh_age r < 30
         then tick True 25 (''Very new domain: registered '' @ str_of_int (wh_age r) @ '' days ago'') (Some ''New Domain'') s
         else tick (wh_age r < 180) 10 (''Recently registered domain: '' @ str_of_int (wh_age r) @ '' days old'') None s)"

definition age_text :: "string + whois_record \<Rightarrow> string" where
  "age_text w = (case w of Inl reason \<Rightarrow> ''unknown ('' @ reason @ '')''
     | Inr r \<Rightarrow> str_of_int (wh_age r) @ '' days (registered '' @ take 10 (wh_created r) @ '')'')"

section \<open>The report\<close>

record url_report =
  rp_url :: string
  rp_domain :: string
  rp_path :: string
  rp_score :: int
  rp_level :: string
  rp_category :: string
  rp_findings :: "string list"
  rp_age :: string
  rp_ip :: string
  rp_categories :: "string list"
  rp_whitelisted :: bool

definition url_level :: "int \<Rightarrow> string" where
  "url_level score = (let r = ''SAFE''; r = (if score \<ge> 30 then ''SUSPICIOUS'' else r)
     in if score \<ge> 65 then ''MALICIOUS'' else r)"

definition final_score :: "bool \<Rightarrow> int \<Rightarrow> int" where
  "final_score white score = min 100 (if white then max 0 (score - 60) else score)"

definition url_categories :: "int \<Rightarrow> string list \<Rightarrow> string list" where
  "url_categories score cs = (if cs \<noteq> [] then cs
     else if score > 50 then [''Phishing'', ''Credential Theft'']
     else if score > 20 then [''Suspicious Domain''] else [''Clean''])"

definition full_url :: "string \<Rightarrow> string" where
  "full_url url = (let u = strip url in
     if starts_with ''http://'' u \<or> starts_with ''https://'' u then u else ''https://'' @ u)"

definition all_checks :: "url_env \<Rightarrow> string \<Rightarrow> parsed_url \<Rightarrow> scan_state option" where
  "all_checks env url u =
     (let h = hostname_of u;
          s = address_checks url u \<lparr>us_score = 0, us_findings = [], us_categories = []\<rparr>;
          s = name_checks (ue_entropy env) (ue_shown env) u (keyword_checks url h s)
      in map_option (age_check (look_up_whois env h)) (network_checks env url u s))"

definition report_of :: "url_env \<Rightarrow> string \<Rightarrow> parsed_url \<Rightarrow> scan_state \<Rightarrow> url_report" where
  "report_of env url u s =
     (let h = hostname_of u; white = is_whitelisted h; score = final_score white (us_score s);
          cs = url_categories score (us_categories s)
      in \<lparr>rp_url = url, rp_domain = h, rp_path = pu_path u, rp_score = score, rp_level = url_level score,
          rp_category = join_str '' / '' (take 3 cs),
          rp_findings = take 20 (if white then map (\<lambda>f. ''[Trusted domain] '' @ f) (us_findings s) else us_findings s),
          rp_age = age_text (look_up_whois env h),
          rp_ip = (case fst (look_up_dns env h) of [] \<Rightarrow> ''N/A'' | a # _ \<Rightarrow> a),
          rp_categories = cs, rp_whitelisted = white\<rparr>)"

definition analyze_url :: "url_env \<Rightarrow> string \<Rightarrow> url_report option" where
  "analyze_url env input =
     (let url = full_url input in
      Option.bind (urlparse (ue_v6 env) url) (\<lambda>u. map_option (report_of env url u) (all_checks env url u)))"

definition scan_url :: "url_env \<Rightarrow> string \<Rightarrow> http_error + url_report" where
  "scan_url env url =
     (if url = [] then Inl (400, ''URL is required'')
      else (case analyze_url env url of None \<Rightarrow> Inl (500, ''Invalid IPv6 URL'') | Some r \<Rightarrow> Inr r))"

section \<open>What a scan promises\<close>

lemma tick_score: "0 \<le> pts \<Longrightarrow> us_score s \<le> us_score (tick b pts w c s)"
  by (simp add: tick_def)

lemma fold_tick_score:
  "list_all (\<lambda>x. 0 \<le> p x) xs \<Longrightarrow> us_score s \<le> us_score (fold (\<lambda>x. tick (b x) (p x) (w x) (c x)) xs s)"
proof (induction xs arbitrary: s)
  case (Cons x xs)
  then have "us_score s \<le> us_score (tick (b x) (p x) (w x) (c x) s)" by (simp add: tick_score)
  also have "\<dots> \<le> us_score (fold (\<lambda>x. tick (b x) (p x) (w x) (c x)) xs (tick (b x) (p x) (w x) (c x) s))"
    using Cons by simp
  finally show ?case by simp
qed simp

lemma keyword_score: "us_score s \<le> us_score (keyword_checks url h s)"
  using fold_tick_score[where p = "\<lambda>x. fst (snd x)" and b = "\<lambda>x. contains_str (fst x) (lower url) \<and> \<not> is_whitelisted h"
      and w = "\<lambda>x. snd (snd x)" and c = "\<lambda>_. None" and xs = PHISHING_KEYWORDS and s = s]
  by (simp add: keyword_checks_def split_beta PHISHING_KEYWORDS_def)

lemma age_score: "us_score s \<le> us_score (age_check w s)"
  by (auto simp: age_check_def tick_def split: sum.split)

lemma redirect_score: "redirect_check env url h final s = Some s' \<Longrightarrow> us_score s \<le> us_score s'"
  by (auto simp: redirect_check_def tick_score split: if_splits)

lemma issuer_score:
  "us_score s \<le> us_score (case tls of Some (Some (c # cs)) \<Rightarrow> tick True 0 (w c cs) None s | _ \<Rightarrow> s)"
  by (simp add: tick_score split: option.split list.split)

lemma network_score: "network_checks env url u s = Some s' \<Longrightarrow> us_score s \<le> us_score s'"
  unfolding network_checks_def Let_def
  by (cases "ue_probe env url", simp only: prod.case, drule redirect_score, erule order_trans[rotated],
      rule order_trans[OF _ tick_score], rule order_trans[OF _ issuer_score], rule order_trans[OF _ tick_score],
      rule tick_score) simp_all

lemma path_score:
  "us_score s \<le> us_score (fold (\<lambda>p. tick (b p) 20 (w p) (c p)) ps s)"
  by (rule fold_tick_score) (simp add: list_all_iff)

lemma name_score: "us_score s + (if is_punycode (hostname_of u) then 30 else 0) \<le> us_score (name_checks en sh u s)"
proof -
  show ?thesis unfolding name_checks_def Let_def
    by (rule order_trans[OF _ tick_score], rule order_trans[OF _ path_score]) (simp_all add: tick_def)
qed

lemma address_score:
  "us_score s + (if has_user_info url then 35 else 0) + (if is_ipv4_like (hostname_of u) then 30 else 0)
     \<le> us_score (address_checks url u s)"
  by (simp add: address_checks_def tick_def Let_def)

lemma all_checks_score:
  assumes "all_checks env url u = Some s"
  shows "(if has_user_info url then 35 else 0) + (if is_ipv4_like (hostname_of u) then 30 else 0)
    + (if is_punycode (hostname_of u) then 30 else 0) \<le> us_score s"
proof -
  let ?a = "address_checks url u \<lparr>us_score = 0, us_findings = [], us_categories = []\<rparr>"
  let ?k = "keyword_checks url (hostname_of u) ?a"
  let ?n = "name_checks (ue_entropy env) (ue_shown env) u ?k"
  obtain t where t: "network_checks env url u ?n = Some t" "s = age_check (look_up_whois env (hostname_of u)) t"
    using assms by (auto simp: all_checks_def Let_def)
  show ?thesis
    using address_score[of "\<lparr>us_score = 0, us_findings = [], us_categories = []\<rparr>" url u] keyword_score[of ?a url "hostname_of u"]
      name_score[of ?k u "ue_entropy env" "ue_shown env"] network_score[OF t(1)] age_score[of t "look_up_whois env (hostname_of u)"]
    unfolding t(2) by simp
qed

text \<open>C32. The score of a scan is between 0 and 100 and its level follows from it, whatever the network
  answers; and a URL that is not on the trusted list and carries user information, a bare address or a
  punycode name is never called safe.\<close>

theorem url_verdict_is_sound:
  "case analyze_url env input of None \<Rightarrow> True
   | Some r \<Rightarrow> 0 \<le> rp_score r \<and> rp_score r \<le> 100 \<and> length (rp_findings r) \<le> 20
       \<and> rp_level r = (if rp_score r < 30 then ''SAFE'' else if rp_score r < 65 then ''SUSPICIOUS'' else ''MALICIOUS'')
       \<and> (if \<not> rp_whitelisted r \<and> (has_user_info (rp_url r) \<or> is_ipv4_like (rp_domain r) \<or> is_punycode (rp_domain r))
          then rp_level r \<noteq> ''SAFE'' else True)"
proof (cases "analyze_url env input")
  case (Some r)
  then obtain u s where u: "urlparse (ue_v6 env) (full_url input) = Some u" "all_checks env (full_url input) u = Some s"
    "r = report_of env (full_url input) u s"
    by (auto simp: analyze_url_def Let_def bind_eq_Some_conv)
  have "0 \<le> us_score s"
    using all_checks_score[OF u(2)] by (auto split: if_splits)
  then have "0 \<le> rp_score r \<and> rp_score r \<le> 100 \<and> length (rp_findings r) \<le> 20"
    by (simp add: u(3) report_of_def Let_def final_score_def)
  moreover have "rp_level r = (if rp_score r < 30 then ''SAFE'' else if rp_score r < 65 then ''SUSPICIOUS'' else ''MALICIOUS'')"
    by (simp add: u(3) report_of_def Let_def url_level_def)
  moreover have "30 \<le> rp_score r"
    if "\<not> rp_whitelisted r" "has_user_info (rp_url r) \<or> is_ipv4_like (rp_domain r) \<or> is_punycode (rp_domain r)"
    using that all_checks_score[OF u(2)] by (auto simp: u(3) report_of_def Let_def final_score_def split: if_splits)
  ultimately show ?thesis unfolding Some by auto
qed simp

text \<open>The trusted list is compared with the end of the host name, so a name that merely ends like a trusted
  one is trusted: its keywords do not count and 60 points are taken off.\<close>

lemma lookalike_is_trusted: "is_whitelisted ''evilgoogle.com'' \<and> final_score True 60 = 0"
  by code_simp

text \<open>The probe fetches whatever the caller names, before anything is decided about the host.\<close>

lemma scan_probes_any_host:
  "ue_probe env url = (Some n, url) \<Longrightarrow> 400 \<le> n \<Longrightarrow> network_checks env url u s = Some s' \<Longrightarrow>
   (''HTTP error response: '' @ str_of_int n) \<in> set (us_findings s')"
  by (auto simp: network_checks_def redirect_check_def tick_def Let_def split: prod.splits option.splits list.splits if_splits)

end
