(* ===== verification/Aws_Labs.thy ===== *)
theory Aws_Labs
  imports Lab_Sessions
begin

text \<open>
  The cloud labs: the provider \<open>services/providers/aws_provider.py\<close> over the EC2 calls of
  \<open>services/aws_orchestrator.py\<close>, and the choice of a provider (\<open>services/providers/factory.py\<close>).
  It is the second instance of the locale \<open>lab_provider\<close>, so what theory \<open>Lab_Sessions\<close> proves of
  the session manager holds for it too.

  The answers of EC2 and of boto3 are arguments (record \<open>cloud\<close>), indexed by the number of calls
  made so far; the calls are logged. An instance is described by its state, addresses and tags.
  Time readings are arguments as in theory \<open>Labs\<close>. Of the user data only whether the bootstrap
  script is attached is kept.
\<close>

section \<open>EC2\<close>

record ec2_instance =
  in_id :: string
  in_state :: string
  in_public :: "string option"
  in_private :: "string option"
  in_tags :: "(string \<times> string) list"
  in_type :: "string option"

record run_request =
  rq_ami :: string
  rq_type :: string
  rq_subnet :: string
  rq_tags :: "(string \<times> string) list"
  rq_bootstrap :: bool
  rq_iam :: "string option"
  rq_groups :: "string list"

record instance_check =
  ck_system :: string
  ck_instance :: string
  ck_state :: string

datatype ec2_call = Run run_request | Found string "string option" | Tag string "(string \<times> string) list"
  | Terminate string | Checks string | Inventory

datatype 'a answer = Client_error string string | Other_error string | Answer 'a

record aws =
  aw_calls :: "ec2_call list"

record cloud =
  cl_client :: "provider_error option" \<comment> \<open>why the clients cannot be made\<close>
  cl_run :: "nat \<Rightarrow> run_request \<Rightarrow> string answer"
  cl_describe :: "nat \<Rightarrow> string \<Rightarrow> ec2_instance list answer" \<comment> \<open>by the tags SessionID and ManagedBy\<close>
  cl_terminate :: "nat \<Rightarrow> string \<Rightarrow> unit answer"
  cl_checks :: "nat \<Rightarrow> string \<Rightarrow> instance_check list answer"
  cl_inventory :: "nat \<Rightarrow> ec2_instance list answer"

record aws_env =
  ax_subnet :: string
  ax_group :: string
  ax_iam :: string
  ax_amis :: "(string \<times> string) list"
  ax_types :: "(string \<times> string) list"
  ax_logins :: "(string \<times> (string \<times> string)) list"

definition record_call :: "ec2_call \<Rightarrow> aws \<Rightarrow> aws" where
  "record_call c s = s\<lparr>aw_calls := aw_calls s @ [c]\<rparr>"

section \<open>Launching an instance\<close>

definition stripped :: "string option \<Rightarrow> string option" where
  "stripped t = (case t of None \<Rightarrow> None | Some s \<Rightarrow> if strip s = [] then None else Some (strip s))"

definition run_kwargs :: "string \<Rightarrow> string \<Rightarrow> string \<Rightarrow> string \<Rightarrow> string option \<Rightarrow> string \<Rightarrow> string option \<Rightarrow> run_request" where
  "run_kwargs ami itype session subnet iam profile grp =
     \<lparr>rq_ami = ami, rq_type = itype, rq_subnet = subnet,
      rq_tags = [(''Name'', ''ShadowTrust-'' @ profile @ ''-'' @ take 5 session), (''SessionID'', session), (''ManagedBy'', ''ShadowTrust'')],
      rq_bootstrap = (contains_str ''linux'' profile \<or> contains_str ''kali'' profile),
      rq_iam = stripped iam, rq_groups = (case stripped grp of None \<Rightarrow> [] | Some g \<Rightarrow> [g])\<rparr>"

definition iam_missing :: "string \<Rightarrow> string \<Rightarrow> bool" where
  "iam_missing code message \<longleftrightarrow> code = ''InvalidParameterValue'' \<and> contains_str ''iamInstanceProfile.name'' message"

text \<open>An unknown IAM profile makes the call try once more without one.\<close>

function launch_analysis_vm :: "cloud \<Rightarrow> string \<Rightarrow> string \<Rightarrow> string \<Rightarrow> string \<Rightarrow> string option \<Rightarrow> string \<Rightarrow> string option \<Rightarrow> aws
    \<Rightarrow> (string + string) \<times> aws" where
  "launch_analysis_vm cl ami itype session subnet iam profile grp s =
     (let rq = run_kwargs ami itype session subnet iam profile grp; n = length (aw_calls s); s = record_call (Run rq) s in
      case cl_run cl n rq of
        Answer i \<Rightarrow> (Inr i, s)
      | Other_error e \<Rightarrow> (Inl e, s)
      | Client_error code message \<Rightarrow>
          if iam_missing code message \<and> iam \<noteq> None
          then launch_analysis_vm cl ami itype session subnet None profile grp s
          else (Inl (code @ '': '' @ message), s))"
  by pat_completeness auto
termination by (relation "measure (\<lambda>(_, _, _, _, _, iam, _). if iam = None then 0 else 1)") auto

declare launch_analysis_vm.simps [simp del]

text \<open>\<open>terminate_vm\<close>: only a \<open>ClientError\<close> is caught.\<close>

definition terminate_vm :: "cloud \<Rightarrow> string \<Rightarrow> aws \<Rightarrow> (provider_error + bool) \<times> aws" where
  "terminate_vm cl iid s =
     (let n = length (aw_calls s); s = record_call (Terminate iid) s in
      case cl_terminate cl n iid of
        Answer _ \<Rightarrow> (Inr True, s) | Client_error _ _ \<Rightarrow> (Inr False, s) | Other_error _ \<Rightarrow> (Inl Provider_failure, s))"

text \<open>\<open>ssm_url\<close>: the console link.\<close>

definition generate_ssm_session_url :: "string \<Rightarrow> string \<Rightarrow> string" where
  "generate_ssm_session_url region iid =
     ''https://'' @ region @ ''.console.aws.amazon.com/systems-manager/session-manager/'' @ iid"

definition hw_map :: "(string \<times> (int \<times> int)) list" where
  "hw_map = [(''t2.micro'', (1, 1)), (''t3.micro'', (2, 1)), (''t3.small'', (2, 2)), (''t3.medium'', (2, 4)),
     (''t3.large'', (2, 8)), (''t3.xlarge'', (4, 16)), (''t3.2xlarge'', (8, 32))]"

definition hardware :: "ec2_instance \<Rightarrow> int \<times> int" where
  "hardware i = (case map_of hw_map (case in_type i of None \<Rightarrow> ''t3.micro'' | Some t \<Rightarrow> t) of None \<Rightarrow> (2, 1) | Some h \<Rightarrow> h)"

text \<open>The last \<open>Name\<close> tag that tells counts.\<close>

definition named_profile :: "string \<Rightarrow> string \<Rightarrow> string" where
  "named_profile name known = (if contains_str ''win_base'' name then ''win_base''
     else if contains_str ''kali_base'' name then ''kali_base''
     else if contains_str ''win_malware'' name then ''win_malware'' else known)"

definition profile_of_tags :: "(string \<times> string) list \<Rightarrow> string" where
  "profile_of_tags tags = fold (\<lambda>(k, v) p. if k = ''Name'' then named_profile v p else p) tags ''unknown''"

record aws_row =
  ar_lab :: string
  ar_status :: string
  ar_environment :: string
  ar_host :: "string option"

record aws_metrics =
  am_vcpu :: int
  am_ram :: int
  am_active :: nat
  am_labs :: "aws_row list"

definition aws_row_of :: "ec2_instance \<Rightarrow> aws_row" where
  "aws_row_of i = \<lparr>ar_lab = in_id i, ar_status = upper (upper (in_state i)), ar_environment = profile_of_tags (in_tags i),
     ar_host = (case in_public i of None \<Rightarrow> Some ''None'' | Some a \<Rightarrow> if a = [] then
        (case in_private i of None \<Rightarrow> Some ''Unknown'' | Some b \<Rightarrow> Some b) else Some a)\<rparr>"

text \<open>\<open>get_cluster_metrics\<close> and \<open>get_metrics\<close>: an error is reported as no labs.\<close>

definition aws_get_metrics :: "cloud \<Rightarrow> aws \<Rightarrow> (provider_error + aws_metrics) \<times> aws" where
  "aws_get_metrics cl s =
     (case cl_client cl of
        Some e \<Rightarrow> (Inl e, s)
      | None \<Rightarrow>
         (let n = length (aw_calls s); s = record_call Inventory s in
          case cl_inventory cl n of
            Answer xs \<Rightarrow> (Inr \<lparr>am_vcpu = sum_list (map (fst \<circ> hardware) xs), am_ram = sum_list (map (snd \<circ> hardware) xs),
               am_active = length xs, am_labs = map aws_row_of xs\<rparr>, s)
          | _ \<Rightarrow> (Inr \<lparr>am_vcpu = 0, am_ram = 0, am_active = 0, am_labs = []\<rparr>, s)))"

section \<open>The provider\<close>

definition aws_state_map :: "string \<Rightarrow> lab_status" where
  "aws_state_map s =
     (if s = ''pending'' then PROVISIONING else if s = ''running'' then RUNNING
      else if s = ''shutting-down'' \<or> s = ''stopping'' then STOPPING
      else if s = ''stopped'' \<or> s = ''terminated'' then TERMINATED else UNKNOWN)"

definition aws_normalise_env :: "string \<Rightarrow> string" where
  "aws_normalise_env environment = (let env = lower environment in
     if contains_str ''malware'' env then ''windows_malware''
     else if contains_str ''kali'' env \<or> env = ''linux'' then ''kali''
     else if contains_str ''win'' env then ''windows'' else env)"

text \<open>\<open>_describe\<close> and \<open>_resolve_instance_id\<close>: the first instance; every exception, that of the
  missing library included, is logged and reads as no instance.\<close>

definition describe_lab :: "cloud \<Rightarrow> string \<Rightarrow> aws \<Rightarrow> ec2_instance option \<times> aws" where
  "describe_lab cl lab_id s =
     (if cl_client cl \<noteq> None then (None, s)
      else (let found = (case cl_describe cl (length (aw_calls s)) lab_id of Answer (i # _) \<Rightarrow> Some i | _ \<Rightarrow> None)
            in (found, record_call (Found lab_id (map_option in_id found)) s)))"

definition resolve_instance_id :: "cloud \<Rightarrow> string \<Rightarrow> aws \<Rightarrow> string option \<times> aws" where
  "resolve_instance_id cl lab_id s = (case describe_lab cl lab_id s of (i, s) \<Rightarrow> (map_option in_id i, s))"

definition instance_host :: "ec2_instance \<Rightarrow> string option" where
  "instance_host i = (case in_public i of Some (c # cs) \<Rightarrow> Some (c # cs) | _ \<Rightarrow> in_private i)"

definition aws_credentials_for :: "aws_env \<Rightarrow> string \<Rightarrow> string \<times> string" where
  "aws_credentials_for ax environment =
     (case map_of (ax_logins ax) (aws_normalise_env environment) of None \<Rightarrow> ([], []) | Some l \<Rightarrow> l)"

definition tag_or :: "ec2_instance \<Rightarrow> string \<Rightarrow> string \<Rightarrow> string" where
  "tag_or i k d = (case map_of (rev (in_tags i)) k of None \<Rightarrow> d | Some v \<Rightarrow> v)"

definition info_from_instance :: "aws_env \<Rightarrow> string \<Rightarrow> ec2_instance \<Rightarrow> lab_info" where
  "info_from_instance ax lab_id i =
     (let environment = tag_or i ''Environment'' ''kali''; profile = tag_or i ''Profile'' ''standard'';
          protocol = tag_or i ''Protocol'' ''rdp''; status = aws_state_map (in_state i); host = instance_host i
      in \<lparr>li_id = lab_id, li_status = status, li_environment = environment, li_profile = profile, li_host = host,
          li_connection = (case host of
             Some (c # cs) \<Rightarrow> if status = RUNNING
               then Some \<lparr>lx_host = c # cs, lx_port = protocol_port protocol, lx_protocol = protocol,
                          lx_username = fst (aws_credentials_for ax environment),
                          lx_password = snd (aws_credentials_for ax environment)\<rparr> else None
           | _ \<Rightarrow> None),
          li_resources = Some (resolve_profile profile)\<rparr>)"

definition bare_info :: "string \<Rightarrow> lab_status \<Rightarrow> lab_info" where
  "bare_info lab_id status = \<lparr>li_id = lab_id, li_status = status, li_environment = ''unknown'', li_profile = ''standard'',
     li_host = None, li_connection = None, li_resources = None\<rparr>"

text \<open>The provider draws \<open>fresh\<close> when the configuration carries no lab id.\<close>

definition chosen_lab_id :: "string \<Rightarrow> lab_config \<Rightarrow> string" where
  "chosen_lab_id fresh config = (case map_of (lc_labels config) ''lab_id'' of Some (c # cs) \<Rightarrow> c # cs | _ \<Rightarrow> fresh)"

definition aws_tags :: "string \<Rightarrow> lab_config \<Rightarrow> (string \<times> string) list" where
  "aws_tags env config = [(''Environment'', env), (''Profile'', rp_id (resolve_profile (lc_profile config))), (''Protocol'', lc_protocol config)]"

text \<open>The launch from the image \<open>ami\<close>, and the tagging, whose failure is only logged.\<close>

definition launch_from :: "cloud \<Rightarrow> aws_env \<Rightarrow> string \<Rightarrow> string \<Rightarrow> string \<Rightarrow> lab_config \<Rightarrow> aws \<Rightarrow> (provider_error + lab_info) \<times> aws" where
  "launch_from cl ax ami env fresh config s =
     (let res = resolve_profile (lc_profile config);
          itype = (case map_of (ax_types ax) (rp_id res) of None \<Rightarrow> ''t3.medium'' | Some t \<Rightarrow> t);
          lab_id = chosen_lab_id fresh config
      in case launch_analysis_vm cl ami itype lab_id (ax_subnet ax) (Some (ax_iam ax)) env (Some (ax_group ax)) s of
           (Inl _, s) \<Rightarrow> (Inl Provider_unavailable, s)
         | (Inr iid, s) \<Rightarrow>
             (Inr \<lparr>li_id = lab_id, li_status = PROVISIONING, li_environment = env, li_profile = rp_id res,
                   li_host = None, li_connection = None, li_resources = Some res\<rparr>,
              record_call (Tag iid (aws_tags env config)) s))"

definition aws_launch_lab :: "cloud \<Rightarrow> aws_env \<Rightarrow> string \<Rightarrow> lab_config \<Rightarrow> aws \<Rightarrow> (provider_error + lab_info) \<times> aws" where
  "aws_launch_lab cl ax fresh config s =
     (let env = aws_normalise_env (lc_environment config) in
      if env \<notin> {''kali'', ''windows'', ''windows_malware''} then (Inl Unsupported_environment, s)
      else case map_of (ax_amis ax) env of
        Some (c # cs) \<Rightarrow> (case cl_client cl of Some e \<Rightarrow> (Inl e, s) | None \<Rightarrow> launch_from cl ax (c # cs) env fresh config s)
      | _ \<Rightarrow> (Inl Provider_unavailable, s))"

definition aws_terminate_lab :: "cloud \<Rightarrow> string \<Rightarrow> aws \<Rightarrow> (provider_error + bool) \<times> aws" where
  "aws_terminate_lab cl lab_id s =
     (case resolve_instance_id cl lab_id s of (found, s) \<Rightarrow>
      (case (case found of Some i \<Rightarrow> Some i | None \<Rightarrow> if starts_with ''i-'' lab_id then Some lab_id else None) of
         None \<Rightarrow> (Inr True, s)
       | Some iid \<Rightarrow> (case cl_client cl of Some e \<Rightarrow> (Inl e, s) | None \<Rightarrow> terminate_vm cl iid s)))"

definition aws_lab_status :: "cloud \<Rightarrow> aws_env \<Rightarrow> string \<Rightarrow> aws \<Rightarrow> lab_info \<times> aws" where
  "aws_lab_status cl ax lab_id s =
     (case describe_lab cl lab_id s of
        (None, s) \<Rightarrow> (bare_info lab_id TERMINATED, s)
      | (Some i, s) \<Rightarrow> (info_from_instance ax lab_id i, s))"

text \<open>\<open>get_connection\<close> of the base class, which ignores the protocol.\<close>

definition aws_get_connection :: "cloud \<Rightarrow> aws_env \<Rightarrow> string \<Rightarrow> string \<Rightarrow> aws \<Rightarrow> (provider_error + lab_connection option) \<times> aws" where
  "aws_get_connection cl ax lab_id protocol s = (case aws_lab_status cl ax lab_id s of (i, s) \<Rightarrow> (Inr (li_connection i), s))"

definition aws_console_url :: "cloud \<Rightarrow> string \<Rightarrow> string \<Rightarrow> aws \<Rightarrow> string option \<times> aws" where
  "aws_console_url cl region lab_id s =
     (case resolve_instance_id cl lab_id s of (i, s) \<Rightarrow> (map_option (generate_ssm_session_url region) i, s))"

section \<open>Waiting\<close>

text \<open>A loop \<open>while time.time() < deadline\<close>: the body may end it with a result; \<open>None\<close> as the
  value of the whole would be a loop that never returns.\<close>

partial_function (option) poll_loop :: "(nat \<Rightarrow> rat) \<Rightarrow> rat \<Rightarrow> ('s \<Rightarrow> 'r option \<times> 's) \<Rightarrow> nat \<Rightarrow> 's \<Rightarrow> ('r option \<times> 's) option" where
  "poll_loop clock deadline body i s =
     (if clock i < deadline
      then (case body s of (Some r, s) \<Rightarrow> Some (Some r, s) | (None, s) \<Rightarrow> poll_loop clock deadline body (Suc i) s)
      else Some (None, s))"

declare poll_loop.simps [code]

text \<open>Stage 1: running with an address. The loop ends with the address, or without one.\<close>

datatype first_stage = Gone | Terminated_early | Host string

definition find_host :: "cloud \<Rightarrow> string \<Rightarrow> aws \<Rightarrow> first_stage option \<times> aws" where
  "find_host cl lab_id s =
     (case describe_lab cl lab_id s of
        (None, s) \<Rightarrow> (Some Gone, s)
      | (Some i, s) \<Rightarrow>
          if in_state i \<in> {''terminated'', ''shutting-down''} then (Some Terminated_early, s)
          else if in_state i = ''running''
          then (case instance_host i of Some (c # cs) \<Rightarrow> (Some (Host (c # cs)), s) | _ \<Rightarrow> (None, s))
          else (None, s))"

text \<open>Stage 2: both status checks; an exception only costs a round.\<close>

definition check_boot :: "cloud \<Rightarrow> aws_env \<Rightarrow> string \<Rightarrow> string \<Rightarrow> aws \<Rightarrow> lab_info option \<times> aws" where
  "check_boot cl ax lab_id iid s =
     (let n = length (aw_calls s); s = record_call (Checks iid) s in
      case cl_checks cl n iid of
        Answer (k # _) \<Rightarrow>
          if ck_state k \<in> {''terminated'', ''shutting-down''} then (Some (bare_info lab_id ERROR), s)
          else if ck_system k = ''ok'' \<and> ck_instance k = ''ok''
          then (case aws_lab_status cl ax lab_id s of (i, s) \<Rightarrow> (Some (i\<lparr>li_status := READY\<rparr>), s))
          else (None, s)
      | _ \<Rightarrow> (None, s))"

definition aws_wait_until_ready :: "cloud \<Rightarrow> aws_env \<Rightarrow> (nat \<Rightarrow> rat) \<Rightarrow> (nat \<Rightarrow> rat) \<Rightarrow> rat \<Rightarrow> string \<Rightarrow> aws
    \<Rightarrow> (lab_info \<times> aws) option" where
  "aws_wait_until_ready cl ax clock1 clock2 deadline lab_id s =
     (case resolve_instance_id cl lab_id s of
        (None, s) \<Rightarrow> Some (bare_info lab_id ERROR, s)
      | (Some iid, s) \<Rightarrow>
          (case poll_loop clock1 deadline (find_host cl lab_id) 0 s of
             None \<Rightarrow> None
           | Some (Some (Host h), s) \<Rightarrow>
               (case poll_loop clock2 deadline (check_boot cl ax lab_id iid) 0 s of
                  None \<Rightarrow> None
                | Some (Some i, s) \<Rightarrow> Some (i, s)
                | Some (None, s) \<Rightarrow> (case aws_lab_status cl ax lab_id s of (i, s) \<Rightarrow> Some (i\<lparr>li_status := ERROR\<rparr>, s)))
           | Some (_, s) \<Rightarrow> Some (bare_info lab_id ERROR, s)))"

section \<open>The factory\<close>

datatype provider_choice = Local_provider | Aws_provider | Unknown_provider string

text \<open>\<open>env\<close> is the variable \<open>INFRA_PROVIDER\<close>; an empty override reads as none.\<close>

definition get_provider_name :: "string option \<Rightarrow> string" where
  "get_provider_name env = lower (strip (case env of None \<Rightarrow> ''local'' | Some v \<Rightarrow> v))"

definition get_lab_provider :: "string option \<Rightarrow> string option \<Rightarrow> provider_choice" where
  "get_lab_provider provider env =
     (let name = lower (strip (case provider of Some (c # cs) \<Rightarrow> c # cs | _ \<Rightarrow> get_provider_name env)) in
      if name = ''local'' then Local_provider else if name = ''aws'' then Aws_provider else Unknown_provider name)"

section \<open>Waiting ends\<close>

text \<open>Whatever the body does, a loop whose clock moves on in each round ends, with a result the body
  gave or at the deadline, and keeps what the body keeps.\<close>

lemma poll_within:
  assumes "0 < d" "\<And>i. clock i + d \<le> clock (Suc i)" "deadline \<le> clock i + of_nat n * d"
    and "keeps s" "\<And>s. keeps s \<Longrightarrow> keeps (snd (body s))" "\<And>s r s'. body s = (Some r, s') \<Longrightarrow> good r"
  shows "\<exists>r s'. poll_loop clock deadline body i s = Some (r, s') \<and> keeps s' \<and> (case r of None \<Rightarrow> True | Some x \<Rightarrow> good x)"
  using assms(3,4)
proof (induction n arbitrary: i s)
  case 0
  then show ?case by (subst poll_loop.simps) simp
next
  case (Suc n)
  show ?case
  proof (cases "clock i < deadline")
    case False
    then show ?thesis using Suc.prems by (subst poll_loop.simps) simp
  next
    case True
    obtain r s' where b: "body s = (r, s')" by (cases "body s")
    then have keep: "keeps s'" using assms(5)[OF Suc.prems(2)] by simp
    show ?thesis
    proof (cases r)
      case (Some x)
      then show ?thesis using True b keep assms(6)[of s x s'] by (subst poll_loop.simps) simp
    next
      case None
      have "deadline \<le> clock (Suc i) + of_nat n * d" using Suc.prems(1) assms(2)[of i] by (simp add: algebra_simps)
      from Suc.IH[OF this keep] show ?thesis using True b None by (subst poll_loop.simps) simp
    qed
  qed
qed

lemma poll_ends:
  assumes "0 < d" "\<And>i. clock i + d \<le> clock (Suc i)"
    and "keeps s" "\<And>s. keeps s \<Longrightarrow> keeps (snd (body s))" "\<And>s r s'. body s = (Some r, s') \<Longrightarrow> good r"
  shows "\<exists>r s'. poll_loop clock deadline body i s = Some (r, s') \<and> keeps s' \<and> (case r of None \<Rightarrow> True | Some x \<Rightarrow> good x)"
proof -
  obtain n where "(deadline - clock i) / d \<le> of_nat n" using real_arch_simple by blast
  then have n: "deadline \<le> clock i + of_nat n * d" using assms(1) by (simp add: field_simps)
  show ?thesis
  proof (rule poll_within[where n = n and d = d and keeps = keeps and good = good])
    show "\<And>s r s'. body s = (Some r, s') \<Longrightarrow> good r" by (rule assms(5))
  qed (use n assms in auto)
qed

section \<open>What the provider asks of EC2\<close>

text \<open>An instance is launched under the tags by which labs are found again; one is terminated only when
  a look-up by those tags named it, or when the lab id itself reads like an instance id.\<close>

definition call_ok :: "ec2_call list \<Rightarrow> ec2_call \<Rightarrow> bool" where
  "call_ok calls c = (case c of
       Run rq \<Rightarrow> (''ManagedBy'', ''ShadowTrust'') \<in> set (rq_tags rq) \<and> ''SessionID'' \<in> fst ` set (rq_tags rq)
     | Terminate i \<Rightarrow> starts_with ''i-'' i \<or> (\<exists>lab. Found lab (Some i) \<in> set calls)
     | _ \<Rightarrow> True)"

definition aws_ok :: "aws \<Rightarrow> bool" where
  "aws_ok s \<longleftrightarrow> (\<forall>c \<in> set (aw_calls s). call_ok (aw_calls s) c)"

lemma call_ok_more: "call_ok calls c \<Longrightarrow> call_ok (calls @ later) c"
  by (auto simp: call_ok_def split: ec2_call.splits)

lemma record_ok: "aws_ok s \<Longrightarrow> call_ok (aw_calls s) c \<Longrightarrow> aws_ok (record_call c s)"
  by (auto simp: aws_ok_def record_call_def intro: call_ok_more)

lemma plain_calls [simp]: "call_ok calls (Found a b)" "call_ok calls (Tag a t)" "call_ok calls (Checks a)" "call_ok calls Inventory"
  by (simp_all add: call_ok_def)

lemma describe_ok: "aws_ok s \<Longrightarrow> aws_ok (snd (describe_lab cl lab_id s))"
  by (simp add: describe_lab_def Let_def record_ok)

lemma resolve_ok: "aws_ok s \<Longrightarrow> aws_ok (snd (resolve_instance_id cl lab_id s))"
  using describe_ok[of s cl lab_id] by (cases "describe_lab cl lab_id s") (simp add: resolve_instance_id_def)

lemma resolved_found: "resolve_instance_id cl lab_id s = (Some i, s') \<Longrightarrow> Found lab_id (Some i) \<in> set (aw_calls s')"
  by (auto simp: resolve_instance_id_def describe_lab_def record_call_def Let_def split: prod.splits if_splits)

lemma aws_status_ok: "aws_ok s \<Longrightarrow> aws_ok (snd (aws_lab_status cl ax lab_id s))"
  using describe_ok[of s cl lab_id] by (auto simp: aws_lab_status_def split: prod.split option.split)

lemma launch_vm_ok: "aws_ok s \<Longrightarrow> aws_ok (snd (launch_analysis_vm cl ami itype session subnet iam profile grp s))"
proof (induction cl ami itype session subnet iam profile grp s rule: launch_analysis_vm.induct)
  case (1 cl ami itype session subnet iam profile grp s)
  have "call_ok (aw_calls s) (Run (run_kwargs ami itype session subnet iam profile grp))"
    by (simp add: call_ok_def run_kwargs_def)
  with 1 show ?case by (subst launch_analysis_vm.simps) (auto simp: Let_def record_ok split: answer.split)
qed

lemma launch_from_result:
  "launch_from cl ax ami env fresh config s = (r, s') \<Longrightarrow>
   (aws_ok s \<longrightarrow> aws_ok s') \<and> (case r of Inl _ \<Rightarrow> True | Inr i \<Rightarrow> li_id i = chosen_lab_id fresh config \<and> li_status i = PROVISIONING)"
proof -
  let ?vm = "launch_analysis_vm cl ami (case map_of (ax_types ax) (rp_id (resolve_profile (lc_profile config))) of
        None \<Rightarrow> ''t3.medium'' | Some t \<Rightarrow> t) (chosen_lab_id fresh config) (ax_subnet ax) (Some (ax_iam ax)) env (Some (ax_group ax)) s"
  obtain q s1 where l: "?vm = (q, s1)" by (metis surj_pair)
  have "aws_ok s \<Longrightarrow> aws_ok s1" using launch_vm_ok[of s] l by (metis snd_conv)
  then show "launch_from cl ax ami env fresh config s = (r, s') \<Longrightarrow> ?thesis"
    unfolding launch_from_def Let_def l by (cases q) (auto simp: record_ok)
qed

lemma aws_launch_result:
  "aws_launch_lab cl ax fresh config s = (r, s') \<Longrightarrow>
   (aws_ok s \<longrightarrow> aws_ok s') \<and> (case r of Inl _ \<Rightarrow> True | Inr i \<Rightarrow> li_id i = chosen_lab_id fresh config \<and> li_status i = PROVISIONING)"
  unfolding aws_launch_lab_def Let_def
  by (auto split: if_splits option.splits list.splits dest!: launch_from_result)

lemma aws_terminate_ok: "aws_ok s \<Longrightarrow> aws_ok (snd (aws_terminate_lab cl lab_id s))"
proof -
  assume ok: "aws_ok s"
  obtain found s1 where r: "resolve_instance_id cl lab_id s = (found, s1)" by (cases "resolve_instance_id cl lab_id s")
  have s1: "aws_ok s1" using resolve_ok[OF ok, of cl lab_id] r by simp
  have vm: "aws_ok (snd (terminate_vm cl iid s1))" if "call_ok (aw_calls s1) (Terminate iid)" for iid
    using record_ok[OF s1 that] by (simp add: terminate_vm_def Let_def split: answer.split)
  have "call_ok (aw_calls s1) (Terminate i)" if "found = Some i" for i
    using resolved_found[of cl lab_id s i s1] r that by (auto simp: call_ok_def)
  moreover have "call_ok (aw_calls s1) (Terminate lab_id)" if "starts_with ''i-'' lab_id" using that by (simp add: call_ok_def)
  ultimately show ?thesis unfolding aws_terminate_lab_def r
    by (auto simp: s1 vm split: option.split)
qed

lemma find_host_ok: "aws_ok s \<Longrightarrow> aws_ok (snd (find_host cl lab_id s))"
  using describe_ok[of s cl lab_id] by (auto simp: find_host_def split: prod.split option.split list.split)

lemma check_boot_ok: "aws_ok s \<Longrightarrow> aws_ok (snd (check_boot cl ax lab_id iid s))"
  using aws_status_ok[OF record_ok[of s "Checks iid"], of cl ax lab_id]
  by (auto simp: check_boot_def Let_def record_ok split: answer.split list.split prod.split)

lemma check_boot_status: "check_boot cl ax lab_id iid s = (Some i, s') \<Longrightarrow> li_status i \<in> {READY, ERROR}"
  by (auto simp: check_boot_def Let_def bare_info_def split: answer.splits list.splits prod.splits if_splits)

text \<open>Waiting for a cloud lab always ends, with a lab that is ready or in error.\<close>

lemma aws_wait_ends:
  assumes "\<And>i. clock1 i + 10 \<le> clock1 (Suc i)" "\<And>i. clock2 i + 10 \<le> clock2 (Suc i)"
  shows "\<exists>i s'. aws_wait_until_ready cl ax clock1 clock2 deadline lab_id s = Some (i, s')
    \<and> li_status i \<in> {READY, ERROR} \<and> (aws_ok s \<longrightarrow> aws_ok s')"
proof -
  define keeps where "keeps t \<longleftrightarrow> (aws_ok s \<longrightarrow> aws_ok t)" for t
  obtain found s1 where r: "resolve_instance_id cl lab_id s = (found, s1)" by (cases "resolve_instance_id cl lab_id s")
  have s1: "keeps s1" using resolve_ok[of s cl lab_id] r by (simp add: keeps_def)
  show ?thesis
  proof (cases found)
    case None
    then show ?thesis using r s1 by (simp add: aws_wait_until_ready_def bare_info_def keeps_def)
  next
    case (Some iid)
    obtain h s2 where p1: "poll_loop clock1 deadline (find_host cl lab_id) 0 s1 = Some (h, s2)" and s2: "keeps s2"
      using poll_ends[where d = 10 and clock = clock1 and keeps = keeps and good = "\<lambda>_. True" and body = "find_host cl lab_id"
          and s = s1 and i = 0 and deadline = deadline] assms(1) s1 find_host_ok by (auto simp: keeps_def)
    obtain q s3 where p2: "poll_loop clock2 deadline (check_boot cl ax lab_id iid) 0 s2 = Some (q, s3)" and s3: "keeps s3"
      and q: "case q of None \<Rightarrow> True | Some i \<Rightarrow> li_status i \<in> {READY, ERROR}"
      using poll_ends[where d = 10 and clock = clock2 and keeps = keeps and good = "\<lambda>i. li_status i \<in> {READY, ERROR}"
          and body = "check_boot cl ax lab_id iid" and s = s2 and i = 0 and deadline = deadline]
        assms(2) s2 check_boot_ok check_boot_status by (auto simp: keeps_def)
    obtain i s4 where st: "aws_lab_status cl ax lab_id s3 = (i, s4)" by (cases "aws_lab_status cl ax lab_id s3")
    have "keeps s4" using aws_status_ok[of s3 cl ax lab_id] s3 st by (simp add: keeps_def)
    then show ?thesis using r Some p1 p2 q s2 s3 st
      by (auto simp: aws_wait_until_ready_def bare_info_def keeps_def split: option.splits first_stage.split)
  qed
qed

section \<open>The provider keeps the contract\<close>

text \<open>The wait has 900 seconds from its start; the clock of the second stage starts anywhere.\<close>

definition aws_provider :: "cloud \<Rightarrow> aws_env \<Rightarrow> rat \<Rightarrow> rat \<Rightarrow> (nat \<Rightarrow> rat) \<Rightarrow> aws provider" where
  "aws_provider cl ax start later delay = \<lparr>pv_name = ''aws'',
     pv_launch = aws_launch_lab cl ax,
     pv_wait = (\<lambda>lab_id s. case aws_wait_until_ready cl ax (clock_of start delay 10) (clock_of later delay 10) (start + 900) lab_id s of
        Some (i, s) \<Rightarrow> (Inr i, s) | None \<Rightarrow> (Inl Provider_failure, s)),
     pv_connection = aws_get_connection cl ax,
     pv_terminate = aws_terminate_lab cl\<rparr>"

lemma aws_wait:
  "\<exists>i s'. pv_wait (aws_provider cl ax start later delay) lab_id s = (Inr i, s') \<and> li_status i \<in> {READY, ERROR}
     \<and> (aws_ok s \<longrightarrow> aws_ok s')"
proof -
  have ticks: "clock_of t delay 10 i + 10 \<le> clock_of t delay 10 (Suc i)" for t i by (simp add: clock_of_def)
  show ?thesis
    using aws_wait_ends[where ?clock1.0 = "clock_of start delay 10" and ?clock2.0 = "clock_of later delay 10" and cl = cl and ax = ax
        and deadline = "start + 900" and lab_id = lab_id and s = s] ticks by (auto simp: aws_provider_def)
qed

lemma chosen_id: "chosen_lab_id fresh c = fresh \<or> map_of (lc_labels c) ''lab_id'' = Some (chosen_lab_id fresh c)"
  by (auto simp: chosen_lab_id_def split: option.split list.split)

interpretation aws_labs: lab_provider "aws_provider cl ax start later delay" aws_ok
proof
  fix lab_id c protocol and s s' :: aws and i
  show "pv_launch (aws_provider cl ax start later delay) lab_id c s = (Inr i, s') \<Longrightarrow>
      (li_id i = lab_id \<or> map_of (lc_labels c) ''lab_id'' = Some (li_id i)) \<and> li_status i = PROVISIONING"
    using aws_launch_result[of cl ax lab_id c s "Inr i" s'] chosen_id[of lab_id c] by (simp add: aws_provider_def)
  show "pv_wait (aws_provider cl ax start later delay) lab_id s = (Inr i, s') \<Longrightarrow> li_status i \<in> {READY, TERMINATED, ERROR}"
    using aws_wait[of cl ax start later delay lab_id s] by auto
  assume ok: "aws_ok s"
  show "aws_ok (snd (pv_launch (aws_provider cl ax start later delay) lab_id c s))"
    using aws_launch_result[of cl ax lab_id c s] ok by (cases "aws_launch_lab cl ax lab_id c s") (auto simp: aws_provider_def)
  show "aws_ok (snd (pv_wait (aws_provider cl ax start later delay) lab_id s))"
    using aws_wait[of cl ax start later delay lab_id s] ok by auto
  show "aws_ok (snd (pv_connection (aws_provider cl ax start later delay) lab_id protocol s))"
    using aws_status_ok[OF ok, of cl ax lab_id]
    by (cases "aws_lab_status cl ax lab_id s") (simp add: aws_provider_def aws_get_connection_def)
  show "aws_ok (snd (pv_terminate (aws_provider cl ax start later delay) lab_id s))"
    using aws_terminate_ok[OF ok, of cl lab_id] by (simp add: aws_provider_def)
qed


text \<open>Waiting for a cloud lab always ends, whatever EC2 answers: the clock moves on by at least the ten
  seconds each round sleeps, and the lab that is returned is ready or in error.\<close>

theorem waiting_for_a_cloud_lab_ends:
  assumes "\<And>i. clock1 i + 10 \<le> clock1 (Suc i)" "\<And>i. clock2 i + 10 \<le> clock2 (Suc i)"
  shows "\<exists>i s'. aws_wait_until_ready cl ax clock1 clock2 deadline lab_id s = Some (i, s') \<and> li_status i \<in> {READY, ERROR}"
  using aws_wait_ends[where ?clock1.0 = clock1 and ?clock2.0 = clock2, OF _ _] assms by blast

section \<open>What the code does not do\<close>

text \<open>A look-up that fails, for whatever reason, reads as no instance: stopping a lab then reports success
  without a terminate call, and its status is TERMINATED, while the instance runs on.\<close>

lemma outage_reads_as_terminated:
  assumes "cl_client cl \<noteq> None \<or> (\<forall>n. cl_describe cl n lab_id = Other_error e)" "\<not> starts_with ''i-'' lab_id"
  shows "fst (aws_terminate_lab cl lab_id s) = Inr True"
    and "li_status (fst (aws_lab_status cl ax lab_id s)) = TERMINATED"
    and "list_all (\<lambda>c. case c of Terminate _ \<Rightarrow> False | _ \<Rightarrow> True) (drop (length (aw_calls s)) (aw_calls (snd (aws_terminate_lab cl lab_id s))))"
  using assms by (auto simp: aws_terminate_lab_def resolve_instance_id_def describe_lab_def aws_lab_status_def bare_info_def
      Let_def record_call_def)

text \<open>A lab id that reads like an instance id is terminated as one, managed or not.\<close>

lemma foreign_instance_terminated:
  assumes "cl_client cl = None" "\<And>n. cl_describe cl n ''i-0abc'' = Answer []"
  shows "Terminate ''i-0abc'' \<in> set (aw_calls (snd (aws_terminate_lab cl ''i-0abc'' s)))"
  using assms by (simp add: aws_terminate_lab_def resolve_instance_id_def describe_lab_def terminate_vm_def Let_def record_call_def
      starts_with_def split: answer.split)

text \<open>When tagging fails after the launch, a Windows lab is described, and connected to, as Kali.\<close>

lemma untagged_lab_is_kali:
  assumes "in_tags i = [(''Name'', n), (''SessionID'', lab_id), (''ManagedBy'', ''ShadowTrust'')]"
  shows "li_environment (info_from_instance ax lab_id i) = ''kali''"
  using assms by (simp add: info_from_instance_def tag_or_def Let_def)

section \<open>Witnesses\<close>

definition idle_cloud :: cloud where
  "idle_cloud = \<lparr>cl_client = None, cl_run = (\<lambda>n r. Answer ''i-1''), cl_describe = (\<lambda>n l. Answer []),
     cl_terminate = (\<lambda>n i. Answer ()), cl_checks = (\<lambda>n i. Answer []), cl_inventory = (\<lambda>n. Answer [])\<rparr>"

definition idle_env :: aws_env where
  "idle_env = \<lparr>ax_subnet = [], ax_group = [], ax_iam = [], ax_amis = [(''kali'', ''ami-1'')], ax_types = [], ax_logins = []\<rparr>"

theorem waiting_for_a_cloud_lab_ends_witness:
  "\<exists>i s'. aws_wait_until_ready idle_cloud idle_env (\<lambda>i. 10 * of_nat i) (\<lambda>i. 10 * of_nat i) 900 ''lab'' \<lparr>aw_calls = []\<rparr> = Some (i, s')
     \<and> li_status i \<in> {READY, ERROR}"
  by (rule waiting_for_a_cloud_lab_ends) simp_all


end
