(* ===== verification/Bytes.thy ===== *)
theory Bytes
  imports Prelude
begin

text \<open>
  Binary fields as \<open>struct\<close> reads them: little-endian numbers, zero-padded texts and reads that fail
  beyond the end of the buffer. Bytes are characters.
\<close>

definition le_value :: "string \<Rightarrow> nat" where
  "le_value s = foldr (\<lambda>c n. of_char c + 256 * n) s 0"

fun le_bytes :: "nat \<Rightarrow> nat \<Rightarrow> string" where
  "le_bytes 0 n = []"
| "le_bytes (Suc k) n = char_of (n mod 256) # le_bytes k (n div 256)"

definition rstrip_nul :: "string \<Rightarrow> string" where
  "rstrip_nul s = rev (dropWhile (\<lambda>c. c = CHR 0x00) (rev s))"

text \<open>\<open>struct.unpack_from\<close> of one little-endian field.\<close>

definition unpack_le :: "nat \<Rightarrow> nat \<Rightarrow> string \<Rightarrow> string + nat" where
  "unpack_le width offset data =
     (if length data < offset + width
      then Inl (''unpack_from requires a buffer of at least '' @ str_of_nat (offset + width) @ '' bytes for unpacking ''
             @ str_of_nat width @ '' bytes at offset '' @ str_of_nat offset @ '' (actual buffer size is '' @ str_of_nat (length data) @ '')'')
      else Inr (le_value (take width (drop offset data))))"

lemma le_value_Nil [simp]: "le_value [] = 0"
  by (simp add: le_value_def)

lemma le_value_Cons [simp]: "le_value (c # s) = of_char c + 256 * le_value s"
  by (simp add: le_value_def)

lemma length_le_bytes [simp, lens]: "length (le_bytes k n) = k"
  by (induction k arbitrary: n) simp_all

lemma le_value_bytes [simp]: "le_value (le_bytes k n) = n mod 256 ^ k"
proof (induction k arbitrary: n)
  case (Suc k)
  have "n mod 256 ^ Suc k = n mod 256 + 256 * (n div 256 mod 256 ^ k)"
    by (simp add: mod_mult2_eq)
  then show ?case by (simp add: Suc)
qed simp

lemma le_value_bound: "le_value s < 256 ^ length s"
proof (induction s)
  case (Cons c s)
  have "of_char c < (256 :: nat)" by simp
  moreover have "256 * le_value s + 256 \<le> 256 * 256 ^ length s" using Cons by (metis Suc_leI mult_Suc_right add.commute mult_le_mono2)
  ultimately show ?case unfolding le_value_Cons list.size(4) add_Suc_right add_0_right power_Suc by linarith
qed simp

lemma rstrip_padded: "name = [] \<or> List.last name \<noteq> CHR 0x00 \<Longrightarrow> rstrip_nul (name @ replicate n (CHR 0x00)) = name"
proof -
  assume ok: "name = [] \<or> List.last name \<noteq> CHR 0x00"
  have "dropWhile (\<lambda>c. c = CHR 0x00) (replicate n (CHR 0x00) @ rev name) = dropWhile (\<lambda>c. c = CHR 0x00) (rev name)"
    by (induction n) simp_all
  also have "\<dots> = rev name" using ok by (cases name rule: rev_cases) simp_all
  finally show ?thesis by (simp add: rstrip_nul_def)
qed

text \<open>A field that was written is read back.\<close>

lemma unpack_at:
  assumes "offset = length pre" and "n < 256 ^ k"
  shows "unpack_le k offset (pre @ le_bytes k n @ post) = Inr n"
  using assms by (simp add: unpack_le_def)

end
