(* ===== verification/Fs_Watch.thy ===== *)
theory Fs_Watch
  imports Evidence Bytes "HOL-Library.Word"
begin

unbundle bit_operations_syntax

text \<open>
  The directory watcher of the collector (\<open>backend/app/services/telemetry/fs_watch.py\<close>): the records
  the kernel writes to the inotify descriptor, the table of watches, and the flag a waiter sleeps on.

  Arguments: the answers of \<open>inotify_add_watch\<close> and \<open>os.walk\<close>, indexed by the number of watches
  asked for so far, and what a read of the descriptor gives. Native byte order is little-endian.
\<close>

section \<open>The masks\<close>

type_synonym mask = "32 word"

definition IN_MODIFY :: mask where "IN_MODIFY = 0x00000002"

definition IN_CLOSE_WRITE :: mask where "IN_CLOSE_WRITE = 0x00000008"

definition IN_MOVED_TO :: mask where "IN_MOVED_TO = 0x00000080"

definition IN_CREATE :: mask where "IN_CREATE = 0x00000100"

definition IN_DELETE_SELF :: mask where "IN_DELETE_SELF = 0x00000400"

definition IN_MOVE_SELF :: mask where "IN_MOVE_SELF = 0x00000800"

definition IN_IGNORED :: mask where "IN_IGNORED = 0x00008000"

definition IN_ISDIR :: mask where "IN_ISDIR = 0x40000000"

definition WATCH_MASK :: mask where
  "WATCH_MASK = IN_MODIFY OR IN_CLOSE_WRITE OR IN_MOVED_TO OR IN_CREATE OR IN_DELETE_SELF OR IN_MOVE_SELF"

lemmas masks = IN_MODIFY_def IN_CLOSE_WRITE_def IN_MOVED_TO_def IN_CREATE_def IN_DELETE_SELF_def IN_MOVE_SELF_def
  IN_IGNORED_def IN_ISDIR_def WATCH_MASK_def

section \<open>The records of the kernel\<close>

definition HEADER_SIZE :: nat where
  "HEADER_SIZE = 16"

text \<open>One field of \<open>struct.Struct("iIII")\<close>.\<close>

definition field_at :: "nat \<Rightarrow> string \<Rightarrow> 32 word" where
  "field_at i s = of_nat (le_value (take 4 (drop (4 * i) s)))"

type_synonym change = "int \<times> mask \<times> string"

text \<open>The loop over the buffer; an incomplete header at its end is left alone.\<close>

function read_changes :: "string \<Rightarrow> change list" where
  "read_changes s =
     (if length s < HEADER_SIZE then []
      else (let len = unat (field_at 3 s) in
        (sint (field_at 0 s), field_at 1 s, rstrip_nul (take len (drop HEADER_SIZE s))) # read_changes (drop (HEADER_SIZE + len) s)))"
  by pat_completeness auto
termination by (relation "measure length") (auto simp: HEADER_SIZE_def)

declare read_changes.simps [simp del]

section \<open>The watcher\<close>

record watcher =
  fw_directory :: string
  fw_available :: bool
  fw_error :: "string option"
  fw_notifications :: nat
  fw_fd :: "int option"
  fw_watches :: "(int \<times> string) list"
  fw_changed :: bool
  fw_asked :: nat

record watch_env =
  fx_add :: "nat \<Rightarrow> string \<Rightarrow> string + int" \<comment> \<open>the text of the error, or the watch descriptor\<close>
  fx_walk :: "nat \<Rightarrow> string \<Rightarrow> string list"

definition new_watcher :: "string \<Rightarrow> watcher" where
  "new_watcher dir = \<lparr>fw_directory = dir, fw_available = False, fw_error = None, fw_notifications = 0, fw_fd = None,
     fw_watches = [], fw_changed = False, fw_asked = 0\<rparr>"

definition watch_count :: "watcher \<Rightarrow> nat" where
  "watch_count w = length (fw_watches w)"

definition add_watch :: "watch_env \<Rightarrow> string \<Rightarrow> watcher \<Rightarrow> watcher" where
  "add_watch env path w =
     (let n = fw_asked w; w = w\<lparr>fw_asked := Suc n\<rparr> in
      case fx_add env n path of
        Inl e \<Rightarrow> w\<lparr>fw_error := Some (''inotify_add_watch('' @ path @ '') failed: '' @ e)\<rparr>
      | Inr wd \<Rightarrow> w\<lparr>fw_watches := AList.update wd path (fw_watches w)\<rparr>)"

definition watch_tree :: "watch_env \<Rightarrow> string \<Rightarrow> watcher \<Rightarrow> watcher" where
  "watch_tree env dir w = fold (add_watch env) (fx_walk env (fw_asked w) dir) w"

definition stop_watcher :: "watcher \<Rightarrow> watcher" where
  "stop_watcher w = w\<lparr>fw_fd := None, fw_watches := [], fw_available := False\<rparr>"

text \<open>What opening the descriptor gives: the system is not Linux, the library or the call is missing,
  the call fails, or a descriptor.\<close>

datatype inotify_init = Not_linux | No_inotify string | Init_failed string | Descriptor int

definition start_watcher :: "watch_env \<Rightarrow> inotify_init \<Rightarrow> watcher \<Rightarrow> bool \<times> watcher" where
  "start_watcher env init w =
     (case init of
        Not_linux \<Rightarrow> (False, w\<lparr>fw_error := Some ''inotify is Linux-only''\<rparr>)
      | No_inotify e \<Rightarrow> (False, w\<lparr>fw_error := Some (''inotify unavailable: '' @ e)\<rparr>)
      | Init_failed e \<Rightarrow> (False, w\<lparr>fw_error := Some (''inotify_init1 failed: '' @ e)\<rparr>)
      | Descriptor fd \<Rightarrow>
          (let w = watch_tree env (fw_directory w) (w\<lparr>fw_fd := Some fd\<rparr>) in
           if fw_watches w = []
           then (False, stop_watcher (case fw_error w of
              Some (c # cs) \<Rightarrow> w | _ \<Rightarrow> w\<lparr>fw_error := Some (''nothing to watch under '' @ fw_directory w)\<rparr>))
           else (True, w\<lparr>fw_available := True\<rparr>)))"

text \<open>\<open>os.path.join\<close> of a directory and one name.\<close>

definition join_path :: "string \<Rightarrow> string \<Rightarrow> string" where
  "join_path dir name = (if starts_with ''/'' name then name
     else if dir = [] \<or> ends_with ''/'' dir then dir @ name else dir @ ''/'' @ name)"

definition handle_change :: "watch_env \<Rightarrow> change \<Rightarrow> watcher \<Rightarrow> watcher" where
  "handle_change env = (\<lambda>(wd, msk, name) w.
     if msk AND IN_IGNORED \<noteq> 0 then w\<lparr>fw_watches := AList.delete wd (fw_watches w)\<rparr>
     else if msk AND IN_ISDIR \<noteq> 0 \<and> msk AND (IN_CREATE OR IN_MOVED_TO) \<noteq> 0
     then (case map_of (fw_watches w) wd of
             Some (c # cs) \<Rightarrow> watch_tree env (join_path (c # cs) name) w | _ \<Rightarrow> w)
     else w)"

datatype read_answer = Would_block | Read_error string | Data string

definition on_readable :: "watch_env \<Rightarrow> read_answer \<Rightarrow> watcher \<Rightarrow> watcher" where
  "on_readable env answer w =
     (case answer of
        Would_block \<Rightarrow> w
      | Read_error e \<Rightarrow> w\<lparr>fw_error := Some (''inotify read failed: '' @ e)\<rparr>
      | Data d \<Rightarrow> (fold (handle_change env) (read_changes d) w)
          \<lparr>fw_notifications := fw_notifications (fold (handle_change env) (read_changes d) w) + 1, fw_changed := True\<rparr>)"

text \<open>\<open>wait\<close>: the answers are those that become readable before the timeout.\<close>

fun wait_change :: "watch_env \<Rightarrow> read_answer list \<Rightarrow> watcher \<Rightarrow> bool \<times> watcher" where
  "wait_change env [] w = (if fw_changed w then (True, w\<lparr>fw_changed := False\<rparr>) else (False, w))"
| "wait_change env (a # as) w =
     (if fw_changed w then (True, w\<lparr>fw_changed := False\<rparr>) else wait_change env as (on_readable env a w))"

section \<open>Reading what the kernel wrote\<close>

text \<open>A record as the kernel writes it: the name padded with zero bytes.\<close>

definition kernel_record :: "32 word \<times> mask \<times> 32 word \<times> string \<times> nat \<Rightarrow> string" where
  "kernel_record = (\<lambda>(wd, msk, cookie, name, pad).
     le_bytes 4 (unat wd) @ le_bytes 4 (unat msk) @ le_bytes 4 (unat cookie) @ le_bytes 4 (length name + pad) @ name @ replicate pad (CHR 0x00))"

definition kernel_record_ok :: "32 word \<times> mask \<times> 32 word \<times> string \<times> nat \<Rightarrow> bool" where
  "kernel_record_ok = (\<lambda>(wd, msk, cookie, name, pad). length name + pad < 2 ^ 32 \<and> (name = [] \<or> last name \<noteq> CHR 0x00))"

lemma field_word: "of_nat (unat w mod 4294967296) = (w :: 32 word)"
  using unsigned_less[where 'a = nat, of w] by simp

lemma read_record:
  assumes "kernel_record_ok (wd, msk, cookie, name, pad)"
  shows "read_changes (kernel_record (wd, msk, cookie, name, pad) @ rest) = (sint wd, msk, name) # read_changes rest"
proof -
  let ?s = "kernel_record (wd, msk, cookie, name, pad) @ rest"
  have len: "length name + pad < 2 ^ 32" and nul: "name = [] \<or> last name \<noteq> CHR 0x00"
    using assms by (auto simp: kernel_record_ok_def)
  have "field_at 0 ?s = wd" "field_at 1 ?s = msk"
    by (simp_all add: field_at_def kernel_record_def field_word)
  moreover have "field_at 3 ?s = of_nat (length name + pad)"
    using len by (simp add: field_at_def kernel_record_def del: of_nat_add)
  then have "unat (field_at 3 ?s) = length name + pad"
    using len by (simp add: unat_of_nat del: of_nat_add)
  moreover have "\<not> length ?s < HEADER_SIZE" by (simp add: kernel_record_def HEADER_SIZE_def)
  moreover have "take (length name + pad) (drop HEADER_SIZE ?s) = name @ replicate pad (CHR 0x00)"
    "drop (HEADER_SIZE + (length name + pad)) ?s = rest"
    by (simp_all add: kernel_record_def HEADER_SIZE_def)
  ultimately show ?thesis
    by (subst read_changes.simps) (simp add: Let_def rstrip_padded[OF nul])
qed

text \<open>What the watcher reads from its descriptor is what the kernel wrote: every record of a buffer is
  read with its watch, its mask and its name without the padding, in order, and the beginning of a
  record at the end of the buffer is left alone.\<close>

theorem reads_what_the_kernel_wrote:
  assumes "list_all kernel_record_ok rs" and "length rest < HEADER_SIZE"
  shows "read_changes (concat (map kernel_record rs) @ rest) = map (\<lambda>(wd, msk, cookie, name, pad). (sint wd, msk, name)) rs"
  using assms(1)
proof (induction rs)
  case Nil
  then show ?case using assms(2) by (subst read_changes.simps) simp
next
  case (Cons r rs)
  obtain wd msk cookie name pad where r: "r = (wd, msk, cookie, name, pad)" by (cases r)
  have "read_changes (kernel_record r @ concat (map kernel_record rs) @ rest)
      = (sint wd, msk, name) # read_changes (concat (map kernel_record rs) @ rest)"
    unfolding r by (rule read_record) (use Cons.prems r in simp)
  then show ?case using Cons r by simp
qed

section \<open>The table of watches\<close>

text \<open>A path as the code writes them: not empty and without a final slash. \<open>os.walk\<close> of such a
  directory gives such directories of its tree.\<close>

definition plain_dir :: "string \<Rightarrow> bool" where
  "plain_dir p \<longleftrightarrow> p \<noteq> [] \<and> \<not> ends_with ''/'' p"

definition walks_inside :: "watch_env \<Rightarrow> bool" where
  "walks_inside env \<longleftrightarrow> (\<forall>n dir. plain_dir dir \<longrightarrow> list_all (\<lambda>p. plain_dir p \<and> path_inside p dir) (fx_walk env n dir))"

text \<open>The kernel names the entry that was made or moved in, by a single name.\<close>

definition kernel_change :: "change \<Rightarrow> bool" where
  "kernel_change = (\<lambda>(wd, msk, name). CHR ''/'' \<notin> set name \<and> (msk AND (IN_CREATE OR IN_MOVED_TO) \<noteq> 0 \<longrightarrow> name \<noteq> []))"

definition kernel_answer :: "read_answer \<Rightarrow> bool" where
  "kernel_answer a = (case a of Data d \<Rightarrow> list_all kernel_change (read_changes d) | _ \<Rightarrow> True)"

definition watched :: "watcher \<Rightarrow> bool" where
  "watched w \<longleftrightarrow> distinct (map fst (fw_watches w)) \<and> plain_dir (fw_directory w)
     \<and> list_all (\<lambda>(_, p). plain_dir p \<and> path_inside p (fw_directory w)) (fw_watches w)"

definition watcher_ok :: "watcher \<Rightarrow> bool" where
  "watcher_ok w \<longleftrightarrow> watched w \<and> (fw_fd w = None \<longrightarrow> fw_watches w = [] \<and> \<not> fw_available w)"

datatype watch_event = Start inotify_init | Readable read_answer | Waiting "read_answer list" | Stop

text \<open>The event loop calls the reader only while the descriptor is open.\<close>

fun watch_step :: "watch_env \<Rightarrow> watcher \<Rightarrow> watch_event \<Rightarrow> watcher" where
  "watch_step env w (Start init) = (if fw_fd w = None then snd (start_watcher env init w) else w)"
| "watch_step env w (Readable a) = (if fw_fd w = None then w else on_readable env a w)"
| "watch_step env w (Waiting as) = snd (wait_change env (if fw_fd w = None then [] else as) w)"
| "watch_step env w Stop = stop_watcher w"

fun kernel_event :: "watch_event \<Rightarrow> bool" where
  "kernel_event (Readable a) = kernel_answer a"
| "kernel_event (Waiting as) = list_all kernel_answer as"
| "kernel_event _ = True"

lemma path_inside_trans: "path_inside p q \<Longrightarrow> path_inside q r \<Longrightarrow> path_inside p r"
  by (auto simp: path_inside_def starts_with_iff)

lemma joined:
  assumes "plain_dir p" "path_inside p dir" "CHR ''/'' \<notin> set name" "name \<noteq> []"
  shows "plain_dir (join_path p name)" "path_inside (join_path p name) dir"
proof -
  have j: "join_path p name = p @ ''/'' @ name"
    using assms by (auto simp: join_path_def plain_dir_def starts_with_iff)
  show "plain_dir (join_path p name)"
    unfolding j using assms(3,4) by (cases name rule: rev_cases) (auto simp: plain_dir_def ends_with_def starts_with_iff)
  show "path_inside (join_path p name) dir"
    using assms(2) by (auto simp: j path_inside_def starts_with_iff)
qed

text \<open>Adding watches keeps everything but the table, the error and the counter.\<close>

lemma add_watch_frame [simp]:
  "fw_directory (add_watch env p w) = fw_directory w" "fw_fd (add_watch env p w) = fw_fd w"
  "fw_available (add_watch env p w) = fw_available w" "fw_asked (add_watch env p w) = Suc (fw_asked w)"
  by (simp_all add: add_watch_def Let_def split: sum.splits)

lemma add_watches_frame [simp]:
  "fw_directory (fold (add_watch env) ps w) = fw_directory w" "fw_fd (fold (add_watch env) ps w) = fw_fd w"
  "fw_available (fold (add_watch env) ps w) = fw_available w"
  by (induction ps arbitrary: w) simp_all

lemma list_all_updated: "list_all P al \<Longrightarrow> P (k, v) \<Longrightarrow> list_all P (AList.update k v al)"
  by (induction al) auto

lemma add_watch_watched: "watched w \<Longrightarrow> plain_dir p \<Longrightarrow> path_inside p (fw_directory w) \<Longrightarrow> watched (add_watch env p w)"
  by (auto simp: add_watch_def watched_def Let_def distinct_update intro!: list_all_updated split: sum.splits)

lemma add_watches_watched:
  "watched w \<Longrightarrow> list_all (\<lambda>p. plain_dir p \<and> path_inside p (fw_directory w)) ps \<Longrightarrow> watched (fold (add_watch env) ps w)"
  by (induction ps arbitrary: w) (simp_all add: add_watch_watched)

lemma watch_tree_watched:
  assumes "walks_inside env" "watched w" "plain_dir p" "path_inside p (fw_directory w)"
  shows "watched (watch_tree env p w)"
proof -
  have "list_all (\<lambda>q. plain_dir q \<and> path_inside q p) (fx_walk env (fw_asked w) p)"
    using assms(1,3) by (simp add: walks_inside_def)
  then have "list_all (\<lambda>q. plain_dir q \<and> path_inside q (fw_directory w)) (fx_walk env (fw_asked w) p)"
    using assms(4) by (auto simp: list_all_iff intro: path_inside_trans)
  with assms(2) show ?thesis by (simp add: watch_tree_def add_watches_watched)
qed

lemma handle_change_frame [simp]:
  "fw_directory (handle_change env c w) = fw_directory w" "fw_fd (handle_change env c w) = fw_fd w"
  by (simp_all add: handle_change_def watch_tree_def split: prod.split option.split list.split)

lemma handle_watched:
  assumes "walks_inside env" "watched w" "kernel_change c"
  shows "watched (handle_change env c w)"
proof -
  obtain wd m name where c: "c = (wd, m, name)" by (cases c)
  have drop: "watched (w\<lparr>fw_watches := AList.delete wd (fw_watches w)\<rparr>)"
    using assms(2) by (auto simp: watched_def list_all_iff AList.delete_eq distinct_map inj_on_def)
  have grow: "watched (watch_tree env (join_path p name) w)"
    if "map_of (fw_watches w) wd = Some p" "m AND (IN_CREATE OR IN_MOVED_TO) \<noteq> 0" for p
  proof -
    have "plain_dir p \<and> path_inside p (fw_directory w)"
      using map_of_SomeD[OF that(1)] assms(2) by (auto simp: watched_def list_all_iff)
    then show ?thesis using assms(3) that(2) joined[of p "fw_directory w" name] c
      by (intro watch_tree_watched[OF assms(1,2)]) (auto simp: kernel_change_def)
  qed
  show ?thesis using drop grow assms(2) by (simp add: handle_change_def c split: option.split list.split)
qed

lemma handle_all_watched:
  "walks_inside env \<Longrightarrow> watched w \<Longrightarrow> list_all kernel_change cs \<Longrightarrow>
   watched (fold (handle_change env) cs w) \<and> fw_fd (fold (handle_change env) cs w) = fw_fd w"
  by (induction cs arbitrary: w) (simp_all add: handle_watched)

lemma readable_watched:
  assumes "walks_inside env" "watcher_ok w" "fw_fd w \<noteq> None" "kernel_answer a"
  shows "watcher_ok (on_readable env a w)" "fw_fd (on_readable env a w) = fw_fd w"
  using assms handle_all_watched[of env w]
  by (auto simp: on_readable_def kernel_answer_def watcher_ok_def watched_def split: read_answer.splits)

lemma waiting_watched:
  "walks_inside env \<Longrightarrow> watcher_ok w \<Longrightarrow> as = [] \<or> fw_fd w \<noteq> None \<Longrightarrow> list_all kernel_answer as \<Longrightarrow>
   watcher_ok (snd (wait_change env as w))"
proof (induction as arbitrary: w)
  case (Cons a as)
  have flag: "watcher_ok (w\<lparr>fw_changed := False\<rparr>)" using Cons.prems(2) by (simp add: watcher_ok_def watched_def)
  have fd: "fw_fd w \<noteq> None" using Cons.prems(3) by simp
  have a: "kernel_answer a" "list_all kernel_answer as" using Cons.prems(4) by simp_all
  have "watcher_ok (snd (wait_change env as (on_readable env a w)))"
    by (rule Cons.IH[OF Cons.prems(1) readable_watched(1)[OF Cons.prems(1,2) fd a(1)] _ a(2)])
       (use readable_watched(2)[OF Cons.prems(1,2) fd a(1)] fd in simp)
  with flag show ?case by simp
qed (simp add: watcher_ok_def watched_def)

lemma started_watched:
  assumes "walks_inside env" "watcher_ok w"
  shows "watcher_ok (snd (start_watcher env init w))"
proof (cases init)
  case (Descriptor fd)
  have "watched (watch_tree env (fw_directory w) (w\<lparr>fw_fd := Some fd\<rparr>))"
    using assms by (intro watch_tree_watched[OF assms(1)]) (simp_all add: watcher_ok_def watched_def path_inside_def)
  then show ?thesis
    by (auto simp: Descriptor start_watcher_def Let_def watcher_ok_def watched_def stop_watcher_def watch_tree_def
        split: option.splits list.splits)
qed (use assms in \<open>simp_all add: start_watcher_def watcher_ok_def watched_def\<close>)

text \<open>Whatever is started, stopped, read and waited for: no watch descriptor is kept twice, every watched
  path lies in the telemetry directory, and a watcher without a descriptor watches nothing and says so.\<close>

theorem watches_stay_inside:
  assumes "walks_inside env" "plain_dir dir" "list_all kernel_event es"
  shows "watcher_ok (foldl (watch_step env) (new_watcher dir) es)"
  using assms(3)
proof (induction es rule: rev_induct)
  case Nil
  then show ?case using assms(2) by (simp add: new_watcher_def watcher_ok_def watched_def)
next
  case (snoc e es)
  then have ok: "watcher_ok (foldl (watch_step env) (new_watcher dir) es)" and e: "kernel_event e" by simp_all
  then show ?case
    using started_watched[OF assms(1) ok] readable_watched(1)[OF assms(1) ok] waiting_watched[OF assms(1) ok]
    by (cases e) (auto simp: stop_watcher_def watcher_ok_def watched_def)
qed

section \<open>No change is missed\<close>

definition is_data :: "read_answer \<Rightarrow> bool" where
  "is_data a = (case a of Data _ \<Rightarrow> True | _ \<Rightarrow> False)"

lemma handle_changed [simp]: "fw_changed (fold (handle_change env) cs w) = fw_changed w"
proof -
  have "fw_changed (add_watch env p w) = fw_changed w" for p w by (simp add: add_watch_def Let_def split: sum.splits)
  then have "fw_changed (fold (add_watch env) ps w) = fw_changed w" for ps w by (induction ps arbitrary: w) simp_all
  then have "fw_changed (handle_change env c w) = fw_changed w" for c w
    by (simp add: handle_change_def watch_tree_def split: prod.split option.split list.split)
  then show ?thesis by (induction cs arbitrary: w) simp_all
qed

lemma readable_flag: "fw_changed (on_readable env a w) \<longleftrightarrow> fw_changed w \<or> is_data a"
  by (simp add: on_readable_def is_data_def split: read_answer.split)

text \<open>A waiter is woken exactly when something was written under the directory since it last woke,
  while it was busy or while it waits; waking up clears the flag, so that one burst wakes it once.\<close>

theorem no_change_is_missed:
  "fst (wait_change env now_read (foldl (\<lambda>w a. on_readable env a w) w earlier)) = (fw_changed w \<or> list_ex is_data (earlier @ now_read))
   \<and> \<not> fw_changed (snd (wait_change env now_read (foldl (\<lambda>w a. on_readable env a w) w earlier)))"
proof -
  have "fst (wait_change env as w) = (fw_changed w \<or> list_ex is_data as) \<and> \<not> fw_changed (snd (wait_change env as w))" for as w
    by (induction as arbitrary: w) (auto simp: readable_flag)
  moreover have "fw_changed (foldl (\<lambda>w a. on_readable env a w) w as) = (fw_changed w \<or> list_ex is_data as)" for as w
    by (induction as arbitrary: w) (auto simp: readable_flag)
  ultimately show ?thesis by auto
qed

text \<open>A directory that appears is watched, with every directory the walk finds below it.\<close>

lemma watches_kept: "wd \<in> fst ` set (fw_watches w) \<Longrightarrow> wd \<in> fst ` set (fw_watches (fold (add_watch env) ps w))"
proof (induction ps arbitrary: w)
  case (Cons p ps)
  have "wd \<in> fst ` set (fw_watches (add_watch env p w))"
    using Cons.prems by (auto simp: add_watch_def Let_def dom_update split: sum.split)
  then show ?case using Cons.IH by simp
qed simp

lemma new_directory_is_watched:
  assumes "i < length ps" "fx_add env (fw_asked w + i) (ps ! i) = Inr wd"
  shows "wd \<in> fst ` set (fw_watches (fold (add_watch env) ps w))"
  using assms
proof (induction ps arbitrary: w i)
  case (Cons p ps)
  show ?case
  proof (cases i)
    case 0
    then have "wd \<in> fst ` set (fw_watches (add_watch env p w))"
      using Cons.prems(2) by (simp add: add_watch_def Let_def dom_update)
    then show ?thesis by (simp add: watches_kept)
  next
    case (Suc j)
    then show ?thesis using Cons.IH[of j "add_watch env p w"] Cons.prems by simp
  qed
qed simp

section \<open>Witnesses\<close>

definition demo_watch :: watch_env where
  "demo_watch = \<lparr>fx_add = (\<lambda>n p. Inr (int n + 1)), fx_walk = (\<lambda>n dir. [dir, dir @ ''/cowrie''])\<rparr>"

lemma demo_walks: "walks_inside demo_watch"
  by (auto simp: walks_inside_def demo_watch_def plain_dir_def path_inside_def starts_with_iff ends_with_def)

theorem watches_stay_inside_witness:
  "watcher_ok (foldl (watch_step demo_watch) (new_watcher ''/raw'') [Start (Descriptor 5), Waiting [Would_block], Stop])"
  by (rule watches_stay_inside[OF demo_walks]) (simp_all add: plain_dir_def ends_with_def starts_with_def kernel_answer_def)

theorem reads_what_the_kernel_wrote_witness:
  "read_changes (concat (map kernel_record [(1, IN_MODIFY, 0, ''cowrie.json'', 4), (2, IN_IGNORED, 0, [], 0)]) @ [CHR 0x01])
     = [(1, IN_MODIFY, ''cowrie.json''), (2, IN_IGNORED, [])]"
proof -
  have "list_all kernel_record_ok [(1, IN_MODIFY, 0, ''cowrie.json'', 4), (2, IN_IGNORED, 0, [], 0)]" by (simp add: kernel_record_ok_def)
  from reads_what_the_kernel_wrote[OF this, of "[CHR 0x01]"] show ?thesis by (simp add: HEADER_SIZE_def)
qed

end
