(* ===== verification/Ai_Engine.thy ===== *)
theory Ai_Engine
  imports Prelude
begin

text \<open>
  The on-demand analysis of one event (\<open>backend/ai_engine/classifier.py\<close> and \<open>mitre_map.py\<close>): five
  signatures on the payload, then three thresholds on what the same address sent during the last minute.

  The patterns are alternations of plain texts without regard to case. The history is a dictionary in
  insertion order; the clock is read once per call.
\<close>

section \<open>Signatures\<close>

text \<open>\<open>re.search\<close> of an alternation of texts under \<open>(?i)\<close>.\<close>

definition payload_mentions :: "string list \<Rightarrow> string \<Rightarrow> bool" where
  "payload_mentions ws s = list_ex (\<lambda>w. contains_str (lower w) (lower s)) ws"

definition AI_RULES :: "(string \<times> string list) list" where
  "AI_RULES =
     [(''SQL_INJECTION'', [''SELECT'', ''UNION'', ''INSERT'', ''DELETE'', ''UPDATE'', ''DROP'', ''--'', ''#'', ''/*'', ''HAVING'', ''EXEC'']),
      (''XSS'', [''<script'', ''javascript:'', ''onload='', ''onerror='', ''alert('', ''document.cookie'']),
      (''PATH_TRAVERSAL'', [''../'', ''..'' @ [CHR 0x5C], ''/etc/passwd'', ''c:'' @ [CHR 0x5C] @ ''windows'']),
      (''COMMAND_INJECTION'', ['';'', ''|'', [CHR 0x60], ''$('', ''&&'']),
      (''SSH_BRUTE_FORCE'', [''Failed password'', ''Invalid user'', ''authentication failure''])]"

definition auth_failure :: "string \<Rightarrow> bool" where
  "auth_failure payload = payload_mentions [''Failed password'', ''Invalid user'', ''authentication failure''] payload"

definition severity_of_rule :: "string \<Rightarrow> string" where
  "severity_of_rule name =
     (if name \<in> {''SQL_INJECTION'', ''COMMAND_INJECTION''} then ''CRITICAL''
      else if name \<in> {''XSS'', ''SSH_BRUTE_FORCE''} then ''HIGH'' else ''MEDIUM'')"

text \<open>The loop over the rules: the attacks found so far and the severity of the latest.\<close>

definition signature_pass :: "string \<Rightarrow> string list \<times> string" where
  "signature_pass payload =
     fold (\<lambda>(name, ws) (found, sev). if payload_mentions ws payload then (found @ [name], severity_of_rule name) else (found, sev))
       AI_RULES ([], ''LOW'')"

section \<open>Behaviour\<close>

record sent_request =
  rq_at :: time
  rq_port :: "int option"
  rq_payload :: string

type_synonym request_history = "(string \<times> sent_request list) list"

definition PORT_SCAN_THRESHOLD :: nat where "PORT_SCAN_THRESHOLD = 5"

definition PORT_SCAN_WINDOW :: time where "PORT_SCAN_WINDOW = seconds 10"

definition DDOS_THRESHOLD :: nat where "DDOS_THRESHOLD = 20"

definition DDOS_WINDOW :: time where "DDOS_WINDOW = seconds 5"

definition BRUTE_FORCE_THRESHOLD :: nat where "BRUTE_FORCE_THRESHOLD = 5"

definition BRUTE_FORCE_WINDOW :: time where "BRUTE_FORCE_WINDOW = seconds 60"

definition last_in :: "time \<Rightarrow> time \<Rightarrow> sent_request list \<Rightarrow> sent_request list" where
  "last_in window now rs = filter (\<lambda>e. now - rq_at e < window) rs"

text \<open>The items of \<open>history[ip]\<close>; a missing key reads as the empty list of the \<open>defaultdict\<close>.\<close>

definition remembered :: "string \<Rightarrow> request_history \<Rightarrow> sent_request list" where
  "remembered ip h = (case map_of h ip of Some es \<Rightarrow> es | None \<Rightarrow> [])"

definition cleanup_history :: "time \<Rightarrow> string \<Rightarrow> request_history \<Rightarrow> request_history" where
  "cleanup_history now ip h =
     (let es = last_in BRUTE_FORCE_WINDOW now (remembered ip h) in
      if es = [] then AList.delete ip h else AList.update ip es h)"

definition scanned_ports :: "sent_request list \<Rightarrow> int list" where
  "scanned_ports rs = remdups (concat (map (\<lambda>e. case rq_port e of Some p \<Rightarrow> (if p \<noteq> 0 then [p] else []) | None \<Rightarrow> []) rs))"

definition detect_behavioral :: "time \<Rightarrow> string \<Rightarrow> request_history \<Rightarrow> string option" where
  "detect_behavioral now ip h =
     (case map_of h ip of
        None \<Rightarrow> None
      | Some es \<Rightarrow>
          if es = [] then None
          else if DDOS_THRESHOLD < length (last_in DDOS_WINDOW now es) then Some ''DDOS''
          else if PORT_SCAN_THRESHOLD < length (scanned_ports (last_in PORT_SCAN_WINDOW now es)) then Some ''NMAP_SCAN''
          else if BRUTE_FORCE_THRESHOLD < length (filter (auth_failure \<circ> rq_payload) (last_in BRUTE_FORCE_WINDOW now es))
          then Some ''BRUTE_FORCE'' else None)"

definition map_attack_to_mitre :: "string \<Rightarrow> (string \<times> string \<times> string) option" where
  "map_attack_to_mitre attack = map_of
     [(''SQL_INJECTION'', (''T1190'', ''Exploit Public-Facing Application'', ''Initial Access'')),
      (''XSS'', (''T1059.007'', ''Command and Scripting Interpreter: JavaScript'', ''Execution'')),
      (''PATH_TRAVERSAL'', (''T1006'', ''Direct Volume Access'', ''Defense Evasion'')),
      (''COMMAND_INJECTION'', (''T1059'', ''Command and Scripting Interpreter'', ''Execution'')),
      (''SSH_BRUTE_FORCE'', (''T1110'', ''Brute Force'', ''Credential Access'')),
      (''NMAP_SCAN'', (''T1595.001'', ''Active Scanning: Scanning IP Blocks'', ''Reconnaissance'')),
      (''DDOS'', (''T1498'', ''Network Denial of Service'', ''Impact'')),
      (''BRUTE_FORCE'', (''T1110'', ''Brute Force'', ''Credential Access''))] attack"

record ai_result =
  ai_type :: string
  ai_severity :: string
  ai_mitre :: "(string \<times> string \<times> string) option"

definition severity_of_behavior :: "string \<Rightarrow> string \<Rightarrow> string" where
  "severity_of_behavior attack sev =
     (if attack = ''DDOS'' then ''CRITICAL'' else if attack \<in> {''NMAP_SCAN'', ''BRUTE_FORCE''} then ''HIGH'' else sev)"

text \<open>The end of \<open>analyze_log\<close>: the last attack found is the primary one.\<close>

definition ai_verdict :: "string \<Rightarrow> string option \<Rightarrow> ai_result" where
  "ai_verdict payload behavior =
     (let (found, sev) = signature_pass payload;
          (found, sev) = (case behavior of None \<Rightarrow> (found, sev) | Some a \<Rightarrow> (found @ [a], severity_of_behavior a sev)) in
      if found = [] then \<lparr>ai_type = ''NORMAL'', ai_severity = ''INFO'', ai_mitre = None\<rparr>
      else \<lparr>ai_type = List.last found, ai_severity = sev, ai_mitre = map_attack_to_mitre (List.last found)\<rparr>)"

definition analyze_log :: "time \<Rightarrow> string \<Rightarrow> string option \<Rightarrow> int option \<Rightarrow> request_history \<Rightarrow> ai_result \<times> request_history" where
  "analyze_log now payload ip port h =
     (case ip of
        Some (c # cs) \<Rightarrow>
          (let ip = c # cs;
               h = AList.update ip (remembered ip h @ [\<lparr>rq_at = now, rq_port = port, rq_payload = payload\<rparr>]) h;
               h = cleanup_history now ip h
           in (ai_verdict payload (detect_behavioral now ip h), h))
      | _ \<Rightarrow> (ai_verdict payload None, h))"

section \<open>The history is long enough\<close>

type_synonym ai_call = "string \<times> sent_request" \<comment> \<open>an address, and what it sent when\<close>

definition call_engine :: "ai_call \<Rightarrow> request_history \<Rightarrow> ai_result \<times> request_history" where
  "call_engine c h = analyze_log (rq_at (snd c)) (rq_payload (snd c)) (Some (fst c)) (rq_port (snd c)) h"

definition sent_by :: "string \<Rightarrow> ai_call list \<Rightarrow> sent_request list" where
  "sent_by ip cs = map snd (filter (\<lambda>c. fst c = ip) cs)"

text \<open>What the engine means to look for, over everything an address ever sent.\<close>

definition behavior_seen :: "time \<Rightarrow> sent_request list \<Rightarrow> string option" where
  "behavior_seen now rs =
     (if 20 < length (filter (\<lambda>e. now - rq_at e < seconds 5) rs) then Some ''DDOS''
      else if 5 < card {p. p \<noteq> 0 \<and> (\<exists>e \<in> set rs. now - rq_at e < seconds 10 \<and> rq_port e = Some p)} then Some ''NMAP_SCAN''
      else if 5 < length (filter (\<lambda>e. now - rq_at e < seconds 60 \<and> auth_failure (rq_payload e)) rs) then Some ''BRUTE_FORCE''
      else None)"

lemma last_in_last_in: "a \<le> b \<Longrightarrow> last_in a now (last_in b now rs) = last_in a now rs"
  by (auto simp: last_in_def intro: filter_cong)

lemma last_in_later: "now \<le> now' \<Longrightarrow> last_in w now' (last_in w now rs) = last_in w now' rs"
  by (auto simp: last_in_def intro: filter_cong)

lemma set_scanned_ports:
  "set (scanned_ports rs) = {p. p \<noteq> 0 \<and> (\<exists>e \<in> set rs. rq_port e = Some p)}"
  by (force simp: scanned_ports_def split: option.splits if_splits)

lemma length_scanned_ports: "length (scanned_ports rs) = card {p. p \<noteq> 0 \<and> (\<exists>e \<in> set rs. rq_port e = Some p)}"
proof -
  have "length (scanned_ports rs) = card (set (scanned_ports rs))"
    by (simp add: scanned_ports_def length_remdups_card_conv)
  then show ?thesis by (simp only: set_scanned_ports)
qed

lemma detect_is_seen:
  assumes "map_of h ip = Some (last_in (seconds 60) now rs)" and "last_in (seconds 60) now rs \<noteq> []"
  shows "detect_behavioral now ip h = behavior_seen now rs"
proof -
  have w: "last_in DDOS_WINDOW now (last_in (seconds 60) now rs) = last_in (seconds 5) now rs"
    "last_in PORT_SCAN_WINDOW now (last_in (seconds 60) now rs) = last_in (seconds 10) now rs"
    "last_in BRUTE_FORCE_WINDOW now (last_in (seconds 60) now rs) = last_in (seconds 60) now rs"
    by (simp_all add: last_in_last_in DDOS_WINDOW_def PORT_SCAN_WINDOW_def BRUTE_FORCE_WINDOW_def seconds_def)
  have ports: "length (scanned_ports (last_in (seconds 10) now rs))
      = card {p. p \<noteq> 0 \<and> (\<exists>e \<in> set rs. now - rq_at e < seconds 10 \<and> rq_port e = Some p)}"
    unfolding length_scanned_ports by (rule arg_cong[where f = card]) (auto simp: last_in_def)
  have fails: "length (filter (auth_failure \<circ> rq_payload) (last_in (seconds 60) now rs))
      = length (filter (\<lambda>e. now - rq_at e < seconds 60 \<and> auth_failure (rq_payload e)) rs)"
    by (simp add: last_in_def comp_def conj_commute)
  show ?thesis
    using assms(2) by (simp add: detect_behavioral_def assms(1) w ports fails behavior_seen_def DDOS_THRESHOLD_def
        PORT_SCAN_THRESHOLD_def BRUTE_FORCE_THRESHOLD_def)
      (simp add: last_in_def)
qed

text \<open>What is remembered of an address is what it sent during the minute before its latest call.\<close>

definition minute_kept :: "ai_call list \<Rightarrow> request_history \<Rightarrow> bool" where
  "minute_kept cs h \<longleftrightarrow> (\<forall>ip. remembered ip h =
     (if sent_by ip cs = [] then [] else last_in (seconds 60) (rq_at (List.last (sent_by ip cs))) (sent_by ip cs)))"

lemma remembered_update: "remembered ip (AList.update k v h) = (if ip = k then v else remembered ip h)"
  by (simp add: remembered_def update_conv')

lemma remembered_delete: "remembered ip (AList.delete k h) = (if ip = k then [] else remembered ip h)"
  by (simp add: remembered_def delete_conv')

lemma call_keeps_minute:
  assumes "minute_kept cs h" and "ip \<noteq> []" and "list_all (\<lambda>c. rq_at (snd c) \<le> rq_at r) cs"
  shows "minute_kept (cs @ [(ip, r)]) (snd (call_engine (ip, r) h))"
    and "fst (call_engine (ip, r) h) = ai_verdict (rq_payload r) (behavior_seen (rq_at r) (sent_by ip (cs @ [(ip, r)])))"
proof -
  let ?rs = "sent_by ip cs @ [r]"
  have sent: "sent_by k (cs @ [(ip, r)]) = (if k = ip then ?rs else sent_by k cs)" for k
    by (simp add: sent_by_def)
  have older: "rq_at (List.last (sent_by ip cs)) \<le> rq_at r" if "sent_by ip cs \<noteq> []"
    using List.last_in_set[OF that] assms(3) by (auto simp: sent_by_def list_all_iff)
  have rem: "last_in (seconds 60) (rq_at r) (remembered ip h @ [r]) = last_in (seconds 60) (rq_at r) ?rs"
  proof (cases "sent_by ip cs = []")
    case False
    then have "last_in (seconds 60) (rq_at r) (remembered ip h) = last_in (seconds 60) (rq_at r) (sent_by ip cs)"
      using assms(1) last_in_later[OF older[OF False]] by (simp add: minute_kept_def)
    then show ?thesis by (simp add: last_in_def)
  qed (use assms(1) in \<open>simp add: minute_kept_def\<close>)
  have ne: "last_in (seconds 60) (rq_at r) ?rs \<noteq> []" by (simp add: last_in_def seconds_def)
  let ?h = "cleanup_history (rq_at r) ip (AList.update ip (remembered ip h @ [r]) h)"
  have h: "?h = AList.update ip (last_in (seconds 60) (rq_at r) ?rs) (AList.update ip (remembered ip h @ [r]) h)"
    using rem ne by (simp add: cleanup_history_def remembered_update BRUTE_FORCE_WINDOW_def Let_def)
  have r: "\<lparr>rq_at = rq_at r, rq_port = rq_port r, rq_payload = rq_payload r\<rparr> = r" by simp
  have call: "call_engine (ip, r) h = (ai_verdict (rq_payload r) (detect_behavioral (rq_at r) ip ?h), ?h)"
    using assms(2) by (cases ip) (simp_all add: call_engine_def analyze_log_def Let_def r)
  have "map_of ?h ip = Some (last_in (seconds 60) (rq_at r) ?rs)" unfolding h by (simp add: update_conv')
  from detect_is_seen[OF this ne]
  show "fst (call_engine (ip, r) h) = ai_verdict (rq_payload r) (behavior_seen (rq_at r) (sent_by ip (cs @ [(ip, r)])))"
    by (simp add: call sent)
  show "minute_kept (cs @ [(ip, r)]) (snd (call_engine (ip, r) h))"
  proof -
    define h' where "h' = ?h"
    have "remembered k h' = (if k = ip then last_in (seconds 60) (rq_at r) ?rs else remembered k h)" for k
      unfolding h'_def h remembered_update by simp
    then have "minute_kept (cs @ [(ip, r)]) h'"
      using assms(1) by (simp add: minute_kept_def sent)
    then show ?thesis by (simp only: call h'_def snd_conv)
  qed
qed

lemma run_keeps_minute:
  assumes "sorted (map (rq_at \<circ> snd) cs)" and "list_all (\<lambda>c. fst c \<noteq> []) cs"
  shows "minute_kept cs (fold (\<lambda>c h. snd (call_engine c h)) cs [])"
  using assms
proof (induction cs rule: rev_induct)
  case Nil
  then show ?case by (simp add: minute_kept_def remembered_def sent_by_def)
next
  case (snoc c cs)
  obtain k q where c: "c = (k, q)" by (cases c)
  have "minute_kept cs (fold (\<lambda>c h. snd (call_engine c h)) cs [])"
    using snoc by (simp add: sorted_append)
  from call_keeps_minute(1)[OF this, of k q] show ?case
    using snoc.prems by (simp add: c sorted_append list_all_iff)
qed

text \<open>C39. The engine forgets what is older than a minute, yet answers every call as if it remembered
  everything the address ever sent, in any sequence of calls in the order of time.\<close>

theorem forgetting_is_harmless:
  assumes "sorted (map (rq_at \<circ> snd) (cs @ [(ip, r)]))" and "list_all (\<lambda>c. fst c \<noteq> []) cs" and "ip \<noteq> []"
  shows "fst (call_engine (ip, r) (fold (\<lambda>c h. snd (call_engine c h)) cs []))
      = ai_verdict (rq_payload r) (behavior_seen (rq_at r) (sent_by ip (cs @ [(ip, r)])))"
proof -
  have "minute_kept cs (fold (\<lambda>c h. snd (call_engine c h)) cs [])"
    by (rule run_keeps_minute) (use assms in \<open>simp_all add: sorted_append\<close>)
  from call_keeps_minute(2)[OF this assms(3), of r] show ?thesis
    using assms(1) by (simp add: sorted_append list_all_iff)
qed

definition demo_calls :: "ai_call list" where
  "demo_calls = map (\<lambda>i. (''203.0.113.9'', \<lparr>rq_at = 0, rq_port = Some i, rq_payload = []\<rparr>)) [1, 2, 3, 4, 5]"

theorem forgetting_is_harmless_witness:
  "ai_type (fst (call_engine (''203.0.113.9'', \<lparr>rq_at = 1, rq_port = Some 22, rq_payload = []\<rparr>)
     (fold (\<lambda>c h. snd (call_engine c h)) demo_calls []))) = ''NMAP_SCAN''"
proof -
  let ?r = "\<lparr>rq_at = 1, rq_port = Some 22, rq_payload = []\<rparr>"
  let ?ports = "{p :: int. p \<noteq> 0 \<and> (\<exists>e \<in> set (sent_by ''203.0.113.9'' (demo_calls @ [(''203.0.113.9'', ?r)])).
    rq_at ?r - rq_at e < seconds 10 \<and> rq_port e = Some p)}"
  have "?ports = {1, 2, 3, 4, 5, 22}" by (auto simp: demo_calls_def sent_by_def seconds_def)
  then have "5 < card ?ports" by simp
  then have seen: "behavior_seen (rq_at ?r) (sent_by ''203.0.113.9'' (demo_calls @ [(''203.0.113.9'', ?r)])) = Some ''NMAP_SCAN''"
    unfolding behavior_seen_def by (simp add: demo_calls_def sent_by_def)
  have "fst (call_engine (''203.0.113.9'', ?r) (fold (\<lambda>c h. snd (call_engine c h)) demo_calls []))
      = ai_verdict (rq_payload ?r) (behavior_seen (rq_at ?r) (sent_by ''203.0.113.9'' (demo_calls @ [(''203.0.113.9'', ?r)])))"
    by (rule forgetting_is_harmless) (simp_all add: demo_calls_def)
  then show ?thesis unfolding seen by (simp add: ai_verdict_def Let_def split: prod.split)
qed

section \<open>What the verdict is worth\<close>

text \<open>Every attack the engine can name has its technique.\<close>

lemma attack_names: "signature_pass payload = (found, sev) \<Longrightarrow> set found \<subseteq> fst ` set AI_RULES"
proof -
  have "set (fst (fold (\<lambda>(name, ws) (found, sev). if payload_mentions ws payload then (found @ [name], severity_of_rule name) else (found, sev))
      rs (f, v))) \<subseteq> set f \<union> fst ` set rs" for rs f v
    by (induction rs arbitrary: f v) (fastforce split: if_splits)+
  from this[of AI_RULES "[]" "''LOW''"] show "signature_pass payload = (found, sev) \<Longrightarrow> set found \<subseteq> fst ` set AI_RULES"
    by (simp add: signature_pass_def)
qed

lemma every_name_mapped:
  "list_all (\<lambda>n. map_attack_to_mitre n \<noteq> None) (map fst AI_RULES @ [''DDOS'', ''NMAP_SCAN'', ''BRUTE_FORCE''])"
  by code_simp

lemma name_mapped: "n \<in> fst ` set AI_RULES \<or> n \<in> {''DDOS'', ''NMAP_SCAN'', ''BRUTE_FORCE''} \<Longrightarrow> map_attack_to_mitre n \<noteq> None"
  using every_name_mapped by (auto simp: list_all_iff)

lemma verdict_mapped:
  assumes "b = None \<or> the b \<in> {''DDOS'', ''NMAP_SCAN'', ''BRUTE_FORCE''}"
  shows "ai_mitre (ai_verdict payload b) \<noteq> None \<or> ai_type (ai_verdict payload b) = ''NORMAL''"
proof -
  obtain found sev where s: "signature_pass payload = (found, sev)" by (metis surj_pair)
  have "map_attack_to_mitre (List.last found) \<noteq> None" if "found \<noteq> []"
    using name_mapped attack_names[OF s] List.last_in_set[OF that] by blast
  moreover have "map_attack_to_mitre (the b) \<noteq> None" if "b \<noteq> None"
    using that assms name_mapped by blast
  ultimately show ?thesis by (cases b; cases "found = []") (simp_all add: ai_verdict_def s)
qed

lemma attacks_are_mapped:
  assumes "ai_type (fst (analyze_log now payload ip port h)) \<noteq> ''NORMAL''"
  shows "ai_mitre (fst (analyze_log now payload ip port h)) \<noteq> None"
proof -
  have "detect_behavioral now k h = None \<or> the (detect_behavioral now k h) \<in> {''DDOS'', ''NMAP_SCAN'', ''BRUTE_FORCE''}" for k h
    by (simp add: detect_behavioral_def split: option.split)
  note mapped = verdict_mapped[OF this] verdict_mapped[of None]
  consider (anonymous) "fst (analyze_log now payload ip port h) = ai_verdict payload None"
    | (known) k h' where "fst (analyze_log now payload ip port h) = ai_verdict payload (detect_behavioral now k h')"
    by (cases ip; cases "the ip = []") (auto simp: analyze_log_def Let_def neq_Nil_conv)
  then show ?thesis using assms mapped by cases metis+
qed

text \<open>The severity is the one of the last signature that matches, not the most severe.\<close>

lemma later_signature_lowers_severity:
  assumes "payload_mentions (the (map_of AI_RULES ''SQL_INJECTION'')) payload" and "payload_mentions (the (map_of AI_RULES ''PATH_TRAVERSAL'')) payload"
    and "\<not> payload_mentions (the (map_of AI_RULES ''COMMAND_INJECTION'')) payload"
    and "\<not> payload_mentions (the (map_of AI_RULES ''SSH_BRUTE_FORCE'')) payload"
  shows "ai_severity (ai_verdict payload None) = ''MEDIUM''" "severity_of_rule ''SQL_INJECTION'' = ''CRITICAL''"
  using assms by (simp_all add: ai_verdict_def signature_pass_def AI_RULES_def severity_of_rule_def Let_def)

text \<open>Time is the time of the analysis: twenty-one analyses of one old event last_in five seconds are a
  denial of service by its address.\<close>

lemma repeated_analysis_is_ddos:
  "ai_type (fst (call_engine (''203.0.113.9'', r) (fold (\<lambda>c h. snd (call_engine c h)) (replicate 20 (''203.0.113.9'', r)) []))) = ''DDOS''"
proof -
  have sent: "sent_by ''203.0.113.9'' (replicate 20 (''203.0.113.9'', r) @ [(''203.0.113.9'', r)]) = replicate 21 r"
    by (simp add: sent_by_def replicate_append_same[symmetric] eval_nat_numeral)
  have seen: "behavior_seen (rq_at r) (replicate 21 r) = Some ''DDOS''"
    by (simp add: behavior_seen_def seconds_def eval_nat_numeral)
  have "minute_kept (replicate 20 (''203.0.113.9'', r)) (fold (\<lambda>c h. snd (call_engine c h)) (replicate 20 (''203.0.113.9'', r)) [])"
    by (rule run_keeps_minute) (simp_all add: list_all_iff map_replicate_const)
  from call_keeps_minute(2)[OF this, of "''203.0.113.9''" r]
  have "fst (call_engine (''203.0.113.9'', r) (fold (\<lambda>c h. snd (call_engine c h)) (replicate 20 (''203.0.113.9'', r)) []))
    = ai_verdict (rq_payload r) (behavior_seen (rq_at r) (replicate 21 r))"
    unfolding sent by (simp add: list_all_iff)
  then show ?thesis unfolding seen by (simp add: ai_verdict_def Let_def split: prod.split)
qed

end
