(* ===== verification/Event_Intake.thy ===== *)
theory Event_Intake
  imports Accounts Ai_Engine Json "HOL-Library.Option_ord"
begin

text \<open>
  Events pushed by agents (\<open>backend/app/api/v1/endpoints/events.py\<close>) and the background worker that
  copies them into the structured table (\<open>backend/app/services/sync_manager.py\<close>), with the event log
  and the on-demand analysis of one event.

  The state is the part of \<open>raw_events\<close> agents write, \<open>structured_events\<close> and the session ids its
  foreign key refers to. Arguments: the UUIDs drawn, what the database refuses beyond its keys and
  the texts of its errors, the base64 decoder. A list without an order by is in table order.
\<close>

record event_body =
  eb_timestamp :: "time option"
  eb_attacker_ip :: string
  eb_target_port :: "int option"
  eb_protocol :: "string option"
  eb_honeypot_type :: "string option"
  eb_session_id :: "string option"
  eb_event_type :: string
  eb_commands :: "string option"
  eb_uploaded_files :: "string option"
  eb_ports_scanned :: "string option"
  eb_geoip :: json
  eb_risk_score :: rat
  eb_raw_payload :: "string option"

record posted_event = event_body +
  po_id :: "string option"

record intake_row = event_body +
  ir_id :: string
  ir_sync_status :: string

record sync_details =
  sd_commands :: "string option"
  sd_uploaded_files :: "string option"
  sd_ports_scanned :: "string option"
  sd_geoip :: json
  sd_risk_score :: rat
  sd_protocol :: "string option"
  sd_target_port :: "int option"
  sd_attacker_ip :: string

record structured_event =
  st_id :: string
  st_raw_event_id :: string
  st_session_id :: "string option"
  st_timestamp :: time
  st_honeypot_type :: "string option"
  st_event_type :: string
  st_details :: sync_details

record intake_db =
  in_raw :: "intake_row list"
  in_structured :: "structured_event list"
  in_sessions :: "string list"
  in_drawn :: nat

record intake_env =
  ne_uuid :: "nat \<Rightarrow> string"
  ne_refuses :: "intake_row \<Rightarrow> bool"
  ne_refuses_structured :: "structured_event \<Rightarrow> bool"
  ne_db_error :: string
  ne_decode :: "string \<Rightarrow> string option" \<comment> \<open>base64, then UTF-8\<close>
  ne_bad_geo :: string

section \<open>Taking events in\<close>

definition row_of_post :: "string \<Rightarrow> posted_event \<Rightarrow> intake_row" where
  "row_of_post evt_id e =
     \<lparr>eb_timestamp = eb_timestamp e, eb_attacker_ip = eb_attacker_ip e, eb_target_port = eb_target_port e,
      eb_protocol = eb_protocol e, eb_honeypot_type = eb_honeypot_type e, eb_session_id = eb_session_id e,
      eb_event_type = eb_event_type e, eb_commands = eb_commands e, eb_uploaded_files = eb_uploaded_files e,
      eb_ports_scanned = eb_ports_scanned e, eb_geoip = eb_geoip e, eb_risk_score = eb_risk_score e,
      eb_raw_payload = eb_raw_payload e, ir_id = evt_id, ir_sync_status = ''PENDING''\<rparr>"

text \<open>The loop over the events: an id is drawn for an event without one.\<close>

fun rows_of_posts :: "intake_env \<Rightarrow> nat \<Rightarrow> posted_event list \<Rightarrow> intake_row list \<times> nat" where
  "rows_of_posts env n [] = ([], n)"
| "rows_of_posts env n (e # es) =
     (case po_id e of
        Some (c # cs) \<Rightarrow> (let (rs, k) = rows_of_posts env n es in (row_of_post (c # cs) e # rs, k))
      | _ \<Rightarrow> (let (rs, k) = rows_of_posts env (Suc n) es in (row_of_post (ne_uuid env n) e # rs, k)))"

definition ingest_events :: "intake_env \<Rightarrow> posted_event list \<Rightarrow> intake_db \<Rightarrow> (http_error + nat) \<times> intake_db" where
  "ingest_events env es db =
     (let (rows, n) = rows_of_posts env (in_drawn db) es; db = db\<lparr>in_drawn := n\<rparr> in
      if distinct (map ir_id (in_raw db @ rows)) \<and> \<not> list_ex (ne_refuses env) rows
      then (Inr (length rows), db\<lparr>in_raw := in_raw db @ rows\<rparr>)
      else (Inl (500, ne_db_error env), db))"

definition ingest_telemetry ::
  "intake_env \<Rightarrow> identity_env \<Rightarrow> time \<Rightarrow> caller \<Rightarrow> identity_db \<Rightarrow> posted_event list \<Rightarrow> intake_db \<Rightarrow> (http_error + nat) \<times> intake_db" where
  "ingest_telemetry env ident now who idb es db =
     (case fst (require_role ident now [''SUPER_ADMIN'', ''ADMIN''] who idb) of
        Inl e \<Rightarrow> (Inl e, db)
      | Inr _ \<Rightarrow> ingest_events env es db)"

section \<open>The event log\<close>

definition get_events :: "int \<Rightarrow> string \<Rightarrow> intake_db \<Rightarrow> http_error + intake_row list" where
  "get_events limit db_error db =
     (if limit < 0 then Inl (500, ''Failed to fetch events: '' @ db_error)
      else Inr (take (nat limit) (sort_desc eb_timestamp (in_raw db))))"

record event_report =
  er_id :: string
  er_timestamp :: "time option"
  er_attacker_ip :: string
  er_target_port :: "int option"
  er_protocol :: "string option"
  er_geo_ip :: json
  er_analysis :: ai_result
  er_raw :: string
  er_decoded :: string
  er_commands :: "string option"
  er_uploaded_files :: "string option"

definition or_text :: "string option \<Rightarrow> string \<Rightarrow> string" where
  "or_text t d = (case t of Some (c # cs) \<Rightarrow> c # cs | _ \<Rightarrow> d)"

definition event_payload :: "intake_row \<Rightarrow> string" where
  "event_payload e = or_text (eb_raw_payload e) (or_text (eb_commands e) ''{}'')"

definition decoded_payload :: "intake_env \<Rightarrow> string \<Rightarrow> string" where
  "decoded_payload env payload =
     (if 20 < length payload \<and> CHR '' '' \<notin> set payload \<and> CHR ''{'' \<notin> set payload
      then (case ne_decode env payload of Some t \<Rightarrow> t | None \<Rightarrow> payload) else payload)"

text \<open>The answer and the history of the analysis engine.\<close>

definition analyze_event :: "intake_env \<Rightarrow> time \<Rightarrow> string \<Rightarrow> intake_db \<Rightarrow> request_history
    \<Rightarrow> (http_error + event_report) \<times> request_history" where
  "analyze_event env now event_id db h =
     (case find (\<lambda>r. ir_id r = event_id) (in_raw db) of
        None \<Rightarrow> (Inl (404, ''Event not found''), h)
      | Some e \<Rightarrow>
          (let payload = event_payload e;
               (res, h) = analyze_log now payload (Some (eb_attacker_ip e)) (eb_target_port e) h;
               report = (\<lambda>geo. \<lparr>er_id = ir_id e, er_timestamp = eb_timestamp e, er_attacker_ip = eb_attacker_ip e,
                 er_target_port = eb_target_port e, er_protocol = eb_protocol e, er_geo_ip = geo, er_analysis = res,
                 er_raw = payload, er_decoded = decoded_payload env payload, er_commands = eb_commands e,
                 er_uploaded_files = eb_uploaded_files e\<rparr>)
           in if \<not> truthy (eb_geoip e) then (Inr (report (JStr ''Unknown'')), h)
              else (case eb_geoip e of
                      JObj g \<Rightarrow> (Inr (report (if has_key ''country_name'' g then dict_get ''country_name'' g else JStr ''Unknown'')), h)
                    | _ \<Rightarrow> (Inl (500, ''Analysis failed: '' @ ne_bad_geo env), h))))"

section \<open>The sync worker\<close>

definition SYNC_BATCH :: nat where
  "SYNC_BATCH = 100"

definition pending_events :: "intake_db \<Rightarrow> intake_row list" where
  "pending_events db = filter (\<lambda>r. ir_sync_status r = ''PENDING'') (in_raw db)"

definition structured_of :: "intake_env \<Rightarrow> time \<Rightarrow> nat \<Rightarrow> intake_row \<Rightarrow> structured_event" where
  "structured_of env now n e =
     \<lparr>st_id = ne_uuid env n, st_raw_event_id = ir_id e, st_session_id = eb_session_id e,
      st_timestamp = (case eb_timestamp e of Some t \<Rightarrow> t | None \<Rightarrow> now),
      st_honeypot_type = eb_honeypot_type e, st_event_type = eb_event_type e,
      st_details = \<lparr>sd_commands = eb_commands e, sd_uploaded_files = eb_uploaded_files e,
        sd_ports_scanned = eb_ports_scanned e, sd_geoip = eb_geoip e, sd_risk_score = eb_risk_score e,
        sd_protocol = eb_protocol e, sd_target_port = eb_target_port e, sd_attacker_ip = eb_attacker_ip e\<rparr>\<rparr>"

definition known_session :: "intake_db \<Rightarrow> string option \<Rightarrow> bool" where
  "known_session db sid = (case sid of None \<Rightarrow> True | Some s \<Rightarrow> s \<in> set (in_sessions db))"

text \<open>What the keys of the structured table and the database accept.\<close>

definition storable :: "intake_env \<Rightarrow> intake_db \<Rightarrow> structured_event list \<Rightarrow> bool" where
  "storable env db new \<longleftrightarrow> distinct (map st_raw_event_id (in_structured db @ new))
     \<and> list_all (\<lambda>s. known_session db (st_session_id s)) new \<and> \<not> list_ex (ne_refuses_structured env) new"

definition mark_synced :: "string list \<Rightarrow> intake_row \<Rightarrow> intake_row" where
  "mark_synced ids r = (if ir_id r \<in> set ids then r\<lparr>ir_sync_status := ''SYNCED''\<rparr> else r)"

text \<open>One cycle; \<open>up\<close> tells whether the database can be reached.\<close>

definition run_sync_cycle :: "intake_env \<Rightarrow> bool \<Rightarrow> time \<Rightarrow> intake_db \<Rightarrow> nat \<times> intake_db" where
  "run_sync_cycle env up now db =
     (let pending = take SYNC_BATCH (pending_events db) in
      if \<not> up \<or> pending = [] then (0, db)
      else (let new = map (\<lambda>(n, e). structured_of env now n e) (enumerate (in_drawn db) pending);
                db = db\<lparr>in_drawn := in_drawn db + length pending\<rparr>
            in if storable env db new
               then (length pending, db\<lparr>in_structured := in_structured db @ new,
                       in_raw := map (mark_synced (map ir_id pending)) (in_raw db)\<rparr>)
               else (0, db)))"

section \<open>Every event is copied once\<close>

datatype intake_event =
    Ingest "posted_event list"
  | Sync bool time
  | Open_session string
  | Map_session string string \<comment> \<open>the session engine assigns an event to a session\<close>

fun intake_step :: "intake_env \<Rightarrow> intake_db \<Rightarrow> intake_event \<Rightarrow> intake_db" where
  "intake_step env db (Ingest es) = snd (ingest_events env es db)"
| "intake_step env db (Sync up now) = snd (run_sync_cycle env up now db)"
| "intake_step env db (Open_session s) = db\<lparr>in_sessions := in_sessions db @ [s]\<rparr>"
| "intake_step env db (Map_session eid s) = db\<lparr>in_raw :=
     map (\<lambda>r. if ir_id r = eid then r\<lparr>eb_session_id := Some s\<rparr> else r) (in_raw db)\<rparr>"

definition empty_intake :: intake_db where
  "empty_intake = \<lparr>in_raw = [], in_structured = [], in_sessions = [], in_drawn = 0\<rparr>"

text \<open>A structured row tells what its raw event told.\<close>

definition tells :: "structured_event \<Rightarrow> intake_row \<Rightarrow> bool" where
  "tells s r \<longleftrightarrow> st_raw_event_id s = ir_id r \<and> st_event_type s = eb_event_type r \<and> st_honeypot_type s = eb_honeypot_type r
     \<and> sd_attacker_ip (st_details s) = eb_attacker_ip r \<and> sd_target_port (st_details s) = eb_target_port r
     \<and> sd_commands (st_details s) = eb_commands r \<and> sd_risk_score (st_details s) = eb_risk_score r
     \<and> case_option True (\<lambda>t. st_timestamp s = t) (eb_timestamp r)"

definition intake_ok :: "intake_db \<Rightarrow> bool" where
  "intake_ok db \<longleftrightarrow> distinct (map ir_id (in_raw db)) \<and> distinct (map st_raw_event_id (in_structured db))
     \<and> list_all (\<lambda>r. ir_sync_status r \<in> {''PENDING'', ''SYNCED''}) (in_raw db)
     \<and> list_all (\<lambda>s. list_ex (\<lambda>r. tells s r \<and> ir_sync_status r = ''SYNCED'') (in_raw db)) (in_structured db)
     \<and> list_all (\<lambda>r. ir_sync_status r = ''SYNCED'' \<longleftrightarrow> ir_id r \<in> st_raw_event_id ` set (in_structured db)) (in_raw db)"

lemma rows_of_posts_pending: "rows_of_posts env n es = (rows, k) \<Longrightarrow> list_all (\<lambda>r. ir_sync_status r = ''PENDING'') rows"
  by (induction es arbitrary: n rows k)
    (auto simp: row_of_post_def split: option.splits list.splits prod.splits)

lemma ingest_ok:
  assumes "intake_ok db" shows "intake_ok (snd (ingest_events env es db))"
proof -
  obtain rows k where rows: "rows_of_posts env (in_drawn db) es = (rows, k)" by (metis surj_pair)
  note new = rows_of_posts_pending[OF rows]
  have unseen: "ir_id r \<notin> st_raw_event_id ` set (in_structured db)"
    if "distinct (map ir_id (in_raw db @ rows))" "r \<in> set rows" for r
  proof
    assume "ir_id r \<in> st_raw_event_id ` set (in_structured db)"
    then obtain x where "x \<in> set (in_raw db)" "ir_id x = ir_id r"
      using assms by (fastforce simp: intake_ok_def list_all_iff list_ex_iff tells_def)
    with that show False by (force simp: disjoint_iff)
  qed
  show ?thesis
    using assms new unseen by (auto simp: ingest_events_def rows intake_ok_def list_all_iff Let_def)
qed

text \<open>Marking and session assignment keep ids and what is told.\<close>

lemma mark_synced_simps [simp]:
  "ir_id (mark_synced ids r) = ir_id r" "tells s (mark_synced ids r) = tells s r"
  "ir_sync_status (mark_synced ids r) = (if ir_id r \<in> set ids then ''SYNCED'' else ir_sync_status r)"
  by (simp_all add: mark_synced_def tells_def)

lemma structured_of_tells: "tells (structured_of env now n e) e"
  by (simp add: tells_def structured_of_def split: option.split)

lemma structured_raw_ids: "map st_raw_event_id (map (\<lambda>(n, e). structured_of env now n e) (enumerate k es)) = map ir_id es"
  by (induction es arbitrary: k) (simp_all add: structured_of_def)

lemma structured_from:
  assumes "s \<in> set (map (\<lambda>(n, e). structured_of env now n e) (enumerate k es))"
  obtains n e where "e \<in> set es" "s = structured_of env now n e"
proof -
  from assms obtain q where q: "q \<in> set (enumerate k es)" "s = structured_of env now (fst q) (snd q)"
    by (auto simp: split_beta)
  from q(1) have "snd q \<in> set es" unfolding in_set_enumerate_eq by (metis add.commute less_diff_conv2 nth_mem)
  with q(2) show ?thesis by (rule that[rotated])
qed

lemma picked_pending:
  "r \<in> set (take SYNC_BATCH (pending_events db)) \<Longrightarrow> r \<in> set (in_raw db) \<and> ir_sync_status r = ''PENDING''"
  by (auto simp: pending_events_def dest: in_set_takeD)

lemma sync_ok:
  assumes ok: "intake_ok db" shows "intake_ok (snd (run_sync_cycle env up now db))"
proof -
  let ?p = "take SYNC_BATCH (pending_events db)"
  let ?new = "map (\<lambda>(n, e). structured_of env now n e) (enumerate (in_drawn db) ?p)"
  define db' where "db' = db\<lparr>in_drawn := in_drawn db + length ?p, in_structured := in_structured db @ ?new,
      in_raw := map (mark_synced (map ir_id ?p)) (in_raw db)\<rparr>"
  have "intake_ok db'" if st: "distinct (map st_raw_event_id (in_structured db @ ?new))"
  proof -
    have ids: "st_raw_event_id ` set ?new = ir_id ` set ?p"
      using structured_raw_ids[of env now "in_drawn db" ?p] by (metis list.set_map)
    have told: "list_ex (\<lambda>r. tells s r \<and> ir_sync_status r = ''SYNCED'') (in_raw db')" if "s \<in> set (in_structured db')" for s
    proof (cases "s \<in> set (in_structured db)")
      case True
      then obtain r where "r \<in> set (in_raw db)" "tells s r" "ir_sync_status r = ''SYNCED''"
        using ok by (auto simp: intake_ok_def list_all_iff list_ex_iff)
      then show ?thesis unfolding list_ex_iff by (intro bexI[of _ "mark_synced (map ir_id ?p) r"]) (auto simp: db'_def)
    next
      case False
      then have "s \<in> set ?new" using that by (simp add: db'_def)
      then obtain n e where "e \<in> set ?p" "s = structured_of env now n e" by (rule structured_from)
      then show ?thesis unfolding list_ex_iff
        using picked_pending[of e db] structured_of_tells[of env now n e]
        by (intro bexI[of _ "mark_synced (map ir_id ?p) e"]) (auto simp: db'_def)
    qed
    have same_row: "x = y" if "x \<in> set (in_raw db)" "y \<in> set (in_raw db)" "ir_id x = ir_id y" for x y
      using ok that by (auto simp: intake_ok_def distinct_map inj_on_def)
    have status: "ir_sync_status r = ''SYNCED'' \<longleftrightarrow> ir_id r \<in> st_raw_event_id ` set (in_structured db')" if "r \<in> set (in_raw db')" for r
    proof -
      have "r \<in> mark_synced (map ir_id ?p) ` set (in_raw db)" using that by (simp add: db'_def)
      then obtain x where x: "x \<in> set (in_raw db)" "r = mark_synced (map ir_id ?p) x" by blast
      have "ir_sync_status x = ''SYNCED'' \<longleftrightarrow> ir_id x \<in> st_raw_event_id ` set (in_structured db)"
        using ok x(1) by (simp add: intake_ok_def list_all_iff)
      moreover have "st_raw_event_id ` set (in_structured db') = st_raw_event_id ` set (in_structured db) \<union> ir_id ` set ?p"
        using ids by (simp add: db'_def image_Un)
      ultimately show ?thesis using x by auto
    qed
    have stati: "ir_sync_status r \<in> {''PENDING'', ''SYNCED''}" if "r \<in> set (in_raw db')" for r
    proof -
      have "r \<in> mark_synced (map ir_id ?p) ` set (in_raw db)" using that by (simp add: db'_def)
      then obtain x where x: "x \<in> set (in_raw db)" "r = mark_synced (map ir_id ?p) x" by blast
      then have "ir_sync_status x \<in> {''PENDING'', ''SYNCED''}"
        using ok unfolding intake_ok_def list_all_iff by blast
      then show ?thesis using x(2) by simp
    qed
    have "distinct (map ir_id (in_raw db'))"
      using ok by (simp add: db'_def intake_ok_def comp_def)
    then show ?thesis
      using st told status stati unfolding intake_ok_def list_all_iff by (simp add: db'_def)
  qed
  moreover have "intake_ok (db\<lparr>in_drawn := k\<rparr>)" for k using ok by (simp add: intake_ok_def)
  moreover have "run = db \<or> run = db\<lparr>in_drawn := k\<rparr> \<or> storable env (db\<lparr>in_drawn := k\<rparr>) ?new \<and> run = db'"
    if "run = snd (run_sync_cycle env up now db)" "k = in_drawn db + length ?p" for run k
  proof -
    define p where "p = ?p"
    define new where "new = ?new"
    show ?thesis unfolding that run_sync_cycle_def db'_def p_def[symmetric] new_def[symmetric] Let_def by simp
  qed
  ultimately show ?thesis
    using ok by (metis (no_types, lifting) storable_def intake_db.select_convs(2) intake_db.update_convs(4) intake_db.surjective)
qed

lemma map_session_ok:
  assumes ok: "intake_ok db" shows "intake_ok (intake_step env db (Map_session eid s))"
proof -
  define f :: "intake_row \<Rightarrow> intake_row" where "f = (\<lambda>r. if ir_id r = eid then r\<lparr>eb_session_id := Some s\<rparr> else r)"
  have f: "ir_id (f r) = ir_id r" "ir_sync_status (f r) = ir_sync_status r" "tells t (f r) = tells t r" for r t
    by (simp_all add: f_def tells_def)
  have "intake_step env db (Map_session eid s) = db\<lparr>in_raw := map f (in_raw db)\<rparr>" by (simp add: f_def)
  moreover have "intake_ok (db\<lparr>in_raw := map f (in_raw db)\<rparr>) = intake_ok db"
    unfolding intake_ok_def list_all_iff list_ex_iff by (simp add: f comp_def)
  ultimately show ?thesis using ok by simp
qed

interpretation intake: event_machine "intake_step env" intake_ok for env
proof
  fix db e assume "intake_ok db"
  then show "intake_ok (intake_step env db e)"
    by (cases e) (simp_all add: ingest_ok sync_ok map_session_ok del: intake_step.simps(4), simp add: intake_ok_def)
qed


section \<open>The backlog\<close>

lemma filter_mark:
  assumes "distinct (map ir_id rs)" and "list_all (\<lambda>r. ir_sync_status r \<in> {''PENDING'', ''SYNCED''}) rs"
  shows "filter (\<lambda>r. ir_sync_status r = ''PENDING'') (map (mark_synced (map ir_id (take n (filter (\<lambda>r. ir_sync_status r = ''PENDING'') rs)))) rs)
    = drop n (filter (\<lambda>r. ir_sync_status r = ''PENDING'') rs)"
proof -
  let ?P = "filter (\<lambda>r. ir_sync_status r = ''PENDING'') rs"
  let ?ids = "map ir_id (take n ?P)"
  have "filter (\<lambda>r. ir_sync_status r = ''PENDING'') (map (mark_synced ?ids) rs) = filter (\<lambda>r. ir_id r \<notin> set ?ids) ?P"
  proof -
    have "filter (\<lambda>r. ir_sync_status r = ''PENDING'') (map (mark_synced ids) xs)
        = filter (\<lambda>r. ir_id r \<notin> set ids) (filter (\<lambda>r. ir_sync_status r = ''PENDING'') xs)" for ids xs
      by (induction xs) (auto simp: mark_synced_def)
    then show ?thesis .
  qed
  also have "\<dots> = filter (\<lambda>r. ir_id r \<notin> set ?ids) (take n ?P) @ filter (\<lambda>r. ir_id r \<notin> set ?ids) (drop n ?P)"
    by (metis append_take_drop_id filter_append)
  also have "filter (\<lambda>r. ir_id r \<notin> set ?ids) (take n ?P) = []" by (simp add: filter_empty_conv)
  also have "filter (\<lambda>r. ir_id r \<notin> set ?ids) (drop n ?P) = drop n ?P"
  proof (rule filter_True)
    have "distinct (map ir_id (take n ?P) @ map ir_id (drop n ?P))"
      using assms(1) by (simp add: distinct_map_filter flip: map_append)
    then have "set ?ids \<inter> set (map ir_id (drop n ?P)) = {}" by (metis distinct_append)
    then show "\<forall>r \<in> set (drop n ?P). ir_id r \<notin> set ?ids" unfolding list.set_map by blast
  qed
  finally show ?thesis by simp
qed

definition syncable :: "intake_env \<Rightarrow> intake_db \<Rightarrow> bool" where
  "syncable env db \<longleftrightarrow> list_all (\<lambda>r. known_session db (eb_session_id r)) (pending_events db)
     \<and> (\<forall>s. \<not> ne_refuses_structured env s)"

lemma sync_takes_batch:
  assumes ok: "intake_ok db" and s: "syncable env db"
  shows "fst (run_sync_cycle env True now db) = min SYNC_BATCH (length (pending_events db))"
    and "pending_events (snd (run_sync_cycle env True now db)) = drop SYNC_BATCH (pending_events db)"
    and "syncable env (snd (run_sync_cycle env True now db))"
proof -
  let ?p = "take SYNC_BATCH (pending_events db)"
  let ?new = "map (\<lambda>(n, e). structured_of env now n e) (enumerate (in_drawn db) ?p)"
  let ?db = "db\<lparr>in_drawn := in_drawn db + length ?p\<rparr>"
  have "distinct (map ir_id ?p)" using ok by (simp add: intake_ok_def pending_events_def distinct_map_filter take_map[symmetric])
  moreover have "ir_id ` set ?p \<inter> st_raw_event_id ` set (in_structured db) = {}"
    using ok picked_pending[of _ db] by (fastforce simp: intake_ok_def list_all_iff)
  ultimately have "distinct (map st_raw_event_id (in_structured db @ ?new))"
    using ok structured_raw_ids[of env now "in_drawn db" ?p]
    by (simp only: map_append distinct_append) (auto simp: intake_ok_def)
  moreover have "list_all (\<lambda>t. known_session ?db (st_session_id t)) ?new"
    unfolding list_all_iff
  proof
    fix t assume "t \<in> set ?new"
    then obtain n e where "e \<in> set ?p" "t = structured_of env now n e" by (rule structured_from)
    then have "e \<in> set (pending_events db)" "st_session_id t = eb_session_id e"
      by (auto simp: structured_of_def dest: in_set_takeD)
    then show "known_session ?db (st_session_id t)"
      using s by (simp add: syncable_def list_all_iff known_session_def cong: option.case_cong)
  qed
  ultimately have st: "storable env ?db ?new"
    using s by (simp add: storable_def syncable_def list_ex_iff)
  show "fst (run_sync_cycle env True now db) = min SYNC_BATCH (length (pending_events db))"
    using st by (simp add: run_sync_cycle_def Let_def min.commute)
  have "pending_events (snd (run_sync_cycle env True now db)) = drop SYNC_BATCH (pending_events db)
     \<and> in_sessions (snd (run_sync_cycle env True now db)) = in_sessions db"
  proof (cases "?p = []")
    case False
    then show ?thesis using st filter_mark[of "in_raw db" SYNC_BATCH] ok
      by (simp add: run_sync_cycle_def Let_def pending_events_def intake_ok_def)
  qed (simp add: run_sync_cycle_def SYNC_BATCH_def)
  then have after: "pending_events (snd (run_sync_cycle env True now db)) = drop SYNC_BATCH (pending_events db)"
    and "known_session (snd (run_sync_cycle env True now db)) x = known_session db x" for x
    by (simp_all add: known_session_def cong: option.case_cong)
  then show "syncable env (snd (run_sync_cycle env True now db))"
    using s unfolding syncable_def list_all_iff after by (auto dest: in_set_dropD)
  show "pending_events (snd (run_sync_cycle env True now db)) = drop SYNC_BATCH (pending_events db)" by (rule after)
qed

text \<open>When the database is up and every pending event belongs to a known session or to none, the worker
  drains the backlog: after \<open>n\<close> cycles the oldest \<open>100 n\<close> events have left it, in the order of the table.\<close>

theorem intake_backlog_drains:
  assumes "syncable env (foldl (intake_step env) empty_intake es)"
  shows "pending_events (foldl (intake_step env) empty_intake (es @ replicate n (Sync True now)))
      = drop (100 * n) (pending_events (foldl (intake_step env) empty_intake es))"
proof -
  have "intake_ok (foldl (intake_step env) empty_intake es)" by (rule intake.run_inv) (simp add: intake_ok_def empty_intake_def)
  moreover have "pending_events (foldl (intake_step env) db (replicate n (Sync True now))) = drop (100 * n) (pending_events db)"
    if "intake_ok db" "syncable env db" for db
    using that
  proof (induction n arbitrary: db)
    case (Suc n)
    show ?case
      using Suc.IH[OF sync_ok[OF Suc.prems(1), of env True now] sync_takes_batch(3)[OF Suc.prems, of now]]
        sync_takes_batch(2)[OF Suc.prems, of now] by (simp add: SYNC_BATCH_def add.commute)
  qed simp
  ultimately show ?thesis using assms by simp
qed

text \<open>One event whose session is not known, an agent's own session id for instance, blocks the batch it is
  in: nothing of it is stored, and the next cycle picks the same batch.\<close>

lemma unknown_session_blocks:
  assumes "r \<in> set (take SYNC_BATCH (pending_events db))" and "\<not> known_session db (eb_session_id r)"
  shows "fst (run_sync_cycle env up now db) = 0" "pending_events (snd (run_sync_cycle env up now db)) = pending_events db"
proof -
  let ?p = "take SYNC_BATCH (pending_events db)"
  let ?new = "map (\<lambda>(n, e). structured_of env now n e) (enumerate (in_drawn db) ?p)"
  obtain i where i: "i < length ?p" "?p ! i = r" using assms(1) by (metis in_set_conv_nth)
  have "structured_of env now (in_drawn db + i) r \<in> set ?new"
    using i by (auto simp: in_set_enumerate_eq intro!: image_eqI[of _ _ "(in_drawn db + i, r)"])
  moreover have "st_session_id (structured_of env now k r) = eb_session_id r" for k by (simp add: structured_of_def)
  moreover have "known_session (db\<lparr>in_drawn := m\<rparr>) x = known_session db x" for m x
    by (simp add: known_session_def cong: option.case_cong)
  ultimately have "\<not> list_all (\<lambda>s. known_session (db\<lparr>in_drawn := m\<rparr>) (st_session_id s)) ?new" for m
    using assms(2) unfolding list_all_iff by metis
  then have "\<not> storable env (db\<lparr>in_drawn := m\<rparr>) ?new" for m unfolding storable_def by blast
  then show "fst (run_sync_cycle env up now db) = 0" "pending_events (snd (run_sync_cycle env up now db)) = pending_events db"
    by (simp_all add: run_sync_cycle_def Let_def pending_events_def)
qed

text \<open>Ingestion is all or nothing, and only for administrators.\<close>

lemma ingest_all_or_nothing:
  "case ingest_telemetry env ident now who idb es db of
     (Inl _, db') \<Rightarrow> in_raw db' = in_raw db
   | (Inr n, db') \<Rightarrow> n = length es \<and> length (in_raw db') = length (in_raw db) + n"
proof -
  have len: "length (fst (rows_of_posts env n es)) = length es" for n
    by (induction es arbitrary: n) (auto split: option.split list.split prod.split, (metis fst_conv)+)
  then show ?thesis
    by (auto simp: ingest_telemetry_def ingest_events_def Let_def split: sum.split prod.split) (metis fst_conv)
qed

section \<open>Witnesses\<close>

definition demo_intake :: intake_env where
  "demo_intake = \<lparr>ne_uuid = (\<lambda>n. ''u'' @ str_of_nat n), ne_refuses = (\<lambda>_. False), ne_refuses_structured = (\<lambda>_. False),
     ne_db_error = ''IntegrityError'', ne_decode = (\<lambda>_. None), ne_bad_geo = ''no attribute get''\<rparr>"

definition demo_post :: posted_event where
  "demo_post = \<lparr>eb_timestamp = Some 5, eb_attacker_ip = ''203.0.113.9'', eb_target_port = Some 22, eb_protocol = None,
     eb_honeypot_type = None, eb_session_id = None, eb_event_type = ''login'', eb_commands = None, eb_uploaded_files = None,
     eb_ports_scanned = None, eb_geoip = JNull, eb_risk_score = 0, eb_raw_payload = None, po_id = Some ''e1''\<rparr>"

theorem intake_backlog_drains_witness:
  "pending_events (foldl (intake_step demo_intake) empty_intake [Ingest [demo_post], Sync True 9]) = []"
proof -
  have one: "pending_events (foldl (intake_step demo_intake) empty_intake [Ingest [demo_post]]) = [row_of_post ''e1'' demo_post]"
    by (simp add: ingest_events_def empty_intake_def demo_post_def demo_intake_def pending_events_def row_of_post_def)
  have "syncable demo_intake (foldl (intake_step demo_intake) empty_intake [Ingest [demo_post]])"
    unfolding syncable_def one by (simp add: known_session_def row_of_post_def demo_post_def demo_intake_def)
  from intake_backlog_drains[OF this, of 1 9] show ?thesis using one by simp
qed

end
