(* ===== verification/Cloud_Telemetry.thy ===== *)
theory Cloud_Telemetry
  imports Local_Source Normalize
begin

text \<open>
  Telemetry from S3: the choice of a source (\<open>telemetry/factory.py\<close>), the S3 source
  (\<open>telemetry/s3_source.py\<close>) and the 30-second pipeline that stores what it fetches
  (\<open>services/aws_telemetry_service.py\<close>).

  Arguments: the listing and the objects of the bucket, the UUIDs drawn, \<open>fromisoformat\<close> and
  \<open>isoformat\<close>, which commits reach the database and which rows it refuses beyond its keys. The
  clock is read once per cycle. Sets are lists without repetition.
\<close>

section \<open>Choosing a source\<close>

definition get_source_name :: "string \<Rightarrow> string option \<Rightarrow> string" where
  "get_source_name telemetry_source infra_provider =
     (let explicit = lower (strip telemetry_source) in
      if explicit \<noteq> [] then explicit
      else if lower (strip (case infra_provider of Some p \<Rightarrow> p | None \<Rightarrow> ''local'')) = ''aws'' then ''s3'' else ''local'')"

datatype source_kind = Local_directory | S3_bucket

definition get_telemetry_source :: "string option \<Rightarrow> string \<Rightarrow> string option \<Rightarrow> string + source_kind" where
  "get_telemetry_source source telemetry_source infra_provider =
     (let name = lower (strip (case source of Some (c # cs) \<Rightarrow> c # cs | _ \<Rightarrow> get_source_name telemetry_source infra_provider)) in
      if name = ''local'' then Inr Local_directory
      else if name = ''s3'' then Inr S3_bucket
      else Inl (''Unknown TELEMETRY_SOURCE '' @ [CHR 0x27] @ name @ [CHR 0x27] @ ''. Valid values: local, s3.''))"

section \<open>The S3 source\<close>

record s3_source =
  s3_access_key :: "string option"
  s3_secret_key :: "string option"
  s3_region :: string
  s3_bucket :: "string option"

definition nonempty :: "string option \<Rightarrow> bool" where
  "nonempty x = (case x of Some (c # cs) \<Rightarrow> True | _ \<Rightarrow> False)"

definition configure_source :: "string option \<Rightarrow> string option \<Rightarrow> string option \<Rightarrow> string option \<Rightarrow> s3_source" where
  "configure_source access_key secret_key region log_bucket =
     \<lparr>s3_access_key = access_key, s3_secret_key = secret_key,
      s3_region = (case region of Some (c # cs) \<Rightarrow> c # cs | _ \<Rightarrow> ''ap-south-1''), s3_bucket = log_bucket\<rparr>"

definition source_configured :: "s3_source \<Rightarrow> bool" where
  "source_configured s \<longleftrightarrow> nonempty (s3_access_key s) \<and> nonempty (s3_secret_key s) \<and> nonempty (s3_bucket s)"

definition describe_source :: "s3_source \<Rightarrow> string" where
  "describe_source s = (case s3_bucket s of Some (c # cs) \<Rightarrow> ''s3://'' @ c # cs | _ \<Rightarrow> ''s3 (unconfigured)'')"

text \<open>\<open>get_config\<close>: the values come from \<open>system_config\<close>.\<close>

definition get_config :: "(string \<times> string option) list \<Rightarrow> s3_source" where
  "get_config config = (let get = (\<lambda>k d. case map_of config k of Some v \<Rightarrow> v | None \<Rightarrow> d); third = get ''s3_bucket_3rd'' None in
     configure_source (get ''aws_access_key'' None) (get ''aws_secret_key'' None) (get ''aws_region'' (Some ''ap-south-1''))
       (if nonempty third then third else get ''s3_bucket'' None))"

record s3_object =
  ob_key :: string
  ob_modified :: time

record log_bucket =
  bk_pages :: "s3_object list list option" \<comment> \<open>\<open>None\<close> is the exception of the listing\<close>
  bk_get :: "string \<Rightarrow> string option"

definition S3_BATCH :: nat where
  "S3_BATCH = 250"

text \<open>New objects, and those that changed since they were processed; the newest first.\<close>

definition candidate_objects :: "(string \<times> time) list \<Rightarrow> s3_object list \<Rightarrow> s3_object list" where
  "candidate_objects processed objs =
     filter (\<lambda>f. case map_of processed (ob_key f) of None \<Rightarrow> True | Some t \<Rightarrow> t < ob_modified f) (sort_desc ob_modified objs)"

definition readable_key :: "string \<Rightarrow> bool" where
  "readable_key key \<longleftrightarrow> ends_with ''.json'' key \<or> ends_with ''.log'' key"

definition s3_fetch :: "reader \<Rightarrow> log_bucket \<Rightarrow> (string \<times> time) list \<Rightarrow> (json list \<times> string list) option" where
  "s3_fetch rd b processed = map_option (\<lambda>pages.
     (let read = concat (map (\<lambda>f. if readable_key (ob_key f)
            then (case bk_get b (ob_key f) of Some bytes \<Rightarrow> [(ob_key f, bytes)] | None \<Rightarrow> []) else [])
            (take S3_BATCH (candidate_objects processed (concat pages))))
      in (concat (map (\<lambda>(_, bytes). events_of_bytes rd bytes) read), dedup_on (\<lambda>k. k) (map fst read)))) (bk_pages b)"

definition source_fetch :: "reader \<Rightarrow> log_bucket \<Rightarrow> s3_source \<Rightarrow> (string \<times> time) list \<Rightarrow> (json list \<times> string list) option" where
  "source_fetch rd b s processed = (if \<not> source_configured s then Some ([], []) else s3_fetch rd b processed)"

section \<open>Reading one event\<close>

definition get_or_default :: "string \<Rightarrow> json \<Rightarrow> jdict \<Rightarrow> json" where
  "get_or_default k d event = (case map_of event k of Some v \<Rightarrow> v | None \<Rightarrow> d)"

definition ml_categorize_attack :: "int \<Rightarrow> string" where
  "ml_categorize_attack port =
     (if port \<in> {2222, 8022} then ''SSH_BRUTE_FORCE'' else if port = 8023 then ''TELNET_LOGIN_ATTEMPT''
      else if port \<in> {445, 3306, 5060, 1433, 21} then ''MALWARE_PROBE'' else if port = 0 then ''UNKNOWN_ACTIVITY''
      else ''PORT_SCAN'')"

definition identify_honeypot :: "int \<Rightarrow> string" where
  "identify_honeypot port =
     (if port = 2222 then ''Cowrie'' else if port \<in> {8022, 8023, 5900} then ''Honeytrap''
      else if port \<in> {445, 3306, 5060, 1433, 21, 80} then ''Dionaea'' else ''Unknown'')"

record cloud_row =
  cl_id :: string
  cl_timestamp :: time
  cl_attacker_ip :: json
  cl_target_port :: int
  cl_protocol :: json
  cl_honeypot :: json
  cl_session :: json
  cl_event_type :: string
  cl_raw :: string
  cl_sync_status :: string
  cl_signature :: string

record recent_event =
  re_id :: string
  re_timestamp :: string
  re_source_ip :: json
  re_target_port :: int
  re_honeypot :: json
  re_category :: string
  re_event_type :: string

record cloud_env =
  ce_fromiso :: "string \<Rightarrow> datetime option"
  ce_iso :: "time \<Rightarrow> string"
  ce_uuid :: "nat \<Rightarrow> string"
  ce_refuses :: "cloud_row \<Rightarrow> bool"
  ce_up :: "nat \<Rightarrow> bool"

record cloud_state =
  ct_keys :: "string list"
  ct_recent :: "recent_event list"
  ct_seen :: "string list"
  ct_rows :: "cloud_row list"
  ct_sync :: "(string \<times> time) list"
  ct_drawn :: nat
  ct_commits :: nat

definition event_time :: "cloud_env \<Rightarrow> time \<Rightarrow> jdict \<Rightarrow> time" where
  "event_time env now event =
     (case ce_fromiso env (replace_Z (py_str (get_or_default ''timestamp'' (JStr (ce_iso env now)) event))) of
        Some (t, _) \<Rightarrow> t | None \<Rightarrow> now)"

definition event_port :: "jdict \<Rightarrow> int" where
  "event_port event =
     (let raw = get_or_default ''dst_port'' (get_or_default ''dest_port'' (get_or_default ''hostPort'' (JInt 0) event) event) event in
      if truthy raw then (case py_int raw of Some p \<Rightarrow> p | None \<Rightarrow> 0) else 0)"

definition event_text :: "jdict \<Rightarrow> string" where
  "event_text event = py_str (get_or_default ''eventid'' (get_or_default ''event'' (JStr ''connection'') event) event)"

definition sensor_text :: "jdict \<Rightarrow> string" where
  "sensor_text event = lower (py_str (get_or_default ''sensor'' (get_or_default ''system'' (JStr []) event) event))"

definition heartbeat :: "jdict \<Rightarrow> bool" where
  "heartbeat event \<longleftrightarrow> contains_str ''heartbeat'' (lower (event_text event))
     \<or> contains_str ''heartbeat'' (lower (py_str (get_or_default ''events'' (JStr []) event)))"

definition sent_from :: "string \<Rightarrow> jdict \<Rightarrow> bool" where
  "sent_from sensor event \<longleftrightarrow> contains_str sensor (sensor_text event) \<or> contains_str sensor (lower (event_text event))"

definition NO_ADDRESS :: json where
  "NO_ADDRESS = JStr ''0.0.0.0''"

text \<open>The address and the port, completed from the bracketed text and the sensor.\<close>

definition event_endpoint :: "jdict \<Rightarrow> json \<times> int" where
  "event_endpoint event =
     (let ip = get_or_default ''src_ip'' (get_or_default ''peerIP'' NO_ADDRESS event) event; port = event_port event in
      if sent_from ''dionaea'' event
      then (let (ip, port) = (case conn_search (event_text event) of
                  Some (_, g1, g2, _) \<Rightarrow>
                    (if ip \<noteq> NO_ADDRESS then ip else JStr g2, if port \<noteq> 0 then port else int (nat_of_digits 0 g1))
                | None \<Rightarrow> (ip, port))
            in (ip, if port = 0 then 445 else port))
      else if sent_from ''honeytrap'' event then (ip, if port = 0 then 8022 else port)
      else if sent_from ''cowrie'' event \<or> dict_get ''protocol'' event = JStr ''ssh'' then (ip, if port = 0 then 2222 else port)
      else (ip, port))"

definition event_honeypot :: "jdict \<Rightarrow> int \<Rightarrow> json" where
  "event_honeypot event port =
     (if sent_from ''cowrie'' event then JStr ''Cowrie'' else if sent_from ''dionaea'' event then JStr ''Dionaea''
      else if sent_from ''honeytrap'' event then JStr ''Honeytrap''
      else get_or_default ''system'' (JStr (identify_honeypot port)) event)"

definition event_signature :: "cloud_env \<Rightarrow> json \<Rightarrow> int \<Rightarrow> time \<Rightarrow> string" where
  "event_signature env ip port t = py_str ip @ '':'' @ str_of_int port @ '':'' @ ce_iso env t"

definition SEEN_WINDOW :: nat where "SEEN_WINDOW = 1000"

definition RECENT_EVENTS :: nat where "RECENT_EVENTS = 5000"

definition remember_signature :: "string \<Rightarrow> string list \<Rightarrow> string list" where
  "remember_signature sig seen = take_last SEEN_WINDOW (seen @ [sig])"

definition row_of_event :: "cloud_env \<Rightarrow> time \<Rightarrow> nat \<Rightarrow> jdict \<Rightarrow> cloud_row" where
  "row_of_event env now n event = (let (ip, port) = event_endpoint event; t = event_time env now event in
     \<lparr>cl_id = ce_uuid env n, cl_timestamp = t, cl_attacker_ip = ip, cl_target_port = port,
      cl_protocol = get_or_default ''protocol'' (JStr ''tcp'') event, cl_honeypot = event_honeypot event port,
      cl_session = get_or_default ''session'' (JStr (ce_uuid env (Suc n))) event, cl_event_type = ml_categorize_attack port,
      cl_raw = dumps False (JObj event), cl_sync_status = ''SYNCED'', cl_signature = event_signature env ip port t\<rparr>)"

definition recent_of_row :: "cloud_env \<Rightarrow> jdict \<Rightarrow> cloud_row \<Rightarrow> recent_event" where
  "recent_of_row env event r =
     \<lparr>re_id = cl_id r, re_timestamp = ce_iso env (cl_timestamp r), re_source_ip = cl_attacker_ip r,
      re_target_port = cl_target_port r, re_honeypot = cl_honeypot r, re_category = cl_event_type r,
      re_event_type = event_text event\<rparr>"

text \<open>One event of a cycle: dropped, or a row, with its signature remembered and the event cached.\<close>

definition take_event :: "cloud_env \<Rightarrow> time \<Rightarrow> jdict \<Rightarrow> cloud_row list \<times> cloud_state \<Rightarrow> cloud_row list \<times> cloud_state" where
  "take_event env now event = (\<lambda>(rows, st).
     let r = row_of_event env now (ct_drawn st) event in
     if heartbeat event \<or> cl_attacker_ip r = NO_ADDRESS \<or> cl_signature r \<in> set (ct_seen st) then (rows, st)
     else (rows @ [r], st\<lparr>ct_seen := remember_signature (cl_signature r) (ct_seen st), ct_drawn := ct_drawn st + 2,
             ct_recent := take RECENT_EVENTS (recent_of_row env event r # ct_recent st)\<rparr>))"

fun jdict_of :: "json \<Rightarrow> jdict" where
  "jdict_of (JObj d) = d"
| "jdict_of _ = []"

definition take_events :: "cloud_env \<Rightarrow> time \<Rightarrow> json list \<Rightarrow> cloud_state \<Rightarrow> cloud_row list \<times> cloud_state" where
  "take_events env now events st = fold (take_event env now) (map jdict_of events) ([], st)"

section \<open>One cycle\<close>

definition insertable :: "cloud_env \<Rightarrow> cloud_state \<Rightarrow> cloud_row list \<Rightarrow> bool" where
  "insertable env st rows \<longleftrightarrow> ce_up env (ct_commits st) \<and> distinct (map cl_signature (ct_rows st @ rows)) \<and> \<not> list_ex (ce_refuses env) rows"

text \<open>The fallback: every row in a transaction of its own.\<close>

definition insert_one :: "cloud_env \<Rightarrow> cloud_row \<Rightarrow> cloud_state \<Rightarrow> cloud_state" where
  "insert_one env r st =
     (if insertable env st [r] then st\<lparr>ct_rows := ct_rows st @ [r], ct_commits := Suc (ct_commits st)\<rparr>
      else st\<lparr>ct_commits := Suc (ct_commits st)\<rparr>)"

definition mark_processed :: "time \<Rightarrow> string list \<Rightarrow> (string \<times> time) list \<Rightarrow> (string \<times> time) list" where
  "mark_processed now keys sync = fold (\<lambda>k. AList.update k now) keys sync"

definition store_batch :: "cloud_env \<Rightarrow> time \<Rightarrow> cloud_row list \<Rightarrow> string list \<Rightarrow> cloud_state \<Rightarrow> cloud_state" where
  "store_batch env now rows keys st =
     (if rows = [] \<and> keys = [] then st
      else if insertable env st rows
      then st\<lparr>ct_rows := ct_rows st @ rows, ct_sync := mark_processed now keys (ct_sync st), ct_commits := Suc (ct_commits st)\<rparr>
      else fold (insert_one env) rows (st\<lparr>ct_commits := Suc (ct_commits st)\<rparr>))"

definition pipeline_cycle :: "cloud_env \<Rightarrow> reader \<Rightarrow> time \<Rightarrow> log_bucket \<Rightarrow> s3_source \<Rightarrow> cloud_state \<Rightarrow> cloud_state" where
  "pipeline_cycle env rd now b source st =
     (if \<not> source_configured source then st
      else (case source_fetch rd b source (ct_sync st) of
              None \<Rightarrow> st
            | Some (events, keys) \<Rightarrow>
                if events = [] \<and> keys = [] then st
                else (let st = st\<lparr>ct_keys := dedup_on (\<lambda>k. k) (ct_keys st @ keys)\<rparr>;
                          (rows, st) = take_events env now events st
                      in store_batch env now rows keys st)))"

section \<open>What every run keeps\<close>

definition new_cloud :: cloud_state where
  "new_cloud = \<lparr>ct_keys = [], ct_recent = [], ct_seen = [], ct_rows = [], ct_sync = [], ct_drawn = 0, ct_commits = 0\<rparr>"

definition cloud_row_ok :: "cloud_row \<Rightarrow> bool" where
  "cloud_row_ok r \<longleftrightarrow> cl_attacker_ip r \<noteq> NO_ADDRESS \<and> cl_event_type r = ml_categorize_attack (cl_target_port r)
     \<and> cl_sync_status r = ''SYNCED''"

definition cloud_ok :: "cloud_state \<Rightarrow> bool" where
  "cloud_ok st \<longleftrightarrow> distinct (map cl_signature (ct_rows st)) \<and> distinct (map fst (ct_sync st)) \<and> distinct (ct_keys st)
     \<and> length (ct_seen st) \<le> SEEN_WINDOW \<and> length (ct_recent st) \<le> RECENT_EVENTS \<and> list_all cloud_row_ok (ct_rows st)"

interpretation seen_window: ring_buffer SEEN_WINDOW "\<lambda>xs. xs" remember_signature
  by unfold_locales (simp add: remember_signature_def)

lemma row_of_event_ok: "cl_attacker_ip (row_of_event env now n event) \<noteq> NO_ADDRESS \<Longrightarrow> cloud_row_ok (row_of_event env now n event)"
  by (simp add: cloud_row_ok_def row_of_event_def Let_def split: prod.splits)

lemma take_event_frame [simp]:
  "ct_rows (snd (take_event env now e rs)) = ct_rows (snd rs)" "ct_sync (snd (take_event env now e rs)) = ct_sync (snd rs)"
  "ct_commits (snd (take_event env now e rs)) = ct_commits (snd rs)" "ct_keys (snd (take_event env now e rs)) = ct_keys (snd rs)"
  by (simp_all add: take_event_def Let_def split: prod.split)

lemma take_events_frame [simp]:
  "ct_rows (snd (fold (take_event env now) es rs)) = ct_rows (snd rs)" "ct_sync (snd (fold (take_event env now) es rs)) = ct_sync (snd rs)"
  "ct_commits (snd (fold (take_event env now) es rs)) = ct_commits (snd rs)" "ct_keys (snd (fold (take_event env now) es rs)) = ct_keys (snd rs)"
  by (induction es arbitrary: rs) simp_all

definition taken_ok :: "cloud_row list \<times> cloud_state \<Rightarrow> bool" where
  "taken_ok rs \<longleftrightarrow> list_all cloud_row_ok (fst rs) \<and> length (ct_seen (snd rs)) \<le> SEEN_WINDOW \<and> length (ct_recent (snd rs)) \<le> RECENT_EVENTS"

lemma take_event_ok: "taken_ok rs \<Longrightarrow> taken_ok (take_event env now e rs)"
  by (cases rs) (simp add: take_event_def taken_ok_def Let_def row_of_event_ok seen_window.put_bounded)

lemma take_events_ok: "taken_ok rs \<Longrightarrow> taken_ok (fold (take_event env now) es rs)"
  by (induction es arbitrary: rs) (simp_all add: take_event_ok)

lemma insert_one_ok: "cloud_ok st \<Longrightarrow> cloud_row_ok r \<Longrightarrow> cloud_ok (insert_one env r st)"
  by (simp add: insert_one_def insertable_def cloud_ok_def)

lemma insert_all_ok: "cloud_ok st \<Longrightarrow> list_all cloud_row_ok rows \<Longrightarrow> cloud_ok (fold (insert_one env) rows st)"
  by (induction rows arbitrary: st) (simp_all add: insert_one_ok)

lemma mark_processed_distinct: "distinct (map fst sync) \<Longrightarrow> distinct (map fst (mark_processed now keys sync))"
  unfolding mark_processed_def by (induction keys arbitrary: sync) (simp_all add: distinct_update)

lemma store_batch_ok:
  assumes "cloud_ok st" and "list_all cloud_row_ok rows"
  shows "cloud_ok (store_batch env now rows keys st)"
proof -
  have "cloud_ok (st\<lparr>ct_commits := k\<rparr>)" for k using assms(1) by (simp add: cloud_ok_def)
  then have "cloud_ok (fold (insert_one env) rows (st\<lparr>ct_commits := Suc (ct_commits st)\<rparr>))"
    by (rule insert_all_ok[OF _ assms(2)])
  then show ?thesis using assms
    by (simp add: store_batch_def insertable_def cloud_ok_def mark_processed_distinct)
qed

text \<open>A cycle that gets something to do: the rows it reads and the state it stores them from.\<close>

definition noted :: "string list \<Rightarrow> cloud_state \<Rightarrow> cloud_state" where
  "noted keys st = st\<lparr>ct_keys := dedup_on (\<lambda>k. k) (ct_keys st @ keys)\<rparr>"

lemma noted_simps [simp]:
  "ct_rows (noted keys st) = ct_rows st" "ct_sync (noted keys st) = ct_sync st" "ct_seen (noted keys st) = ct_seen st"
  "ct_recent (noted keys st) = ct_recent st" "ct_commits (noted keys st) = ct_commits st"
  by (simp_all add: noted_def)

lemma busy_cycle:
  assumes "source_configured source" and "s3_fetch rd b (ct_sync st) = Some (events, keys)" and "events \<noteq> [] \<or> keys \<noteq> []"
    and "take_events env now events (noted keys st) = (rows, st')"
  shows "pipeline_cycle env rd now b source st = store_batch env now rows keys st'"
  using assms by (auto simp: pipeline_cycle_def source_fetch_def noted_def)

lemma idle_cycle:
  assumes "\<not> source_configured source \<or> s3_fetch rd b (ct_sync st) = None \<or> s3_fetch rd b (ct_sync st) = Some ([], [])"
  shows "pipeline_cycle env rd now b source st = st"
  using assms by (auto simp: pipeline_cycle_def source_fetch_def)

lemma cycle_cases:
  obtains (idle) "pipeline_cycle env rd now b source st = st"
    "\<not> source_configured source \<or> s3_fetch rd b (ct_sync st) = None \<or> s3_fetch rd b (ct_sync st) = Some ([], [])"
  | (busy) events keys rows st' where "s3_fetch rd b (ct_sync st) = Some (events, keys)"
      "take_events env now events (noted keys st) = (rows, st')"
      "pipeline_cycle env rd now b source st = store_batch env now rows keys st'"
proof (cases "\<not> source_configured source \<or> s3_fetch rd b (ct_sync st) = None \<or> s3_fetch rd b (ct_sync st) = Some ([], [])")
  case True
  then show ?thesis using idle idle_cycle by blast
next
  case False
  then obtain events keys where f: "s3_fetch rd b (ct_sync st) = Some (events, keys)" "events \<noteq> [] \<or> keys \<noteq> []"
    by (cases "s3_fetch rd b (ct_sync st)") auto
  obtain rows st' where t: "take_events env now events (noted keys st) = (rows, st')" by (metis surj_pair)
  show ?thesis using busy[OF f(1) t busy_cycle[OF _ f t]] False by blast
qed

lemma take_events_keeps:
  assumes "cloud_ok st" and "take_events env now events (noted keys st) = (rows, st')"
  shows "cloud_ok st'" "list_all cloud_row_ok rows" "ct_rows st' = ct_rows st" "ct_sync st' = ct_sync st" "ct_commits st' = ct_commits st"
proof -
  let ?run = "fold (take_event env now) (map jdict_of events) ([], noted keys st)"
  have run: "?run = (rows, st')" using assms(2) by (simp add: take_events_def)
  have "taken_ok ?run" by (rule take_events_ok) (use assms(1) in \<open>simp add: taken_ok_def cloud_ok_def\<close>)
  then have t: "taken_ok (rows, st')" by (simp only: run)
  have f: "ct_rows st' = ct_rows st" "ct_sync st' = ct_sync st" "ct_commits st' = ct_commits st" "ct_keys st' = ct_keys (noted keys st)"
    using take_events_frame[of env now "map jdict_of events" "([], noted keys st)"] unfolding run by simp_all
  then show "cloud_ok st'" "list_all cloud_row_ok rows" "ct_rows st' = ct_rows st" "ct_sync st' = ct_sync st" "ct_commits st' = ct_commits st"
    using t assms(1) by (simp_all add: cloud_ok_def taken_ok_def noted_def)
qed

lemma pipeline_cycle_ok: "cloud_ok st \<Longrightarrow> cloud_ok (pipeline_cycle env rd now b source st)"
  by (rule cycle_cases[where env = env and rd = rd and now = now and b = b and source = source and st = st])
    (simp_all add: take_events_keeps store_batch_ok)

definition cloud_cycle :: "cloud_env \<Rightarrow> reader \<Rightarrow> cloud_state \<Rightarrow> time \<times> log_bucket \<times> s3_source \<Rightarrow> cloud_state" where
  "cloud_cycle env rd st = (\<lambda>(now, b, source). pipeline_cycle env rd now b source st)"

interpretation cloud: event_machine "cloud_cycle env rd" cloud_ok for env rd
  by unfold_locales (simp add: cloud_cycle_def pipeline_cycle_ok split: prod.split)

text \<open>Over any run of the pipeline, whatever the bucket holds and whichever commits fail: no signature is
  stored twice, every object has one processing time, the two windows stay within 1000 and 5000, and every stored row
  has an address and the category of its port.\<close>

theorem cloud_tables_stay_sound:
  "cloud_ok (foldl (cloud_cycle env rd) new_cloud cycles)"
  by (rule cloud.run_inv) (simp add: cloud_ok_def new_cloud_def)

section \<open>Nothing fetched is lost\<close>

definition accepting :: "cloud_env \<Rightarrow> bool" where
  "accepting env \<longleftrightarrow> (\<forall>n. ce_up env n) \<and> (\<forall>r. \<not> ce_refuses env r)"

definition stored :: "cloud_state \<Rightarrow> string set" where
  "stored st = cl_signature ` set (ct_rows st)"

definition signature_at :: "cloud_env \<Rightarrow> time \<Rightarrow> jdict \<Rightarrow> string" where
  "signature_at env now event = cl_signature (row_of_event env now 0 event)"

definition worth_storing :: "jdict \<Rightarrow> bool" where
  "worth_storing event \<longleftrightarrow> \<not> heartbeat event \<and> fst (event_endpoint event) \<noteq> NO_ADDRESS"

lemma row_of_event_simps [simp]:
  "cl_signature (row_of_event env now n event) = signature_at env now event"
  "cl_attacker_ip (row_of_event env now n event) = fst (event_endpoint event)"
  by (simp_all add: signature_at_def row_of_event_def Let_def split: prod.splits)

definition covered :: "cloud_row list \<times> cloud_state \<Rightarrow> string set" where
  "covered rs = cl_signature ` set (fst rs) \<union> stored (snd rs)"

lemma take_event_covers:
  assumes "set (ct_seen (snd rs)) \<subseteq> covered rs"
  shows "set (ct_seen (snd (take_event env now e rs))) \<subseteq> covered (take_event env now e rs)"
    and "covered rs \<subseteq> covered (take_event env now e rs)"
    and "worth_storing e \<Longrightarrow> signature_at env now e \<in> covered (take_event env now e rs)"
proof -
  obtain rows st where rs: "rs = (rows, st)" by (cases rs)
  have "set (remember_signature (signature_at env now e) (ct_seen st)) \<subseteq> insert (signature_at env now e) (set (ct_seen st))"
    using set_take_last_subset[of SEEN_WINDOW "ct_seen st @ [signature_at env now e]"] by (auto simp: remember_signature_def)
  then show "set (ct_seen (snd (take_event env now e rs))) \<subseteq> covered (take_event env now e rs)"
    using assms by (auto simp: rs take_event_def Let_def covered_def stored_def)
  show "covered rs \<subseteq> covered (take_event env now e rs)"
    by (auto simp: rs take_event_def Let_def covered_def stored_def)
  show "signature_at env now e \<in> covered (take_event env now e rs)" if "worth_storing e"
    using assms that by (auto simp: rs take_event_def Let_def covered_def stored_def worth_storing_def)
qed

lemma take_events_cover:
  assumes "set (ct_seen (snd rs)) \<subseteq> covered rs"
  shows "set (ct_seen (snd (fold (take_event env now) es rs))) \<subseteq> covered (fold (take_event env now) es rs)
    \<and> covered rs \<subseteq> covered (fold (take_event env now) es rs)
    \<and> (\<forall>e \<in> set es. worth_storing e \<longrightarrow> signature_at env now e \<in> covered (fold (take_event env now) es rs))"
  using assms
proof (induction es arbitrary: rs)
  case (Cons e es)
  note step = take_event_covers[OF Cons.prems, where env = env and now = now and e = e]
  from Cons.IH[OF step(1)] step(2,3) show ?case by auto
qed simp

lemma insert_one_stores:
  assumes "accepting env" and "distinct (map cl_signature (ct_rows st))"
  shows "stored (insert_one env r st) = insert (cl_signature r) (stored st)"
    and "distinct (map cl_signature (ct_rows (insert_one env r st)))"
    and "ct_seen (insert_one env r st) = ct_seen st"
  using assms by (auto simp: insert_one_def insertable_def accepting_def stored_def)

lemma insert_all_stores:
  "accepting env \<Longrightarrow> distinct (map cl_signature (ct_rows st)) \<Longrightarrow>
   stored (fold (insert_one env) rows st) = stored st \<union> cl_signature ` set rows \<and> ct_seen (fold (insert_one env) rows st) = ct_seen st"
  by (induction rows arbitrary: st) (simp_all add: insert_one_stores)

lemma store_batch_stores:
  assumes "accepting env" and "distinct (map cl_signature (ct_rows st))"
  shows "stored (store_batch env now rows keys st) = stored st \<union> cl_signature ` set rows"
    and "ct_seen (store_batch env now rows keys st) = ct_seen st"
proof -
  have "stored (fold (insert_one env) rows (st\<lparr>ct_commits := k\<rparr>)) = stored st \<union> cl_signature ` set rows
      \<and> ct_seen (fold (insert_one env) rows (st\<lparr>ct_commits := k\<rparr>)) = ct_seen st" for k
    using insert_all_stores[OF assms(1), of "st\<lparr>ct_commits := k\<rparr>" rows] assms(2) by (simp add: stored_def)
  then show "stored (store_batch env now rows keys st) = stored st \<union> cl_signature ` set rows"
    "ct_seen (store_batch env now rows keys st) = ct_seen st"
    by (auto simp: store_batch_def stored_def)
qed

definition seen_stored :: "cloud_state \<Rightarrow> bool" where
  "seen_stored st \<longleftrightarrow> cloud_ok st \<and> set (ct_seen st) \<subseteq> stored st"

text \<open>A busy cycle stores what it takes and stays seen_stored.\<close>

lemma busy_cycle_settles:
  assumes "accepting env" and "seen_stored st" and "take_events env now events (noted keys st) = (rows, st')"
  shows "seen_stored (store_batch env now rows keys st')"
    and "\<forall>e \<in> set (map jdict_of events). worth_storing e \<longrightarrow> signature_at env now e \<in> stored (store_batch env now rows keys st')"
proof -
  let ?start = "([], noted keys st)"
  have run: "fold (take_event env now) (map jdict_of events) ?start = (rows, st')" using assms(3) by (simp add: take_events_def)
  have ok: "cloud_ok st" "set (ct_seen st) \<subseteq> stored st" using assms(2) by (simp_all add: seen_stored_def)
  have "set (ct_seen (snd ?start)) \<subseteq> covered ?start" using ok(2) by (simp add: covered_def stored_def)
  from take_events_cover[OF this, of env now "map jdict_of events"]
  have cov: "set (ct_seen st') \<subseteq> covered (rows, st')"
    "\<forall>e \<in> set (map jdict_of events). worth_storing e \<longrightarrow> signature_at env now e \<in> covered (rows, st')"
    unfolding run by simp_all
  note kept = take_events_keeps[OF ok(1) assms(3)]
  have "distinct (map cl_signature (ct_rows st'))" using kept(1) by (simp add: cloud_ok_def)
  note st = store_batch_stores[OF assms(1) this, of now rows keys]
  have all: "covered (rows, st') = stored (store_batch env now rows keys st')" by (auto simp: st(1) covered_def)
  show "seen_stored (store_batch env now rows keys st')"
    using cov(1) store_batch_ok[OF kept(1,2)] st(2) all by (simp add: seen_stored_def)
  show "\<forall>e \<in> set (map jdict_of events). worth_storing e \<longrightarrow> signature_at env now e \<in> stored (store_batch env now rows keys st')"
    using cov(2) all by simp
qed

lemma cloud_run_settled:
  assumes "accepting env" shows "seen_stored (foldl (cloud_cycle env rd) new_cloud cycles)"
proof (induction cycles rule: rev_induct)
  case Nil
  then show ?case by (simp add: seen_stored_def cloud_ok_def new_cloud_def)
next
  case (snoc c cycles)
  obtain now b source where c: "c = (now, b, source)" by (metis surj_pair)
  let ?st = "foldl (cloud_cycle env rd) new_cloud cycles"
  have "seen_stored (pipeline_cycle env rd now b source ?st)"
    by (rule cycle_cases[where env = env and rd = rd and now = now and b = b and source = source and st = ?st])
      (use snoc busy_cycle_settles(1)[OF assms snoc] in simp_all)
  moreover have "cloud_cycle env rd ?st c = pipeline_cycle env rd now b source ?st" by (simp add: c cloud_cycle_def)
  ultimately show ?case by (simp only: foldl_append foldl.simps)
qed


section \<open>Where it goes wrong\<close>

text \<open>While commits fail, a signature is remembered though its row is not stored; the retry drops the event.\<close>

lemma outage_loses_events:
  assumes "cl_signature (row_of_event env now (ct_drawn st) e) \<in> set (ct_seen st)"
  shows "take_event env now e (rows, st) = (rows, st)"
  using assms by (simp add: take_event_def)

lemma outage_remembers:
  assumes "\<forall>n. \<not> ce_up env n" and "s3_fetch rd b (ct_sync st) = Some ([JObj e], keys)" and "source_configured source"
    and "worth_storing e" and "signature_at env now e \<notin> set (ct_seen st)"
  shows "ct_rows (pipeline_cycle env rd now b source st) = ct_rows st"
    and "signature_at env now e \<in> set (ct_seen (pipeline_cycle env rd now b source st))"
proof -
  have none: "insert_one env r s = s\<lparr>ct_commits := Suc (ct_commits s)\<rparr>" for r s
    using assms(1) by (simp add: insert_one_def insertable_def)
  obtain rows st' where t: "take_events env now [JObj e] (noted keys st) = (rows, st')" by (metis surj_pair)
  have t': "rows = [row_of_event env now (ct_drawn (noted keys st)) e]" "ct_rows st' = ct_rows st"
    "ct_seen st' = remember_signature (signature_at env now e) (ct_seen st)"
    using t assms(4,5) by (auto simp: take_events_def take_event_def worth_storing_def Let_def)
  have run: "pipeline_cycle env rd now b source st = store_batch env now rows keys st'"
    by (rule busy_cycle[OF assms(3,2) _ t]) simp
  have "store_batch env now rows keys st' = st'\<lparr>ct_commits := Suc (Suc (ct_commits st'))\<rparr>"
    using assms(1) t'(1) by (simp add: store_batch_def insertable_def none)
  then show "ct_rows (pipeline_cycle env rd now b source st) = ct_rows st"
    "signature_at env now e \<in> set (ct_seen (pipeline_cycle env rd now b source st))"
    by (simp_all add: run t' remember_signature_def take_last_snoc SEEN_WINDOW_def)
qed

text \<open>The offset of a time stamp is dropped, where the normalizer converts to UTC.\<close>

lemma offset_is_dropped:
  assumes "ce_fromiso env (replace_Z t) = Some (local, Some offset)" and "offset \<noteq> 0"
  shows "event_time env now ((''timestamp'', JStr t) # e) \<noteq> to_naive_utc (local, Some offset)"
  using assms by (simp add: event_time_def get_or_default_def to_naive_utc_def)

text \<open>Objects that are no logs are never marked as processed: 250 of them, newer than the logs, stop the source.\<close>

lemma unreadable_objects_starve:
  assumes "bk_pages b = Some pages"
    and "list_all (\<lambda>f. \<not> readable_key (ob_key f)) (take S3_BATCH (candidate_objects (ct_sync st) (concat pages)))"
  shows "pipeline_cycle env rd now b source st = st"
proof -
  have "concat (map (\<lambda>f. if readable_key (ob_key f) then g f else []) fs) = []" if "list_all (\<lambda>f. \<not> readable_key (ob_key f)) fs" for g fs
    using that by (induction fs) simp_all
  note none = this[OF assms(2)]
  have "s3_fetch rd b (ct_sync st) = Some ([], [])"
    unfolding s3_fetch_def assms(1) option.map none Let_def by (simp add: dedup_on_def)
  then show ?thesis by (intro idle_cycle) blast
qed

text \<open>An object is marked with the end of the cycle: what is written to it between its download and that time is
  not read until it changes again.\<close>

lemma late_write_is_missed:
  assumes "map_of processed key = Some t" and "ob_key f = key" and "ob_modified f \<le> t"
  shows "f \<notin> set (candidate_objects processed objs)"
  using assms by (auto simp: candidate_objects_def)

text \<open>More than a thousand new events in one batch with a single duplicate: the batch fails, its rows go in one by
  one, the objects are not marked, and from then on every cycle reads the same objects, fails in the same
  way and stores nothing, because the window of signatures has lost each event before it comes round again.\<close>

lemma not_in_window:
  assumes "distinct xs" and "w < length xs" and "k < length xs"
  shows "xs ! k \<notin> set (take_last w (xs @ take k xs))"
proof
  assume "xs ! k \<in> set (take_last w (xs @ take k xs))"
  moreover have "k < length xs + k - w" using assms(2) by simp
  ultimately have "xs ! k \<in> set (drop (Suc k) xs) \<or> xs ! k \<in> set (take k xs)"
    using assms set_drop_subset_set_drop[of "Suc k" "length xs + k - w" xs] set_drop_subset[of "length xs + k - w - length xs" "take k xs"]
    by (auto simp: take_last_def)
  moreover have "distinct (take k xs @ xs ! k # drop (Suc k) xs)"
    using assms(1,3) by (simp add: id_take_nth_drop[symmetric])
  ultimately show False by auto
qed

lemma passes_again:
  assumes "distinct (map (signature_at env now) es)" and "SEEN_WINDOW < length es"
    and "es = pre @ suf" and "list_all worth_storing suf"
    and "ct_seen st = take_last SEEN_WINDOW (map (signature_at env now) (es @ pre))"
  shows "ct_seen (snd (fold (take_event env now) suf (rows, st))) = take_last SEEN_WINDOW (map (signature_at env now) (es @ es))
    \<and> map cl_signature (fst (fold (take_event env now) suf (rows, st))) = map cl_signature rows @ map (signature_at env now) suf"
  using assms(3-5)
proof (induction suf arbitrary: pre rows st)
  case (Cons e suf)
  let ?sigs = "map (signature_at env now) es"
  have pre: "take (length pre) ?sigs = map (signature_at env now) pre" "?sigs ! length pre = signature_at env now e"
    "length pre < length ?sigs"
    using Cons.prems(1) by (simp_all add: nth_append)
  then have "signature_at env now e \<notin> set (ct_seen st)"
    using not_in_window[OF assms(1), of SEEN_WINDOW "length pre"] assms(2) Cons.prems(3) by simp
  then obtain st' where st': "take_event env now e (rows, st) = (rows @ [row_of_event env now (ct_drawn st) e], st')"
    "ct_seen st' = remember_signature (signature_at env now e) (ct_seen st)"
    using Cons.prems(2) by (simp add: take_event_def worth_storing_def Let_def)
  have "ct_seen st' = take_last SEEN_WINDOW (map (signature_at env now) (es @ pre @ [e]))"
    by (simp add: st'(2) remember_signature_def Cons.prems(3) take_last_append_take_last)
  from Cons.IH[OF _ _ this, of "rows @ [row_of_event env now (ct_drawn st) e]"] Cons.prems(1,2)
  show ?case by (simp add: st'(1))
qed simp

lemma stored_rows_stay:
  "cl_signature ` set rows \<subseteq> stored st \<Longrightarrow> \<exists>k. fold (insert_one env) rows st = st\<lparr>ct_commits := k\<rparr>"
proof (induction rows arbitrary: st)
  case (Cons r rows)
  have "insert_one env r st = st\<lparr>ct_commits := Suc (ct_commits st)\<rparr>"
    using Cons.prems by (auto simp: insert_one_def insertable_def stored_def)
  moreover obtain k where "fold (insert_one env) rows (st\<lparr>ct_commits := Suc (ct_commits st)\<rparr>) = st\<lparr>ct_commits := k\<rparr>"
    using Cons.IH[of "st\<lparr>ct_commits := Suc (ct_commits st)\<rparr>"] Cons.prems by (auto simp: stored_def)
  ultimately show ?case by auto
next
  case Nil
  show ?case by (rule exI[of _ "ct_commits st"]) simp
qed

lemma oversized_batch_never_settles:
  assumes "source_configured source" and "s3_fetch rd b (ct_sync st) = Some (map JObj es, keys)"
    and "list_all worth_storing es" and "distinct (map (signature_at env now) es)" and "SEEN_WINDOW < length es"
    and "ct_seen st = take_last SEEN_WINDOW (map (signature_at env now) es)"
    and "set (map (signature_at env now) es) \<subseteq> stored st"
  shows "ct_rows (pipeline_cycle env rd now b source st) = ct_rows st"
    and "ct_sync (pipeline_cycle env rd now b source st) = ct_sync st"
    and "ct_seen (pipeline_cycle env rd now b source st) = ct_seen st"
proof -
  have objs: "map jdict_of (map JObj es) = es" by (induction es) simp_all
  obtain rows st' where t: "take_events env now (map JObj es) (noted keys st) = (rows, st')" by (metis surj_pair)
  then have run: "fold (take_event env now) es ([], noted keys st) = (rows, st')" by (simp only: take_events_def objs)
  have again: "ct_seen st' = take_last SEEN_WINDOW (map (signature_at env now) (es @ es))"
    "map cl_signature rows = map (signature_at env now) es"
    using passes_again[OF assms(4,5), of "[]" es "noted keys st" "[]"] assms(3,6) unfolding run by simp_all
  have seen: "ct_seen st' = ct_seen st"
    using assms(5,6) again(1) by (simp add: take_last_def)
  have frame: "ct_rows st' = ct_rows st" "ct_sync st' = ct_sync st"
    using take_events_frame[of env now es "([], noted keys st)"] unfolding run by simp_all
  have "cl_signature ` set rows = set (map (signature_at env now) es)" by (metis again(2) list.set_map)
  then have sigs: "cl_signature ` set rows \<subseteq> stored st'" using assms(7) frame(1) by (simp add: stored_def)
  have ne: "rows \<noteq> []" using assms(5) arg_cong[OF again(2), of length] by auto
  have "\<not> insertable env st' rows"
  proof
    assume "insertable env st' rows"
    then have "cl_signature ` set rows \<inter> stored st' = {}" by (auto simp: insertable_def stored_def)
    with sigs ne show False by (cases rows) auto
  qed
  moreover obtain k where "fold (insert_one env) rows (st'\<lparr>ct_commits := Suc (ct_commits st')\<rparr>) = st'\<lparr>ct_commits := k\<rparr>"
    using stored_rows_stay[of rows "st'\<lparr>ct_commits := Suc (ct_commits st')\<rparr>" env] sigs by (auto simp: stored_def)
  ultimately have store: "store_batch env now rows keys st' = st'\<lparr>ct_commits := k\<rparr>" using ne by (simp add: store_batch_def)
  have "map JObj es \<noteq> [] \<or> keys \<noteq> []" using assms(5) by auto
  from busy_cycle[OF assms(1,2) this t]
  show "ct_rows (pipeline_cycle env rd now b source st) = ct_rows st"
    "ct_sync (pipeline_cycle env rd now b source st) = ct_sync st"
    "ct_seen (pipeline_cycle env rd now b source st) = ct_seen st"
    by (simp_all add: store frame seen)
qed

section \<open>A witness\<close>

definition demo_cloud :: cloud_env where
  "demo_cloud = \<lparr>ce_fromiso = (\<lambda>_. None), ce_iso = (\<lambda>_. ''now''), ce_uuid = (\<lambda>n. ''u'' @ str_of_nat n),
     ce_refuses = (\<lambda>_. False), ce_up = (\<lambda>_. True)\<rparr>"

definition demo_bucket :: log_bucket where
  "demo_bucket = \<lparr>bk_pages = Some [[\<lparr>ob_key = ''a.log'', ob_modified = 5\<rparr>]], bk_get = (\<lambda>_. Some ''x'')\<rparr>"

definition demo_lines :: reader where
  "demo_lines = \<lparr>decode = (\<lambda>s. s), loads = (\<lambda>s. Some (JObj [(''src_ip'', JStr s)]))\<rparr>"


end
