(* ===== verification/Static_Analyzer.thy ===== *)
theory Static_Analyzer
  imports Json Bytes "HOL-Library.Word"
begin

unbundle bit_operations_syntax

text \<open>
  Static analysis of a sample (\<open>backend/app/services/static_analyzer.py\<close>): the headers and sections of
  PE and ELF files, PDF and script indicators, suspicious API names, packers and printable strings.
  A report is the dictionary the code returns.

  Arguments: the entropy of a block (a rounded logarithmic sum of floats) and the text of a float, the UTF-8 decoder, and the order
  in which the elements of a set are visited, any list of them without repetition.
\<close>

section \<open>Tables\<close>

definition INJECTION_APIS :: "string list" where
  "INJECTION_APIS =
    [''VirtualAllocEx'', ''WriteProcessMemory'', ''CreateRemoteThread'', ''NtUnmapViewOfSection'',
     ''ZwUnmapViewOfSection'', ''NtCreateSection'', ''MapViewOfSection'', ''OpenProcess'', ''RtlCreateUserThread'',
     ''NtQueueApcThread'', ''SetThreadContext'', ''SuspendThread'', ''ResumeThread'', ''QueueUserAPC'',
     ''CreateProcessInternals'']"

definition NETWORK_APIS :: "string list" where
  "NETWORK_APIS =
    [''socket'', ''connect'', ''send'', ''recv'', ''WSAStartup'', ''WSAConnect'', ''InternetOpenA'',
     ''InternetOpenUrlA'', ''InternetReadFile'', ''URLDownloadToFile'', ''WinHttpOpen'', ''WinHttpConnect'',
     ''WinHttpSendRequest'', ''HttpSendRequestA'', ''getaddrinfo'', ''gethostbyname'', ''inet_addr'', ''WSASend'',
     ''WSARecv'', ''FtpOpenFile'', ''FtpPutFile'', ''NetShareEnum'']"

definition PERSISTENCE_APIS :: "string list" where
  "PERSISTENCE_APIS =
    [''RegSetValueEx'', ''RegCreateKeyEx'', ''RegOpenKeyEx'', ''OpenSCManager'', ''CreateServiceA'',
     ''StartServiceA'', ''ChangeServiceConfig'', ''SHSetValue'', ''SHRegSetPath'', ''WritePrivateProfileString'',
     ''SetFileTime'', ''CopyFileA'', ''MoveFileExA'', ''CreateTaskScheduler'']"

definition PRIVILEGE_APIS :: "string list" where
  "PRIVILEGE_APIS =
    [''AdjustTokenPrivileges'', ''OpenProcessToken'', ''LookupPrivilegeValue'', ''CreateProcessWithLogon'',
     ''ImpersonateLoggedOnUser'', ''DuplicateTokenEx'', ''SetTokenInformation'', ''LogonUser'', ''LsaLogonUser'']"

definition CRYPTO_APIS :: "string list" where
  "CRYPTO_APIS =
    [''CryptEncrypt'', ''CryptDecrypt'', ''CryptGenKey'', ''BCryptEncrypt'', ''BCryptDecrypt'',
     ''BCryptGenerateSymmetricKey'', ''NCryptEncrypt'', ''CryptAcquireContext'', ''CryptImportKey'',
     ''CryptExportKey'', ''CryptHashData'']"

definition EVASION_APIS :: "string list" where
  "EVASION_APIS =
    [''IsDebuggerPresent'', ''CheckRemoteDebuggerPresent'', ''NtQueryInformationProcess'', ''FindWindow'',
     ''GetTickCount'', ''Sleep'', ''timeGetTime'', ''QueryPerformanceCounter'', ''GetSystemInfo'', ''ExitProcess'',
     ''TerminateProcess'', ''DeleteFileA'', ''ClearEventLog'']"

definition PACKER_SIGNATURES :: "(string \<times> string list) list" where
  "PACKER_SIGNATURES =
    [(''UPX'', [''UPX0'', ''UPX1'', ''UPX2'', ''UPX!'']), (''MPRESS'', [''MPRESS1'', ''MPRESS2'', ''.MPRESS'']),
     (''Themida'', [''Themida'', ''.themida'', ''WinLicense'']),
     (''NsPack'', [''NsPack'', ''nSPack'', ''NS_PACKER'']), (''PECompact'', [''PEC2'', ''PECompact'']),
     (''ASPack'', [''ASPack'', ''ASProtect'']), (''MoleBox'', [''MoleBox'']), (''Enigma'', [''Enigma Protector'']),
     (''VMProtect'', [''VMProtect'', ''.vmp0'', ''.vmp1'']), (''Obsidium'', [''Obsidium'']),
     (''ExeCryptor'', [''ExeCryptor'']), (''PELOCK'', [''PELOck'', ''.pelock''])]"

definition PE_MACHINES :: "(nat \<times> string) list" where
  "PE_MACHINES =
    [(332, ''x86 (i386)''), (512, ''IA-64 (Itanium)''), (34404, ''x86-64 (AMD64)''), (448, ''ARM (Thumb)''),
     (43620, ''ARM64''), (452, ''ARM Thumb-2''), (3772, ''EFI Byte Code''), (496, ''PowerPC'')]"

definition ELF_MACHINES :: "(nat \<times> string) list" where
  "ELF_MACHINES =
    [(3, ''x86''), (40, ''ARM''), (62, ''x86-64''), (183, ''AArch64''), (8, ''MIPS''), (21, ''PowerPC''),
     (22, ''PowerPC64'')]"

definition API_CATEGORIES :: "(string \<times> string list) list" where
  "API_CATEGORIES =
    [(''injection'', INJECTION_APIS), (''network'', NETWORK_APIS), (''persistence'', PERSISTENCE_APIS),
     (''privilege'', PRIVILEGE_APIS), (''crypto'', CRYPTO_APIS), (''evasion'', EVASION_APIS)]"

definition LINUX_PATTERNS :: "string list" where
  "LINUX_PATTERNS = [''PTRACE_ATTACH'', ''ptrace'', ''/proc/self'', ''mprotect'', ''mmap'', ''/dev/mem'', ''LD_PRELOAD'',
     ''dlopen'', ''fork('', ''execve('']"

definition SCRIPT_EXTENSIONS :: "string list" where
  "SCRIPT_EXTENSIONS = [''sh'', ''py'', ''js'', ''bat'', ''ps1'', ''lua'', ''rb'', ''pl'']"

record static_env =
  se_entropy :: "string \<Rightarrow> rat"
  se_repr :: "rat \<Rightarrow> string"
  se_decode :: "string \<Rightarrow> string"
  se_order :: "string list \<Rightarrow> string list"

section \<open>Helpers\<close>

definition float_json :: "static_env \<Rightarrow> rat \<Rightarrow> json" where
  "float_json env r = JFloat r (se_repr env r)"

definition texts :: "string list \<Rightarrow> json" where
  "texts ss = JList (map JStr ss)"

text \<open>\<open>hex(n)\<close>\<close>

fun hex_digits :: "nat \<Rightarrow> string" where
  "hex_digits n = (if n < 16 then [hex_digit n] else hex_digits (n div 16) @ [hex_digit (n mod 16)])"

declare hex_digits.simps [simp del]

definition py_hex :: "nat \<Rightarrow> string" where
  "py_hex n = ''0x'' @ hex_digits n"

definition entropy_risk :: "rat \<Rightarrow> string" where
  "entropy_risk e = (if e \<ge> 15 / 2 then ''CRITICAL'' else if e \<ge> 7 then ''HIGH'' else if e \<ge> 6 then ''MEDIUM'' else ''LOW'')"

text \<open>\<open>bytes.lower\<close>\<close>

definition byte_lower :: "string \<Rightarrow> string" where
  "byte_lower s = map (\<lambda>c. let n = of_char c :: nat in if 65 \<le> n \<and> n \<le> 90 then char_of (n + 32) else c) s"

definition contains_any :: "string list \<Rightarrow> string \<Rightarrow> bool" where
  "contains_any ws s = list_ex (\<lambda>w. contains_str w s) ws"

text \<open>Searches of a word, white space (at least one or any), and what must follow.\<close>

fun word_then :: "bool \<Rightarrow> string \<Rightarrow> (string \<Rightarrow> bool) \<Rightarrow> string \<Rightarrow> bool" where
  "word_then spaced w P [] = False"
| "word_then spaced w P (c # cs) =
     ((starts_with w (c # cs) \<and> (let r = drop (length w) (c # cs) in
         (spaced \<longrightarrow> r \<noteq> [] \<and> is_space (hd r)) \<and> P (dropWhile is_space r)))
      \<or> word_then spaced w P cs)"

definition opens_paren :: "string \<Rightarrow> bool" where
  "opens_paren s = starts_with ''('' s"

definition api_hits :: "static_env \<Rightarrow> (string \<Rightarrow> bool) \<Rightarrow> (string \<times> string list) list" where
  "api_hits env hit = map (\<lambda>(cat, apis). (cat, filter hit (se_order env apis))) API_CATEGORIES"

definition hits_json :: "(string \<times> string list) list \<Rightarrow> json" where
  "hits_json hits = JObj (map (\<lambda>(cat, apis). (cat, texts apis)) hits)"

definition hit_count :: "(string \<times> string list) list \<Rightarrow> nat" where
  "hit_count hits = sum_list (map (\<lambda>(_, apis). length apis) hits)"

section \<open>Strings\<close>

function char_runs :: "(char \<Rightarrow> bool) \<Rightarrow> string \<Rightarrow> string list" where
  "char_runs P [] = []"
| "char_runs P (c # cs) = (if P c then takeWhile P (c # cs) # char_runs P (dropWhile P cs) else char_runs P cs)"
  by pat_completeness auto
termination by (relation "measure (\<lambda>(P, s). length s)") (auto simp: le_imp_less_Suc length_dropWhile_le)

definition ascii_printable :: "char \<Rightarrow> bool" where
  "ascii_printable c = (let n = of_char c :: nat in 32 \<le> n \<and> n \<le> 126)"

definition printable_strings :: "string \<Rightarrow> string list" where
  "printable_strings data = dedup_on (\<lambda>s. s) (filter (\<lambda>s. 6 \<le> length s) (char_runs ascii_printable data))"

definition string_category :: "string \<Rightarrow> string" where
  "string_category s = (let sl = lower s; bs = [CHR 0x5C] in
     if contains_any [''http://'', ''https://''] sl then ''urls''
     else if contains_any [''.com'', ''.net'', ''.io'', ''.cc'', ''ftp://'', ''smtp://''] sl then ''network''
     else if contains_any [''/tmp'', ''c:'' @ bs, ''appdata'', bs @ ''system32'', ''.exe'', ''.dll'', ''.so'', ''.sh''] sl then ''filesystem''
     else if contains_any [''hkey'', ''software'' @ bs, ''currentversion'', ''run'' @ bs, ''runonce''] sl then ''registry''
     else if contains_any [''aes'', ''rsa'', ''des'', ''blowfish'', ''encrypt'', ''decrypt'', ''cipher'', ''base64''] sl then ''crypto''
     else if contains_any [''eval'', ''exec'', ''cmd'', ''shell'', ''powershell'', ''bash'', ''wget'', ''curl'', ''nc -''] sl then ''suspicious''
     else ''other'')"

definition STRING_CATEGORIES :: "string list" where
  "STRING_CATEGORIES = [''network'', ''filesystem'', ''registry'', ''crypto'', ''suspicious'', ''urls'', ''other'']"

definition extract_strings :: "string \<Rightarrow> (string \<times> string list) list" where
  "extract_strings data =
     map (\<lambda>k. (k, take 20 (filter (\<lambda>s. string_category s = k) (take 120 (printable_strings data))))) STRING_CATEGORIES"

section \<open>PE files\<close>

text \<open>A field whose range was checked.\<close>

definition le_at :: "nat \<Rightarrow> nat \<Rightarrow> string \<Rightarrow> nat" where
  "le_at width offset data = le_value (take width (drop offset data))"

definition flag_set :: "nat \<Rightarrow> 32 word \<Rightarrow> bool" where
  "flag_set n mask_word = ((of_nat n :: 32 word) AND mask_word \<noteq> 0)"

definition ascii_ignore :: "string \<Rightarrow> string" where
  "ascii_ignore s = filter (\<lambda>c. (of_char c :: nat) < 128) s"

definition pe_section :: "static_env \<Rightarrow> string \<Rightarrow> nat \<Rightarrow> json" where
  "pe_section env data so =
     (let name = ascii_ignore (rstrip_nul (take 8 (drop so data)));
          vsize = le_at 4 (so + 8) data; raw_offset = le_at 4 (so + 20) data; raw_size = le_at 4 (so + 16) data;
          chars = le_at 4 (so + 36) data;
          ent = se_entropy env (take (min raw_size 65536) (drop raw_offset data))
      in JObj [(''name'', JStr name), (''virtual_size'', JInt (int vsize)), (''raw_size'', JInt (int raw_size)),
               (''entropy'', float_json env ent), (''risk'', JStr (entropy_risk ent)),
               (''executable'', JBool (flag_set chars 0x20000000)), (''writable'', JBool (flag_set chars 0x40000000)),
               (''wx_combo'', JBool (flag_set chars 0x20000000))])"

text \<open>At most \<open>k\<close> sections from an offset on.\<close>

fun pe_sections :: "static_env \<Rightarrow> string \<Rightarrow> nat \<Rightarrow> nat \<Rightarrow> json list" where
  "pe_sections env data so 0 = []"
| "pe_sections env data so (Suc k) =
     (if length data < so + 40 then [] else pe_section env data so # pe_sections env data (so + 40) k)"

definition pe_packer :: "static_env \<Rightarrow> string \<Rightarrow> string option" where
  "pe_packer env data =
     (case find (\<lambda>(_, sigs). contains_any sigs (take 8192 data)) PACKER_SIGNATURES of
        Some (name, _) \<Rightarrow> Some name
      | None \<Rightarrow> if se_entropy env (take 65536 data) > 36 / 5 then Some ''Unknown Packer (High Entropy)'' else None)"

definition is_dll_char :: "char \<Rightarrow> bool" where
  "is_dll_char c = (let n = of_char c :: nat in
     (48 \<le> n \<and> n \<le> 57) \<or> (65 \<le> n \<and> n \<le> 90) \<or> (97 \<le> n \<and> n \<le> 122) \<or> n = 95 \<or> n = 45)"

text \<open>The matches of \<open>[\w\-]+\.(dll|DLL|exe|EXE)\<close>.\<close>

function dll_matches :: "string \<Rightarrow> string list" where
  "dll_matches [] = []"
| "dll_matches (c # cs) =
     (if \<not> is_dll_char c then dll_matches cs
      else (let run = takeWhile is_dll_char (c # cs); rest = dropWhile is_dll_char cs in
        if take 4 rest \<in> {''.dll'', ''.DLL'', ''.exe'', ''.EXE''}
        then (run @ take 4 rest) # dll_matches (drop 4 rest) else dll_matches rest))"
  by pat_completeness auto
termination
  by (relation "measure length") (auto simp: le_imp_less_Suc length_dropWhile_le less_Suc_eq_le intro: le_trans[OF diff_le_self])

definition text_or_null :: "string option \<Rightarrow> json" where
  "text_or_null t = (case t of None \<Rightarrow> JNull | Some s \<Rightarrow> JStr s)"

definition pe_machine :: "nat \<Rightarrow> string" where
  "pe_machine n = (case map_of PE_MACHINES n of Some a \<Rightarrow> a | None \<Rightarrow> ''Unknown ('' @ py_hex n @ '')'')"

text \<open>The magic, the entry point and the image base; the last may lie beyond the end.\<close>

definition pe_optional :: "string \<Rightarrow> nat \<Rightarrow> string + (nat \<times> nat)" where
  "pe_optional data opt =
     (let magic = (if opt + 2 \<le> length data then le_at 2 opt data else 0) in
      if magic = 0x10b \<and> opt + 28 \<le> length data
      then (case unpack_le 4 (opt + 28) data of Inl e \<Rightarrow> Inl e | Inr base \<Rightarrow> Inr (le_at 4 (opt + 16) data, base))
      else if magic = 0x20b \<and> opt + 32 \<le> length data then Inr (le_at 4 (opt + 16) data, le_at 8 (opt + 24) data)
      else Inr (0, 0))"

definition pe_imports :: "static_env \<Rightarrow> string \<Rightarrow> (string \<times> string list) list" where
  "pe_imports env data =
     (let dlls = se_order env (dedup_on (\<lambda>s. s) (map byte_lower (dll_matches data)));
          funcs = filter (\<lambda>api. contains_str api data) (se_order env (dedup_on (\<lambda>s. s) (concat (map snd API_CATEGORIES))))
      in if funcs = [] then [] else map (\<lambda>dll. (dll, take 6 funcs)) (take 15 dlls))"

definition pe_details :: "static_env \<Rightarrow> string \<Rightarrow> string + jdict" where
  "pe_details env data =
     (case unpack_le 4 0x3c data of
        Inl e \<Rightarrow> Inl e
      | Inr pe \<Rightarrow>
          if length data < pe + 24 then Inl ''Truncated PE header''
          else (let machine = le_at 2 (pe + 4) data; num_sections = le_at 2 (pe + 6) data; timestamp = le_at 4 (pe + 8) data;
                    opt_header_size = le_at 2 (pe + 20) data; characteristics = le_at 2 (pe + 22) data
            in (case pe_optional data (pe + 24) of
                  Inl e \<Rightarrow> Inl e
                | Inr (entry_point, image_base) \<Rightarrow>
                    (let sections = pe_sections env data (pe + 24 + opt_header_size) (min num_sections 16);
                         hits = api_hits env (\<lambda>api. contains_str api data); n = hit_count hits
                     in Inr [(''architecture'', JStr (pe_machine machine)),
                         (''type'', JStr (if flag_set characteristics 0x2000 then ''DLL'' else ''EXE'')),
                         (''entry_point'', JStr (py_hex entry_point)), (''image_base'', JStr (py_hex image_base)),
                         (''timestamp'', JInt (int timestamp)), (''sections'', JList sections),
                         (''packer'', text_or_null (pe_packer env data)),
                         (''overall_entropy'', float_json env (se_entropy env (take 65536 data))),
                         (''imports'', hits_json (pe_imports env data)), (''suspicious_by_category'', hits_json hits),
                         (''total_suspicious_apis'', JInt (int n)),
                         (''control_flow_complexity'', JStr (if n > 8 then ''HIGH'' else if n > 3 then ''MEDIUM'' else ''LOW'')),
                         (''is_dll'', JBool (flag_set characteristics 0x2000))]))))"

definition or_failed :: "string \<Rightarrow> string + jdict \<Rightarrow> jdict" where
  "or_failed fmt r = (''format'', JStr fmt) # (case r of Inl e \<Rightarrow> [(''error'', JStr e)] | Inr d \<Rightarrow> d)"

definition analyze_pe :: "static_env \<Rightarrow> string \<Rightarrow> jdict" where
  "analyze_pe env data = or_failed ''PE'' (pe_details env data)"

section \<open>ELF files\<close>

text \<open>\<open>struct.unpack_from\<close> of one field, big-endian when asked.\<close>

definition unpack_field :: "bool \<Rightarrow> nat \<Rightarrow> nat \<Rightarrow> string \<Rightarrow> string + nat" where
  "unpack_field big width offset data =
     (case unpack_le width offset data of
        Inl e \<Rightarrow> Inl e
      | Inr n \<Rightarrow> Inr (if big then le_value (rev (take width (drop offset data))) else n))"

definition elf_machine :: "nat \<Rightarrow> string" where
  "elf_machine n = (case map_of ELF_MACHINES n of Some a \<Rightarrow> a | None \<Rightarrow> ''Unknown ('' @ py_hex n @ '')'')"

definition elf_details :: "static_env \<Rightarrow> string \<Rightarrow> string + jdict" where
  "elf_details env data =
     (if length data < 6 then Inl ''index out of range''
      else (let elf_class = of_char (data ! 4) :: nat; elf_data = of_char (data ! 5) :: nat in
        (case unpack_field (elf_data = 2) 2 0x12 data of
           Inl e \<Rightarrow> Inl e
         | Inr machine \<Rightarrow>
             (let bits = (if elf_class = 2 then 64 else 32 :: int); little = (elf_data = 1);
                  width = (if little \<and> bits = 64 then 8 else 4) in
              (case (if 0x20 < length data then unpack_le width 0x18 data else Inr 0) of
                 Inl e \<Rightarrow> Inl e
               | Inr entry \<Rightarrow>
                   (let hits = api_hits env (\<lambda>api. contains_str (byte_lower api) (byte_lower data));
                        linux = filter (\<lambda>p. contains_str p data) LINUX_PATTERNS; e = se_entropy env (take 65536 data)
                    in Inr [(''architecture'', JStr (elf_machine machine)), (''bit_width'', JInt bits),
                        (''entry_point'', JStr (py_hex entry)), (''overall_entropy'', float_json env e),
                        (''packer'', if e > 36 / 5 then JStr ''Packed/Encrypted ELF'' else JNull),
                        (''suspicious_by_category'', hits_json hits), (''linux_suspicious'', texts linux),
                        (''total_suspicious_apis'', JInt (int (hit_count hits))),
                        (''control_flow_complexity'', JStr (if linux \<noteq> [] then ''HIGH'' else ''MEDIUM''))]))))))"

definition analyze_elf :: "static_env \<Rightarrow> string \<Rightarrow> jdict" where
  "analyze_elf env data = or_failed ''ELF'' (elf_details env data)"

section \<open>PDF files and scripts\<close>

definition indicators_of :: "(bool \<times> string) list \<Rightarrow> string list" where
  "indicators_of checks = map snd (filter fst checks)"

definition indicator_risk :: "string list \<Rightarrow> string" where
  "indicator_risk inds = (if 3 \<le> length inds then ''HIGH'' else if inds \<noteq> [] then ''MEDIUM'' else ''LOW'')"

text \<open>The digits of the first match of \<open>/Count\s+(\d+)\<close>.\<close>

fun count_search :: "string \<Rightarrow> string option" where
  "count_search [] = None"
| "count_search (c # cs) =
     (let r = drop 6 (c # cs); ds = takeWhile is_digit (dropWhile is_space r) in
      if starts_with ''/Count'' (c # cs) \<and> r \<noteq> [] \<and> is_space (hd r) \<and> ds \<noteq> [] then Some ds else count_search cs)"

definition pdf_indicators :: "string \<Rightarrow> string list" where
  "pdf_indicators text_of = indicators_of
     [(contains_any [''/JS'', ''/JavaScript''] text_of, ''EmbeddedJavaScript''),
      (contains_any [''/OpenAction'', ''/AA ''] text_of, ''AutoOpenAction''),
      (contains_str ''/Launch'' text_of, ''LaunchAction''),
      (contains_str ''/EmbeddedFile'' text_of, ''EmbeddedFile''),
      (contains_str ''/ObjStm'' text_of, ''ObjectStream (obfuscation)''),
      (contains_str ''/XFA'' text_of, ''XFAForm''),
      (word_then False ''/URI'' opens_paren text_of, ''ExternalURI''),
      (contains_str ''/AcroForm'' text_of, ''AcroForm''),
      (contains_str ''base64'' (lower text_of), ''Base64Encoded''),
      (word_then False ''eval'' opens_paren text_of, ''eval() in JS'')]"

definition analyze_pdf :: "static_env \<Rightarrow> string \<Rightarrow> jdict" where
  "analyze_pdf env data =
     (let t = se_decode env data; inds = pdf_indicators t in
      [(''format'', JStr ''PDF''),
       (''pages'', JInt (case count_search t of Some ds \<Rightarrow> int (nat_of_digits 0 ds) | None \<Rightarrow> 0)),
       (''indicators'', texts inds), (''risk'', JStr (indicator_risk inds)),
       (''overall_entropy'', float_json env (se_entropy env (take 65536 data)))])"

definition script_indicators :: "string \<Rightarrow> string list" where
  "script_indicators t = indicators_of
     [(contains_str ''base64'' (lower t), ''Base64Usage''),
      (word_then False ''eval'' opens_paren t, ''eval()''),
      (word_then False ''exec'' opens_paren t, ''exec()''),
      (contains_any [''socket'', ''connect('', ''urllib'', ''requests.get''] t, ''NetworkActivity''),
      (contains_any [''subprocess'', ''os.system'', ''Popen''] t, ''SubprocessSpawning''),
      (word_then True ''rm'' (starts_with ''-rf'') t \<or> word_then True ''del'' (starts_with ''/f'') t \<or> contains_str ''shutil.rmtree'' t,
       ''FileDeletion''),
      (word_then True ''chmod'' (starts_with ''+x'') t \<or> word_then True ''chmod'' (starts_with ''777'') t, ''PermissionChange''),
      (contains_any [''crontab'', ''schtasks''] t \<or> word_then True ''at'' (\<lambda>r. r \<noteq> [] \<and> is_digit (hd r)) t, ''ScheduledTask'')]"

definition after_last_dot :: "string \<Rightarrow> string" where
  "after_last_dot s = rev (takeWhile (\<lambda>c. c \<noteq> CHR ''.'') (rev s))"

definition analyze_script :: "static_env \<Rightarrow> string \<Rightarrow> string \<Rightarrow> jdict" where
  "analyze_script env data filename =
     (let ext = (if CHR ''.'' \<in> set filename then lower (after_last_dot filename) else ''sh'');
          t = se_decode env data; inds = script_indicators t in
      [(''format'', JStr (''SCRIPT ('' @ upper ext @ '')'')), (''language'', JStr (upper ext)), (''indicators'', texts inds),
       (''line_count'', JInt (int (length (filter (\<lambda>c. c = CHR 0x0A) t)))), (''risk'', JStr (indicator_risk inds)),
       (''overall_entropy'', float_json env (se_entropy env (take 32768 data)))])"

section \<open>The analyzer\<close>

definition static_file_type :: "string \<Rightarrow> string \<Rightarrow> string" where
  "static_file_type data filename =
     (if take 2 data = ''MZ'' then ''pe''
      else if take 4 data = CHR 0x7F # ''ELF'' then ''elf''
      else if take 4 data = ''%PDF'' then ''pdf''
      else if take 4 data \<in> {''PK'' @ [CHR 0x03, CHR 0x04], ''PK'' @ [CHR 0x05, CHR 0x06]} then ''zip''
      else if list_ex (\<lambda>ext. ends_with (CHR ''.'' # ext) (lower filename)) SCRIPT_EXTENSIONS then ''script''
      else ''binary'')"

definition with_hits :: "static_env \<Rightarrow> string \<Rightarrow> jdict \<Rightarrow> jdict" where
  "with_hits env data details =
     (if has_key ''suspicious_by_category'' details then details
      else (let hits = api_hits env (\<lambda>api. contains_str api data) in
            details @ [(''suspicious_by_category'', hits_json hits), (''total_suspicious_apis'', JInt (int (hit_count hits)))]))"

definition static_details :: "static_env \<Rightarrow> string \<Rightarrow> string \<Rightarrow> jdict" where
  "static_details env data filename =
     (let ft = static_file_type data filename; e = se_entropy env (take 65536 data) in
      if ft = ''pe'' then analyze_pe env data
      else if ft = ''elf'' then analyze_elf env data
      else if ft = ''pdf'' then analyze_pdf env data
      else if ft = ''script'' then analyze_script env data filename
      else [(''format'', JStr (upper ft)), (''overall_entropy'', float_json env e),
            (''packer'', if e > 36 / 5 then JStr ''Unknown Packer (High Entropy)'' else JNull)])"

definition static_analyze :: "static_env \<Rightarrow> string \<Rightarrow> string \<Rightarrow> jdict" where
  "static_analyze env data filename =
     [(''file_type'', JStr (static_file_type data filename)), (''filename'', JStr filename),
      (''file_size'', JInt (int (length data))), (''overall_entropy'', float_json env (se_entropy env (take 65536 data))),
      (''strings'', JObj (map (\<lambda>(k, ss). (k, texts ss)) (extract_strings data))),
      (''details'', JObj (with_hits env data (static_details env data filename)))]"

section \<open>A PE file reads back\<close>

text \<open>The layout of a PE file, as a compiler writes it.\<close>

record section_spec =
  sc_name :: string
  sc_vsize :: nat
  sc_vaddr :: nat
  sc_size :: nat
  sc_offset :: nat
  sc_chars :: nat

record pe_spec =
  px_machine :: nat
  px_timestamp :: nat
  px_characteristics :: nat
  px_entry :: nat
  px_base :: nat
  px_plus :: bool \<comment> \<open>PE32+\<close>
  px_sections :: "section_spec list"

abbreviation zeros :: "nat \<Rightarrow> string" where
  "zeros n \<equiv> replicate n (CHR 0x00)"

definition section_bytes :: "section_spec \<Rightarrow> string" where
  "section_bytes s = sc_name s @ zeros (8 - length (sc_name s)) @ le_bytes 4 (sc_vsize s) @ le_bytes 4 (sc_vaddr s)
     @ le_bytes 4 (sc_size s) @ le_bytes 4 (sc_offset s) @ zeros 12 @ le_bytes 4 (sc_chars s)"

definition section_spec_ok :: "section_spec \<Rightarrow> bool" where
  "section_spec_ok s \<longleftrightarrow> length (sc_name s) \<le> 8 \<and> (sc_name s = [] \<or> List.last (sc_name s) \<noteq> CHR 0x00)
     \<and> list_all (\<lambda>c. (of_char c :: nat) < 128) (sc_name s)
     \<and> sc_vsize s < 2 ^ 32 \<and> sc_size s < 2 ^ 32 \<and> sc_offset s < 2 ^ 32 \<and> sc_chars s < 2 ^ 32"

definition optional_header :: "pe_spec \<Rightarrow> string" where
  "optional_header p =
     (if px_plus p then le_bytes 2 0x20b @ zeros 14 @ le_bytes 4 (px_entry p) @ zeros 4 @ le_bytes 8 (px_base p) @ zeros 80
      else le_bytes 2 0x10b @ zeros 14 @ le_bytes 4 (px_entry p) @ zeros 8 @ le_bytes 4 (px_base p) @ zeros 64)"

definition coff_header :: "pe_spec \<Rightarrow> string" where
  "coff_header p = ''PE'' @ zeros 2 @ le_bytes 2 (px_machine p) @ le_bytes 2 (length (px_sections p)) @ le_bytes 4 (px_timestamp p)
     @ zeros 8 @ le_bytes 2 (length (optional_header p)) @ le_bytes 2 (px_characteristics p)"

definition pe_image :: "string \<Rightarrow> string \<Rightarrow> pe_spec \<Rightarrow> string \<Rightarrow> string" where
  "pe_image dos stub p rest = dos @ le_bytes 4 (64 + length stub) @ stub @ coff_header p @ optional_header p
     @ concat (map section_bytes (px_sections p)) @ rest"

definition pe_spec_ok :: "string \<Rightarrow> string \<Rightarrow> pe_spec \<Rightarrow> bool" where
  "pe_spec_ok dos stub p \<longleftrightarrow> length dos = 60 \<and> 64 + length stub < 2 ^ 32
     \<and> px_machine p < 2 ^ 16 \<and> px_timestamp p < 2 ^ 32 \<and> px_characteristics p < 2 ^ 16 \<and> px_entry p < 2 ^ 32
     \<and> px_base p < (if px_plus p then 2 ^ 64 else 2 ^ 32) \<and> length (px_sections p) < 2 ^ 16 \<and> list_all section_spec_ok (px_sections p)"

text \<open>What the report says of a section.\<close>

definition section_said :: "static_env \<Rightarrow> string \<Rightarrow> section_spec \<Rightarrow> json" where
  "section_said env data s =
     (let ent = se_entropy env (take (min (sc_size s) 65536) (drop (sc_offset s) data)) in
      JObj [(''name'', JStr (sc_name s)), (''virtual_size'', JInt (int (sc_vsize s))), (''raw_size'', JInt (int (sc_size s))),
            (''entropy'', float_json env ent), (''risk'', JStr (entropy_risk ent)),
            (''executable'', JBool (flag_set (sc_chars s) 0x20000000)), (''writable'', JBool (flag_set (sc_chars s) 0x40000000)),
            (''wx_combo'', JBool (flag_set (sc_chars s) 0x20000000))])"

lemma le_at_skip: "le_at w (length a + k) (a @ b) = le_at w k b"
  by (simp add: le_at_def)

lemma length_section: "section_spec_ok s \<Longrightarrow> length (section_bytes s) = 40"
  by (simp add: section_bytes_def section_spec_ok_def)

lemma rstrip_zeros: "name = [] \<or> List.last name \<noteq> CHR 0x00 \<Longrightarrow> rstrip_nul (name @ zeros n) = name"
  by (rule rstrip_padded)

lemma pe_section_said:
  assumes "section_spec_ok s" and "data = a @ section_bytes s @ b"
  shows "pe_section env data (length a) = section_said env data s"
proof -
  have n: "length (sc_name s) \<le> 8" "8 - length (sc_name s) + length (sc_name s) = 8"
    using assms(1) by (simp_all add: section_spec_ok_def)
  let ?tail = "le_bytes 4 (sc_vsize s) @ le_bytes 4 (sc_vaddr s) @ le_bytes 4 (sc_size s) @ le_bytes 4 (sc_offset s) @ zeros 12
      @ le_bytes 4 (sc_chars s) @ b"
  define name where "name = sc_name s @ zeros (8 - length (sc_name s))"
  have name: "length name = 8" using n by (simp add: name_def)
  have data: "data = (a @ name) @ ?tail" by (simp add: assms(2) section_bytes_def name_def)
  have field: "le_at w (length a + (8 + k)) data = le_at w k ?tail" for w k
    using le_at_skip[of w "a @ name" k ?tail] name unfolding data by (simp add: add.assoc)
  have f: "le_at 4 (length a + 8) data = sc_vsize s" "le_at 4 (length a + 16) data = sc_size s"
    "le_at 4 (length a + 20) data = sc_offset s" "le_at 4 (length a + 36) data = sc_chars s"
    using field[of 4 0] field[of 4 8] field[of 4 12] field[of 4 28] assms(1)
    by (simp_all add: le_at_def section_spec_ok_def)
  have "take 8 (drop (length a) data) = name" unfolding data using name by simp
  then have "ascii_ignore (rstrip_nul (take 8 (drop (length a) data))) = sc_name s"
    using assms(1) rstrip_zeros[of "sc_name s"] by (simp add: name_def section_spec_ok_def ascii_ignore_def list_all_iff)
  then show ?thesis by (simp only: pe_section_def section_said_def f Let_def)
qed

lemma pe_sections_said:
  assumes "list_all section_spec_ok ss" and "k \<le> length ss" and "data = a @ concat (map section_bytes ss) @ b"
  shows "pe_sections env data (length a) k = map (section_said env data) (take k ss)"
  using assms
proof (induction ss arbitrary: a k)
  case (Cons s ss)
  show ?case
  proof (cases k)
    case (Suc j)
    have s: "section_spec_ok s" and ss: "list_all section_spec_ok ss" using Cons.prems(1) by simp_all
    have d: "data = a @ section_bytes s @ (concat (map section_bytes ss) @ b)" using Cons.prems(3) by simp
    then have d': "data = (a @ section_bytes s) @ concat (map section_bytes ss) @ b" by simp
    have "pe_sections env data (length (a @ section_bytes s)) j = map (section_said env data) (take j ss)"
      by (rule Cons.IH[OF ss _ d']) (use Cons.prems(2) Suc in simp)
    moreover have "length (a @ section_bytes s) = length a + 40" "\<not> length data < length a + 40"
      using length_section[OF s] unfolding d by simp_all
    ultimately show ?thesis using pe_section_said[OF s d] by (simp add: Suc)
  qed simp
qed simp

lemma length_optional: "length (optional_header p) = 112 \<or> length (optional_header p) = 96"
  by (simp add: optional_header_def)

text \<open>Reading the optional header.\<close>

lemma pe_optional_reads:
  assumes "pe_spec_ok dos stub p" and "data = a @ optional_header p @ b"
  shows "pe_optional data (length a) = Inr (px_entry p, px_base p)"
proof (cases "px_plus p")
  case True
  have "le_at 2 (length a) data = 0x20b" "le_at 4 (length a + 16) data = px_entry p" "le_at 8 (length a + 24) data = px_base p"
    "\<not> length data < length a + 32"
    using assms(1) le_at_skip[of 2 a 0] True unfolding assms(2)
    by (simp_all add: le_at_def optional_header_def pe_spec_ok_def)
  then show ?thesis by (simp add: pe_optional_def)
next
  case False
  have data: "data = (a @ le_bytes 2 0x10b @ zeros 14 @ le_bytes 4 (px_entry p) @ zeros 8) @ le_bytes 4 (px_base p) @ (zeros 64 @ b)"
    using False by (simp add: assms(2) optional_header_def)
  have "unpack_le 4 (length a + 28) data = Inr (px_base p)"
    unfolding data by (rule unpack_at) (use assms(1) False in \<open>simp_all add: pe_spec_ok_def\<close>)
  moreover have "le_at 2 (length a) data = 0x10b" "le_at 4 (length a + 16) data = px_entry p" "\<not> length data < length a + 28"
    using assms(1) False unfolding assms(2) by (simp_all add: le_at_def optional_header_def pe_spec_ok_def)
  ultimately show ?thesis by (simp add: pe_optional_def)
qed


section \<open>The scan for API names\<close>

definition permutes_sets :: "static_env \<Rightarrow> bool" where
  "permutes_sets env \<longleftrightarrow> (\<forall>xs. set (se_order env xs) = set xs \<and> distinct (se_order env xs))"

definition listed :: "string \<Rightarrow> string \<Rightarrow> (string \<times> string list) list \<Rightarrow> bool" where
  "listed cat api hits = list_ex (\<lambda>(c, apis). c = cat \<and> api \<in> set apis) hits"

definition hits_exact :: "string \<Rightarrow> (string \<times> string list) list \<Rightarrow> bool" where
  "hits_exact data hits \<longleftrightarrow> map fst hits = map fst API_CATEGORIES
     \<and> list_all (\<lambda>(cat, apis). list_all (\<lambda>api. contains_str api data \<longrightarrow> listed cat api hits) apis) API_CATEGORIES
     \<and> list_all (\<lambda>(cat, apis). distinct apis \<and> list_all (\<lambda>api. contains_str (byte_lower api) (byte_lower data)
          \<and> api \<in> set (the (map_of API_CATEGORIES cat))) apis) hits"

lemma distinct_categories: "distinct (map fst API_CATEGORIES)"
  by (simp add: API_CATEGORIES_def)

lemma lower_keeps_hit: "contains_str w s \<Longrightarrow> contains_str (byte_lower w) (byte_lower s)"
proof -
  assume "contains_str w s"
  then obtain a b where "s = a @ w @ b" by (auto simp: contains_str_iff)
  then have "byte_lower s = byte_lower a @ byte_lower w @ byte_lower b" by (simp add: byte_lower_def)
  then show "contains_str (byte_lower w) (byte_lower s)" unfolding contains_str_iff by blast
qed

lemma api_hits_exact:
  assumes "permutes_sets env" and "\<And>api. contains_str api data \<Longrightarrow> hit api"
    and "\<And>api. hit api \<Longrightarrow> contains_str (byte_lower api) (byte_lower data)"
  shows "hits_exact data (api_hits env hit)"
proof -
  have perm: "set (se_order env xs) = set xs" "distinct (se_order env xs)" for xs
    using assms(1) by (simp_all add: permutes_sets_def)
  have there: "map_of API_CATEGORIES cat = Some apis" if "(cat, apis) \<in> set API_CATEGORIES" for cat apis
    using that distinct_categories by simp
  have 1: "map fst (api_hits env hit) = map fst API_CATEGORIES"
    by (simp add: api_hits_def comp_def split_beta)
  have 2: "listed cat api (api_hits env hit)" if "(cat, apis) \<in> set API_CATEGORIES" "api \<in> set apis" "contains_str api data" for cat apis api
    unfolding listed_def list_ex_iff api_hits_def
    by (rule bexI[of _ "(cat, filter hit (se_order env apis))"]) (use that perm assms(2) in \<open>auto intro!: image_eqI[of _ _ "(cat, apis)"]\<close>)
  have 3: "distinct apis \<and> list_all (\<lambda>api. contains_str (byte_lower api) (byte_lower data) \<and> api \<in> set (the (map_of API_CATEGORIES cat))) apis"
    if hit: "(cat, apis) \<in> set (api_hits env hit)" for cat apis
  proof -
    obtain all where all: "(cat, all) \<in> set API_CATEGORIES" "apis = filter hit (se_order env all)"
      using hit by (auto simp: api_hits_def)
    then show ?thesis using perm assms(3) there[OF all(1)] by (simp add: list_all_iff)
  qed
  show ?thesis unfolding hits_exact_def list_all_iff[of _ API_CATEGORIES] list_all_iff[of _ "api_hits env hit"]
    using 1 2 3 by (auto simp: list_all_iff)
qed

text \<open>Whatever the file, truncated or malformed, the details of its report list the API names by category:
  every name that occurs in the file under its category, no name twice and none that does not occur in it up
  to case, and the total is their number.\<close>

theorem api_scan_is_exact:
  assumes "permutes_sets env"
  shows "\<exists>hits. dict_get ''suspicious_by_category'' (with_hits env data (static_details env data filename)) = hits_json hits
     \<and> dict_get ''total_suspicious_apis'' (with_hits env data (static_details env data filename)) = JInt (int (hit_count hits))
     \<and> hits_exact data hits"
proof -
  let ?direct = "api_hits env (\<lambda>api. contains_str api data)"
  let ?folded = "api_hits env (\<lambda>api. contains_str (byte_lower api) (byte_lower data))"
  have ok: "hits_exact data ?direct" "hits_exact data ?folded"
    by (rule api_hits_exact[OF assms]; simp add: lower_keeps_hit)+
  have plain: "dict_get ''suspicious_by_category'' (with_hits env data d) = hits_json ?direct
      \<and> dict_get ''total_suspicious_apis'' (with_hits env data d) = JInt (int (hit_count ?direct))"
    if "\<not> has_key ''suspicious_by_category'' d" "\<not> has_key ''total_suspicious_apis'' d" for d
    using that by (auto simp: with_hits_def Let_def dict_get_def has_key_def map_add_def map_of_eq_None_iff[symmetric] split: option.splits)
  have own: "dict_get ''suspicious_by_category'' (with_hits env data d) = dict_get ''suspicious_by_category'' d
      \<and> dict_get ''total_suspicious_apis'' (with_hits env data d) = dict_get ''total_suspicious_apis'' d"
    if "has_key ''suspicious_by_category'' d" for d
    using that by (simp add: with_hits_def)
  have pe: "case pe_details env data of
      Inl e \<Rightarrow> analyze_pe env data = [(''format'', JStr ''PE''), (''error'', JStr e)]
    | Inr d \<Rightarrow> has_key ''suspicious_by_category'' (analyze_pe env data)
        \<and> dict_get ''suspicious_by_category'' (analyze_pe env data) = hits_json ?direct
        \<and> dict_get ''total_suspicious_apis'' (analyze_pe env data) = JInt (int (hit_count ?direct))"
    by (auto simp: analyze_pe_def or_failed_def pe_details_def Let_def split: sum.splits)
  have elf: "case elf_details env data of
      Inl e \<Rightarrow> analyze_elf env data = [(''format'', JStr ''ELF''), (''error'', JStr e)]
    | Inr d \<Rightarrow> has_key ''suspicious_by_category'' (analyze_elf env data)
        \<and> dict_get ''suspicious_by_category'' (analyze_elf env data) = hits_json ?folded
        \<and> dict_get ''total_suspicious_apis'' (analyze_elf env data) = JInt (int (hit_count ?folded))"
    by (auto simp: analyze_elf_def or_failed_def elf_details_def Let_def split: sum.splits)
  have none: "\<not> has_key k (analyze_pdf env data) \<and> \<not> has_key k (analyze_script env data filename)"
    if "k \<in> {''suspicious_by_category'', ''total_suspicious_apis''}" for k
    using that by (auto simp: analyze_pdf_def analyze_script_def Let_def)
  show ?thesis
  proof (cases "static_file_type data filename = ''pe'' \<or> static_file_type data filename = ''elf''")
    case True
    then have "static_details env data filename \<in> {analyze_pe env data, analyze_elf env data}"
      by (auto simp: static_details_def Let_def)
    moreover have "\<not> has_key ''suspicious_by_category'' [(''format'', JStr f), (''error'', JStr e)]"
      "\<not> has_key ''total_suspicious_apis'' [(''format'', JStr f), (''error'', JStr e)]" for f e by simp_all
    ultimately show ?thesis
      using pe elf ok own plain by (auto split: sum.splits)
  next
    case False
    then have "\<not> has_key ''suspicious_by_category'' (static_details env data filename)" "\<not> has_key ''total_suspicious_apis'' (static_details env data filename)"
      using none by (simp_all add: static_details_def Let_def)
    then show ?thesis using plain ok(1) by blast
  qed
qed

section \<open>What the report gets wrong\<close>

text \<open>A section counts as writable and executable when it is executable.\<close>

lemma executable_means_wx:
  "\<exists>kvs. pe_section env data so = JObj kvs \<and> dict_get ''wx_combo'' kvs = dict_get ''executable'' kvs"
  by (simp add: pe_section_def Let_def)

text \<open>A PE32 header that ends between its 28th and 32nd byte passes the bound and then cannot be read: the
  whole report is an error.\<close>

lemma short_header_fails:
  assumes "le_at 2 opt data = 0x10b" and "opt + 28 \<le> length data" and "length data < opt + 32"
  shows "\<exists>e. pe_optional data opt = Inl e"
  using assms by (simp add: pe_optional_def unpack_le_def Let_def)

text \<open>Every imported library is listed with the same functions, those of the whole file.\<close>

lemma imports_are_alike:
  "\<exists>fs. list_all (\<lambda>(_, funcs). funcs = fs) (pe_imports env data)"
  by (auto simp: pe_imports_def Let_def list_all_iff)

section \<open>Witnesses\<close>

definition demo_static :: static_env where
  "demo_static = \<lparr>se_entropy = (\<lambda>_. 0), se_repr = (\<lambda>_. ''0.0''), se_decode = (\<lambda>s. s), se_order = remdups\<rparr>"

definition demo_pe :: pe_spec where
  "demo_pe = \<lparr>px_machine = 0x8664, px_timestamp = 7, px_characteristics = 0x2002, px_entry = 0x1000, px_base = 0x140000000,
     px_plus = True, px_sections = [\<lparr>sc_name = ''.text'', sc_vsize = 1, sc_vaddr = 2, sc_size = 3, sc_offset = 4, sc_chars = 0\<rparr>]\<rparr>"


theorem api_scan_is_exact_witness:
  "\<exists>hits. dict_get ''suspicious_by_category'' (with_hits demo_static ''x socket'' (static_details demo_static ''x socket'' ''a.sh'')) = hits_json hits
     \<and> hits_exact ''x socket'' hits"
proof -
  have "permutes_sets demo_static" by (simp add: permutes_sets_def demo_static_def)
  from api_scan_is_exact[OF this] show ?thesis by blast
qed

end
