(* ===== verification/Lab_Api.thy ===== *)
theory Lab_Api
  imports Lab_Sessions Aws_Labs Accounts
begin

text \<open>
  The lab endpoints that talk to a provider directly (\<open>backend/app/api/v1/endpoints/vm.py\<close> and
  \<open>session.py\<close>), beside the session manager of the theory Lab_Sessions and over the same world: the
  provider, the lab table and a registry these endpoints do not know.

  Arguments: the account the token stands for, the id a provider draws, the texts of provider errors. A
  reply carries what the caller reads; the status endpoint and the description of the provider only
  read and are left out.
\<close>

section \<open>The endpoints\<close>

record launch_request =
  lq_environment :: string
  lq_profile :: string
  lq_protocol :: string
  lq_lab_id :: string \<comment> \<open>empty when absent\<close>

definition provider_status :: "provider_error \<Rightarrow> int" where
  "provider_status e = (case e of Unsupported_environment \<Rightarrow> 400 | Provider_unavailable \<Rightarrow> 503 | Provider_failure \<Rightarrow> 500)"

definition aws_credentials_given :: "string option \<times> string option \<times> string option \<Rightarrow> bool" where
  "aws_credentials_given = (\<lambda>(region, access, secret). list_ex (\<lambda>x. case x of Some (c # cs) \<Rightarrow> True | _ \<Rightarrow> False) [region, access, secret])"

definition direct_config :: "user \<Rightarrow> launch_request \<Rightarrow> lab_config" where
  "direct_config u q = \<lparr>lc_environment = lq_environment q, lc_profile = lq_profile q, lc_protocol = lq_protocol q,
     lc_owner = Some (u_id u), lc_labels = (if lq_lab_id q \<noteq> [] then [(''lab_id'', lq_lab_id q)] else [])\<rparr>"

definition vm_launch :: "'s provider \<Rightarrow> bool \<Rightarrow> (provider_error \<Rightarrow> string) \<Rightarrow> string \<Rightarrow> (http_error + user) \<Rightarrow> launch_request
    \<Rightarrow> 's lab_world \<Rightarrow> (http_error + lab_info) \<times> 's lab_world" where
  "vm_launch p db_up err fresh_id who q w =
     (case who of
        Inl e \<Rightarrow> (Inl e, w)
      | Inr u \<Rightarrow>
          (case pv_launch p fresh_id (direct_config u q) (lw_provider w) of
             (Inl e, s) \<Rightarrow> (Inl (provider_status e, err e), w\<lparr>lw_provider := s\<rparr>)
           | (Inr info, s) \<Rightarrow>
               (Inr info, insert_vm db_up \<lparr>vm_id = li_id info, vm_status = PROVISIONING, vm_owner = u_id u, vm_private_ip = None\<rparr>
                  (w\<lparr>lw_provider := s\<rparr>))))"

definition vm_terminate :: "'s provider \<Rightarrow> bool \<Rightarrow> (provider_error \<Rightarrow> string) \<Rightarrow> (http_error + user) \<Rightarrow> string
    \<Rightarrow> 's lab_world \<Rightarrow> (http_error + string) \<times> 's lab_world" where
  "vm_terminate p db_up err who lab_id w =
     (case who of
        Inl e \<Rightarrow> (Inl e, w)
      | Inr _ \<Rightarrow>
          (case pv_terminate p lab_id (lw_provider w) of
             (Inl e, s) \<Rightarrow> (Inl (if e = Provider_unavailable then 503 else 500, err e), w\<lparr>lw_provider := s\<rparr>)
           | (Inr False, s) \<Rightarrow> (Inl (500, ''Failed to terminate lab.''), w\<lparr>lw_provider := s\<rparr>)
           | (Inr True, s) \<Rightarrow> (Inr ''Termination initiated'', set_vm db_up lab_id (\<lambda>r. r\<lparr>vm_status := TERMINATED\<rparr>) (w\<lparr>lw_provider := s\<rparr>))))"

text \<open>\<open>POST /session/{lab_id}/open\<close>: \<open>url\<close> is what the provider answers.\<close>

definition open_lab_console :: "(http_error + user) \<Rightarrow> (provider_error + string option) \<Rightarrow> (provider_error \<Rightarrow> string)
    \<Rightarrow> http_error + (string option \<times> string)" where
  "open_lab_console who url err =
     (case who of
        Inl e \<Rightarrow> Inl e
      | Inr _ \<Rightarrow> (case url of
          Inl e \<Rightarrow> Inl (if e = Provider_unavailable then 503 else 500, err e)
        | Inr None \<Rightarrow> Inr (None, ''Use the Guacamole workspace for this lab.'')
        | Inr (Some u) \<Rightarrow> Inr (Some u, ''Console link generated.'')))"

section \<open>Beside the session manager\<close>

datatype door_event =
    Managed lab_event
  | Direct_launch "http_error + user" string launch_request
  | Direct_terminate "http_error + user" string

fun door_step :: "'s provider \<Rightarrow> (provider_error \<Rightarrow> string) \<Rightarrow> (nat \<Rightarrow> string) \<Rightarrow> 's lab_world \<Rightarrow> door_event \<Rightarrow> 's lab_world" where
  "door_step p err new_id w (Managed e) = lab_step p True new_id w e"
| "door_step p err new_id w (Direct_launch who fresh_id q) = snd (vm_launch p True err fresh_id who q w)"
| "door_step p err new_id w (Direct_terminate who lab_id) = snd (vm_terminate p True err who lab_id w)"

definition rows_distinct :: "'s lab_world \<Rightarrow> bool" where
  "rows_distinct w \<longleftrightarrow> distinct (map vm_id (lw_vms w))"

lemma set_vm_rows [simp]: "(\<And>r. vm_id (f r) = vm_id r) \<Longrightarrow> rows_distinct (set_vm up lab_id f w) = rows_distinct w"
  by (simp add: rows_distinct_def set_vm_def comp_def if_distrib cong: if_cong)

lemma other_rows [simp]:
  "rows_distinct (set_lab lab_id g w) = rows_distinct w" "rows_distinct (w\<lparr>lw_provider := s\<rparr>) = rows_distinct w"
  "rows_distinct (w\<lparr>lw_guac := g'\<rparr>) = rows_distinct w" "rows_distinct (w\<lparr>lw_workers := ks\<rparr>) = rows_distinct w"
  "rows_distinct (w\<lparr>lw_stops := ss\<rparr>) = rows_distinct w" "rows_distinct (drop_worker lab_id w) = rows_distinct w"
  "rows_distinct (load_local_state w) = rows_distinct w"
  by (simp_all add: rows_distinct_def set_lab_def drop_worker_def load_local_state_def)

lemma insert_vm_rows: "rows_distinct w \<Longrightarrow> rows_distinct (insert_vm up r w)"
  by (simp add: rows_distinct_def insert_vm_def)

lemma update_rows [simp]: "rows_distinct (update_db_status up lab_id st w) = rows_distinct w"
  by (simp add: update_db_status_def)

lemma connect_rows: "rows_distinct w \<Longrightarrow> rows_distinct (connect_lab up guac lab_id x w)"
  by (simp add: connect_lab_def split: prod.split option.split)

lemma managed_rows: "rows_distinct w \<Longrightarrow> rows_distinct (lab_step p up new_id w e)"
proof (cases e)
  case (Start owner environment profile protocol)
  assume "rows_distinct w"
  then have "rows_distinct (w\<lparr>lw_provider := s, lw_launched := n, lw_labs := ls, lw_workers := ks\<rparr>)"
    "rows_distinct (w\<lparr>lw_provider := s, lw_launched := n\<rparr>)" for s n ls ks
    by (simp_all add: rows_distinct_def)
  then show ?thesis by (simp add: Start start_lab_def insert_vm_rows Let_def split: prod.split sum.split)
qed (auto simp: lab_waited_def lab_resolved_def stop_lab_def lab_stopped_def reattach_def connect_rows Let_def
    split: prod.splits sum.splits option.splits bool.splits)

context lab_provider
begin

lemma door_safe:
  assumes "safe (lw_provider w)" shows "safe (lw_provider (door_step p err new_id w e))"
proof (cases e)
  case (Managed l)
  then show ?thesis using step_safe[OF assms] by simp
next
  case (Direct_launch who fresh_id q)
  show ?thesis
  proof (cases who)
    case (Inr u)
    obtain r s where l: "pv_launch p fresh_id (direct_config u q) (lw_provider w) = (r, s)" by (metis surj_pair)
    then have "safe s" using safe_ops(1)[OF assms, of fresh_id "direct_config u q"] by simp
    then show ?thesis using l by (cases r) (simp_all add: Direct_launch Inr vm_launch_def provider_frames)
  qed (use assms in \<open>simp add: Direct_launch vm_launch_def\<close>)
next
  case (Direct_terminate who lab_id)
  show ?thesis
  proof (cases who)
    case (Inr u)
    obtain r s where l: "pv_terminate p lab_id (lw_provider w) = (r, s)" by (metis surj_pair)
    then have "safe s" using safe_ops(4)[OF assms, of lab_id] by simp
    then show ?thesis using l
      by (auto simp: Direct_terminate Inr vm_terminate_def set_vm_def split: sum.split bool.split)
  qed (use assms in \<open>simp add: Direct_terminate vm_terminate_def\<close>)
qed

lemma doors_safe: "safe s \<Longrightarrow> safe (lw_provider (foldl (door_step p err new_id) (no_labs s) es))"
  by (induction es rule: rev_induct) (simp_all add: door_safe, simp add: no_labs_def)

end

lemma direct_rows: "rows_distinct w \<Longrightarrow> rows_distinct (door_step p err new_id w e)"
  by (cases e) (auto simp: managed_rows vm_launch_def vm_terminate_def insert_vm_rows Let_def split: sum.splits prod.splits bool.splits)

lemma doors_rows: "rows_distinct (foldl (door_step p err new_id) (no_labs s) es)"
  by (induction es rule: rev_induct) (simp_all add: direct_rows, simp add: rows_distinct_def no_labs_def)


section \<open>What the second door breaks\<close>

text \<open>A lab of the session manager that is terminated through the direct endpoint stays ready in the
  registry, with its Guacamole connection.\<close>

lemma direct_terminate_leaves_registry:
  assumes "pv_terminate p lab_id (lw_provider w) = (Inr True, s)" and "map_of (lw_labs w) lab_id = Some r" and "lr_status r = READY"
    and "\<exists>v \<in> set (lw_vms w). vm_id v = lab_id"
  shows "map_of (lw_labs (snd (vm_terminate p True err (Inr u) lab_id w))) lab_id = Some r"
    "lw_guac (snd (vm_terminate p True err (Inr u) lab_id w)) = lw_guac w"
    "\<exists>v \<in> set (lw_vms (snd (vm_terminate p True err (Inr u) lab_id w))). vm_id v = lab_id \<and> vm_status v = TERMINATED"
proof -
  have run: "snd (vm_terminate p True err (Inr u) lab_id w) = set_vm True lab_id (\<lambda>r. r\<lparr>vm_status := TERMINATED\<rparr>) (w\<lparr>lw_provider := s\<rparr>)"
    by (simp add: vm_terminate_def assms(1))
  show "map_of (lw_labs (snd (vm_terminate p True err (Inr u) lab_id w))) lab_id = Some r"
    "lw_guac (snd (vm_terminate p True err (Inr u) lab_id w)) = lw_guac w"
    by (simp_all add: run set_vm_def assms(2))
  obtain v where v: "v \<in> set (lw_vms w)" "vm_id v = lab_id" using assms(4) by blast
  show "\<exists>v \<in> set (lw_vms (snd (vm_terminate p True err (Inr u) lab_id w))). vm_id v = lab_id \<and> vm_status v = TERMINATED"
    unfolding run set_vm_def by (rule bexI[of _ "v\<lparr>vm_status := TERMINATED\<rparr>"]) (use v in \<open>auto intro!: image_eqI[of _ _ v]\<close>)
qed

text \<open>The caller is not compared with the owner: any active account terminates any lab.\<close>

lemma terminate_asks_no_owner: "vm_terminate p up err (Inr u) lab_id w = vm_terminate p up err (Inr v) lab_id w"
  by (simp add: vm_terminate_def)

end
