(* ===== verification/Sensor_Metrics.thy ===== *)
theory Sensor_Metrics
  imports Containers
begin

text \<open>
  State and resource usage of the sensor containers (\<open>backend/app/services/container_status.py\<close>): the
  state read through the container manager and cached for eight seconds, and the sampler that turns the counters
  of \<open>docker stats\<close> into rates.

  Arguments: the daemon, the clock in seconds, \<open>fromisoformat(...).timestamp()\<close>, and what \<open>stats\<close> returns,
  as a record of the fields the code reads; a counter that is absent reads as zero.
\<close>

definition METRIC_CONTAINERS :: "(string \<times> string) list" where
  "METRIC_CONTAINERS =
     [(''COWRIE'', ''honeynet_cowrie''), (''DIONAEA'', ''honeynet_dionaea''), (''HONEYTRAP'', ''honeynet_honeytrap'')]"

definition STATE_TTL :: rat where
  "STATE_TTL = 8"

section \<open>State\<close>

text \<open>Nanoseconds are cut to microseconds; the offset is what follows the first plus, else the first minus.\<close>

definition split_zone :: "string \<Rightarrow> string \<times> string" where
  "split_zone tail_of =
     (if CHR ''+'' \<in> set tail_of then (takeWhile (\<lambda>c. c \<noteq> CHR ''+'') tail_of, dropWhile (\<lambda>c. c \<noteq> CHR ''+'') tail_of)
      else if CHR ''-'' \<in> set tail_of then (takeWhile (\<lambda>c. c \<noteq> CHR ''-'') tail_of, dropWhile (\<lambda>c. c \<noteq> CHR ''-'') tail_of)
      else (tail_of, []))"

definition iso_of_docker :: "string \<Rightarrow> string" where
  "iso_of_docker raw =
     (let txt = concat (map (\<lambda>c. if c = CHR ''Z'' then ''+00:00'' else [c]) raw) in
      case partition_on (CHR ''.'') txt of
        (head, Some tail_of) \<Rightarrow> (let (frac, tz) = split_zone tail_of in head @ ''.'' @ take 6 frac @ tz)
      | _ \<Rightarrow> txt)"

definition parse_started_at :: "(string \<Rightarrow> rat option) \<Rightarrow> string \<Rightarrow> rat" where
  "parse_started_at timestamp raw =
     (if raw = [] \<or> starts_with ''0001-01-01'' raw then 0
      else (case timestamp (iso_of_docker raw) of Some t \<Rightarrow> t | None \<Rightarrow> 0))"

datatype sensor_state =
    State_unavailable
  | State_absent
  | State_known (ss_running: bool) (ss_status: string) (ss_health: "string option") (ss_uptime: int)

type_synonym sensor_states = "(string \<times> sensor_state) list"

record state_cache =
  sk_ts :: rat
  sk_data :: sensor_states

definition sensor_state_of :: "(string \<Rightarrow> rat option) \<Rightarrow> rat \<Rightarrow> stack_entry option \<Rightarrow> sensor_state" where
  "sensor_state_of timestamp now info =
     (case info of
        None \<Rightarrow> State_absent
      | Some i \<Rightarrow>
          (let started = parse_started_at timestamp (case se_started_at i of Some s \<Rightarrow> s | None \<Rightarrow> [])
           in State_known (se_running i) (se_status i) (se_health i)
                (if se_running i \<and> started \<noteq> 0 then truncate_rat (now - started) else 0)))"

definition sensor_container_states ::
  "daemon \<Rightarrow> bool \<Rightarrow> (string \<Rightarrow> rat option) \<Rightarrow> rat \<Rightarrow> state_cache \<Rightarrow> manager \<Rightarrow> sensor_states \<times> state_cache \<times> manager" where
  "sensor_container_states dk installed timestamp now cache m =
     (if now - sk_ts cache < STATE_TTL \<and> sk_data cache \<noteq> [] then (sk_data cache, cache, m)
      else (let unavailable = map (\<lambda>(s, _). (s, State_unavailable)) METRIC_CONTAINERS;
                fresh = (\<lambda>by_name. map (\<lambda>(s, c). (s, sensor_state_of timestamp now (map_of by_name c))) METRIC_CONTAINERS)
        in (case read_stack_status dk installed (map snd METRIC_CONTAINERS) m of
              (Inl _, m) \<Rightarrow> (unavailable, cache, m)
            | (Inr by_name, m) \<Rightarrow>
                (case (if by_name = [] then available dk installed m else (True, m)) of
                   (False, m) \<Rightarrow> (unavailable, cache, m)
                 | (True, m) \<Rightarrow> (fresh by_name, \<lparr>sk_ts = now, sk_data = fresh by_name\<rparr>, m)))))"

section \<open>Usage\<close>

record docker_stats =
  ds_total :: int
  ds_pre_total :: int
  ds_system :: int
  ds_pre_system :: int
  ds_online_cpus :: int
  ds_percpu :: nat
  ds_mem_usage :: int
  ds_inactive_file :: "int option"
  ds_cache :: "int option"
  ds_mem_limit :: int
  ds_networks :: "(int \<times> int) list"

datatype stats_read = Stats_failed string | Not_running | Stats docker_stats

record usage =
  us_cpu_percent :: rat
  us_memory_percent :: "rat option"
  us_memory_used_mb :: rat
  us_rx_kbps :: "rat option"
  us_tx_kbps :: "rat option"

datatype reading = Unreadable string | Stopped_container | Usage usage

type_synonym net_memory = "(string \<times> (rat \<times> int \<times> int)) list"

definition percent_of :: "rat \<Rightarrow> rat \<Rightarrow> rat option" where
  "percent_of part whole = (if whole \<noteq> 0 then Some (py_round 1 (part / whole * 100)) else None)"

definition cpus_of :: "docker_stats \<Rightarrow> int" where
  "cpus_of s = (if ds_online_cpus s \<noteq> 0 then ds_online_cpus s else if ds_percpu s \<noteq> 0 then int (ds_percpu s) else 1)"

definition cpu_percent :: "docker_stats \<Rightarrow> rat" where
  "cpu_percent s =
     (let cpu_delta = ds_total s - ds_pre_total s; system_delta = ds_system s - ds_pre_system s in
      if system_delta > 0 \<and> cpu_delta \<ge> 0
      then py_round 1 (of_int cpu_delta / of_int system_delta * of_int (cpus_of s) * 100) else 0)"

definition memory_used :: "docker_stats \<Rightarrow> int" where
  "memory_used s = max 0 (ds_mem_usage s - (case ds_inactive_file s of Some f \<Rightarrow> f
      | None \<Rightarrow> (case ds_cache s of Some c \<Rightarrow> c | None \<Rightarrow> 0)))"

definition net_rate :: "rat \<Rightarrow> int \<Rightarrow> int \<Rightarrow> rat" where
  "net_rate elapsed before now_count = py_round 2 (of_int (max 0 (now_count - before)) / elapsed / 1024)"

text \<open>One sample of a container; it also moves the remembered network counters.\<close>

definition sample_container :: "rat \<Rightarrow> string \<Rightarrow> stats_read \<Rightarrow> net_memory \<Rightarrow> reading \<times> net_memory" where
  "sample_container now name r prev =
     (case r of
        Stats_failed e \<Rightarrow> (Unreadable (take 200 e), prev)
      | Not_running \<Rightarrow> (Stopped_container, AList.delete name prev)
      | Stats s \<Rightarrow>
          (let rx = sum_list (map fst (ds_networks s)); tx = sum_list (map snd (ds_networks s)); used = memory_used s;
               rates = (case map_of prev name of
                   Some (t, rx0, tx0) \<Rightarrow> (if now > t then (Some (net_rate (now - t) rx0 rx), Some (net_rate (now - t) tx0 tx)) else (None, None))
                 | None \<Rightarrow> (None, None))
           in (Usage \<lparr>us_cpu_percent = cpu_percent s,
                 us_memory_percent = percent_of (of_int used) (of_int (ds_mem_limit s)),
                 us_memory_used_mb = py_round 1 (of_int used / 1048576), us_rx_kbps = fst rates, us_tx_kbps = snd rates\<rparr>,
               AList.update name (now, rx, tx) prev)))"

text \<open>One pass of the sampler over all sensors.\<close>

fun sample_all :: "rat \<Rightarrow> (string \<Rightarrow> stats_read) \<Rightarrow> (string \<times> string) list \<Rightarrow> net_memory \<Rightarrow> (string \<times> reading) list \<times> net_memory" where
  "sample_all now read [] prev = ([], prev)"
| "sample_all now read ((sensor, cname) # cs) prev =
     (let (r, prev) = sample_container now cname (read cname) prev; (rs, prev) = sample_all now read cs prev
      in ((sensor, r) # rs, prev))"

record metrics_state =
  mt_metrics :: "(string \<times> reading) list"
  mt_prev :: net_memory
  mt_published :: "(string \<times> reading) list list"

definition sampler_pass :: "metrics_state \<Rightarrow> rat \<times> (string \<Rightarrow> stats_read) \<Rightarrow> metrics_state" where
  "sampler_pass st = (\<lambda>(now, read).
     let (snapshot, prev) = sample_all now read METRIC_CONTAINERS (mt_prev st) in
     \<lparr>mt_metrics = snapshot, mt_prev = prev, mt_published = mt_published st @ [snapshot]\<rparr>)"

definition new_metrics :: metrics_state where
  "new_metrics = \<lparr>mt_metrics = [], mt_prev = [], mt_published = []\<rparr>"

section \<open>Readings stay in range\<close>

definition rate_ok :: "rat option \<Rightarrow> bool" where
  "rate_ok r = (case r of None \<Rightarrow> True | Some x \<Rightarrow> 0 \<le> x)"

definition stats_sane :: "stats_read \<Rightarrow> bool" where
  "stats_sane r = (case r of Stats s \<Rightarrow> 0 \<le> ds_online_cpus s \<and> 0 \<le> ds_mem_limit s
       \<and> (ds_mem_limit s = 0 \<or> ds_mem_usage s \<le> ds_mem_limit s)
       \<and> 0 \<le> (case ds_inactive_file s of Some f \<Rightarrow> f | None \<Rightarrow> (case ds_cache s of Some c \<Rightarrow> c | None \<Rightarrow> 0)) | _ \<Rightarrow> True)"

definition reading_ok :: "reading \<Rightarrow> bool" where
  "reading_ok r = (case r of Usage u \<Rightarrow> 0 \<le> us_cpu_percent u \<and> 0 \<le> us_memory_used_mb u
       \<and> (case us_memory_percent u of None \<Rightarrow> True | Some p \<Rightarrow> 0 \<le> p \<and> p \<le> 100)
       \<and> rate_ok (us_rx_kbps u) \<and> rate_ok (us_tx_kbps u) | _ \<Rightarrow> True)"

lemma py_round_nonneg: "0 \<le> x \<Longrightarrow> 0 \<le> py_round n x"
  using py_round_mono[of 0 x n] by simp

lemma cpu_percent_nonneg: "0 \<le> ds_online_cpus s \<Longrightarrow> 0 \<le> cpu_percent s"
  by (auto simp: cpu_percent_def cpus_of_def Let_def intro!: py_round_nonneg mult_nonneg_nonneg divide_nonneg_nonneg)

lemma net_rate_nonneg: "0 < elapsed \<Longrightarrow> 0 \<le> net_rate elapsed a b"
  by (auto simp: net_rate_def intro!: py_round_nonneg divide_nonneg_nonneg)

lemma memory_percent_range:
  assumes "stats_sane (Stats s)"
  shows "case percent_of (of_int (memory_used s)) (of_int (ds_mem_limit s)) of None \<Rightarrow> True | Some p \<Rightarrow> 0 \<le> p \<and> p \<le> 100"
proof (cases "ds_mem_limit s = 0")
  case False
  define used limit :: rat where "used = of_int (memory_used s)" and "limit = of_int (ds_mem_limit s)"
  have "0 < ds_mem_limit s" "memory_used s \<le> ds_mem_limit s" "0 \<le> memory_used s"
    using assms False by (auto simp: stats_sane_def memory_used_def)
  then have l: "0 < limit" "0 \<le> used" "used \<le> limit" by (simp_all add: used_def limit_def)
  then have "used / limit * 100 \<le> 100" "0 \<le> used / limit * 100" by (simp_all add: field_simps)
  then have r: "py_round 1 (used / limit * 100) \<le> 100" "0 \<le> py_round 1 (used / limit * 100)"
    using py_round_mono[of "used / limit * 100" 100 1] py_round_nonneg[of "used / limit * 100" 1] by (simp_all only: py_round_numeral)
  have "percent_of used limit = Some (py_round 1 (used / limit * 100))" by (rule percent_of_def[of used limit, THEN trans]) (use l(1) in simp)
  then show ?thesis using r by (simp only: used_def[symmetric] limit_def[symmetric] option.case)
qed (simp add: percent_of_def)

lemma sample_ok:
  assumes "stats_sane r" shows "reading_ok (fst (sample_container now name r prev))"
proof (cases r)
  case (Stats s)
  have rates: "rate_ok (fst (case map_of prev name of
        Some (t, rx0, tx0) \<Rightarrow> (if now > t then (Some (net_rate (now - t) rx0 rx), Some (net_rate (now - t) tx0 tx)) else (None, None))
      | None \<Rightarrow> (None, None))) \<and> rate_ok (snd (case map_of prev name of
        Some (t, rx0, tx0) \<Rightarrow> (if now > t then (Some (net_rate (now - t) rx0 rx), Some (net_rate (now - t) tx0 tx)) else (None, None))
      | None \<Rightarrow> (None, None)))" for rx tx
    by (simp add: rate_ok_def net_rate_nonneg split: option.split prod.split)
  have "0 \<le> cpu_percent s" "0 \<le> py_round 1 (of_int (memory_used s) / 1048576)"
    using assms Stats by (auto simp: stats_sane_def memory_used_def intro!: cpu_percent_nonneg py_round_nonneg)
  then show ?thesis
    using rates memory_percent_range assms unfolding Stats sample_container_def reading_ok_def Let_def by simp
qed (simp_all add: sample_container_def reading_ok_def)

lemma sample_all_ok:
  "(\<And>c. stats_sane (read c)) \<Longrightarrow> list_all (\<lambda>(_, r). reading_ok r) (fst (sample_all now read cs prev))"
proof (induction now read cs prev rule: sample_all.induct)
  case (2 now read sensor cname cs prev)
  obtain r prev' where s: "sample_container now cname (read cname) prev = (r, prev')" by (metis surj_pair)
  have "reading_ok r" using sample_ok[OF 2(2), of now cname cname prev] s by simp
  moreover have "list_all (\<lambda>(_, r). reading_ok r) (fst (sample_all now read cs prev'))"
    using "2.IH"[OF s[symmetric] refl] "2.prems" by simp
  moreover obtain rs prev'' where "sample_all now read cs prev' = (rs, prev'')" by (metis surj_pair)
  ultimately show ?case by (simp add: s)
qed simp


text \<open>A state is served at most eight seconds after it was read.\<close>

lemma states_are_fresh:
  assumes "sensor_container_states dk installed timestamp now cache m = (states, cache', m')"
  shows "(\<exists>s. states = sk_data cache \<and> now - sk_ts cache < 8 \<and> s = cache') \<or> states = map (\<lambda>(s, _). (s, State_unavailable)) METRIC_CONTAINERS
    \<or> sk_ts cache' = now \<and> sk_data cache' = states"
  using assms by (auto simp: sensor_container_states_def STATE_TTL_def Let_def split: if_splits prod.splits sum.splits bool.splits)

section \<open>A witness\<close>

definition demo_stats :: docker_stats where
  "demo_stats = \<lparr>ds_total = 10, ds_pre_total = 20, ds_system = 5, ds_pre_system = 1, ds_online_cpus = 2, ds_percpu = 0, ds_mem_usage = 50,
     ds_inactive_file = None, ds_cache = Some 10, ds_mem_limit = 100, ds_networks = [(5, 5)]\<rparr>"


end
