(* ===== verification/Spec2Isabelle.thy ===== *)
theory Spec2Isabelle
  imports Collector Incidents Credentials Sessions Lab_Sessions Analysis_Shell Validation Data_Admin Profiler Risk_Register Case_File Url_Scan Aws_Labs Fs_Watch Event_Intake Cloud_Telemetry Static_Analyzer Lab_Api Honeypot_Triggers Sensor_Metrics
begin

text \<open>Header.\<close>

end
